(* ===== verification/Prelude.thy ===== *)
theory Prelude
  imports Main "HOL-Library.Word" "HOL-Library.Monad_Syntax"
begin

text \<open>
  Shared vocabulary of the development: the machine types of the C sources, the reading of a
  NUL-terminated buffer, and the generic facts about lists, options and words that the component
  theories use. Nothing in this theory is specific to one component of the interpreter.

  Fallible C code is modelled in the option monad. \<open>None\<close> always stands for an execution the C
  standard gives no meaning to (a read outside a buffer, a dangling pointer, a signed overflow) or
  for one that does not return; error results the code itself reports are values of their own.
\<close>

named_theorems slp_inv \<open>invariant preservation facts of the components\<close>
named_theorems slp_run \<open>equations that evaluate one step of a component\<close>

type_synonym byte = "8 word"
type_synonym u16 = "16 word"
type_synonym u32 = "32 word"
type_synonym u64 = "64 word"
type_synonym bytes = "byte list"

abbreviation NUL :: char where "NUL \<equiv> CHR 0x00"
abbreviation NL :: char where "NL \<equiv> CHR 0x0A"
abbreviation INT32_MAX :: int where "INT32_MAX \<equiv> 2147483647"
abbreviation INT32_MIN :: int where "INT32_MIN \<equiv> - 2147483648"

subsection \<open>C strings\<close>

text \<open>
  A C string is the list of its bytes before the terminating NUL. Index \<open>length s\<close> holds the
  NUL; every larger index is outside the buffer, so reading it has no defined result.
\<close>

definition cread :: "string \<Rightarrow> nat \<Rightarrow> char option" where
  "cread s i = (if i < length s then Some (s ! i) else if i = length s then Some NUL else None)"

definition c_string :: "string \<Rightarrow> bool" where
  "c_string s \<longleftrightarrow> NUL \<notin> set s"

lemma cread_in [simp]: "i < length s \<Longrightarrow> cread s i = Some (s ! i)"
  by (simp add: cread_def)

lemma cread_end [simp]: "cread s (length s) = Some NUL"
  by (simp add: cread_def)

lemma cread_Some_le: "cread s i = Some c \<Longrightarrow> i \<le> length s"
  by (simp add: cread_def split: if_splits)

lemma cread_Some_lt: "cread s i = Some c \<Longrightarrow> c \<noteq> NUL \<Longrightarrow> i < length s"
  by (simp add: cread_def split: if_splits)

lemma cread_None_iff: "cread s i = None \<longleftrightarrow> length s < i"
  by (auto simp: cread_def)

lemma cread_le: "i \<le> length s \<Longrightarrow> \<exists>c. cread s i = Some c"
  by (auto simp: cread_def)

lemma c_string_nth: "c_string s \<Longrightarrow> i < length s \<Longrightarrow> s ! i \<noteq> NUL"
  by (metis c_string_def nth_mem)

lemma cread_NUL: "c_string s \<Longrightarrow> cread s i = Some NUL \<longleftrightarrow> i = length s"
  by (auto simp: cread_def c_string_nth split: if_splits)

subsection \<open>Segments\<close>

definition segment :: "nat \<Rightarrow> nat \<Rightarrow> 'a list \<Rightarrow> 'a list" where
  "segment i j xs = take (j - i) (drop i xs)"

lemma length_segment [simp]: "j \<le> length xs \<Longrightarrow> length (segment i j xs) = j - i"
  by (simp add: segment_def)

lemma segment_nth: "i \<le> j \<Longrightarrow> j \<le> length xs \<Longrightarrow> k < j - i \<Longrightarrow> segment i j xs ! k = xs ! (i + k)"
  by (simp add: segment_def)

lemma segment_same [simp]: "segment i i xs = []"
  by (simp add: segment_def)

lemma segment_append: "i \<le> j \<Longrightarrow> j \<le> k \<Longrightarrow> segment i j xs @ segment j k xs = segment i k xs"
proof -
  assume "i \<le> j" "j \<le> k"
  then have "drop (j - i) (drop i xs) = drop j xs" "k - i = (j - i) + (k - j)"
    by simp_all
  then show ?thesis by (metis segment_def take_add)
qed

lemma segment_all [simp]: "segment 0 (length xs) xs = xs"
  by (simp add: segment_def)

lemma segment_Suc: "i < j \<Longrightarrow> j \<le> length xs \<Longrightarrow> segment i j xs = xs ! i # segment (Suc i) j xs"
  by (simp add: segment_def Cons_nth_drop_Suc [symmetric] take_Cons')

lemma segment_Suc_right: "i \<le> j \<Longrightarrow> j < length xs \<Longrightarrow> segment i (Suc j) xs = segment i j xs @ [xs ! j]"
  by (simp add: segment_def Suc_diff_le take_Suc_conv_app_nth)

lemma set_segment: "x \<in> set (segment i j xs) \<Longrightarrow> x \<in> set xs"
  by (auto simp: segment_def dest: in_set_takeD in_set_dropD)

lemma last_nth: "Suc i = length xs \<Longrightarrow> last xs = xs ! i"
  by (cases xs rule: rev_cases) auto

subsection \<open>Option monad\<close>

lemma bind_Some_iff: "Option.bind m f = Some b \<longleftrightarrow> (\<exists>a. m = Some a \<and> f a = Some b)"
  by (cases m) auto

end
