(* ===== verification/Tokens.thy ===== *)
theory Tokens
  imports Prelude
begin

text \<open>
  Tokens of the Sleep scanner: the token kinds of \<^verbatim>\<open>include/slp_lexer.h\<close>, in the order and the four
  groups of the enum there, the token record and the lexer state.
\<close>

subsection \<open>Token kinds, tokens and the lexer state\<close>

datatype sym_token =
    TOKEN_BANG | TOKEN_DOT | TOKEN_AMPERSAND | TOKEN_AT | TOKEN_COMMA | TOKEN_SLASH
  | TOKEN_EQUAL | TOKEN_PERCENT | TOKEN_BACKSLASH | TOKEN_MINUS | TOKEN_PLUS | TOKEN_LOWER_X
  | TOKEN_STAR | TOKEN_CARET | TOKEN_PIPE | TOKEN_COLON | TOKEN_SEMICOLON
  | TOKEN_RIGHT_BRACE | TOKEN_LEFT_BRACE | TOKEN_LEFT_BRACKET | TOKEN_RIGHT_BRACKET
  | TOKEN_LEFT_PAREN | TOKEN_RIGHT_PAREN | TOKEN_LESS | TOKEN_GREATER

datatype keyword_token =
    TOKEN_ASSERT | TOKEN_BREAK | TOKEN_CALLCC | TOKEN_CATCH | TOKEN_CONTINUE | TOKEN_DONE
  | TOKEN_ELSE | TOKEN_FOR | TOKEN_FOREACH | TOKEN_FROM | TOKEN_HALT | TOKEN_IF
  | TOKEN_IMPORT | TOKEN_RETURN | TOKEN_THROW | TOKEN_TRY | TOKEN_WHILE | TOKEN_YIELD
  | TOKEN_INLINE | TOKEN_SUB | TOKEN_COPY | TOKEN_ADDALL | TOKEN_PRINTLN | TOKEN_REMOVEALL
  | TOKEN_RETAINALL | TOKEN_LOCAL | TOKEN_THIS

datatype assign_token =
    TOKEN_ANDEQUAL | TOKEN_CATEQUAL | TOKEN_DIVEQUAL | TOKEN_LSHIFTEQUAL | TOKEN_MINUSEQUAL
  | TOKEN_OREQUAL | TOKEN_PLUSEQUAL | TOKEN_RSHIFTEQUAL | TOKEN_TIMESEQUAL | TOKEN_XOREQUAL

datatype other_token =
    TOKEN_ADDRESS | TOKEN_ARG_PASSED_BY_NAME | TOKEN_ARROW | TOKEN_BACKTICK_EXPR
  | TOKEN_CLASS_LITERAL | TOKEN_DEC | TOKEN_DOUBLE | TOKEN_EOF | TOKEN_EQ | TOKEN_EQI
  | TOKEN_EXP | TOKEN_EXPEQUAL | TOKEN_TRUE | TOKEN_FALSE | TOKEN_GE | TOKEN_ID
  | TOKEN_IMPORT_PATH | TOKEN_INC | TOKEN_LAND | TOKEN_LE | TOKEN_LITERAL | TOKEN_LONG
  | TOKEN_LOR | TOKEN_LSHIFT | TOKEN_NE | TOKEN_NEQI | TOKEN_NULL | TOKEN_NUMBER
  | TOKEN_RSHIFT | TOKEN_SCALAR | TOKEN_SPACESHIP | TOKEN_STRING
  | TOKEN_UNARY_PREDICATE_BRIDGE | TOKEN_BUILTIN_BINARY_PREDICATE_BRIDGE | TOKEN_BIN_PRED
  | TOKEN_ERROR

datatype slp_token_type =
  Sym sym_token | Kw keyword_token | Asg assign_token | Tok other_token

text \<open>A token's text is a piece of the source, except for an error token, whose text is the message.\<close>

datatype token_start = In_source nat | Message string

record slp_token =
  tok_type :: slp_token_type
  tok_start :: token_start
  tok_length :: nat
  tok_line :: nat

record slp_lexer =
  lx_source :: string
  lx_start :: nat
  lx_current :: nat
  lx_line :: nat
  lx_start_line :: nat

end
