(* ===== verification/Lexer.thy ===== *)
theory Lexer
  imports Tokens "HOL-Library.Char_ord"
begin

text \<open>
  The scanner of \<^verbatim>\<open>src/slp_lexer.c\<close>. A source text is a C string; the lexer state holds the positions
  \<open>start\<close> and \<open>current\<close> of the C pointers as offsets into it. Every read goes through \<open>cread\<close>, so a
  scan that would look past the terminating NUL is the result \<open>None\<close>.
\<close>

subsection \<open>Character classes and cursor primitives\<close>

definition is_digit :: "char \<Rightarrow> bool" where
  "is_digit c \<longleftrightarrow> CHR ''0'' \<le> c \<and> c \<le> CHR ''9''"

definition is_alpha :: "char \<Rightarrow> bool" where
  "is_alpha c \<longleftrightarrow> (CHR ''a'' \<le> c \<and> c \<le> CHR ''z'') \<or> (CHR ''A'' \<le> c \<and> c \<le> CHR ''Z'') \<or> c = CHR ''_''"

definition peek :: "slp_lexer \<Rightarrow> char option" where
  "peek lx = cread (lx_source lx) (lx_current lx)"

definition is_at_end :: "slp_lexer \<Rightarrow> bool option" where
  "is_at_end lx = do { c \<leftarrow> peek lx; Some (c = NUL) }"

definition lexer_advance :: "slp_lexer \<Rightarrow> (char \<times> slp_lexer) option" where
  "lexer_advance lx = do { c \<leftarrow> peek lx; Some (c, lx\<lparr>lx_current := Suc (lx_current lx)\<rparr>) }"

definition peek_next :: "slp_lexer \<Rightarrow> char option" where
  "peek_next lx =
     do { c \<leftarrow> peek lx; if c = NUL then Some NUL else cread (lx_source lx) (Suc (lx_current lx)) }"

definition lexer_match :: "slp_lexer \<Rightarrow> char \<Rightarrow> (bool \<times> slp_lexer) option" where
  "lexer_match lx expected =
     do { c \<leftarrow> peek lx;
          if c = NUL then Some (False, lx)
          else if c \<noteq> expected then Some (False, lx)
          else Some (True, lx\<lparr>lx_current := Suc (lx_current lx)\<rparr>) }"

definition make_token :: "slp_lexer \<Rightarrow> slp_token_type \<Rightarrow> slp_token" where
  "make_token lx ty =
     \<lparr>tok_type = ty, tok_start = In_source (lx_start lx), tok_length = lx_current lx - lx_start lx,
      tok_line = lx_line lx\<rparr>"

definition error_token :: "slp_lexer \<Rightarrow> string \<Rightarrow> slp_token" where
  "error_token lx message =
     \<lparr>tok_type = Tok TOKEN_ERROR, tok_start = Message message, tok_length = length message,
      tok_line = lx_line lx\<rparr>"

subsection \<open>Scanning loops\<close>

text \<open>The loop \<open>while (P(peek(lexer))) lexer_advance(lexer)\<close>, on the cursor.\<close>

function skip_while :: "(char \<Rightarrow> bool) \<Rightarrow> string \<Rightarrow> nat \<Rightarrow> nat option" where
  "skip_while P s i =
     (case cread s i of None \<Rightarrow> None | Some c \<Rightarrow> if P c then skip_while P s (Suc i) else Some i)"
  by pat_completeness auto
termination
  by (relation "measure (\<lambda>(P, s, i). Suc (length s) - i)") (auto dest: cread_Some_le)

declare skip_while.simps [simp del]

definition advance_while :: "(char \<Rightarrow> bool) \<Rightarrow> slp_lexer \<Rightarrow> slp_lexer option" where
  "advance_while P lx =
     do { i \<leftarrow> skip_while P (lx_source lx) (lx_current lx); Some (lx\<lparr>lx_current := i\<rparr>) }"

lemma skip_while_ge: "skip_while P s i = Some j \<Longrightarrow> i \<le> j"
proof (induction P s i rule: skip_while.induct)
  case (1 P s i)
  then show ?case
    by (subst (asm) (2) skip_while.simps) (fastforce split: option.splits if_splits)
qed

lemma skip_while_gt:
  assumes "cread s i = Some c" "P c" "skip_while P s i = Some j"
  shows "i < j"
  using assms skip_while_ge [of P s "Suc i" j] by (subst (asm) skip_while.simps) simp

function skip_whitespace :: "slp_lexer \<Rightarrow> slp_lexer option" where
  "skip_whitespace lx =
     (case peek lx of
        None \<Rightarrow> None
      | Some c \<Rightarrow>
          if c = CHR '' '' \<or> c = CHR 0x0D \<or> c = CHR 0x09 then
            skip_whitespace (lx\<lparr>lx_current := Suc (lx_current lx)\<rparr>)
          else if c = NL then
            skip_whitespace (lx\<lparr>lx_line := Suc (lx_line lx), lx_current := Suc (lx_current lx)\<rparr>)
          else if c = CHR ''#'' then
            (case advance_while (\<lambda>d. d \<noteq> NL \<and> d \<noteq> NUL) lx of
               None \<Rightarrow> None
             | Some lx' \<Rightarrow> skip_whitespace lx')
          else Some lx)"
  by pat_completeness auto
termination
proof (relation "measure (\<lambda>lx. Suc (length (lx_source lx)) - lx_current lx)", goal_cases)
  case (4 lx c lx')
  then obtain j where j: "skip_while (\<lambda>d. d \<noteq> NL \<and> d \<noteq> NUL) (lx_source lx) (lx_current lx) = Some j"
    and lx': "lx' = lx\<lparr>lx_current := j\<rparr>"
    by (auto simp: advance_while_def bind_Some_iff)
  from 4 have c: "cread (lx_source lx) (lx_current lx) = Some c" by (simp add: peek_def)
  from 4 have "c \<noteq> NL \<and> c \<noteq> NUL" by simp
  from skip_while_gt [OF c this j] cread_Some_le [OF c] lx' show ?case by simp
qed (auto simp: peek_def dest: cread_Some_le)

declare skip_whitespace.simps [simp del]

subsection \<open>Keywords\<close>

text \<open>
  \<open>lx_at lx k\<close> is \<open>lexer->start[k]\<close>, and \<open>lexeme_len\<close> is \<open>lexer->current - lexer->start\<close>. The C code
  tests the length before it reads a character of the lexeme; \<open>identifier_type\<close> below is split by
  the first letter, one definition per \<open>case\<close> of its \<open>switch\<close>.
\<close>

definition lx_at :: "slp_lexer \<Rightarrow> nat \<Rightarrow> char option" where
  "lx_at lx k = cread (lx_source lx) (lx_start lx + k)"

definition lexeme_len :: "slp_lexer \<Rightarrow> nat" where
  "lexeme_len lx = lx_current lx - lx_start lx"

definition check_keyword :: "slp_lexer \<Rightarrow> nat \<Rightarrow> nat \<Rightarrow> string \<Rightarrow> slp_token_type \<Rightarrow> slp_token_type" where
  "check_keyword lx start len rest ty =
     (if lexeme_len lx = start + len then
        if list_all (\<lambda>i. lx_at lx (start + i) = cread rest i) [0..<len] then ty else Tok TOKEN_ID
      else Tok TOKEN_ID)"

definition predicate_words :: "string list" where
  "predicate_words =
     [''cmp'', ''eq'', ''ge'', ''gt'', ''hasmatch'', ''is'', ''isa'', ''isin'', ''ismatch'', ''iswm'',
      ''in'', ''le'', ''lt'', ''ne'']"

definition is_predicate_word :: "slp_lexer \<Rightarrow> bool" where
  "is_predicate_word lx \<longleftrightarrow>
     list_ex (\<lambda>w. lexeme_len lx = length w \<and> list_all (\<lambda>j. lx_at lx j = Some (w ! j)) [0..<length w])
       predicate_words"

definition keyword_a :: "slp_lexer \<Rightarrow> slp_token_type" where
  "keyword_a lx =
     (if lexeme_len lx > 1 then
        if lx_at lx 1 = Some CHR ''s'' then check_keyword lx 2 4 ''sert'' (Kw TOKEN_ASSERT)
        else if lx_at lx 1 = Some CHR ''d'' then check_keyword lx 2 4 ''dAll'' (Kw TOKEN_ADDALL)
        else Tok TOKEN_ID
      else Tok TOKEN_ID)"

definition keyword_c :: "slp_lexer \<Rightarrow> slp_token_type" where
  "keyword_c lx =
     (if lexeme_len lx > 1 then
        if lx_at lx 1 = Some CHR ''a'' then
          if lexeme_len lx > 2 then
            if lx_at lx 2 = Some CHR ''l'' then check_keyword lx 3 3 ''lcc'' (Kw TOKEN_CALLCC)
            else if lx_at lx 2 = Some CHR ''t'' then check_keyword lx 3 2 ''ch'' (Kw TOKEN_CATCH)
            else Tok TOKEN_ID
          else Tok TOKEN_ID
        else if lx_at lx 1 = Some CHR ''o'' then
          if lexeme_len lx > 2 \<and> lx_at lx 2 = Some CHR ''p'' \<and> lexeme_len lx = 4
             \<and> lx_at lx 3 = Some CHR ''y''
          then Kw TOKEN_COPY
          else check_keyword lx 2 6 ''ntinue'' (Kw TOKEN_CONTINUE)
        else Tok TOKEN_ID
      else Tok TOKEN_ID)"

definition keyword_e :: "slp_lexer \<Rightarrow> slp_token_type" where
  "keyword_e lx =
     (if lexeme_len lx > 1 \<and> lx_at lx 1 = Some CHR ''l'' \<and> lexeme_len lx = 4
         \<and> lx_at lx 2 = Some CHR ''s'' \<and> lx_at lx 3 = Some CHR ''e''
      then Kw TOKEN_ELSE else Tok TOKEN_ID)"

definition keyword_f :: "slp_lexer \<Rightarrow> slp_token_type" where
  "keyword_f lx =
     (if lexeme_len lx > 1 then
        if lx_at lx 1 = Some CHR ''a'' then check_keyword lx 2 3 ''lse'' (Tok TOKEN_FALSE)
        else if lx_at lx 1 = Some CHR ''o'' then
          if lexeme_len lx > 2 then
            if lx_at lx 2 = Some CHR ''r'' then
              if lexeme_len lx = 3 then Kw TOKEN_FOR
              else check_keyword lx 3 4 ''each'' (Kw TOKEN_FOREACH)
            else Tok TOKEN_ID
          else Tok TOKEN_ID
        else if lx_at lx 1 = Some CHR ''r'' then check_keyword lx 2 2 ''om'' (Kw TOKEN_FROM)
        else Tok TOKEN_ID
      else Tok TOKEN_ID)"

definition keyword_h :: "slp_lexer \<Rightarrow> slp_token_type" where
  "keyword_h lx =
     (if lexeme_len lx > 1 \<and> lx_at lx 1 = Some CHR ''a'' \<and> lexeme_len lx = 4
         \<and> lx_at lx 2 = Some CHR ''l'' \<and> lx_at lx 3 = Some CHR ''t''
      then Kw TOKEN_HALT else Tok TOKEN_ID)"

definition keyword_i :: "slp_lexer \<Rightarrow> slp_token_type" where
  "keyword_i lx =
     (if lexeme_len lx > 1 then
        if lx_at lx 1 = Some CHR ''f'' then check_keyword lx 2 0 [] (Kw TOKEN_IF)
        else if lx_at lx 1 = Some CHR ''m'' then check_keyword lx 2 4 ''port'' (Kw TOKEN_IMPORT)
        else if lx_at lx 1 = Some CHR ''l'' then check_keyword lx 2 4 ''ine'' (Kw TOKEN_INLINE)
        else if lx_at lx 1 = Some CHR ''n'' then Tok TOKEN_ID
        else Tok TOKEN_ID
      else Tok TOKEN_ID)"

definition keyword_r :: "slp_lexer \<Rightarrow> slp_token_type" where
  "keyword_r lx =
     (if lexeme_len lx > 1 then
        if lx_at lx 1 = Some CHR ''e'' then
          if lexeme_len lx > 2 then
            if lx_at lx 2 = Some CHR ''t'' then
              if lexeme_len lx = 9 then check_keyword lx 3 6 ''ainAll'' (Kw TOKEN_RETAINALL)
              else check_keyword lx 3 3 ''urn'' (Kw TOKEN_RETURN)
            else if lx_at lx 2 = Some CHR ''m'' then check_keyword lx 3 6 ''oveAll'' (Kw TOKEN_REMOVEALL)
            else Tok TOKEN_ID
          else Tok TOKEN_ID
        else Tok TOKEN_ID
      else Tok TOKEN_ID)"

definition keyword_t :: "slp_lexer \<Rightarrow> slp_token_type" where
  "keyword_t lx =
     (if lexeme_len lx > 1 then
        if lx_at lx 1 = Some CHR ''h'' then check_keyword lx 2 3 ''row'' (Kw TOKEN_THROW)
        else if lx_at lx 1 = Some CHR ''r'' then
          if lexeme_len lx = 3 then
            if lx_at lx 2 = Some CHR ''y'' then Kw TOKEN_TRY else Tok TOKEN_ID
          else check_keyword lx 2 2 ''ue'' (Tok TOKEN_TRUE)
        else Tok TOKEN_ID
      else Tok TOKEN_ID)"

text \<open>A single \<open>x\<close> is the repetition operator when something that can start an operand follows.\<close>

definition x_operand_start :: "char \<Rightarrow> bool" where
  "x_operand_start next \<longleftrightarrow>
     next \<noteq> CHR ''='' \<and>
     (is_digit next \<or> next = CHR 0x22 \<or> next = CHR 0x27 \<or> next = CHR 0x60 \<or> next = CHR ''_'' \<or> is_alpha next
      \<or> next = CHR ''$'' \<or> next = CHR ''@'' \<or> next = CHR ''%'' \<or> next = CHR ''('' \<or> next = CHR ''[''
      \<or> next = CHR ''{'')"

definition keyword_x :: "slp_lexer \<Rightarrow> slp_token_type option" where
  "keyword_x lx =
     (if lexeme_len lx = 1 then
        do { i \<leftarrow> skip_while (\<lambda>c. c = CHR '' '' \<or> c = CHR 0x09 \<or> c = CHR 0x0D \<or> c = NL)
                    (lx_source lx) (lx_current lx);
             next \<leftarrow> cread (lx_source lx) i;
             Some (if x_operand_start next then Sym TOKEN_LOWER_X else Tok TOKEN_ID) }
      else Some (Tok TOKEN_ID))"

definition identifier_type :: "slp_lexer \<Rightarrow> slp_token_type option" where
  "identifier_type lx =
     (if is_predicate_word lx then Some (Tok TOKEN_BUILTIN_BINARY_PREDICATE_BRIDGE)
      else case lx_at lx 0 of
        None \<Rightarrow> None
      | Some c \<Rightarrow>
          if c = CHR ''a'' then Some (keyword_a lx)
          else if c = CHR ''b'' then Some (check_keyword lx 1 4 ''reak'' (Kw TOKEN_BREAK))
          else if c = CHR ''c'' then Some (keyword_c lx)
          else if c = CHR ''d'' then Some (check_keyword lx 1 3 ''one'' (Kw TOKEN_DONE))
          else if c = CHR ''e'' then Some (keyword_e lx)
          else if c = CHR ''f'' then Some (keyword_f lx)
          else if c = CHR ''h'' then Some (keyword_h lx)
          else if c = CHR ''i'' then Some (keyword_i lx)
          else if c = CHR ''p'' then Some (Tok TOKEN_ID)
          else if c = CHR ''r'' then Some (keyword_r lx)
          else if c = CHR ''s'' then Some (check_keyword lx 1 2 ''ub'' (Kw TOKEN_SUB))
          else if c = CHR ''t'' then Some (keyword_t lx)
          else if c = CHR ''w'' then Some (check_keyword lx 1 4 ''hile'' (Kw TOKEN_WHILE))
          else if c = CHR ''x'' then keyword_x lx
          else if c = CHR ''y'' then Some (check_keyword lx 1 4 ''ield'' (Kw TOKEN_YIELD))
          else Some (Tok TOKEN_ID))"

subsection \<open>Identifiers, numbers and strings\<close>

type_synonym scan_result = "(slp_token \<times> slp_lexer) option"

definition emit :: "slp_token_type \<Rightarrow> slp_lexer \<Rightarrow> scan_result" where
  "emit ty lx = Some (make_token lx ty, lx)"

text \<open>
  \<open>on_match c k other lx\<close> is \<open>if (lexer_match(lexer, c)) k; other\<close>: a match has consumed the
  character when \<open>k\<close> runs, a failure leaves the cursor alone.
\<close>

definition on_match :: "char \<Rightarrow> (slp_lexer \<Rightarrow> scan_result) \<Rightarrow> (slp_lexer \<Rightarrow> scan_result) \<Rightarrow> slp_lexer \<Rightarrow> scan_result" where
  "on_match c k other lx = do { (m, lx') \<leftarrow> lexer_match lx c; if m then k lx' else other lx' }"

definition on_peek :: "(char \<Rightarrow> bool) \<Rightarrow> (slp_lexer \<Rightarrow> scan_result) \<Rightarrow> (slp_lexer \<Rightarrow> scan_result) \<Rightarrow> slp_lexer \<Rightarrow> scan_result" where
  "on_peek P k other lx = do { c \<leftarrow> peek lx; if P c then k lx else other lx }"

definition then_advance :: "(slp_lexer \<Rightarrow> scan_result) \<Rightarrow> slp_lexer \<Rightarrow> scan_result" where
  "then_advance k lx = do { (_, lx') \<leftarrow> lexer_advance lx; k lx' }"

definition then_while :: "(char \<Rightarrow> bool) \<Rightarrow> (slp_lexer \<Rightarrow> scan_result) \<Rightarrow> slp_lexer \<Rightarrow> scan_result" where
  "then_while P k lx = do { lx' \<leftarrow> advance_while P lx; k lx' }"

definition is_name_char :: "char \<Rightarrow> bool" where
  "is_name_char c \<longleftrightarrow> is_alpha c \<or> is_digit c \<or> c = CHR ''_''"

definition is_hex_digit :: "char \<Rightarrow> bool" where
  "is_hex_digit c \<longleftrightarrow>
     is_digit c \<or> (CHR ''a'' \<le> c \<and> c \<le> CHR ''f'') \<or> (CHR ''A'' \<le> c \<and> c \<le> CHR ''F'')"

definition scan_identifier :: "slp_lexer \<Rightarrow> scan_result" where
  "scan_identifier lx =
     do { lx \<leftarrow> advance_while (\<lambda>c. is_alpha c \<or> is_digit c \<or> c = CHR ''-'' \<or> c = CHR ''+'') lx;
          ty \<leftarrow> identifier_type lx;
          emit ty lx }"

definition scan_number_suffix :: "slp_lexer \<Rightarrow> scan_result" where
  "scan_number_suffix =
     on_peek (\<lambda>c. c = CHR ''L'' \<or> c = CHR ''l'') (then_advance (emit (Tok TOKEN_LONG)))
       (emit (Tok TOKEN_NUMBER))"

definition scan_hex :: "slp_lexer \<Rightarrow> scan_result" where
  "scan_hex = then_advance (then_while is_hex_digit scan_number_suffix)"

text \<open>
  The exponent is taken only when a digit follows \<open>e\<close> or \<open>e\<close> and a sign; the character after the sign
  is \<open>lexer->current[2]\<close>, read only when the one before it is not the NUL.
\<close>

definition exponent_follows :: "slp_lexer \<Rightarrow> bool option" where
  "exponent_follows lx =
     do { c \<leftarrow> peek lx;
          if c = CHR ''e'' \<or> c = CHR ''E'' then
            do { next \<leftarrow> peek_next lx;
                 next2 \<leftarrow> (if next \<noteq> NUL then cread (lx_source lx) (lx_current lx + 2) else Some NUL);
                 Some (is_digit next \<or> ((next = CHR ''+'' \<or> next = CHR ''-'') \<and> is_digit next2)) }
          else Some False }"

definition scan_exponent :: "slp_lexer \<Rightarrow> scan_result" where
  "scan_exponent =
     then_advance
       (on_peek (\<lambda>c. c = CHR ''+'' \<or> c = CHR ''-'')
          (then_advance (then_while is_digit (emit (Tok TOKEN_DOUBLE))))
          (then_while is_digit (emit (Tok TOKEN_DOUBLE))))"

definition scan_fraction :: "slp_lexer \<Rightarrow> slp_lexer option" where
  "scan_fraction lx =
     do { c \<leftarrow> peek lx;
          if c = CHR ''.'' then
            do { next \<leftarrow> peek_next lx;
                 if is_digit next then
                   do { (_, lx) \<leftarrow> lexer_advance lx; advance_while is_digit lx }
                 else Some lx }
          else Some lx }"

definition has_dot :: "slp_lexer \<Rightarrow> bool" where
  "has_dot lx \<longleftrightarrow> CHR ''.'' \<in> set (segment (lx_start lx) (lx_current lx) (lx_source lx))"

definition scan_decimal :: "slp_lexer \<Rightarrow> scan_result" where
  "scan_decimal lx =
     do { lx \<leftarrow> advance_while is_digit lx;
          lx \<leftarrow> scan_fraction lx;
          e \<leftarrow> exponent_follows lx;
          if e then scan_exponent lx
          else if has_dot lx then emit (Tok TOKEN_DOUBLE) lx
          else scan_number_suffix lx }"

definition scan_number :: "slp_lexer \<Rightarrow> scan_result" where
  "scan_number lx =
     (if lx_at lx 0 = Some CHR ''0'' then
        on_peek (\<lambda>c. c = CHR ''x'' \<or> c = CHR ''X'') scan_hex scan_decimal lx
      else scan_decimal lx)"

text \<open>
  The body of the string loop. An escape advances twice without looking at the escaped character:
  at \<open>\\\<close> before the terminating NUL the second step leaves the buffer, and the next \<open>peek\<close> is out of
  bounds.
\<close>

function scan_string_body :: "char \<Rightarrow> slp_lexer \<Rightarrow> slp_lexer option" where
  "scan_string_body quote lx =
     (case peek lx of
        None \<Rightarrow> None
      | Some c \<Rightarrow>
          if c = quote \<or> c = NUL then Some lx
          else
            let lx1 = (if c = NL then lx\<lparr>lx_line := Suc (lx_line lx)\<rparr> else lx);
                lx2 = (if c = CHR 0x5C then lx1\<lparr>lx_current := Suc (lx_current lx1)\<rparr> else lx1)
            in scan_string_body quote (lx2\<lparr>lx_current := Suc (lx_current lx2)\<rparr>))"
  by pat_completeness auto
termination
  by (relation "measure (\<lambda>(q, lx). Suc (length (lx_source lx)) - lx_current lx)")
     (auto simp: peek_def dest: cread_Some_le)

declare scan_string_body.simps [simp del]

definition scan_string :: "char \<Rightarrow> slp_token_type \<Rightarrow> slp_lexer \<Rightarrow> scan_result" where
  "scan_string quote string_type lx =
     do { lx \<leftarrow> scan_string_body quote lx;
          e \<leftarrow> is_at_end lx;
          if e then Some (error_token lx ''Unterminated string.'', lx)
          else then_advance (emit string_type) lx }"

subsection \<open>Operators and sigils\<close>

definition scan_at :: "slp_lexer \<Rightarrow> scan_result" where
  "scan_at = on_peek is_name_char (then_while is_name_char (emit (Sym TOKEN_AT))) (emit (Sym TOKEN_AT))"

definition scan_percent :: "slp_lexer \<Rightarrow> scan_result" where
  "scan_percent =
     on_peek is_name_char (then_while is_name_char (emit (Sym TOKEN_PERCENT))) (emit (Sym TOKEN_PERCENT))"

definition is_name_start :: "char \<Rightarrow> bool" where
  "is_name_start c \<longleftrightarrow> is_alpha c \<or> c = CHR ''_''"

text \<open>\<open>\\&name\<close> is an address; after \<open>\\&\<close> without a name the scan goes on at the next character.\<close>

definition scan_by_name :: "slp_lexer \<Rightarrow> scan_result" where
  "scan_by_name =
     on_peek (\<lambda>c. c = CHR ''$'' \<or> c = CHR ''@'' \<or> c = CHR ''%'')
       (then_advance (then_while is_name_char (emit (Tok TOKEN_ARG_PASSED_BY_NAME))))
       (emit (Sym TOKEN_BACKSLASH))"

definition scan_backslash :: "slp_lexer \<Rightarrow> scan_result" where
  "scan_backslash =
     on_peek (\<lambda>c. c = CHR ''&'')
       (then_advance
          (on_peek is_name_start (then_while is_name_char (emit (Tok TOKEN_ADDRESS))) scan_by_name))
       scan_by_name"

definition scan_dot :: "slp_lexer \<Rightarrow> scan_result" where
  "scan_dot = on_match CHR ''='' (emit (Asg TOKEN_CATEQUAL)) (emit (Sym TOKEN_DOT))"

definition scan_minus :: "slp_lexer \<Rightarrow> scan_result" where
  "scan_minus =
     on_match CHR ''-'' (emit (Tok TOKEN_DEC))
       (on_match CHR ''='' (emit (Asg TOKEN_MINUSEQUAL))
          (on_peek is_alpha
             (then_advance (then_while is_name_char (emit (Tok TOKEN_UNARY_PREDICATE_BRIDGE))))
             (emit (Sym TOKEN_MINUS))))"

definition scan_plus :: "slp_lexer \<Rightarrow> scan_result" where
  "scan_plus =
     on_match CHR ''+'' (emit (Tok TOKEN_INC))
       (on_match CHR ''='' (emit (Asg TOKEN_PLUSEQUAL)) (emit (Sym TOKEN_PLUS)))"

definition scan_slash :: "slp_lexer \<Rightarrow> scan_result" where
  "scan_slash = on_match CHR ''='' (emit (Asg TOKEN_DIVEQUAL)) (emit (Sym TOKEN_SLASH))"

definition scan_star :: "slp_lexer \<Rightarrow> scan_result" where
  "scan_star =
     on_match CHR ''*''
       (on_match CHR ''='' (emit (Tok TOKEN_EXPEQUAL)) (emit (Tok TOKEN_EXP)))
       (on_match CHR ''='' (emit (Asg TOKEN_TIMESEQUAL)) (emit (Sym TOKEN_STAR)))"

text \<open>
  A class literal stops before a dot that starts a concatenation, that is a dot followed by a quote or
  a sigil.
\<close>

definition class_dot_stops :: "slp_lexer \<Rightarrow> bool option" where
  "class_dot_stops lx =
     do { c \<leftarrow> peek lx;
          if c = CHR ''.'' then
            do { next \<leftarrow> peek_next lx;
                 Some (next = CHR 0x22 \<or> next = CHR 0x27 \<or> next = CHR ''$'' \<or> next = CHR ''@'' \<or> next = CHR ''%'') }
          else Some False }"

function class_name_loop :: "slp_lexer \<Rightarrow> slp_lexer option" where
  "class_name_loop lx =
     (case peek lx of
        None \<Rightarrow> None
      | Some c \<Rightarrow>
          if is_name_char c \<or> c = CHR ''$'' \<or> c = CHR ''.'' then
            (case class_dot_stops lx of
               None \<Rightarrow> None
             | Some True \<Rightarrow> Some lx
             | Some False \<Rightarrow> class_name_loop (lx\<lparr>lx_current := Suc (lx_current lx)\<rparr>))
          else Some lx)"
  by pat_completeness auto
termination
  by (relation "measure (\<lambda>lx. Suc (length (lx_source lx)) - lx_current lx)")
     (auto simp: peek_def dest: cread_Some_le)

declare class_name_loop.simps [simp del]

definition scan_class_name :: "slp_lexer \<Rightarrow> scan_result" where
  "scan_class_name lx = do { lx \<leftarrow> class_name_loop lx; emit (Tok TOKEN_CLASS_LITERAL) lx }"

definition scan_caret :: "slp_lexer \<Rightarrow> scan_result" where
  "scan_caret =
     on_match CHR ''='' (emit (Asg TOKEN_XOREQUAL))
       (on_peek (\<lambda>c. is_alpha c \<or> c = CHR ''_'' \<or> c = CHR ''$'') scan_class_name (emit (Sym TOKEN_CARET)))"

definition scan_pipe :: "slp_lexer \<Rightarrow> scan_result" where
  "scan_pipe =
     on_match CHR ''|'' (emit (Tok TOKEN_LOR))
       (on_match CHR ''='' (emit (Asg TOKEN_OREQUAL)) (emit (Sym TOKEN_PIPE)))"

definition scan_ampersand :: "slp_lexer \<Rightarrow> scan_result" where
  "scan_ampersand =
     on_match CHR ''&'' (emit (Tok TOKEN_LAND))
       (on_match CHR ''='' (emit (Asg TOKEN_ANDEQUAL))
          (on_peek is_name_start (then_while is_name_char (emit (Tok TOKEN_ADDRESS)))
             (emit (Sym TOKEN_AMPERSAND))))"

definition scan_bang :: "slp_lexer \<Rightarrow> scan_result" where
  "scan_bang =
     on_match CHR ''='' (on_match CHR ''~'' (emit (Tok TOKEN_NEQI)) (emit (Tok TOKEN_NE)))
       (emit (Sym TOKEN_BANG))"

definition scan_equal :: "slp_lexer \<Rightarrow> scan_result" where
  "scan_equal =
     on_match CHR ''='' (emit (Tok TOKEN_EQ))
       (on_match CHR ''~'' (emit (Tok TOKEN_EQI))
          (on_match CHR ''>'' (emit (Tok TOKEN_ARROW)) (emit (Sym TOKEN_EQUAL))))"

definition scan_less :: "slp_lexer \<Rightarrow> scan_result" where
  "scan_less =
     on_match CHR ''='' (on_match CHR ''>'' (emit (Tok TOKEN_SPACESHIP)) (emit (Tok TOKEN_LE)))
       (on_match CHR ''<''
          (on_match CHR ''='' (emit (Asg TOKEN_LSHIFTEQUAL)) (emit (Tok TOKEN_LSHIFT)))
          (emit (Sym TOKEN_LESS)))"

definition scan_greater :: "slp_lexer \<Rightarrow> scan_result" where
  "scan_greater =
     on_match CHR ''='' (emit (Tok TOKEN_GE))
       (on_match CHR ''>''
          (on_match CHR ''='' (emit (Asg TOKEN_RSHIFTEQUAL)) (emit (Tok TOKEN_RSHIFT)))
          (emit (Sym TOKEN_GREATER)))"

text \<open>
  \<open>$null\<close>, then the special scalar \<open>$+\<close>, then an ordinary scalar. The four matches of \<open>null\<close> are one
  C conjunction: when a later one fails, the characters the earlier ones matched stay consumed.
\<close>

definition scan_scalar_name :: "slp_lexer \<Rightarrow> scan_result" where
  "scan_scalar_name =
     on_peek (\<lambda>c. c = CHR ''+'') (then_advance (emit (Tok TOKEN_SCALAR)))
       (then_while is_name_char (emit (Tok TOKEN_SCALAR)))"

definition scan_dollar :: "slp_lexer \<Rightarrow> scan_result" where
  "scan_dollar =
     on_match CHR ''n''
       (on_match CHR ''u''
          (on_match CHR ''l''
             (on_match CHR ''l'' (emit (Tok TOKEN_NULL)) scan_scalar_name)
             scan_scalar_name)
          scan_scalar_name)
       scan_scalar_name"

subsection \<open>One token\<close>

definition scan_operator :: "char \<Rightarrow> slp_lexer \<Rightarrow> scan_result" where
  "scan_operator c =
     (if c = CHR ''@'' then scan_at
      else if c = CHR 0x5C then scan_backslash
      else if c = CHR ''%'' then scan_percent
      else if c = CHR ''.'' then scan_dot
      else if c = CHR ''-'' then scan_minus
      else if c = CHR ''+'' then scan_plus
      else if c = CHR ''/'' then scan_slash
      else if c = CHR ''*'' then scan_star
      else if c = CHR ''^'' then scan_caret
      else if c = CHR ''|'' then scan_pipe
      else if c = CHR ''&'' then scan_ampersand
      else if c = CHR ''!'' then scan_bang
      else if c = CHR ''='' then scan_equal
      else if c = CHR ''<'' then scan_less
      else if c = CHR ''>'' then scan_greater
      else if c = CHR 0x22 then scan_string CHR 0x22 (Tok TOKEN_STRING)
      else if c = CHR 0x27 then scan_string CHR 0x27 (Tok TOKEN_LITERAL)
      else if c = CHR 0x60 then scan_string CHR 0x60 (Tok TOKEN_BACKTICK_EXPR)
      else if c = CHR ''$'' then scan_dollar
      else (\<lambda>lx. Some (error_token lx ''Unexpected character.'', lx)))"

definition scan_symbol :: "char \<Rightarrow> slp_lexer \<Rightarrow> scan_result" where
  "scan_symbol c =
     (if c = CHR ''('' then emit (Sym TOKEN_LEFT_PAREN)
      else if c = CHR '')'' then emit (Sym TOKEN_RIGHT_PAREN)
      else if c = CHR ''{'' then emit (Sym TOKEN_LEFT_BRACE)
      else if c = CHR ''}'' then emit (Sym TOKEN_RIGHT_BRACE)
      else if c = CHR ''['' then emit (Sym TOKEN_LEFT_BRACKET)
      else if c = CHR '']'' then emit (Sym TOKEN_RIGHT_BRACKET)
      else if c = CHR '';'' then emit (Sym TOKEN_SEMICOLON)
      else if c = CHR '','' then emit (Sym TOKEN_COMMA)
      else if c = CHR '':'' then emit (Sym TOKEN_COLON)
      else scan_operator c)"

definition slp_lexer_init :: "string \<Rightarrow> slp_lexer" where
  "slp_lexer_init source =
     \<lparr>lx_source = source, lx_start = 0, lx_current = 0, lx_line = 1, lx_start_line = 1\<rparr>"

definition scan_first :: "slp_lexer \<Rightarrow> scan_result" where
  "scan_first lx =
     do { e \<leftarrow> is_at_end lx;
          if e then emit (Tok TOKEN_EOF) lx
          else do { (c, lx) \<leftarrow> lexer_advance lx;
                    if is_alpha c then scan_identifier lx
                    else if is_digit c then scan_number lx
                    else scan_symbol c lx } }"

definition slp_lexer_scan_token :: "slp_lexer \<Rightarrow> scan_result" where
  "slp_lexer_scan_token lx =
     do { lx \<leftarrow> skip_whitespace lx;
          scan_first (lx\<lparr>lx_start := lx_current lx, lx_start_line := lx_line lx\<rparr>) }"

text \<open>\<open>slp_lexer_copy_lexeme\<close> copies the text of a token.\<close>

definition slp_lexer_copy_lexeme :: "slp_lexer \<Rightarrow> slp_token \<Rightarrow> string" where
  "slp_lexer_copy_lexeme lx token =
     (case tok_start token of
        In_source i \<Rightarrow> segment i (i + tok_length token) (lx_source lx)
      | Message m \<Rightarrow> m)"

end
