(* ===== verification/Lexer_Safety.thy ===== *)
theory Lexer_Safety
  imports Lexer
begin

text \<open>
  Memory safety and progress of the scanner. The interface \<open>scanner\<close> says what a scan function
  promises to the parser that calls it: from a well-formed state over a safe source it returns, stays
  inside the buffer, never moves the cursor back and yields a token that lies between the two
  cursors. Every scan function of \<open>Lexer\<close> is shown to keep that contract by rules that follow its
  combinators, and \<open>slp_lexer_scan_token\<close> is the interpretation.
\<close>

subsection \<open>Well-formed states and safe sources\<close>

definition lx_wf :: "slp_lexer \<Rightarrow> bool" where
  "lx_wf lx \<longleftrightarrow> lx_start lx \<le> lx_current lx \<and> lx_current lx \<le> length (lx_source lx)"

text \<open>A source is safe when it holds no NUL and its last character is not a backslash.\<close>

definition safe_source :: "string \<Rightarrow> bool" where
  "safe_source s \<longleftrightarrow> c_string s \<and> (s \<noteq> [] \<longrightarrow> last s \<noteq> CHR 0x5C)"

definition lx_extends :: "slp_lexer \<Rightarrow> slp_lexer \<Rightarrow> bool" where
  "lx_extends lx lx' \<longleftrightarrow>
     lx_source lx' = lx_source lx \<and> lx_start lx' = lx_start lx \<and> lx_start_line lx' = lx_start_line lx
     \<and> lx_current lx \<le> lx_current lx' \<and> lx_line lx \<le> lx_line lx'"

definition token_fits :: "slp_token \<Rightarrow> slp_lexer \<Rightarrow> bool" where
  "token_fits tok lx \<longleftrightarrow>
     tok_line tok = lx_line lx \<and>
     (tok_start tok = In_source (lx_start lx) \<and> tok_length tok = lx_current lx - lx_start lx
      \<or> tok_type tok = Tok TOKEN_ERROR)"

definition scan_ok :: "(slp_lexer \<Rightarrow> bool) \<Rightarrow> (slp_lexer \<Rightarrow> scan_result) \<Rightarrow> bool" where
  "scan_ok Pre f \<longleftrightarrow>
     (\<forall>lx. lx_wf lx \<longrightarrow> safe_source (lx_source lx) \<longrightarrow> Pre lx \<longrightarrow>
        (\<exists>tok lx'. f lx = Some (tok, lx') \<and> lx_extends lx lx' \<and> lx_wf lx' \<and> token_fits tok lx'))"

abbreviation scans :: "(slp_lexer \<Rightarrow> scan_result) \<Rightarrow> bool" where
  "scans \<equiv> scan_ok (\<lambda>_. True)"

abbreviation inside :: "slp_lexer \<Rightarrow> bool" where
  "inside lx \<equiv> lx_current lx < length (lx_source lx)"

abbreviation nonempty_lexeme :: "slp_lexer \<Rightarrow> bool" where
  "nonempty_lexeme lx \<equiv> lx_start lx < lx_current lx"

lemma scan_okI:
  assumes "\<And>lx. lx_wf lx \<Longrightarrow> safe_source (lx_source lx) \<Longrightarrow> Pre lx \<Longrightarrow>
     \<exists>tok lx'. f lx = Some (tok, lx') \<and> lx_extends lx lx' \<and> lx_wf lx' \<and> token_fits tok lx'"
  shows "scan_ok Pre f"
  using assms by (simp add: scan_ok_def)

lemma scan_okE:
  assumes "scan_ok Pre f" "lx_wf lx" "safe_source (lx_source lx)" "Pre lx"
  obtains tok lx' where "f lx = Some (tok, lx')" "lx_extends lx lx'" "lx_wf lx'" "token_fits tok lx'"
  using assms unfolding scan_ok_def by blast

lemma scan_ok_weaken: "scan_ok P f \<Longrightarrow> (\<And>lx. Q lx \<Longrightarrow> P lx) \<Longrightarrow> scan_ok Q f"
  unfolding scan_ok_def by blast

lemma scan_ok_any: "scans f \<Longrightarrow> scan_ok Q f"
  by (rule scan_ok_weaken) auto

lemma lx_extends_refl [simp]: "lx_extends lx lx"
  by (simp add: lx_extends_def)

lemma lx_extends_trans: "lx_extends a b \<Longrightarrow> lx_extends b c \<Longrightarrow> lx_extends a c"
  by (auto simp: lx_extends_def)

lemma lx_extends_source: "lx_extends a b \<Longrightarrow> lx_source b = lx_source a"
  by (simp add: lx_extends_def)

lemma peek_wf: "lx_wf lx \<Longrightarrow> \<exists>c. peek lx = Some c"
  by (simp add: peek_def lx_wf_def cread_le)

lemma peek_inside:
  "safe_source (lx_source lx) \<Longrightarrow> peek lx = Some c \<Longrightarrow> c \<noteq> NUL \<longleftrightarrow> inside lx"
  by (metis cread_NUL cread_Some_le less_le nat_neq_iff option.inject peek_def safe_source_def)

subsection \<open>Rules for the combinators\<close>

text \<open>Running \<open>k\<close> from an extension of the state carries its contract back.\<close>

lemma scan_ok_extend:
  assumes "scan_ok Pre k" "lx_extends lx lx1" "lx_wf lx1" "safe_source (lx_source lx)" "Pre lx1"
  shows "\<exists>tok lx'. k lx1 = Some (tok, lx') \<and> lx_extends lx lx' \<and> lx_wf lx' \<and> token_fits tok lx'"
proof -
  have "safe_source (lx_source lx1)" using assms(2,4) by (simp add: lx_extends_source)
  with assms obtain tok lx' where "k lx1 = Some (tok, lx')" "lx_extends lx1 lx'" "lx_wf lx'"
    "token_fits tok lx'"
    by (blast elim: scan_okE)
  with assms(2) show ?thesis by (blast intro: lx_extends_trans)
qed

lemma scans_emit [slp_inv]: "scan_ok Pre (emit ty)"
  by (rule scan_okI) (simp add: emit_def make_token_def token_fits_def)

lemma step_extends: "lx_wf lx \<Longrightarrow> inside lx \<Longrightarrow>
   lx_extends lx (lx\<lparr>lx_current := Suc (lx_current lx)\<rparr>) \<and> lx_wf (lx\<lparr>lx_current := Suc (lx_current lx)\<rparr>)"
  by (simp add: lx_extends_def lx_wf_def)

lemma scans_on_match [slp_inv]:
  assumes "scans k" "scans other"
  shows "scans (on_match c k other)"
proof (rule scan_okI)
  fix lx assume wf: "lx_wf lx" and safe: "safe_source (lx_source lx)"
  obtain d where d: "peek lx = Some d" using peek_wf [OF wf] by blast
  let ?lx' = "lx\<lparr>lx_current := Suc (lx_current lx)\<rparr>"
  show "\<exists>tok lx'. on_match c k other lx = Some (tok, lx') \<and> lx_extends lx lx' \<and> lx_wf lx' \<and> token_fits tok lx'"
  proof (cases "d \<noteq> NUL \<and> d = c")
    case True
    then have "on_match c k other lx = k ?lx'" by (auto simp: on_match_def lexer_match_def d)
    moreover from True have "inside lx" using peek_inside [OF safe d] by simp
    ultimately show ?thesis
      using scan_ok_extend [OF assms(1), of lx ?lx'] step_extends [OF wf] safe by simp
  next
    case False
    then have "on_match c k other lx = other lx" by (auto simp: on_match_def lexer_match_def d)
    then show ?thesis using scan_ok_extend [OF assms(2), of lx lx] wf safe by simp
  qed
qed

lemma scans_then_advance [slp_inv]: "scans k \<Longrightarrow> scan_ok inside (then_advance k)"
proof (rule scan_okI)
  fix lx assume k: "scans k" and wf: "lx_wf lx" and safe: "safe_source (lx_source lx)" and "inside lx"
  then have "then_advance k lx = k (lx\<lparr>lx_current := Suc (lx_current lx)\<rparr>)"
    by (simp add: then_advance_def lexer_advance_def peek_def)
  then show "\<exists>tok lx'. then_advance k lx = Some (tok, lx') \<and> lx_extends lx lx' \<and> lx_wf lx' \<and> token_fits tok lx'"
    using scan_ok_extend [OF k] step_extends [OF wf \<open>inside lx\<close>] safe by simp
qed

lemma scans_on_peek [slp_inv]:
  assumes "\<not> P NUL" "scan_ok inside k" "scans other"
  shows "scans (on_peek P k other)"
proof (rule scan_okI)
  fix lx assume wf: "lx_wf lx" and safe: "safe_source (lx_source lx)"
  obtain d where d: "peek lx = Some d" using peek_wf [OF wf] by blast
  show "\<exists>tok lx'. on_peek P k other lx = Some (tok, lx') \<and> lx_extends lx lx' \<and> lx_wf lx' \<and> token_fits tok lx'"
  proof (cases "P d")
    case True
    with assms(1) have "inside lx" using peek_inside [OF safe d] by auto
    moreover have "on_peek P k other lx = k lx" using True by (simp add: on_peek_def d)
    ultimately show ?thesis using scan_ok_extend [OF assms(2), of lx lx] wf safe by simp
  next
    case False
    then have "on_peek P k other lx = other lx" by (simp add: on_peek_def d)
    then show ?thesis using scan_ok_extend [OF assms(3), of lx lx] wf safe by simp
  qed
qed

subsection \<open>Rules for the loops\<close>

lemma skip_while_total:
  "c_string s \<Longrightarrow> \<not> P NUL \<Longrightarrow> i \<le> length s \<Longrightarrow>
   \<exists>j. skip_while P s i = Some j \<and> i \<le> j \<and> j \<le> length s"
proof (induction P s i rule: skip_while.induct)
  case (1 P s i)
  obtain c where c: "cread s i = Some c" using cread_le [OF 1(4)] by blast
  show ?case
  proof (cases "P c")
    case True
    with 1(3) have "c \<noteq> NUL" by auto
    then have "i < length s" using cread_Some_lt [OF c] by simp
    then have "Suc i \<le> length s" by simp
    from "1.IH" [OF c True 1(2,3) this] c True show ?thesis
      by (subst skip_while.simps) auto
  next
    case False
    with c 1(4) show ?thesis by (subst skip_while.simps) simp
  qed
qed

lemma advance_while_total:
  assumes "\<not> P NUL" "lx_wf lx" "safe_source (lx_source lx)"
  shows "\<exists>lx'. advance_while P lx = Some lx' \<and> lx_extends lx lx' \<and> lx_wf lx'"
proof -
  have "c_string (lx_source lx)" using assms(3) by (simp add: safe_source_def)
  then obtain j where "skip_while P (lx_source lx) (lx_current lx) = Some j" "lx_current lx \<le> j"
    "j \<le> length (lx_source lx)"
    using skip_while_total [of "lx_source lx" P "lx_current lx"] assms(1,2) by (auto simp: lx_wf_def)
  then show ?thesis using assms(2) by (auto simp: advance_while_def lx_extends_def lx_wf_def)
qed

lemma scans_then_while [slp_inv]:
  assumes "\<not> P NUL" "scans k"
  shows "scan_ok Pre (then_while P k)"
proof (rule scan_okI)
  fix lx assume wf: "lx_wf lx" and safe: "safe_source (lx_source lx)"
  obtain lx1 where "advance_while P lx = Some lx1" and l: "lx_extends lx lx1" "lx_wf lx1"
    using advance_while_total [where P = P, OF assms(1) wf safe] by blast
  then have "then_while P k lx = k lx1" by (simp add: then_while_def)
  then show "\<exists>tok lx'. then_while P k lx = Some (tok, lx') \<and> lx_extends lx lx' \<and> lx_wf lx' \<and> token_fits tok lx'"
    using scan_ok_extend [OF assms(2) l safe] by simp
qed

lemma scan_string_body_total:
  "lx_wf lx \<Longrightarrow> safe_source (lx_source lx) \<Longrightarrow>
   \<exists>lx'. scan_string_body q lx = Some lx' \<and> lx_extends lx lx' \<and> lx_wf lx' \<and>
     (peek lx' = Some q \<or> peek lx' = Some NUL)"
proof (induction q lx rule: scan_string_body.induct)
  case (1 q lx)
  obtain c where c: "peek lx = Some c" using peek_wf [OF 1(2)] by blast
  show ?case
  proof (cases "c = q \<or> c = NUL")
    case True
    with c 1(2) show ?thesis by (subst scan_string_body.simps) auto
  next
    case False
    define lx1 where "lx1 = (if c = NL then lx\<lparr>lx_line := Suc (lx_line lx)\<rparr> else lx)"
    define lx2 where "lx2 = (if c = CHR 0x5C then lx1\<lparr>lx_current := Suc (lx_current lx1)\<rparr> else lx1)"
    let ?next = "lx2\<lparr>lx_current := Suc (lx_current lx2)\<rparr>"
    have ins: "inside lx" using peek_inside [OF 1(3) c] False by simp
    have "Suc (lx_current lx) < length (lx_source lx)" if "c = CHR 0x5C"
    proof (rule ccontr)
      assume "\<not> ?thesis"
      with ins have "Suc (lx_current lx) = length (lx_source lx)" by simp
      then have "last (lx_source lx) = c" "lx_source lx \<noteq> []"
        using c ins last_nth by (auto simp: peek_def)
      with that 1(3) show False by (simp add: safe_source_def)
    qed
    then have e: "lx_extends lx ?next" and wf: "lx_wf ?next"
      using 1(2) ins by (auto simp: lx1_def lx2_def lx_extends_def lx_wf_def)
    have "safe_source (lx_source ?next)" using 1(3) by (simp add: lx1_def lx2_def)
    from "1.IH" [OF c False lx1_def lx2_def wf this] obtain lx' where
      "scan_string_body q ?next = Some lx'" "lx_extends ?next lx'" "lx_wf lx'"
      "peek lx' = Some q \<or> peek lx' = Some NUL" by blast
    moreover have "scan_string_body q lx = scan_string_body q ?next"
      using c False by (subst scan_string_body.simps) (simp add: lx1_def lx2_def Let_def)
    ultimately show ?thesis using e by (metis lx_extends_trans)
  qed
qed

lemma scans_scan_string [slp_inv]: "q \<noteq> NUL \<Longrightarrow> scans (scan_string q ty)"
proof (rule scan_okI)
  fix lx assume q: "q \<noteq> NUL" and wf: "lx_wf lx" and safe: "safe_source (lx_source lx)"
  obtain lx1 where b: "scan_string_body q lx = Some lx1" and l: "lx_extends lx lx1" "lx_wf lx1"
    and p: "peek lx1 = Some q \<or> peek lx1 = Some NUL"
    using scan_string_body_total [OF wf safe] by blast
  from l safe have safe1: "safe_source (lx_source lx1)" by (simp add: lx_extends_source)
  show "\<exists>tok lx'. scan_string q ty lx = Some (tok, lx') \<and> lx_extends lx lx' \<and> lx_wf lx' \<and> token_fits tok lx'"
  proof (cases "peek lx1 = Some NUL")
    case True
    with b l show ?thesis
      by (simp add: scan_string_def is_at_end_def token_fits_def error_token_def)
  next
    case False
    with p have c: "peek lx1 = Some q" by simp
    with q have "inside lx1" using peek_inside [OF safe1 c] by simp
    moreover have "scan_string q ty lx = then_advance (emit ty) lx1"
      using b c q by (simp add: scan_string_def is_at_end_def)
    ultimately show ?thesis
      using scan_ok_extend [OF scans_then_advance [OF scans_emit] l safe] by simp
  qed
qed

lemma class_dot_stops_total:
  "lx_wf lx \<Longrightarrow> safe_source (lx_source lx) \<Longrightarrow> \<exists>b. class_dot_stops lx = Some b"
proof -
  assume wf: "lx_wf lx" and safe: "safe_source (lx_source lx)"
  obtain c where c: "peek lx = Some c" using peek_wf [OF wf] by blast
  have "c \<noteq> NUL \<Longrightarrow> \<exists>d. cread (lx_source lx) (Suc (lx_current lx)) = Some d"
    using peek_inside [OF safe c] by (simp add: cread_le)
  with c show ?thesis by (auto simp: class_dot_stops_def peek_next_def)
qed

lemma class_name_loop_total:
  "lx_wf lx \<Longrightarrow> safe_source (lx_source lx) \<Longrightarrow>
   \<exists>lx'. class_name_loop lx = Some lx' \<and> lx_extends lx lx' \<and> lx_wf lx'"
proof (induction lx rule: class_name_loop.induct)
  case (1 lx)
  obtain c where c: "peek lx = Some c" using peek_wf [OF 1(2)] by blast
  obtain b where b: "class_dot_stops lx = Some b" using class_dot_stops_total [OF 1(2,3)] by blast
  let ?cont = "is_name_char c \<or> c = CHR ''$'' \<or> c = CHR ''.''"
  show ?case
  proof (cases "?cont \<and> \<not> b")
    case True
    then have "c \<noteq> NUL" by (auto simp: is_name_char_def is_alpha_def is_digit_def)
    then have ins: "inside lx" using peek_inside [OF 1(3) c] by simp
    let ?next = "lx\<lparr>lx_current := Suc (lx_current lx)\<rparr>"
    have "class_name_loop lx = class_name_loop ?next"
      using c b True by (subst class_name_loop.simps) auto
    moreover have "\<exists>lx'. class_name_loop ?next = Some lx' \<and> lx_extends ?next lx' \<and> lx_wf lx'"
      using "1.IH" [of c b] c b True 1(3) step_extends [OF 1(2) ins] by simp
    ultimately show ?thesis using step_extends [OF 1(2) ins] by (metis lx_extends_trans)
  next
    case False
    with c b 1(2) show ?thesis by (subst class_name_loop.simps) (auto split: bool.splits)
  qed
qed

lemma scans_class_name [slp_inv]: "scan_ok Pre scan_class_name"
proof (rule scan_okI)
  fix lx assume wf: "lx_wf lx" and safe: "safe_source (lx_source lx)"
  obtain lx1 where l: "class_name_loop lx = Some lx1" "lx_extends lx lx1" "lx_wf lx1"
    using class_name_loop_total [OF wf safe] by blast
  then have "scan_class_name lx = emit (Tok TOKEN_CLASS_LITERAL) lx1" by (simp add: scan_class_name_def)
  then show "\<exists>tok lx'. scan_class_name lx = Some (tok, lx') \<and> lx_extends lx lx' \<and> lx_wf lx' \<and> token_fits tok lx'"
    using scan_ok_extend [OF scans_emit l(2,3) safe, of "\<lambda>_. True"] by simp
qed

subsection \<open>Identifiers and numbers\<close>

lemma not_NUL_simps [simp]:
  "\<not> is_digit NUL" "\<not> is_alpha NUL" "\<not> is_name_char NUL" "\<not> is_name_start NUL" "\<not> is_hex_digit NUL"
  by (simp_all add: is_digit_def is_alpha_def is_name_char_def is_name_start_def is_hex_digit_def)

lemma identifier_type_total:
  assumes "lx_wf lx" "safe_source (lx_source lx)"
  shows "\<exists>ty. identifier_type lx = Some ty"
proof -
  let ?ws = "\<lambda>c. c = CHR '' '' \<or> c = CHR 0x09 \<or> c = CHR 0x0D \<or> c = NL"
  have "\<not> ?ws NUL" "c_string (lx_source lx)" "lx_current lx \<le> length (lx_source lx)"
    using assms by (simp_all add: safe_source_def lx_wf_def)
  then obtain j where "skip_while ?ws (lx_source lx) (lx_current lx) = Some j" "j \<le> length (lx_source lx)"
    using skip_while_total [of "lx_source lx" ?ws "lx_current lx"] by blast
  moreover then obtain d where "cread (lx_source lx) j = Some d" using cread_le by blast
  ultimately have "\<exists>ty. keyword_x lx = Some ty" by (simp add: keyword_x_def)
  moreover obtain c where "lx_at lx 0 = Some c"
    using assms(1) cread_le [of "lx_start lx" "lx_source lx"] by (auto simp: lx_at_def lx_wf_def)
  ultimately show ?thesis by (simp add: identifier_type_def)
qed

lemma scans_identifier [slp_inv]: "scans scan_identifier"
proof (rule scan_okI)
  fix lx assume wf: "lx_wf lx" and safe: "safe_source (lx_source lx)"
  let ?P = "\<lambda>c. is_alpha c \<or> is_digit c \<or> c = CHR ''-'' \<or> c = CHR ''+''"
  obtain lx1 where a: "advance_while ?P lx = Some lx1" and l: "lx_extends lx lx1" "lx_wf lx1"
    using advance_while_total [where P = ?P, OF _ wf safe] by auto
  from l safe have "safe_source (lx_source lx1)" by (simp add: lx_extends_source)
  then obtain ty where "identifier_type lx1 = Some ty" using identifier_type_total l(2) by blast
  with a have "scan_identifier lx = emit ty lx1" by (simp add: scan_identifier_def)
  then show "\<exists>tok lx'. scan_identifier lx = Some (tok, lx') \<and> lx_extends lx lx' \<and> lx_wf lx' \<and> token_fits tok lx'"
    using scan_ok_extend [OF scans_emit l safe, of "\<lambda>_. True"] by simp
qed

lemma scans_number_suffix [slp_inv]: "scans scan_number_suffix"
  unfolding scan_number_suffix_def by (intro slp_inv) auto

lemma scans_hex [slp_inv]: "scan_ok inside scan_hex"
  unfolding scan_hex_def by (intro slp_inv) auto

lemma scans_exponent [slp_inv]: "scan_ok inside scan_exponent"
  unfolding scan_exponent_def by (intro slp_inv) auto

lemma scan_fraction_total:
  assumes "lx_wf lx" "safe_source (lx_source lx)"
  shows "\<exists>lx'. scan_fraction lx = Some lx' \<and> lx_extends lx lx' \<and> lx_wf lx'"
proof -
  obtain c where c: "peek lx = Some c" using peek_wf [OF assms(1)] by blast
  show ?thesis
  proof (cases "c = CHR ''.''")
    case True
    then have ins: "inside lx" using peek_inside [OF assms(2) c] by simp
    then obtain d where d: "cread (lx_source lx) (Suc (lx_current lx)) = Some d" using cread_le by force
    let ?next = "lx\<lparr>lx_current := Suc (lx_current lx)\<rparr>"
    have "\<exists>lx'. advance_while is_digit ?next = Some lx' \<and> lx_extends ?next lx' \<and> lx_wf lx'"
      using step_extends [OF assms(1) ins] assms(2) by (intro advance_while_total) auto
    then show ?thesis
      using c d True assms(1) step_extends [OF assms(1) ins]
      by (auto simp: scan_fraction_def peek_next_def lexer_advance_def intro: lx_extends_trans)
  next
    case False
    with c assms(1) show ?thesis by (simp add: scan_fraction_def)
  qed
qed

lemma exponent_follows_total:
  assumes "lx_wf lx" "safe_source (lx_source lx)"
  shows "\<exists>b. exponent_follows lx = Some b \<and> (b \<longrightarrow> inside lx)"
proof -
  obtain c where c: "peek lx = Some c" using peek_wf [OF assms(1)] by blast
  show ?thesis
  proof (cases "c = CHR ''e'' \<or> c = CHR ''E''")
    case True
    then have ins: "inside lx" using peek_inside [OF assms(2) c] by auto
    then obtain d where d: "cread (lx_source lx) (Suc (lx_current lx)) = Some d" using cread_le by force
    have "d \<noteq> NUL \<Longrightarrow> \<exists>e. cread (lx_source lx) (lx_current lx + 2) = Some e"
      using cread_Some_lt [OF d] by (intro cread_le) simp
    with c d True ins show ?thesis by (auto simp: exponent_follows_def peek_next_def)
  next
    case False
    with c show ?thesis by (auto simp: exponent_follows_def)
  qed
qed

lemma scans_decimal [slp_inv]: "scans scan_decimal"
proof (rule scan_okI)
  fix lx assume wf: "lx_wf lx" and safe: "safe_source (lx_source lx)"
  obtain lx1 where a: "advance_while is_digit lx = Some lx1" and l1: "lx_extends lx lx1" "lx_wf lx1"
    using advance_while_total [where P = is_digit, OF _ wf safe] by auto
  from l1 safe have safe1: "safe_source (lx_source lx1)" by (simp add: lx_extends_source)
  obtain lx2 where f: "scan_fraction lx1 = Some lx2" and l2: "lx_extends lx1 lx2" "lx_wf lx2"
    using scan_fraction_total [OF l1(2) safe1] by blast
  from l2 safe1 have safe2: "safe_source (lx_source lx2)" by (simp add: lx_extends_source)
  obtain b where b: "exponent_follows lx2 = Some b" "b \<longrightarrow> inside lx2"
    using exponent_follows_total [OF l2(2) safe2] by blast
  have l: "lx_extends lx lx2" using l1(1) l2(1) by (rule lx_extends_trans)
  define k where "k = (if b then scan_exponent else if has_dot lx2 then emit (Tok TOKEN_DOUBLE) else scan_number_suffix)"
  have "scan_ok (\<lambda>x. b \<longrightarrow> inside x) k"
    using scans_exponent scan_ok_any [OF scans_number_suffix] scans_emit by (simp add: k_def)
  moreover have "scan_decimal lx = k lx2" using a f b by (simp add: scan_decimal_def k_def)
  ultimately show "\<exists>tok lx'. scan_decimal lx = Some (tok, lx') \<and> lx_extends lx lx' \<and> lx_wf lx' \<and> token_fits tok lx'"
    using scan_ok_extend [of "\<lambda>x. b \<longrightarrow> inside x" k lx lx2] l l2(2) safe b(2) by simp
qed

lemma scans_number [slp_inv]: "scans scan_number"
proof -
  have "scans (on_peek (\<lambda>c. c = CHR ''x'' \<or> c = CHR ''X'') scan_hex scan_decimal)"
    by (intro slp_inv) auto
  with scans_decimal show ?thesis unfolding scan_ok_def scan_number_def by simp
qed

subsection \<open>Operators\<close>

lemma scans_scalar_name [slp_inv]: "scans scan_scalar_name"
  unfolding scan_scalar_name_def by (intro slp_inv) auto

lemma scans_by_name [slp_inv]: "scans scan_by_name"
  unfolding scan_by_name_def by (intro slp_inv) auto

lemmas operator_defs = scan_at_def scan_backslash_def scan_percent_def scan_dot_def scan_minus_def
  scan_plus_def scan_slash_def scan_star_def scan_caret_def scan_pipe_def scan_ampersand_def
  scan_bang_def scan_equal_def scan_less_def scan_greater_def scan_dollar_def

lemma scans_operators [slp_inv]:
  "scans scan_at" "scans scan_backslash" "scans scan_percent" "scans scan_dot" "scans scan_minus"
  "scans scan_plus" "scans scan_slash" "scans scan_star" "scans scan_caret" "scans scan_pipe"
  "scans scan_ampersand" "scans scan_bang" "scans scan_equal" "scans scan_less" "scans scan_greater"
  "scans scan_dollar"
  unfolding operator_defs by ((intro slp_inv; simp)+)

lemma scans_error [slp_inv]: "scans (\<lambda>lx. Some (error_token lx m, lx))"
  by (rule scan_okI) (simp add: error_token_def token_fits_def)

lemma scans_symbol [slp_inv]: "scans (scan_symbol c)"
  unfolding scan_symbol_def scan_operator_def by (auto intro!: slp_inv)

subsection \<open>White space and comments\<close>

text \<open>The reference: drop blanks, and a comment up to (not including) its newline.\<close>

function drop_blank :: "string \<Rightarrow> string" where
  "drop_blank [] = []"
| "drop_blank (c # cs) =
     (if c = CHR '' '' \<or> c = CHR 0x0D \<or> c = CHR 0x09 \<or> c = NL then drop_blank cs
      else if c = CHR ''#'' then drop_blank (dropWhile (\<lambda>d. d \<noteq> NL) cs)
      else c # cs)"
  by pat_completeness auto
termination
  by (relation "measure length") (auto simp: le_imp_less_Suc length_dropWhile_le)

lemma skip_while_drop:
  "c_string s \<Longrightarrow> \<not> P NUL \<Longrightarrow> i \<le> length s \<Longrightarrow> skip_while P s i = Some j \<Longrightarrow>
   drop j s = dropWhile P (drop i s)"
proof (induction P s i rule: skip_while.induct)
  case (1 P s i)
  obtain c where c: "cread s i = Some c" using cread_le [OF 1(4)] by blast
  show ?case
  proof (cases "P c")
    case True
    with 1(3) have "c \<noteq> NUL" by auto
    then have "i < length s" using cread_Some_lt [OF c] by simp
    moreover have "skip_while P s (Suc i) = Some j"
      using skip_while.simps [of P s i] c True 1(5) by simp
    ultimately show ?thesis
      using "1.IH" [OF c True 1(2,3)] c True by (simp add: Cons_nth_drop_Suc [symmetric])
  next
    case False
    with 1(5) c have "j = i" using skip_while.simps [of P s i] by simp
    with False c show ?thesis
      by (cases "i < length s") (simp_all add: Cons_nth_drop_Suc [symmetric])
  qed
qed

lemma dropWhile_comment:
  "c_string s \<Longrightarrow> dropWhile (\<lambda>d. d \<noteq> NL \<and> d \<noteq> NUL) s = dropWhile (\<lambda>d. d \<noteq> NL) s"
  by (induction s) (auto simp: c_string_def)

lemma c_string_drop: "c_string s \<Longrightarrow> c_string (drop n s)"
  by (auto simp: c_string_def dest: in_set_dropD)

lemma skip_whitespace_total:
  "lx_wf lx \<Longrightarrow> c_string (lx_source lx) \<Longrightarrow>
   \<exists>lx'. skip_whitespace lx = Some lx' \<and> lx_extends lx lx' \<and> lx_wf lx' \<and>
     drop (lx_current lx') (lx_source lx) = drop_blank (drop (lx_current lx) (lx_source lx))"
proof (induction lx rule: skip_whitespace.induct)
  case (1 lx)
  obtain c where c: "peek lx = Some c" using peek_wf [OF 1(4)] by blast
  then have le: "lx_current lx \<le> length (lx_source lx)" by (simp add: peek_def cread_Some_le)
  let ?nx = "lx\<lparr>lx_current := Suc (lx_current lx)\<rparr>"
  let ?nl = "lx\<lparr>lx_line := Suc (lx_line lx), lx_current := Suc (lx_current lx)\<rparr>"
  have here: "drop (lx_current lx) (lx_source lx) = c # drop (Suc (lx_current lx)) (lx_source lx)"
    if "c \<noteq> NUL"
    using that c cread_Some_lt [of "lx_source lx" "lx_current lx" c]
    by (auto simp: peek_def Cons_nth_drop_Suc)
  have ins: "inside lx" if "c \<noteq> NUL" using that c by (auto simp: peek_def dest: cread_Some_lt)
  consider (ws) "c = CHR '' '' \<or> c = CHR 0x0D \<or> c = CHR 0x09" | (nl) "c = NL" | (com) "c = CHR ''#''"
    | (other) "c \<noteq> CHR '' ''" "c \<noteq> CHR 0x0D" "c \<noteq> CHR 0x09" "c \<noteq> NL" "c \<noteq> CHR ''#''" by blast
  then show ?case
  proof cases
    case ws
    then have "c \<noteq> NUL" by auto
    then have "lx_extends lx ?nx" "lx_wf ?nx" using step_extends [OF 1(4) ins] by auto
    with "1.IH"(1) [OF c ws] 1(5) here ws c \<open>c \<noteq> NUL\<close> show ?thesis
      by (subst skip_whitespace.simps) (auto intro: lx_extends_trans)
  next
    case nl
    then have "lx_extends lx ?nl" "lx_wf ?nl"
      using 1(4) ins by (auto simp: lx_extends_def lx_wf_def)
    with "1.IH"(2) [OF c _ nl] 1(5) here nl c show ?thesis
      by (subst skip_whitespace.simps) (auto intro: lx_extends_trans)
  next
    case com
    let ?P = "\<lambda>d. d \<noteq> NL \<and> d \<noteq> NUL"
    obtain j where j: "skip_while ?P (lx_source lx) (lx_current lx) = Some j" "lx_current lx \<le> j"
      "j \<le> length (lx_source lx)"
      using skip_while_total [OF 1(5), of ?P] le by auto
    let ?c = "lx\<lparr>lx_current := j\<rparr>"
    have a: "advance_while ?P lx = Some ?c" using j(1) by (simp add: advance_while_def)
    have e: "lx_extends lx ?c" "lx_wf ?c" using 1(4) j by (auto simp: lx_extends_def lx_wf_def)
    have "drop j (lx_source lx) = dropWhile (\<lambda>d. d \<noteq> NL) (drop (lx_current lx) (lx_source lx))"
      using skip_while_drop [OF 1(5) _ le j(1)] dropWhile_comment [OF c_string_drop [OF 1(5)]] by simp
    then have d: "drop_blank (drop j (lx_source lx)) = drop_blank (drop (lx_current lx) (lx_source lx))"
      using here com by simp
    have "\<exists>lx'. skip_whitespace ?c = Some lx' \<and> lx_extends ?c lx' \<and> lx_wf lx' \<and>
      drop (lx_current lx') (lx_source ?c) = drop_blank (drop (lx_current ?c) (lx_source ?c))"
      using com 1(5) by (intro "1.IH"(3) [OF c _ _ _ a e(2)]) auto
    moreover have "skip_whitespace lx = skip_whitespace ?c"
      using c com a by (subst skip_whitespace.simps) simp
    ultimately show ?thesis using d e(1) by (auto intro: lx_extends_trans)
  next
    case other
    then have "skip_whitespace lx = Some lx" using c by (subst skip_whitespace.simps) simp
    moreover have "drop_blank (drop (lx_current lx) (lx_source lx)) = drop (lx_current lx) (lx_source lx)"
      using other here by (cases "c = NUL") (use c cread_NUL [OF 1(5)] in \<open>auto simp: peek_def\<close>)
    ultimately show ?thesis using 1(4) by simp
  qed
qed

subsection \<open>The token scanner\<close>

lemma scan_first_ok:
  assumes wf: "lx_wf lx" and safe: "safe_source (lx_source lx)" and start: "lx_start lx = lx_current lx"
  shows "\<exists>tok lx'. scan_first lx = Some (tok, lx') \<and> lx_extends lx lx' \<and> lx_wf lx' \<and> token_fits tok lx' \<and>
    (if inside lx then lx_current lx < lx_current lx' else tok_type tok = Tok TOKEN_EOF \<and> lx' = lx)"
proof -
  obtain c where c: "peek lx = Some c" using peek_wf [OF wf] by blast
  show ?thesis
  proof (cases "inside lx")
    case False
    then have "c = NUL" using peek_inside [OF safe c] by simp
    with c False wf show ?thesis
      by (simp add: scan_first_def is_at_end_def emit_def make_token_def token_fits_def)
  next
    case True
    let ?n = "lx\<lparr>lx_current := Suc (lx_current lx)\<rparr>"
    define k where "k = (if is_alpha c then scan_identifier else if is_digit c then scan_number else scan_symbol c)"
    have "c \<noteq> NUL" using peek_inside [OF safe c] True by simp
    then have "scan_first lx = k ?n"
      using c by (simp add: scan_first_def is_at_end_def lexer_advance_def k_def)
    moreover have "scans k" by (simp add: k_def slp_inv)
    then obtain tok lx' where "k ?n = Some (tok, lx')" "lx_extends ?n lx'" "lx_wf lx'" "token_fits tok lx'"
      using step_extends [OF wf True] safe by (elim scan_okE [of _ _ ?n]) auto
    moreover then have "lx_extends lx lx'" "lx_current lx < lx_current lx'"
      using step_extends [OF wf True] lx_extends_trans by (blast, simp add: lx_extends_def)
    ultimately show ?thesis using True by auto
  qed
qed

lemma scan_token_spec:
  assumes "lx_wf lx" "safe_source (lx_source lx)"
  obtains tok lx' where "slp_lexer_scan_token lx = Some (tok, lx')"
    and "lx_wf lx'" "lx_source lx' = lx_source lx" "lx_current lx \<le> lx_start lx'" "lx_line lx \<le> lx_line lx'"
    and "drop (lx_start lx') (lx_source lx) = drop_blank (drop (lx_current lx) (lx_source lx))"
    and "token_fits tok lx'"
    and "if lx_start lx' < length (lx_source lx) then lx_start lx' < lx_current lx'
         else tok_type tok = Tok TOKEN_EOF \<and> lx_current lx' = lx_start lx'"
proof -
  have "c_string (lx_source lx)" using assms(2) by (simp add: safe_source_def)
  then obtain lx1 where w: "skip_whitespace lx = Some lx1" "lx_extends lx lx1" "lx_wf lx1"
    "drop (lx_current lx1) (lx_source lx) = drop_blank (drop (lx_current lx) (lx_source lx))"
    using skip_whitespace_total [OF assms(1)] by blast
  let ?s = "lx1\<lparr>lx_start := lx_current lx1, lx_start_line := lx_line lx1\<rparr>"
  have "lx_wf ?s" "safe_source (lx_source ?s)"
    using w assms(2) by (auto simp: lx_wf_def lx_extends_source)
  then obtain tok lx' where "scan_first ?s = Some (tok, lx')" "lx_extends ?s lx'" "lx_wf lx'" "token_fits tok lx'"
    "if inside ?s then lx_current ?s < lx_current lx' else tok_type tok = Tok TOKEN_EOF \<and> lx' = ?s"
    using scan_first_ok [of ?s] by auto
  with w that [of tok lx'] show thesis
    by (auto simp: slp_lexer_scan_token_def lx_extends_def split: if_splits)
qed

subsection \<open>The scanner interface\<close>

text \<open>The tokens a parser sees, up to and including the first end of file.\<close>

fun token_stream :: "(slp_lexer \<Rightarrow> scan_result) \<Rightarrow> nat \<Rightarrow> slp_lexer \<Rightarrow> slp_token list option" where
  "token_stream next 0 lx = None"
| "token_stream next (Suc fuel) lx =
     (case next lx of
        None \<Rightarrow> None
      | Some (tok, lx') \<Rightarrow>
          if tok_type tok = Tok TOKEN_EOF then Some [tok]
          else map_option ((#) tok) (token_stream next fuel lx'))"

locale scanner =
  fixes next_token :: "slp_lexer \<Rightarrow> scan_result" and good :: "string \<Rightarrow> bool"
  assumes next_total: "lx_wf lx \<Longrightarrow> good (lx_source lx) \<Longrightarrow>
      \<exists>tok lx'. next_token lx = Some (tok, lx') \<and> lx_wf lx' \<and> lx_source lx' = lx_source lx"
    and next_progress: "lx_wf lx \<Longrightarrow> good (lx_source lx) \<Longrightarrow> next_token lx = Some (tok, lx') \<Longrightarrow>
      tok_type tok \<noteq> Tok TOKEN_EOF \<Longrightarrow> lx_current lx < lx_current lx'"
    and next_eof: "lx_wf lx \<Longrightarrow> good (lx_source lx) \<Longrightarrow> lx_current lx = length (lx_source lx) \<Longrightarrow>
      next_token lx = Some (tok, lx') \<Longrightarrow> tok_type tok = Tok TOKEN_EOF"
begin

lemma stream_total:
  "lx_wf lx \<Longrightarrow> good (lx_source lx) \<Longrightarrow> length (lx_source lx) - lx_current lx < fuel \<Longrightarrow>
   \<exists>ts. token_stream next_token fuel lx = Some ts \<and> ts \<noteq> [] \<and> tok_type (last ts) = Tok TOKEN_EOF \<and>
     length ts \<le> Suc (length (lx_source lx) - lx_current lx)"
proof (induction fuel arbitrary: lx)
  case 0
  then show ?case by simp
next
  case (Suc fuel)
  obtain tok lx' where n: "next_token lx = Some (tok, lx')" "lx_wf lx'" "lx_source lx' = lx_source lx"
    using next_total [OF Suc.prems(1,2)] by blast
  show ?case
  proof (cases "tok_type tok = Tok TOKEN_EOF")
    case True
    with n(1) show ?thesis by simp
  next
    case False
    have lt: "lx_current lx < lx_current lx'" by (rule next_progress [OF Suc.prems(1,2) n(1) False])
    have "lx_current lx' \<le> length (lx_source lx)" using n(2,3) by (simp add: lx_wf_def)
    with lt Suc.prems(3) have "length (lx_source lx') - lx_current lx' < fuel" by (simp add: n(3))
    with Suc.IH [OF n(2)] Suc.prems(2) n(3) obtain ts where "token_stream next_token fuel lx' = Some ts"
      "ts \<noteq> []" "tok_type (last ts) = Tok TOKEN_EOF" "length ts \<le> Suc (length (lx_source lx) - lx_current lx')"
      by auto
    with n(1) False lt \<open>lx_current lx' \<le> length (lx_source lx)\<close> show ?thesis by auto
  qed
qed

end

interpretation slp: scanner slp_lexer_scan_token safe_source
proof unfold_locales
  fix lx assume "lx_wf lx" "safe_source (lx_source lx)"
  then show "\<exists>tok lx'. slp_lexer_scan_token lx = Some (tok, lx') \<and> lx_wf lx' \<and> lx_source lx' = lx_source lx"
    by (elim scan_token_spec [of lx]) blast+
next
  fix lx tok lx'
  assume "lx_wf lx" "safe_source (lx_source lx)" "slp_lexer_scan_token lx = Some (tok, lx')"
    "tok_type tok \<noteq> Tok TOKEN_EOF"
  then show "lx_current lx < lx_current lx'"
    by (elim scan_token_spec [of lx]) (auto split: if_splits)
next
  fix lx tok lx'
  assume "lx_wf lx" "safe_source (lx_source lx)" "slp_lexer_scan_token lx = Some (tok, lx')"
    "lx_current lx = length (lx_source lx)"
  then show "tok_type tok = Tok TOKEN_EOF"
    by (elim scan_token_spec [of lx]) (auto split: if_splits)
qed

end
