(* ===== verification/Lexer_Keywords.thy ===== *)
theory Lexer_Keywords
  imports Lexer_Safety
begin

text \<open>
  The keyword recogniser of the scanner, a hand-written trie over \<open>lexer->start[k]\<close>, agrees with a
  plain keyword table on the text of the lexeme. The table is the reference; \<open>x\<close> alone is left out
  because the C code decides it by what follows in the source.
\<close>

definition lexeme :: "slp_lexer \<Rightarrow> string" where
  "lexeme lx = segment (lx_start lx) (lx_current lx) (lx_source lx)"

definition reserved_words :: "(string \<times> slp_token_type) list" where
  "reserved_words =
     [(''assert'', Kw TOKEN_ASSERT), (''addAll'', Kw TOKEN_ADDALL), (''break'', Kw TOKEN_BREAK),
      (''callcc'', Kw TOKEN_CALLCC), (''catch'', Kw TOKEN_CATCH), (''copy'', Kw TOKEN_COPY),
      (''continue'', Kw TOKEN_CONTINUE), (''done'', Kw TOKEN_DONE), (''else'', Kw TOKEN_ELSE),
      (''false'', Tok TOKEN_FALSE), (''for'', Kw TOKEN_FOR), (''foreach'', Kw TOKEN_FOREACH),
      (''from'', Kw TOKEN_FROM), (''halt'', Kw TOKEN_HALT), (''if'', Kw TOKEN_IF),
      (''import'', Kw TOKEN_IMPORT), (''retainAll'', Kw TOKEN_RETAINALL), (''return'', Kw TOKEN_RETURN),
      (''removeAll'', Kw TOKEN_REMOVEALL), (''sub'', Kw TOKEN_SUB), (''throw'', Kw TOKEN_THROW),
      (''try'', Kw TOKEN_TRY), (''true'', Tok TOKEN_TRUE), (''while'', Kw TOKEN_WHILE),
      (''yield'', Kw TOKEN_YIELD)]"

definition reserved_type :: "string \<Rightarrow> slp_token_type" where
  "reserved_type w = (case map_of reserved_words w of Some ty \<Rightarrow> ty | None \<Rightarrow> Tok TOKEN_ID)"

definition keyword_type :: "string \<Rightarrow> slp_token_type" where
  "keyword_type w =
     (if w \<in> set predicate_words then Tok TOKEN_BUILTIN_BINARY_PREDICATE_BRIDGE else reserved_type w)"

lemma length_lexeme: "lx_wf lx \<Longrightarrow> length (lexeme lx) = lexeme_len lx"
  by (simp add: lexeme_def lexeme_len_def lx_wf_def)

lemma lx_at_lexeme: "lx_wf lx \<Longrightarrow> k < lexeme_len lx \<Longrightarrow> lx_at lx k = Some (lexeme lx ! k)"
  by (auto simp: lexeme_def lexeme_len_def lx_wf_def lx_at_def segment_nth less_diff_conv)

lemma list_eq_nth: "(xs = ys) = (length xs = length ys \<and> list_all (\<lambda>i. xs ! i = ys ! i) [0..<length ys])"
  by (auto simp: list_all_iff intro: nth_equalityI)

text \<open>A successful check is equality of the lexeme's tail with the given text.\<close>

lemma check_keyword_eq:
  assumes "lx_wf lx" "len = length rest"
  shows "check_keyword lx st len rest ty =
    (if st \<le> lexeme_len lx \<and> drop st (lexeme lx) = rest then ty else Tok TOKEN_ID)"
proof (cases "lexeme_len lx = st + len")
  case True
  then have "list_all (\<lambda>i. lx_at lx (st + i) = cread rest i) [0..<len] \<longleftrightarrow> drop st (lexeme lx) = rest"
    using assms length_lexeme [OF assms(1)] lx_at_lexeme [OF assms(1)]
    by (subst list_eq_nth) (auto simp: list_all_iff)
  with True show ?thesis by (simp add: check_keyword_def)
next
  case False
  then have "st \<le> lexeme_len lx \<Longrightarrow> drop st (lexeme lx) \<noteq> rest"
    using assms(2) length_lexeme [OF assms(1)] by auto
  with False show ?thesis by (auto simp: check_keyword_def)
qed

text \<open>\<open>check_keyword(2, 4, "ine")\<close> compares four characters, the last with the literal's NUL.\<close>

lemma check_keyword_inline:
  assumes "lx_wf lx" "c_string (lx_source lx)"
  shows "check_keyword lx 2 4 ''ine'' ty = Tok TOKEN_ID"
proof (cases "lexeme_len lx = 6")
  case True
  then have "lx_at lx 5 = Some (lx_source lx ! (lx_start lx + 5))" "lx_start lx + 5 < length (lx_source lx)"
    using assms(1) by (auto simp: lx_at_def lexeme_len_def lx_wf_def)
  then have "lx_at lx 5 \<noteq> Some NUL" using c_string_nth [OF assms(2)] by force
  moreover have "cread ''ine'' 3 = Some NUL" by (simp add: cread_def)
  ultimately have "\<not> list_all (\<lambda>i. lx_at lx (2 + i) = cread ''ine'' i) [0..<4]"
    by (auto simp: list_all_iff intro!: bexI [of _ "3::nat"])
  then show ?thesis by (simp add: check_keyword_def)
qed (simp add: check_keyword_def)

lemma is_predicate_word_eq:
  assumes "lx_wf lx"
  shows "is_predicate_word lx \<longleftrightarrow> lexeme lx \<in> set predicate_words"
proof -
  have "lexeme_len lx = length w \<and> list_all (\<lambda>j. lx_at lx j = Some (w ! j)) [0..<length w] \<longleftrightarrow> lexeme lx = w" for w
    using length_lexeme [OF assms] lx_at_lexeme [OF assms]
    by (subst list_eq_nth) (auto simp: list_all_iff)
  then show ?thesis by (auto simp: is_predicate_word_def list_ex_iff)
qed

text \<open>
  The trie, one first letter at a time.
\<close>

lemma lexeme_probe:
  assumes "lx_wf lx" "lexeme lx = w"
  shows "lexeme_len lx = length w" and "k < length w \<Longrightarrow> lx_at lx k = Some (w ! k)"
  using assms length_lexeme lx_at_lexeme by fastforce+

lemma reserved_type_Cons:
  "reserved_type (c # r) =
     (if c = CHR ''a'' then if r = ''ssert'' then Kw TOKEN_ASSERT else if r = ''ddAll'' then Kw TOKEN_ADDALL else Tok TOKEN_ID
      else if c = CHR ''b'' then if r = ''reak'' then Kw TOKEN_BREAK else Tok TOKEN_ID
      else if c = CHR ''c'' then if r = ''allcc'' then Kw TOKEN_CALLCC else if r = ''atch'' then Kw TOKEN_CATCH
        else if r = ''opy'' then Kw TOKEN_COPY else if r = ''ontinue'' then Kw TOKEN_CONTINUE else Tok TOKEN_ID
      else if c = CHR ''d'' then if r = ''one'' then Kw TOKEN_DONE else Tok TOKEN_ID
      else if c = CHR ''e'' then if r = ''lse'' then Kw TOKEN_ELSE else Tok TOKEN_ID
      else if c = CHR ''f'' then if r = ''alse'' then Tok TOKEN_FALSE else if r = ''or'' then Kw TOKEN_FOR
        else if r = ''oreach'' then Kw TOKEN_FOREACH else if r = ''rom'' then Kw TOKEN_FROM else Tok TOKEN_ID
      else if c = CHR ''h'' then if r = ''alt'' then Kw TOKEN_HALT else Tok TOKEN_ID
      else if c = CHR ''i'' then if r = ''f'' then Kw TOKEN_IF else if r = ''mport'' then Kw TOKEN_IMPORT else Tok TOKEN_ID
      else if c = CHR ''r'' then if r = ''etainAll'' then Kw TOKEN_RETAINALL else if r = ''eturn'' then Kw TOKEN_RETURN
        else if r = ''emoveAll'' then Kw TOKEN_REMOVEALL else Tok TOKEN_ID
      else if c = CHR ''s'' then if r = ''ub'' then Kw TOKEN_SUB else Tok TOKEN_ID
      else if c = CHR ''t'' then if r = ''hrow'' then Kw TOKEN_THROW else if r = ''ry'' then Kw TOKEN_TRY
        else if r = ''rue'' then Tok TOKEN_TRUE else Tok TOKEN_ID
      else if c = CHR ''w'' then if r = ''hile'' then Kw TOKEN_WHILE else Tok TOKEN_ID
      else if c = CHR ''y'' then if r = ''ield'' then Kw TOKEN_YIELD else Tok TOKEN_ID
      else Tok TOKEN_ID)"
  by (simp add: reserved_type_def reserved_words_def)

lemma trie_a: "lx_wf lx \<Longrightarrow> lexeme lx = CHR ''a'' # r \<Longrightarrow> keyword_a lx = reserved_type (CHR ''a'' # r)"
  by (cases r) (auto simp: keyword_a_def check_keyword_eq lexeme_probe reserved_type_Cons)

lemma trie_c: "lx_wf lx \<Longrightarrow> lexeme lx = CHR ''c'' # r \<Longrightarrow> keyword_c lx = reserved_type (CHR ''c'' # r)"
  by (cases r; cases "tl r"; cases "tl (tl r)"; cases "tl (tl (tl r))")
     (auto simp: keyword_c_def check_keyword_eq lexeme_probe reserved_type_Cons)

lemma trie_e: "lx_wf lx \<Longrightarrow> lexeme lx = CHR ''e'' # r \<Longrightarrow> keyword_e lx = reserved_type (CHR ''e'' # r)"
  by (cases r; cases "tl r"; cases "tl (tl r)"; cases "tl (tl (tl r))")
     (auto simp: keyword_e_def lexeme_probe reserved_type_Cons)

lemma trie_f: "lx_wf lx \<Longrightarrow> lexeme lx = CHR ''f'' # r \<Longrightarrow> keyword_f lx = reserved_type (CHR ''f'' # r)"
  by (cases r; cases "tl r"; cases "tl (tl r)")
     (auto simp: keyword_f_def check_keyword_eq lexeme_probe reserved_type_Cons)

lemma trie_h: "lx_wf lx \<Longrightarrow> lexeme lx = CHR ''h'' # r \<Longrightarrow> keyword_h lx = reserved_type (CHR ''h'' # r)"
  by (cases r; cases "tl r"; cases "tl (tl r)"; cases "tl (tl (tl r))")
     (auto simp: keyword_h_def lexeme_probe reserved_type_Cons)

lemma trie_i:
  "lx_wf lx \<Longrightarrow> c_string (lx_source lx) \<Longrightarrow> lexeme lx = CHR ''i'' # r \<Longrightarrow>
   keyword_i lx = reserved_type (CHR ''i'' # r)"
  by (cases r) (auto simp: keyword_i_def check_keyword_eq check_keyword_inline lexeme_probe reserved_type_Cons)

lemma trie_r: "lx_wf lx \<Longrightarrow> lexeme lx = CHR ''r'' # r \<Longrightarrow> keyword_r lx = reserved_type (CHR ''r'' # r)"
  by (cases r; cases "tl r")
     (auto simp: keyword_r_def check_keyword_eq lexeme_probe reserved_type_Cons)

lemma trie_t: "lx_wf lx \<Longrightarrow> lexeme lx = CHR ''t'' # r \<Longrightarrow> keyword_t lx = reserved_type (CHR ''t'' # r)"
  by (cases r; cases "tl r"; cases "tl (tl r)")
     (auto simp: keyword_t_def check_keyword_eq lexeme_probe reserved_type_Cons)

lemmas trie_letters = trie_a trie_c trie_e trie_f trie_h trie_i trie_r trie_t

lemma identifier_type_spec:
  assumes wf: "lx_wf lx" and c: "c_string (lx_source lx)" and ne: "lexeme lx \<noteq> []" and x: "lexeme lx \<noteq> ''x''"
  shows "identifier_type lx = Some (keyword_type (lexeme lx))"
proof -
  obtain d r where l: "lexeme lx = d # r" using ne by (cases "lexeme lx") auto
  have at0: "lx_at lx 0 = Some d" using lexeme_probe(2) [OF wf l, of 0] by simp
  have chk: "n = length w \<Longrightarrow> check_keyword lx (Suc 0) n w ty = (if r = w then ty else Tok TOKEN_ID)" for n w ty
    using check_keyword_eq [OF wf, of n w] lexeme_probe(1) [OF wf l] by (simp add: l)
  have kx: "keyword_x lx = Some (Tok TOKEN_ID)" if "d = CHR ''x''"
    using that x l lexeme_probe(1) [OF wf l] by (auto simp: keyword_x_def)
  show ?thesis
  proof (cases "lexeme lx \<in> set predicate_words")
    case True
    then show ?thesis by (simp add: identifier_type_def is_predicate_word_eq [OF wf] keyword_type_def)
  next
    case False
    then have no: "\<not> is_predicate_word lx" by (simp add: is_predicate_word_eq [OF wf])
    note it = identifier_type_def [of lx]
    have "identifier_type lx = Some (reserved_type (d # r))"
    proof (cases "d \<in> set ''acefhirt''")
      case True
      then consider "d = CHR ''a''" | "d = CHR ''c''" | "d = CHR ''e''" | "d = CHR ''f''" | "d = CHR ''h''"
        | "d = CHR ''i''" | "d = CHR ''r''" | "d = CHR ''t''" by auto
      then show ?thesis
        by cases (simp_all add: it no at0 l c trie_letters [OF wf])
    next
      case False
      then show ?thesis
        by (simp add: it no at0 l reserved_type_Cons chk kx)
    qed
    with False l show ?thesis by (simp add: keyword_type_def)
  qed
qed

end
