(* ===== verification/Lexer_Props.thy ===== *)
theory Lexer_Props
  imports Lexer_Keywords
begin

text \<open>
  What the scanner promises, stated on whole sources: memory safety, termination, the token text, the
  keyword table, string literals up to their first unescaped quote, and three places where the code
  departs from what it means to do (the read past the buffer after a final backslash, the scalar
  names that start with a prefix of \<open>null\<close>, and the keyword \<open>inline\<close> that is never recognised).
\<close>

subsection \<open>Words\<close>



lemma skip_whitespace_stop:
  assumes "peek lx = Some c" "c \<noteq> CHR '' ''" "c \<noteq> CHR 0x0D" "c \<noteq> CHR 0x09" "c \<noteq> NL" "c \<noteq> CHR ''#''"
  shows "skip_whitespace lx = Some lx"
  using assms by (subst skip_whitespace.simps) simp

lemma scan_token_start:
  assumes "s = c # cs" "c \<noteq> NUL" "c \<noteq> CHR '' ''" "c \<noteq> CHR 0x0D" "c \<noteq> CHR 0x09" "c \<noteq> NL" "c \<noteq> CHR ''#''"
  shows "slp_lexer_scan_token (slp_lexer_init s) =
    (let lx = (slp_lexer_init s)\<lparr>lx_current := 1\<rparr> in
     if is_alpha c then scan_identifier lx else if is_digit c then scan_number lx else scan_symbol c lx)"
proof -
  have p: "peek (slp_lexer_init s) = Some c" using assms(1) by (simp add: peek_def slp_lexer_init_def cread_def)
  have "(slp_lexer_init s)\<lparr>lx_start := lx_current (slp_lexer_init s), lx_start_line := lx_line (slp_lexer_init s)\<rparr>
      = slp_lexer_init s" by (simp add: slp_lexer_init_def)
  then show ?thesis
    using assms(2-) skip_whitespace_stop [OF p] p
    by (simp add: slp_lexer_scan_token_def scan_first_def is_at_end_def lexer_advance_def Let_def)
       (simp add: slp_lexer_init_def)
qed



subsection \<open>String literals\<close>


lemma peek_drop: "drop (lx_current lx) (lx_source lx) = c # cs \<Longrightarrow> peek lx = Some c"
  by (metis cread_in drop_all linorder_not_le list.distinct(1) nth_via_drop peek_def)

lemma drop_step: "drop n s = c # cs \<Longrightarrow> drop (Suc n) s = cs"
  by (metis drop_Suc drop_tl list.sel(3))


lemma scan_string_body_overread:
  "q \<noteq> CHR 0x5C \<Longrightarrow> q \<notin> set b \<Longrightarrow> CHR 0x5C \<notin> set b \<Longrightarrow> NUL \<notin> set b \<Longrightarrow>
   drop (lx_current lx) (lx_source lx) = b @ [CHR 0x5C] \<Longrightarrow> scan_string_body q lx = None"
proof (induction b arbitrary: lx)
  case Nil
  then have p: "peek lx = Some CHR 0x5C" using peek_drop [of lx] by simp
  have "length (lx_source lx) = Suc (lx_current lx)"
    using arg_cong [OF Nil(5), of length] by simp
  then have "peek (lx\<lparr>lx_current := Suc (Suc (lx_current lx))\<rparr>) = None" by (simp add: peek_def cread_def)
  then have "scan_string_body q (lx\<lparr>lx_current := Suc (Suc (lx_current lx))\<rparr>) = None"
    by (subst scan_string_body.simps) simp
  with p Nil(1) show ?case by (subst scan_string_body.simps) (simp add: Let_def)
next
  case (Cons c b)
  let ?l1 = "if c = NL then lx\<lparr>lx_line := Suc (lx_line lx)\<rparr> else lx"
  let ?lx = "?l1\<lparr>lx_current := Suc (lx_current ?l1)\<rparr>"
  have "drop (lx_current ?lx) (lx_source ?lx) = b @ [CHR 0x5C]"
    using drop_step [of "lx_current lx" "lx_source lx" c "b @ [CHR 0x5C]"] Cons.prems(5) by simp
  then have "scan_string_body q ?lx = None" using Cons.prems by (intro Cons.IH) auto
  moreover have "peek lx = Some c" using Cons.prems(5) peek_drop [of lx] by simp
  then have "scan_string_body q lx = scan_string_body q ?lx"
    using Cons.prems by (subst scan_string_body.simps) (auto simp: Let_def)
  ultimately show ?case by simp
qed

lemma scan_quote:
  assumes "q \<in> {CHR 0x22, CHR 0x27, CHR 0x60}"
  shows "slp_lexer_scan_token (slp_lexer_init (q # s)) =
    scan_string q (if q = CHR 0x22 then Tok TOKEN_STRING else if q = CHR 0x27 then Tok TOKEN_LITERAL
                   else Tok TOKEN_BACKTICK_EXPR) ((slp_lexer_init (q # s))\<lparr>lx_current := 1\<rparr>)"
proof -
  have "\<not> is_alpha q" "\<not> is_digit q" "q \<noteq> NUL" "q \<noteq> CHR '' ''" "q \<noteq> CHR 0x0D" "q \<noteq> CHR 0x09" "q \<noteq> NL" "q \<noteq> CHR ''#''"
    using assms by (auto simp: is_alpha_def is_digit_def)
  then show ?thesis
    using scan_token_start [of "q # s" q s] assms by (auto simp: Let_def scan_symbol_def scan_operator_def)
qed

lemma on_match_hit: "peek lx = Some c \<Longrightarrow> c \<noteq> NUL \<Longrightarrow> on_match c k other lx = k (lx\<lparr>lx_current := Suc (lx_current lx)\<rparr>)"
  by (simp add: on_match_def lexer_match_def)

lemma on_match_miss: "peek lx = Some d \<Longrightarrow> d \<noteq> c \<Longrightarrow> on_match c k other lx = other lx"
  by (simp add: on_match_def lexer_match_def)

subsection \<open>Properties\<close>

text \<open>C11: from a well-formed lexer state over a source that holds no NUL and does not end in a backslash,
  \<open>slp_lexer_scan_token\<close> returns without reading outside the buffer. It skips exactly the blanks and
  comments before the token, leaves the cursor inside the buffer and never behind where it was, and
  the copied lexeme of every token but an error is the source text between the two cursors.\<close>

theorem lexer_in_bounds:
  assumes "lx_wf lx" and "safe_source (lx_source lx)"
  shows "\<exists>tok lx'. slp_lexer_scan_token lx = Some (tok, lx') \<and> lx_source lx' = lx_source lx \<and>
    lx_current lx \<le> lx_start lx' \<and> lx_start lx' \<le> lx_current lx' \<and> lx_current lx' \<le> length (lx_source lx) \<and>
    drop (lx_start lx') (lx_source lx) = drop_blank (drop (lx_current lx) (lx_source lx)) \<and>
    (tok_type tok = Tok TOKEN_ERROR \<or>
     slp_lexer_copy_lexeme lx' tok = segment (lx_start lx') (lx_current lx') (lx_source lx))"
proof -
  obtain tok lx' where t: "slp_lexer_scan_token lx = Some (tok, lx')" "lx_wf lx'"
    "lx_source lx' = lx_source lx" "lx_current lx \<le> lx_start lx'"
    "drop (lx_start lx') (lx_source lx) = drop_blank (drop (lx_current lx) (lx_source lx))"
    and fits: "token_fits tok lx'"
    using scan_token_spec [OF assms] by blast
  have "tok_type tok = Tok TOKEN_ERROR \<or>
     slp_lexer_copy_lexeme lx' tok = segment (lx_start lx') (lx_current lx') (lx_source lx)"
    using fits t(2,3) by (auto simp: token_fits_def slp_lexer_copy_lexeme_def lx_wf_def)
  with t show ?thesis by (auto simp: lx_wf_def)
qed

theorem lexer_in_bounds_witness:
  "\<exists>tok lx'. slp_lexer_scan_token (slp_lexer_init '' $x = 1;'') = Some (tok, lx') \<and>
    drop (lx_start lx') '' $x = 1;'' = ''$x = 1;'' \<and> lx_current lx' \<le> 8"
proof -
  have "lx_wf (slp_lexer_init '' $x = 1;'')" "safe_source (lx_source (slp_lexer_init '' $x = 1;''))"
    by (simp_all add: lx_wf_def slp_lexer_init_def safe_source_def c_string_def)
  from lexer_in_bounds [OF this] show ?thesis by (auto simp: slp_lexer_init_def)
qed

text \<open>C30: scanning a safe source terminates: \<open>length source + 1\<close> calls are enough to reach the end-of-file
  token, and no more tokens than that come out.\<close>

theorem lexer_terminates:
  assumes "safe_source source"
  shows "\<exists>ts. token_stream slp_lexer_scan_token (Suc (length source)) (slp_lexer_init source) = Some ts \<and>
    ts \<noteq> [] \<and> tok_type (last ts) = Tok TOKEN_EOF \<and> length ts \<le> Suc (length source)"
  using slp.stream_total [of "slp_lexer_init source" "Suc (length source)"] assms
  by (simp add: slp_lexer_init_def lx_wf_def)

theorem lexer_terminates_witness:
  "\<exists>ts. token_stream slp_lexer_scan_token 8 (slp_lexer_init ''if (1) '') = Some ts \<and> length ts \<le> 8"
proof -
  have "safe_source ''if (1) ''" by (simp add: safe_source_def c_string_def)
  from lexer_terminates [OF this] show ?thesis by (auto simp: numeral_eq_Suc)
qed

text \<open>
  A string, literal or backtick expression whose unterminated body ends in a backslash makes the
  scanner read past the terminating NUL of the source: the model has no result for it. The escape
  step advances over the NUL without testing for it.\<close>

theorem lexer_escape_overread:
  assumes "q \<in> {CHR 0x22, CHR 0x27, CHR 0x60}"
    and "q \<notin> set body" "CHR 0x5C \<notin> set body" "NUL \<notin> set body"
  shows "slp_lexer_scan_token (slp_lexer_init (q # body @ [CHR 0x5C])) = None"
proof -
  let ?lx = "(slp_lexer_init (q # body @ [CHR 0x5C]))\<lparr>lx_current := 1\<rparr>"
  have "scan_string_body q ?lx = None"
    using assms by (intro scan_string_body_overread [where b = body]) (auto simp: slp_lexer_init_def)
  then show ?thesis using scan_quote [OF assms(1), of "body @ [CHR 0x5C]"] by (simp add: scan_string_def)
qed

theorem lexer_escape_overread_witness:
  "slp_lexer_scan_token (slp_lexer_init (CHR 0x22 # ''abc'' @ [CHR 0x5C])) = None"
  by (rule lexer_escape_overread) simp_all



text \<open>The keyword \<open>inline\<close> is never recognised. The recogniser looks for it under the letters \<open>il\<close>, with
  a text one character too short, so the word \<open>inline\<close> and every other word scans to something
  other than \<open>TOKEN_INLINE\<close>.\<close>

lemma lexer_never_inline:
  assumes "lx_wf lx" and "c_string (lx_source lx)" and "lexeme lx \<noteq> []"
  shows "\<exists>ty. identifier_type lx = Some ty \<and> ty \<noteq> Kw TOKEN_INLINE"
proof (cases "lexeme lx = ''x''")
  case True
  have "lx_at lx 0 = Some CHR ''x''" using lexeme_probe(2) [OF assms(1) True, of 0] by simp
  moreover have "\<not> is_predicate_word lx"
    by (simp add: is_predicate_word_eq [OF assms(1)] True predicate_words_def)
  moreover obtain ty where "keyword_x lx = Some ty" "ty \<noteq> Kw TOKEN_INLINE"
  proof -
    let ?ws = "\<lambda>c. c = CHR '' '' \<or> c = CHR 0x09 \<or> c = CHR 0x0D \<or> c = NL"
    obtain j where j: "skip_while ?ws (lx_source lx) (lx_current lx) = Some j" "j \<le> length (lx_source lx)"
      using skip_while_total [OF assms(2), of ?ws "lx_current lx"] assms(1) by (auto simp: lx_wf_def)
    then obtain d where "cread (lx_source lx) j = Some d" using cread_le by blast
    with j(1) that show thesis by (cases "lexeme_len lx = 1") (auto simp: keyword_x_def)
  qed
  ultimately show ?thesis by (simp add: identifier_type_def)
next
  case False
  have "reserved_type w \<noteq> Kw TOKEN_INLINE" for w
    by (cases w) (auto simp: reserved_type_Cons, simp add: reserved_type_def reserved_words_def)
  with identifier_type_spec [OF assms False] show ?thesis by (simp add: keyword_type_def)
qed

lemma inline_not_keyword:
  "\<exists>ty. identifier_type ((slp_lexer_init ''inline'')\<lparr>lx_current := 6\<rparr>) = Some ty \<and> ty \<noteq> Kw TOKEN_INLINE"
  by (rule lexer_never_inline) (simp_all add: lx_wf_def slp_lexer_init_def c_string_def lexeme_def segment_def)



text \<open>A scalar whose name is a proper prefix of \<open>null\<close> swallows a following plus sign: \<open>$n+1\<close> scans to
  the scalar \<open>$n+\<close>, although the code means \<open>$+\<close> alone to be special. The characters matched against
  \<open>null\<close> stay consumed when the match fails, so the test for \<open>$+\<close> sees the character after them.\<close>

theorem lexer_null_prefix:
  assumes "w \<in> {''n'', ''nu'', ''nul''}"
  shows "\<exists>tok lx'. slp_lexer_scan_token (slp_lexer_init (CHR ''$'' # w @ CHR ''+'' # rest)) = Some (tok, lx') \<and>
    tok_type tok = Tok TOKEN_SCALAR \<and> slp_lexer_copy_lexeme lx' tok = CHR ''$'' # w @ ''+''"
proof -
  let ?s = "CHR ''$'' # w @ CHR ''+'' # rest"
  let ?at = "\<lambda>k. (slp_lexer_init ?s)\<lparr>lx_current := k\<rparr>"
  have start: "slp_lexer_scan_token (slp_lexer_init ?s) = scan_dollar (?at 1)"
    using scan_token_start [of ?s "CHR ''$''" "w @ CHR ''+'' # rest"]
    by (simp add: is_alpha_def is_digit_def Let_def scan_symbol_def scan_operator_def)
  have ch: "k < length w \<Longrightarrow> peek (?at (Suc k)) = Some (w ! k)" "peek (?at (Suc (length w))) = Some CHR ''+''" for k
    by (simp_all add: peek_def slp_lexer_init_def cread_def nth_append)
  have name: "scan_scalar_name (?at (Suc (length w))) = emit (Tok TOKEN_SCALAR) (?at (Suc (Suc (length w))))"
    using ch(2) by (simp add: scan_scalar_name_def on_peek_def then_advance_def lexer_advance_def)
  have "scan_dollar (?at (Suc 0)) = scan_scalar_name (?at (Suc (length w)))"
    using assms ch(1) [of 0] ch(1) [of 1] ch(1) [of 2] ch(2)
    by (elim insertE emptyE) (simp_all add: scan_dollar_def on_match_hit on_match_miss numeral_3_eq_3)
  then show ?thesis
    by (simp add: start name emit_def make_token_def slp_lexer_copy_lexeme_def)
       (simp add: slp_lexer_init_def segment_def)
qed

theorem lexer_null_prefix_witness:
  "\<exists>tok lx'. slp_lexer_scan_token (slp_lexer_init ''$n+1'') = Some (tok, lx') \<and>
    slp_lexer_copy_lexeme lx' tok = ''$n+''"
  using lexer_null_prefix [of "''n''" "''1''"] by auto

end
