(* ===== verification/F64.thy ===== *)
theory F64
  imports Prelude
begin

text \<open>
  The C \<open>double\<close> of the sources, as its IEEE 754 binary64 bit pattern: classification, comparison,
  truncation, conversion from an integer (round to nearest, ties to even) and the text that
  \<open>printf\<close> gives for \<open>%d\<close>, \<open>%lld\<close> and \<open>%.17g\<close>. Everything is computed on integers, so that a
  formatted number can be evaluated.
\<close>

type_synonym f64 = "64 word"

subsection \<open>Fields and classification\<close>

definition f_sign :: "f64 \<Rightarrow> bool" where
  "f_sign d \<longleftrightarrow> 2 ^ 63 \<le> unat d"

definition f_expo :: "f64 \<Rightarrow> nat" where
  "f_expo d = unat d div 2 ^ 52 mod 2048"

definition f_frac :: "f64 \<Rightarrow> nat" where
  "f_frac d = unat d mod 2 ^ 52"

definition f_is_nan :: "f64 \<Rightarrow> bool" where
  "f_is_nan d \<longleftrightarrow> f_expo d = 2047 \<and> f_frac d \<noteq> 0"

definition f_is_inf :: "f64 \<Rightarrow> bool" where
  "f_is_inf d \<longleftrightarrow> f_expo d = 2047 \<and> f_frac d = 0"

definition f_is_zero :: "f64 \<Rightarrow> bool" where
  "f_is_zero d \<longleftrightarrow> f_expo d = 0 \<and> f_frac d = 0"

text \<open>A finite double has the magnitude \<open>f_signif d * 2 ^ f_scale d\<close>.\<close>

definition f_signif :: "f64 \<Rightarrow> nat" where
  "f_signif d = (if f_expo d = 0 then f_frac d else f_frac d + 2 ^ 52)"

definition f_scale :: "f64 \<Rightarrow> int" where
  "f_scale d = (if f_expo d = 0 then - 1074 else int (f_expo d) - 1075)"

subsection \<open>Comparison\<close>

text \<open>
  The order of the non-NaN doubles is the order of their signed magnitudes, with both zeros at 0.
\<close>

definition f_key :: "f64 \<Rightarrow> int" where
  "f_key d = (let m = int (unat d mod 2 ^ 63) in if f_sign d then - m else m)"

definition f_eq :: "f64 \<Rightarrow> f64 \<Rightarrow> bool" where
  "f_eq a b \<longleftrightarrow> \<not> f_is_nan a \<and> \<not> f_is_nan b \<and> f_key a = f_key b"

definition f_le :: "f64 \<Rightarrow> f64 \<Rightarrow> bool" where
  "f_le a b \<longleftrightarrow> \<not> f_is_nan a \<and> \<not> f_is_nan b \<and> f_key a \<le> f_key b"

subsection \<open>Integers\<close>

fun nat_bits :: "nat \<Rightarrow> nat" where
  "nat_bits n = (if n = 0 then 0 else Suc (nat_bits (n div 2)))"

declare nat_bits.simps [simp del]

text \<open>The conversion of an integer of at most 1023 bits; the mantissa is rounded to 53 bits.\<close>

definition round_half_even :: "nat \<Rightarrow> nat \<Rightarrow> nat" where
  "round_half_even n d =
     (let q = n div d; r = n mod d in if d < 2 * r \<or> (2 * r = d \<and> odd q) then Suc q else q)"

definition f_of_nat_bits :: "nat \<Rightarrow> nat" where
  "f_of_nat_bits m =
     (if m = 0 then 0
      else let l = nat_bits m;
               q = (if l \<le> 53 then m * 2 ^ (53 - l) else round_half_even m (2 ^ (l - 53)))
           in (l + 1021) * 2 ^ 52 + q)"

definition f_of_int :: "int \<Rightarrow> f64" where
  "f_of_int n = word_of_nat (f_of_nat_bits (nat \<bar>n\<bar>) + (if n < 0 then 2 ^ 63 else 0))"

text \<open>Truncation towards zero, for a finite double.\<close>

definition f_trunc :: "f64 \<Rightarrow> int" where
  "f_trunc d =
     (let m = (if 0 \<le> f_scale d then f_signif d * 2 ^ nat (f_scale d)
               else f_signif d div 2 ^ nat (- f_scale d))
      in if f_sign d then - int m else int m)"

subsection \<open>Decimal text\<close>

definition digit_char :: "nat \<Rightarrow> char" where
  "digit_char n = ''0123456789'' ! (n mod 10)"

fun dec_nat :: "nat \<Rightarrow> string" where
  "dec_nat n = (if n < 10 then [digit_char n] else dec_nat (n div 10) @ [digit_char n])"

declare dec_nat.simps [simp del]

definition dec_int :: "int \<Rightarrow> string" where
  "dec_int n = (if n < 0 then CHR ''-'' # dec_nat (nat (- n)) else dec_nat (nat n))"

text \<open>The decimal exponent of the positive fraction \<open>n / d\<close>: the \<open>x\<close> with \<open>10 ^ x \<le> n / d < 10 ^ (x + 1)\<close>.\<close>

function up_scale :: "nat \<Rightarrow> nat \<Rightarrow> nat" where
  "up_scale n d = (if n = 0 \<or> d \<le> n then 0 else Suc (up_scale (10 * n) d))"
  by pat_completeness auto
termination
  by (relation "measure (\<lambda>(n, d). d - n)") auto

declare up_scale.simps [simp del]

definition log10_floor :: "nat \<Rightarrow> nat \<Rightarrow> int" where
  "log10_floor n d = (if d \<le> n then int (length (dec_nat (n div d))) - 1 else - int (up_scale n d))"

definition strip_zeros :: "string \<Rightarrow> string" where
  "strip_zeros s = rev (dropWhile (\<lambda>c. c = CHR ''0'') (rev s))"

definition with_fraction :: "string \<Rightarrow> string \<Rightarrow> string" where
  "with_fraction whole digits =
     (let f = strip_zeros digits in if f = [] then whole else whole @ CHR ''.'' # f)"

definition exponent_text :: "int \<Rightarrow> string" where
  "exponent_text x =
     (let e = dec_nat (nat \<bar>x\<bar>)
      in CHR ''e'' # (if x < 0 then CHR ''-'' else CHR ''+'') # (if length e < 2 then CHR ''0'' # e else e))"

definition g17_digits :: "nat \<Rightarrow> nat \<Rightarrow> nat \<times> int" where
  "g17_digits n d =
     (let x = log10_floor n d;
          q = (if 16 \<le> x then round_half_even n (d * 10 ^ nat (x - 16))
               else round_half_even (n * 10 ^ nat (16 - x)) d)
      in if q = 10 ^ 17 then (10 ^ 16, x + 1) else (q, x))"

definition g17_positive :: "nat \<Rightarrow> nat \<Rightarrow> string" where
  "g17_positive n d =
     (let (q, x) = g17_digits n d; s = dec_nat q
      in if x < - 4 \<or> 17 \<le> x then with_fraction (take 1 s) (drop 1 s) @ exponent_text x
         else if x < 0 then with_fraction ''0'' (replicate (nat (- x) - 1) CHR ''0'' @ s)
         else with_fraction (take (nat x + 1) s) (drop (nat x + 1) s))"

definition fmt_g17 :: "f64 \<Rightarrow> string" where
  "fmt_g17 d =
     (if f_sign d then ''-'' else '''') @
     (if f_is_nan d then ''nan''
      else if f_is_inf d then ''inf''
      else if f_is_zero d then ''0''
      else if 0 \<le> f_scale d then g17_positive (f_signif d * 2 ^ nat (f_scale d)) 1
      else g17_positive (f_signif d) (2 ^ nat (- f_scale d)))"

subsection \<open>Facts about integers as doubles\<close>

lemma nat_bits_bounds: "0 < m \<Longrightarrow> 2 ^ (nat_bits m - 1) \<le> m \<and> m < 2 ^ nat_bits m \<and> 0 < nat_bits m"
proof (induction m rule: nat_bits.induct)
  case (1 n)
  show ?case
  proof (cases "n div 2 = 0")
    case True
    with 1(2) have "n = 1" by (cases n) auto
    then show ?thesis by (simp add: nat_bits.simps [of "Suc 0"] nat_bits.simps [of 0])
  next
    case False
    let ?l = "nat_bits (n div 2)"
    from False have h: "2 ^ (?l - 1) \<le> n div 2" "n div 2 < 2 ^ ?l" "0 < ?l" using 1(1) 1(2) by simp_all
    from h(3) obtain k where k: "?l = Suc k" by (cases ?l) auto
    have "nat_bits n = Suc ?l" using 1(2) by (subst nat_bits.simps) simp
    moreover have "2 ^ ?l \<le> n" using h(1) by (simp add: k)
    moreover have "n < 2 ^ Suc ?l" using h(2) by simp
    ultimately show ?thesis by simp
  qed
qed

lemma nat_bits_le: "m < 2 ^ k \<Longrightarrow> nat_bits m \<le> k"
proof (cases "m = 0")
  case True
  then show ?thesis by (subst nat_bits.simps) simp
next
  case False
  assume m: "m < 2 ^ k"
  from False have "2 ^ (nat_bits m - 1) \<le> m" "0 < nat_bits m" using nat_bits_bounds [of m] by auto
  with m have "2 ^ (nat_bits m - 1) < (2::nat) ^ k" by linarith
  then have "nat_bits m - 1 < k" by (simp add: power_strict_increasing_iff)
  with \<open>0 < nat_bits m\<close> show ?thesis by simp
qed

text \<open>The bit pattern of an integer below \<open>2 ^ 53\<close>.\<close>

lemma f_of_nat_bits_split:
  assumes "0 < m" "m < 2 ^ 53"
  shows "f_of_nat_bits m = (nat_bits m + 1022) * 2 ^ 52 + (m * 2 ^ (53 - nat_bits m) - 2 ^ 52)"
    and "2 ^ 52 \<le> m * 2 ^ (53 - nat_bits m)" and "m * 2 ^ (53 - nat_bits m) < 2 ^ 53"
    and "nat_bits m \<le> 53" and "0 < nat_bits m"
proof -
  let ?l = "nat_bits m"
  show l: "?l \<le> 53" using nat_bits_le [OF assms(2)] .
  have b: "2 ^ (?l - 1) \<le> m" "m < 2 ^ ?l" "0 < ?l" using nat_bits_bounds [OF assms(1)] by auto
  then show "0 < ?l" by simp
  have "2 ^ (?l - 1) * 2 ^ (53 - ?l) = (2::nat) ^ 52" using l b(3) by (simp add: power_add [symmetric])
  with b(1) show lo: "2 ^ 52 \<le> m * 2 ^ (53 - ?l)" by (metis mult_le_mono1)
  have "2 ^ ?l * 2 ^ (53 - ?l) = (2::nat) ^ 53" using l by (simp add: power_add [symmetric])
  with b(2) show hi: "m * 2 ^ (53 - ?l) < 2 ^ 53" by (metis mult_less_cancel2 zero_less_power zero_less_numeral)
  show "f_of_nat_bits m = (?l + 1022) * 2 ^ 52 + (m * 2 ^ (53 - ?l) - 2 ^ 52)"
    using assms(1) l lo by (simp add: f_of_nat_bits_def Let_def algebra_simps)
qed

lemma unat_of_nat_64: "n < 2 ^ 64 \<Longrightarrow> unat (word_of_nat n :: 64 word) = n"
  by (simp add: unsigned_of_nat take_bit_eq_mod)

lemma f_of_int_nonneg_unat:
  assumes "\<bar>n\<bar> < 2 ^ 53"
  shows "unat (f_of_int n) = f_of_nat_bits (nat \<bar>n\<bar>) + (if n < 0 then 2 ^ 63 else 0)"
    and "f_of_nat_bits (nat \<bar>n\<bar>) < 2 ^ 63"
proof -
  show lt: "f_of_nat_bits (nat \<bar>n\<bar>) < 2 ^ 63"
  proof (cases "n = 0")
    case True
    then show ?thesis by (simp add: f_of_nat_bits_def)
  next
    case False
    let ?m = "nat \<bar>n\<bar>"
    have m: "0 < ?m" "?m < 2 ^ 53" using False assms by (auto simp: nat_less_iff)
    note s = f_of_nat_bits_split [OF m]
    have "(nat_bits ?m + 1022) * 2 ^ 52 \<le> 1075 * 2 ^ 52" using s(4) by (intro mult_le_mono1) simp
    moreover define q where "q = ?m * 2 ^ (53 - nat_bits ?m) - 2 ^ 52"
    then have "q < 2 ^ 53" using s(3) by (rule_tac le_less_trans [OF _ s(3)]) simp
    moreover have "f_of_nat_bits ?m = (nat_bits ?m + 1022) * 2 ^ 52 + q" using s(1) by (simp add: q_def)
    ultimately show ?thesis by simp
  qed
  then show "unat (f_of_int n) = f_of_nat_bits (nat \<bar>n\<bar>) + (if n < 0 then 2 ^ 63 else 0)"
    unfolding f_of_int_def by (subst unat_of_nat_64) auto
qed

text \<open>Every integer below \<open>2 ^ 53\<close> in magnitude is converted exactly.\<close>

lemma f_of_int_fields:
  assumes "n \<noteq> 0" "\<bar>n\<bar> < 2 ^ 53"
  defines "l \<equiv> nat_bits (nat \<bar>n\<bar>)"
  shows "f_expo (f_of_int n) = l + 1022"
    and "f_frac (f_of_int n) = nat \<bar>n\<bar> * 2 ^ (53 - l) - 2 ^ 52"
    and "f_sign (f_of_int n) \<longleftrightarrow> n < 0"
    and "l \<le> 53" and "0 < l" and "2 ^ 52 \<le> nat \<bar>n\<bar> * 2 ^ (53 - l)"
proof -
  let ?m = "nat \<bar>n\<bar>"
  have m: "0 < ?m" "?m < 2 ^ 53" using assms(1,2) by (auto simp: nat_less_iff)
  note s = f_of_nat_bits_split [OF m, folded l_def]
  note u = f_of_int_nonneg_unat [OF assms(2)]
  define r where "r = ?m * 2 ^ (53 - l) - 2 ^ 52"
  have r: "r < 2 ^ 52" unfolding r_def by (rule iffD2 [OF less_diff_conv2 [OF s(2)]]) (use s(3) in simp)
  have b: "f_of_nat_bits ?m = (l + 1022) * 2 ^ 52 + r" using s(1) by (simp add: r_def)
  define k :: nat where "k = (if n < 0 then l + 1022 + 2048 else l + 1022)"
  have uk: "unat (f_of_int n) = r + k * 2 ^ 52"
    using u(1) b by (simp add: k_def algebra_simps)
  then have "unat (f_of_int n) div 2 ^ 52 = k" "unat (f_of_int n) mod 2 ^ 52 = r"
    using r by simp_all
  moreover have "k mod 2048 = l + 1022"
  proof -
    have "(l + 1022 + 2048) mod 2048 = (l + 1022) mod 2048" by (rule mod_add_self2)
    moreover have "(l + 1022) mod 2048 = l + 1022" using s(4) by simp
    ultimately show ?thesis unfolding k_def by (cases "n < 0") (simp_all only: if_True if_False)
  qed
  ultimately show "f_expo (f_of_int n) = l + 1022" "f_frac (f_of_int n) = ?m * 2 ^ (53 - l) - 2 ^ 52"
    by (simp_all add: f_expo_def f_frac_def r_def)
  show "f_sign (f_of_int n) \<longleftrightarrow> n < 0" using u by (cases "n < 0") (simp_all add: f_sign_def not_le)
  show "l \<le> 53" "0 < l" "2 ^ 52 \<le> ?m * 2 ^ (53 - l)" using s by simp_all
qed

lemma f_of_int_0: "f_of_int 0 = 0"
  by (simp add: f_of_int_def f_of_nat_bits_def)

lemma f_of_int_not_nan: "\<bar>n\<bar> < 2 ^ 53 \<Longrightarrow> \<not> f_is_nan (f_of_int n)"
proof (cases "n = 0")
  case True
  then show ?thesis by (simp add: f_of_int_0 f_is_nan_def f_expo_def)
next
  case False
  assume "\<bar>n\<bar> < 2 ^ 53"
  from f_of_int_fields(1,4) [OF False this] show ?thesis by (simp add: f_is_nan_def)
qed

lemma f_trunc_of_int: "\<bar>n\<bar> < 2 ^ 53 \<Longrightarrow> f_trunc (f_of_int n) = n"
proof (cases "n = 0")
  case True
  then show ?thesis by (simp add: f_of_int_0 f_trunc_def f_signif_def f_scale_def f_expo_def f_frac_def)
next
  case False
  assume n: "\<bar>n\<bar> < 2 ^ 53"
  note f = f_of_int_fields [OF False n]
  let ?l = "nat_bits (nat \<bar>n\<bar>)"
  have sig: "f_signif (f_of_int n) = nat \<bar>n\<bar> * 2 ^ (53 - ?l)" using f by (simp add: f_signif_def)
  have sc: "f_scale (f_of_int n) = int ?l - 53" using f by (simp add: f_scale_def)
  show ?thesis
  proof (cases "?l = 53")
    case True
    then show ?thesis using f(3) sig sc by (simp add: f_trunc_def Let_def)
  next
    case neq: False
    then have "\<not> 0 \<le> f_scale (f_of_int n)" "nat (- f_scale (f_of_int n)) = 53 - ?l"
      using f(4) sc by (simp_all add: nat_diff_distrib')
    then show ?thesis using f(3) sig by (simp add: f_trunc_def Let_def)
  qed
qed

text \<open>On these integers the order of the doubles is the order of the integers.\<close>

lemma f_of_nat_bits_mono:
  assumes "m < n" "n < 2 ^ 53" shows "f_of_nat_bits m < f_of_nat_bits n"
proof -
  have n: "0 < n" "n < 2 ^ 53" using assms by simp_all
  note sn = f_of_nat_bits_split [OF n]
  show ?thesis
  proof (cases "m = 0")
    case True
    have "0 < (nat_bits n + 1022) * 2 ^ 52" by simp
    then show ?thesis using sn(1) True by (simp add: f_of_nat_bits_def)
  next
    case False
    then have m: "0 < m" "m < 2 ^ 53" using assms by simp_all
    note sm = f_of_nat_bits_split [OF m]
    have "m < 2 ^ nat_bits n" using assms(1) nat_bits_bounds [OF n(1)] by linarith
    then have "nat_bits m \<le> nat_bits n" by (rule nat_bits_le)
    then consider "nat_bits m = nat_bits n" | "nat_bits m < nat_bits n" by linarith
    then show ?thesis
    proof cases
      case 1
      then have "m * 2 ^ (53 - nat_bits m) < n * 2 ^ (53 - nat_bits n)" using assms(1) by simp
      then have "m * 2 ^ (53 - nat_bits m) - 2 ^ 52 < n * 2 ^ (53 - nat_bits n) - 2 ^ 52"
        using sm(2) by (rule diff_less_mono)
      then show ?thesis by (simp only: sm(1) sn(1) 1 add_less_cancel_left)
    next
      case 2
      define q where "q = m * 2 ^ (53 - nat_bits m) - 2 ^ 52"
      have "q < 2 ^ 52" unfolding q_def using sm(3) by (subst less_diff_conv2 [OF sm(2)]) simp
      then have "(nat_bits m + 1022) * 2 ^ 52 + q < Suc (nat_bits m + 1022) * 2 ^ 52" by simp
      also have "... \<le> (nat_bits n + 1022) * 2 ^ 52" using 2 by (intro mult_le_mono1) simp
      finally show ?thesis using sm(1) sn(1) by (simp add: q_def)
    qed
  qed
qed

lemma f_key_of_int:
  assumes "\<bar>n\<bar> < 2 ^ 53"
  shows "f_key (f_of_int n) = (if n < 0 then - int (f_of_nat_bits (nat (- n))) else int (f_of_nat_bits (nat n)))"
proof -
  note u = f_of_int_nonneg_unat [OF assms]
  have "(f_of_nat_bits (nat \<bar>n\<bar>) + 2 ^ 63) mod 2 ^ 63 = f_of_nat_bits (nat \<bar>n\<bar>)"
    using u(2) by (simp only: mod_add_self2 mod_less)
  then show ?thesis using u by (cases "n < 0") (simp_all add: f_key_def f_sign_def Let_def)
qed

lemma f_key_mono: "m < n \<Longrightarrow> \<bar>m\<bar> < 2 ^ 53 \<Longrightarrow> \<bar>n\<bar> < 2 ^ 53 \<Longrightarrow> f_key (f_of_int m) < f_key (f_of_int n)"
proof -
  assume mn: "m < n" "\<bar>m\<bar> < 2 ^ 53" "\<bar>n\<bar> < 2 ^ 53"
  have nn: "nat k < 2 ^ 53" if "\<bar>k\<bar> < 2 ^ 53" for k :: int using that by (simp add: nat_less_iff)
  consider "0 \<le> m" | "m < 0" "0 \<le> n" | "n < 0" using mn(1) by linarith
  then show ?thesis
  proof cases
    case 1
    then have "f_of_nat_bits (nat m) < f_of_nat_bits (nat n)"
      using mn nn by (intro f_of_nat_bits_mono) auto
    then show ?thesis using 1 mn by (simp add: f_key_of_int)
  next
    case 2
    have "f_of_nat_bits 0 < f_of_nat_bits (nat (- m))" using 2 mn nn [of "- m"] by (intro f_of_nat_bits_mono) auto
    then show ?thesis using 2 mn by (simp add: f_key_of_int)
  next
    case 3
    have "f_of_nat_bits (nat (- n)) < f_of_nat_bits (nat (- m))"
      using 3 mn nn [of "- m"] by (intro f_of_nat_bits_mono) auto
    then show ?thesis using 3 mn by (simp add: f_key_of_int)
  qed
qed

lemma f_le_of_int: "\<bar>m\<bar> < 2 ^ 53 \<Longrightarrow> \<bar>n\<bar> < 2 ^ 53 \<Longrightarrow> f_le (f_of_int m) (f_of_int n) \<longleftrightarrow> m \<le> n"
  using f_key_mono [of m n] f_key_mono [of n m]
  by (cases m n rule: linorder_cases) (simp_all add: f_le_def f_of_int_not_nan)

lemma f_eq_of_int: "\<bar>m\<bar> < 2 ^ 53 \<Longrightarrow> \<bar>n\<bar> < 2 ^ 53 \<Longrightarrow> f_eq (f_of_int m) (f_of_int n) \<longleftrightarrow> m = n"
  using f_key_mono [of m n] f_key_mono [of n m]
  by (cases m n rule: linorder_cases) (simp_all add: f_eq_def f_of_int_not_nan)

subsection \<open>Decimal text is injective\<close>

lemma digit_char_inj: "digit_char m = digit_char n \<longleftrightarrow> m mod 10 = n mod 10"
proof -
  have "inj_on (\<lambda>k. ''0123456789'' ! k) {..<10}"
    by (simp add: inj_on_def nth_eq_iff_index_eq lessThan_def)
  then show ?thesis unfolding digit_char_def by (auto dest: inj_onD)
qed

lemma digit_char_not_minus: "digit_char n \<noteq> CHR ''-''"
proof -
  have "digit_char n \<in> set ''0123456789''" unfolding digit_char_def by (rule nth_mem) simp
  then show ?thesis by auto
qed

lemma dec_nat_not_Nil [simp]: "dec_nat n \<noteq> []"
  by (subst dec_nat.simps) simp

lemma dec_nat_inj: "dec_nat m = dec_nat n \<Longrightarrow> m = n"
proof (induction m arbitrary: n rule: dec_nat.induct)
  case (1 m)
  note e = 1(2) dec_nat.simps [of m] dec_nat.simps [of n]
  have last: "m mod 10 = n mod 10"
    using e by (auto simp: digit_char_inj dest: arg_cong [of _ _ last] split: if_splits)
  have len: "m < 10 \<longleftrightarrow> n < 10"
    using arg_cong [OF 1(2), of length] dec_nat.simps [of m] dec_nat.simps [of n]
    by (cases "dec_nat (m div 10)"; cases "dec_nat (n div 10)") (auto split: if_splits)
  show ?case
  proof (cases "m < 10")
    case True
    with last len show ?thesis by simp
  next
    case False
    with e len have "dec_nat (m div 10) = dec_nat (n div 10)" by simp
    with 1(1) [OF False] last show ?thesis by (metis div_mult_mod_eq)
  qed
qed

lemma dec_nat_chars: "c \<in> set (dec_nat n) \<Longrightarrow> c \<noteq> CHR ''-''"
proof (induction n rule: dec_nat.induct)
  case (1 n)
  then show ?case using digit_char_not_minus [of n] dec_nat.simps [of n] by (cases "n < 10") auto
qed

lemma dec_int_inj: "dec_int m = dec_int n \<longleftrightarrow> m = n"
proof
  assume e: "dec_int m = dec_int n"
  have "hd (dec_nat k) \<noteq> CHR ''-''" for k using dec_nat_chars [of "hd (dec_nat k)" k] by simp
  then have "dec_nat k \<noteq> CHR ''-'' # xs" for k xs by (metis list.sel(1))
  with e show "m = n" by (auto simp: dec_int_def dest!: dec_nat_inj split: if_splits) (metis dec_nat_inj)+
qed simp

end
