(* ===== verification/Objects.thy ===== *)
theory Objects
  imports F64
begin

text \<open>
  The data of the runtime, from \<^verbatim>\<open>include/slp_value.h\<close>, \<^verbatim>\<open>include/slp_chunk.h\<close> and the frame and handler
  structs of \<^verbatim>\<open>include/slp_vm.h\<close>: values, heap objects and the heap. A pointer is an address or
  \<open>NULL\<close>; the heap maps the address of a live allocation to its object. The default build is modelled,
  in which a value is a tagged union, not a NaN-boxed word.

  A constructor of the C code takes the pointer its allocation returned as an argument, so a failed
  allocation is a branch of the model; the \<open>reallocate\<close> calls the code does not test are assumed to
  succeed. An intrusive list (\<open>next\<close> of the object header) is kept by its owner as a list of addresses.
\<close>

subsection \<open>Values and pointers\<close>

type_synonym addr = nat
type_synonym ptr = "addr option"

datatype slp_value = VNull | VBool bool | VNum f64 | VObj addr

abbreviation TRUE_VAL :: slp_value where "TRUE_VAL \<equiv> VBool True"
abbreviation FALSE_VAL :: slp_value where "FALSE_VAL \<equiv> VBool False"

subsection \<open>Objects\<close>

record obj_string =
  s_chars :: string
  s_hash :: u32

record obj_class =
  cl_name :: ptr
  cl_is_interface :: bool
  cl_interfaces :: ptr
  cl_fields :: ptr

datatype java_kind = JAVA_GENERIC | JAVA_LIST | JAVA_MAP | JAVA_ITERATOR | JAVA_PROXY | JAVA_ERROR
  | JAVA_PROFILE_STATISTIC | JAVA_SEMAPHORE

record obj_java =
  jo_class :: ptr
  jo_kind :: java_kind
  jo_list :: ptr
  jo_map :: ptr
  jo_fields :: ptr
  jo_value :: slp_value

text \<open>A chunk: \<open>code\<close> and \<open>lines\<close> up to \<open>count\<close>, \<open>constants\<close> up to \<open>constant_count\<close>, and the two capacities.\<close>

record chunk =
  ck_code :: bytes
  ck_lines :: "int list"
  ck_capacity :: int
  ck_constants :: "slp_value list"
  ck_constant_capacity :: int

record obj_function =
  fn_arity :: int
  fn_upvalue_count :: int
  fn_chunk :: "chunk option"
  fn_name :: ptr
  fn_source_name :: ptr
  fn_line_start :: int
  fn_line_end :: int

record regex_state =
  rs_text :: ptr
  rs_pattern :: ptr
  rs_next_offset :: int
  rs_sequence :: u64

text \<open>
  A call frame. \<open>ip\<close> is an offset into the code of the frame's function and \<open>slots\<close> an index into the
  value stack.
\<close>

record call_frame =
  cf_ip :: nat
  cf_closure :: ptr
  cf_slots :: nat
  cf_local_scopes :: ptr
  cf_closure_scope :: ptr
  cf_foreach_pending :: bool
  cf_foreach_array :: ptr
  cf_foreach_hash :: ptr
  cf_foreach_key :: slp_value
  cf_foreach_index :: int
  cf_foreach_iterator_offset :: int
  cf_foreach_active :: bool
  cf_foreach_iteration_array :: ptr
  cf_foreach_iteration_version :: u64
  cf_foreach_last_key :: slp_value
  cf_foreach_last_value :: slp_value
  cf_foreach_invalidated :: bool
  cf_continuation_return :: ptr
  cf_trace_call :: ptr
  cf_trace_source :: ptr
  cf_trace_line :: int
  cf_trace_enabled :: bool
  cf_tainted_arguments :: bool

record try_handler =
  th_catch_ip :: nat
  th_frame_count :: int
  th_stack_count :: int

record obj_closure =
  co_function :: ptr
  co_upvalues :: "ptr list"
  co_scope :: ptr
  co_is_inline :: bool
  co_call_name :: ptr
  co_identity :: u64
  co_regex_states :: "regex_state list"
  co_regex_state_capacity :: int
  co_next_regex_sequence :: u64
  co_last_regex_matches :: ptr
  co_coroutine_stack :: "slp_value list"
  co_coroutine_frames :: "call_frame list"
  co_coroutine_needs_result :: bool
  co_coroutine_try_handlers :: "try_handler list"

text \<open>An upvalue points into the stack while it is open and at its own \<open>closed\<close> field afterwards.\<close>

datatype upvalue_location = Stack_slot nat | Own_closed

record obj_upvalue =
  uv_location :: upvalue_location
  uv_closed :: slp_value
  uv_next :: ptr

text \<open>\<open>ar_elements\<close> is the allocated buffer, of length \<open>capacity\<close>; the array's elements are its first \<open>ar_count\<close>.\<close>

record obj_array =
  ar_elements :: "slp_value list"
  ar_count :: int
  ar_version :: u64
  ar_view_source :: ptr
  ar_view_offset :: int
  ar_view_source_version :: u64
  ar_view_invalid :: bool
  ar_read_only :: bool

record hash_entry =
  he_key :: slp_value
  he_value :: slp_value
  he_sequence :: u64

text \<open>\<open>ha_entries\<close> is the allocated table, of length \<open>capacity\<close>.\<close>

record obj_hash =
  ha_entries :: "hash_entry list"
  ha_count :: int
  ha_next_sequence :: u64
  ha_order_mode :: byte
  ha_miss_policy :: ptr
  ha_removal_policy :: ptr

record obj_continuation =
  cn_frames :: "call_frame list"
  cn_stack :: "slp_value list"
  cn_saved_ip :: "nat option"
  cn_coroutine_owner :: ptr
  cn_try_handlers :: "try_handler list"
  cn_resume_frame_index :: int
  cn_return_trace_call :: ptr
  cn_return_trace_source :: ptr
  cn_return_trace_line :: int
  cn_return_trace_enabled :: bool

text \<open>A native function is named by a number, its C function pointer.\<close>

record obj_native =
  na_fn :: nat
  na_name :: ptr
  na_preserve_references :: bool

record obj_bridge =
  br_keyword :: ptr
  br_name :: ptr
  br_closure :: ptr

record obj_io_handle =
  io_file :: "nat option"
  io_socket_fd :: int
  io_pid :: int
  io_is_socket :: bool
  io_is_pipeline :: bool
  io_is_eof :: bool
  io_is_memory :: bool
  io_is_console :: bool
  io_memory_readable :: bool
  io_memory_text_buffered :: bool
  io_text_encoding :: byte
  io_token :: slp_value
  io_token_ready :: bool
  io_memory_mark :: int
  io_object_values :: "slp_value list"
  io_object_capacity :: int
  io_object_read_index :: int

record obj_key_value =
  kv_key :: slp_value
  kv_value :: slp_value

record obj_scalar_cell =
  sc_value :: slp_value
  sc_watch_name :: ptr

datatype obj =
    OString obj_string
  | OClass obj_class
  | OJava obj_java
  | OLong "64 word"
  | ODouble f64
  | OArray obj_array
  | OHash obj_hash
  | OFunction obj_function
  | OClosure obj_closure
  | OUpvalue obj_upvalue
  | OContinuation obj_continuation
  | ONative obj_native
  | OBridge obj_bridge
  | OIOHandle obj_io_handle
  | OKeyValue obj_key_value
  | OTainted slp_value
  | OScalarCell obj_scalar_cell

type_synonym heap = "addr \<rightharpoonup> obj"

text \<open>Reading an object at a type the C code has tested; the read is undefined at a dead address.\<close>

definition get_array :: "heap \<Rightarrow> addr \<Rightarrow> obj_array option" where
  "get_array h a = (case h a of Some (OArray r) \<Rightarrow> Some r | _ \<Rightarrow> None)"

definition get_hash :: "heap \<Rightarrow> addr \<Rightarrow> obj_hash option" where
  "get_hash h a = (case h a of Some (OHash r) \<Rightarrow> Some r | _ \<Rightarrow> None)"

definition get_string :: "heap \<Rightarrow> addr \<Rightarrow> obj_string option" where
  "get_string h a = (case h a of Some (OString r) \<Rightarrow> Some r | _ \<Rightarrow> None)"

definition get_function :: "heap \<Rightarrow> addr \<Rightarrow> obj_function option" where
  "get_function h a = (case h a of Some (OFunction r) \<Rightarrow> Some r | _ \<Rightarrow> None)"

lemma get_array_Some: "get_array h a = Some r \<longleftrightarrow> h a = Some (OArray r)"
  by (auto simp: get_array_def split: option.splits obj.splits)

lemma get_hash_Some: "get_hash h a = Some r \<longleftrightarrow> h a = Some (OHash r)"
  by (auto simp: get_hash_def split: option.splits obj.splits)

lemma get_string_Some: "get_string h a = Some r \<longleftrightarrow> h a = Some (OString r)"
  by (auto simp: get_string_def split: option.splits obj.splits)

lemma get_function_Some: "get_function h a = Some r \<longleftrightarrow> h a = Some (OFunction r)"
  by (auto simp: get_function_def split: option.splits obj.splits)

subsection \<open>Fresh objects\<close>

text \<open>\<open>place p r h\<close> stores the object at the pointer the allocation returned; \<open>NULL\<close> is returned as it is.\<close>

definition place :: "ptr \<Rightarrow> obj \<Rightarrow> heap \<Rightarrow> ptr \<times> heap" where
  "place p ob h = (case p of None \<Rightarrow> (None, h) | Some a \<Rightarrow> (Some a, h(a \<mapsto> ob)))"

end
