(* ===== verification/Values.thy ===== *)
theory Values
  imports Objects
begin

text \<open>
  The operations of \<^verbatim>\<open>src/slp_value.c\<close> on values: taint and scalar-cell wrappers, truth, the two
  equalities, the text and the hash of a hash key, and the object constructors.
\<close>

subsection \<open>Wrappers\<close>

text \<open>Each loop follows a chain of wrapper objects; a cyclic chain has no result, a dead object neither.\<close>

partial_function (option) slp_value_unwrap_taint :: "heap \<Rightarrow> slp_value \<Rightarrow> slp_value option" where
  [code]: "slp_value_unwrap_taint h v =
     (case v of
        VObj a \<Rightarrow> (case h a of
                     None \<Rightarrow> None
                   | Some ob \<Rightarrow> (case ob of OTainted w \<Rightarrow> slp_value_unwrap_taint h w | _ \<Rightarrow> Some v))
      | _ \<Rightarrow> Some v)"

partial_function (option) skip_cells :: "heap \<Rightarrow> slp_value \<Rightarrow> slp_value option" where
  [code]: "skip_cells h v =
     (case v of
        VObj a \<Rightarrow> (case h a of
                     None \<Rightarrow> None
                   | Some ob \<Rightarrow> (case ob of OScalarCell c \<Rightarrow> skip_cells h (sc_value c) | _ \<Rightarrow> Some v))
      | _ \<Rightarrow> Some v)"

partial_function (option) skip_wrappers :: "heap \<Rightarrow> slp_value \<Rightarrow> slp_value option" where
  [code]: "skip_wrappers h v =
     (case v of
        VObj a \<Rightarrow> (case h a of
                     None \<Rightarrow> None
                   | Some ob \<Rightarrow> (case ob of OScalarCell c \<Rightarrow> skip_wrappers h (sc_value c)
                                         | OTainted w \<Rightarrow> skip_wrappers h w
                                         | _ \<Rightarrow> Some v))
      | _ \<Rightarrow> Some v)"

definition slp_value_is_tainted :: "heap \<Rightarrow> slp_value \<Rightarrow> bool option" where
  "slp_value_is_tainted h v =
     do { v \<leftarrow> skip_cells h v;
          (case v of
             VObj a \<Rightarrow> (case h a of
                          None \<Rightarrow> None
                        | Some ob \<Rightarrow> Some (case ob of OTainted _ \<Rightarrow> True | _ \<Rightarrow> False))
           | _ \<Rightarrow> Some False) }"

definition slp_value_is_falsy :: "heap \<Rightarrow> slp_value \<Rightarrow> bool option" where
  "slp_value_is_falsy h v =
     do { v \<leftarrow> skip_wrappers h v;
          (case v of
             VNull \<Rightarrow> Some True
           | VBool b \<Rightarrow> Some (\<not> b)
           | VNum d \<Rightarrow> Some (f_is_zero d)
           | VObj a \<Rightarrow> (case h a of
                          None \<Rightarrow> None
                        | Some ob \<Rightarrow> Some (case ob of OLong w \<Rightarrow> w = 0 | ODouble d \<Rightarrow> f_is_zero d | _ \<Rightarrow> False))) }"

subsection \<open>Equality\<close>

definition is_numeric_value :: "heap \<Rightarrow> slp_value \<Rightarrow> bool option" where
  "is_numeric_value h v =
     do { v \<leftarrow> slp_value_unwrap_taint h v;
          (case v of
             VNum _ \<Rightarrow> Some True
           | VObj a \<Rightarrow> (case h a of
                          None \<Rightarrow> None
                        | Some ob \<Rightarrow> Some (case ob of OLong _ \<Rightarrow> True | ODouble _ \<Rightarrow> True | _ \<Rightarrow> False))
           | _ \<Rightarrow> Some False) }"

definition numeric_double_value :: "heap \<Rightarrow> slp_value \<Rightarrow> f64 option" where
  "numeric_double_value h v =
     do { v \<leftarrow> slp_value_unwrap_taint h v;
          (case v of
             VNum d \<Rightarrow> Some d
           | VObj a \<Rightarrow> (case h a of
                          None \<Rightarrow> None
                        | Some ob \<Rightarrow> (case ob of OLong w \<Rightarrow> Some (f_of_int (sint w)) | ODouble d \<Rightarrow> Some d | _ \<Rightarrow> None))
           | _ \<Rightarrow> None) }"

text \<open>The comparison of equal tags, after the numeric case.\<close>

definition same_value :: "slp_value \<Rightarrow> slp_value \<Rightarrow> bool" where
  "same_value a b =
     (case (a, b) of
        (VNull, VNull) \<Rightarrow> True
      | (VBool x, VBool y) \<Rightarrow> x = y
      | (VNum x, VNum y) \<Rightarrow> f_eq x y
      | (VObj x, VObj y) \<Rightarrow> x = y
      | _ \<Rightarrow> False)"

definition slp_value_equals :: "heap \<Rightarrow> slp_value \<Rightarrow> slp_value \<Rightarrow> bool option" where
  "slp_value_equals h a b =
     do { a \<leftarrow> slp_value_unwrap_taint h a;
          b \<leftarrow> slp_value_unwrap_taint h b;
          na \<leftarrow> is_numeric_value h a;
          nb \<leftarrow> (if na then is_numeric_value h b else Some False);
          if nb then do { x \<leftarrow> numeric_double_value h a; y \<leftarrow> numeric_double_value h b; Some (f_eq x y) }
          else Some (same_value a b) }"

definition identity_objects :: "heap \<Rightarrow> addr \<Rightarrow> addr \<Rightarrow> bool option" where
  "identity_objects h a b =
     do { x \<leftarrow> h a; y \<leftarrow> h b;
          Some (case (x, y) of
                  (OLong v, OLong w) \<Rightarrow> v = w
                | (ODouble v, ODouble w) \<Rightarrow> f_eq v w
                | (OString s, OString t) \<Rightarrow> s_chars s = s_chars t
                | _ \<Rightarrow> a = b) }"

definition slp_value_identity_equals :: "heap \<Rightarrow> slp_value \<Rightarrow> slp_value \<Rightarrow> bool option" where
  "slp_value_identity_equals h a b =
     do { a \<leftarrow> skip_cells h a;
          b \<leftarrow> skip_cells h b;
          a \<leftarrow> slp_value_unwrap_taint h a;
          b \<leftarrow> slp_value_unwrap_taint h b;
          (case (a, b) of
             (VNum x, VNum y) \<Rightarrow> Some (f_eq x y)
           | (VNum _, _) \<Rightarrow> Some False
           | (_, VNum _) \<Rightarrow> Some False
           | (VObj x, VObj y) \<Rightarrow> identity_objects h x y
           | (VObj _, _) \<Rightarrow> Some False
           | (_, VObj _) \<Rightarrow> Some False
           | _ \<Rightarrow> slp_value_equals h a b) }"

subsection \<open>Hash keys\<close>

definition slp_hash_string :: "string \<Rightarrow> u32" where
  "slp_hash_string key =
     (let hash = fold (\<lambda>c acc. acc * 31 + of_char c) key 0;
          hash = xor hash (xor (drop_bit 20 hash) (drop_bit 12 hash))
      in xor (xor hash (drop_bit 7 hash)) (drop_bit 4 hash))"

text \<open>The text of a number: \<open>%d\<close> when the double is an \<open>int32_t\<close>, \<open>%.17g\<close> otherwise.\<close>

definition number_text :: "f64 \<Rightarrow> string" where
  "number_text d =
     (if f_le (f_of_int INT32_MIN) d \<and> f_le d (f_of_int INT32_MAX) \<and> f_eq d (f_of_int (f_trunc d))
      then dec_int (f_trunc d) else fmt_g17 d)"

text \<open>
  The text of a boxed double gets a \<open>.0\<close> when it has neither a point nor an exponent. The buffer has
  \<open>buffer_size\<close> bytes.
\<close>

definition double_text :: "nat \<Rightarrow> f64 \<Rightarrow> string" where
  "double_text buffer_size d =
     (let s = fmt_g17 d
      in if s \<noteq> [] \<and> length s + 2 < buffer_size \<and> CHR ''.'' \<notin> set s \<and> CHR ''e'' \<notin> set s \<and> CHR ''E'' \<notin> set s
         then s @ ''.0'' else s)"

text \<open>
  The outer \<open>None\<close> is an undefined execution, the inner one the result \<open>false\<close>: the value has no text or
  its text does not fit the buffer.
\<close>

definition in_buffer :: "nat \<Rightarrow> string \<Rightarrow> string option" where
  "in_buffer buffer_size s = (if length s < buffer_size then Some s else None)"

definition hash_key_repr :: "nat \<Rightarrow> heap \<Rightarrow> slp_value \<Rightarrow> string option option" where
  "hash_key_repr buffer_size h v =
     do { v \<leftarrow> skip_cells h v;
          v \<leftarrow> slp_value_unwrap_taint h v;
          (case v of
             VNum d \<Rightarrow> Some (in_buffer buffer_size (number_text d))
           | VBool b \<Rightarrow> Some (in_buffer buffer_size (if b then ''1'' else ''''))
           | VNull \<Rightarrow> Some (in_buffer buffer_size '''')
           | VObj a \<Rightarrow> (case h a of
                          None \<Rightarrow> None
                        | Some ob \<Rightarrow> Some (case ob of
                                            OString s \<Rightarrow> Some (s_chars s)
                                          | OLong w \<Rightarrow> in_buffer buffer_size (dec_int (sint w))
                                          | ODouble d \<Rightarrow> in_buffer buffer_size (double_text buffer_size d)
                                          | _ \<Rightarrow> None))) }"

definition hash_key_equals :: "heap \<Rightarrow> slp_value \<Rightarrow> slp_value \<Rightarrow> bool option" where
  "hash_key_equals h left right =
     do { l \<leftarrow> hash_key_repr 64 h left;
          r \<leftarrow> (case l of None \<Rightarrow> Some None | Some _ \<Rightarrow> hash_key_repr 64 h right);
          (case (l, r) of
             (Some s, Some t) \<Rightarrow> Some (s = t)
           | _ \<Rightarrow> slp_value_equals h left right) }"

definition slp_hash_value :: "heap \<Rightarrow> slp_value \<Rightarrow> u32 option" where
  "slp_hash_value h v =
     do { r \<leftarrow> hash_key_repr 64 h v;
          Some (case r of
                  Some s \<Rightarrow> slp_hash_string s
                | None \<Rightarrow> (case v of VObj a \<Rightarrow> word_of_nat a | VNull \<Rightarrow> 0 | VBool _ \<Rightarrow> 1 | VNum _ \<Rightarrow> 2)) }"

text \<open>The walk of the object list for an interned string.\<close>

fun slp_find_interned_string :: "heap \<Rightarrow> addr list \<Rightarrow> string \<Rightarrow> u32 \<Rightarrow> ptr option" where
  "slp_find_interned_string h [] chars hash = Some None"
| "slp_find_interned_string h (a # objects) chars hash =
     (case h a of
        None \<Rightarrow> None
      | Some (OString s) \<Rightarrow> if s_hash s = hash \<and> s_chars s = chars then Some (Some a)
                           else slp_find_interned_string h objects chars hash
      | Some _ \<Rightarrow> slp_find_interned_string h objects chars hash)"

subsection \<open>Constructors\<close>

text \<open>
  Each constructor takes the pointer \<open>p\<close> its allocation returned and initialises every field of the
  object it points to. \<open>slp_obj_function_new\<close> also takes whether the allocation of the chunk succeeded.
\<close>

definition slp_obj_string_new :: "ptr \<Rightarrow> string \<Rightarrow> heap \<Rightarrow> ptr \<times> heap" where
  "slp_obj_string_new p chars = place p (OString \<lparr>s_chars = chars, s_hash = slp_hash_string chars\<rparr>)"

definition slp_obj_string_copy :: "ptr \<Rightarrow> string \<Rightarrow> heap \<Rightarrow> ptr \<times> heap" where
  "slp_obj_string_copy p chars = slp_obj_string_new p chars"

definition slp_obj_class_new :: "ptr \<Rightarrow> ptr \<Rightarrow> bool \<Rightarrow> heap \<Rightarrow> ptr \<times> heap" where
  "slp_obj_class_new p name is_interface =
     place p (OClass \<lparr>cl_name = name, cl_is_interface = is_interface, cl_interfaces = None, cl_fields = None\<rparr>)"

definition slp_obj_java_object_new :: "ptr \<Rightarrow> ptr \<Rightarrow> java_kind \<Rightarrow> heap \<Rightarrow> ptr \<times> heap" where
  "slp_obj_java_object_new p class_object kind =
     place p (OJava \<lparr>jo_class = class_object, jo_kind = kind, jo_list = None, jo_map = None,
                     jo_fields = None, jo_value = VNull\<rparr>)"

definition slp_obj_long_new :: "ptr \<Rightarrow> 64 word \<Rightarrow> heap \<Rightarrow> ptr \<times> heap" where
  "slp_obj_long_new p v = place p (OLong v)"

definition slp_obj_double_new :: "ptr \<Rightarrow> f64 \<Rightarrow> heap \<Rightarrow> ptr \<times> heap" where
  "slp_obj_double_new p v = place p (ODouble v)"

definition slp_obj_array_new :: "ptr \<Rightarrow> heap \<Rightarrow> ptr \<times> heap" where
  "slp_obj_array_new p =
     place p (OArray \<lparr>ar_elements = [], ar_count = 0, ar_version = 0, ar_view_source = None,
                      ar_view_offset = 0, ar_view_source_version = 0, ar_view_invalid = False,
                      ar_read_only = False\<rparr>)"

definition slp_obj_hash_new :: "ptr \<Rightarrow> heap \<Rightarrow> ptr \<times> heap" where
  "slp_obj_hash_new p =
     place p (OHash \<lparr>ha_entries = [], ha_count = 0, ha_next_sequence = 0, ha_order_mode = 0,
                     ha_miss_policy = None, ha_removal_policy = None\<rparr>)"

definition slp_chunk_init :: chunk where
  "slp_chunk_init =
     \<lparr>ck_code = [], ck_lines = [], ck_capacity = 0, ck_constants = [], ck_constant_capacity = 0\<rparr>"

definition slp_obj_function_new :: "ptr \<Rightarrow> bool \<Rightarrow> heap \<Rightarrow> ptr \<times> heap" where
  "slp_obj_function_new p chunk_allocated =
     place p (OFunction \<lparr>fn_arity = 0, fn_upvalue_count = 0,
                         fn_chunk = (if chunk_allocated then Some slp_chunk_init else None),
                         fn_name = None, fn_source_name = None, fn_line_start = 0, fn_line_end = 0\<rparr>)"

definition slp_obj_closure_new :: "ptr \<Rightarrow> addr \<Rightarrow> heap \<Rightarrow> (ptr \<times> heap) option" where
  "slp_obj_closure_new p fn h =
     (case p of
        None \<Rightarrow> Some (None, h)
      | Some _ \<Rightarrow>
          do { f \<leftarrow> get_function h fn;
               Some (place p (OClosure
                 \<lparr>co_function = Some fn, co_upvalues = replicate (nat (fn_upvalue_count f)) None, co_scope = None,
                  co_is_inline = False, co_call_name = None, co_identity = 0, co_regex_states = [],
                  co_regex_state_capacity = 0, co_next_regex_sequence = 0, co_last_regex_matches = None,
                  co_coroutine_stack = [], co_coroutine_frames = [], co_coroutine_needs_result = False,
                  co_coroutine_try_handlers = []\<rparr>) h) })"

definition slp_obj_upvalue_new :: "ptr \<Rightarrow> nat \<Rightarrow> heap \<Rightarrow> ptr \<times> heap" where
  "slp_obj_upvalue_new p slot =
     place p (OUpvalue \<lparr>uv_location = Stack_slot slot, uv_closed = VNull, uv_next = None\<rparr>)"

definition slp_obj_native_new :: "ptr \<Rightarrow> nat \<Rightarrow> ptr \<Rightarrow> heap \<Rightarrow> ptr \<times> heap" where
  "slp_obj_native_new p fn name =
     place p (ONative \<lparr>na_fn = fn, na_name = name, na_preserve_references = False\<rparr>)"

definition slp_obj_bridge_new :: "ptr \<Rightarrow> ptr \<Rightarrow> ptr \<Rightarrow> ptr \<Rightarrow> heap \<Rightarrow> ptr \<times> heap" where
  "slp_obj_bridge_new p keyword name closure =
     place p (OBridge \<lparr>br_keyword = keyword, br_name = name, br_closure = closure\<rparr>)"

definition slp_obj_io_handle_new :: "ptr \<Rightarrow> heap \<Rightarrow> ptr \<times> heap" where
  "slp_obj_io_handle_new p =
     place p (OIOHandle
       \<lparr>io_file = None, io_socket_fd = - 1, io_pid = - 1, io_is_socket = False, io_is_pipeline = False,
        io_is_eof = False, io_is_memory = False, io_is_console = False, io_memory_readable = False,
        io_memory_text_buffered = False, io_text_encoding = 0, io_token = VNull, io_token_ready = False,
        io_memory_mark = 0, io_object_values = [], io_object_capacity = 0, io_object_read_index = 0\<rparr>)"

definition slp_obj_continuation_new :: "ptr \<Rightarrow> heap \<Rightarrow> ptr \<times> heap" where
  "slp_obj_continuation_new p =
     place p (OContinuation
       \<lparr>cn_frames = [], cn_stack = [], cn_saved_ip = None, cn_coroutine_owner = None, cn_try_handlers = [],
        cn_resume_frame_index = - 1, cn_return_trace_call = None, cn_return_trace_source = None,
        cn_return_trace_line = - 1, cn_return_trace_enabled = False\<rparr>)"

definition slp_obj_key_value_new :: "ptr \<Rightarrow> slp_value \<Rightarrow> slp_value \<Rightarrow> heap \<Rightarrow> ptr \<times> heap" where
  "slp_obj_key_value_new p key v = place p (OKeyValue \<lparr>kv_key = key, kv_value = v\<rparr>)"

definition slp_obj_tainted_new :: "ptr \<Rightarrow> slp_value \<Rightarrow> heap \<Rightarrow> ptr \<times> heap" where
  "slp_obj_tainted_new p v = place p (OTainted v)"

definition slp_obj_scalar_cell_new :: "ptr \<Rightarrow> slp_value \<Rightarrow> heap \<Rightarrow> ptr \<times> heap" where
  "slp_obj_scalar_cell_new p v = place p (OScalarCell \<lparr>sc_value = v, sc_watch_name = None\<rparr>)"

subsection \<open>Evaluation of the wrapper loops\<close>

lemma skip_cells_plain [simp]:
  "skip_cells h VNull = Some VNull" "skip_cells h (VBool b) = Some (VBool b)" "skip_cells h (VNum d) = Some (VNum d)"
  "h a = Some (OScalarCell c) \<Longrightarrow> skip_cells h (VObj a) = skip_cells h (sc_value c)"
  "h a = Some ob \<Longrightarrow> \<forall>c. ob \<noteq> OScalarCell c \<Longrightarrow> skip_cells h (VObj a) = Some (VObj a)"
  by (subst skip_cells.simps; simp split: obj.splits)+

lemma unwrap_taint_plain [simp]:
  "slp_value_unwrap_taint h VNull = Some VNull" "slp_value_unwrap_taint h (VBool b) = Some (VBool b)"
  "slp_value_unwrap_taint h (VNum d) = Some (VNum d)"
  "h a = Some (OTainted w) \<Longrightarrow> slp_value_unwrap_taint h (VObj a) = slp_value_unwrap_taint h w"
  "h a = Some ob \<Longrightarrow> \<forall>w. ob \<noteq> OTainted w \<Longrightarrow> slp_value_unwrap_taint h (VObj a) = Some (VObj a)"
  by (subst slp_value_unwrap_taint.simps; simp split: obj.splits)+

lemma skip_wrappers_plain [simp]:
  "skip_wrappers h VNull = Some VNull" "skip_wrappers h (VBool b) = Some (VBool b)"
  "skip_wrappers h (VNum d) = Some (VNum d)"
  "h a = Some (OScalarCell c) \<Longrightarrow> skip_wrappers h (VObj a) = skip_wrappers h (sc_value c)"
  "h a = Some (OTainted w) \<Longrightarrow> skip_wrappers h (VObj a) = skip_wrappers h w"
  "h a = Some ob \<Longrightarrow> \<forall>c. ob \<noteq> OScalarCell c \<Longrightarrow> \<forall>w. ob \<noteq> OTainted w \<Longrightarrow> skip_wrappers h (VObj a) = Some (VObj a)"
  by (subst skip_wrappers.simps; simp split: obj.splits)+

end
