(* ===== verification/Value_Props.thy ===== *)
theory Value_Props
  imports Values
begin

text \<open>
  What the equalities and the hash-key texts of values promise: integer keys agree with their decimal
  text, and the coercing equality is exact on small longs and not beyond.
\<close>

lemma number_text_int:
  assumes "INT32_MIN \<le> n" "n \<le> INT32_MAX" shows "number_text (f_of_int n) = dec_int n"
proof -
  have n: "\<bar>n\<bar> < 2 ^ 53" using assms by simp
  have "f_le (f_of_int INT32_MIN) (f_of_int n)" "f_le (f_of_int n) (f_of_int INT32_MAX)"
    using assms n by (simp_all add: f_le_of_int)
  then show ?thesis using n by (simp add: number_text_def f_trunc_of_int f_eq_of_int)
qed

lemma length_dec_nat: "n < 10 ^ k \<Longrightarrow> 0 < k \<Longrightarrow> length (dec_nat n) \<le> k"
proof (induction k arbitrary: n)
  case 0
  then show ?case by simp
next
  case (Suc k)
  show ?case
  proof (cases "n < 10")
    case True
    then show ?thesis by (subst dec_nat.simps) simp
  next
    case False
    with Suc.prems have "0 < k" by (cases k) auto
    moreover have "n div 10 < 10 ^ k" using Suc.prems(1) by (simp add: less_mult_imp_div_less mult.commute)
    ultimately have "length (dec_nat (n div 10)) \<le> k" by (rule Suc.IH [rotated])
    then show ?thesis using False by (subst dec_nat.simps) simp
  qed
qed

lemma length_dec_int: "\<bar>n\<bar> < 10 ^ 20 \<Longrightarrow> length (dec_int n) < 64"
proof -
  assume "\<bar>n\<bar> < 10 ^ 20"
  then have "nat (- n) < 10 ^ 20" "nat n < 10 ^ 20" by (auto simp: nat_less_iff)
  then have "length (dec_nat (nat (- n))) \<le> 20" "length (dec_nat (nat n)) \<le> 20"
    by (simp_all only: length_dec_nat zero_less_numeral)
  then show ?thesis by (simp add: dec_int_def)
qed

lemma repr_int:
  assumes "INT32_MIN \<le> n" "n \<le> INT32_MAX"
  shows "hash_key_repr 64 h (VNum (f_of_int n)) = Some (Some (dec_int n))"
  using assms length_dec_int [of n] by (simp add: hash_key_repr_def number_text_int in_buffer_def)

lemma repr_string: "h a = Some (OString s) \<Longrightarrow> hash_key_repr 64 h (VObj a) = Some (Some (s_chars s))"
  by (simp add: hash_key_repr_def)

lemma numeric_long:
  "h a = Some (OLong v) \<Longrightarrow> is_numeric_value h (VObj a) = Some True \<and> numeric_double_value h (VObj a) = Some (f_of_int (sint v))"
  by (simp add: is_numeric_value_def numeric_double_value_def)

lemma long_equals:
  assumes "h a = Some (OLong v)" "h b = Some (OLong w)"
  shows "slp_value_equals h (VObj a) (VObj b) = Some (f_eq (f_of_int (sint v)) (f_of_int (sint w)))"
  using assms numeric_long [of h a v] numeric_long [of h b w] by (simp add: slp_value_equals_def)

lemma word_sint_inj: "sint (v :: 64 word) = sint w \<longleftrightarrow> v = w"
  using signed_word_eqI [of v w] by auto

subsection \<open>Properties\<close>

text \<open>An integer hash key is its decimal text: two \<open>int\<close> keys are the same key exactly when they are
  the same integer, an \<open>int\<close> key and a string key exactly when the string is the decimal text of the
  integer, and the hash of the key is the hash of that text.\<close>

theorem int_keys:
  assumes "INT32_MIN \<le> m" "m \<le> INT32_MAX" "INT32_MIN \<le> n" "n \<le> INT32_MAX" "h a = Some (OString s)"
  shows "hash_key_equals h (VNum (f_of_int m)) (VNum (f_of_int n)) = Some (m = n) \<and>
    hash_key_equals h (VNum (f_of_int m)) (VObj a) = Some (dec_int m = s_chars s) \<and>
    slp_hash_value h (VNum (f_of_int m)) = Some (slp_hash_string (dec_int m)) \<and>
    (s_chars s = dec_int m \<longrightarrow> slp_hash_value h (VObj a) = slp_hash_value h (VNum (f_of_int m)))"
  using repr_int [OF assms(1,2)] repr_int [OF assms(3,4)] repr_string [of h a s] assms(5)
  by (simp add: hash_key_equals_def slp_hash_value_def dec_int_inj)

theorem int_keys_witness:
  "hash_key_equals [0 \<mapsto> OString \<lparr>s_chars = ''7'', s_hash = 0\<rparr>] (VNum (f_of_int 7)) (VNum (f_of_int (- 7))) = Some False"
  using int_keys [of 7 "- 7" "[0 \<mapsto> OString \<lparr>s_chars = ''7'', s_hash = 0\<rparr>]" 0 "\<lparr>s_chars = ''7'', s_hash = 0\<rparr>"] by simp

text \<open>The coercing equality of two longs below \<open>2 ^ 53\<close> in magnitude is the equality of the integers.\<close>

theorem small_longs_equal:
  assumes "h a = Some (OLong v)" "h b = Some (OLong w)" "\<bar>sint v\<bar> < 2 ^ 53" "\<bar>sint w\<bar> < 2 ^ 53"
  shows "slp_value_equals h (VObj a) (VObj b) = Some (v = w) \<and>
    slp_value_identity_equals h (VObj a) (VObj b) = Some (v = w)"
  using assms long_equals [of h a v b w] f_eq_of_int [OF assms(3,4)]
  by (simp add: word_sint_inj slp_value_identity_equals_def identity_objects_def)

theorem small_longs_equal_witness:
  "slp_value_equals [0 \<mapsto> OLong 5, 1 \<mapsto> OLong 6] (VObj 0) (VObj 1) = Some False"
  using small_longs_equal [of "[0 \<mapsto> OLong 5, 1 \<mapsto> OLong 6]" 0 5 1 6] by simp

text \<open>C39: the equality of longs goes through \<open>double\<close>, so it collapses beyond \<open>2 ^ 53\<close>: the distinct longs
  9007199254740992 and 9007199254740993 are equal for \<open>==\<close>, while the identity comparison tells them
  apart.\<close>

theorem big_longs_collapse:
  assumes "h a = Some (OLong 9007199254740992)" "h b = Some (OLong 9007199254740993)"
  shows "slp_value_equals h (VObj a) (VObj b) = Some True \<and>
    slp_value_identity_equals h (VObj a) (VObj b) = Some False"
proof -
  have "f_eq (f_of_int 9007199254740992) (f_of_int 9007199254740993)"
    by (simp add: f_eq_def f_of_int_def f_of_nat_bits_def nat_bits.simps round_half_even_def Let_def
        f_is_nan_def f_expo_def f_frac_def)
  then show ?thesis
    using assms long_equals [of h a _ b] by (simp add: slp_value_identity_equals_def identity_objects_def)
qed

theorem big_longs_collapse_witness:
  "slp_value_equals [0 \<mapsto> OLong 9007199254740992, 1 \<mapsto> OLong 9007199254740993] (VObj 0) (VObj 1) = Some True"
  using big_longs_collapse [of "[0 \<mapsto> OLong 9007199254740992, 1 \<mapsto> OLong 9007199254740993]" 0 1] by simp

end
