(* ===== verification/Hashes.thy ===== *)
theory Hashes
  imports Values
begin

text \<open>
  The hash table of \<^verbatim>\<open>src/slp_value.c\<close>: open addressing with linear probing over a power-of-two table,
  tombstones (a null key with the value true), growth at three quarters, and the ordered enumeration.
  The operations work on the table object; the heap is only read, for the texts of the keys.
\<close>

subsection \<open>Slots\<close>

definition slot :: "u32 \<Rightarrow> nat \<Rightarrow> nat" where
  "slot hash capacity = unat (and hash (word_of_int (int capacity - 1)))"

definition next_slot :: "nat \<Rightarrow> nat \<Rightarrow> nat" where
  "next_slot idx capacity = unat (and (word_of_nat idx + 1 :: u32) (word_of_int (int capacity - 1)))"

definition empty_entry :: hash_entry where
  "empty_entry = \<lparr>he_key = VNull, he_value = VNull, he_sequence = 0\<rparr>"

definition tombstone_entry :: hash_entry where
  "tombstone_entry = \<lparr>he_key = VNull, he_value = TRUE_VAL, he_sequence = 0\<rparr>"

text \<open>A slot whose key is null is a tombstone when its value is true, never used otherwise.\<close>

definition is_tombstone :: "hash_entry \<Rightarrow> bool" where
  "is_tombstone e \<longleftrightarrow> he_key e = VNull \<and> he_value e = TRUE_VAL"

definition is_live :: "hash_entry \<Rightarrow> bool" where
  "is_live e \<longleftrightarrow> he_key e \<noteq> VNull"

subsection \<open>Growth\<close>

partial_function (option) free_slot :: "hash_entry list \<Rightarrow> nat \<Rightarrow> nat option" where
  [code]: "free_slot es idx =
     (if idx < length es then
        if is_live (es ! idx) then free_slot es (next_slot idx (length es)) else Some idx
      else None)"

fun rehash :: "heap \<Rightarrow> hash_entry list \<Rightarrow> hash_entry list \<Rightarrow> hash_entry list option" where
  "rehash h [] es = Some es"
| "rehash h (e # rest) es =
     (if \<not> is_live e then rehash h rest es
      else do { hash \<leftarrow> slp_hash_value h (he_key e);
                idx \<leftarrow> free_slot es (slot hash (length es));
                rehash h rest (es[idx := e]) })"

definition hash_grow :: "heap \<Rightarrow> obj_hash \<Rightarrow> obj_hash option" where
  "hash_grow h r =
     (let capacity = length (ha_entries r);
          new_cap = (if capacity = 0 then 16 else capacity * 2)
      in if INT32_MAX < int new_cap then None
         else do { es \<leftarrow> rehash h (ha_entries r) (replicate new_cap empty_entry);
                   Some (r\<lparr>ha_entries := es\<rparr>) })"

subsection \<open>Insertion\<close>

datatype set_probe = Key_at nat | Vacant nat | Exhausted "nat option"

text \<open>The probe loop of \<open>slp_obj_hash_set\<close>; the counter is the number of slots left to scan.\<close>

fun probe_set :: "heap \<Rightarrow> hash_entry list \<Rightarrow> slp_value \<Rightarrow> nat \<Rightarrow> nat \<Rightarrow> nat option \<Rightarrow> set_probe option" where
  "probe_set h es key 0 idx tombstone = Some (Exhausted tombstone)"
| "probe_set h es key (Suc n) idx tombstone =
     (if length es \<le> idx then None
      else if \<not> is_live (es ! idx) then
        if is_tombstone (es ! idx) then
          probe_set h es key n (next_slot idx (length es)) (case tombstone of None \<Rightarrow> Some idx | Some t \<Rightarrow> Some t)
        else Some (Vacant (case tombstone of None \<Rightarrow> idx | Some t \<Rightarrow> t))
      else do { eq \<leftarrow> hash_key_equals h (he_key (es ! idx)) key;
                if eq then Some (Key_at idx)
                else probe_set h es key n (next_slot idx (length es)) tombstone })"

definition store_entry :: "nat \<Rightarrow> slp_value \<Rightarrow> slp_value \<Rightarrow> obj_hash \<Rightarrow> obj_hash" where
  "store_entry idx key v r =
     r\<lparr>ha_entries := (ha_entries r)[idx := \<lparr>he_key = key, he_value = v, he_sequence = ha_next_sequence r + 1\<rparr>],
       ha_next_sequence := ha_next_sequence r + 1,
       ha_count := ha_count r + 1\<rparr>"

definition grow_if :: "bool \<Rightarrow> heap \<Rightarrow> obj_hash \<Rightarrow> obj_hash option" where
  "grow_if c h r = (if c then hash_grow h r else Some r)"

partial_function (option) slp_obj_hash_set :: "heap \<Rightarrow> obj_hash \<Rightarrow> slp_value \<Rightarrow> slp_value \<Rightarrow> (bool \<times> obj_hash) option" where
  [code]: "slp_obj_hash_set h r key v =
     (if INT32_MAX < int (length (ha_entries r)) * 3 then None
      else do {
        r \<leftarrow> grow_if (int (length (ha_entries r)) * 3 div 4 < ha_count r + 1) h r;
        r \<leftarrow> grow_if (length (ha_entries r) = 0) h r;
        hash \<leftarrow> slp_hash_value h key;
        p \<leftarrow> probe_set h (ha_entries r) key (length (ha_entries r)) (slot hash (length (ha_entries r))) None;
        (case p of
           Key_at idx \<Rightarrow> Some (True, r\<lparr>ha_entries := (ha_entries r)[idx := (ha_entries r ! idx)\<lparr>he_value := v\<rparr>]\<rparr>)
         | Vacant idx \<Rightarrow> Some (True, store_entry idx key v r)
         | Exhausted (Some t) \<Rightarrow> Some (True, store_entry t key v r)
         | Exhausted None \<Rightarrow> do { r \<leftarrow> hash_grow h r; slp_obj_hash_set h r key v }) })"

subsection \<open>Lookup and deletion\<close>

text \<open>The probe loop that \<open>get_raw\<close>, \<open>contains\<close> and \<open>delete\<close> share: the slot of the key, if it is there.\<close>

fun probe_find :: "heap \<Rightarrow> hash_entry list \<Rightarrow> slp_value \<Rightarrow> nat \<Rightarrow> nat \<Rightarrow> nat option option" where
  "probe_find h es key 0 idx = Some None"
| "probe_find h es key (Suc n) idx =
     (if length es \<le> idx then None
      else if \<not> is_live (es ! idx) then
        if is_tombstone (es ! idx) then probe_find h es key n (next_slot idx (length es))
        else Some None
      else do { eq \<leftarrow> hash_key_equals h (he_key (es ! idx)) key;
                if eq then Some (Some idx) else probe_find h es key n (next_slot idx (length es)) })"

definition find_key :: "heap \<Rightarrow> obj_hash \<Rightarrow> slp_value \<Rightarrow> nat option option" where
  "find_key h r key =
     (if length (ha_entries r) = 0 then Some None
      else do { hash \<leftarrow> slp_hash_value h key;
                probe_find h (ha_entries r) key (length (ha_entries r)) (slot hash (length (ha_entries r))) })"

definition slp_obj_hash_get_raw :: "heap \<Rightarrow> obj_hash \<Rightarrow> slp_value \<Rightarrow> (slp_value \<times> obj_hash) option" where
  "slp_obj_hash_get_raw h r key =
     do { p \<leftarrow> find_key h r key;
          Some (case p of
                  None \<Rightarrow> (VNull, r)
                | Some idx \<Rightarrow>
                    let e = ha_entries r ! idx in
                    (he_value e,
                     if ha_order_mode r = 2 \<and> he_value e \<noteq> VNull then
                       r\<lparr>ha_entries := (ha_entries r)[idx := e\<lparr>he_sequence := ha_next_sequence r + 1\<rparr>],
                         ha_next_sequence := ha_next_sequence r + 1\<rparr>
                     else r)) }"

definition slp_obj_hash_get :: "heap \<Rightarrow> obj_hash \<Rightarrow> slp_value \<Rightarrow> (slp_value \<times> obj_hash) option" where
  "slp_obj_hash_get h r key =
     do { (v, r) \<leftarrow> slp_obj_hash_get_raw h r key; v \<leftarrow> skip_cells h v; Some (v, r) }"

definition slp_obj_hash_contains :: "heap \<Rightarrow> obj_hash \<Rightarrow> slp_value \<Rightarrow> bool option" where
  "slp_obj_hash_contains h r key = do { p \<leftarrow> find_key h r key; Some (p \<noteq> None) }"

definition slp_obj_hash_delete :: "heap \<Rightarrow> obj_hash \<Rightarrow> slp_value \<Rightarrow> (bool \<times> obj_hash) option" where
  "slp_obj_hash_delete h r key =
     do { p \<leftarrow> find_key h r key;
          Some (case p of
                  None \<Rightarrow> (False, r)
                | Some idx \<Rightarrow>
                    (True, r\<lparr>ha_entries := (ha_entries r)[idx := tombstone_entry], ha_count := ha_count r - 1\<rparr>)) }"

subsection \<open>Ordered enumeration\<close>

definition hash_entry_precedes :: "heap \<Rightarrow> obj_hash \<Rightarrow> nat \<Rightarrow> nat \<Rightarrow> bool option" where
  "hash_entry_precedes h r left right =
     (let l = ha_entries r ! left; e = ha_entries r ! right; capacity = length (ha_entries r)
      in if ha_order_mode r \<noteq> 0 then Some (he_sequence l < he_sequence e)
         else do { hl \<leftarrow> slp_hash_value h (he_key l);
                   he \<leftarrow> slp_hash_value h (he_key e);
                   Some (if slot hl capacity \<noteq> slot he capacity then slot hl capacity < slot he capacity
                         else he_sequence e < he_sequence l) })"

fun count_preceding :: "heap \<Rightarrow> obj_hash \<Rightarrow> nat \<Rightarrow> nat list \<Rightarrow> nat option" where
  "count_preceding h r candidate [] = Some 0"
| "count_preceding h r candidate (i # is) =
     (if \<not> is_live (ha_entries r ! i) \<or> i = candidate then count_preceding h r candidate is
      else do { b \<leftarrow> hash_entry_precedes h r i candidate;
                n \<leftarrow> count_preceding h r candidate is;
                Some (if b then Suc n else n) })"

fun find_rank :: "heap \<Rightarrow> obj_hash \<Rightarrow> int \<Rightarrow> nat list \<Rightarrow> int option" where
  "find_rank h r ordinal [] = Some (- 1)"
| "find_rank h r ordinal (i # is) =
     (if \<not> is_live (ha_entries r ! i) then find_rank h r ordinal is
      else do { rank \<leftarrow> count_preceding h r i [0..<length (ha_entries r)];
                if int rank = ordinal then Some (int i) else find_rank h r ordinal is })"

definition slp_obj_hash_ordered_index :: "heap \<Rightarrow> obj_hash \<Rightarrow> int \<Rightarrow> int option" where
  "slp_obj_hash_ordered_index h r ordinal =
     (if ordinal < 0 \<or> ha_count r \<le> ordinal then Some (- 1)
      else find_rank h r ordinal [0..<length (ha_entries r)])"

definition slp_obj_hash_visible_count :: "obj_hash \<Rightarrow> int" where
  "slp_obj_hash_visible_count r =
     int (length (filter (\<lambda>e. he_key e \<noteq> VNull \<and> he_value e \<noteq> VNull) (ha_entries r)))"

end
