(* ===== verification/Hash_Refine.thy ===== *)
theory Hash_Refine
  imports Hashes "HOL-Library.Multiset"
begin

text \<open>
  The hash table implements a map from the texts of its keys. The invariant of the table: a power of
  two as capacity, live keys with pairwise distinct texts, and no never-used slot between a key's home
  slot and the slot that holds it. Probing is analysed by the offset from the home slot.
\<close>

subsection \<open>Arithmetic of the slots\<close>

definition table_size :: "nat \<Rightarrow> bool" where
  "table_size c \<longleftrightarrow> (\<exists>k. c = 2 ^ k \<and> 4 \<le> k \<and> k \<le> 30)"

lemma and_low_mask:
  assumes "k \<le> 31" shows "unat (and (w :: u32) (word_of_int (int (2 ^ k) - 1))) = unat w mod 2 ^ k"
proof -
  have "(word_of_int (int (2 ^ k) - 1) :: u32) = mask k"
    by (simp add: mask_eq_exp_minus_1)
  then have "unat (and w (word_of_int (int (2 ^ k) - 1))) = unat (take_bit k w)"
    by (simp add: take_bit_eq_mask)
  also have "... = unat w mod 2 ^ k" by (simp only: unsigned_take_bit_eq) (simp add: take_bit_eq_mod)
  finally show ?thesis .
qed

lemma slot_mod: "table_size c \<Longrightarrow> slot hash c = unat hash mod c"
  using and_low_mask by (auto simp: slot_def table_size_def)

lemma next_slot_mod:
  assumes "table_size c" "i < c" shows "next_slot i c = Suc i mod c"
proof -
  obtain k where k: "c = 2 ^ k" "k \<le> 30" using assms(1) by (auto simp: table_size_def)
  then have "c \<le> 2 ^ 30" by (simp only: power_increasing)
  then have "Suc i < 2 ^ 32" using assms(2) by simp
  then have "unat (word_of_nat (Suc i) :: u32) = Suc i" by (simp only: unsigned_of_nat) (simp add: take_bit_nat_eq_self)
  then show ?thesis using and_low_mask [of k "word_of_nat (Suc i)"] k by (simp add: next_slot_def add.commute)
qed

lemma table_size_pos: "table_size c \<Longrightarrow> 16 \<le> c \<and> c \<le> 2 ^ 30"
proof -
  assume "table_size c"
  then obtain k where k: "c = 2 ^ k" "4 \<le> k" "k \<le> 30" by (auto simp: table_size_def)
  have "(2::nat) ^ 4 \<le> 2 ^ k" "(2::nat) ^ k \<le> 2 ^ 30" using k by (simp_all only: power_increasing)
  then show ?thesis using k by simp
qed

definition offset :: "nat \<Rightarrow> nat \<Rightarrow> nat \<Rightarrow> nat" where
  "offset a i c = (i + c - a) mod c"

lemma offset_less: "0 < c \<Longrightarrow> offset a i c < c"
  by (simp add: offset_def)

lemma mod_in_range: "a < c \<Longrightarrow> k mod c < (c :: nat)"
  by (rule mod_less_divisor) linarith

lemma offset_reaches: "a < c \<Longrightarrow> i < c \<Longrightarrow> (a + offset a i c) mod c = i"
  by (simp add: offset_def mod_simps)

lemma offset_unique: "a < c \<Longrightarrow> j < c \<Longrightarrow> offset a ((a + j) mod c) c = j"
proof -
  assume a: "a < c" "j < c"
  show ?thesis
  proof (cases "a + j < c")
    case True
    then show ?thesis using a by (simp add: offset_def)
  next
    case False
    then have "(a + j) mod c = a + j - c" using a by (simp add: mod_if)
    then show ?thesis using a False by (simp add: offset_def)
  qed
qed

subsection \<open>Texts of keys\<close>

definition key_text :: "heap \<Rightarrow> slp_value \<Rightarrow> string option" where
  "key_text h k = (case hash_key_repr 64 h k of Some (Some t) \<Rightarrow> Some t | _ \<Rightarrow> None)"

lemma key_text_Some: "key_text h k = Some t \<longleftrightarrow> hash_key_repr 64 h k = Some (Some t)"
  by (auto simp: key_text_def split: option.splits)

lemma hash_key_equals_text:
  "key_text h a = Some s \<Longrightarrow> key_text h b = Some t \<Longrightarrow> hash_key_equals h a b = Some (s = t)"
  by (simp add: key_text_Some hash_key_equals_def)

lemma slp_hash_value_text: "key_text h k = Some t \<Longrightarrow> slp_hash_value h k = Some (slp_hash_string t)"
  by (simp add: key_text_Some slp_hash_value_def)

subsection \<open>The invariant\<close>

definition entry_text :: "heap \<Rightarrow> hash_entry \<Rightarrow> string option" where
  "entry_text h e = key_text h (he_key e)"

definition lives :: "hash_entry list \<Rightarrow> hash_entry list" where
  "lives es = filter is_live es"

definition is_free :: "hash_entry \<Rightarrow> bool" where
  "is_free e \<longleftrightarrow> \<not> is_live e \<and> \<not> is_tombstone e"

definition home :: "string \<Rightarrow> nat \<Rightarrow> nat" where
  "home t c = unat (slp_hash_string t) mod c"

definition probe_path :: "hash_entry list \<Rightarrow> nat \<Rightarrow> nat \<Rightarrow> bool" where
  "probe_path es a n \<longleftrightarrow> (\<forall>j<n. \<not> is_free (es ! ((a + j) mod length es)))"

definition tab_inv :: "heap \<Rightarrow> hash_entry list \<Rightarrow> bool" where
  "tab_inv h es \<longleftrightarrow> table_size (length es) \<and>
     (\<forall>e\<in>set (lives es). entry_text h e \<noteq> None) \<and>
     distinct (map (entry_text h) (lives es)) \<and>
     (\<forall>i<length es. \<forall>t. is_live (es ! i) \<longrightarrow> entry_text h (es ! i) = Some t \<longrightarrow>
        probe_path es (home t (length es)) (offset (home t (length es)) i (length es)))"

lemma lives_nth: "i < length es \<Longrightarrow> is_live (es ! i) \<Longrightarrow> es ! i \<in> set (lives es)"
  by (simp add: lives_def)

lemma distinct_filter_index:
  "distinct (map f (filter P es)) \<Longrightarrow> i < length es \<Longrightarrow> j < length es \<Longrightarrow> P (es ! i) \<Longrightarrow> P (es ! j) \<Longrightarrow>
   f (es ! i) = f (es ! j) \<Longrightarrow> i = j"
proof (induction es arbitrary: i j)
  case Nil
  then show ?case by simp
next
  case (Cons e es)
  have in_img: "k < length es \<Longrightarrow> P (es ! k) \<Longrightarrow> f (es ! k) \<in> f ` set (filter P es)" for k by auto
  show ?case
  proof (cases i; cases j)
    fix i' j' assume "i = Suc i'" "j = Suc j'"
    then show ?thesis using Cons by (auto split: if_splits)
  next
    fix j' assume ij: "i = 0" "j = Suc j'"
    with Cons.prems have "f e = f (es ! j')" "f e \<notin> f ` set (filter P es)" by auto
    with in_img [of j'] Cons.prems ij show ?thesis by auto
  next
    fix i' assume ij: "j = 0" "i = Suc i'"
    with Cons.prems have "f e = f (es ! i')" "f e \<notin> f ` set (filter P es)" by auto
    with in_img [of i'] Cons.prems ij show ?thesis by auto
  qed auto
qed

lemma distinct_filterI:
  "(\<And>i j. i < length es \<Longrightarrow> j < length es \<Longrightarrow> P (es ! i) \<Longrightarrow> P (es ! j) \<Longrightarrow> f (es ! i) = f (es ! j) \<Longrightarrow> i = j) \<Longrightarrow>
   distinct (map f (filter P es))"
proof (induction es)
  case Nil
  then show ?case by simp
next
  case (Cons e es)
  have "distinct (map f (filter P es))"
    by (rule Cons.IH) (use Cons.prems [of "Suc _" "Suc _"] in auto)
  moreover have "f e \<notin> f ` set (filter P es)" if "P e"
  proof
    assume "f e \<in> f ` set (filter P es)"
    then obtain k where "k < length es" "P (es ! k)" "f e = f (es ! k)" by (auto simp: in_set_conv_nth)
    with Cons.prems [of 0 "Suc k"] that show False by auto
  qed
  ultimately show ?case by simp
qed

lemma tab_inv_unique:
  "tab_inv h es \<Longrightarrow> i < length es \<Longrightarrow> j < length es \<Longrightarrow> is_live (es ! i) \<Longrightarrow> is_live (es ! j) \<Longrightarrow>
   entry_text h (es ! i) = entry_text h (es ! j) \<Longrightarrow> i = j"
  unfolding tab_inv_def lives_def by (meson distinct_filter_index)

lemma tab_inv_text: "tab_inv h es \<Longrightarrow> i < length es \<Longrightarrow> is_live (es ! i) \<Longrightarrow> \<exists>s. entry_text h (es ! i) = Some s"
  unfolding tab_inv_def using lives_nth by blast

lemma tab_inv_pos: "tab_inv h es \<Longrightarrow> 0 < length es"
  using table_size_pos by (fastforce simp: tab_inv_def)

lemma home_less: "0 < c \<Longrightarrow> home t c < c"
  by (simp add: home_def)

lemma next_slot_step: "table_size c \<Longrightarrow> next_slot ((a + j) mod c) c = (a + Suc j) mod c"
  using next_slot_mod [of c "(a + j) mod c"] table_size_pos [of c] by (simp add: mod_Suc_eq)

subsection \<open>Probing\<close>

lemma probe_find_hit:
  assumes inv: "tab_inv h es" and key: "key_text h key = Some t"
    and i: "i < length es" "is_live (es ! i)" "entry_text h (es ! i) = Some t"
    and a: "a < length es" and path: "probe_path es a (offset a i (length es))"
  shows "j \<le> offset a i (length es) \<Longrightarrow> offset a i (length es) - j < n \<Longrightarrow>
    probe_find h es key n ((a + j) mod length es) = Some (Some i)"
proof (induction n arbitrary: j)
  case 0
  then show ?case by simp
next
  case (Suc n)
  let ?c = "length es" and ?k = "(a + j) mod length es"
  have ts: "table_size ?c" using inv by (simp add: tab_inv_def)
  have k: "?k < ?c" using a by (rule mod_in_range)
  show ?case
  proof (cases "j = offset a i ?c")
    case True
    then have "?k = i" using offset_reaches [OF a i(1)] by simp
    moreover have "hash_key_equals h (he_key (es ! i)) key = Some True"
      using hash_key_equals_text [of h "he_key (es ! i)" t key t] i(3) key by (simp add: entry_text_def)
    ultimately show ?thesis using i(1,2) by simp
  next
    case False
    then have lt: "j < offset a i ?c" using Suc.prems by simp
    then have nf: "\<not> is_free (es ! ?k)" using path by (simp add: probe_path_def)
    have rec: "probe_find h es key n (next_slot ?k ?c) = Some (Some i)"
      using Suc.IH [of "Suc j"] Suc.prems lt next_slot_step [OF ts] by simp
    show ?thesis
    proof (cases "is_live (es ! ?k)")
      case True
      then obtain s where s: "entry_text h (es ! ?k) = Some s" using tab_inv_text [OF inv k] by blast
      have "?k \<noteq> i"
      proof
        assume "?k = i"
        then have "offset a i ?c = j"
          using offset_unique [of a ?c j] a lt offset_less [of ?c a i] by fastforce
        with lt show False by simp
      qed
      then have "s \<noteq> t" using tab_inv_unique [OF inv k i(1) True i(2)] s i(3) by auto
      then have "hash_key_equals h (he_key (es ! ?k)) key = Some False"
        using hash_key_equals_text [of h "he_key (es ! ?k)" s key t] s key by (simp add: entry_text_def)
      with True k rec show ?thesis by simp
    next
      case False
      with nf have "is_tombstone (es ! ?k)" by (simp add: is_free_def)
      with False k rec show ?thesis by simp
    qed
  qed
qed

lemma probe_find_miss:
  assumes inv: "tab_inv h es" and key: "key_text h key = Some t"
    and no: "\<And>i. i < length es \<Longrightarrow> is_live (es ! i) \<Longrightarrow> entry_text h (es ! i) \<noteq> Some t"
  shows "k < length es \<Longrightarrow> probe_find h es key n k = Some None"
proof (induction n arbitrary: k)
  case 0
  then show ?case by simp
next
  case (Suc n)
  have ts: "table_size (length es)" using inv by (simp add: tab_inv_def)
  have "next_slot k (length es) < length es" using next_slot_mod [OF ts Suc.prems] tab_inv_pos [OF inv] by simp
  then have rec: "probe_find h es key n (next_slot k (length es)) = Some None" by (rule Suc.IH)
  show ?case
  proof (cases "is_live (es ! k)")
    case True
    then obtain s where s: "entry_text h (es ! k) = Some s" using tab_inv_text [OF inv Suc.prems] by blast
    with no [OF Suc.prems True] have "s \<noteq> t" by auto
    then have "hash_key_equals h (he_key (es ! k)) key = Some False"
      using hash_key_equals_text [of h "he_key (es ! k)" s key t] s key by (simp add: entry_text_def)
    with True Suc.prems rec show ?thesis by simp
  next
    case False
    with Suc.prems rec show ?thesis by simp
  qed
qed

lemma probe_set_hit:
  assumes inv: "tab_inv h es" and key: "key_text h key = Some t"
    and i: "i < length es" "is_live (es ! i)" "entry_text h (es ! i) = Some t"
    and a: "a < length es" and path: "probe_path es a (offset a i (length es))"
  shows "j \<le> offset a i (length es) \<Longrightarrow> offset a i (length es) - j < n \<Longrightarrow>
    probe_set h es key n ((a + j) mod length es) tomb = Some (Key_at i)"
proof (induction n arbitrary: j tomb)
  case 0
  then show ?case by simp
next
  case (Suc n)
  let ?c = "length es" and ?k = "(a + j) mod length es"
  have ts: "table_size ?c" using inv by (simp add: tab_inv_def)
  have k: "?k < ?c" using a by (rule mod_in_range)
  show ?case
  proof (cases "j = offset a i ?c")
    case True
    then have "?k = i" using offset_reaches [OF a i(1)] by simp
    moreover have "hash_key_equals h (he_key (es ! i)) key = Some True"
      using hash_key_equals_text [of h "he_key (es ! i)" t key t] i(3) key by (simp add: entry_text_def)
    ultimately show ?thesis using i(1,2) by simp
  next
    case False
    then have lt: "j < offset a i ?c" using Suc.prems by simp
    then have nf: "\<not> is_free (es ! ?k)" using path by (simp add: probe_path_def)
    have rec: "probe_set h es key n (next_slot ?k ?c) tb = Some (Key_at i)" for tb
      using Suc.IH [of "Suc j"] Suc.prems lt next_slot_step [OF ts] by simp
    show ?thesis
    proof (cases "is_live (es ! ?k)")
      case True
      then obtain s where s: "entry_text h (es ! ?k) = Some s" using tab_inv_text [OF inv k] by blast
      have "?k \<noteq> i"
      proof
        assume "?k = i"
        then have "offset a i ?c = j"
          using offset_unique [of a ?c j] a lt offset_less [of ?c a i] by fastforce
        with lt show False by simp
      qed
      then have "s \<noteq> t" using tab_inv_unique [OF inv k i(1) True i(2)] s i(3) by auto
      then have "hash_key_equals h (he_key (es ! ?k)) key = Some False"
        using hash_key_equals_text [of h "he_key (es ! ?k)" s key t] s key by (simp add: entry_text_def)
      with True k rec show ?thesis by simp
    next
      case False
      with nf have "is_tombstone (es ! ?k)" by (simp add: is_free_def)
      with False k rec show ?thesis by simp
    qed
  qed
qed

text \<open>A slot where a key with home \<open>a\<close> may be stored.\<close>

definition storable :: "hash_entry list \<Rightarrow> nat \<Rightarrow> nat \<Rightarrow> bool" where
  "storable es a p \<longleftrightarrow> p < length es \<and> \<not> is_live (es ! p) \<and> probe_path es a (offset a p (length es))"

lemma storableI:
  assumes "a < length es" "j < length es" "probe_path es a j" "\<not> is_live (es ! ((a + j) mod length es))"
  shows "storable es a ((a + j) mod length es)"
  using assms offset_unique [OF assms(1,2)] mod_in_range [OF assms(1)] by (simp add: storable_def)

lemma probe_path_Suc: "probe_path es a (Suc j) \<longleftrightarrow> probe_path es a j \<and> \<not> is_free (es ! ((a + j) mod length es))"
  by (auto simp: probe_path_def less_Suc_eq)

lemma probe_path_le: "probe_path es a j \<Longrightarrow> i \<le> j \<Longrightarrow> probe_path es a i"
  by (auto simp: probe_path_def)

definition set_slot :: "hash_entry list \<Rightarrow> nat \<Rightarrow> set_probe \<Rightarrow> bool" where
  "set_slot es a p \<longleftrightarrow>
     (case p of Key_at _ \<Rightarrow> False | Vacant i \<Rightarrow> storable es a i | Exhausted (Some i) \<Rightarrow> storable es a i
      | Exhausted None \<Rightarrow> \<forall>j<length es. is_live (es ! ((a + j) mod length es)))"

lemma probe_set_miss:
  assumes inv: "tab_inv h es" and key: "key_text h key = Some t"
    and no: "\<And>i. i < length es \<Longrightarrow> is_live (es ! i) \<Longrightarrow> entry_text h (es ! i) \<noteq> Some t"
    and a: "a < length es"
  shows "j + n = length es \<Longrightarrow> probe_path es a j \<Longrightarrow>
    (case tomb of None \<Rightarrow> \<forall>i<j. is_live (es ! ((a + i) mod length es)) | Some p \<Rightarrow> storable es a p) \<Longrightarrow>
    \<exists>p. probe_set h es key n ((a + j) mod length es) tomb = Some p \<and> set_slot es a p"
proof (induction n arbitrary: j tomb)
  case 0
  then show ?case by (cases tomb) (simp_all add: set_slot_def)
next
  case (Suc n)
  let ?c = "length es" and ?k = "(a + j) mod length es"
  have ts: "table_size ?c" using inv by (simp add: tab_inv_def)
  have k: "?k < ?c" using a by (rule mod_in_range)
  have j: "j < ?c" using Suc.prems(1) by simp
  show ?case
  proof (cases "is_live (es ! ?k)")
    case True
    then obtain s where s: "entry_text h (es ! ?k) = Some s" using tab_inv_text [OF inv k] by blast
    with no [OF k True] have "s \<noteq> t" by auto
    then have "hash_key_equals h (he_key (es ! ?k)) key = Some False"
      using hash_key_equals_text [of h "he_key (es ! ?k)" s key t] s key by (simp add: entry_text_def)
    moreover have "probe_path es a (Suc j)" using Suc.prems(2) True by (simp add: probe_path_Suc is_free_def)
    moreover have "case tomb of None \<Rightarrow> \<forall>i<Suc j. is_live (es ! ((a + i) mod ?c)) | Some p \<Rightarrow> storable es a p"
      using Suc.prems(3) True by (cases tomb) (auto simp: less_Suc_eq)
    ultimately show ?thesis
      using Suc.IH [of "Suc j" tomb] Suc.prems(1) True k next_slot_step [OF ts] by simp
  next
    case False
    have st: "storable es a ?k" using storableI [OF a j Suc.prems(2) False] .
    show ?thesis
    proof (cases "is_tombstone (es ! ?k)")
      case True
      then have "probe_path es a (Suc j)" using Suc.prems(2) by (simp add: probe_path_Suc is_free_def)
      then show ?thesis
        using Suc.IH [of "Suc j" "Some (case tomb of None \<Rightarrow> ?k | Some t \<Rightarrow> t)"] Suc.prems st False True k
          next_slot_step [OF ts, of a j]
        by (cases tomb) simp_all
    next
      case tf: False
      then show ?thesis using False k Suc.prems(3) st by (cases tomb) (simp_all add: set_slot_def)
    qed
  qed
qed

subsection \<open>The map of a table\<close>

definition tab_map :: "heap \<Rightarrow> hash_entry list \<Rightarrow> string \<Rightarrow> slp_value option" where
  "tab_map h es t = map_option he_value (find (\<lambda>e. is_live e \<and> entry_text h e = Some t) es)"

lemma tab_map_Some:
  assumes "tab_inv h es"
  shows "tab_map h es t = Some v \<longleftrightarrow> (\<exists>e\<in>set (lives es). entry_text h e = Some t \<and> he_value e = v)"
proof
  assume "tab_map h es t = Some v"
  then show "\<exists>e\<in>set (lives es). entry_text h e = Some t \<and> he_value e = v"
    by (auto simp: tab_map_def find_Some_iff lives_def) (metis nth_mem)
next
  assume "\<exists>e\<in>set (lives es). entry_text h e = Some t \<and> he_value e = v"
  then obtain e where e: "e \<in> set (lives es)" "entry_text h e = Some t" "he_value e = v" by blast
  then obtain d where d: "find (\<lambda>e. is_live e \<and> entry_text h e = Some t) es = Some d"
    by (cases "find (\<lambda>e. is_live e \<and> entry_text h e = Some t) es") (auto simp: find_None_iff lives_def)
  then have "d \<in> set (lives es)" "entry_text h d = Some t" by (auto simp: find_Some_iff lives_def)
  moreover have "inj_on (entry_text h) (set (lives es))"
    using assms by (simp add: tab_inv_def distinct_map)
  ultimately have "d = e" using e by (metis inj_onD)
  with d e(3) show "tab_map h es t = Some v" by (simp add: tab_map_def)
qed

lemma tab_map_None:
  "tab_map h es t = None \<longleftrightarrow> (\<forall>i<length es. is_live (es ! i) \<longrightarrow> entry_text h (es ! i) \<noteq> Some t)"
  by (auto simp: tab_map_def find_None_iff in_set_conv_nth)

lemma tab_map_at:
  assumes "tab_inv h es" "i < length es" "is_live (es ! i)" "entry_text h (es ! i) = Some t"
  shows "tab_map h es t = Some (he_value (es ! i))"
  using tab_map_Some [OF assms(1)] lives_nth [OF assms(2,3)] assms(4) by blast

lemma tab_map_eqI:
  assumes "\<And>t v. m t = Some v \<longleftrightarrow> m' t = Some v" shows "m = m'"
  using assms by (metis ext not_Some_eq)

lemma mset_lives_update:
  assumes "i < length es"
  shows "mset (lives (es[i := e])) + (if is_live (es ! i) then {#es ! i#} else {#}) =
    mset (lives es) + (if is_live e then {#e#} else {#})"
proof -
  have m: "mset es = add_mset (es ! i) (mset es - {#es ! i#})" using assms by simp
  have "mset (lives (es[i := e])) = filter_mset is_live (add_mset e (mset es - {#es ! i#}))"
    using assms by (simp add: lives_def mset_update)
  moreover have "mset (lives es) = filter_mset is_live (add_mset (es ! i) (mset es - {#es ! i#}))"
    using m by (simp add: lives_def)
  ultimately show ?thesis by simp
qed

text \<open>The three updates of a table: a new entry, a new entry for the same key, and a deletion.\<close>

lemma probe_path_mono:
  assumes "\<And>j. j < length es \<Longrightarrow> is_free (es' ! j) \<Longrightarrow> is_free (es ! j)" "length es' = length es" "0 < length es"
  shows "probe_path es a n \<Longrightarrow> probe_path es' a n"
  using assms by (auto simp: probe_path_def)

lemma tab_inv_update:
  assumes inv: "tab_inv h es" and i: "i < length es"
    and e: "is_live e \<Longrightarrow> \<exists>t. entry_text h e = Some t \<and>
      probe_path es (home t (length es)) (offset (home t (length es)) i (length es)) \<and>
      (\<forall>j<length es. j \<noteq> i \<longrightarrow> is_live (es ! j) \<longrightarrow> entry_text h (es ! j) \<noteq> Some t)"
    and nf: "\<not> is_free e"
  shows "tab_inv h (es[i := e])"
proof -
  let ?es = "es[i := e]"
  have in_lives: "d \<in> set (lives ?es) \<Longrightarrow> (\<exists>j<length es. j \<noteq> i \<and> is_live (es ! j) \<and> d = es ! j) \<or> (is_live e \<and> d = e)" for d
    using i by (auto simp: lives_def in_set_conv_nth nth_list_update split: if_splits)
  have path: "probe_path es a n \<Longrightarrow> probe_path ?es a n" for a n
    by (rule probe_path_mono) (use nf i tab_inv_pos [OF inv] in \<open>auto simp: nth_list_update split: if_splits\<close>)
  have "distinct (map (entry_text h) (lives ?es))"
    unfolding lives_def
  proof (rule distinct_filterI)
    fix j k assume jk: "j < length ?es" "k < length ?es" "is_live (?es ! j)" "is_live (?es ! k)"
      "entry_text h (?es ! j) = entry_text h (?es ! k)"
    show "j = k"
    proof (cases "j = i \<or> k = i")
      case True
      then have "is_live e" using jk(3,4) i by auto
      then obtain t where t: "entry_text h e = Some t"
        and no: "\<And>j. j < length es \<Longrightarrow> j \<noteq> i \<Longrightarrow> is_live (es ! j) \<Longrightarrow> entry_text h (es ! j) \<noteq> Some t"
        using e by blast
      show ?thesis
      proof (cases "j = i")
        case j: True
        then show ?thesis using jk i t no [of k] by (cases "k = i") simp_all
      next
        case j: False
        then have "k = i" using True by simp
        then show ?thesis using jk i t no [of j] j by simp
      qed
    next
      case False
      with jk tab_inv_unique [OF inv, of j k] show ?thesis by auto
    qed
  qed
  moreover have "\<forall>d\<in>set (lives ?es). entry_text h d \<noteq> None"
    using in_lives tab_inv_text [OF inv] e by fastforce
  moreover have "probe_path ?es (home t (length ?es)) (offset (home t (length ?es)) j (length ?es))"
    if "j < length ?es" "is_live (?es ! j)" "entry_text h (?es ! j) = Some t" for j t
    using that inv e path i by (cases "j = i") (auto simp: tab_inv_def)
  ultimately show ?thesis using inv by (simp add: tab_inv_def)
qed

lemma tab_map_Some_index:
  assumes "tab_inv h es"
  shows "tab_map h es t = Some v \<longleftrightarrow>
    (\<exists>i<length es. is_live (es ! i) \<and> entry_text h (es ! i) = Some t \<and> he_value (es ! i) = v)"
  unfolding tab_map_Some [OF assms] by (auto simp: lives_def in_set_conv_nth)

lemma tab_map_update_live:
  assumes inv: "tab_inv h es" "tab_inv h (es[i := e])" and i: "i < length es" and e: "is_live e" "entry_text h e = Some t"
    and old: "is_live (es ! i) \<Longrightarrow> entry_text h (es ! i) = Some t"
  shows "tab_map h (es[i := e]) = (tab_map h es)(t \<mapsto> he_value e)"
proof (rule tab_map_eqI)
  fix s v
  let ?es = "es[i := e]"
  show "tab_map h ?es s = Some v \<longleftrightarrow> ((tab_map h es)(t \<mapsto> he_value e)) s = Some v"
  proof (cases "s = t")
    case True
    then show ?thesis using tab_map_at [OF inv(2), of i t] i e by auto
  next
    case False
    have "(is_live (?es ! j) \<and> entry_text h (?es ! j) = Some s \<and> he_value (?es ! j) = v) \<longleftrightarrow>
      (is_live (es ! j) \<and> entry_text h (es ! j) = Some s \<and> he_value (es ! j) = v)" if "j < length es" for j
      using False e(2) old i that by (cases "j = i") auto
    then have "(\<exists>j<length ?es. is_live (?es ! j) \<and> entry_text h (?es ! j) = Some s \<and> he_value (?es ! j) = v) \<longleftrightarrow>
      (\<exists>j<length es. is_live (es ! j) \<and> entry_text h (es ! j) = Some s \<and> he_value (es ! j) = v)"
      by auto
    then show ?thesis using False by (simp add: tab_map_Some_index [OF inv(1)] tab_map_Some_index [OF inv(2)])
  qed
qed

lemma tab_map_update_dead:
  assumes inv: "tab_inv h es" "tab_inv h (es[i := e])" and i: "i < length es" and e: "\<not> is_live e"
    and old: "is_live (es ! i)" "entry_text h (es ! i) = Some t"
  shows "tab_map h (es[i := e]) = (tab_map h es)(t := None)"
proof (rule tab_map_eqI)
  fix s v
  let ?es = "es[i := e]"
  show "tab_map h ?es s = Some v \<longleftrightarrow> ((tab_map h es)(t := None)) s = Some v"
  proof (cases "s = t")
    case True
    have "entry_text h (?es ! j) \<noteq> Some t" if "j < length ?es" "is_live (?es ! j)" for j
    proof -
      have "j \<noteq> i" using that(2) e i by auto
      then show ?thesis using tab_inv_unique [OF inv(1), of j i] that i old by auto
    qed
    then have "tab_map h ?es t = None" by (simp add: tab_map_None)
    then show ?thesis using True by simp
  next
    case False
    have "(is_live (?es ! j) \<and> entry_text h (?es ! j) = Some s \<and> he_value (?es ! j) = v) \<longleftrightarrow>
      (is_live (es ! j) \<and> entry_text h (es ! j) = Some s \<and> he_value (es ! j) = v)" if "j < length es" for j
      using False e(1) old i that by (cases "j = i") auto
    then have "(\<exists>j<length ?es. is_live (?es ! j) \<and> entry_text h (?es ! j) = Some s \<and> he_value (?es ! j) = v) \<longleftrightarrow>
      (\<exists>j<length es. is_live (es ! j) \<and> entry_text h (es ! j) = Some s \<and> he_value (es ! j) = v)"
      by auto
    then show ?thesis using False by (simp add: tab_map_Some_index [OF inv(1)] tab_map_Some_index [OF inv(2)])
  qed
qed

lemma card_lives_update:
  assumes "i < length es"
  shows "length (lives (es[i := e])) + (if is_live (es ! i) then 1 else 0) = length (lives es) + (if is_live e then 1 else 0)"
  using arg_cong [OF mset_lives_update [OF assms, of e], of size] by (auto split: if_splits)

subsection \<open>Growth\<close>

lemma free_slot_ok:
  assumes ts: "table_size (length es)" and a: "a < length es" and p: "p < length es" "\<not> is_live (es ! p)"
  shows "j \<le> offset a p (length es) \<Longrightarrow> \<forall>i<j. is_live (es ! ((a + i) mod length es)) \<Longrightarrow>
    \<exists>q. free_slot es ((a + j) mod length es) = Some q \<and> storable es a q"
proof (induction "offset a p (length es) - j" arbitrary: j rule: less_induct)
  case less
  let ?c = "length es" and ?k = "(a + j) mod length es"
  have k: "?k < ?c" using a by (rule mod_in_range)
  have jc: "j < ?c" using less.prems(1) offset_less [of ?c a p] a by linarith
  show ?case
  proof (cases "is_live (es ! ?k)")
    case True
    have "j \<noteq> offset a p ?c" using True offset_reaches [OF a p(1)] p(2) by auto
    then have lt: "j < offset a p ?c" using less.prems(1) by simp
    have "\<exists>q. free_slot es ((a + Suc j) mod ?c) = Some q \<and> storable es a q"
      by (rule less.hyps) (use lt less.prems True in \<open>auto simp: less_Suc_eq\<close>)
    then show ?thesis using True k next_slot_step [OF ts, of a j] by (subst free_slot.simps) simp
  next
    case False
    have "probe_path es a j" using less.prems(2) by (simp add: probe_path_def is_free_def)
    then have "storable es a ?k" by (rule storableI [OF a jc _ False])
    then show ?thesis using False k by (subst free_slot.simps) simp
  qed
qed

lemma ex_dead_slot: "length (lives es) < length es \<Longrightarrow> \<exists>p<length es. \<not> is_live (es ! p)"
proof (rule ccontr)
  assume l: "length (lives es) < length es" and "\<not> (\<exists>p<length es. \<not> is_live (es ! p))"
  then have "\<forall>e\<in>set es. is_live e" by (auto simp: in_set_conv_nth)
  then have "lives es = es" by (simp add: lives_def)
  with l show False by simp
qed

lemma rehash_ok:
  "tab_inv h es \<Longrightarrow> length (lives es) + length (lives rest) < length es \<Longrightarrow>
   \<forall>e\<in>set (lives rest). entry_text h e \<noteq> None \<Longrightarrow> distinct (map (entry_text h) (lives rest)) \<Longrightarrow>
   entry_text h ` set (lives rest) \<inter> entry_text h ` set (lives es) = {} \<Longrightarrow>
   \<exists>es'. rehash h rest es = Some es' \<and> length es' = length es \<and> tab_inv h es' \<and>
     set (lives es') = set (lives es) \<union> set (lives rest) \<and> length (lives es') = length (lives es) + length (lives rest)"
proof (induction rest arbitrary: es)
  case Nil
  then show ?case by (simp add: lives_def)
next
  case (Cons e rest)
  show ?case
  proof (cases "is_live e")
    case False
    then show ?thesis using Cons by (simp add: lives_def)
  next
    case True
    let ?c = "length es"
    have lv: "lives (e # rest) = e # lives rest" using True by (simp add: lives_def)
    obtain t where t: "entry_text h e = Some t" using Cons.prems(3) lv by auto
    have hash: "slp_hash_value h (he_key e) = Some (slp_hash_string t)"
      using t slp_hash_value_text by (simp add: entry_text_def)
    have ts: "table_size ?c" using Cons.prems(1) by (simp add: tab_inv_def)
    have pos: "0 < ?c" using tab_inv_pos [OF Cons.prems(1)] .
    have hm: "slot (slp_hash_string t) ?c = home t ?c" using slot_mod [OF ts] by (simp add: home_def)
    obtain d where "d < ?c" "\<not> is_live (es ! d)" using ex_dead_slot [of es] Cons.prems(2) by auto
    from free_slot_ok [OF ts home_less [OF pos] this, of 0] obtain p where
      p: "free_slot es (home t ?c) = Some p" "storable es (home t ?c) p" using home_less [OF pos] by auto
    let ?es = "es[p := e]"
    have pc: "p < ?c" "\<not> is_live (es ! p)" and path: "probe_path es (home t ?c) (offset (home t ?c) p ?c)"
      using p(2) by (simp_all add: storable_def)
    have "entry_text h e \<notin> entry_text h ` set (lives es)" using Cons.prems(5) lv by auto
    then have no: "\<forall>j<?c. j \<noteq> p \<longrightarrow> is_live (es ! j) \<longrightarrow> entry_text h (es ! j) \<noteq> Some t"
      using lives_nth t by force
    have inv: "tab_inv h ?es"
      by (rule tab_inv_update [OF Cons.prems(1) pc(1)]) (use t path no True in \<open>auto simp: is_free_def\<close>)
    have cnt: "length (lives ?es) = Suc (length (lives es))"
      using card_lives_update [OF pc(1), of e] pc(2) True by simp
    have "set_mset (mset (lives ?es)) = set_mset (add_mset e (mset (lives es)))"
      using mset_lives_update [OF pc(1), of e] pc(2) True by simp
    then have st: "set (lives ?es) = insert e (set (lives es))" by simp
    have "\<exists>es'. rehash h rest ?es = Some es' \<and> length es' = length ?es \<and> tab_inv h es' \<and>
      set (lives es') = set (lives ?es) \<union> set (lives rest) \<and> length (lives es') = length (lives ?es) + length (lives rest)"
      by (rule Cons.IH [OF inv]) (use Cons.prems(2-5) lv cnt st in auto)
    then show ?thesis using True hash hm p(1) st cnt lv by auto
  qed
qed

end
