(* ===== verification/Map_Interface.thy ===== *)
theory Map_Interface
  imports Prelude
begin

text \<open>
  The contract of a mutable map object with textual keys, as the runtime uses it for globals, scopes and
  script hashes. The operations return the changed object, in the option monad; \<open>room\<close> is the size up
  to which an insertion is promised to succeed. The lemmas of the locale are what its clients use.
\<close>

locale map_object =
  fixes invar :: "'s \<Rightarrow> bool"
    and room :: "'s \<Rightarrow> bool"
    and text_of :: "'k \<Rightarrow> string option"
    and abs_map :: "'s \<Rightarrow> string \<Rightarrow> 'v option"
    and set_op :: "'s \<Rightarrow> 'k \<Rightarrow> 'v \<Rightarrow> (bool \<times> 's) option"
    and get_op :: "'s \<Rightarrow> 'k \<Rightarrow> ('v \<times> 's) option"
    and delete_op :: "'s \<Rightarrow> 'k \<Rightarrow> (bool \<times> 's) option"
    and absent :: "'v"
  assumes set_law: "invar s \<Longrightarrow> room s \<Longrightarrow> text_of k = Some t \<Longrightarrow>
      \<exists>s'. set_op s k v = Some (True, s') \<and> invar s' \<and> abs_map s' = (abs_map s)(t \<mapsto> v)"
    and get_law: "invar s \<Longrightarrow> text_of k = Some t \<Longrightarrow>
      \<exists>s'. get_op s k = Some (case abs_map s t of None \<Rightarrow> absent | Some v \<Rightarrow> v, s') \<and> invar s' \<and> abs_map s' = abs_map s"
    and delete_law: "invar s \<Longrightarrow> text_of k = Some t \<Longrightarrow>
      \<exists>s'. delete_op s k = Some (t \<in> dom (abs_map s), s') \<and> invar s' \<and> abs_map s' = (abs_map s)(t := None)"
begin

lemma get_after_set:
  assumes "invar s" "room s" "text_of k = Some t" "text_of k' = Some t'" "set_op s k v = Some (b, s')"
  shows "b \<and> (\<exists>s''. get_op s' k' = Some (if t' = t then v else case abs_map s t' of None \<Rightarrow> absent | Some w \<Rightarrow> w, s''))"
proof -
  from set_law [OF assms(1-3), of v] assms(5) have s': "b" "invar s'" "abs_map s' = (abs_map s)(t \<mapsto> v)" by auto
  then show ?thesis using get_law [OF s'(2) assms(4)] by auto
qed

lemma get_after_delete:
  assumes "invar s" "text_of k = Some t" "text_of k' = Some t'" "delete_op s k = Some (b, s')"
  shows "\<exists>s''. get_op s' k' = Some (if t' = t then absent else case abs_map s t' of None \<Rightarrow> absent | Some w \<Rightarrow> w, s'')"
proof -
  from delete_law [OF assms(1,2)] assms(4) have s': "invar s'" "abs_map s' = (abs_map s)(t := None)" by auto
  then show ?thesis using get_law [OF s'(1) assms(3)] by auto
qed

lemma get_after_get:
  assumes "invar s" "text_of k = Some t" "text_of k' = Some t'" "get_op s k = Some (v, s')"
  shows "\<exists>s''. get_op s' k' = Some (case abs_map s t' of None \<Rightarrow> absent | Some w \<Rightarrow> w, s'')"
  using get_law [OF assms(1,2)] get_law [OF _ assms(3), of s'] assms(4) by auto

end

end
