(* ===== verification/Hash_Props.thy ===== *)
theory Hash_Props
  imports Hash_Refine Map_Interface
begin

text \<open>
  The operations of the hash object refine those of a map from texts to values: the invariant of the
  object, the four operations, and the interpretation of the map interface.
\<close>

definition hash_inv :: "heap \<Rightarrow> obj_hash \<Rightarrow> bool" where
  "hash_inv h r \<longleftrightarrow> (ha_entries r = [] \<or> tab_inv h (ha_entries r)) \<and> ha_count r = int (length (lives (ha_entries r)))"

definition hash_map :: "heap \<Rightarrow> obj_hash \<Rightarrow> string \<Rightarrow> slp_value option" where
  "hash_map h r = tab_map h (ha_entries r)"

definition hash_room :: "obj_hash \<Rightarrow> bool" where
  "hash_room r \<longleftrightarrow> length (ha_entries r) \<le> 2 ^ 28"

lemma tab_map_Nil [simp]: "tab_map h [] = Map.empty"
  by (rule ext) (simp add: tab_map_def)

lemma tab_inv_empty: "table_size n \<Longrightarrow> tab_inv h (replicate n empty_entry)"
  by (auto simp: tab_inv_def lives_def is_live_def empty_entry_def)

lemma lives_empty: "lives (replicate n empty_entry) = []"
  by (simp add: lives_def is_live_def empty_entry_def)

lemma table_size_double: "table_size c \<Longrightarrow> c < 2 ^ 30 \<Longrightarrow> table_size (c * 2)"
proof -
  assume "table_size c" "c < 2 ^ 30"
  then obtain k where k: "c = 2 ^ k" "4 \<le> k" "k \<le> 30" by (auto simp: table_size_def)
  with \<open>c < 2 ^ 30\<close> have "k < 30" by (cases "k = 30") auto
  with k have "c * 2 = 2 ^ Suc k \<and> 4 \<le> Suc k \<and> Suc k \<le> 30" by simp
  then show ?thesis unfolding table_size_def by blast
qed

lemma hash_grow_ok:
  assumes inv: "hash_inv h r" and room: "length (ha_entries r) \<le> 2 ^ 29"
  shows "\<exists>es. hash_grow h r = Some (r\<lparr>ha_entries := es\<rparr>) \<and> tab_inv h es \<and> tab_map h es = hash_map h r \<and>
    length (lives es) = length (lives (ha_entries r)) \<and>
    length es = (if ha_entries r = [] then 16 else 2 * length (ha_entries r))"
proof -
  let ?old = "ha_entries r"
  define n where "n = (if length ?old = 0 then 16 else length ?old * 2)"
  let ?new = "replicate n empty_entry"
  have ts: "table_size n"
  proof (cases "?old = []")
    case True
    have "table_size 16" unfolding table_size_def by (rule exI [of _ 4]) simp
    with True show ?thesis by (simp add: n_def)
  next
    case False
    then have "table_size (length ?old)" using inv by (simp add: hash_inv_def tab_inv_def)
    from table_size_double [OF this] room False show ?thesis by (simp add: n_def)
  qed
  have "length (lives ?old) \<le> length ?old" by (simp add: lives_def)
  moreover have "length ?old < n" by (simp add: n_def)
  ultimately have cnt: "length (lives ?new) + length (lives ?old) < length ?new" by (simp add: lives_empty)
  have old: "(\<forall>e\<in>set (lives ?old). entry_text h e \<noteq> None) \<and> distinct (map (entry_text h) (lives ?old))"
    using inv by (auto simp: hash_inv_def tab_inv_def lives_def)
  from rehash_ok [OF tab_inv_empty [OF ts] cnt conjunct1 [OF old] conjunct2 [OF old]]
  obtain es where es: "rehash h ?old ?new = Some es" "length es = n" "tab_inv h es"
    "set (lives es) = set (lives ?old)" "length (lives es) = length (lives ?old)"
    by (auto simp: lives_empty)
  have "tab_map h es = hash_map h r"
  proof (cases "?old = []")
    case True
    then have "lives es = []" using es(5) by (simp add: lives_def)
    then have "tab_map h es t \<noteq> Some v" for t v using tab_map_Some [OF es(3)] by simp
    then have "tab_map h es = Map.empty" by (metis ext not_Some_eq)
    then show ?thesis using True by (simp add: hash_map_def)
  next
    case False
    then have "tab_inv h ?old" using inv by (simp add: hash_inv_def)
    then show ?thesis unfolding hash_map_def
      by (intro tab_map_eqI) (simp add: tab_map_Some es(3,4))
  qed
  moreover have "\<not> INT32_MAX < int n" using room by (simp add: n_def)
  then have "hash_grow h r = Some (r\<lparr>ha_entries := es\<rparr>)"
    using es(1) by (simp add: hash_grow_def Let_def n_def)
  ultimately show ?thesis using es by (auto simp: n_def)
qed

lemma grow_if_ok:
  assumes "hash_inv h r" "length (ha_entries r) \<le> 2 ^ 29"
  shows "\<exists>r'. grow_if c h r = Some r' \<and> hash_inv h r' \<and> hash_map h r' = hash_map h r \<and> ha_count r' = ha_count r \<and>
    (\<not> c \<longrightarrow> r' = r) \<and> (c \<longrightarrow> length (ha_entries r') = (if ha_entries r = [] then 16 else 2 * length (ha_entries r)))"
proof (cases c)
  case True
  with hash_grow_ok [OF assms] assms(1) show ?thesis
    by (auto simp: grow_if_def hash_inv_def hash_map_def)
next
  case False
  with assms(1) show ?thesis by (simp add: grow_if_def)
qed

text \<open>The slot of a key that is in the table, and what its home and probe path are.\<close>

lemma find_key_ok:
  assumes inv: "hash_inv h r" and key: "key_text h k = Some t"
  shows "\<exists>p. find_key h r k = Some p \<and>
    (case p of None \<Rightarrow> hash_map h r t = None
     | Some i \<Rightarrow> i < length (ha_entries r) \<and> is_live (ha_entries r ! i) \<and> entry_text h (ha_entries r ! i) = Some t \<and>
         hash_map h r t = Some (he_value (ha_entries r ! i)))"
proof (cases "ha_entries r = []")
  case True
  then show ?thesis by (simp add: find_key_def hash_map_def)
next
  case False
  let ?es = "ha_entries r" and ?c = "length (ha_entries r)"
  have ti: "tab_inv h ?es" using inv False by (simp add: hash_inv_def)
  then have ts: "table_size ?c" and pos: "0 < ?c" using tab_inv_pos by (auto simp: tab_inv_def)
  have sl: "slot (slp_hash_string t) ?c = home t ?c" using slot_mod [OF ts] by (simp add: home_def)
  have fk: "find_key h r k = probe_find h ?es k ?c (home t ?c)"
    using False slp_hash_value_text [OF key] sl by (simp add: find_key_def)
  show ?thesis
  proof (cases "\<exists>i<?c. is_live (?es ! i) \<and> entry_text h (?es ! i) = Some t")
    case True
    then obtain i where i: "i < ?c" "is_live (?es ! i)" "entry_text h (?es ! i) = Some t" by blast
    then have "probe_path ?es (home t ?c) (offset (home t ?c) i ?c)" using ti by (simp add: tab_inv_def)
    from probe_find_hit [OF ti key i home_less [OF pos] this, of 0 ?c] offset_less [OF pos]
    have "find_key h r k = Some (Some i)" using fk home_less [OF pos] by simp
    then show ?thesis using i tab_map_at [OF ti i] by (simp add: hash_map_def)
  next
    case False
    then have "probe_find h ?es k ?c (home t ?c) = Some None"
      by (intro probe_find_miss [OF ti key]) (use home_less [OF pos] in auto)
    then show ?thesis using fk False tab_map_None by (auto simp: hash_map_def)
  qed
qed

lemma replace_entry_ok:
  assumes inv: "hash_inv h r" and i: "i < length (ha_entries r)" "is_live (ha_entries r ! i)"
    and e: "he_key e = he_key (ha_entries r ! i)" "entry_text h e = Some t"
    and r': "ha_entries r' = (ha_entries r)[i := e]" "ha_count r' = ha_count r"
  shows "hash_inv h r' \<and> hash_map h r' = (hash_map h r)(t \<mapsto> he_value e)"
proof -
  let ?es = "ha_entries r"
  have ti: "tab_inv h ?es" using inv i(1) by (auto simp: hash_inv_def)
  have lv: "is_live e" using e(1) i(2) by (simp add: is_live_def)
  have old: "entry_text h (?es ! i) = Some t" using e by (simp add: entry_text_def)
  have "tab_inv h (?es[i := e])"
  proof (rule tab_inv_update [OF ti i(1)])
    show "\<not> is_free e" using lv by (simp add: is_free_def)
    have "probe_path ?es (home t (length ?es)) (offset (home t (length ?es)) i (length ?es))"
      using ti i old unfolding tab_inv_def by blast
    moreover have "entry_text h (?es ! j) \<noteq> Some t" if "j < length ?es" "j \<noteq> i" "is_live (?es ! j)" for j
      using tab_inv_unique [OF ti that(1) i(1) that(3) i(2)] that(2) old by auto
    ultimately show "\<exists>t. entry_text h e = Some t \<and> probe_path ?es (home t (length ?es)) (offset (home t (length ?es)) i (length ?es)) \<and>
      (\<forall>j<length ?es. j \<noteq> i \<longrightarrow> is_live (?es ! j) \<longrightarrow> entry_text h (?es ! j) \<noteq> Some t)"
      using e(2) by blast
  qed
  moreover from this have "tab_map h (?es[i := e]) = (tab_map h ?es)(t \<mapsto> he_value e)"
    by (intro tab_map_update_live [OF ti _ i(1) lv e(2)]) (simp_all add: old)
  moreover have "length (lives (?es[i := e])) = length (lives ?es)"
    using card_lives_update [OF i(1), of e] i(2) lv by simp
  ultimately show ?thesis using inv r' by (simp add: hash_inv_def hash_map_def)
qed

lemma store_entry_ok:
  assumes inv: "hash_inv h r" and p: "storable (ha_entries r) (home t (length (ha_entries r))) p"
    and key: "key_text h k = Some t" "k \<noteq> VNull" and no: "hash_map h r t = None"
  shows "hash_inv h (store_entry p k v r) \<and> hash_map h (store_entry p k v r) = (hash_map h r)(t \<mapsto> v)"
proof -
  let ?es = "ha_entries r"
  let ?e = "\<lparr>he_key = k, he_value = v, he_sequence = ha_next_sequence r + 1\<rparr>"
  have pc: "p < length ?es" "\<not> is_live (?es ! p)"
    and path: "probe_path ?es (home t (length ?es)) (offset (home t (length ?es)) p (length ?es))"
    using p by (simp_all add: storable_def)
  have ti: "tab_inv h ?es" using inv pc(1) by (auto simp: hash_inv_def)
  have lv: "is_live ?e" and et: "entry_text h ?e = Some t" using key by (simp_all add: is_live_def entry_text_def)
  have "tab_inv h (?es[p := ?e])"
    by (rule tab_inv_update [OF ti pc(1)])
       (use lv et path no in \<open>auto simp: is_free_def hash_map_def tab_map_None\<close>)
  moreover from this have "tab_map h (?es[p := ?e]) = (tab_map h ?es)(t \<mapsto> v)"
    using tab_map_update_live [OF ti _ pc(1) lv et] pc(2) by simp
  moreover have "length (lives (?es[p := ?e])) = Suc (length (lives ?es))"
    using card_lives_update [OF pc(1), of ?e] pc(2) lv by simp
  ultimately show ?thesis using inv by (simp add: hash_inv_def hash_map_def store_entry_def)
qed

subsection \<open>The operations\<close>

lemma hash_set_body:
  assumes inv: "hash_inv h r" and key: "key_text h k = Some t" "k \<noteq> VNull"
    and cap: "length (lives (ha_entries r)) < length (ha_entries r)"
  shows "\<exists>p. probe_set h (ha_entries r) k (length (ha_entries r)) (home t (length (ha_entries r))) None = Some p \<and>
    (case p of
       Key_at i \<Rightarrow> i < length (ha_entries r) \<and> is_live (ha_entries r ! i) \<and> entry_text h (ha_entries r ! i) = Some t
     | Vacant i \<Rightarrow> hash_map h r t = None \<and> storable (ha_entries r) (home t (length (ha_entries r))) i
     | Exhausted (Some i) \<Rightarrow> hash_map h r t = None \<and> storable (ha_entries r) (home t (length (ha_entries r))) i
     | Exhausted None \<Rightarrow> False)"
proof -
  let ?es = "ha_entries r" and ?c = "length (ha_entries r)"
  have ti: "tab_inv h ?es" using inv cap by (auto simp: hash_inv_def)
  have pos: "0 < ?c" using cap by linarith
  show ?thesis
  proof (cases "\<exists>i<?c. is_live (?es ! i) \<and> entry_text h (?es ! i) = Some t")
    case True
    then obtain i where i: "i < ?c" "is_live (?es ! i)" "entry_text h (?es ! i) = Some t" by blast
    then have "probe_path ?es (home t ?c) (offset (home t ?c) i ?c)" using ti unfolding tab_inv_def by blast
    from probe_set_hit [OF ti key(1) i home_less [OF pos] this, of 0 ?c None] offset_less [OF pos]
    show ?thesis using i home_less [OF pos] by simp
  next
    case False
    then have none: "hash_map h r t = None" by (auto simp: hash_map_def tab_map_None)
    from probe_set_miss [OF ti key(1) _ home_less [OF pos, of t], of 0 ?c None] False
    obtain p where p: "probe_set h ?es k ?c (home t ?c) None = Some p" "set_slot ?es (home t ?c) p"
      using home_less [OF pos] by (auto simp: probe_path_def)
    have "p \<noteq> Exhausted None"
    proof
      assume "p = Exhausted None"
      with p(2) have all: "j < ?c \<Longrightarrow> is_live (?es ! ((home t ?c + j) mod ?c))" for j by (simp add: set_slot_def)
      obtain d where d: "d < ?c" "\<not> is_live (?es ! d)" using ex_dead_slot [OF cap] by blast
      from all [OF offset_less [OF pos, of "home t ?c" d]] d offset_reaches [OF home_less [OF pos] d(1)]
      show False by simp
    qed
    then show ?thesis using p none by (auto simp: set_slot_def split: set_probe.splits option.splits)
  qed
qed

lemma hash_set_ok:
  assumes inv: "hash_inv h r" and room: "hash_room r" and key: "key_text h k = Some t" "k \<noteq> VNull"
  shows "\<exists>r'. slp_obj_hash_set h r k v = Some (True, r') \<and> hash_inv h r' \<and> hash_map h r' = (hash_map h r)(t \<mapsto> v)"
proof -
  let ?c1 = "int (length (ha_entries r)) * 3 div 4 < ha_count r + 1"
  have le: "length (ha_entries r) \<le> 2 ^ 28" using room by (simp add: hash_room_def)
  have lv: "length (lives (ha_entries r)) \<le> length (ha_entries r)" by (simp add: lives_def)
  have cnt: "ha_count r = int (length (lives (ha_entries r)))" using inv by (simp add: hash_inv_def)
  from grow_if_ok [OF inv, of ?c1] le obtain r1 where r1: "grow_if ?c1 h r = Some r1" "hash_inv h r1"
    "hash_map h r1 = hash_map h r" "ha_count r1 = ha_count r" "\<not> ?c1 \<Longrightarrow> r1 = r"
    "?c1 \<Longrightarrow> length (ha_entries r1) = (if ha_entries r = [] then 16 else 2 * length (ha_entries r))" by auto
  have cnt1: "length (lives (ha_entries r1)) = length (lives (ha_entries r))"
    using r1(2,4) cnt by (simp add: hash_inv_def)
  have cap: "length (lives (ha_entries r1)) < length (ha_entries r1)"
  proof (cases ?c1)
    case True
    note l1 = r1(6) [OF True]
    show ?thesis
    proof (cases "ha_entries r = []")
      case True
      then show ?thesis using l1 cnt1 lv by simp
    next
      case False
      then have "0 < length (ha_entries r)" by simp
      moreover have "length (ha_entries r1) = 2 * length (ha_entries r)" using l1 False by simp
      ultimately show ?thesis using cnt1 lv by linarith
    qed
  next
    case False
    then show ?thesis using r1(5) cnt by simp
  qed
  then have ti: "tab_inv h (ha_entries r1)" and g2: "grow_if (length (ha_entries r1) = 0) h r1 = Some r1"
    using r1(2) by (auto simp: hash_inv_def grow_if_def)
  have sl: "slot (slp_hash_string t) (length (ha_entries r1)) = home t (length (ha_entries r1))"
    using ti slot_mod by (simp add: tab_inv_def home_def)
  have eq: "slp_obj_hash_set h r k v =
    do { p \<leftarrow> probe_set h (ha_entries r1) k (length (ha_entries r1)) (home t (length (ha_entries r1))) None;
         (case p of
            Key_at idx \<Rightarrow> Some (True, r1\<lparr>ha_entries := (ha_entries r1)[idx := (ha_entries r1 ! idx)\<lparr>he_value := v\<rparr>]\<rparr>)
          | Vacant idx \<Rightarrow> Some (True, store_entry idx k v r1)
          | Exhausted (Some t) \<Rightarrow> Some (True, store_entry t k v r1)
          | Exhausted None \<Rightarrow> do { r \<leftarrow> hash_grow h r1; slp_obj_hash_set h r k v }) }"
    using le r1(1) g2 slp_hash_value_text [OF key(1)] sl by (subst slp_obj_hash_set.simps) simp
  obtain p where p: "probe_set h (ha_entries r1) k (length (ha_entries r1)) (home t (length (ha_entries r1))) None = Some p"
    "case p of
       Key_at i \<Rightarrow> i < length (ha_entries r1) \<and> is_live (ha_entries r1 ! i) \<and> entry_text h (ha_entries r1 ! i) = Some t
     | Vacant i \<Rightarrow> hash_map h r1 t = None \<and> storable (ha_entries r1) (home t (length (ha_entries r1))) i
     | Exhausted (Some i) \<Rightarrow> hash_map h r1 t = None \<and> storable (ha_entries r1) (home t (length (ha_entries r1))) i
     | Exhausted None \<Rightarrow> False"
    using hash_set_body [OF r1(2) key cap] by blast
  show ?thesis
  proof (cases p)
    case (Key_at i)
    let ?e = "(ha_entries r1 ! i)\<lparr>he_value := v\<rparr>"
    have "entry_text h ?e = Some t" using p(2) Key_at by (simp add: entry_text_def)
    then show ?thesis
      using replace_entry_ok [OF r1(2), of i ?e t "r1\<lparr>ha_entries := (ha_entries r1)[i := ?e]\<rparr>"] p Key_at eq r1(3) by simp
  next
    case (Vacant i)
    then show ?thesis using store_entry_ok [OF r1(2) _ key, of i v] p eq r1(3) by simp
  next
    case (Exhausted q)
    then show ?thesis using store_entry_ok [OF r1(2) _ key, of _ v] p eq r1(3) by (cases q) auto
  qed
qed

lemma hash_get_ok:
  assumes inv: "hash_inv h r" and key: "key_text h k = Some t"
  shows "\<exists>r'. slp_obj_hash_get_raw h r k = Some (case hash_map h r t of None \<Rightarrow> VNull | Some v \<Rightarrow> v, r') \<and>
    hash_inv h r' \<and> hash_map h r' = hash_map h r"
proof -
  obtain p where p: "find_key h r k = Some p" "case p of None \<Rightarrow> hash_map h r t = None
     | Some i \<Rightarrow> i < length (ha_entries r) \<and> is_live (ha_entries r ! i) \<and> entry_text h (ha_entries r ! i) = Some t \<and>
         hash_map h r t = Some (he_value (ha_entries r ! i))"
    using find_key_ok [OF inv key] by blast
  show ?thesis
  proof (cases p)
    case None
    with p inv show ?thesis by (simp add: slp_obj_hash_get_raw_def)
  next
    case (Some i)
    let ?e = "(ha_entries r ! i)\<lparr>he_sequence := ha_next_sequence r + 1\<rparr>"
    let ?r = "r\<lparr>ha_entries := (ha_entries r)[i := ?e], ha_next_sequence := ha_next_sequence r + 1\<rparr>"
    have "entry_text h ?e = Some t" using p(2) Some by (simp add: entry_text_def)
    then have "hash_inv h ?r \<and> hash_map h ?r = (hash_map h r)(t \<mapsto> he_value (ha_entries r ! i))"
      using replace_entry_ok [OF inv, of i ?e t ?r] p Some by simp
    moreover have "(hash_map h r)(t \<mapsto> he_value (ha_entries r ! i)) = hash_map h r"
      using p(2) Some by (auto simp: fun_eq_iff)
    ultimately show ?thesis using p Some inv by (simp add: slp_obj_hash_get_raw_def Let_def)
  qed
qed

lemma hash_contains_ok:
  assumes "hash_inv h r" "key_text h k = Some t"
  shows "slp_obj_hash_contains h r k = Some (t \<in> dom (hash_map h r))"
  using find_key_ok [OF assms] by (auto simp: slp_obj_hash_contains_def split: option.splits)

lemma hash_delete_ok:
  assumes inv: "hash_inv h r" and key: "key_text h k = Some t"
  shows "\<exists>r'. slp_obj_hash_delete h r k = Some (t \<in> dom (hash_map h r), r') \<and>
    hash_inv h r' \<and> hash_map h r' = (hash_map h r)(t := None)"
proof -
  obtain p where p: "find_key h r k = Some p" "case p of None \<Rightarrow> hash_map h r t = None
     | Some i \<Rightarrow> i < length (ha_entries r) \<and> is_live (ha_entries r ! i) \<and> entry_text h (ha_entries r ! i) = Some t \<and>
         hash_map h r t = Some (he_value (ha_entries r ! i))"
    using find_key_ok [OF inv key] by blast
  show ?thesis
  proof (cases p)
    case None
    with p inv show ?thesis by (auto simp: slp_obj_hash_delete_def)
  next
    case (Some i)
    let ?es = "ha_entries r"
    have i: "i < length ?es" "is_live (?es ! i)" "entry_text h (?es ! i) = Some t" using p(2) Some by auto
    have ti: "tab_inv h ?es" using inv i(1) by (auto simp: hash_inv_def)
    have dead: "\<not> is_live tombstone_entry" "\<not> is_free tombstone_entry"
      by (simp_all add: is_live_def is_free_def is_tombstone_def tombstone_entry_def)
    have ti': "tab_inv h (?es[i := tombstone_entry])" by (rule tab_inv_update [OF ti i(1)]) (use dead in auto)
    have "tab_map h (?es[i := tombstone_entry]) = (tab_map h ?es)(t := None)"
      by (rule tab_map_update_dead [OF ti ti' i(1) dead(1) i(2,3)])
    moreover have "Suc (length (lives (?es[i := tombstone_entry]))) = length (lives ?es)"
      using card_lives_update [OF i(1), of tombstone_entry] i(2) dead by simp
    ultimately show ?thesis
      using p Some ti' inv by (auto simp: slp_obj_hash_delete_def hash_inv_def hash_map_def)
  qed
qed

text \<open>A script key never is the null value: the virtual machine turns every key into a string first.\<close>

definition script_key :: "heap \<Rightarrow> slp_value \<Rightarrow> string option" where
  "script_key h k = (if k = VNull then None else key_text h k)"

interpretation hash: map_object "hash_inv h" hash_room "script_key h" "hash_map h" "slp_obj_hash_set h"
  "slp_obj_hash_get_raw h" "slp_obj_hash_delete h" VNull for h
proof unfold_locales
  fix s k t v assume "hash_inv h s" "hash_room s" "script_key h k = Some t"
  then show "\<exists>s'. slp_obj_hash_set h s k v = Some (True, s') \<and> hash_inv h s' \<and> hash_map h s' = (hash_map h s)(t \<mapsto> v)"
    by (intro hash_set_ok) (auto simp: script_key_def split: if_splits)
next
  fix s k t assume "hash_inv h s" "script_key h k = Some t"
  then show "\<exists>s'. slp_obj_hash_get_raw h s k = Some (case hash_map h s t of None \<Rightarrow> VNull | Some v \<Rightarrow> v, s') \<and>
      hash_inv h s' \<and> hash_map h s' = hash_map h s"
    by (intro hash_get_ok) (auto simp: script_key_def split: if_splits)
next
  fix s k t assume "hash_inv h s" "script_key h k = Some t"
  then show "\<exists>s'. slp_obj_hash_delete h s k = Some (t \<in> dom (hash_map h s), s') \<and>
      hash_inv h s' \<and> hash_map h s' = (hash_map h s)(t := None)"
    by (intro hash_delete_ok) (auto simp: script_key_def split: if_splits)
qed

end
