(* ===== verification/Hash_Order.thy ===== *)
theory Hash_Order
  imports Hash_Props Value_Props
begin

text \<open>
  The ordered enumeration of a hash, and the properties of the hash object. An enumeration index is the
  rank of a live entry in the order of the table: by sequence in the two ordered modes, by bucket and
  then by descending sequence in the mode that mimics a Java hash map.
\<close>

definition precedes :: "obj_hash \<Rightarrow> (nat \<Rightarrow> nat) \<Rightarrow> nat \<Rightarrow> nat \<Rightarrow> bool" where
  "precedes r b i j =
     (if ha_order_mode r \<noteq> 0 then he_sequence (ha_entries r ! i) < he_sequence (ha_entries r ! j)
      else if b i \<noteq> b j then b i < b j else he_sequence (ha_entries r ! j) < he_sequence (ha_entries r ! i))"

definition live_slots :: "obj_hash \<Rightarrow> nat set" where
  "live_slots r = {i. i < length (ha_entries r) \<and> is_live (ha_entries r ! i)}"

definition rank :: "obj_hash \<Rightarrow> (nat \<Rightarrow> nat) \<Rightarrow> nat \<Rightarrow> nat" where
  "rank r b i = card {j \<in> live_slots r. precedes r b j i}"

lemma finite_live_slots [simp]: "finite (live_slots r)"
  by (simp add: live_slots_def)

lemma precedes_trans: "precedes r b i j \<Longrightarrow> precedes r b j k \<Longrightarrow> precedes r b i k"
  by (auto simp: precedes_def split: if_splits)

lemma precedes_irrefl [simp]: "\<not> precedes r b i i"
  by (simp add: precedes_def)

text \<open>The sequence numbers of the live entries are distinct: each insertion takes a new one.\<close>

definition distinct_sequences :: "obj_hash \<Rightarrow> bool" where
  "distinct_sequences r \<longleftrightarrow> distinct (map he_sequence (lives (ha_entries r)))"

lemma precedes_total:
  assumes "distinct_sequences r" "i \<in> live_slots r" "j \<in> live_slots r" "i \<noteq> j"
  shows "precedes r b i j \<or> precedes r b j i"
proof -
  have "he_sequence (ha_entries r ! i) \<noteq> he_sequence (ha_entries r ! j)"
    using assms distinct_filter_index [of he_sequence is_live "ha_entries r" i j]
    by (auto simp: distinct_sequences_def lives_def live_slots_def)
  then show ?thesis by (auto simp: precedes_def)
qed

lemma rank_less:
  assumes "i \<in> live_slots r" "precedes r b i j" shows "rank r b i < rank r b j"
  unfolding rank_def
proof (rule psubset_card_mono)
  show "{k \<in> live_slots r. precedes r b k i} \<subset> {k \<in> live_slots r. precedes r b k j}"
  proof
    show "{k \<in> live_slots r. precedes r b k i} \<subseteq> {k \<in> live_slots r. precedes r b k j}"
      using assms precedes_trans [of r b _ i j] by auto
    have "i \<in> {k \<in> live_slots r. precedes r b k j}" "i \<notin> {k \<in> live_slots r. precedes r b k i}" using assms by simp_all
    then show "{k \<in> live_slots r. precedes r b k i} \<noteq> {k \<in> live_slots r. precedes r b k j}" by blast
  qed
qed simp

lemma rank_bij:
  assumes "distinct_sequences r"
  shows "bij_betw (rank r b) (live_slots r) {..<card (live_slots r)}"
proof -
  have inj: "inj_on (rank r b) (live_slots r)"
    using precedes_total [OF assms] rank_less by (intro inj_onI) (metis less_irrefl)
  have "rank r b i < card (live_slots r)" if "i \<in> live_slots r" for i
    unfolding rank_def by (rule psubset_card_mono) (use that precedes_irrefl [of r b i] in \<open>simp, blast\<close>)
  then have "rank r b ` live_slots r \<subseteq> {..<card (live_slots r)}" by auto
  moreover have "card (rank r b ` live_slots r) = card {..<card (live_slots r)}" using card_image [OF inj] by simp
  ultimately have "rank r b ` live_slots r = {..<card (live_slots r)}" by (intro card_subset_eq) auto
  with inj show ?thesis by (simp add: bij_betw_def)
qed

lemma card_live_slots: "card (live_slots r) = length (lives (ha_entries r))"
proof -
  have "lives (ha_entries r) = map ((!) (ha_entries r)) (filter (\<lambda>i. is_live (ha_entries r ! i)) [0..<length (ha_entries r)])"
    unfolding lives_def by (metis (no_types, lifting) comp_apply filter_cong filter_map map_nth)
  moreover have "live_slots r = set (filter (\<lambda>i. is_live (ha_entries r ! i)) [0..<length (ha_entries r)])"
    by (auto simp: live_slots_def)
  moreover have "distinct (filter (\<lambda>i. is_live (ha_entries r ! i)) [0..<length (ha_entries r)])" by simp
  ultimately show ?thesis by (metis distinct_card length_map)
qed

text \<open>The bucket of a slot, and the counting loops of the code.\<close>

definition bucket :: "heap \<Rightarrow> obj_hash \<Rightarrow> nat \<Rightarrow> nat" where
  "bucket h r i = slot (the (slp_hash_value h (he_key (ha_entries r ! i)))) (length (ha_entries r))"

definition texts_known :: "heap \<Rightarrow> obj_hash \<Rightarrow> bool" where
  "texts_known h r \<longleftrightarrow> (\<forall>i\<in>live_slots r. \<exists>v. slp_hash_value h (he_key (ha_entries r ! i)) = Some v)"

lemma hash_inv_texts: "hash_inv h r \<Longrightarrow> texts_known h r"
  using tab_inv_text [of h "ha_entries r"] slp_hash_value_text
  by (fastforce simp: hash_inv_def texts_known_def live_slots_def entry_text_def)

lemma hash_entry_precedes_eq:
  "texts_known h r \<Longrightarrow> i \<in> live_slots r \<Longrightarrow> j \<in> live_slots r \<Longrightarrow>
   hash_entry_precedes h r i j = Some (precedes r (bucket h r) i j)"
proof -
  assume "texts_known h r" "i \<in> live_slots r" "j \<in> live_slots r"
  then obtain v w where "slp_hash_value h (he_key (ha_entries r ! i)) = Some v"
    "slp_hash_value h (he_key (ha_entries r ! j)) = Some w" unfolding texts_known_def by blast
  then show ?thesis by (simp add: hash_entry_precedes_def precedes_def bucket_def Let_def)
qed

lemma count_preceding_eq:
  assumes "texts_known h r" "c \<in> live_slots r"
  shows "set is \<subseteq> {..<length (ha_entries r)} \<Longrightarrow>
    count_preceding h r c is = Some (length (filter (\<lambda>i. i \<in> live_slots r \<and> precedes r (bucket h r) i c) is))"
proof (induction "is")
  case Nil
  then show ?case by simp
next
  case (Cons i "is")
  then show ?case
    using hash_entry_precedes_eq [OF assms(1) _ assms(2), of i] by (auto simp: live_slots_def)
qed

lemma count_preceding_rank:
  assumes "texts_known h r" "c \<in> live_slots r"
  shows "count_preceding h r c [0..<length (ha_entries r)] = Some (rank r (bucket h r) c)"
proof -
  let ?f = "filter (\<lambda>i. i \<in> live_slots r \<and> precedes r (bucket h r) i c) [0..<length (ha_entries r)]"
  have "set ?f = {j \<in> live_slots r. precedes r (bucket h r) j c}" by (auto simp: live_slots_def)
  then have "rank r (bucket h r) c = card (set ?f)" by (simp add: rank_def)
  also have "... = length ?f" by (rule distinct_card) simp
  finally show ?thesis using count_preceding_eq [OF assms, of "[0..<length (ha_entries r)]"]
    by (simp add: atLeast0LessThan)
qed

lemma find_rank_eq:
  assumes "texts_known h r" "i \<in> live_slots r"
    and unique: "\<And>j. j \<in> live_slots r \<Longrightarrow> rank r (bucket h r) j = rank r (bucket h r) i \<Longrightarrow> j = i"
  shows "set is \<subseteq> {..<length (ha_entries r)} \<Longrightarrow> i \<in> set is \<Longrightarrow>
    find_rank h r (int (rank r (bucket h r) i)) is = Some (int i)"
proof (induction "is")
  case Nil
  then show ?case by simp
next
  case (Cons k "is")
  show ?case
  proof (cases "is_live (ha_entries r ! k)")
    case True
    then have k: "k \<in> live_slots r" using Cons.prems by (simp add: live_slots_def)
    then show ?thesis using True Cons unique [OF k] count_preceding_rank [OF assms(1) k] by auto
  next
    case False
    then have "k \<noteq> i" using assms(2) by (auto simp: live_slots_def)
    then show ?thesis using False Cons by simp
  qed
qed

lemma ordered_index_rank:
  assumes "hash_inv h r" "distinct_sequences r" "i \<in> live_slots r"
  shows "slp_obj_hash_ordered_index h r (int (rank r (bucket h r) i)) = Some (int i)"
proof -
  have bij: "bij_betw (rank r (bucket h r)) (live_slots r) {..<card (live_slots r)}"
    by (rule rank_bij [OF assms(2)])
  then have "rank r (bucket h r) i < card (live_slots r)" using assms(3) by (auto simp: bij_betw_def)
  then have "\<not> (int (rank r (bucket h r) i) < 0 \<or> ha_count r \<le> int (rank r (bucket h r) i))"
    using assms(1) card_live_slots [of r] by (simp add: hash_inv_def)
  moreover have "find_rank h r (int (rank r (bucket h r) i)) [0..<length (ha_entries r)] = Some (int i)"
    by (rule find_rank_eq [OF hash_inv_texts [OF assms(1)] assms(3)])
       (use bij assms(3) in \<open>auto simp: bij_betw_def live_slots_def dest: inj_onD\<close>)
  ultimately show ?thesis by (simp add: slp_obj_hash_ordered_index_def)
qed

subsection \<open>Properties\<close>

text \<open>C2: a hash is a map from the texts of its keys: an insertion returns true and keeps the invariant, and
  a lookup after it gives the new value for a key with that text and what the table held before for any
  other. Probing, tombstone reuse and growth are inside the operation.\<close>

theorem hash_set_get:
  assumes "hash_inv h r" "hash_room r" "script_key h k = Some t" "script_key h k' = Some t'"
  shows "\<exists>r' r''. slp_obj_hash_set h r k v = Some (True, r') \<and> hash_inv h r' \<and>
    hash_map h r' = (hash_map h r)(t \<mapsto> v) \<and>
    slp_obj_hash_get_raw h r' k' =
      Some (if t' = t then v else case hash_map h r t' of None \<Rightarrow> VNull | Some w \<Rightarrow> w, r'')"
proof -
  obtain r' where r': "slp_obj_hash_set h r k v = Some (True, r')" "hash_inv h r'" "hash_map h r' = (hash_map h r)(t \<mapsto> v)"
    using hash.set_law [OF assms(1-3)] by blast
  with hash.get_after_set [OF assms r'(1)] show ?thesis by blast
qed

lemma script_key_string: "h a = Some (OString s) \<Longrightarrow> script_key h (VObj a) = Some (s_chars s)"
  by (simp add: script_key_def key_text_Some repr_string)

lemma new_hash_inv:
  "hash_inv h \<lparr>ha_entries = [], ha_count = 0, ha_next_sequence = s, ha_order_mode = m, ha_miss_policy = p, ha_removal_policy = q\<rparr>"
  by (simp add: hash_inv_def lives_def)

theorem hash_set_get_witness:
  "\<exists>r' r''. slp_obj_hash_set [0 \<mapsto> OString \<lparr>s_chars = ''a'', s_hash = 0\<rparr>]
      \<lparr>ha_entries = [], ha_count = 0, ha_next_sequence = 0, ha_order_mode = 0, ha_miss_policy = None,
       ha_removal_policy = None\<rparr> (VObj 0) (VBool False) = Some (True, r') \<and>
    slp_obj_hash_get_raw [0 \<mapsto> OString \<lparr>s_chars = ''a'', s_hash = 0\<rparr>] r' (VObj 0) = Some (VBool False, r'')"
proof -
  let ?h = "[0 \<mapsto> OString \<lparr>s_chars = ''a'', s_hash = 0\<rparr>]"
  let ?r = "\<lparr>ha_entries = [], ha_count = 0, ha_next_sequence = 0, ha_order_mode = 0, ha_miss_policy = None,
       ha_removal_policy = None\<rparr>"
  have "hash_room ?r" "script_key ?h (VObj 0) = Some ''a''"
    by (simp_all add: hash_room_def script_key_string)
  from hash_set_get [OF new_hash_inv this this(2), of "VBool False"] show ?thesis by (simp only: if_True simp_thms) blast
qed

text \<open>A table of one entry, for the witnesses.\<close>

definition one_entry_hash :: obj_hash where
  "one_entry_hash =
     \<lparr>ha_entries = (replicate 16 empty_entry)[home ''a'' 16 := \<lparr>he_key = VObj 0, he_value = TRUE_VAL, he_sequence = 1\<rparr>],
      ha_count = 1, ha_next_sequence = 1, ha_order_mode = 0, ha_miss_policy = None, ha_removal_policy = None\<rparr>"

lemma one_entry_hash_facts:
  shows "hash_inv [0 \<mapsto> OString \<lparr>s_chars = ''a'', s_hash = 0\<rparr>] one_entry_hash"
    and "hash_map [0 \<mapsto> OString \<lparr>s_chars = ''a'', s_hash = 0\<rparr>] one_entry_hash ''a'' = Some TRUE_VAL"
    and "distinct_sequences one_entry_hash"
proof -
  let ?h = "[0 \<mapsto> OString \<lparr>s_chars = ''a'', s_hash = 0\<rparr>]"
  let ?e = "\<lparr>he_key = VObj 0, he_value = TRUE_VAL, he_sequence = 1\<rparr>" and ?p = "home ''a'' 16"
  let ?es = "(replicate 16 empty_entry)[?p := ?e]"
  have ts: "table_size 16" unfolding table_size_def by (rule exI [of _ 4]) simp
  have p: "?p < 16" by (rule home_less) simp
  have live: "is_live ?e" "entry_text ?h ?e = Some ''a''"
    by (simp_all add: is_live_def entry_text_def key_text_Some repr_string)
  have dead: "\<not> is_live empty_entry" by (simp add: is_live_def empty_entry_def)
  have ti: "tab_inv ?h ?es"
    by (rule tab_inv_update [OF tab_inv_empty [OF ts]])
       (use p live in \<open>auto simp: probe_path_def offset_def is_free_def is_live_def empty_entry_def\<close>)
  have len: "length (lives ?es) = 1"
    using card_lives_update [of ?p "replicate 16 empty_entry" ?e] p live(1) dead by (simp add: lives_empty)
  then show "hash_inv ?h one_entry_hash" using ti by (simp add: hash_inv_def one_entry_hash_def)
  show "hash_map ?h one_entry_hash ''a'' = Some TRUE_VAL"
    using tab_map_at [OF ti, of ?p "''a''"] p live by (simp add: hash_map_def one_entry_hash_def)
  show "distinct_sequences one_entry_hash"
    using len by (simp add: distinct_sequences_def one_entry_hash_def length_Suc_conv) auto
qed

text \<open>C10: a deletion reports whether the key was there, keeps the invariant, and a lookup after it gives null
  for a key with that text and the old value for any other: the tombstone does not cut a probe chain.\<close>

theorem hash_delete_get:
  assumes "hash_inv h r" "script_key h k = Some t" "script_key h k' = Some t'"
  shows "\<exists>r' r''. slp_obj_hash_delete h r k = Some (t \<in> dom (hash_map h r), r') \<and> hash_inv h r' \<and>
    slp_obj_hash_contains h r' k = Some False \<and>
    slp_obj_hash_get_raw h r' k' =
      Some (if t' = t then VNull else case hash_map h r t' of None \<Rightarrow> VNull | Some w \<Rightarrow> w, r'')"
proof -
  obtain r' where r': "slp_obj_hash_delete h r k = Some (t \<in> dom (hash_map h r), r')" "hash_inv h r'"
    "hash_map h r' = (hash_map h r)(t := None)"
    using hash.delete_law [OF assms(1,2)] by blast
  have "key_text h k = Some t" using assms(2) by (simp add: script_key_def split: if_splits)
  then have "slp_obj_hash_contains h r' k = Some False" using hash_contains_ok [OF r'(2)] r'(3) by simp
  with r' hash.get_after_delete [OF assms r'(1)] show ?thesis by blast
qed

theorem hash_delete_get_witness:
  "\<exists>r' r''. slp_obj_hash_delete [0 \<mapsto> OString \<lparr>s_chars = ''a'', s_hash = 0\<rparr>] one_entry_hash (VObj 0) = Some (True, r') \<and>
    slp_obj_hash_get_raw [0 \<mapsto> OString \<lparr>s_chars = ''a'', s_hash = 0\<rparr>] r' (VObj 0) = Some (VNull, r'')"
proof -
  let ?h = "[0 \<mapsto> OString \<lparr>s_chars = ''a'', s_hash = 0\<rparr>]"
  have "script_key ?h (VObj 0) = Some ''a''" by (simp add: script_key_string)
  from hash_delete_get [OF one_entry_hash_facts(1) this this] show ?thesis
    using one_entry_hash_facts(2) by auto
qed

text \<open>C21: the ordered enumeration visits every live entry once, in order: the indices 0 to \<open>count - 1\<close> are
  mapped one to one onto the occupied slots, and an earlier index is an entry that precedes.\<close>

theorem hash_enumeration:
  assumes "hash_inv h r" "distinct_sequences r"
  shows "bij_betw (\<lambda>n. nat (the (slp_obj_hash_ordered_index h r (int n)))) {..<nat (ha_count r)} (live_slots r) \<and>
    (\<forall>i\<in>live_slots r. \<forall>j\<in>live_slots r. \<forall>m n. slp_obj_hash_ordered_index h r (int m) = Some (int i) \<longrightarrow>
       slp_obj_hash_ordered_index h r (int n) = Some (int j) \<longrightarrow> m < n \<longrightarrow> hash_entry_precedes h r i j = Some True)"
proof -
  let ?rank = "rank r (bucket h r)" and ?ix = "\<lambda>n. nat (the (slp_obj_hash_ordered_index h r (int n)))"
  have bij: "bij_betw ?rank (live_slots r) {..<card (live_slots r)}" by (rule rank_bij [OF assms(2)])
  have cnt: "nat (ha_count r) = card (live_slots r)"
    using assms(1) card_live_slots [of r] by (simp add: hash_inv_def)
  have inv: "?ix (?rank i) = i" if "i \<in> live_slots r" for i using ordered_index_rank [OF assms that] by simp
  have "bij_betw ?ix {..<card (live_slots r)} (live_slots r)"
  proof (rule bij_betw_byWitness [where f' = ?rank])
    have img: "?rank ` live_slots r = {..<card (live_slots r)}" using bij by (simp add: bij_betw_def)
    then show "?rank ` live_slots r \<subseteq> {..<card (live_slots r)}" by simp
    show "\<forall>i\<in>live_slots r. ?ix (?rank i) = i" using inv by simp
    have "\<exists>i\<in>live_slots r. n = ?rank i" if "n < card (live_slots r)" for n using img that by blast
    then show "\<forall>n\<in>{..<card (live_slots r)}. ?rank (?ix n) = n" "?ix ` {..<card (live_slots r)} \<subseteq> live_slots r"
      using inv by fastforce+
  qed
  moreover have "hash_entry_precedes h r i j = Some True"
    if ij: "i \<in> live_slots r" "j \<in> live_slots r" and m: "slp_obj_hash_ordered_index h r (int m) = Some (int i)"
      and n: "slp_obj_hash_ordered_index h r (int n) = Some (int j)" and "m < n" for i j m n
  proof -
    have range: "k < card (live_slots r)" if a: "slp_obj_hash_ordered_index h r (int k) = Some (int l)" for k l
      using a cnt by (auto simp: slp_obj_hash_ordered_index_def split: if_splits)
    have rk: "?rank l = k" if a: "slp_obj_hash_ordered_index h r (int k) = Some (int l)" for k l
    proof -
      obtain l' where l': "l' \<in> live_slots r" "?rank l' = k" using bij range [OF a] unfolding bij_betw_def by (metis imageE lessThan_iff)
      then show ?thesis using ordered_index_rank [OF assms l'(1)] a by simp
    qed
    have "\<not> precedes r (bucket h r) j i" using rank_less [OF ij(2), of "bucket h r" i] rk [OF m] rk [OF n] \<open>m < n\<close> by auto
    moreover have "i \<noteq> j" using rk [OF m] rk [OF n] \<open>m < n\<close> by auto
    ultimately have "precedes r (bucket h r) i j" using precedes_total [OF assms(2) ij] by blast
    then show ?thesis using hash_entry_precedes_eq [OF hash_inv_texts [OF assms(1)] ij] by simp
  qed
  ultimately show ?thesis unfolding cnt by blast
qed

theorem hash_enumeration_witness:
  "bij_betw (\<lambda>n. nat (the (slp_obj_hash_ordered_index [0 \<mapsto> OString \<lparr>s_chars = ''a'', s_hash = 0\<rparr>] one_entry_hash (int n))))
     {..<1} (live_slots one_entry_hash)"
  using hash_enumeration [OF one_entry_hash_facts(1,3)] by (simp add: one_entry_hash_def)

end
