(* ===== verification/Arrays.thy ===== *)
theory Arrays
  imports Values
begin

text \<open>
  The array object of \<^verbatim>\<open>src/slp_value.c\<close>: a growing buffer with a count, a mutation version, and the view
  arrays that \<open>sublist\<close> makes, which keep a window of their own and mirror every mutation into their
  source. The operations work on the heap, since a view mutates its source and a cell is mutated in
  place. A signed overflow of an index or a capacity has no result.
\<close>

subsection \<open>The buffer\<close>

definition int_ok :: "int \<Rightarrow> bool" where
  "int_ok n \<longleftrightarrow> INT32_MIN \<le> n \<and> n \<le> INT32_MAX"

text \<open>\<open>while (new_cap < needed) new_cap *= 2\<close>\<close>

function double_until :: "int \<Rightarrow> int \<Rightarrow> int option" where
  "double_until c needed =
     (if c < needed then (if c \<le> 0 \<or> \<not> int_ok (c * 2) then None else double_until (c * 2) needed) else Some c)"
  by pat_completeness auto
termination
  by (relation "measure (\<lambda>(c, needed). nat (INT32_MAX - c))") (auto simp: int_ok_def)

declare double_until.simps [simp del]

definition ensure_array_capacity :: "int \<Rightarrow> obj_array \<Rightarrow> obj_array option" where
  "ensure_array_capacity needed arr =
     (let capacity = int (length (ar_elements arr))
      in if needed \<le> capacity then Some arr
         else if \<not> int_ok (capacity * 2) then None
         else do { new_cap \<leftarrow> double_until (if capacity = 0 then 8 else capacity * 2) needed;
                   Some (arr\<lparr>ar_elements := ar_elements arr @ replicate (nat (new_cap - capacity)) VNull\<rparr>) })"

text \<open>\<open>for (i = count; i > index; i--) elements[i] = elements[i - 1]\<close>, and the loop that closes a gap.\<close>

fun shift_up :: "'a list \<Rightarrow> nat \<Rightarrow> nat \<Rightarrow> 'a list" where
  "shift_up es index i = (if index < i then shift_up (es[i := es ! (i - 1)]) index (i - 1) else es)"

function shift_down :: "'a list \<Rightarrow> nat \<Rightarrow> nat \<Rightarrow> 'a list" where
  "shift_down es i count = (if i < count then shift_down (es[i - 1 := es ! i]) (Suc i) count else es)"
  by pat_completeness auto
termination
  by (relation "measure (\<lambda>(es, i, count). count - i)") auto

declare shift_up.simps [simp del] shift_down.simps [simp del]

subsection \<open>Insertion\<close>

definition clamp_index :: "int \<Rightarrow> int \<Rightarrow> int" where
  "clamp_index count index = (let i = (if index < 0 then 0 else index) in if count < i then count else i)"

definition insert_here :: "int \<Rightarrow> slp_value \<Rightarrow> bool \<Rightarrow> obj_array \<Rightarrow> obj_array option" where
  "insert_here index v from_child_view arr =
     (if \<not> int_ok (ar_count arr + 1) then None
      else do {
        arr \<leftarrow> ensure_array_capacity (ar_count arr + 1) arr;
        let es = (shift_up (ar_elements arr) (nat index) (nat (ar_count arr)))[nat index := v];
        Some (arr\<lparr>ar_elements := es, ar_count := ar_count arr + 1, ar_version := ar_version arr + 1,
                  ar_view_invalid := (ar_view_invalid arr \<or> (from_child_view \<and> ar_view_source arr \<noteq> None))\<rparr>) })"

definition note_source_version :: "addr \<Rightarrow> addr \<Rightarrow> heap \<Rightarrow> heap option" where
  "note_source_version a src h =
     do { s \<leftarrow> get_array h src; arr \<leftarrow> get_array h a;
          Some (h(a \<mapsto> OArray (arr\<lparr>ar_view_source_version := ar_version s\<rparr>))) }"

partial_function (option) array_insert_internal :: "heap \<Rightarrow> addr \<Rightarrow> int \<Rightarrow> slp_value \<Rightarrow> bool \<Rightarrow> heap option" where
  [code]: "array_insert_internal h a index v from_child_view =
     do { arr \<leftarrow> get_array h a;
          let index = clamp_index (ar_count arr) index;
          arr \<leftarrow> insert_here index v from_child_view arr;
          let h = h(a \<mapsto> OArray arr);
          (case ar_view_source arr of
             None \<Rightarrow> Some h
           | Some src \<Rightarrow>
               if \<not> int_ok (ar_view_offset arr + index) then None
               else do { h \<leftarrow> array_insert_internal h src (ar_view_offset arr + index) v True;
                         if from_child_view then Some h else note_source_version a src h }) }"

definition slp_obj_array_insert :: "heap \<Rightarrow> addr \<Rightarrow> int \<Rightarrow> slp_value \<Rightarrow> heap option" where
  "slp_obj_array_insert h a index v = array_insert_internal h a index v False"

definition slp_obj_array_push :: "heap \<Rightarrow> addr \<Rightarrow> slp_value \<Rightarrow> heap option" where
  "slp_obj_array_push h a v = do { arr \<leftarrow> get_array h a; slp_obj_array_insert h a (ar_count arr) v }"

subsection \<open>Removal\<close>

definition remove_here :: "int \<Rightarrow> bool \<Rightarrow> obj_array \<Rightarrow> obj_array" where
  "remove_here index from_child_view arr =
     arr\<lparr>ar_elements := shift_down (ar_elements arr) (nat index + 1) (nat (ar_count arr)),
         ar_count := ar_count arr - 1, ar_version := ar_version arr + 1,
         ar_view_invalid := (ar_view_invalid arr \<or> (from_child_view \<and> ar_view_source arr \<noteq> None))\<rparr>"

partial_function (option) array_remove_internal :: "heap \<Rightarrow> addr \<Rightarrow> int \<Rightarrow> bool \<Rightarrow> (slp_value \<times> heap) option" where
  [code]: "array_remove_internal h a index from_child_view =
     do { arr \<leftarrow> get_array h a;
          if index < 0 \<or> ar_count arr \<le> index then Some (VNull, h)
          else if int (length (ar_elements arr)) < ar_count arr then None
          else do {
            let result = ar_elements arr ! nat index;
            let arr = remove_here index from_child_view arr;
            let h = h(a \<mapsto> OArray arr);
            (case ar_view_source arr of
               None \<Rightarrow> Some (result, h)
             | Some src \<Rightarrow>
                 if \<not> int_ok (ar_view_offset arr + index) then None
                 else do { (_, h) \<leftarrow> array_remove_internal h src (ar_view_offset arr + index) True;
                           h \<leftarrow> (if from_child_view then Some h else note_source_version a src h);
                           Some (result, h) }) } }"

definition slp_obj_array_remove_at :: "heap \<Rightarrow> addr \<Rightarrow> int \<Rightarrow> (slp_value \<times> heap) option" where
  "slp_obj_array_remove_at h a index = array_remove_internal h a index False"

definition slp_obj_array_pop :: "heap \<Rightarrow> addr \<Rightarrow> (slp_value \<times> heap) option" where
  "slp_obj_array_pop h a = do { arr \<leftarrow> get_array h a; slp_obj_array_remove_at h a (ar_count arr - 1) }"

subsection \<open>Reading and writing an element\<close>

text \<open>The value a scalar cell holds; any other value is itself.\<close>

definition read_cell :: "heap \<Rightarrow> slp_value \<Rightarrow> slp_value option" where
  "read_cell h v =
     (case v of
        VObj c \<Rightarrow> (case h c of
                     None \<Rightarrow> None
                   | Some ob \<Rightarrow> Some (case ob of OScalarCell cell \<Rightarrow> sc_value cell | _ \<Rightarrow> v))
      | _ \<Rightarrow> Some v)"

definition slp_obj_array_get :: "heap \<Rightarrow> addr \<Rightarrow> int \<Rightarrow> slp_value option" where
  "slp_obj_array_get h a index =
     do { arr \<leftarrow> get_array h a;
          if index < 0 \<or> ar_count arr \<le> index then Some VNull
          else if int (length (ar_elements arr)) \<le> index then None
          else read_cell h (ar_elements arr ! nat index) }"

text \<open>The address of the cell that an element is, when it is one.\<close>

definition element_cell :: "heap \<Rightarrow> slp_value \<Rightarrow> ptr option" where
  "element_cell h v =
     (case v of
        VObj c \<Rightarrow> (case h c of
                     None \<Rightarrow> None
                   | Some ob \<Rightarrow> Some (case ob of OScalarCell _ \<Rightarrow> Some c | _ \<Rightarrow> None))
      | _ \<Rightarrow> Some None)"

definition store_in_cell :: "heap \<Rightarrow> addr \<Rightarrow> slp_value \<Rightarrow> heap option" where
  "store_in_cell h c v =
     (case h c of
        Some (OScalarCell cell) \<Rightarrow>
          do { assigned \<leftarrow> read_cell h v; Some (h(c \<mapsto> OScalarCell (cell\<lparr>sc_value := assigned\<rparr>))) }
      | _ \<Rightarrow> None)"

text \<open>The element itself: stored in the cell of an existing element, in the slot otherwise.\<close>

definition store_element :: "heap \<Rightarrow> addr \<Rightarrow> obj_array \<Rightarrow> int \<Rightarrow> slp_value \<Rightarrow> heap option" where
  "store_element h a arr index v =
     do { cell \<leftarrow> (if index < ar_count arr then element_cell h (ar_elements arr ! nat index) else Some None);
          (case cell of
             Some c \<Rightarrow> store_in_cell (h(a \<mapsto> OArray arr)) c v
           | None \<Rightarrow> Some (h(a \<mapsto> OArray (arr\<lparr>ar_elements := (ar_elements arr)[nat index := v]\<rparr>)))) }"

definition set_here :: "heap \<Rightarrow> addr \<Rightarrow> int \<Rightarrow> slp_value \<Rightarrow> bool \<Rightarrow> heap option" where
  "set_here h a index v from_child_view =
     do { arr \<leftarrow> get_array h a;
          if \<not> int_ok (index + 1) then None
          else do {
            arr \<leftarrow> ensure_array_capacity (index + 1) arr;
            h \<leftarrow> store_element h a arr index v;
            arr \<leftarrow> get_array h a;
            Some (h(a \<mapsto> OArray (arr\<lparr>ar_count := (if ar_count arr \<le> index then index + 1 else ar_count arr),
                    ar_version := ar_version arr + 1,
                    ar_view_invalid := (ar_view_invalid arr \<or> (from_child_view \<and> ar_view_source arr \<noteq> None))\<rparr>))) } }"

text \<open>The nulls a set past the end of a view inserts into the source.\<close>

fun insert_nulls :: "heap \<Rightarrow> addr \<Rightarrow> int \<Rightarrow> int list \<Rightarrow> heap option" where
  "insert_nulls h src offset [] = Some h"
| "insert_nulls h src offset (i # is) =
     (if \<not> int_ok (offset + i) then None
      else do { h \<leftarrow> array_insert_internal h src (offset + i) VNull True; insert_nulls h src offset is })"

partial_function (option) array_set_internal :: "heap \<Rightarrow> addr \<Rightarrow> int \<Rightarrow> slp_value \<Rightarrow> bool \<Rightarrow> heap option" where
  [code]: "array_set_internal h a index v from_child_view =
     (if index < 0 then Some h
      else do {
        arr \<leftarrow> get_array h a;
        let old_count = ar_count arr;
        h \<leftarrow> set_here h a index v from_child_view;
        (case ar_view_source arr of
           None \<Rightarrow> Some h
         | Some src \<Rightarrow>
             do { h \<leftarrow> insert_nulls h src (ar_view_offset arr) [old_count..index - 1];
                  h \<leftarrow> (if \<not> int_ok (ar_view_offset arr + index) then None
                        else if index < old_count then array_set_internal h src (ar_view_offset arr + index) v True
                        else array_insert_internal h src (ar_view_offset arr + index) v True);
                  if from_child_view then Some h else note_source_version a src h }) })"

definition slp_obj_array_set :: "heap \<Rightarrow> addr \<Rightarrow> int \<Rightarrow> slp_value \<Rightarrow> heap option" where
  "slp_obj_array_set h a index v = array_set_internal h a index v False"

subsection \<open>Views\<close>

text \<open>The loop of \<open>slp_obj_array_sync_view\<close>; the count and the source are read again at every step.\<close>

partial_function (option) sync_from :: "heap \<Rightarrow> addr \<Rightarrow> int \<Rightarrow> heap option" where
  [code]: "sync_from h a i =
     do { arr \<leftarrow> get_array h a;
          if i < ar_count arr then
            (case ar_view_source arr of
               None \<Rightarrow> None
             | Some src \<Rightarrow>
                 if \<not> int_ok (ar_view_offset arr + i) \<or> length (ar_elements arr) \<le> nat i then None
                 else do { h \<leftarrow> slp_obj_array_set h src (ar_view_offset arr + i) (ar_elements arr ! nat i);
                           sync_from h a (i + 1) })
          else Some h }"

definition slp_obj_array_sync_view :: "heap \<Rightarrow> addr \<Rightarrow> heap option" where
  "slp_obj_array_sync_view h a =
     do { arr \<leftarrow> get_array h a; if ar_view_source arr = None then Some h else sync_from h a 0 }"

definition slp_obj_array_view_is_valid :: "heap \<Rightarrow> ptr \<Rightarrow> bool option" where
  "slp_obj_array_view_is_valid h p =
     (case p of
        None \<Rightarrow> Some True
      | Some a \<Rightarrow>
          do { arr \<leftarrow> get_array h a;
               (case ar_view_source arr of
                  None \<Rightarrow> Some True
                | Some src \<Rightarrow>
                    if ar_view_invalid arr then Some False
                    else do { s \<leftarrow> get_array h src; Some (ar_view_source_version arr = ar_version s) }) })"

end
