(* ===== verification/Array_Props.thy ===== *)
theory Array_Props
  imports Arrays
begin

text \<open>
  The array object as a list: what insertion, removal and assignment do to the elements, the mirroring of
  a view into its source, and the slot that a removal leaves behind.
\<close>

definition array_ok :: "obj_array \<Rightarrow> bool" where
  "array_ok arr \<longleftrightarrow> 0 \<le> ar_count arr \<and> ar_count arr \<le> int (length (ar_elements arr))"

definition elems :: "obj_array \<Rightarrow> slp_value list" where
  "elems arr = take (nat (ar_count arr)) (ar_elements arr)"

lemma length_elems: "array_ok arr \<Longrightarrow> int (length (elems arr)) = ar_count arr"
  by (auto simp: array_ok_def elems_def min_def)

subsection \<open>The buffer\<close>

lemma double_until_ok:
  "0 < c \<Longrightarrow> needed \<le> 2 ^ 30 \<Longrightarrow> c \<le> 2 ^ 31 - 2 \<Longrightarrow> \<exists>d. double_until c needed = Some d \<and> needed \<le> d \<and> c \<le> d"
proof (induction c needed rule: double_until.induct)
  case (1 c needed)
  show ?case
  proof (cases "c < needed")
    case False
    then show ?thesis by (subst double_until.simps) simp
  next
    case True
    then have ok: "int_ok (c * 2)" using 1(2,3) by (simp add: int_ok_def)
    moreover have "\<exists>d. double_until (c * 2) needed = Some d \<and> needed \<le> d \<and> c * 2 \<le> d"
      using 1(1) True 1(2,3) ok by auto
    ultimately show ?thesis using True 1(2) by (subst double_until.simps) auto
  qed
qed

lemma ensure_ok:
  assumes "needed \<le> 2 ^ 30"
  shows "\<exists>n. ensure_array_capacity needed arr = Some (arr\<lparr>ar_elements := ar_elements arr @ replicate n VNull\<rparr>) \<and>
    needed \<le> int (length (ar_elements arr) + n)"
proof -
  let ?c = "int (length (ar_elements arr))"
  show ?thesis
  proof (cases "needed \<le> ?c")
    case True
    then show ?thesis by (intro exI [of _ 0]) (simp add: ensure_array_capacity_def)
  next
    case False
    define s where "s = (if ?c = 0 then 8 else ?c * 2)"
    have "0 < s" "s \<le> 2 ^ 31 - 2" "?c \<le> s" using False assms by (auto simp: s_def)
    then obtain d where d: "double_until s needed = Some d" "needed \<le> d" "s \<le> d"
      using double_until_ok [OF _ assms] by blast
    moreover have "int_ok (?c * 2)" using False assms by (simp add: int_ok_def)
    moreover have "needed \<le> int (length (ar_elements arr) + nat (d - ?c))" using d \<open>?c \<le> s\<close> by simp
    ultimately show ?thesis using False
      by (intro exI [of _ "nat (d - ?c)"]) (simp add: ensure_array_capacity_def s_def)
  qed
qed

lemma shift_up_nth:
  "i < length es \<Longrightarrow> length (shift_up es index i) = length es \<and>
   (\<forall>k<length es. shift_up es index i ! k = (if index < k \<and> k \<le> i then es ! (k - 1) else es ! k))"
proof (induction es index i rule: shift_up.induct)
  case (1 es index i)
  show ?case
  proof (cases "index < i")
    case False
    then show ?thesis by (subst (1 2) shift_up.simps) auto
  next
    case True
    let ?es = "es[i := es ! (i - 1)]"
    have "length (shift_up ?es index (i - 1)) = length ?es \<and>
      (\<forall>k<length ?es. shift_up ?es index (i - 1) ! k = (if index < k \<and> k \<le> i - 1 then ?es ! (k - 1) else ?es ! k))"
      using 1 True by simp
    then show ?thesis using True 1(2) by (subst (1 2) shift_up.simps) (auto simp: nth_list_update)
  qed
qed

lemma shift_down_nth:
  "0 < i \<Longrightarrow> count \<le> length es \<Longrightarrow> length (shift_down es i count) = length es \<and>
   (\<forall>k<length es. shift_down es i count ! k = (if i - 1 \<le> k \<and> k + 1 < count then es ! (k + 1) else es ! k))"
proof (induction es i count rule: shift_down.induct)
  case (1 es i count)
  show ?case
  proof (cases "i < count")
    case False
    then show ?thesis by (subst (1 2) shift_down.simps) auto
  next
    case True
    let ?es = "es[i - 1 := es ! i]"
    have "length (shift_down ?es (Suc i) count) = length ?es \<and>
      (\<forall>k<length ?es. shift_down ?es (Suc i) count ! k = (if Suc i - 1 \<le> k \<and> k + 1 < count then ?es ! (k + 1) else ?es ! k))"
      using 1 True by simp
    then show ?thesis using True 1(2,3) by (subst (1 2) shift_down.simps) (auto simp: nth_list_update)
  qed
qed

lemma insert_elements:
  assumes "i \<le> n" "n < length es"
  shows "take (Suc n) ((shift_up es i n)[i := v]) = take i (take n es) @ v # drop i (take n es)"
proof (rule nth_equalityI)
  note s = shift_up_nth [OF assms(2), of i]
  show "length (take (Suc n) ((shift_up es i n)[i := v])) = length (take i (take n es) @ v # drop i (take n es))"
    using assms s by simp
  fix k assume "k < length (take (Suc n) ((shift_up es i n)[i := v]))"
  then have k: "k < Suc n" "k < length es" using s by auto
  then show "take (Suc n) ((shift_up es i n)[i := v]) ! k = (take i (take n es) @ v # drop i (take n es)) ! k"
  proof (cases "i < k")
    case True
    then obtain x where "k = Suc (i + x)" by (metis less_iff_Suc_add)
    then show ?thesis using assms s k by (simp add: nth_append)
  next
    case False
    then show ?thesis using assms s k by (cases "k = i") (simp_all add: nth_append)
  qed
qed

lemma remove_elements:
  assumes "i < n" "n \<le> length es"
  shows "take (n - 1) (shift_down es (Suc i) n) = take i (take n es) @ drop (Suc i) (take n es)"
proof (rule nth_equalityI)
  note s = shift_down_nth [of "Suc i" n es, OF _ assms(2)]
  show "length (take (n - 1) (shift_down es (Suc i) n)) = length (take i (take n es) @ drop (Suc i) (take n es))"
    using assms s by simp
  fix k assume "k < length (take (n - 1) (shift_down es (Suc i) n))"
  then have k: "k < n - 1" "k < length es" using s assms by auto
  then show "take (n - 1) (shift_down es (Suc i) n) ! k = (take i (take n es) @ drop (Suc i) (take n es)) ! k"
    using assms s by (auto simp: nth_append)
qed

subsection \<open>One object\<close>

lemma clamp_range: "0 \<le> count \<Longrightarrow> 0 \<le> clamp_index count i \<and> clamp_index count i \<le> count"
  by (simp add: clamp_index_def Let_def)

lemma insert_here_ok:
  assumes ok: "array_ok arr" and i: "0 \<le> i" "i \<le> ar_count arr" and room: "ar_count arr < 2 ^ 30"
  shows "\<exists>arr'. insert_here i v fc arr = Some arr' \<and> array_ok arr' \<and>
    elems arr' = take (nat i) (elems arr) @ v # drop (nat i) (elems arr) \<and>
    ar_count arr' = ar_count arr + 1 \<and> ar_version arr' = ar_version arr + 1 \<and>
    ar_view_source arr' = ar_view_source arr \<and> ar_view_offset arr' = ar_view_offset arr \<and>
    ar_view_source_version arr' = ar_view_source_version arr \<and>
    ar_view_invalid arr' = (ar_view_invalid arr \<or> (fc \<and> ar_view_source arr \<noteq> None))"
proof -
  obtain n where n: "ensure_array_capacity (ar_count arr + 1) arr = Some (arr\<lparr>ar_elements := ar_elements arr @ replicate n VNull\<rparr>)"
    "ar_count arr + 1 \<le> int (length (ar_elements arr) + n)"
    using ensure_ok [of "ar_count arr + 1" arr] room by auto
  let ?es = "ar_elements arr @ replicate n VNull" and ?c = "nat (ar_count arr)"
  have c: "nat i \<le> ?c" "?c < length ?es" using i n(2) ok by (auto simp: array_ok_def nat_less_iff)
  have suc: "nat (ar_count arr + 1) = Suc ?c" using ok by (simp add: array_ok_def nat_add_distrib)
  have "take ?c ?es = elems arr" using ok by (simp add: elems_def array_ok_def nat_le_iff)
  then have e: "take (Suc ?c) ((shift_up ?es (nat i) ?c)[nat i := v]) = take (nat i) (elems arr) @ v # drop (nat i) (elems arr)"
    using insert_elements [OF c, of v] by simp
  have len: "length (shift_up ?es (nat i) ?c) = length ?es" using shift_up_nth [OF c(2)] by simp
  have io: "int_ok (ar_count arr + 1)" using ok room by (simp add: int_ok_def array_ok_def)
  show ?thesis
    using n io ok e len by (simp add: insert_here_def Let_def array_ok_def elems_def suc)
qed

lemma remove_here_ok:
  assumes ok: "array_ok arr" and i: "0 \<le> i" "i < ar_count arr"
  shows "array_ok (remove_here i fc arr) \<and>
    elems (remove_here i fc arr) = take (nat i) (elems arr) @ drop (Suc (nat i)) (elems arr) \<and>
    ar_elements arr ! nat i = elems arr ! nat i"
proof -
  let ?c = "nat (ar_count arr)"
  have c: "nat i < ?c" "?c \<le> length (ar_elements arr)" using i ok by (auto simp: array_ok_def)
  have "nat (ar_count arr - 1) = ?c - 1" by simp
  moreover have "length (shift_down (ar_elements arr) (Suc (nat i)) ?c) = length (ar_elements arr)"
    using shift_down_nth [OF _ c(2), of "Suc (nat i)"] by simp
  ultimately show ?thesis
    using remove_elements [OF c] ok i c by (auto simp: remove_here_def array_ok_def elems_def)
qed

subsection \<open>An array that is not a view\<close>

text \<open>The array at an address is a list: the contract of a sequence object and its interpretation.\<close>

locale sequence_object =
  fixes invar :: "'s \<Rightarrow> bool"
    and abs_list :: "'s \<Rightarrow> 'v list"
    and room :: nat
    and insert_op :: "'s \<Rightarrow> int \<Rightarrow> 'v \<Rightarrow> 's option"
    and remove_op :: "'s \<Rightarrow> int \<Rightarrow> ('v \<times> 's) option"
  assumes insert_law: "invar s \<Longrightarrow> length (abs_list s) < room \<Longrightarrow> i \<le> length (abs_list s) \<Longrightarrow>
      \<exists>s'. insert_op s (int i) v = Some s' \<and> invar s' \<and> abs_list s' = take i (abs_list s) @ v # drop i (abs_list s)"
    and remove_law: "invar s \<Longrightarrow> i < length (abs_list s) \<Longrightarrow>
      \<exists>s'. remove_op s (int i) = Some (abs_list s ! i, s') \<and> invar s' \<and>
        abs_list s' = take i (abs_list s) @ drop (Suc i) (abs_list s)"
begin

lemma remove_after_insert:
  assumes "invar s" "length (abs_list s) < room" "i \<le> length (abs_list s)"
  shows "\<exists>s' s''. insert_op s (int i) v = Some s' \<and> remove_op s' (int i) = Some (v, s'') \<and> invar s'' \<and>
    abs_list s'' = abs_list s"
proof -
  obtain s' where s': "insert_op s (int i) v = Some s'" "invar s'" "abs_list s' = take i (abs_list s) @ v # drop i (abs_list s)"
    using insert_law [OF assms] by blast
  have i: "i < length (abs_list s')" "abs_list s' ! i = v"
    using s'(3) assms(3) by (simp_all add: nth_append)
  have "take i (abs_list s') @ drop (Suc i) (abs_list s') = abs_list s" using s'(3) assms(3) by simp
  with remove_law [OF s'(2) i(1)] i(2) s'(1) show ?thesis by auto
qed

fun insert_all :: "'v list \<Rightarrow> 's \<Rightarrow> 's option" where
  "insert_all [] s = Some s"
| "insert_all (v # vs) s = do { s \<leftarrow> insert_op s (int (length (abs_list s))) v; insert_all vs s }"

lemma insert_all_appends:
  "invar s \<Longrightarrow> length (abs_list s) + length vs \<le> room \<Longrightarrow>
   \<exists>s'. insert_all vs s = Some s' \<and> invar s' \<and> abs_list s' = abs_list s @ vs"
proof (induction vs arbitrary: s)
  case (Cons v vs)
  then obtain s' where s': "insert_op s (int (length (abs_list s))) v = Some s'" "invar s'" "abs_list s' = abs_list s @ [v]"
    using insert_law [of s "length (abs_list s)" v] by auto
  with Cons.IH [of s'] Cons.prems show ?case by auto
qed simp

end

definition plain_array :: "addr \<Rightarrow> heap \<Rightarrow> bool" where
  "plain_array a h \<longleftrightarrow> (\<exists>arr. get_array h a = Some arr \<and> array_ok arr \<and> ar_view_source arr = None)"

definition array_list :: "addr \<Rightarrow> heap \<Rightarrow> slp_value list" where
  "array_list a h = (case get_array h a of None \<Rightarrow> [] | Some arr \<Rightarrow> elems arr)"

lemma insert_plain:
  assumes "get_array h a = Some arr" "array_ok arr" "ar_view_source arr = None" "ar_count arr < 2 ^ 30"
    "0 \<le> i" "i \<le> ar_count arr"
  shows "\<exists>arr'. array_insert_internal h a i v fc = Some (h(a \<mapsto> OArray arr')) \<and> array_ok arr' \<and>
    ar_view_source arr' = None \<and> ar_version arr' = ar_version arr + 1 \<and> ar_count arr' = ar_count arr + 1 \<and>
    elems arr' = take (nat i) (elems arr) @ v # drop (nat i) (elems arr)"
proof -
  have c: "clamp_index (ar_count arr) i = i" using assms(5,6) by (simp add: clamp_index_def)
  obtain arr' where "insert_here i v fc arr = Some arr'" "array_ok arr'" "ar_view_source arr' = None"
    "ar_version arr' = ar_version arr + 1" "ar_count arr' = ar_count arr + 1"
    "elems arr' = take (nat i) (elems arr) @ v # drop (nat i) (elems arr)"
    using insert_here_ok [OF assms(2,5,6,4), of v fc] assms(3) by auto
  moreover from this have "array_insert_internal h a i v fc = Some (h(a \<mapsto> OArray arr'))"
    using assms(1) c by (subst array_insert_internal.simps) (simp add: Let_def)
  ultimately show ?thesis by blast
qed

lemma remove_plain:
  assumes "get_array h a = Some arr" "array_ok arr" "ar_view_source arr = None" "0 \<le> i" "i < ar_count arr"
  shows "array_remove_internal h a i fc = Some (elems arr ! nat i, h(a \<mapsto> OArray (remove_here i fc arr)))"
  using assms remove_here_ok [OF assms(2,4,5), of fc]
  by (subst array_remove_internal.simps) (simp add: Let_def array_ok_def remove_here_def)

lemma get_array_upd [simp]: "get_array (h(a \<mapsto> OArray arr)) b = (if b = a then Some arr else get_array h b)"
  by (simp add: get_array_def)

interpretation arr: sequence_object "plain_array a" "array_list a" "2 ^ 30" "\<lambda>h i v. slp_obj_array_insert h a i v"
  "\<lambda>h i. slp_obj_array_remove_at h a i" for a
proof unfold_locales
  fix h i v assume a: "plain_array a h" "length (array_list a h) < 2 ^ 30" "i \<le> length (array_list a h)"
  then obtain arr where arr: "get_array h a = Some arr" "array_ok arr" "ar_view_source arr = None"
    by (auto simp: plain_array_def)
  have l: "array_list a h = elems arr" using arr(1) by (simp add: array_list_def)
  have "int (length (elems arr)) < 2 ^ 30" "int i \<le> int (length (elems arr))" using a(2,3) l by simp_all
  then have "ar_count arr < 2 ^ 30" "int i \<le> ar_count arr" using length_elems [OF arr(2)] by simp_all
  from insert_plain [OF arr this(1) _ this(2), of v False]
  show "\<exists>h'. slp_obj_array_insert h a (int i) v = Some h' \<and> plain_array a h' \<and>
      array_list a h' = take i (array_list a h) @ v # drop i (array_list a h)"
    by (auto simp: slp_obj_array_insert_def plain_array_def array_list_def l arr(1))
next
  fix h i assume a: "plain_array a h" "i < length (array_list a h)"
  then obtain arr where arr: "get_array h a = Some arr" "array_ok arr" "ar_view_source arr = None"
    by (auto simp: plain_array_def)
  have l: "array_list a h = elems arr" using arr(1) by (simp add: array_list_def)
  have i: "int i < ar_count arr" using a(2) l length_elems [OF arr(2)] by simp
  have "ar_view_source (remove_here (int i) False arr) = None" using arr(3) by (simp add: remove_here_def)
  then show "\<exists>h'. slp_obj_array_remove_at h a (int i) = Some (array_list a h ! i, h') \<and> plain_array a h' \<and>
      array_list a h' = take i (array_list a h) @ drop (Suc i) (array_list a h)"
    using remove_plain [OF arr _ i, of False] remove_here_ok [OF arr(2) _ i, of False]
    by (simp add: slp_obj_array_remove_at_def plain_array_def array_list_def l arr(1))
qed

end
