(* ===== verification/Array_Views.thy ===== *)
theory Array_Views
  imports Array_Props
begin

text \<open>
  The properties of the array object: list behaviour, assignment through cells, views that stay in step
  with their source, and the slot a removal leaves behind.
\<close>

subsection \<open>Assignment\<close>

lemma ensure_same: "needed \<le> int (length (ar_elements arr)) \<Longrightarrow> ensure_array_capacity needed arr = Some arr"
  by (simp add: ensure_array_capacity_def)

lemma set_past_end:
  assumes arr: "get_array h a = Some arr" "array_ok arr" "ar_view_source arr = None"
    and i: "ar_count arr \<le> i" "i < 2 ^ 30"
  shows "\<exists>h' n. slp_obj_array_set h a i v = Some h' \<and> plain_array a h' \<and>
    array_list a h' = take (nat i) (ar_elements arr @ replicate n VNull) @ [v]"
proof -
  have c0: "0 \<le> ar_count arr" using arr(2) by (simp add: array_ok_def)
  obtain n where n: "ensure_array_capacity (i + 1) arr = Some (arr\<lparr>ar_elements := ar_elements arr @ replicate n VNull\<rparr>)"
    "i + 1 \<le> int (length (ar_elements arr) + n)"
    using ensure_ok [of "i + 1" arr] i(2) by auto
  let ?es = "ar_elements arr @ replicate n VNull"
  let ?arr = "arr\<lparr>ar_elements := ?es[nat i := v], ar_count := i + 1, ar_version := ar_version arr + 1\<rparr>"
  have len: "nat i < length ?es" using n(2) i c0 by (simp add: nat_less_iff)
  have io: "int_ok (i + 1)" using i c0 by (simp add: int_ok_def)
  have "set_here h a i v False = Some (h(a \<mapsto> OArray ?arr))"
    using arr n(1) io i(1) by (simp add: set_here_def store_element_def)
  then have set: "slp_obj_array_set h a i v = Some (h(a \<mapsto> OArray ?arr))"
    using arr i c0 unfolding slp_obj_array_set_def by (subst array_set_internal.simps) (simp add: Let_def)
  have "nat (i + 1) = Suc (nat i)" using i c0 by simp
  then have "take (nat (i + 1)) (?es[nat i := v]) = take (nat i) ?es @ [v]"
    using len by (simp add: take_Suc_conv_app_nth del: append_take_drop_id)
  then have "elems ?arr = take (nat i) ?es @ [v]" by (simp add: elems_def)
  moreover have "array_ok ?arr" using n(2) i c0 by (simp add: array_ok_def)
  ultimately show ?thesis using set arr(3) by (auto simp: plain_array_def array_list_def)
qed

lemma set_get:
  assumes arr: "get_array h a = Some arr" "array_ok arr" "ar_view_source arr = None"
    and i: "0 \<le> i" "i < ar_count arr" "i < INT32_MAX"
    and cell: "element_cell h (ar_elements arr ! nat i) = Some c" and v: "read_cell h v = Some w"
  shows "\<exists>h'. slp_obj_array_set h a i v = Some h' \<and> slp_obj_array_get h' a i = Some w \<and>
    array_list a h' = (if c = None then (array_list a h)[nat i := v] else array_list a h)"
proof -
  have len: "i + 1 \<le> int (length (ar_elements arr))" "nat i < length (ar_elements arr)" "nat i < nat (ar_count arr)"
    using i arr(2) by (auto simp: array_ok_def)
  have io: "int_ok (i + 1)" using i by (simp add: int_ok_def)
  note ens = ensure_same [OF len(1)]
  show ?thesis
  proof (cases c)
    case None
    let ?arr = "arr\<lparr>ar_elements := (ar_elements arr)[nat i := v], ar_version := ar_version arr + 1\<rparr>"
    let ?h = "h(a \<mapsto> OArray ?arr)"
    have "set_here h a i v False = Some ?h"
      using arr io ens i cell None by (simp add: set_here_def store_element_def)
    then have set: "slp_obj_array_set h a i v = Some ?h"
      using arr i unfolding slp_obj_array_set_def by (subst array_set_internal.simps) (simp add: Let_def)
    have "read_cell ?h v = Some w"
      using v arr(1) by (auto simp: read_cell_def get_array_Some split: slp_value.splits option.splits if_splits obj.splits)
    then have "slp_obj_array_get ?h a i = Some w" using i len by (simp add: slp_obj_array_get_def)
    moreover have "array_list a ?h = (array_list a h)[nat i := v]"
      using arr(1) len(3) by (simp add: array_list_def elems_def take_update_swap)
    ultimately show ?thesis using set None by auto
  next
    case (Some k)
    have el: "ar_elements arr ! nat i = VObj k"
      using cell Some by (auto simp: element_cell_def split: slp_value.splits option.splits obj.splits)
    obtain rc where rc: "h k = Some (OScalarCell rc)"
      using cell Some el by (auto simp: element_cell_def split: option.splits obj.splits)
    have ka: "k \<noteq> a" using rc arr(1) by (auto simp: get_array_Some)
    let ?arr = "arr\<lparr>ar_version := ar_version arr + 1\<rparr>"
    let ?h = "h(k \<mapsto> OScalarCell (rc\<lparr>sc_value := w\<rparr>), a \<mapsto> OArray ?arr)"
    have same: "h(a \<mapsto> OArray arr) = h" using arr(1) by (auto simp: get_array_Some)
    have "store_element h a arr i v = Some (h(k \<mapsto> OScalarCell (rc\<lparr>sc_value := w\<rparr>)))"
      using i cell Some rc v by (simp add: store_element_def store_in_cell_def same)
    moreover have "get_array (h(k \<mapsto> OScalarCell (rc\<lparr>sc_value := w\<rparr>))) a = Some arr"
      using arr(1) ka by (simp add: get_array_def)
    ultimately have "set_here h a i v False = Some ?h"
      using arr io ens i by (simp add: set_here_def)
    then have set: "slp_obj_array_set h a i v = Some ?h"
      using arr i unfolding slp_obj_array_set_def by (subst array_set_internal.simps) (simp add: Let_def)
    have "slp_obj_array_get ?h a i = Some w"
      using i len ka el by (simp add: slp_obj_array_get_def read_cell_def)
    then show ?thesis using set Some arr(1) by (simp add: array_list_def elems_def)
  qed
qed

subsection \<open>Views\<close>

text \<open>A view in step with its source: it shows the window of the source at its offset, and is valid.\<close>

definition in_step :: "heap \<Rightarrow> addr \<Rightarrow> addr \<Rightarrow> bool" where
  "in_step h a s \<longleftrightarrow>
     (\<exists>view src. a \<noteq> s \<and> get_array h a = Some view \<and> get_array h s = Some src \<and> array_ok view \<and> array_ok src \<and>
        ar_view_source view = Some s \<and> ar_view_source src = None \<and> 0 \<le> ar_view_offset view \<and>
        ar_view_offset view + ar_count view \<le> ar_count src \<and>
        elems view = segment (nat (ar_view_offset view)) (nat (ar_view_offset view + ar_count view)) (elems src) \<and>
        \<not> ar_view_invalid view \<and> ar_view_source_version view = ar_version src)"

definition view_offset :: "heap \<Rightarrow> addr \<Rightarrow> nat" where
  "view_offset h a = (case get_array h a of None \<Rightarrow> 0 | Some arr \<Rightarrow> nat (ar_view_offset arr))"

lemma segment_prefix: "off \<le> length xs \<Longrightarrow> segment off (off + m) (take off xs @ ys) = take m ys"
  by (simp add: segment_def)

lemma segment_insert:
  assumes "off + n \<le> length xs" "k \<le> n"
  shows "segment off (off + Suc n) (take (off + k) xs @ v # drop (off + k) xs) =
    take k (segment off (off + n) xs) @ v # drop k (segment off (off + n) xs)"
proof -
  define ys where "ys = drop off xs"
  have "take (off + k) xs @ v # drop (off + k) xs = take off xs @ (take k ys @ v # drop k ys)"
    by (simp add: ys_def take_add [of off k] add.commute [of k off])
  moreover have "segment off (off + n) xs = take n ys" by (simp add: segment_def ys_def)
  moreover have "length ys \<ge> n" using assms(1) by (simp add: ys_def)
  then have "take (Suc n) (take k ys @ v # drop k ys) = take k (take n ys) @ v # drop k (take n ys)"
    using assms(2) by (simp add: min_def Suc_diff_le drop_take)
  ultimately show ?thesis using segment_prefix [of off xs "Suc n"] assms(1) by simp
qed

lemma segment_remove:
  assumes "off + n \<le> length xs" "k < n"
  shows "segment off (off + (n - 1)) (take (off + k) xs @ drop (Suc (off + k)) xs) =
    take k (segment off (off + n) xs) @ drop (Suc k) (segment off (off + n) xs)"
proof -
  define ys where "ys = drop off xs"
  have "take (off + k) xs @ drop (Suc (off + k)) xs = take off xs @ (take k ys @ drop (Suc k) ys)"
    by (simp add: ys_def take_add [of off k] add.commute [of k off])
  moreover have "segment off (off + n) xs = take n ys" by (simp add: segment_def ys_def)
  moreover have "length ys \<ge> n" using assms(1) by (simp add: ys_def)
  then have "take (n - 1) (take k ys @ drop (Suc k) ys) = take k (take n ys) @ drop (Suc k) (take n ys)"
  proof (cases "k = n - 1")
    case False
    then have "\<not> n - 1 \<le> k" using assms(2) by simp
    then show ?thesis using assms(2) \<open>length ys \<ge> n\<close> by (simp add: min_def drop_take)
  qed (use assms(2) in simp)
  ultimately show ?thesis using segment_prefix [of off xs "n - 1"] assms(1) by simp
qed

lemma view_insert:
  assumes step: "in_step h a s" and room: "length (array_list s h) < 2 ^ 30" "view_offset h a + length (array_list a h) < 2 ^ 30"
    and i: "i \<le> length (array_list a h)"
  shows "\<exists>h'. slp_obj_array_insert h a (int i) v = Some h' \<and> in_step h' a s \<and> view_offset h' a = view_offset h a \<and>
    array_list a h' = take i (array_list a h) @ v # drop i (array_list a h) \<and>
    array_list s h' = take (view_offset h a + i) (array_list s h) @ v # drop (view_offset h a + i) (array_list s h)"
proof -
  obtain view src where vs: "a \<noteq> s" "get_array h a = Some view" "get_array h s = Some src" "array_ok view" "array_ok src"
    "ar_view_source view = Some s" "ar_view_source src = None" "0 \<le> ar_view_offset view"
    "ar_view_offset view + ar_count view \<le> ar_count src"
    "elems view = segment (nat (ar_view_offset view)) (nat (ar_view_offset view + ar_count view)) (elems src)"
    "\<not> ar_view_invalid view" "ar_view_source_version view = ar_version src"
    using step by (auto simp: in_step_def)
  define off n where "off = nat (ar_view_offset view)" and "n = length (elems view)"
  have oi: "ar_view_offset view = int off" using vs(8) by (simp add: off_def)
  have cv: "ar_count view = int n" using length_elems [OF vs(4)] by (simp add: n_def)
  have cs: "ar_count src = int (length (elems src))" using length_elems [OF vs(5)] by simp
  have al: "array_list a h = elems view" "array_list s h = elems src" "view_offset h a = off"
    using vs(2,3) by (simp_all add: array_list_def view_offset_def off_def)
  have i': "i \<le> n" using i by (simp add: al n_def)
  have win: "elems view = segment off (off + n) (elems src)" using vs(10) by (simp add: oi cv flip: of_nat_add)
  have fit: "off + n \<le> length (elems src)" using vs(9) by (simp add: oi cv cs)
  have cvr: "ar_count view < 2 ^ 30" "ar_count src < 2 ^ 30" using room fit by (simp_all add: al cv cs)
  obtain view' where view': "insert_here (int i) v False view = Some view'" "array_ok view'"
    "elems view' = take i (elems view) @ v # drop i (elems view)" "ar_count view' = ar_count view + 1"
    "ar_view_source view' = Some s" "ar_view_offset view' = int off" "ar_view_invalid view' = ar_view_invalid view"
    using insert_here_ok [OF vs(4), of "int i" v False] i' cvr(1) by (auto simp: cv vs(6) oi)
  let ?h1 = "h(a \<mapsto> OArray view')"
  have src1: "get_array ?h1 s = Some src" using vs(1,3) by simp
  obtain src' where src': "array_insert_internal ?h1 s (int (off + i)) v True = Some (?h1(s \<mapsto> OArray src'))"
    "array_ok src'" "ar_view_source src' = None" "ar_version src' = ar_version src + 1" "ar_count src' = ar_count src + 1"
    "elems src' = take (off + i) (elems src) @ v # drop (off + i) (elems src)"
    using insert_plain [OF src1 vs(5,7) cvr(2), of "int (off + i)" v True] fit i' by (auto simp: cs nat_int_add)
  let ?view = "view'\<lparr>ar_view_source_version := ar_version src'\<rparr>"
  let ?h2 = "?h1(s \<mapsto> OArray src', a \<mapsto> OArray ?view)"
  have io: "int_ok (int off + int i)" using room i' by (simp add: al int_ok_def n_def)
  have "clamp_index (ar_count view) (int i) = int i" using i' by (simp add: clamp_index_def cv)
  moreover have "note_source_version a s (?h1(s \<mapsto> OArray src')) = Some ?h2"
    using vs(1) by (simp add: note_source_version_def)
  ultimately have res: "slp_obj_array_insert h a (int i) v = Some ?h2"
    using vs(2) view' src'(1) io unfolding slp_obj_array_insert_def
    by (subst array_insert_internal.simps) (simp add: Let_def)
  have "elems ?view = take i (elems view) @ v # drop i (elems view)" using view'(3) by (simp add: elems_def)
  moreover have "array_ok ?view" using view'(2) by (simp add: array_ok_def)
  moreover have "segment off (off + Suc n) (elems src') = take i (elems view) @ v # drop i (elems view)"
    unfolding src'(6) win by (rule segment_insert [OF fit i'])
  ultimately have "in_step ?h2 a s \<and> array_list a ?h2 = take i (elems view) @ v # drop i (elems view)"
    using vs(1,9,11) src' view'
    by (simp add: in_step_def array_list_def oi cv cs nat_add_distrib nat_int_add)
  moreover have "array_list s ?h2 = take (off + i) (elems src) @ v # drop (off + i) (elems src)" "view_offset ?h2 a = off"
    using vs(1) src'(6) view'(6) by (simp_all add: array_list_def view_offset_def)
  ultimately show ?thesis using res by (auto simp: al)
qed

lemma view_remove:
  assumes step: "in_step h a s" and i: "i < length (array_list a h)"
    and room: "view_offset h a + length (array_list a h) < 2 ^ 30"
  shows "\<exists>h'. slp_obj_array_remove_at h a (int i) = Some (array_list a h ! i, h') \<and> in_step h' a s \<and>
    view_offset h' a = view_offset h a \<and>
    array_list a h' = take i (array_list a h) @ drop (Suc i) (array_list a h) \<and>
    array_list s h' = take (view_offset h a + i) (array_list s h) @ drop (Suc (view_offset h a + i)) (array_list s h)"
proof -
  obtain view src where vs: "a \<noteq> s" "get_array h a = Some view" "get_array h s = Some src" "array_ok view" "array_ok src"
    "ar_view_source view = Some s" "ar_view_source src = None" "0 \<le> ar_view_offset view"
    "ar_view_offset view + ar_count view \<le> ar_count src"
    "elems view = segment (nat (ar_view_offset view)) (nat (ar_view_offset view + ar_count view)) (elems src)"
    "\<not> ar_view_invalid view" "ar_view_source_version view = ar_version src"
    using step by (auto simp: in_step_def)
  define off n where "off = nat (ar_view_offset view)" and "n = length (elems view)"
  have oi: "ar_view_offset view = int off" using vs(8) by (simp add: off_def)
  have cv: "ar_count view = int n" using length_elems [OF vs(4)] by (simp add: n_def)
  have cs: "ar_count src = int (length (elems src))" using length_elems [OF vs(5)] by simp
  have al: "array_list a h = elems view" "array_list s h = elems src" "view_offset h a = off"
    using vs(2,3) by (simp_all add: array_list_def view_offset_def off_def)
  have i': "i < n" using i by (simp add: al n_def)
  have win: "elems view = segment off (off + n) (elems src)" using vs(10) by (simp add: oi cv flip: of_nat_add)
  have fit: "off + n \<le> length (elems src)" using vs(9) by (simp add: oi cv cs)
  let ?view1 = "remove_here (int i) False view" and ?src = "remove_here (int (off + i)) True src"
  let ?h1 = "h(a \<mapsto> OArray ?view1)"
  note rv = remove_here_ok [OF vs(4), of "int i" False]
  note rs = remove_here_ok [OF vs(5), of "int (off + i)" True]
  have rv: "array_ok ?view1" "elems ?view1 = take i (elems view) @ drop (Suc i) (elems view)"
    "ar_elements view ! i = elems view ! i" using rv i' by (simp_all add: cv)
  have rs: "array_ok ?src" "elems ?src = take (off + i) (elems src) @ drop (Suc (off + i)) (elems src)"
    using rs i' fit by (simp_all add: cs nat_int_add)
  have src1: "get_array ?h1 s = Some src" using vs(1,3) by simp
  have rem: "array_remove_internal ?h1 s (int (off + i)) True = Some (elems src ! (off + i), ?h1(s \<mapsto> OArray ?src))"
    using remove_plain [OF src1 vs(5,7), of "int (off + i)" True] fit i' by (simp add: cs nat_int_add)
  let ?view = "?view1\<lparr>ar_view_source_version := ar_version ?src\<rparr>"
  let ?h2 = "?h1(s \<mapsto> OArray ?src, a \<mapsto> OArray ?view)"
  have io: "int_ok (int off + int i)" using room i' by (simp add: al int_ok_def n_def)
  have "note_source_version a s (?h1(s \<mapsto> OArray ?src)) = Some ?h2"
    using vs(1) by (simp add: note_source_version_def)
  moreover have "ar_view_source ?view1 = Some s" "ar_view_offset ?view1 = int off"
    using vs(6) oi by (simp_all add: remove_here_def)
  moreover have "\<not> int (length (ar_elements view)) < ar_count view" using vs(4) by (simp add: array_ok_def)
  ultimately have res: "slp_obj_array_remove_at h a (int i) = Some (elems view ! i, ?h2)"
    using vs(2) rv(3) rem io i' cv unfolding slp_obj_array_remove_at_def
    by (subst array_remove_internal.simps) (simp add: Let_def)
  have "elems ?view = take i (elems view) @ drop (Suc i) (elems view)" using rv(2) by (simp add: elems_def)
  moreover have "array_ok ?view" using rv(1) by (simp add: array_ok_def)
  moreover have "segment off (off + (n - 1)) (elems ?src) = take i (elems view) @ drop (Suc i) (elems view)"
    unfolding rs(2) win by (rule segment_remove [OF fit i'])
  moreover have "ar_view_source ?view = Some s" "ar_view_offset ?view = int off" "ar_count ?view = int (n - 1)"
    "ar_view_source ?src = None" "ar_count ?src = int (length (elems src)) - 1" "\<not> ar_view_invalid ?view"
    "ar_view_source_version ?view = ar_version ?src"
    using vs(6,7,11) oi cv cs i' by (simp_all add: remove_here_def of_nat_diff)
  moreover have "nat (int off + (int n - 1)) = off + n - Suc 0" using i' by simp
  ultimately have "in_step ?h2 a s \<and> array_list a ?h2 = take i (elems view) @ drop (Suc i) (elems view)"
    using vs(1) rs(1) fit i' unfolding in_step_def array_list_def
    by (simp add: nat_int_add)
  moreover have "array_list s ?h2 = take (off + i) (elems src) @ drop (Suc (off + i)) (elems src)" "view_offset ?h2 a = off"
    using vs(1) rs(2) oi by (simp_all add: array_list_def view_offset_def remove_here_def)
  ultimately show ?thesis using res by (auto simp: al)
qed

lemma in_step_valid: "in_step h a s \<Longrightarrow> slp_obj_array_view_is_valid h (Some a) = Some True"
  by (auto simp: in_step_def slp_obj_array_view_is_valid_def)

subsection \<open>Properties\<close>

text \<open>C23: an array that is not a view is a list: inserting at an index in range splices the value in, removing
  at that index gives it back and restores the list, whatever growth and shifting of the buffer took
  place.\<close>

theorem array_insert_remove:
  assumes "plain_array a h" "length (array_list a h) < 2 ^ 30" "i \<le> length (array_list a h)"
  shows "\<exists>h' h''. slp_obj_array_insert h a (int i) v = Some h' \<and>
    array_list a h' = take i (array_list a h) @ v # drop i (array_list a h) \<and>
    slp_obj_array_remove_at h' a (int i) = Some (v, h'') \<and> plain_array a h'' \<and> array_list a h'' = array_list a h"
  using arr.remove_after_insert [OF assms, of v] arr.insert_law [OF assms, of v] by fastforce

definition sample_array :: "slp_value list \<Rightarrow> obj_array" where
  "sample_array vs = \<lparr>ar_elements = vs, ar_count = int (length vs), ar_version = 0, ar_view_source = None,
     ar_view_offset = 0, ar_view_source_version = 0, ar_view_invalid = False, ar_read_only = False\<rparr>"

lemma sample_array_facts [simp]:
  "get_array (h(a \<mapsto> OArray (sample_array vs))) a = Some (sample_array vs)" "array_ok (sample_array vs)"
  "ar_view_source (sample_array vs) = None" "elems (sample_array vs) = vs"
  by (simp_all add: array_ok_def sample_array_def elems_def)

theorem array_insert_remove_witness:
  "\<exists>h' h''. slp_obj_array_insert [3 \<mapsto> OArray (sample_array [VNull, VBool True])] 3 1 (VBool False) = Some h' \<and>
    array_list 3 h' = [VNull, VBool False, VBool True] \<and> slp_obj_array_remove_at h' 3 1 = Some (VBool False, h'')"
  using array_insert_remove [of 3 "[3 \<mapsto> OArray (sample_array [VNull, VBool True])]" 1 "VBool False"]
  by (auto simp: plain_array_def array_list_def)

text \<open>An assignment inside the array is read back, and a cell in the slot keeps its place: the assigned
  value (the content, when a cell is assigned) goes into the cell and the array's elements stay the
  same; without a cell the slot alone changes.\<close>

theorem array_set_get:
  assumes "get_array h a = Some arr" "array_ok arr" "ar_view_source arr = None"
    and "0 \<le> i" "i < ar_count arr" "i < INT32_MAX"
    and "element_cell h (ar_elements arr ! nat i) = Some c" "read_cell h v = Some w"
  shows "\<exists>h'. slp_obj_array_set h a i v = Some h' \<and> slp_obj_array_get h' a i = Some w \<and>
    array_list a h' = (if c = None then (array_list a h)[nat i := v] else array_list a h)"
  by (rule set_get [OF assms])

theorem array_set_get_witness:
  "\<exists>h'. slp_obj_array_set [3 \<mapsto> OArray (sample_array [VObj 4]), 4 \<mapsto> OScalarCell \<lparr>sc_value = VNull, sc_watch_name = None\<rparr>]
      3 0 (VBool True) = Some h' \<and> slp_obj_array_get h' 3 0 = Some (VBool True) \<and> array_list 3 h' = [VObj 4]"
proof -
  let ?h = "[3 \<mapsto> OArray (sample_array [VObj 4]), 4 \<mapsto> OScalarCell \<lparr>sc_value = VNull, sc_watch_name = None\<rparr>]"
  have "get_array ?h 3 = Some (sample_array [VObj 4])" by (simp add: get_array_def)
  from array_set_get [OF this, of 0 "Some 4" "VBool True" "VBool True"] show ?thesis
    using \<open>get_array ?h 3 = _\<close>
    by (auto simp: element_cell_def read_cell_def sample_array_def array_list_def elems_def array_ok_def)
qed

text \<open>C20: a view stays in step with its source: an insertion through the view splices the value into both,
  at the view's offset in the source, and leaves the view valid, and so does a removal.\<close>

theorem view_mirrors:
  assumes "in_step h a s" "length (array_list s h) < 2 ^ 30" "view_offset h a + length (array_list a h) < 2 ^ 30"
    and "i \<le> length (array_list a h)"
  shows "\<exists>h' h''. slp_obj_array_insert h a (int i) v = Some h' \<and> in_step h' a s \<and>
    array_list a h' = take i (array_list a h) @ v # drop i (array_list a h) \<and>
    array_list s h' = take (view_offset h a + i) (array_list s h) @ v # drop (view_offset h a + i) (array_list s h) \<and>
    (i < length (array_list a h) \<longrightarrow>
       slp_obj_array_remove_at h a (int i) = Some (array_list a h ! i, h'') \<and> in_step h'' a s \<and>
       array_list a h'' = take i (array_list a h) @ drop (Suc i) (array_list a h) \<and>
       array_list s h'' = take (view_offset h a + i) (array_list s h) @ drop (Suc (view_offset h a + i)) (array_list s h)) \<and>
    slp_obj_array_view_is_valid h' (Some a) = Some True"
  using view_insert [OF assms, of v] view_remove [OF assms(1) _ assms(3), of i] in_step_valid
  by (cases "i < length (array_list a h)") fastforce+

definition sample_view :: obj_array where
  "sample_view = (sample_array [VBool True])\<lparr>ar_view_source := Some 3, ar_view_offset := 1\<rparr>"

lemma sample_view_in_step:
  "in_step [3 \<mapsto> OArray (sample_array [VNull, VBool True]), 4 \<mapsto> OArray sample_view] 4 3"
  by (simp add: in_step_def get_array_def sample_view_def sample_array_def array_ok_def elems_def segment_def)

theorem view_mirrors_witness:
  "\<exists>h'. slp_obj_array_insert [3 \<mapsto> OArray (sample_array [VNull, VBool True]), 4 \<mapsto> OArray sample_view] 4 0 (VBool False)
      = Some h' \<and> array_list 4 h' = [VBool False, VBool True] \<and> array_list 3 h' = [VNull, VBool False, VBool True]"
  using view_mirrors [OF sample_view_in_step, of 0 "VBool False"]
  by (auto simp: array_list_def view_offset_def get_array_def sample_view_def sample_array_def elems_def)



text \<open>A removal leaves the removed element in the buffer, and an assignment past the end exposes it:
  after the last element \<open>x\<close> is removed, setting the slot after it makes the array end in \<open>x\<close> and the new
  value, where the skipped slot should be null. The collector does not mark it in between.\<close>

theorem array_stale_slot:
  assumes "plain_array a h" "array_list a h = xs @ [x]" "length xs < 2 ^ 29"
  shows "\<exists>h' h''. slp_obj_array_pop h a = Some (x, h') \<and> array_list a h' = xs \<and>
    slp_obj_array_set h' a (int (length xs) + 1) w = Some h'' \<and> array_list a h'' = xs @ [x, w]"
proof -
  obtain arr where arr: "get_array h a = Some arr" "array_ok arr" "ar_view_source arr = None"
    using assms(1) by (auto simp: plain_array_def)
  have el: "elems arr = xs @ [x]" using assms(2) arr(1) by (simp add: array_list_def)
  let ?n = "length xs"
  have cn: "ar_count arr = int ?n + 1" using length_elems [OF arr(2)] el by simp
  let ?arr = "remove_here (int ?n) False arr"
  have rm: "array_ok ?arr" "elems ?arr = xs" using remove_here_ok [OF arr(2), of "int ?n" False] cn el by simp_all
  have pop: "slp_obj_array_pop h a = Some (x, h(a \<mapsto> OArray ?arr))"
    using remove_plain [OF arr, of "int ?n" False] arr(1) cn el
    by (simp add: slp_obj_array_pop_def slp_obj_array_remove_at_def)
  have len: "Suc ?n \<le> length (ar_elements arr)" using arr(2) cn by (simp add: array_ok_def)
  have "take (Suc ?n) (ar_elements arr) = xs @ [x]" using el cn by (simp add: elems_def nat_add_distrib)
  moreover have "shift_down (ar_elements arr) (Suc ?n) (Suc ?n) = ar_elements arr" by (subst shift_down.simps) simp
  then have es: "ar_elements ?arr = ar_elements arr" using cn by (simp add: remove_here_def nat_add_distrib)
  ultimately have tk: "take (Suc ?n) (ar_elements ?arr @ replicate k VNull) = xs @ [x]" for k using len by simp
  have "ar_count ?arr = int ?n" "ar_view_source ?arr = None" using cn arr(3) by (simp_all add: remove_here_def)
  with set_past_end [of "h(a \<mapsto> OArray ?arr)" a ?arr "int ?n + 1" w] rm(1) assms(3) obtain h'' k where
    "slp_obj_array_set (h(a \<mapsto> OArray ?arr)) a (int ?n + 1) w = Some h''"
    "array_list a h'' = take (nat (int ?n + 1)) (ar_elements ?arr @ replicate k VNull) @ [w]" by auto
  moreover have "nat (int ?n + 1) = Suc ?n" by simp
  ultimately show ?thesis using pop rm(2) tk by (simp add: array_list_def)
qed

theorem array_stale_slot_witness:
  "\<exists>h' h''. slp_obj_array_pop [3 \<mapsto> OArray (sample_array [VBool True])] 3 = Some (VBool True, h') \<and>
    slp_obj_array_set h' 3 1 VNull = Some h'' \<and> array_list 3 h'' = [VBool True, VNull]"
  using array_stale_slot [of 3 "[3 \<mapsto> OArray (sample_array [VBool True])]" "[]" "VBool True" VNull]
  by (auto simp: plain_array_def array_list_def)

end
