(* ===== verification/Chunks.thy ===== *)
theory Chunks
  imports Values
begin

text \<open>
  Chunks (\<^verbatim>\<open>src/slp_chunk.c\<close>): the code buffer with its line table, the constant pool that shares equal
  constants without merging an int, a long and a double, and the big-endian short operands.
\<close>

subsection \<open>Operations\<close>

definition constants_equal :: "heap \<Rightarrow> slp_value \<Rightarrow> slp_value \<Rightarrow> bool option" where
  "constants_equal h a b =
     (case (a, b) of
        (VNum x, VNum y) \<Rightarrow> Some (f_eq x y)
      | (VNum _, _) \<Rightarrow> Some False
      | (_, VNum _) \<Rightarrow> Some False
      | (VObj x, VObj y) \<Rightarrow>
          do { p \<leftarrow> h x; q \<leftarrow> h y;
               Some (case (p, q) of
                       (OLong v, OLong w) \<Rightarrow> v = w
                     | (ODouble v, ODouble w) \<Rightarrow> f_eq v w
                     | _ \<Rightarrow> x = y) }
      | (VObj _, _) \<Rightarrow> Some False
      | (_, VObj _) \<Rightarrow> Some False
      | _ \<Rightarrow> slp_value_equals h a b)"

definition slp_chunk_free :: "chunk \<Rightarrow> chunk" where
  "slp_chunk_free ck = slp_chunk_init"

text \<open>The capacity after the growth test of a write: the buffer doubles when it is full.\<close>

definition grown :: "int \<Rightarrow> nat \<Rightarrow> int \<Rightarrow> int" where
  "grown initial count capacity =
     (if capacity < int count + 1 then (if capacity = 0 then initial else capacity * 2) else capacity)"

text \<open>A write appends a byte and its line, and returns the offset of the byte.\<close>

definition slp_chunk_write :: "chunk \<Rightarrow> byte \<Rightarrow> int \<Rightarrow> (nat \<times> chunk) option" where
  "slp_chunk_write ck b line =
     (let count = length (ck_code ck);
          capacity = grown 64 count (ck_capacity ck)
      in if INT32_MAX < capacity then None
         else Some (count, ck\<lparr>ck_code := ck_code ck @ [b], ck_lines := ck_lines ck @ [line], ck_capacity := capacity\<rparr>))"

fun find_constant :: "heap \<Rightarrow> slp_value list \<Rightarrow> nat \<Rightarrow> slp_value \<Rightarrow> nat option option" where
  "find_constant h [] i v = Some None"
| "find_constant h (c # cs) i v =
     do { eq \<leftarrow> constants_equal h c v; if eq then Some (Some i) else find_constant h cs (Suc i) v }"

definition slp_chunk_add_constant :: "heap \<Rightarrow> chunk \<Rightarrow> slp_value \<Rightarrow> (nat \<times> chunk) option" where
  "slp_chunk_add_constant h ck v =
     do { found \<leftarrow> find_constant h (ck_constants ck) 0 v;
          (case found of
             Some i \<Rightarrow> Some (i, ck)
           | None \<Rightarrow>
               let count = length (ck_constants ck);
                   capacity = grown 16 count (ck_constant_capacity ck)
               in if INT32_MAX < capacity then None
                  else Some (count, ck\<lparr>ck_constants := ck_constants ck @ [v], ck_constant_capacity := capacity\<rparr>)) }"

definition short_of :: "byte \<Rightarrow> byte \<Rightarrow> u16" where
  "short_of hi lo = or (push_bit 8 (ucast hi)) (ucast lo)"

definition slp_chunk_read_short :: "chunk \<Rightarrow> nat \<Rightarrow> u16 option" where
  "slp_chunk_read_short ck offset =
     (if offset + 1 < length (ck_code ck) then Some (short_of (ck_code ck ! offset) (ck_code ck ! (offset + 1))) else None)"

definition slp_chunk_write_short :: "chunk \<Rightarrow> u16 \<Rightarrow> int \<Rightarrow> chunk option" where
  "slp_chunk_write_short ck v line =
     do { (_, ck) \<leftarrow> slp_chunk_write ck (ucast (and (drop_bit 8 v) 0xFF)) line;
          (_, ck) \<leftarrow> slp_chunk_write ck (ucast (and v 0xFF)) line;
          Some ck }"

subsection \<open>Facts\<close>

lemma low_byte [simp]: "(ucast (and (w :: 'a::len word) 0xFF) :: byte) = ucast w"
proof -
  have "(0xFF :: 'a word) = mask 8" by (simp add: mask_eq_exp_minus_1)
  moreover have "(ucast (and w (mask 8)) :: byte) = ucast w"
    by (intro bit_word_eqI) (auto simp: bit_simps bit_imp_le_length)
  ultimately show ?thesis by simp
qed

lemma short_of_bytes [simp]: "short_of (ucast (drop_bit 8 v)) (ucast v) = (v :: u16)"
proof (rule bit_word_eqI)
  fix n assume "n < LENGTH(16)"
  then show "bit (short_of (ucast (drop_bit 8 v)) (ucast v)) n = bit v n"
    by (cases "n < 8") (auto simp: short_of_def bit_simps)
qed

definition chunk_ok :: "chunk \<Rightarrow> bool" where
  "chunk_ok ck \<longleftrightarrow> length (ck_lines ck) = length (ck_code ck) \<and> int (length (ck_code ck)) \<le> ck_capacity ck \<and>
     int (length (ck_constants ck)) \<le> ck_constant_capacity ck"

lemma grown_ok: "int count \<le> c \<Longrightarrow> count < 2 ^ 29 \<Longrightarrow> c \<le> 2 ^ 30 \<Longrightarrow> 0 < i \<Longrightarrow> i \<le> 64 \<Longrightarrow>
   int count + 1 \<le> grown i count c \<and> grown i count c \<le> 2 ^ 30"
  by (simp add: grown_def)

lemma chunk_write_ok:
  assumes "chunk_ok ck" "length (ck_code ck) < 2 ^ 29" "ck_capacity ck \<le> 2 ^ 30"
  shows "\<exists>ck'. slp_chunk_write ck b line = Some (length (ck_code ck), ck') \<and> chunk_ok ck' \<and> ck_capacity ck' \<le> 2 ^ 30 \<and>
    ck_code ck' = ck_code ck @ [b] \<and> ck_lines ck' = ck_lines ck @ [line] \<and>
    ck_constants ck' = ck_constants ck \<and> ck_constant_capacity ck' = ck_constant_capacity ck"
  using assms grown_ok [of "length (ck_code ck)" "ck_capacity ck" 64]
  by (auto simp: slp_chunk_write_def chunk_ok_def Let_def)

text \<open>The constant pool: what \<open>find_constant\<close> returns, and the invariant that no two constants are equal.\<close>

definition pool_distinct :: "heap \<Rightarrow> slp_value list \<Rightarrow> bool" where
  "pool_distinct h cs \<longleftrightarrow> (\<forall>i<length cs. \<forall>j<i. constants_equal h (cs ! j) (cs ! i) = Some False)"

lemma find_constant_spec:
  "find_constant h cs i v = Some r \<Longrightarrow>
   (case r of None \<Rightarrow> \<forall>k<length cs. constants_equal h (cs ! k) v = Some False
    | Some j \<Rightarrow> i \<le> j \<and> j < i + length cs \<and> constants_equal h (cs ! (j - i)) v = Some True \<and>
        (\<forall>k<j - i. constants_equal h (cs ! k) v = Some False))"
proof (induction cs arbitrary: i)
  case Nil
  then show ?case by simp
next
  case (Cons c cs)
  then obtain eq where eq: "constants_equal h c v = Some eq" by (auto simp: bind_Some_iff)
  show ?case
  proof (cases eq)
    case True
    then show ?thesis using Cons.prems eq by auto
  next
    case False
    then have "find_constant h cs (Suc i) v = Some r" using Cons.prems eq by simp
    note IH = Cons.IH [OF this]
    show ?thesis
    proof (cases r)
      case None
      then show ?thesis using IH eq False by (auto simp: nth_Cons split: nat.splits)
    next
      case (Some j)
      then have "j - i = Suc (j - Suc i)" using IH by (simp add: Suc_diff_Suc)
      then show ?thesis using IH eq False Some by (auto simp: nth_Cons split: nat.splits)
    qed
  qed
qed

lemma constants_equal_num: "constants_equal h a b = Some True \<Longrightarrow> (\<exists>x. a = VNum x) \<longleftrightarrow> (\<exists>y. b = VNum y)"
  by (cases a; cases b) (auto simp: constants_equal_def)

lemma pool_distinct_append:
  assumes "pool_distinct h cs" "\<forall>k<length cs. constants_equal h (cs ! k) v = Some False"
  shows "pool_distinct h (cs @ [v])"
  using assms by (auto simp: pool_distinct_def nth_append less_Suc_eq)

lemma find_constant_append:
  "find_constant h cs i v = Some None \<Longrightarrow> constants_equal h w v = Some True \<Longrightarrow>
   find_constant h (cs @ [w]) i v = Some (Some (i + length cs))"
proof (induction cs arbitrary: i)
  case Nil
  then show ?case by simp
next
  case (Cons c cs)
  then obtain eq where eq: "constants_equal h c v = Some eq" by (cases "constants_equal h c v") simp_all
  with Cons.prems(1) have "\<not> eq" "find_constant h cs (Suc i) v = Some None" by (simp_all split: if_splits)
  with Cons.IH [of "Suc i"] Cons.prems(2) eq show ?case by simp
qed

subsection \<open>Properties\<close>

text \<open>C24: the constant pool only grows and never holds two equal constants: adding a value returns the index
  of an equal constant or of the value itself, keeps every index given out before, does not merge an int
  with a boxed number, and adding the same value again returns the same index.\<close>

theorem constant_pool:
  assumes "pool_distinct h (ck_constants ck)" "slp_chunk_add_constant h ck v = Some (i, ck')"
  shows "pool_distinct h (ck_constants ck') \<and> i < length (ck_constants ck') \<and>
    (\<exists>cs. ck_constants ck' = ck_constants ck @ cs) \<and> ck_code ck' = ck_code ck \<and>
    (ck_constants ck' ! i = v \<or> constants_equal h (ck_constants ck' ! i) v = Some True) \<and>
    ((\<exists>x. ck_constants ck' ! i = VNum x) \<longleftrightarrow> (\<exists>y. v = VNum y)) \<and>
    (constants_equal h v v = Some True \<longrightarrow> slp_chunk_add_constant h ck' v = Some (i, ck'))"
proof -
  obtain r where r: "find_constant h (ck_constants ck) 0 v = Some r"
    using assms(2) by (auto simp: slp_chunk_add_constant_def bind_Some_iff)
  note spec = find_constant_spec [OF r]
  show ?thesis
  proof (cases r)
    case (Some j)
    with assms(2) r have "i = j" "ck' = ck" by (auto simp: slp_chunk_add_constant_def)
    with assms(1) spec Some r constants_equal_num [of h _ v] show ?thesis
      by (auto simp: slp_chunk_add_constant_def)
  next
    case None
    with assms(2) r have ck': "i = length (ck_constants ck)" "ck_constants ck' = ck_constants ck @ [v]" "ck_code ck' = ck_code ck"
      by (auto simp: slp_chunk_add_constant_def Let_def split: if_splits)
    then show ?thesis
      using assms(1) spec None r pool_distinct_append find_constant_append [of h "ck_constants ck" 0 v v]
      by (auto simp: slp_chunk_add_constant_def)
  qed
qed

theorem constant_pool_witness:
  "\<exists>ck'. slp_chunk_add_constant Map.empty (slp_chunk_init\<lparr>ck_constants := [VNull, VBool True], ck_constant_capacity := 16\<rparr>) (VBool False)
      = Some (2, ck') \<and> ck_constants ck' ! 2 = VBool False"
proof -
  let ?ck = "slp_chunk_init\<lparr>ck_constants := [VNull, VBool True], ck_constant_capacity := 16\<rparr>"
  have "pool_distinct Map.empty (ck_constants ?ck)"
    by (simp add: pool_distinct_def constants_equal_def slp_value_equals_def is_numeric_value_def same_value_def less_Suc_eq)
  moreover obtain ck' where ck': "slp_chunk_add_constant Map.empty ?ck (VBool False) = Some (2, ck')"
    by (simp add: slp_chunk_add_constant_def constants_equal_def slp_value_equals_def is_numeric_value_def same_value_def
        slp_chunk_init_def grown_def)
  ultimately have "ck_constants ck' ! 2 = VBool False \<or> constants_equal Map.empty (ck_constants ck' ! 2) (VBool False) = Some True"
    using constant_pool [of Map.empty ?ck "VBool False" 2 ck'] by blast
  then have "ck_constants ck' ! 2 = VBool False"
    by (cases "ck_constants ck' ! 2")
       (auto simp: constants_equal_def slp_value_equals_def is_numeric_value_def same_value_def)
  with ck' show ?thesis by blast
qed

text \<open>
  A short operand is read back at the offset where it was written, and the code before it is kept.\<close>

theorem short_operand:
  assumes "chunk_ok ck" "length (ck_code ck) < 2 ^ 28" "ck_capacity ck \<le> 2 ^ 29"
  shows "\<exists>ck'. slp_chunk_write_short ck v line = Some ck' \<and>
    slp_chunk_read_short ck' (length (ck_code ck)) = Some v \<and> chunk_ok ck' \<and>
    (\<exists>hi lo. ck_code ck' = ck_code ck @ [hi, lo] \<and> ck_lines ck' = ck_lines ck @ [line, line])"
proof -
  obtain c1 where c1: "slp_chunk_write ck (ucast (drop_bit 8 v)) line = Some (length (ck_code ck), c1)" "chunk_ok c1"
    "ck_capacity c1 \<le> 2 ^ 30" "ck_code c1 = ck_code ck @ [ucast (drop_bit 8 v)]" "ck_lines c1 = ck_lines ck @ [line]"
    using chunk_write_ok [of ck "ucast (drop_bit 8 v)" line] assms by auto
  obtain c2 where c2: "slp_chunk_write c1 (ucast v) line = Some (length (ck_code c1), c2)" "chunk_ok c2"
    "ck_code c2 = ck_code c1 @ [ucast v]" "ck_lines c2 = ck_lines c1 @ [line]"
    using chunk_write_ok [of c1 "ucast v" line] c1 assms by auto
  have "slp_chunk_write_short ck v line = Some c2" using c1(1) c2(1) by (simp add: slp_chunk_write_short_def)
  moreover have "slp_chunk_read_short c2 (length (ck_code ck)) = Some v"
    using c1(4) c2(3) by (simp add: slp_chunk_read_short_def nth_append)
  ultimately show ?thesis using c1 c2 by simp
qed

theorem short_operand_witness:
  "\<exists>ck'. slp_chunk_write_short slp_chunk_init 0x1234 7 = Some ck' \<and> slp_chunk_read_short ck' 0 = Some 0x1234"
  using short_operand [of slp_chunk_init "0x1234" 7] by (auto simp: slp_chunk_init_def chunk_ok_def)

end
