(* ===== verification/Bytecode.thy ===== *)
theory Bytecode
  imports Chunks
begin

text \<open>
  The bytecode file format (\<^verbatim>\<open>src/slp_bytecode.c\<close>): a growing writer, a bounds-checked reader, big-endian
  integers, constants with a tag byte, chunks and functions.

  A reader function of the code returns \<open>false\<close> when the input is too short: that is \<open>None\<close> here, and the
  reader is left where it was. The object allocator is a parameter: \<open>alloc h\<close> is the pointer it returns
  in the heap \<open>h\<close>. The temporary buffers of the reader are assumed to be allocated.
\<close>

type_synonym allocator = "heap \<Rightarrow> ptr"

subsection \<open>Writer and reader\<close>

record bc_writer =
  bw_buffer :: bytes
  bw_capacity :: nat

record bc_reader =
  br_data :: bytes
  br_offset :: nat

definition ensure_capacity :: "bc_writer \<Rightarrow> nat \<Rightarrow> bc_writer" where
  "ensure_capacity w needed =
     (if length (bw_buffer w) + needed \<le> bw_capacity w then w
      else let new_cap = bw_capacity w * 2;
               new_cap = (if new_cap < bw_capacity w + needed then bw_capacity w + needed else new_cap);
               new_cap = (if new_cap < 64 then 64 else new_cap)
           in w\<lparr>bw_capacity := new_cap\<rparr>)"

definition slp_bytecode_writer_init :: bc_writer where
  "slp_bytecode_writer_init = \<lparr>bw_buffer = [], bw_capacity = 0\<rparr>"

definition slp_bytecode_writer_free :: "bc_writer \<Rightarrow> bc_writer" where
  "slp_bytecode_writer_free w = \<lparr>bw_buffer = [], bw_capacity = 0\<rparr>"

text \<open>The copy is defined only when the buffer has the room \<open>ensure_capacity\<close> made.\<close>

definition slp_bytecode_writer_write :: "bc_writer \<Rightarrow> bytes \<Rightarrow> bc_writer option" where
  "slp_bytecode_writer_write w data =
     (let w = ensure_capacity w (length data)
      in if bw_capacity w < length (bw_buffer w) + length data then None
         else Some (w\<lparr>bw_buffer := bw_buffer w @ data\<rparr>))"

definition slp_bytecode_reader_init :: "bytes \<Rightarrow> bc_reader" where
  "slp_bytecode_reader_init data = \<lparr>br_data = data, br_offset = 0\<rparr>"

definition slp_bytecode_reader_read :: "bc_reader \<Rightarrow> nat \<Rightarrow> (bytes \<times> bc_reader) option" where
  "slp_bytecode_reader_read r len =
     (if length (br_data r) < br_offset r + len then None
      else Some (segment (br_offset r) (br_offset r + len) (br_data r), r\<lparr>br_offset := br_offset r + len\<rparr>))"

subsection \<open>Integers\<close>

definition bytes_u32 :: "u32 \<Rightarrow> bytes" where
  "bytes_u32 v = map (\<lambda>k. ucast (and (drop_bit k v) 0xFF)) [24, 16, 8, 0]"

definition bytes_u64 :: "u64 \<Rightarrow> bytes" where
  "bytes_u64 v = map (\<lambda>i. ucast (and (drop_bit (56 - i * 8) v) 0xFF)) [0..<8]"

definition u32_of_bytes :: "bytes \<Rightarrow> u32" where
  "u32_of_bytes buf =
     or (or (or (push_bit 24 (ucast (buf ! 0))) (push_bit 16 (ucast (buf ! 1)))) (push_bit 8 (ucast (buf ! 2)))) (ucast (buf ! 3))"

definition u64_of_bytes :: "bytes \<Rightarrow> u64" where
  "u64_of_bytes buf = foldl (\<lambda>out b. or (push_bit 8 out) (ucast b)) 0 buf"

definition write_u8 :: "byte \<Rightarrow> bc_writer \<Rightarrow> bc_writer option" where
  "write_u8 v w = slp_bytecode_writer_write w [v]"

definition write_u16 :: "u16 \<Rightarrow> bc_writer \<Rightarrow> bc_writer option" where
  "write_u16 v w = slp_bytecode_writer_write w [ucast (and (drop_bit 8 v) 0xFF), ucast (and v 0xFF)]"

definition write_u32 :: "u32 \<Rightarrow> bc_writer \<Rightarrow> bc_writer option" where
  "write_u32 v w = slp_bytecode_writer_write w (bytes_u32 v)"

definition write_u64 :: "u64 \<Rightarrow> bc_writer \<Rightarrow> bc_writer option" where
  "write_u64 v w = slp_bytecode_writer_write w (bytes_u64 v)"

definition write_f64 :: "f64 \<Rightarrow> bc_writer \<Rightarrow> bc_writer option" where
  "write_f64 d w = write_u64 d w"

definition read_u8 :: "bc_reader \<Rightarrow> (byte \<times> bc_reader) option" where
  "read_u8 r = do { (buf, r) \<leftarrow> slp_bytecode_reader_read r 1; Some (buf ! 0, r) }"

definition read_u16 :: "bc_reader \<Rightarrow> (u16 \<times> bc_reader) option" where
  "read_u16 r = do { (buf, r) \<leftarrow> slp_bytecode_reader_read r 2; Some (short_of (buf ! 0) (buf ! 1), r) }"

definition read_u32 :: "bc_reader \<Rightarrow> (u32 \<times> bc_reader) option" where
  "read_u32 r = do { (buf, r) \<leftarrow> slp_bytecode_reader_read r 4; Some (u32_of_bytes buf, r) }"

definition read_u64 :: "bc_reader \<Rightarrow> (u64 \<times> bc_reader) option" where
  "read_u64 r = do { (buf, r) \<leftarrow> slp_bytecode_reader_read r 8; Some (u64_of_bytes buf, r) }"

definition read_f64 :: "bc_reader \<Rightarrow> (f64 \<times> bc_reader) option" where
  "read_f64 r = read_u64 r"

subsection \<open>Constants\<close>

abbreviation CONST_TAG_NULL :: byte where "CONST_TAG_NULL \<equiv> 0"
abbreviation CONST_TAG_BOOL :: byte where "CONST_TAG_BOOL \<equiv> 1"
abbreviation CONST_TAG_NUMBER :: byte where "CONST_TAG_NUMBER \<equiv> 2"
abbreviation CONST_TAG_STRING :: byte where "CONST_TAG_STRING \<equiv> 3"
abbreviation CONST_TAG_LONG :: byte where "CONST_TAG_LONG \<equiv> 4"
abbreviation CONST_TAG_DOUBLE :: byte where "CONST_TAG_DOUBLE \<equiv> 5"

definition char_bytes :: "string \<Rightarrow> bytes" where
  "char_bytes s = map of_char s"

definition bytes_chars :: "bytes \<Rightarrow> string" where
  "bytes_chars bs = map (\<lambda>b. char_of (unat b)) bs"

text \<open>The outer option is an undefined execution, the boolean the result of the code.\<close>

definition serialize_value :: "heap \<Rightarrow> slp_value \<Rightarrow> bc_writer \<Rightarrow> (bool \<times> bc_writer) option" where
  "serialize_value h v w =
     (case v of
        VNull \<Rightarrow> do { w \<leftarrow> write_u8 CONST_TAG_NULL w; Some (True, w) }
      | VBool b \<Rightarrow> do { w \<leftarrow> write_u8 CONST_TAG_BOOL w; w \<leftarrow> write_u8 (if b then 1 else 0) w; Some (True, w) }
      | VNum d \<Rightarrow> do { w \<leftarrow> write_u8 CONST_TAG_NUMBER w; w \<leftarrow> write_f64 d w; Some (True, w) }
      | VObj a \<Rightarrow>
          (case h a of
             None \<Rightarrow> None
           | Some ob \<Rightarrow>
               (case ob of
                  OString s \<Rightarrow> do { w \<leftarrow> write_u8 CONST_TAG_STRING w;
                                   w \<leftarrow> write_u32 (word_of_nat (length (s_chars s))) w;
                                   w \<leftarrow> slp_bytecode_writer_write w (char_bytes (s_chars s));
                                   Some (True, w) }
                | OLong l \<Rightarrow> do { w \<leftarrow> write_u8 CONST_TAG_LONG w; w \<leftarrow> write_u64 l w; Some (True, w) }
                | ODouble d \<Rightarrow> do { w \<leftarrow> write_u8 CONST_TAG_DOUBLE w; w \<leftarrow> write_f64 d w; Some (True, w) }
                | _ \<Rightarrow> Some (False, w))))"

definition boxed :: "allocator \<Rightarrow> obj \<Rightarrow> bc_reader \<Rightarrow> heap \<Rightarrow> slp_value \<times> bc_reader \<times> heap" where
  "boxed alloc ob r h = (case place (alloc h) ob h of (None, h) \<Rightarrow> (VNull, r, h) | (Some a, h) \<Rightarrow> (VObj a, r, h))"

definition deserialize_string :: "allocator \<Rightarrow> bc_reader \<Rightarrow> heap \<Rightarrow> slp_value \<times> bc_reader \<times> heap" where
  "deserialize_string alloc r h =
     (case read_u32 r of
        None \<Rightarrow> (VNull, r, h)
      | Some (len, r) \<Rightarrow>
          if length (br_data r) - br_offset r < unat len then (VNull, r, h)
          else (case slp_bytecode_reader_read r (unat len) of
                  None \<Rightarrow> (VNull, r, h)
                | Some (buf, r) \<Rightarrow>
                    let chars = bytes_chars buf
                    in boxed alloc (OString \<lparr>s_chars = chars, s_hash = slp_hash_string chars\<rparr>) r h))"

definition deserialize_value :: "allocator \<Rightarrow> bc_reader \<Rightarrow> heap \<Rightarrow> slp_value \<times> bc_reader \<times> heap" where
  "deserialize_value alloc r h =
     (case read_u8 r of
        None \<Rightarrow> (VNull, r, h)
      | Some (tag, r) \<Rightarrow>
          if tag = CONST_TAG_BOOL then
            (case read_u8 r of None \<Rightarrow> (VNull, r, h) | Some (b, r) \<Rightarrow> (VBool (b \<noteq> 0), r, h))
          else if tag = CONST_TAG_NUMBER then
            (case read_f64 r of None \<Rightarrow> (VNull, r, h) | Some (d, r) \<Rightarrow> (VNum d, r, h))
          else if tag = CONST_TAG_STRING then deserialize_string alloc r h
          else if tag = CONST_TAG_LONG then
            (case read_u64 r of None \<Rightarrow> (VNull, r, h) | Some (v, r) \<Rightarrow> boxed alloc (OLong v) r h)
          else if tag = CONST_TAG_DOUBLE then
            (case read_f64 r of None \<Rightarrow> (VNull, r, h) | Some (d, r) \<Rightarrow> boxed alloc (ODouble d) r h)
          else (VNull, r, h))"

subsection \<open>Chunks\<close>

fun serialize_constants :: "heap \<Rightarrow> slp_value list \<Rightarrow> bc_writer \<Rightarrow> (bool \<times> bc_writer) option" where
  "serialize_constants h [] w = Some (True, w)"
| "serialize_constants h (c # cs) w =
     do { (ok, w) \<leftarrow> serialize_value h c w; if ok then serialize_constants h cs w else Some (False, w) }"

definition slp_bytecode_serialize_chunk :: "heap \<Rightarrow> chunk \<Rightarrow> bc_writer \<Rightarrow> (bool \<times> bc_writer) option" where
  "slp_bytecode_serialize_chunk h ck w =
     do { w \<leftarrow> write_u32 (word_of_nat (length (ck_code ck))) w;
          w \<leftarrow> slp_bytecode_writer_write w (ck_code ck);
          w \<leftarrow> write_u32 (word_of_nat (length (ck_constants ck))) w;
          serialize_constants h (ck_constants ck) w }"

text \<open>The code loop returns whether the input was long enough; the constant loop cannot fail.\<close>

fun read_code :: "nat \<Rightarrow> bc_reader \<Rightarrow> chunk \<Rightarrow> (bool \<times> bc_reader \<times> chunk) option" where
  "read_code 0 r ck = Some (True, r, ck)"
| "read_code (Suc n) r ck =
     (case read_u8 r of
        None \<Rightarrow> Some (False, r, ck)
      | Some (b, r) \<Rightarrow> do { (_, ck) \<leftarrow> slp_chunk_write ck b 0; read_code n r ck })"

fun read_constants :: "allocator \<Rightarrow> nat \<Rightarrow> bc_reader \<Rightarrow> chunk \<Rightarrow> heap \<Rightarrow> (bc_reader \<times> chunk \<times> heap) option" where
  "read_constants alloc 0 r ck h = Some (r, ck, h)"
| "read_constants alloc (Suc n) r ck h =
     (let (v, r, h) = deserialize_value alloc r h
      in do { (_, ck) \<leftarrow> slp_chunk_add_constant h ck v; read_constants alloc n r ck h })"

text \<open>The result is the chunk, or \<open>NULL\<close>; \<open>chunk_allocated\<close> is whether the chunk could be allocated.\<close>

definition slp_bytecode_deserialize_chunk ::
    "allocator \<Rightarrow> bool \<Rightarrow> bc_reader \<Rightarrow> heap \<Rightarrow> (chunk option \<times> bc_reader \<times> heap) option" where
  "slp_bytecode_deserialize_chunk alloc chunk_allocated r h =
     (case read_u32 r of
        None \<Rightarrow> Some (None, r, h)
      | Some (code_count, r) \<Rightarrow>
          if \<not> chunk_allocated then Some (None, r, h)
          else do {
            (ok, r, ck) \<leftarrow> read_code (unat code_count) r slp_chunk_init;
            if \<not> ok then Some (None, r, h)
            else (case read_u32 r of
                    None \<Rightarrow> Some (None, r, h)
                  | Some (const_count, r) \<Rightarrow>
                      do { (r, ck, h) \<leftarrow> read_constants alloc (unat const_count) r ck h; Some (Some ck, r, h) }) })"

subsection \<open>Functions\<close>

abbreviation SLP_BYTECODE_MAGIC :: u32 where "SLP_BYTECODE_MAGIC \<equiv> 0x534C5950"
abbreviation SLP_BYTECODE_VERSION :: u32 where "SLP_BYTECODE_VERSION \<equiv> 1"

definition function_name_chars :: "heap \<Rightarrow> obj_function \<Rightarrow> string option" where
  "function_name_chars h fn =
     (case fn_name fn of None \<Rightarrow> Some [] | Some a \<Rightarrow> map_option s_chars (get_string h a))"

definition slp_bytecode_serialize_function :: "heap \<Rightarrow> obj_function \<Rightarrow> bc_writer \<Rightarrow> (bool \<times> bc_writer) option" where
  "slp_bytecode_serialize_function h fn w =
     do { w \<leftarrow> write_u32 SLP_BYTECODE_MAGIC w;
          w \<leftarrow> write_u32 SLP_BYTECODE_VERSION w;
          name \<leftarrow> function_name_chars h fn;
          w \<leftarrow> write_u32 (word_of_nat (length name)) w;
          w \<leftarrow> (if name \<noteq> [] then slp_bytecode_writer_write w (char_bytes name) else Some w);
          w \<leftarrow> write_u8 (word_of_int (fn_arity fn)) w;
          w \<leftarrow> write_u8 (word_of_int (fn_upvalue_count fn)) w;
          ck \<leftarrow> fn_chunk fn;
          slp_bytecode_serialize_chunk h ck w }"

text \<open>
  The name: \<open>None\<close> is the failure for a length beyond the input, otherwise the pointer to the new string,
  \<open>NULL\<close> for an empty name.
\<close>

definition read_function_name :: "allocator \<Rightarrow> nat \<Rightarrow> bc_reader \<Rightarrow> heap \<Rightarrow> (ptr \<times> bc_reader \<times> heap) option" where
  "read_function_name alloc len r h =
     (if len = 0 then Some (None, r, h)
      else if length (br_data r) - br_offset r < len then None
      else do { (buf, r) \<leftarrow> slp_bytecode_reader_read r len;
                let (p, h) = slp_obj_string_new (alloc h) (bytes_chars buf) h;
                Some (p, r, h) })"

text \<open>The header of a function up to its chunk; \<open>None\<close> is the result \<open>NULL\<close>.\<close>

definition read_function_header :: "bc_reader \<Rightarrow> (nat \<times> bc_reader) option" where
  "read_function_header r =
     do { (magic, r) \<leftarrow> read_u32 r;
          if magic \<noteq> SLP_BYTECODE_MAGIC then None
          else do { (version, r) \<leftarrow> read_u32 r;
                    if version \<noteq> SLP_BYTECODE_VERSION then None
                    else do { (name_len, r) \<leftarrow> read_u32 r; Some (unat name_len, r) } } }"

text \<open>
  The outer option is an undefined execution; the inner one is the returned pointer, with the address of
  the new function. A failure after the allocation frees the function and its chunk again; the name
  string, which only the freed function pointed to, is not freed.
\<close>

definition slp_bytecode_deserialize_function ::
    "allocator \<Rightarrow> bool \<Rightarrow> bc_reader \<Rightarrow> heap \<Rightarrow> (ptr \<times> heap) option" where
  "slp_bytecode_deserialize_function alloc chunk_allocated r h =
     (case read_function_header r of
        None \<Rightarrow> Some (None, h)
      | Some (name_len, r) \<Rightarrow>
          (case slp_obj_function_new (alloc h) chunk_allocated h of
             (None, h) \<Rightarrow> Some (None, h)
           | (Some a, h) \<Rightarrow>
               (case read_function_name alloc name_len r h of
                  None \<Rightarrow> Some (None, h(a := None))
                | Some (name, r, h) \<Rightarrow>
                    (case do { (arity, r) \<leftarrow> read_u8 r; (upvalue_count, r) \<leftarrow> read_u8 r; Some (arity, upvalue_count, r) } of
                       None \<Rightarrow> Some (None, h(a := None))
                     | Some (arity, upvalue_count, r) \<Rightarrow>
                         do { f \<leftarrow> get_function h a;
                              if fn_chunk f = None then None
                              else do {
                                (ck, r, h) \<leftarrow> slp_bytecode_deserialize_chunk alloc chunk_allocated r h;
                                Some (case ck of
                                        None \<Rightarrow> (None, h(a := None))
                                      | Some ck \<Rightarrow>
                                          (Some a, h(a \<mapsto> OFunction (f\<lparr>fn_name := name, fn_arity := uint arity,
                                             fn_upvalue_count := uint upvalue_count, fn_chunk := Some ck\<rparr>)))) } }))))"

end
