(* ===== verification/Bytecode_Roundtrip.thy ===== *)
theory Bytecode_Roundtrip
  imports Bytecode
begin

text \<open>
  Reading back what was written: the codec interface with its instances, constants, chunks and whole
  functions, and the inputs the reader accepts although they are cut short.
\<close>

subsection \<open>The writer and the reader\<close>

definition writer_ok :: "bc_writer \<Rightarrow> bool" where
  "writer_ok w \<longleftrightarrow> length (bw_buffer w) \<le> bw_capacity w"

lemma writer_init_ok: "writer_ok slp_bytecode_writer_init"
  by (simp add: writer_ok_def slp_bytecode_writer_init_def)

lemma writer_write_ok:
  assumes "writer_ok w"
  shows "\<exists>w'. slp_bytecode_writer_write w data = Some w' \<and> writer_ok w' \<and> bw_buffer w' = bw_buffer w @ data"
  using assms by (auto simp: writer_ok_def slp_bytecode_writer_write_def ensure_capacity_def Let_def)

definition ahead :: "bc_reader \<Rightarrow> bytes" where
  "ahead r = drop (br_offset r) (br_data r)"

definition advanced :: "nat \<Rightarrow> bc_reader \<Rightarrow> bc_reader" where
  "advanced n r = r\<lparr>br_offset := br_offset r + n\<rparr>"

definition reader_ok :: "bc_reader \<Rightarrow> bool" where
  "reader_ok r \<longleftrightarrow> br_offset r \<le> length (br_data r)"

lemma ahead_advanced [simp]: "ahead (advanced n r) = drop n (ahead r)"
  by (simp add: ahead_def advanced_def add.commute)

lemma advanced_advanced [simp]: "advanced m (advanced n r) = advanced (n + m) r"
  by (simp add: advanced_def add.assoc)

lemma reader_ok_advanced [simp]: "reader_ok r \<Longrightarrow> n \<le> length (ahead r) \<Longrightarrow> reader_ok (advanced n r)"
  by (simp add: reader_ok_def ahead_def advanced_def)

lemma reader_ok_past: "reader_ok r \<Longrightarrow> ahead r = bs @ rest \<Longrightarrow> reader_ok (advanced (length bs) r)"
  by simp

lemma length_ahead: "length (ahead r) = length (br_data r) - br_offset r"
  by (simp add: ahead_def)

lemma reader_read_ok:
  assumes "reader_ok r" "ahead r = bs @ rest"
  shows "slp_bytecode_reader_read r (length bs) = Some (bs, advanced (length bs) r)"
proof -
  have "length (ahead r) = length bs + length rest" using assms(2) by simp
  then have "br_offset r + length bs \<le> length (br_data r)" using assms(1) by (simp add: ahead_def reader_ok_def)
  moreover have "segment (br_offset r) (br_offset r + length bs) (br_data r) = bs"
    using assms(2) by (simp add: segment_def ahead_def)
  ultimately show ?thesis by (simp add: slp_bytecode_reader_read_def advanced_def)
qed

lemma reader_read_short: "reader_ok r \<Longrightarrow> length (ahead r) < n \<Longrightarrow> slp_bytecode_reader_read r n = None"
  by (simp add: slp_bytecode_reader_read_def ahead_def reader_ok_def)

subsection \<open>Codecs\<close>

locale codec =
  fixes enc :: "'a \<Rightarrow> bytes"
    and dec :: "bc_reader \<Rightarrow> ('a \<times> bc_reader) option"
  assumes dec_enc: "reader_ok r \<Longrightarrow> ahead r = enc x @ rest \<Longrightarrow> dec r = Some (x, advanced (length (enc x)) r)"
begin

fun dec_list :: "nat \<Rightarrow> bc_reader \<Rightarrow> ('a list \<times> bc_reader) option" where
  "dec_list 0 r = Some ([], r)"
| "dec_list (Suc n) r = do { (x, r) \<leftarrow> dec r; (xs, r) \<leftarrow> dec_list n r; Some (x # xs, r) }"

lemma dec_enc_list:
  "reader_ok r \<Longrightarrow> ahead r = concat (map enc xs) @ rest \<Longrightarrow>
   dec_list (length xs) r = Some (xs, advanced (length (concat (map enc xs))) r)"
proof (induction xs arbitrary: r)
  case Nil
  then show ?case by (simp add: advanced_def)
next
  case (Cons x xs)
  have d: "dec r = Some (x, advanced (length (enc x)) r)" using Cons.prems by (intro dec_enc) auto
  have "dec_list (length xs) (advanced (length (enc x)) r) =
    Some (xs, advanced (length (concat (map enc xs))) (advanced (length (enc x)) r))"
    using Cons.prems by (intro Cons.IH) auto
  with d show ?case by simp
qed

lemma enc_inj: "enc x = enc y \<Longrightarrow> x = y"
proof -
  assume "enc x = enc y"
  let ?r = "\<lparr>br_data = enc x, br_offset = 0\<rparr>"
  have "reader_ok ?r" "ahead ?r = enc x @ []" by (simp_all add: reader_ok_def ahead_def)
  with dec_enc [of ?r x "[]"] dec_enc [of ?r y "[]"] \<open>enc x = enc y\<close> show ?thesis by simp
qed

end

lemma u32_of_bytes_u32: "u32_of_bytes (bytes_u32 v) = v"
proof (rule bit_word_eqI)
  fix n assume "n < LENGTH(32)"
  then have "n < 32" by simp
  consider "n < 8" | "8 \<le> n \<and> n < 16" | "16 \<le> n \<and> n < 24" | "24 \<le> n" by linarith
  then show "bit (u32_of_bytes (bytes_u32 v)) n = bit v n"
    using \<open>n < 32\<close> by cases (auto simp: u32_of_bytes_def bytes_u32_def bit_simps)
qed

lemma u64_step: "or (push_bit 8 (drop_bit (k + 8) v)) (ucast (ucast (drop_bit k v) :: byte)) = (drop_bit k v :: u64)"
proof (rule bit_word_eqI)
  fix n assume n: "n < LENGTH(64)"
  show "bit (or (push_bit 8 (drop_bit (k + 8) v)) (ucast (ucast (drop_bit k v) :: byte))) n = bit (drop_bit k v) n"
    using n by (cases "n < 8") (auto simp: bit_simps ac_simps)
qed

lemma u64_of_bytes_u64: "u64_of_bytes (bytes_u64 v) = v"
proof -
  have top: "or (push_bit 8 0) (ucast (ucast (drop_bit 56 v) :: byte)) = drop_bit 56 v"
  proof -
    have "drop_bit (56 + 8) v = 0" by (rule bit_word_eqI) (auto simp: bit_simps bit_imp_le_length dest: bit_imp_le_length)
    then show ?thesis using u64_step [of 56 v] by simp
  qed
  have "[0..<8] = [0, 1, 2, 3, 4, 5, 6, 7::nat]" by (simp add: upt_rec)
  then show ?thesis
    unfolding u64_of_bytes_def bytes_u64_def
    using top u64_step [of 48 v] u64_step [of 40 v] u64_step [of 32 v] u64_step [of 24 v] u64_step [of 16 v]
      u64_step [of 8 v] u64_step [of 0 v]
    by simp
qed

lemma length_bytes_u32 [simp]: "length (bytes_u32 v) = 4"
  by (simp add: bytes_u32_def)

lemma length_bytes_u64 [simp]: "length (bytes_u64 v) = 8"
  by (simp add: bytes_u64_def)

interpretation u8: codec "\<lambda>b. [b]" read_u8
  by unfold_locales (use reader_read_ok [of _ "[_]"] in \<open>simp add: read_u8_def\<close>)

interpretation u16: codec "\<lambda>v. [ucast (and (drop_bit 8 v) 0xFF), ucast (and v 0xFF)]" read_u16
proof unfold_locales
  fix r and x :: u16 and rest
  assume "reader_ok r" "ahead r = [ucast (and (drop_bit 8 x) 0xFF), ucast (and x 0xFF)] @ rest"
  from reader_read_ok [OF this] show "read_u16 r = Some (x, advanced (length [ucast (and (drop_bit 8 x) 0xFF), ucast (and x 0xFF) :: byte]) r)"
    by (simp add: read_u16_def numeral_2_eq_2)
qed

interpretation u32: codec bytes_u32 read_u32
  by unfold_locales (use reader_read_ok [of _ "bytes_u32 _"] in \<open>simp add: read_u32_def u32_of_bytes_u32\<close>)

interpretation u64: codec bytes_u64 read_u64
  by unfold_locales (use reader_read_ok [of _ "bytes_u64 _"] in \<open>simp add: read_u64_def u64_of_bytes_u64\<close>)

interpretation f64: codec bytes_u64 read_f64
  by unfold_locales (simp add: read_f64_def u64.dec_enc)

lemma unat_of_char: "unat (of_char c :: byte) = of_char c"
proof -
  have "of_char c < (256 :: nat)" by simp
  then have "unat (word_of_nat (of_char c) :: byte) = of_char c" by (simp add: unsigned_of_nat take_bit_eq_mod)
  moreover have "(word_of_nat (of_char c) :: byte) = of_char c" by (cases c) (simp add: of_char_def)
  ultimately show ?thesis by simp
qed

lemma bytes_chars_inverse [simp]: "bytes_chars (char_bytes s) = s"
  by (simp add: bytes_chars_def char_bytes_def comp_def unat_of_char)

lemma length_char_bytes [simp]: "length (char_bytes s) = length s"
  by (simp add: char_bytes_def)

subsection \<open>Constants\<close>

text \<open>The bytes of a constant; a constant of any other object type has none.\<close>

definition value_bytes :: "heap \<Rightarrow> slp_value \<Rightarrow> bytes option" where
  "value_bytes h v =
     (case v of
        VNull \<Rightarrow> Some [CONST_TAG_NULL]
      | VBool b \<Rightarrow> Some [CONST_TAG_BOOL, if b then 1 else 0]
      | VNum d \<Rightarrow> Some (CONST_TAG_NUMBER # bytes_u64 d)
      | VObj a \<Rightarrow>
          (case h a of
             Some (OString s) \<Rightarrow>
               if length (s_chars s) < 2 ^ 32
               then Some (CONST_TAG_STRING # bytes_u32 (word_of_nat (length (s_chars s))) @ char_bytes (s_chars s)) else None
           | Some (OLong l) \<Rightarrow> Some (CONST_TAG_LONG # bytes_u64 l)
           | Some (ODouble d) \<Rightarrow> Some (CONST_TAG_DOUBLE # bytes_u64 d)
           | _ \<Rightarrow> None))"

lemma write_u8_ok: "writer_ok w \<Longrightarrow> \<exists>w'. write_u8 b w = Some w' \<and> writer_ok w' \<and> bw_buffer w' = bw_buffer w @ [b]"
  by (simp add: write_u8_def writer_write_ok)

lemma write_u32_ok: "writer_ok w \<Longrightarrow> \<exists>w'. write_u32 v w = Some w' \<and> writer_ok w' \<and> bw_buffer w' = bw_buffer w @ bytes_u32 v"
  by (simp add: write_u32_def writer_write_ok)

lemma write_u64_ok: "writer_ok w \<Longrightarrow> \<exists>w'. write_u64 v w = Some w' \<and> writer_ok w' \<and> bw_buffer w' = bw_buffer w @ bytes_u64 v"
  by (simp add: write_u64_def writer_write_ok)

lemma serialize_value_ok:
  assumes "writer_ok w" "value_bytes h v = Some bs"
  shows "\<exists>w'. serialize_value h v w = Some (True, w') \<and> writer_ok w' \<and> bw_buffer w' = bw_buffer w @ bs"
proof -
  obtain w1 where w1: "write_u8 b w = Some (w1 b)" "writer_ok (w1 b)" "bw_buffer (w1 b) = bw_buffer w @ [b]" for b
    using write_u8_ok [OF assms(1)] by metis
  note then_u8 = write_u8_ok [OF w1(2)] and then_u32 = write_u32_ok [OF w1(2)] and then_u64 = write_u64_ok [OF w1(2)]
  show ?thesis
  proof (cases v)
    case VNull
    then show ?thesis using assms(2) w1 by (auto simp: value_bytes_def serialize_value_def)
  next
    case (VBool b)
    then show ?thesis using assms(2) w1(1,3) then_u8 [of "if b then 1 else 0" CONST_TAG_BOOL]
      by (auto simp: value_bytes_def serialize_value_def)
  next
    case (VNum d)
    then show ?thesis using assms(2) w1(1,3) then_u64 [of d CONST_TAG_NUMBER]
      by (auto simp: value_bytes_def serialize_value_def write_f64_def)
  next
    case (VObj a)
    consider (s) s where "h a = Some (OString s)" "length (s_chars s) < 2 ^ 32"
        "bs = CONST_TAG_STRING # bytes_u32 (word_of_nat (length (s_chars s))) @ char_bytes (s_chars s)"
      | (l) l where "h a = Some (OLong l)" "bs = CONST_TAG_LONG # bytes_u64 l"
      | (d) d where "h a = Some (ODouble d)" "bs = CONST_TAG_DOUBLE # bytes_u64 d"
      using assms(2) VObj by (auto simp: value_bytes_def split: option.splits obj.splits if_splits)
    then show ?thesis
    proof cases
      case s
      obtain w2 where w2: "write_u32 (word_of_nat (length (s_chars s))) (w1 CONST_TAG_STRING) = Some w2" "writer_ok w2"
        "bw_buffer w2 = bw_buffer w @ CONST_TAG_STRING # bytes_u32 (word_of_nat (length (s_chars s)))"
        using then_u32 [of _ CONST_TAG_STRING] w1(3) by fastforce
      with VObj s w1(1) writer_write_ok [OF w2(2), of "char_bytes (s_chars s)"] show ?thesis
        by (auto simp: serialize_value_def)
    next
      case l
      then show ?thesis using VObj w1(1,3) then_u64 [of l CONST_TAG_LONG] by (auto simp: serialize_value_def)
    next
      case d
      then show ?thesis using VObj w1(1,3) then_u64 [of d CONST_TAG_DOUBLE] by (auto simp: serialize_value_def write_f64_def)
    qed
  qed
qed

text \<open>A constant read back is the same constant: the same immediate value, or an object with the same content.\<close>

definition same_constant :: "heap \<Rightarrow> heap \<Rightarrow> slp_value \<Rightarrow> slp_value \<Rightarrow> bool" where
  "same_constant h h' v v' =
     (case (v, v') of
        (VObj a, VObj b) \<Rightarrow>
          (case (h a, h' b) of
             (Some (OString s), Some (OString t)) \<Rightarrow> s_chars s = s_chars t \<and> s_hash t = slp_hash_string (s_chars t)
           | (Some (OLong l), Some (OLong m)) \<Rightarrow> l = m
           | (Some (ODouble d), Some (ODouble e)) \<Rightarrow> d = e
           | _ \<Rightarrow> False)
      | (VObj _, _) \<Rightarrow> False
      | (_, VObj _) \<Rightarrow> False
      | _ \<Rightarrow> v = v')"

definition fresh_alloc :: "allocator \<Rightarrow> bool" where
  "fresh_alloc alloc \<longleftrightarrow> (\<forall>h. finite (dom h) \<longrightarrow> (\<exists>a. alloc h = Some a \<and> h a = None))"

lemma boxed_ok:
  assumes "fresh_alloc alloc" "finite (dom h)"
  shows "\<exists>a. boxed alloc ob r h = (VObj a, r, h(a \<mapsto> ob)) \<and> h a = None"
  using assms by (auto simp: fresh_alloc_def boxed_def place_def)

lemma map_le_fresh: "h a = None \<Longrightarrow> h \<subseteq>\<^sub>m h(a \<mapsto> ob)"
  by (auto simp: map_le_def)

lemma deserialize_value_ok:
  assumes bytes: "value_bytes h v = Some bs" and r: "reader_ok r" "ahead r = bs @ rest"
    and al: "fresh_alloc alloc" "finite (dom h')"
  shows "\<exists>v' h''. deserialize_value alloc r h' = (v', advanced (length bs) r, h'') \<and> same_constant h h'' v v' \<and>
    h' \<subseteq>\<^sub>m h'' \<and> finite (dom h'') \<and> (\<forall>a. v' = VObj a \<longrightarrow> h' a = None)"
proof -
  note tag = u8.dec_enc [OF r(1)]
  let ?r = "advanced 1 r"
  have r1: "reader_ok ?r" using r bytes by (cases bs) (auto simp: value_bytes_def split: slp_value.splits option.splits obj.splits if_splits)
  show ?thesis
  proof (cases v)
    case VNull
    then show ?thesis using bytes r(2) tag [of CONST_TAG_NULL rest] al
      by (auto simp: value_bytes_def deserialize_value_def same_constant_def)
  next
    case (VBool b)
    then have bs: "bs = [CONST_TAG_BOOL, if b then 1 else 0]" using bytes by (simp add: value_bytes_def)
    have "read_u8 r = Some (CONST_TAG_BOOL, ?r)" using tag [of CONST_TAG_BOOL "(if b then 1 else 0) # rest"] r(2) bs by simp
    moreover have "read_u8 ?r = Some (if b then 1 else 0, advanced 1 ?r)"
      using u8.dec_enc [OF r1, of "if b then 1 else 0" rest] r(2) bs by simp
    ultimately show ?thesis using VBool bs al by (simp add: deserialize_value_def same_constant_def)
  next
    case (VNum d)
    then have bs: "bs = CONST_TAG_NUMBER # bytes_u64 d" using bytes by (simp add: value_bytes_def)
    have "read_u8 r = Some (CONST_TAG_NUMBER, ?r)" using tag [of CONST_TAG_NUMBER "bytes_u64 d @ rest"] r(2) bs by simp
    moreover have "read_f64 ?r = Some (d, advanced 8 ?r)"
      using f64.dec_enc [OF r1, of d rest] r(2) bs by simp
    ultimately show ?thesis using VNum bs al by (simp add: deserialize_value_def same_constant_def)
  next
    case (VObj a)
    consider (s) s where "h a = Some (OString s)" "length (s_chars s) < 2 ^ 32"
        "bs = CONST_TAG_STRING # bytes_u32 (word_of_nat (length (s_chars s))) @ char_bytes (s_chars s)"
      | (l) l where "h a = Some (OLong l)" "bs = CONST_TAG_LONG # bytes_u64 l"
      | (d) d where "h a = Some (ODouble d)" "bs = CONST_TAG_DOUBLE # bytes_u64 d"
      using bytes VObj by (auto simp: value_bytes_def split: option.splits obj.splits if_splits)
    then show ?thesis
    proof cases
      case s
      let ?n = "length (s_chars s)"
      have n: "unat (word_of_nat ?n :: u32) = ?n" using s(2) by (simp add: unsigned_of_nat take_bit_nat_eq_self)
      have t: "read_u8 r = Some (CONST_TAG_STRING, ?r)" using tag [of CONST_TAG_STRING] r(2) s(3) by simp
      have l: "read_u32 ?r = Some (word_of_nat ?n, advanced 4 ?r)"
        using u32.dec_enc [OF r1, of "word_of_nat ?n" "char_bytes (s_chars s) @ rest"] r(2) s(3) by simp
      have r5: "reader_ok (advanced 5 r)" "ahead (advanced 5 r) = char_bytes (s_chars s) @ rest"
        using r s(3) by (auto intro!: reader_ok_advanced)
      then have "length (ahead (advanced 5 r)) = ?n + length rest" by simp
      then have room: "\<not> length (br_data (advanced 5 r)) - br_offset (advanced 5 r) < ?n"
        unfolding length_ahead by linarith
      have rd: "slp_bytecode_reader_read (advanced 5 r) ?n = Some (char_bytes (s_chars s), advanced ?n (advanced 5 r))"
        using reader_read_ok [OF r5] by simp
      let ?ob = "OString \<lparr>s_chars = s_chars s, s_hash = slp_hash_string (s_chars s)\<rparr>"
      obtain b where b: "boxed alloc ?ob (advanced (5 + ?n) r) h' = (VObj b, advanced (5 + ?n) r, h'(b \<mapsto> ?ob))" "h' b = None"
        using boxed_ok [OF al] by blast
      have "deserialize_value alloc r h' = (VObj b, advanced (5 + ?n) r, h'(b \<mapsto> ?ob))"
        using t l n room rd b by (simp add: deserialize_value_def deserialize_string_def Let_def)
      then show ?thesis using VObj s b(2) al(2) map_le_fresh by (simp add: same_constant_def)
    next
      case l
      have "read_u8 r = Some (CONST_TAG_LONG, ?r)" using tag [of CONST_TAG_LONG] r(2) l(2) by simp
      moreover have "read_u64 ?r = Some (l, advanced 8 ?r)" using u64.dec_enc [OF r1, of l rest] r(2) l(2) by simp
      moreover obtain b where "boxed alloc (OLong l) (advanced 9 r) h' = (VObj b, advanced 9 r, h'(b \<mapsto> OLong l))" "h' b = None"
        using boxed_ok [OF al] by blast
      ultimately show ?thesis using VObj l al(2) map_le_fresh by (simp add: deserialize_value_def same_constant_def)
    next
      case d
      have "read_u8 r = Some (CONST_TAG_DOUBLE, ?r)" using tag [of CONST_TAG_DOUBLE] r(2) d(2) by simp
      moreover have "read_f64 ?r = Some (d, advanced 8 ?r)" using f64.dec_enc [OF r1, of d rest] r(2) d(2) by simp
      moreover obtain b where "boxed alloc (ODouble d) (advanced 9 r) h' = (VObj b, advanced 9 r, h'(b \<mapsto> ODouble d))" "h' b = None"
        using boxed_ok [OF al] by blast
      ultimately show ?thesis using VObj d al(2) map_le_fresh by (simp add: deserialize_value_def same_constant_def)
    qed
  qed
qed

subsection \<open>Chunks\<close>

lemma serialize_constants_ok:
  "writer_ok w \<Longrightarrow> \<forall>c\<in>set cs. value_bytes h c \<noteq> None \<Longrightarrow>
   \<exists>w'. serialize_constants h cs w = Some (True, w') \<and> writer_ok w' \<and>
     bw_buffer w' = bw_buffer w @ concat (map (the \<circ> value_bytes h) cs)"
proof (induction cs arbitrary: w)
  case Nil
  then show ?case by simp
next
  case (Cons c cs)
  then obtain bs where bs: "value_bytes h c = Some bs" by auto
  obtain w1 where w1: "serialize_value h c w = Some (True, w1)" "writer_ok w1" "bw_buffer w1 = bw_buffer w @ bs"
    using serialize_value_ok [OF Cons.prems(1) bs] by blast
  with Cons.IH [OF w1(2)] Cons.prems(2) bs show ?case by auto
qed

lemma same_constant_live: "same_constant h h' c (VObj a) \<Longrightarrow> a \<in> dom h'"
  by (auto simp: same_constant_def split: slp_value.splits option.splits obj.splits)

lemma same_constant_mono:
  assumes "same_constant h h' c c'" "h' \<subseteq>\<^sub>m h''"
  shows "same_constant h h'' c c'"
proof (cases c')
  case (VObj b)
  have "b \<in> dom h'" using assms(1) VObj same_constant_live by blast
  then have "h'' b = h' b" using assms(2) by (simp add: map_le_def)
  then show ?thesis using assms(1) VObj by (cases c) (simp_all add: same_constant_def)
qed (use assms(1) in \<open>cases c; simp add: same_constant_def\<close>)+

lemma pool_distinct_nth: "pool_distinct h cs \<Longrightarrow> j < i \<Longrightarrow> i < length cs \<Longrightarrow> constants_equal h (cs ! j) (cs ! i) = Some False"
  by (simp add: pool_distinct_def)

lemma find_constant_none:
  "\<forall>k<length cs. constants_equal h (cs ! k) v = Some False \<Longrightarrow> find_constant h cs i v = Some None"
proof (induction cs arbitrary: i)
  case Nil
  then show ?case by simp
next
  case (Cons c cs)
  have "constants_equal h c v = Some False" using Cons.prems by force
  moreover have "\<forall>k<length cs. constants_equal h (cs ! k) v = Some False" using Cons.prems by force
  ultimately show ?case using Cons.IH by simp
qed

lemma constants_equal_plain:
  assumes "\<And>a. c \<noteq> VObj a" "\<And>a. v \<noteq> VObj a"
  shows "constants_equal h c v = constants_equal h' c v"
  using assms by (cases c; cases v) (auto simp: constants_equal_def slp_value_equals_def is_numeric_value_def)

lemma same_constant_object:
  "same_constant h h' (VObj a) (VObj a') \<Longrightarrow>
   (\<exists>s t. h a = Some (OString s) \<and> h' a' = Some (OString t)) \<or> (\<exists>l. h a = Some (OLong l) \<and> h' a' = Some (OLong l)) \<or>
   (\<exists>d. h a = Some (ODouble d) \<and> h' a' = Some (ODouble d))"
  by (cases "h a"; cases "h' a'"; cases "the (h a)"; cases "the (h' a')") (simp_all add: same_constant_def)

text \<open>Constants that differ still differ after reading: a string is read as a new object.\<close>

lemma same_constant_distinct:
  assumes "constants_equal h c d = Some False" "same_constant h h' c c'" "same_constant h h' d d'"
    and "\<And>a b. c' = VObj a \<Longrightarrow> d' = VObj b \<Longrightarrow> a \<noteq> b"
  shows "constants_equal h' c' d' = Some False"
proof (cases c)
  case (VObj a)
  then obtain a' where c': "c' = VObj a'" using assms(2) by (auto simp: same_constant_def split: slp_value.splits)
  show ?thesis
  proof (cases d)
    case (VObj b)
    then obtain b' where d': "d' = VObj b'" using assms(3) by (auto simp: same_constant_def split: slp_value.splits)
    then have "a' \<noteq> b'" using assms(4) c' by blast
    have "same_constant h h' (VObj a) (VObj a')" "same_constant h h' (VObj b) (VObj b')"
      using assms(2,3) \<open>c = VObj a\<close> VObj c' d' by simp_all
    then show ?thesis using assms(1) \<open>c = VObj a\<close> VObj c' d' \<open>a' \<noteq> b'\<close>
      by (elim disjE exE conjE same_constant_object [elim_format]) (simp_all add: constants_equal_def)
  next
    case VNull
    then show ?thesis using assms(3) c' by (auto simp: same_constant_def constants_equal_def split: slp_value.splits)
  next
    case (VBool x)
    then show ?thesis using assms(3) c' by (auto simp: same_constant_def constants_equal_def split: slp_value.splits)
  next
    case (VNum x)
    then show ?thesis using assms(3) c' by (auto simp: same_constant_def constants_equal_def split: slp_value.splits)
  qed
next
  case VNull
  then have c': "c' = VNull" using assms(2) by (auto simp: same_constant_def split: slp_value.splits)
  then show ?thesis using assms(1,3) VNull constants_equal_plain [of c d h h']
    by (cases d) (auto simp: same_constant_def constants_equal_def split: slp_value.splits)
next
  case (VBool x)
  then have c': "c' = VBool x" using assms(2) by (auto simp: same_constant_def split: slp_value.splits)
  then show ?thesis using assms(1,3) VBool constants_equal_plain [of c d h h']
    by (cases d) (auto simp: same_constant_def constants_equal_def split: slp_value.splits)
next
  case (VNum x)
  then have c': "c' = VNum x" using assms(2) by (auto simp: same_constant_def split: slp_value.splits)
  then show ?thesis using assms(1,3) VNum
    by (cases d) (auto simp: same_constant_def constants_equal_def split: slp_value.splits)
qed

lemma read_constants_ok:
  "list_all2 (same_constant h h') old (ck_constants ck) \<Longrightarrow> pool_distinct h (old @ cs) \<Longrightarrow>
   \<forall>c\<in>set cs. value_bytes h c \<noteq> None \<Longrightarrow>
   reader_ok r \<Longrightarrow> ahead r = concat (map (the \<circ> value_bytes h) cs) @ rest \<Longrightarrow> fresh_alloc alloc \<Longrightarrow> finite (dom h') \<Longrightarrow>
   chunk_ok ck \<Longrightarrow> ck_constant_capacity ck \<le> 2 ^ 30 \<Longrightarrow> length (old @ cs) < 2 ^ 29 \<Longrightarrow>
   \<exists>r' ck' h''. read_constants alloc (length cs) r ck h' = Some (r', ck', h'') \<and>
     list_all2 (same_constant h h'') (old @ cs) (ck_constants ck') \<and> ck_code ck' = ck_code ck \<and> h' \<subseteq>\<^sub>m h''"
proof (induction cs arbitrary: old r ck h')
  case Nil
  then show ?case by simp
next
  case (Cons c cs)
  then obtain bs where bs: "value_bytes h c = Some bs" by auto
  have "ahead r = bs @ (concat (map (the \<circ> value_bytes h) cs) @ rest)" using Cons.prems(5) bs by (simp add: comp_def)
  from deserialize_value_ok [OF bs Cons.prems(4) this Cons.prems(6,7)] obtain v' h1 where
    v': "deserialize_value alloc r h' = (v', advanced (length bs) r, h1)" "same_constant h h1 c v'" "h' \<subseteq>\<^sub>m h1"
    "finite (dom h1)" "\<And>a. v' = VObj a \<Longrightarrow> h' a = None" by blast
  have all2: "list_all2 (same_constant h h1) old (ck_constants ck)"
    using Cons.prems(1) by (rule list_all2_mono) (rule same_constant_mono [OF _ v'(3)])
  then have len: "length (ck_constants ck) = length old" by (simp add: list_all2_lengthD)
  have "constants_equal h1 (ck_constants ck ! k) v' = Some False" if "k < length (ck_constants ck)" for k
  proof (rule same_constant_distinct [OF _ _ v'(2)])
    show "constants_equal h (old ! k) c = Some False"
      using pool_distinct_nth [OF Cons.prems(2), of k "length old"] that len by (simp add: nth_append)
    show "same_constant h h1 (old ! k) (ck_constants ck ! k)" using list_all2_nthD2 [OF all2 that] .
    have "same_constant h h' (old ! k) (ck_constants ck ! k)" using list_all2_nthD2 [OF Cons.prems(1) that] .
    then show "ck_constants ck ! k = VObj a \<Longrightarrow> v' = VObj b \<Longrightarrow> a \<noteq> b" for a b
      using v'(5) same_constant_live by (metis domD option.distinct(1))
  qed
  then have find: "find_constant h1 (ck_constants ck) 0 v' = Some None" by (intro find_constant_none) blast
  let ?cap = "grown 16 (length (ck_constants ck)) (ck_constant_capacity ck)"
  let ?ck = "ck\<lparr>ck_constants := ck_constants ck @ [v'], ck_constant_capacity := ?cap\<rparr>"
  have cap: "int (length (ck_constants ck)) + 1 \<le> ?cap" "?cap \<le> 2 ^ 30"
    using grown_ok [of "length (ck_constants ck)" "ck_constant_capacity ck" 16] Cons.prems(8,9,10) len
    by (auto simp: chunk_ok_def)
  have add: "slp_chunk_add_constant h1 ck v' = Some (length (ck_constants ck), ?ck)"
    using find cap by (simp add: slp_chunk_add_constant_def Let_def)
  have "\<exists>r' ck' h''. read_constants alloc (length cs) (advanced (length bs) r) ?ck h1 = Some (r', ck', h'') \<and>
     list_all2 (same_constant h h'') ((old @ [c]) @ cs) (ck_constants ck') \<and> ck_code ck' = ck_code ?ck \<and> h1 \<subseteq>\<^sub>m h''"
  proof (rule Cons.IH)
    show "list_all2 (same_constant h h1) (old @ [c]) (ck_constants ?ck)" using all2 v'(2) by (simp add: list_all2_appendI)
    show "chunk_ok ?ck" using Cons.prems(8) cap by (simp add: chunk_ok_def)
    show "reader_ok (advanced (length bs) r)" using Cons.prems(4,5) bs by (intro reader_ok_advanced) simp_all
  qed (use Cons.prems bs v'(4) cap in auto)
  then obtain r' ck' h'' where res: "read_constants alloc (length cs) (advanced (length bs) r) ?ck h1 = Some (r', ck', h'')"
    "list_all2 (same_constant h h'') (old @ c # cs) (ck_constants ck')" "ck_code ck' = ck_code ck" "h1 \<subseteq>\<^sub>m h''" by auto
  moreover have "h' \<subseteq>\<^sub>m h''" using v'(3) res(4) by (rule map_le_trans)
  ultimately show ?case using v'(1) add by simp
qed

lemma read_code_ok:
  "reader_ok r \<Longrightarrow> ahead r = code @ rest \<Longrightarrow> chunk_ok ck \<Longrightarrow> ck_capacity ck \<le> 2 ^ 30 \<Longrightarrow>
   length (ck_code ck) + length code \<le> 2 ^ 29 \<Longrightarrow>
   \<exists>ck'. read_code (length code) r ck = Some (True, advanced (length code) r, ck') \<and> chunk_ok ck' \<and>
     ck_code ck' = ck_code ck @ code \<and> ck_constants ck' = ck_constants ck \<and>
     ck_constant_capacity ck' = ck_constant_capacity ck"
proof (induction code arbitrary: r ck)
  case Nil
  then show ?case by (simp add: advanced_def)
next
  case (Cons b code)
  have rd: "read_u8 r = Some (b, advanced 1 r)" using u8.dec_enc [of r b "code @ rest"] Cons.prems by simp
  obtain ck1 where ck1: "slp_chunk_write ck b 0 = Some (length (ck_code ck), ck1)" "chunk_ok ck1" "ck_capacity ck1 \<le> 2 ^ 30"
    "ck_code ck1 = ck_code ck @ [b]" "ck_constants ck1 = ck_constants ck" "ck_constant_capacity ck1 = ck_constant_capacity ck"
    using chunk_write_ok [OF Cons.prems(3) _ Cons.prems(4)] Cons.prems(5) by auto
  have "reader_ok (advanced 1 r)" "ahead (advanced 1 r) = code @ rest" using Cons.prems(1,2) by (auto intro!: reader_ok_advanced)
  from Cons.IH [OF this ck1(2,3)] Cons.prems(5) ck1(4) obtain ck' where
    "read_code (length code) (advanced 1 r) ck1 = Some (True, advanced (length code) (advanced 1 r), ck')" "chunk_ok ck'"
    "ck_code ck' = ck_code ck1 @ code" "ck_constants ck' = ck_constants ck1"
    "ck_constant_capacity ck' = ck_constant_capacity ck1" by auto
  with rd ck1 show ?case by simp
qed

definition chunk_bytes :: "heap \<Rightarrow> chunk \<Rightarrow> bytes" where
  "chunk_bytes h ck = bytes_u32 (word_of_nat (length (ck_code ck))) @ ck_code ck @
     bytes_u32 (word_of_nat (length (ck_constants ck))) @ concat (map (the \<circ> value_bytes h) (ck_constants ck))"

lemma serialize_chunk_ok:
  assumes "writer_ok w" "\<forall>c\<in>set (ck_constants ck). value_bytes h c \<noteq> None"
  shows "\<exists>w'. slp_bytecode_serialize_chunk h ck w = Some (True, w') \<and> writer_ok w' \<and>
    bw_buffer w' = bw_buffer w @ chunk_bytes h ck"
proof -
  obtain w1 where w1: "write_u32 (word_of_nat (length (ck_code ck))) w = Some w1" "writer_ok w1"
    "bw_buffer w1 = bw_buffer w @ bytes_u32 (word_of_nat (length (ck_code ck)))" using write_u32_ok [OF assms(1)] by blast
  obtain w2 where w2: "slp_bytecode_writer_write w1 (ck_code ck) = Some w2" "writer_ok w2" "bw_buffer w2 = bw_buffer w1 @ ck_code ck"
    using writer_write_ok [OF w1(2)] by blast
  obtain w3 where w3: "write_u32 (word_of_nat (length (ck_constants ck))) w2 = Some w3" "writer_ok w3"
    "bw_buffer w3 = bw_buffer w2 @ bytes_u32 (word_of_nat (length (ck_constants ck)))" using write_u32_ok [OF w2(2)] by blast
  from serialize_constants_ok [OF w3(2) assms(2)] w1 w2 w3 show ?thesis
    by (auto simp: slp_bytecode_serialize_chunk_def chunk_bytes_def)
qed

lemma read_u32_ok: "reader_ok r \<Longrightarrow> ahead r = bytes_u32 v @ rest \<Longrightarrow> read_u32 r = Some (v, advanced 4 r)"
  using u32.dec_enc [of r v rest] by simp

lemma unat_small: "n < 2 ^ 32 \<Longrightarrow> unat (word_of_nat n :: u32) = n"
  by (simp add: unsigned_of_nat take_bit_nat_eq_self)

lemma deserialize_chunk_ok:
  assumes r: "reader_ok r" "ahead r = chunk_bytes h ck @ rest"
    and al: "fresh_alloc alloc" "finite (dom h')"
    and ck: "length (ck_code ck) < 2 ^ 28" "length (ck_constants ck) < 2 ^ 28" "pool_distinct h (ck_constants ck)"
      "\<forall>c\<in>set (ck_constants ck). value_bytes h c \<noteq> None"
  shows "\<exists>ck' r' h''. slp_bytecode_deserialize_chunk alloc True r h' = Some (Some ck', r', h'') \<and>
    ck_code ck' = ck_code ck \<and> list_all2 (same_constant h h'') (ck_constants ck) (ck_constants ck') \<and> h' \<subseteq>\<^sub>m h''"
proof -
  let ?n = "length (ck_code ck)" and ?m = "length (ck_constants ck)"
  let ?cs = "concat (map (the \<circ> value_bytes h) (ck_constants ck))"
  note a = r(2) [unfolded chunk_bytes_def]
  have r1: "reader_ok (advanced 4 r)" "ahead (advanced 4 r) = ck_code ck @ bytes_u32 (word_of_nat ?m) @ ?cs @ rest"
    using r(1) a by (auto intro!: reader_ok_advanced)
  have rd1: "read_u32 r = Some (word_of_nat ?n, advanced 4 r)" using read_u32_ok [OF r(1)] a by simp
  obtain ck1 where ck1: "read_code ?n (advanced 4 r) slp_chunk_init = Some (True, advanced ?n (advanced 4 r), ck1)" "chunk_ok ck1"
    "ck_code ck1 = ck_code ck" "ck_constants ck1 = []" "ck_constant_capacity ck1 = 0"
    using read_code_ok [OF r1, of slp_chunk_init] ck(1) by (auto simp: chunk_ok_def slp_chunk_init_def)
  let ?r2 = "advanced ?n (advanced 4 r)"
  have r2: "reader_ok ?r2" "ahead ?r2 = bytes_u32 (word_of_nat ?m) @ ?cs @ rest"
    using reader_ok_past [OF r1] r1(2) by (simp_all del: advanced_advanced)
  have rd2: "read_u32 ?r2 = Some (word_of_nat ?m, advanced 4 ?r2)" using read_u32_ok [OF r2] .
  have r3: "reader_ok (advanced 4 ?r2)" "ahead (advanced 4 ?r2) = ?cs @ rest"
    using reader_ok_past [OF r2] r2(2) by (simp_all del: advanced_advanced)
  obtain r' ck' h'' where "read_constants alloc ?m (advanced 4 ?r2) ck1 h' = Some (r', ck', h'')"
    "list_all2 (same_constant h h'') (ck_constants ck) (ck_constants ck')" "ck_code ck' = ck_code ck" "h' \<subseteq>\<^sub>m h''"
    using read_constants_ok [of h h' "[]" ck1 "ck_constants ck", OF _ _ ck(4) r3 al ck1(2)] ck ck1 by auto
  then show ?thesis using rd1 ck1(1) rd2 ck(1,2)
    by (auto simp: slp_bytecode_deserialize_chunk_def unat_small simp del: advanced_advanced)
qed

subsection \<open>Functions\<close>

definition function_bytes :: "heap \<Rightarrow> obj_function \<Rightarrow> string \<Rightarrow> chunk \<Rightarrow> bytes" where
  "function_bytes h f name ck =
     bytes_u32 SLP_BYTECODE_MAGIC @ bytes_u32 SLP_BYTECODE_VERSION @ bytes_u32 (word_of_nat (length name)) @
     char_bytes name @ [word_of_int (fn_arity f), word_of_int (fn_upvalue_count f)] @ chunk_bytes h ck"

lemma serialize_function_ok:
  assumes "writer_ok w" "fn_chunk f = Some ck" "function_name_chars h f = Some name"
    and "\<forall>c\<in>set (ck_constants ck). value_bytes h c \<noteq> None"
  shows "\<exists>w'. slp_bytecode_serialize_function h f w = Some (True, w') \<and> bw_buffer w' = bw_buffer w @ function_bytes h f name ck"
proof -
  obtain w1 where w1: "write_u32 SLP_BYTECODE_MAGIC w = Some w1" "writer_ok w1" "bw_buffer w1 = bw_buffer w @ bytes_u32 SLP_BYTECODE_MAGIC"
    using write_u32_ok [OF assms(1)] by blast
  obtain w2 where w2: "write_u32 SLP_BYTECODE_VERSION w1 = Some w2" "writer_ok w2" "bw_buffer w2 = bw_buffer w1 @ bytes_u32 SLP_BYTECODE_VERSION"
    using write_u32_ok [OF w1(2)] by blast
  obtain w3 where w3: "write_u32 (word_of_nat (length name)) w2 = Some w3" "writer_ok w3"
    "bw_buffer w3 = bw_buffer w2 @ bytes_u32 (word_of_nat (length name))" using write_u32_ok [OF w2(2)] by blast
  obtain w4 where w4: "(if name \<noteq> [] then slp_bytecode_writer_write w3 (char_bytes name) else Some w3) = Some w4" "writer_ok w4"
    "bw_buffer w4 = bw_buffer w3 @ char_bytes name"
    using writer_write_ok [OF w3(2), of "char_bytes name"] w3(2) by (cases "name = []") (auto simp: char_bytes_def)
  obtain w5 where w5: "write_u8 (word_of_int (fn_arity f)) w4 = Some w5" "writer_ok w5"
    "bw_buffer w5 = bw_buffer w4 @ [word_of_int (fn_arity f)]" using write_u8_ok [OF w4(2)] by blast
  obtain w6 where w6: "write_u8 (word_of_int (fn_upvalue_count f)) w5 = Some w6" "writer_ok w6"
    "bw_buffer w6 = bw_buffer w5 @ [word_of_int (fn_upvalue_count f)]" using write_u8_ok [OF w5(2)] by blast
  obtain w7 where w7: "slp_bytecode_serialize_chunk h ck w6 = Some (True, w7)" "bw_buffer w7 = bw_buffer w6 @ chunk_bytes h ck"
    using serialize_chunk_ok [OF w6(2) assms(4)] by blast
  have "slp_bytecode_serialize_function h f w = Some (True, w7)"
    unfolding slp_bytecode_serialize_function_def w1(1) w2(1) assms(2,3) bind.bind_lunit w3(1) w4(1) w5(1) w6(1) w7(1) ..
  then show ?thesis using w1(3) w2(3) w3(3) w4(3) w5(3) w6(3) w7(2) by (simp add: function_bytes_def)
qed

lemma read_header_ok:
  assumes "reader_ok r" "ahead r = bytes_u32 SLP_BYTECODE_MAGIC @ bytes_u32 SLP_BYTECODE_VERSION @ bytes_u32 (word_of_nat n) @ rest"
    and "n < 2 ^ 32"
  shows "read_function_header r = Some (n, advanced 12 r)" "reader_ok (advanced 12 r)" "ahead (advanced 12 r) = rest"
proof -
  have 1: "reader_ok (advanced 4 r)" "ahead (advanced 4 r) = bytes_u32 SLP_BYTECODE_VERSION @ bytes_u32 (word_of_nat n) @ rest"
    using reader_ok_past [OF assms(1,2)] assms(2) by simp_all
  have 2: "reader_ok (advanced 8 r)" "ahead (advanced 8 r) = bytes_u32 (word_of_nat n) @ rest"
    using reader_ok_past [OF 1] 1(2) assms(2) by simp_all
  show "reader_ok (advanced 12 r)" "ahead (advanced 12 r) = rest"
    using reader_ok_past [OF 2] 2(2) assms(2) by simp_all
  show "read_function_header r = Some (n, advanced 12 r)"
    using read_u32_ok [OF assms(1,2)] read_u32_ok [OF 1] read_u32_ok [OF 2] assms(3)
    by (simp add: read_function_header_def unat_small)
qed

text \<open>The name pointer that is read points to a new string, or is \<open>NULL\<close> for an empty name.\<close>

definition name_read :: "heap \<Rightarrow> ptr \<Rightarrow> string \<Rightarrow> bool" where
  "name_read h p name \<longleftrightarrow>
     (case p of None \<Rightarrow> name = [] | Some a \<Rightarrow> name \<noteq> [] \<and> h a = Some (OString \<lparr>s_chars = name, s_hash = slp_hash_string name\<rparr>))"

lemma read_name_ok:
  assumes "reader_ok r" "ahead r = char_bytes name @ rest" "fresh_alloc alloc" "finite (dom h)"
  shows "\<exists>p h'. read_function_name alloc (length name) r h = Some (p, advanced (length name) r, h') \<and> h \<subseteq>\<^sub>m h' \<and>
    finite (dom h') \<and> name_read h' p name"
proof (cases "name = []")
  case True
  then show ?thesis using assms(4) by (simp add: read_function_name_def name_read_def advanced_def)
next
  case False
  obtain a where a: "alloc h = Some a" "h a = None" using assms(3,4) by (auto simp: fresh_alloc_def)
  have "length (ahead r) = length name + length rest" using assms(2) by simp
  then have "\<not> length (br_data r) - br_offset r < length name" by (simp add: length_ahead)
  moreover have "slp_bytecode_reader_read r (length name) = Some (char_bytes name, advanced (length name) r)"
    using reader_read_ok [OF assms(1,2)] by simp
  ultimately show ?thesis using False a assms(4) map_le_fresh [of h a]
    by (simp add: read_function_name_def slp_obj_string_new_def place_def name_read_def)
qed

lemma same_constant_update:
  assumes "same_constant h h' c c'" "h' a = Some (OFunction g)"
  shows "same_constant h (h'(a := x)) c c'"
proof (cases c')
  case (VObj b)
  show ?thesis
  proof (cases c)
    case (VObj d)
    have "b \<noteq> a" using same_constant_object [of h h' d b] assms VObj \<open>c' = VObj b\<close> by auto
    then show ?thesis using assms(1) VObj \<open>c' = VObj b\<close> by (simp add: same_constant_def)
  qed (use assms(1) VObj in \<open>simp_all add: same_constant_def\<close>)
qed (use assms(1) in \<open>cases c; simp add: same_constant_def\<close>)+

lemma name_read_later:
  assumes "name_read h p name" "h \<subseteq>\<^sub>m h'" "h' a = Some (OFunction g)"
  shows "name_read (h'(a := x)) p name"
proof (cases p)
  case None
  then show ?thesis using assms(1) by (simp add: name_read_def)
next
  case (Some b)
  then have "h b = Some (OString \<lparr>s_chars = name, s_hash = slp_hash_string name\<rparr>)" using assms(1) by (simp add: name_read_def)
  moreover from this have "h' b = h b" using assms(2) by (auto simp: map_le_def dom_def)
  ultimately show ?thesis using assms(1,3) Some by (auto simp: name_read_def)
qed

lemma name_read_chars: "name_read h p name \<Longrightarrow> fn_name f = p \<Longrightarrow> function_name_chars h f = Some name"
  by (auto simp: name_read_def function_name_chars_def get_string_def split: option.splits)

lemma byte_of_int: "0 \<le> n \<Longrightarrow> n < 256 \<Longrightarrow> uint (word_of_int n :: byte) = n"
  by (simp add: word_of_int_inverse)

subsection \<open>Properties\<close>

text \<open>C4: reading back a serialized function gives a new function with the same arity, upvalue count, name and
  code and the same constants (strings, longs and doubles as new objects of the same content), without
  its source name. The name and the pool must fit the format, and no constant may be another object.\<close>

theorem bytecode_roundtrip:
  assumes "fresh_alloc alloc" "finite (dom h')"
    and "fn_chunk f = Some ck" "length (ck_code ck) < 2 ^ 28" "length (ck_constants ck) < 2 ^ 28" "pool_distinct h (ck_constants ck)"
      "\<forall>c\<in>set (ck_constants ck). value_bytes h c \<noteq> None"
    and "function_name_chars h f = Some name" "length name < 2 ^ 32"
    and "0 \<le> fn_arity f" "fn_arity f < 256" "0 \<le> fn_upvalue_count f" "fn_upvalue_count f < 256"
  shows "\<exists>w a h'' g ck'. slp_bytecode_serialize_function h f slp_bytecode_writer_init = Some (True, w) \<and>
    slp_bytecode_deserialize_function alloc True (slp_bytecode_reader_init (bw_buffer w)) h' = Some (Some a, h'') \<and>
    h'' a = Some (OFunction g) \<and> fn_arity g = fn_arity f \<and> fn_upvalue_count g = fn_upvalue_count f \<and>
    function_name_chars h'' g = Some name \<and> fn_source_name g = None \<and> fn_chunk g = Some ck' \<and> ck_code ck' = ck_code ck \<and>
    list_all2 (same_constant h h'') (ck_constants ck) (ck_constants ck')"
proof -
  obtain w where w: "slp_bytecode_serialize_function h f slp_bytecode_writer_init = Some (True, w)"
    "bw_buffer w = function_bytes h f name ck"
    using serialize_function_ok [OF writer_init_ok assms(3,8,7)] by (auto simp: slp_bytecode_writer_init_def)
  let ?r = "slp_bytecode_reader_init (bw_buffer w)"
  have r: "reader_ok ?r" "ahead ?r = function_bytes h f name ck"
    using w(2) by (simp_all add: slp_bytecode_reader_init_def reader_ok_def ahead_def)
  note hd = read_header_ok [OF r(1) r(2) [unfolded function_bytes_def] assms(9)]
  obtain a where a: "alloc h' = Some a" "h' a = None" using assms(1,2) by (auto simp: fresh_alloc_def)
  let ?f0 = "\<lparr>fn_arity = 0, fn_upvalue_count = 0, fn_chunk = Some slp_chunk_init, fn_name = None, fn_source_name = None,
               fn_line_start = 0, fn_line_end = 0\<rparr>"
  let ?h0 = "h'(a \<mapsto> OFunction ?f0)"
  have new: "slp_obj_function_new (alloc h') True h' = (Some a, ?h0)" using a by (simp add: slp_obj_function_new_def place_def)
  obtain p h1 where nm: "read_function_name alloc (length name) (advanced 12 ?r) ?h0 = Some (p, advanced (12 + length name) ?r, h1)"
    "?h0 \<subseteq>\<^sub>m h1" "finite (dom h1)" "name_read h1 p name"
    using read_name_ok [OF hd(2,3) assms(1), of ?h0] assms(2) by auto
  let ?r1 = "advanced (12 + length name) ?r"
  have r1: "reader_ok ?r1" "ahead ?r1 = [word_of_int (fn_arity f), word_of_int (fn_upvalue_count f)] @ chunk_bytes h ck"
    using reader_ok_past [OF hd(2,3)] arg_cong [OF hd(3), of "drop (length name)"] by (simp_all add: ac_simps)
  have b1: "read_u8 ?r1 = Some (word_of_int (fn_arity f), advanced 1 ?r1)" using u8.dec_enc [OF r1(1)] r1(2) by simp
  have r2: "reader_ok (advanced 1 ?r1)" "ahead (advanced 1 ?r1) = [word_of_int (fn_upvalue_count f)] @ chunk_bytes h ck"
    using reader_ok_past [OF r1(1), of "[_]"] r1(2) by (simp_all del: advanced_advanced)
  have b2: "read_u8 (advanced 1 ?r1) = Some (word_of_int (fn_upvalue_count f), advanced 1 (advanced 1 ?r1))"
    using u8.dec_enc [OF r2(1)] r2(2) by (simp del: advanced_advanced)
  let ?r3 = "advanced 1 (advanced 1 ?r1)"
  have r3: "reader_ok ?r3" "ahead ?r3 = chunk_bytes h ck @ []"
    using reader_ok_past [OF r2] r2(2) by (simp_all del: advanced_advanced)
  have "a \<in> dom ?h0" by simp
  then have h1a: "h1 a = Some (OFunction ?f0)" using nm(2) by (auto simp: map_le_def)
  obtain ck' r' h2 where dc: "slp_bytecode_deserialize_chunk alloc True ?r3 h1 = Some (Some ck', r', h2)"
    "ck_code ck' = ck_code ck" "list_all2 (same_constant h h2) (ck_constants ck) (ck_constants ck')" "h1 \<subseteq>\<^sub>m h2"
    using deserialize_chunk_ok [OF r3 assms(1) nm(3) assms(4-7)] by blast
  have h2a: "h2 a = Some (OFunction ?f0)" using dc(4) h1a by (auto simp: map_le_def dom_def)
  let ?g = "?f0\<lparr>fn_name := p, fn_arity := fn_arity f, fn_upvalue_count := fn_upvalue_count f, fn_chunk := Some ck'\<rparr>"
  let ?h3 = "h2(a \<mapsto> OFunction ?g)"
  have "slp_bytecode_deserialize_function alloc True ?r h' = Some (Some a, ?h3)"
    using hd(1) new nm(1) b1 b2 h1a dc(1) assms(10-13)
    by (simp add: slp_bytecode_deserialize_function_def get_function_def byte_of_int del: advanced_advanced fun_upd_apply)
  moreover have "function_name_chars ?h3 ?g = Some name"
    using name_read_later [OF nm(4) dc(4) h2a] by (intro name_read_chars) simp_all
  moreover have "list_all2 (same_constant h ?h3) (ck_constants ck) (ck_constants ck')"
    using dc(3) by (rule list_all2_mono) (erule same_constant_update [where h' = h2 and a = a], rule h2a)
  ultimately show ?thesis
    using w(1) dc(2) by (intro exI [of _ w] exI [of _ a] exI [of _ ?h3] exI [of _ ?g] exI [of _ ck']) simp
qed

text \<open>A function that meets every hypothesis: two constants, an empty heap to read into.\<close>

definition sample_alloc :: allocator where
  "sample_alloc h = Some (LEAST a. h a = None)"

lemma sample_alloc_fresh: "fresh_alloc sample_alloc"
proof -
  have "\<exists>a. h a = None" if "finite (dom h)" for h :: heap
    using ex_new_if_finite [OF infinite_UNIV_nat that] by (auto simp: dom_def)
  then show ?thesis unfolding fresh_alloc_def sample_alloc_def by (auto intro: LeastI_ex)
qed

definition sample_heap :: heap where
  "sample_heap = [1 \<mapsto> OString \<lparr>s_chars = ''id'', s_hash = slp_hash_string ''id''\<rparr>, 2 \<mapsto> OLong 7]"

definition sample_chunk :: chunk where
  "sample_chunk = \<lparr>ck_code = [1, 0, 0, 2], ck_lines = [1, 1, 1, 2], ck_capacity = 64, ck_constants = [VNull, VObj 2], ck_constant_capacity = 16\<rparr>"

definition sample_function :: obj_function where
  "sample_function = \<lparr>fn_arity = 2, fn_upvalue_count = 0, fn_chunk = Some sample_chunk, fn_name = Some 1, fn_source_name = None,
     fn_line_start = 1, fn_line_end = 2\<rparr>"

theorem bytecode_roundtrip_witness:
  "\<exists>w a h'' g ck'. slp_bytecode_serialize_function sample_heap sample_function slp_bytecode_writer_init = Some (True, w) \<and>
    slp_bytecode_deserialize_function sample_alloc True (slp_bytecode_reader_init (bw_buffer w)) Map.empty = Some (Some a, h'') \<and>
    h'' a = Some (OFunction g) \<and> fn_arity g = 2 \<and> function_name_chars h'' g = Some ''id'' \<and> fn_chunk g = Some ck' \<and>
    ck_code ck' = [1, 0, 0, 2]"
proof -
  have "pool_distinct sample_heap (ck_constants sample_chunk)"
    by (simp add: pool_distinct_def sample_chunk_def constants_equal_def less_Suc_eq)
  moreover have "function_name_chars sample_heap sample_function = Some ''id''"
    by (simp add: function_name_chars_def sample_function_def sample_heap_def get_string_def)
  moreover have "\<forall>c\<in>set (ck_constants sample_chunk). value_bytes sample_heap c \<noteq> None"
    by (simp add: sample_chunk_def sample_heap_def value_bytes_def)
  ultimately show ?thesis
    using bytecode_roundtrip [of sample_alloc Map.empty sample_function sample_chunk sample_heap "''id''"] sample_alloc_fresh
    by (auto simp: sample_function_def sample_chunk_def)
qed

lemma read_constants_at_end:
  "reader_ok r \<Longrightarrow> ahead r = [] \<Longrightarrow> ck_constants ck = [VNull] \<Longrightarrow> read_constants alloc n r ck h = Some (r, ck, h)"
proof (induction n)
  case (Suc n)
  have "deserialize_value alloc r h = (VNull, r, h)"
    using reader_read_short [of r 1] Suc.prems by (simp add: deserialize_value_def read_u8_def)
  moreover have "slp_chunk_add_constant h ck VNull = Some (0, ck)"
    using Suc.prems by (simp add: slp_chunk_add_constant_def constants_equal_def slp_value_equals_def is_numeric_value_def same_value_def)
  ultimately show ?case using Suc by simp
qed simp

text \<open>A chunk whose header promises constants but whose input ends there is not rejected: every missing
  constant is read as null, and the pool merges them into one null constant.\<close>

theorem truncated_constants:
  assumes "reader_ok r" "ahead r = bytes_u32 (word_of_nat (length code)) @ code @ bytes_u32 n" "n \<noteq> 0" "length code < 2 ^ 28"
  shows "\<exists>ck r'. slp_bytecode_deserialize_chunk alloc True r h = Some (Some ck, r', h) \<and> ck_code ck = code \<and> ck_constants ck = [VNull]"
proof -
  have rd1: "read_u32 r = Some (word_of_nat (length code), advanced 4 r)" using read_u32_ok assms(1,2) by blast
  have r1: "reader_ok (advanced 4 r)" "ahead (advanced 4 r) = code @ bytes_u32 n"
    using reader_ok_past [OF assms(1,2)] assms(2) by simp_all
  obtain ck1 where ck1: "read_code (length code) (advanced 4 r) slp_chunk_init = Some (True, advanced (length code) (advanced 4 r), ck1)"
    "ck_code ck1 = code" "ck_constants ck1 = []" "ck_constant_capacity ck1 = 0"
    using read_code_ok [OF r1, of slp_chunk_init] assms(4) by (auto simp: chunk_ok_def slp_chunk_init_def)
  let ?r2 = "advanced (length code) (advanced 4 r)"
  have r2: "reader_ok ?r2" "ahead ?r2 = bytes_u32 n @ []"
    using reader_ok_past [OF r1] r1(2) by (simp_all del: advanced_advanced)
  have rd2: "read_u32 ?r2 = Some (n, advanced 4 ?r2)" using read_u32_ok [OF r2] .
  let ?r3 = "advanced 4 ?r2"
  have r3: "reader_ok ?r3" "ahead ?r3 = []" using reader_ok_past [OF r2] r2(2) by (simp_all del: advanced_advanced)
  obtain m where m: "unat n = Suc m" using assms(3) by (metis not0_implies_Suc unat_eq_0)
  let ?ck = "ck1\<lparr>ck_constants := [VNull], ck_constant_capacity := 16\<rparr>"
  have "deserialize_value alloc ?r3 h = (VNull, ?r3, h)"
    using reader_read_short [OF r3(1), of 1] r3(2) by (simp add: deserialize_value_def read_u8_def)
  moreover have "slp_chunk_add_constant h ck1 VNull = Some (0, ?ck)"
    using ck1 by (simp add: slp_chunk_add_constant_def grown_def)
  ultimately have "read_constants alloc (unat n) ?r3 ck1 h = Some (?r3, ?ck, h)"
    unfolding m using read_constants_at_end [OF r3, of ?ck alloc m h] by simp
  then show ?thesis using rd1 ck1(1,2) rd2 assms(4)
    by (simp add: slp_bytecode_deserialize_chunk_def unat_small del: advanced_advanced)
qed

theorem truncated_constants_witness:
  "\<exists>ck r'. slp_bytecode_deserialize_chunk (\<lambda>_. None) True (slp_bytecode_reader_init [0, 0, 0, 1, 9, 0, 0, 0, 3]) Map.empty
      = Some (Some ck, r', Map.empty) \<and> ck_code ck = [9] \<and> ck_constants ck = [VNull]"
proof -
  have "ahead (slp_bytecode_reader_init [0, 0, 0, 1, 9, 0, 0, 0, 3]) = bytes_u32 (word_of_nat (length [9])) @ [9] @ bytes_u32 3"
    by (simp add: ahead_def slp_bytecode_reader_init_def bytes_u32_def drop_bit_numeral_bit1 drop_bit_eq_div)
  then show ?thesis
    using truncated_constants [of "slp_bytecode_reader_init [0, 0, 0, 1, 9, 0, 0, 0, 3]" "[9]" 3 "\<lambda>_. None" Map.empty]
    by (simp add: reader_ok_def slp_bytecode_reader_init_def)
qed

lemma serialize_constants_reject:
  "writer_ok w \<Longrightarrow> \<forall>c\<in>set cs. value_bytes h c \<noteq> None \<Longrightarrow> \<forall>w. serialize_value h c w = Some (False, w) \<Longrightarrow>
   \<exists>w'. serialize_constants h (cs @ c # rest) w = Some (False, w')"
proof (induction cs arbitrary: w)
  case (Cons d cs)
  then obtain bs where "value_bytes h d = Some bs" by auto
  then obtain w1 where "serialize_value h d w = Some (True, w1)" "writer_ok w1" using serialize_value_ok [OF Cons.prems(1)] by blast
  with Cons.IH [of w1] Cons.prems(2,3) show ?case by simp
qed simp

text \<open>A chunk with a constant of another object type, as the function constants of closures are, is not
  serialized: the writer reports failure at the first such constant.\<close>

theorem function_constants_rejected:
  assumes "writer_ok w" "ck_constants ck = cs @ VObj a # rest" "\<forall>c\<in>set cs. value_bytes h c \<noteq> None" "h a = Some (OFunction f)"
  shows "\<exists>w'. slp_bytecode_serialize_chunk h ck w = Some (False, w')"
proof -
  obtain w1 where w1: "write_u32 (word_of_nat (length (ck_code ck))) w = Some w1" "writer_ok w1" using write_u32_ok [OF assms(1)] by blast
  obtain w2 where w2: "slp_bytecode_writer_write w1 (ck_code ck) = Some w2" "writer_ok w2" using writer_write_ok [OF w1(2)] by blast
  obtain w3 where w3: "write_u32 (word_of_nat (length (ck_constants ck))) w2 = Some w3" "writer_ok w3" using write_u32_ok [OF w2(2)] by blast
  have "\<forall>w. serialize_value h (VObj a) w = Some (False, w)" using assms(4) by (simp add: serialize_value_def)
  from serialize_constants_reject [OF w3(2) assms(3) this, of rest] show ?thesis
    unfolding slp_bytecode_serialize_chunk_def w1(1) w2(1) bind.bind_lunit w3(1) unfolding assms(2) .
qed

theorem function_constants_rejected_witness:
  "\<exists>w'. slp_bytecode_serialize_chunk [5 \<mapsto> OFunction sample_function] (sample_chunk\<lparr>ck_constants := [VNull, VObj 5]\<rparr>)
     slp_bytecode_writer_init = Some (False, w')"
  using function_constants_rejected [of slp_bytecode_writer_init _ "[VNull]" 5 "[]"]
  by (simp add: writer_init_ok value_bytes_def)

end
