(* ===== verification/VM_State.thy ===== *)
theory VM_State
  imports Chunks
begin

text \<open>
  The state of the virtual machine that the memory manager works on (\<^verbatim>\<open>include/slp_vm.h\<close>), the object
  types, and the linking of a new object into the list of the collector.

  The mark bits of the object headers are the set \<open>vm_marked\<close>, the \<open>next\<close> pointers of the headers the
  list \<open>vm_objects\<close>. The value stack is the part below \<open>stack_top\<close>. The effects of closing the handle of
  a collected object are recorded in \<open>vm_platform_calls\<close>, the messages handed to the host in
  \<open>vm_warnings\<close> and \<open>vm_errors\<close> (without the source position the code adds to a warning), other texts given
  to \<open>slp_vm_write\<close> in \<open>vm_output\<close>. A bridge type is its keyword and the number of its handler, if it has
  one. Left out: the callbacks themselves, and the fields \<open>halted\<close> and \<open>next_proxy_identity\<close>, which only
  the standard library uses.
\<close>

datatype obj_type = T_STRING | T_CLASS | T_JAVA_OBJECT | T_LONG | T_DOUBLE | T_ARRAY | T_HASH | T_FUNCTION
  | T_CLOSURE | T_UPVALUE | T_CONTINUATION | T_NATIVE | T_BRIDGE | T_IO_HANDLE | T_KEY_VALUE | T_TAINTED
  | T_SCALAR_CELL

fun type_of :: "obj \<Rightarrow> obj_type" where
  "type_of (OString _) = T_STRING"
| "type_of (OClass _) = T_CLASS"
| "type_of (OJava _) = T_JAVA_OBJECT"
| "type_of (OLong _) = T_LONG"
| "type_of (ODouble _) = T_DOUBLE"
| "type_of (OArray _) = T_ARRAY"
| "type_of (OHash _) = T_HASH"
| "type_of (OFunction _) = T_FUNCTION"
| "type_of (OClosure _) = T_CLOSURE"
| "type_of (OUpvalue _) = T_UPVALUE"
| "type_of (OContinuation _) = T_CONTINUATION"
| "type_of (ONative _) = T_NATIVE"
| "type_of (OBridge _) = T_BRIDGE"
| "type_of (OIOHandle _) = T_IO_HANDLE"
| "type_of (OKeyValue _) = T_KEY_VALUE"
| "type_of (OTainted _) = T_TAINTED"
| "type_of (OScalarCell _) = T_SCALAR_CELL"

datatype platform_call = Close_file nat bool | Close_socket int | Wait_pid int

datatype slp_result = SLP_OK | SLP_COMPILE_ERROR | SLP_RUNTIME_ERROR | SLP_HALT

text \<open>A callable handle of the embedding interface: its address and the value it keeps alive.\<close>

record callable =
  cb_handle :: addr
  cb_value :: slp_value

record vm =
  vm_heap :: heap
  vm_marked :: "addr set"
  vm_stack :: "slp_value list"
  vm_frames :: "call_frame list"
  vm_globals :: ptr
  vm_objects :: "addr list"
  vm_interned :: "ptr list option"
  vm_interned_count :: int
  vm_interned_capacity :: int
  vm_open_upvalues :: ptr
  vm_natives :: ptr
  vm_bytes_allocated :: u64
  vm_next_gc_threshold :: u64
  vm_gray_stack :: "addr list"
  vm_gray_capacity :: int
  vm_ffi_slots :: "slp_value list"
  vm_callables :: "callable list"
  vm_thrown_exception :: slp_value
  vm_last_error :: slp_value
  vm_last_regex_matches :: ptr
  vm_last_stack_trace :: ptr
  vm_profile_statistics :: ptr
  vm_packed_objects :: ptr
  vm_console_handle :: ptr
  vm_platform_calls :: "platform_call list"
  vm_abort_requested :: bool
  vm_next_closure_identity :: u64
  vm_warnings :: "string list"
  vm_errors :: "string list"
  vm_output :: "string list"
  vm_try_handlers :: "try_handler list"
  vm_debug_flags :: u32
  vm_flow_exit_requested :: bool
  vm_source_name :: "string option"
  vm_source_path :: "string option"
  vm_bridge_types :: "(string \<times> nat option) list"

text \<open>The machine after the first part of \<open>slp_vm_new\<close>, before the tables of globals and natives are created.\<close>

definition vm_zero :: vm where
  "vm_zero =
     \<lparr>vm_heap = Map.empty, vm_marked = {}, vm_stack = [], vm_frames = [], vm_globals = None, vm_objects = [],
      vm_interned = None, vm_interned_count = 0, vm_interned_capacity = 0, vm_open_upvalues = None, vm_natives = None,
      vm_bytes_allocated = 0, vm_next_gc_threshold = 1024 * 1024, vm_gray_stack = [], vm_gray_capacity = 0,
      vm_ffi_slots = replicate 256 VNull, vm_callables = [], vm_thrown_exception = VNull, vm_last_error = VNull,
      vm_last_regex_matches = None, vm_last_stack_trace = None, vm_profile_statistics = None, vm_packed_objects = None,
      vm_console_handle = None, vm_platform_calls = [], vm_abort_requested = False, vm_next_closure_identity = 0,
      vm_warnings = [], vm_errors = [], vm_output = [], vm_try_handlers = [], vm_debug_flags = 1,
      vm_flow_exit_requested = False, vm_source_name = None, vm_source_path = None, vm_bridge_types = []\<rparr>"

text \<open>
  The size of a C struct depends on the platform: \<open>sizes\<close> gives \<open>sizeof\<close> of the struct of an object
  type. A string has its characters and the NUL behind the struct.
\<close>

type_synonym struct_sizes = "obj_type \<Rightarrow> u64"

definition slp_gc_object_size :: "struct_sizes \<Rightarrow> obj \<Rightarrow> u64" where
  "slp_gc_object_size sizes ob =
     (case ob of OString s \<Rightarrow> sizes T_STRING + word_of_nat (length (s_chars s)) + 1 | _ \<Rightarrow> sizes (type_of ob))"

definition track_object :: "struct_sizes \<Rightarrow> addr \<Rightarrow> vm \<Rightarrow> vm option" where
  "track_object sizes a vm =
     do { ob \<leftarrow> vm_heap vm a;
          Some (vm\<lparr>vm_objects := a # vm_objects vm,
                   vm_bytes_allocated := vm_bytes_allocated vm + slp_gc_object_size sizes ob\<rparr>) }"

text \<open>A pointer as the value that holds it: \<open>NULL\<close> becomes a value without an object.\<close>

definition ptr_value :: "ptr \<Rightarrow> slp_value" where
  "ptr_value p = (case p of None \<Rightarrow> VNull | Some a \<Rightarrow> VObj a)"

lemma ptr_value_obj [simp]: "ptr_value p = VObj a \<longleftrightarrow> p = Some a"
  by (simp add: ptr_value_def split: option.splits)

end
