(* ===== verification/Interning.thy ===== *)
theory Interning
  imports VM_State Hashes
begin

text \<open>
  The interning of strings (\<^verbatim>\<open>src/slp_vm.c\<close>): an open-addressing table of pointers to string objects,
  without deletion; every string object of the machine comes from \<open>slp_vm_intern_string\<close>. Whether the
  table could be allocated and the pointer the allocation of the object returned are arguments.
\<close>

text \<open>The index of the first free entry from \<open>idx\<close> on; a full table has none and the loop does not end.\<close>

partial_function (option) first_null :: "ptr list \<Rightarrow> nat \<Rightarrow> nat option" where
  [code]: "first_null tab idx =
     (if idx < length tab then if tab ! idx = None then Some idx else first_null tab (next_slot idx (length tab))
      else None)"

definition intern_put :: "heap \<Rightarrow> addr \<Rightarrow> ptr list \<Rightarrow> ptr list option" where
  "intern_put h a tab =
     do { s \<leftarrow> get_string h a; idx \<leftarrow> first_null tab (slot (s_hash s) (length tab)); Some (tab[idx := Some a]) }"

fun move_entries :: "heap \<Rightarrow> ptr list \<Rightarrow> ptr list \<Rightarrow> ptr list option" where
  "move_entries h [] tab = Some tab"
| "move_entries h (None # old) tab = move_entries h old tab"
| "move_entries h (Some a # old) tab = do { tab \<leftarrow> intern_put h a tab; move_entries h old tab }"

definition intern_grow :: "bool \<Rightarrow> vm \<Rightarrow> vm option" where
  "intern_grow table_allocated vm =
     (let new_cap = vm_interned_capacity vm * 2
      in if INT32_MAX < new_cap then None
         else if \<not> table_allocated then Some vm
         else (case vm_interned vm of
                 None \<Rightarrow> None
               | Some old \<Rightarrow>
                   do { tab \<leftarrow> move_entries (vm_heap vm) old (replicate (nat new_cap) None);
                        Some (vm\<lparr>vm_interned := Some tab, vm_interned_capacity := new_cap\<rparr>) }))"

text \<open>The lookup loop; the counter is the number of probes left.\<close>

fun intern_probe :: "heap \<Rightarrow> ptr list \<Rightarrow> string \<Rightarrow> u32 \<Rightarrow> nat \<Rightarrow> nat \<Rightarrow> ptr option" where
  "intern_probe h tab chars hash 0 idx = Some None"
| "intern_probe h tab chars hash (Suc n) idx =
     (if length tab \<le> idx then None
      else (case tab ! idx of
              None \<Rightarrow> Some None
            | Some a \<Rightarrow>
                do { s \<leftarrow> get_string h a;
                     if s_hash s = hash \<and> s_chars s = chars then Some (Some a)
                     else intern_probe h tab chars hash n (next_slot idx (length tab)) }))"

definition find_interned :: "string \<Rightarrow> vm \<Rightarrow> ptr option" where
  "find_interned chars vm =
     (case vm_interned vm of
        None \<Rightarrow> Some None
      | Some tab \<Rightarrow> intern_probe (vm_heap vm) tab chars (slp_hash_string chars) (length tab)
                      (slot (slp_hash_string chars) (length tab)))"

definition make_room :: "bool \<Rightarrow> vm \<Rightarrow> vm option" where
  "make_room table_allocated vm =
     (if INT32_MAX < vm_interned_count vm * 2 then None
      else if vm_interned_count vm * 2 < vm_interned_capacity vm then Some vm
      else (case vm_interned vm of
              None \<Rightarrow> Some (vm\<lparr>vm_interned_capacity := 256,
                               vm_interned := (if table_allocated then Some (replicate 256 None) else None)\<rparr>)
            | Some _ \<Rightarrow> intern_grow table_allocated vm))"

definition slp_vm_intern_string :: "struct_sizes \<Rightarrow> bool \<Rightarrow> ptr \<Rightarrow> string \<Rightarrow> vm \<Rightarrow> (ptr \<times> vm) option" where
  "slp_vm_intern_string sizes table_allocated p chars vm =
     do { found \<leftarrow> find_interned chars vm;
          (case found of
             Some a \<Rightarrow> Some (Some a, vm)
           | None \<Rightarrow>
               do { vm \<leftarrow> make_room table_allocated vm;
                    (case slp_obj_string_new p chars (vm_heap vm) of
                       (None, h) \<Rightarrow> Some (None, vm\<lparr>vm_heap := h\<rparr>)
                     | (Some a, h) \<Rightarrow>
                         do { vm \<leftarrow> track_object sizes a (vm\<lparr>vm_heap := h\<rparr>);
                              (case vm_interned vm of
                                 None \<Rightarrow> Some (Some a, vm)
                               | Some tab \<Rightarrow>
                                   do { tab \<leftarrow> intern_put h a tab;
                                        Some (Some a, vm\<lparr>vm_interned := Some tab, vm_interned_count := vm_interned_count vm + 1\<rparr>) }) }) }) }"

definition slp_vm_copy_string :: "struct_sizes \<Rightarrow> bool \<Rightarrow> ptr \<Rightarrow> string \<Rightarrow> vm \<Rightarrow> (ptr \<times> vm) option" where
  "slp_vm_copy_string sizes table_allocated p chars = slp_vm_intern_string sizes table_allocated p chars"

end
