(* ===== verification/GC.thy ===== *)
theory GC
  imports Interning
begin

text \<open>
  The mark-and-sweep collector (\<^verbatim>\<open>src/slp_gc.c\<close>). Marking an object with no live allocation is undefined.
  The pointers an object or the machine holds are listed in the order in which the code marks them;
  \<open>slp_gc_mark_obj\<close> skips \<open>NULL\<close>, so a pointer the code tests first is listed like any other.
\<close>

subsection \<open>Marking\<close>

definition slp_gc_init :: "vm \<Rightarrow> vm" where
  "slp_gc_init vm =
     vm\<lparr>vm_bytes_allocated := 0, vm_next_gc_threshold := 1024 * 1024, vm_gray_stack := [], vm_gray_capacity := 0\<rparr>"

definition gc_gray_stack_push :: "addr \<Rightarrow> vm \<Rightarrow> vm option" where
  "gc_gray_stack_push a vm =
     (let capacity = grown 64 (length (vm_gray_stack vm)) (vm_gray_capacity vm)
      in if INT32_MAX < capacity then None
         else Some (vm\<lparr>vm_gray_stack := vm_gray_stack vm @ [a], vm_gray_capacity := capacity\<rparr>))"

definition slp_gc_mark_obj :: "ptr \<Rightarrow> vm \<Rightarrow> vm option" where
  "slp_gc_mark_obj p vm =
     (case p of
        None \<Rightarrow> Some vm
      | Some a \<Rightarrow> if vm_heap vm a = None then None
                  else if a \<in> vm_marked vm then Some vm
                  else gc_gray_stack_push a (vm\<lparr>vm_marked := insert a (vm_marked vm)\<rparr>))"

definition slp_gc_mark_value :: "slp_value \<Rightarrow> vm \<Rightarrow> vm option" where
  "slp_gc_mark_value v vm = (case v of VObj a \<Rightarrow> slp_gc_mark_obj (Some a) vm | _ \<Rightarrow> Some vm)"

fun mark_values :: "slp_value list \<Rightarrow> vm \<Rightarrow> vm option" where
  "mark_values [] vm = Some vm"
| "mark_values (v # vs) vm = do { vm \<leftarrow> slp_gc_mark_value v vm; mark_values vs vm }"

definition frame_references :: "call_frame \<Rightarrow> slp_value list" where
  "frame_references f =
     [ptr_value (cf_closure f), ptr_value (cf_local_scopes f), ptr_value (cf_closure_scope f),
      ptr_value (cf_continuation_return f), ptr_value (cf_trace_call f), ptr_value (cf_trace_source f)]"

text \<open>The first \<open>n\<close> entries of a buffer; reading past its end is undefined.\<close>

definition first_entries :: "int \<Rightarrow> 'a list \<Rightarrow> 'a list option" where
  "first_entries n xs = (if n \<le> int (length xs) then Some (take (nat n) xs) else None)"

definition closure_references :: "heap \<Rightarrow> obj_closure \<Rightarrow> slp_value list option" where
  "closure_references h c =
     do { a \<leftarrow> co_function c;
          f \<leftarrow> get_function h a;
          upvalues \<leftarrow> first_entries (fn_upvalue_count f) (co_upvalues c);
          Some ([VObj a, ptr_value (co_scope c), ptr_value (co_call_name c)] @
            concat (map (\<lambda>s. [ptr_value (rs_text s), ptr_value (rs_pattern s)]) (co_regex_states c)) @
            [ptr_value (co_last_regex_matches c)] @ map ptr_value upvalues @
            co_coroutine_stack c @ concat (map frame_references (co_coroutine_frames c))) }"

text \<open>What \<open>blacken_object\<close> marks.\<close>

definition references :: "heap \<Rightarrow> obj \<Rightarrow> slp_value list option" where
  "references h ob =
     (case ob of
        OString _ \<Rightarrow> Some []
      | OClass c \<Rightarrow> Some [ptr_value (cl_name c), ptr_value (cl_interfaces c), ptr_value (cl_fields c)]
      | OJava j \<Rightarrow> Some [ptr_value (jo_class j), ptr_value (jo_list j), ptr_value (jo_map j), ptr_value (jo_fields j), jo_value j]
      | OLong _ \<Rightarrow> Some []
      | ODouble _ \<Rightarrow> Some []
      | OArray r \<Rightarrow> do { vs \<leftarrow> first_entries (ar_count r) (ar_elements r); Some (vs @ [ptr_value (ar_view_source r)]) }
      | OHash r \<Rightarrow> Some (concat (map (\<lambda>e. [he_key e, he_value e]) (filter is_live (ha_entries r))) @
                         [ptr_value (ha_miss_policy r), ptr_value (ha_removal_policy r)])
      | OFunction f \<Rightarrow> Some ([ptr_value (fn_name f), ptr_value (fn_source_name f)] @
                             (case fn_chunk f of None \<Rightarrow> [] | Some ck \<Rightarrow> ck_constants ck))
      | OClosure c \<Rightarrow> closure_references h c
      | OUpvalue u \<Rightarrow> Some [uv_closed u]
      | OContinuation c \<Rightarrow> Some (cn_stack c @ concat (map frame_references (cn_frames c)) @
                                 [ptr_value (cn_coroutine_owner c), ptr_value (cn_return_trace_call c),
                                  ptr_value (cn_return_trace_source c)])
      | ONative n \<Rightarrow> Some [ptr_value (na_name n)]
      | OBridge b \<Rightarrow> Some [ptr_value (br_keyword b), ptr_value (br_name b), ptr_value (br_closure b)]
      | OIOHandle i \<Rightarrow> Some (io_token i # io_object_values i)
      | OKeyValue k \<Rightarrow> Some [kv_key k, kv_value k]
      | OTainted v \<Rightarrow> Some [v]
      | OScalarCell c \<Rightarrow> Some [sc_value c, ptr_value (sc_watch_name c)])"

definition blacken_object :: "addr \<Rightarrow> vm \<Rightarrow> vm option" where
  "blacken_object a vm =
     do { ob \<leftarrow> vm_heap vm a; vs \<leftarrow> references (vm_heap vm) ob; mark_values vs vm }"

partial_function (option) open_upvalue_chain :: "heap \<Rightarrow> ptr \<Rightarrow> slp_value list option" where
  [code]: "open_upvalue_chain h p =
     (case p of
        None \<Rightarrow> Some []
      | Some a \<Rightarrow> (case h a of
                     Some (OUpvalue u) \<Rightarrow> do { vs \<leftarrow> open_upvalue_chain h (uv_next u); Some (VObj a # vs) }
                   | _ \<Rightarrow> None))"

definition slp_embed_roots :: "vm \<Rightarrow> slp_value list" where
  "slp_embed_roots vm = map cb_value (vm_callables vm)"

text \<open>What \<open>mark_roots\<close> marks.\<close>

definition root_values :: "vm \<Rightarrow> slp_value list option" where
  "root_values vm =
     do { upvalues \<leftarrow> open_upvalue_chain (vm_heap vm) (vm_open_upvalues vm);
          Some (vm_stack vm @ concat (map frame_references (vm_frames vm)) @ upvalues @
            [ptr_value (vm_globals vm), ptr_value (vm_natives vm), ptr_value (vm_last_regex_matches vm),
             ptr_value (vm_last_stack_trace vm), ptr_value (vm_profile_statistics vm), ptr_value (vm_packed_objects vm),
             ptr_value (vm_console_handle vm), vm_thrown_exception vm, vm_last_error vm] @
            vm_ffi_slots vm @ slp_embed_roots vm) }"

definition mark_roots :: "vm \<Rightarrow> vm option" where
  "mark_roots vm = do { vs \<leftarrow> root_values vm; mark_values vs vm }"

partial_function (option) trace_references :: "vm \<Rightarrow> vm option" where
  [code]: "trace_references vm =
     (if vm_gray_stack vm = [] then Some vm
      else do { vm \<leftarrow> blacken_object (last (vm_gray_stack vm)) (vm\<lparr>vm_gray_stack := butlast (vm_gray_stack vm)\<rparr>);
                trace_references vm })"

subsection \<open>Sweeping\<close>

text \<open>The buffers an object owns disappear with it; what is left of freeing it are the calls to the platform.\<close>

definition free_obj_contents :: "obj \<Rightarrow> platform_call list" where
  "free_obj_contents ob =
     (case ob of
        OIOHandle i \<Rightarrow>
          (case io_file i of Some f \<Rightarrow> if io_is_console i then [] else [Close_file f (io_is_pipeline i)] | None \<Rightarrow> []) @
          (if io_socket_fd i \<noteq> -1 then [Close_socket (io_socket_fd i)] else []) @
          (if io_pid i \<noteq> -1 then [Wait_pid (io_pid i)] else [])
      | _ \<Rightarrow> [])"

definition free_object :: "struct_sizes \<Rightarrow> addr \<Rightarrow> obj \<Rightarrow> vm \<Rightarrow> vm" where
  "free_object sizes a ob vm =
     vm\<lparr>vm_heap := (vm_heap vm)(a := None),
        vm_bytes_allocated := vm_bytes_allocated vm - slp_gc_object_size sizes ob,
        vm_platform_calls := vm_platform_calls vm @ free_obj_contents ob\<rparr>"

text \<open>The walk of the object list; the result is the list that is left.\<close>

fun sweep_list :: "struct_sizes \<Rightarrow> addr list \<Rightarrow> vm \<Rightarrow> (addr list \<times> vm) option" where
  "sweep_list sizes [] vm = Some ([], vm)"
| "sweep_list sizes (a # objects) vm =
     (case vm_heap vm a of
        None \<Rightarrow> None
      | Some ob \<Rightarrow>
          if a \<in> vm_marked vm then
            do { (rest, vm) \<leftarrow> sweep_list sizes objects (vm\<lparr>vm_marked := vm_marked vm - {a}\<rparr>); Some (a # rest, vm) }
          else sweep_list sizes objects (free_object sizes a ob vm))"

definition slp_gc_sweep :: "struct_sizes \<Rightarrow> vm \<Rightarrow> vm option" where
  "slp_gc_sweep sizes vm =
     do { (objects, vm) \<leftarrow> sweep_list sizes (vm_objects vm) vm; Some (vm\<lparr>vm_objects := objects\<rparr>) }"

subsection \<open>The table of interned strings\<close>

fun put_strings :: "heap \<Rightarrow> addr list \<Rightarrow> ptr list \<times> int \<Rightarrow> (ptr list \<times> int) option" where
  "put_strings h [] tn = Some tn"
| "put_strings h (a # objects) (tab, n) =
     do { ob \<leftarrow> h a;
          if type_of ob \<noteq> T_STRING then put_strings h objects (tab, n)
          else do { tab \<leftarrow> intern_put h a tab; put_strings h objects (tab, n + 1) } }"

definition rebuild_interned :: "vm \<Rightarrow> vm option" where
  "rebuild_interned vm =
     (case vm_interned vm of
        None \<Rightarrow> Some vm
      | Some tab \<Rightarrow>
          if vm_interned_capacity vm = 0 then Some vm
          else do { (tab, n) \<leftarrow> put_strings (vm_heap vm) (vm_objects vm) (replicate (nat (vm_interned_capacity vm)) None, 0);
                    Some (vm\<lparr>vm_interned := Some tab, vm_interned_count := n\<rparr>) })"

subsection \<open>Collection\<close>

definition slp_gc_collect :: "struct_sizes \<Rightarrow> vm \<Rightarrow> vm option" where
  "slp_gc_collect sizes vm =
     do { vm \<leftarrow> mark_roots vm;
          vm \<leftarrow> trace_references vm;
          vm \<leftarrow> slp_gc_sweep sizes vm;
          vm \<leftarrow> rebuild_interned vm;
          let threshold = vm_bytes_allocated vm * 3 div 2;
          Some (vm\<lparr>vm_next_gc_threshold := (if threshold < 256 * 1024 then 256 * 1024 else threshold)\<rparr>) }"

fun free_list :: "addr list \<Rightarrow> vm \<Rightarrow> vm option" where
  "free_list [] vm = Some vm"
| "free_list (a # objects) vm =
     do { ob \<leftarrow> vm_heap vm a;
          free_list objects (vm\<lparr>vm_heap := (vm_heap vm)(a := None),
                                vm_platform_calls := vm_platform_calls vm @ free_obj_contents ob\<rparr>) }"

definition slp_gc_free :: "vm \<Rightarrow> vm option" where
  "slp_gc_free vm =
     do { vm \<leftarrow> free_list (vm_objects vm) vm;
          Some (vm\<lparr>vm_objects := [], vm_gray_stack := [], vm_gray_capacity := 0\<rparr>) }"

end
