(* ===== verification/Interned.thy ===== *)
theory Interned
  imports Interning Hash_Refine
begin

text \<open>
  The table of interned strings as a set of string objects: the invariant of its open addressing, what
  the insertion loop and the lookup loop find, and the invariant of the machine that no two string
  objects have the same text.
\<close>

subsection \<open>The table\<close>

definition full_path :: "ptr list \<Rightarrow> nat \<Rightarrow> nat \<Rightarrow> bool" where
  "full_path tab a n \<longleftrightarrow> (\<forall>k<n. tab ! ((a + k) mod length tab) \<noteq> None)"

definition string_at :: "heap \<Rightarrow> addr \<Rightarrow> obj_string" where
  "string_at h a = the (get_string h a)"

definition home_of :: "heap \<Rightarrow> addr \<Rightarrow> nat \<Rightarrow> nat" where
  "home_of h a c = unat (s_hash (string_at h a)) mod c"

text \<open>\<open>holds h S tab\<close>: the table holds exactly the strings in \<open>S\<close>, each once and on its probe path.\<close>

definition holds :: "heap \<Rightarrow> addr set \<Rightarrow> ptr list \<Rightarrow> bool" where
  "holds h S tab \<longleftrightarrow> table_size (length tab) \<and>
     (\<forall>a\<in>S. get_string h a \<noteq> None) \<and>
     (\<forall>a. a \<in> S \<longleftrightarrow> Some a \<in> set tab) \<and>
     (\<forall>i<length tab. \<forall>j<length tab. \<forall>a. tab ! i = Some a \<longrightarrow> tab ! j = Some a \<longrightarrow> i = j) \<and>
     (\<forall>i<length tab. \<forall>a. tab ! i = Some a \<longrightarrow>
        full_path tab (home_of h a (length tab)) (offset (home_of h a (length tab)) i (length tab)))"

lemma holds_size: "holds h S tab \<Longrightarrow> table_size (length tab)"
  by (simp add: holds_def)

lemma holds_pos: "holds h S tab \<Longrightarrow> 0 < length tab"
  using table_size_pos [of "length tab"] unfolding holds_def by linarith

lemma holds_member: "holds h S tab \<Longrightarrow> i < length tab \<Longrightarrow> tab ! i = Some a \<Longrightarrow> a \<in> S"
  unfolding holds_def by (metis nth_mem)

lemma holds_string: "holds h S tab \<Longrightarrow> a \<in> S \<Longrightarrow> get_string h a = Some (string_at h a)"
  by (auto simp: holds_def string_at_def)

lemma holds_index: "holds h S tab \<Longrightarrow> a \<in> S \<Longrightarrow> \<exists>i<length tab. tab ! i = Some a"
  by (auto simp: holds_def in_set_conv_nth)

lemma holds_path: "holds h S tab \<Longrightarrow> i < length tab \<Longrightarrow> tab ! i = Some a \<Longrightarrow>
   full_path tab (home_of h a (length tab)) (offset (home_of h a (length tab)) i (length tab))"
  by (simp add: holds_def)

lemma holds_unique: "holds h S tab \<Longrightarrow> i < length tab \<Longrightarrow> j < length tab \<Longrightarrow> tab ! i = Some a \<Longrightarrow> tab ! j = Some a \<Longrightarrow> i = j"
  unfolding holds_def by blast

lemma holds_finite: "holds h S tab \<Longrightarrow> finite S"
proof -
  assume "holds h S tab"
  then have "Some ` S \<subseteq> set tab" by (auto simp: holds_def)
  then show "finite S" by (rule finite_imageD [OF finite_subset]) (simp_all add: inj_on_def)
qed

lemma home_of_less: "0 < c \<Longrightarrow> home_of h a c < c"
  by (simp add: home_of_def)

lemma slot_home: "holds h S tab \<Longrightarrow> slot (s_hash (string_at h a)) (length tab) = home_of h a (length tab)"
  by (simp add: slot_mod [OF holds_size] home_of_def)

lemma holds_empty: "table_size c \<Longrightarrow> holds h {} (replicate c None)"
  by (simp add: holds_def)

text \<open>Only the heap at the strings of the table matters.\<close>

lemma holds_cong:
  assumes "holds h S tab" "\<And>a. a \<in> S \<Longrightarrow> h' a = h a"
  shows "holds h' S tab"
proof -
  have "get_string h' a = get_string h a" if "a \<in> S" for a using assms(2) [OF that] by (simp add: get_string_def)
  moreover from this have "home_of h' a c = home_of h a c" if "a \<in> S" for a c
    using that by (simp add: home_of_def string_at_def)
  ultimately have same: "get_string h' a = get_string h a" "home_of h' a c = home_of h a c" if "a \<in> S" for a c
    using that by blast+
  show ?thesis
    unfolding holds_def
  proof (intro conjI allI impI ballI)
    show "get_string h' a \<noteq> None" if "a \<in> S" for a using that same holds_string [OF assms(1)] by simp
    fix i a assume i: "i < length tab" "tab ! i = Some a"
    then show "full_path tab (home_of h' a (length tab)) (offset (home_of h' a (length tab)) i (length tab))"
      using holds_path [OF assms(1) i] same(2) [OF holds_member [OF assms(1) i]] by simp
  qed (use assms(1) [unfolded holds_def] in blast)+
qed

text \<open>As long as the strings are fewer than the entries there is a free entry.\<close>

lemma ex_null:
  assumes "holds h S tab" "card S < length tab"
  shows "\<exists>i<length tab. tab ! i = None"
proof (rule ccontr)
  assume none: "\<not> ?thesis"
  have full: "\<exists>a. tab ! i = Some a" if "i < length tab" for i using none that by (cases "tab ! i") blast+
  let ?f = "\<lambda>i. the (tab ! i)"
  have "inj_on ?f {..<length tab}"
  proof (rule inj_onI)
    fix i j assume "i \<in> {..<length tab}" "j \<in> {..<length tab}" "?f i = ?f j"
    then have ij: "i < length tab" "j < length tab" "the (tab ! i) = the (tab ! j)" by simp_all
    then obtain a b where ab: "tab ! i = Some a" "tab ! j = Some b" using full by meson
    with ij(3) have "a = b" by simp
    then show "i = j" using holds_unique [OF assms(1)] ij ab by blast
  qed
  moreover have "?f ` {..<length tab} \<subseteq> S"
  proof (rule image_subsetI)
    fix i assume "i \<in> {..<length tab}"
    then have i: "i < length tab" by simp
    then obtain a where "tab ! i = Some a" using full by blast
    then show "?f i \<in> S" using holds_member [OF assms(1) i] by simp
  qed
  ultimately have "length tab \<le> card S"
    using card_inj_on_le [of ?f "{..<length tab}" S] holds_finite [OF assms(1)] by simp
  with assms(2) show False by simp
qed

lemma card_holds: "holds h S tab \<Longrightarrow> card S \<le> length tab"
proof -
  assume "holds h S tab"
  then have "Some ` S \<subseteq> set tab" by (auto simp: holds_def)
  then have "card (Some ` S) \<le> length tab" by (meson List.finite_set card_length card_mono le_trans)
  then show ?thesis by (simp add: card_image)
qed

subsection \<open>Insertion\<close>

lemma full_path_Suc: "full_path tab a (Suc n) \<longleftrightarrow> full_path tab a n \<and> tab ! ((a + n) mod length tab) \<noteq> None"
  unfolding full_path_def less_Suc_eq by blast

lemma first_null_from:
  assumes ts: "table_size (length tab)" and a: "a < length tab" and p: "p < length tab" "tab ! p = None"
  shows "j \<le> offset a p (length tab) \<Longrightarrow> full_path tab a j \<Longrightarrow>
    \<exists>q. first_null tab ((a + j) mod length tab) = Some q \<and> q < length tab \<and> tab ! q = None \<and>
      full_path tab a (offset a q (length tab))"
proof (induction "offset a p (length tab) - j" arbitrary: j rule: less_induct)
  case less
  let ?c = "length tab" and ?k = "(a + j) mod length tab"
  have k: "?k < ?c" using a by (rule mod_in_range)
  have jc: "j < ?c" using less.prems(1) offset_less [of ?c a p] a by linarith
  show ?case
  proof (cases "tab ! ?k = None")
    case False
    have "j \<noteq> offset a p ?c" using False offset_reaches [OF a p(1)] p(2) by auto
    then have lt: "j < offset a p ?c" using less.prems(1) by simp
    have "\<exists>q. first_null tab ((a + Suc j) mod ?c) = Some q \<and> q < ?c \<and> tab ! q = None \<and> full_path tab a (offset a q ?c)"
      by (rule less.hyps) (use lt less.prems False in \<open>simp_all add: full_path_Suc\<close>)
    then show ?thesis using k next_slot_step [OF ts, of a j] by (subst first_null.simps) (simp add: False)
  next
    case True
    then show ?thesis using k less.prems(2) offset_unique [OF a jc] by (subst first_null.simps) simp
  qed
qed

lemma first_null_ok:
  assumes "table_size (length tab)" "a < length tab" "p < length tab" "tab ! p = None"
  shows "\<exists>q. first_null tab a = Some q \<and> q < length tab \<and> tab ! q = None \<and> full_path tab a (offset a q (length tab))"
  using first_null_from [OF assms, of 0] assms(2) by (simp add: full_path_def)

lemma update_not_null: "tab ! m \<noteq> None \<Longrightarrow> tab[q := Some x] ! m \<noteq> None"
  by (cases "m = q \<and> q < length tab"; cases "q < length tab") (auto simp: list_update_beyond)

lemma full_path_update: "full_path tab a n \<Longrightarrow> full_path (tab[q := Some x]) a n"
  using update_not_null [of tab _ q x] by (simp add: full_path_def del: not_None_eq)

text \<open>A string that is not in the table yet is put at the first free entry of its probe path.\<close>

lemma intern_put_ok:
  assumes hold: "holds h S tab" and new: "x \<notin> S" "get_string h x \<noteq> None" and room: "card S < length tab"
  shows "\<exists>tab'. intern_put h x tab = Some tab' \<and> length tab' = length tab \<and> holds h (insert x S) tab'"
proof -
  let ?c = "length tab" and ?a = "home_of h x (length tab)"
  have s: "get_string h x = Some (string_at h x)" using new(2) by (auto simp: string_at_def)
  obtain p where "p < ?c" "tab ! p = None" using ex_null [OF hold room] by blast
  from first_null_ok [OF holds_size [OF hold] home_of_less [OF holds_pos [OF hold]] this] obtain q where
    q: "first_null tab ?a = Some q" "q < ?c" "tab ! q = None" "full_path tab ?a (offset ?a q ?c)" by blast
  let ?tab = "tab[q := Some x]"
  have no: "tab ! i \<noteq> Some x" if "i < ?c" for i using holds_member [OF hold that] new(1) by blast
  have "holds h (insert x S) ?tab"
    unfolding holds_def
  proof (intro conjI allI impI ballI)
    show "table_size (length ?tab)" using holds_size [OF hold] by simp
    show "get_string h a \<noteq> None" if "a \<in> insert x S" for a using that s holds_string [OF hold] by auto
    have eq: "set ?tab - {None} = insert (Some x) (set tab - {None})"
    proof (rule set_eqI, rule iffI)
      fix v assume "v \<in> set ?tab - {None}"
      then obtain i where i: "i < ?c" "?tab ! i = v" "v \<noteq> None" by (auto simp: in_set_conv_nth)
      then show "v \<in> insert (Some x) (set tab - {None})" using nth_mem [of i tab] by (cases "i = q") auto
    next
      fix v assume v: "v \<in> insert (Some x) (set tab - {None})"
      show "v \<in> set ?tab - {None}"
      proof (cases "v = Some x")
        case True
        then show ?thesis using q(2) by (auto simp: set_update_memI)
      next
        case False
        with v obtain i where i: "i < ?c" "tab ! i = v" "v \<noteq> None" by (auto simp: in_set_conv_nth)
        then have "i \<noteq> q" using q(3) by auto
        then have "?tab ! i = v" using i(2) by simp
        then show ?thesis using i(1,3) nth_mem [of i ?tab] by auto
      qed
    qed
    show "a \<in> insert x S \<longleftrightarrow> Some a \<in> set ?tab" for a
      using eq hold unfolding holds_def by (metis (no_types, lifting) Diff_iff insert_iff option.distinct(1) option.inject singletonD)
    show "i = j" if "i < length ?tab" "j < length ?tab" "?tab ! i = Some a" "?tab ! j = Some a" for i j a
      using that no [of i] no [of j] holds_unique [OF hold, of i j a] by (cases "i = q"; cases "j = q") auto
    fix i a assume i: "i < length ?tab" "?tab ! i = Some a"
    show "full_path ?tab (home_of h a (length ?tab)) (offset (home_of h a (length ?tab)) i (length ?tab))"
    proof (cases "i = q")
      case True
      then have "a = x" using i q(2) by simp
      then show ?thesis using True full_path_update [OF q(4)] by simp
    next
      case False
      then show ?thesis using i full_path_update [OF holds_path [OF hold, of i a]] by simp
    qed
  qed
  then show ?thesis using s q(1) slot_home [OF hold] by (simp add: intern_put_def)
qed

subsection \<open>Lookup\<close>

definition text_of :: "heap \<Rightarrow> addr \<Rightarrow> string" where
  "text_of h a = s_chars (string_at h a)"

text \<open>The strings of a machine carry the hash of their text and have pairwise distinct texts.\<close>

definition canonical :: "heap \<Rightarrow> addr set \<Rightarrow> bool" where
  "canonical h S \<longleftrightarrow> (\<forall>a\<in>S. s_hash (string_at h a) = slp_hash_string (text_of h a)) \<and> inj_on (text_of h) S"

lemma canonical_home: "canonical h S \<Longrightarrow> a \<in> S \<Longrightarrow> home_of h a c = unat (slp_hash_string (text_of h a)) mod c"
  by (simp add: canonical_def home_of_def)

lemma intern_probe_hit:
  assumes hold: "holds h S tab" and can: "canonical h S" and i: "i < length tab" "tab ! i = Some b"
    and a: "a = home_of h b (length tab)"
  shows "j \<le> offset a i (length tab) \<Longrightarrow> offset a i (length tab) - j < n \<Longrightarrow>
    intern_probe h tab (text_of h b) (slp_hash_string (text_of h b)) n ((a + j) mod length tab) = Some (Some b)"
proof (induction n arbitrary: j)
  case 0
  then show ?case by simp
next
  case (Suc n)
  let ?c = "length tab" and ?k = "(a + j) mod length tab"
  have a_less: "a < ?c" using a home_of_less [OF holds_pos [OF hold]] by simp
  have k: "?k < ?c" using a_less by (rule mod_in_range)
  have b: "b \<in> S" using holds_member [OF hold i] .
  have "tab ! ?k \<noteq> None"
  proof (cases "j = offset a i ?c")
    case True
    then show ?thesis using offset_reaches [OF a_less i(1)] i(2) by simp
  next
    case False
    then show ?thesis using Suc.prems(1) holds_path [OF hold i] a by (simp add: full_path_def)
  qed
  then obtain x where x: "tab ! ?k = Some x" by blast
  have xS: "x \<in> S" using holds_member [OF hold k x] .
  show ?case
  proof (cases "x = b")
    case True
    then show ?thesis using x k holds_string [OF hold b] can b by (simp add: text_of_def canonical_def)
  next
    case False
    then have "text_of h x \<noteq> text_of h b" using can xS b by (auto simp: canonical_def inj_on_def)
    moreover have "j < offset a i ?c"
      using Suc.prems(1) offset_reaches [OF a_less i(1)] i(2) x False by (cases "j = offset a i ?c") auto
    then have "intern_probe h tab (text_of h b) (slp_hash_string (text_of h b)) n ((a + Suc j) mod ?c) = Some (Some b)"
      using Suc.IH [of "Suc j"] Suc.prems by simp
    ultimately show ?thesis
      using x k holds_string [OF hold xS] next_slot_step [OF holds_size [OF hold], of a j] by (simp add: text_of_def)
  qed
qed

lemma intern_probe_miss:
  assumes hold: "holds h S tab" and no: "\<forall>a\<in>S. text_of h a \<noteq> chars"
  shows "k < length tab \<Longrightarrow> intern_probe h tab chars hash n k = Some None"
proof (induction n arbitrary: k)
  case 0
  then show ?case by simp
next
  case (Suc n)
  have nx: "next_slot k (length tab) < length tab"
    using next_slot_mod [OF holds_size [OF hold] Suc.prems] holds_pos [OF hold] by simp
  show ?case
  proof (cases "tab ! k")
    case None
    then show ?thesis using Suc.prems by simp
  next
    case (Some a)
    then have a: "a \<in> S" using holds_member [OF hold Suc.prems] by blast
    then show ?thesis using Some Suc.prems Suc.IH [OF nx] holds_string [OF hold a] no by (simp add: text_of_def)
  qed
qed

text \<open>The lookup is a map from texts: it finds the string with the text when there is one.\<close>

lemma intern_probe_ok:
  assumes hold: "holds h S tab" and can: "canonical h S"
  shows "intern_probe h tab chars (slp_hash_string chars) (length tab) (slot (slp_hash_string chars) (length tab)) =
    Some (if \<exists>b\<in>S. text_of h b = chars then Some (THE b. b \<in> S \<and> text_of h b = chars) else None)"
proof (cases "\<exists>b\<in>S. text_of h b = chars")
  case True
  then obtain b where b: "b \<in> S" "text_of h b = chars" by blast
  obtain i where i: "i < length tab" "tab ! i = Some b" using holds_index [OF hold b(1)] by blast
  have pos: "0 < length tab" using holds_pos [OF hold] .
  have home: "slot (slp_hash_string chars) (length tab) = home_of h b (length tab)"
    using slot_mod [OF holds_size [OF hold]] canonical_home [OF can b(1)] b(2) by simp
  have "(THE b. b \<in> S \<and> text_of h b = chars) = b"
    using b can by (intro the_equality) (auto simp: canonical_def inj_on_def)
  then show ?thesis
    using intern_probe_hit [OF hold can i refl, of 0 "length tab"] True b(2) home home_of_less [OF pos] offset_less [OF pos]
    by simp
next
  case False
  have "slot (slp_hash_string chars) (length tab) < length tab"
    using slot_mod [OF holds_size [OF hold]] holds_pos [OF hold] by simp
  then show ?thesis using intern_probe_miss [OF hold, of chars] False by auto
qed

subsection \<open>Refilling a table\<close>

lemma holds_distinct: "holds h S tab \<Longrightarrow> distinct (filter (\<lambda>p. p \<noteq> None) tab)"
proof -
  assume hold: "holds h S tab"
  have "distinct (map id (filter (\<lambda>p. p \<noteq> None) tab))"
  proof (rule distinct_filterI)
    fix i j assume i: "i < length tab" "j < length tab" "tab ! i \<noteq> None" "id (tab ! i) = id (tab ! j)"
    then obtain a where a: "tab ! i = Some a" by blast
    moreover from this i(4) have "tab ! j = Some a" by simp
    ultimately show "i = j" using holds_unique [OF hold i(1,2)] by blast
  qed
  then show ?thesis by simp
qed

lemma holds_members: "holds h S tab \<Longrightarrow> Some ` S = set tab - {None}"
proof -
  assume "holds h S tab"
  then have "\<forall>a. a \<in> S \<longleftrightarrow> Some a \<in> set tab" by (simp add: holds_def)
  then have mem: "a \<in> S \<longleftrightarrow> Some a \<in> set tab" for a by blast
  have "p \<in> Some ` S \<longleftrightarrow> p \<in> set tab - {None}" for p by (cases p) (use mem in auto)
  then show ?thesis by blast
qed

lemma move_entries_ok:
  "holds h S tab \<Longrightarrow> distinct (filter (\<lambda>p. p \<noteq> None) old) \<Longrightarrow> Some ` T = set old - {None} \<Longrightarrow> S \<inter> T = {} \<Longrightarrow>
   (\<forall>a\<in>T. get_string h a \<noteq> None) \<Longrightarrow> card S + card T \<le> length tab \<Longrightarrow>
   \<exists>tab'. move_entries h old tab = Some tab' \<and> length tab' = length tab \<and> holds h (S \<union> T) tab'"
proof (induction h old tab arbitrary: S T rule: move_entries.induct)
  case (1 h tab)
  then show ?case by simp
next
  case (2 h old tab)
  then show ?case by simp
next
  case (3 h a old tab)
  have "Some a \<in> Some ` T" unfolding 3(4) by simp
  then have aT: "a \<in> T" by auto
  have "finite (Some ` T)" unfolding 3(4) by simp
  then have finT: "finite T" by (rule finite_imageD) (simp add: inj_on_def)
  have new: "a \<notin> S" "get_string h a \<noteq> None" using aT 3(5) bspec [OF 3(6) aT] by auto
  have T1: "Suc (card (T - {a})) = card T" using card_Suc_Diff1 [OF finT aT] .
  have room: "card S < length tab" using 3(7) T1 by linarith
  obtain tab1 where tab1: "intern_put h a tab = Some tab1" "length tab1 = length tab" "holds h (insert a S) tab1"
    using intern_put_ok [OF 3(2) new room] by blast
  have d: "distinct (filter (\<lambda>p. p \<noteq> None) old)" "Some a \<notin> set old" using 3(3) by (simp_all del: not_None_eq)
  have members: "Some ` (T - {a}) = set old - {None}"
  proof -
    have "Some ` (T - {a}) = Some ` T - {Some a}" by blast
    then show ?thesis using 3(4) d(2) by auto
  qed
  have "card (insert a S) = Suc (card S)" using new(1) holds_finite [OF 3(2)] by simp
  then have room1: "card (insert a S) + card (T - {a}) \<le> length tab1" using 3(7) tab1(2) T1 by linarith
  have "insert a S \<inter> (T - {a}) = {}" "\<forall>x\<in>T - {a}. get_string h x \<noteq> None" using 3(5,6) by auto
  from 3(1) [OF tab1(1,3) d(1) members this room1] obtain tab' where
    "move_entries h old tab1 = Some tab'" "length tab' = length tab1" "holds h (insert a S \<union> (T - {a})) tab'" by blast
  moreover have "insert a S \<union> (T - {a}) = S \<union> T" using aT by blast
  ultimately show ?case using tab1(1,2) by simp
qed

subsection \<open>The machine\<close>

definition strings_of :: "vm \<Rightarrow> addr set" where
  "strings_of vm = {a \<in> set (vm_objects vm). get_string (vm_heap vm) a \<noteq> None}"

definition table_ok :: "vm \<Rightarrow> bool" where
  "table_ok vm \<longleftrightarrow>
     (case vm_interned vm of
        None \<Rightarrow> strings_of vm = {} \<and> vm_interned_capacity vm = 0 \<and> vm_interned_count vm = 0
      | Some tab \<Rightarrow> holds (vm_heap vm) (strings_of vm) tab \<and> vm_interned_capacity vm = int (length tab) \<and>
                    vm_interned_count vm = int (card (strings_of vm)) \<and> 2 * vm_interned_count vm \<le> vm_interned_capacity vm)"

definition intern_ok :: "vm \<Rightarrow> bool" where
  "intern_ok vm \<longleftrightarrow> distinct (vm_objects vm) \<and> set (vm_objects vm) \<subseteq> dom (vm_heap vm) \<and>
     canonical (vm_heap vm) (strings_of vm) \<and> table_ok vm"

lemma intern_size_double: "table_size c \<Longrightarrow> c < 2 ^ 29 \<Longrightarrow> table_size (2 * c)"
proof -
  assume "table_size c" "c < 2 ^ 29"
  then obtain k where k: "c = 2 ^ k" "4 \<le> k" "k \<le> 30" by (auto simp: table_size_def)
  have "(2::nat) ^ k < 2 ^ 29" using k(1) \<open>c < 2 ^ 29\<close> by metis
  then have "k < 29" by (rule power_less_imp_less_exp [rotated]) simp
  then show ?thesis unfolding table_size_def by (intro exI [of _ "Suc k"]) (use k in simp)
qed

lemma table_size_256: "table_size 256"
  unfolding table_size_def by (intro exI [of _ 8]) simp

lemma strings_of_update [simp]:
  "strings_of (vm\<lparr>vm_interned := t, vm_interned_capacity := c\<rparr>) = strings_of vm"
  "strings_of (vm\<lparr>vm_interned_capacity := c, vm_interned := t\<rparr>) = strings_of vm"
  "strings_of (vm\<lparr>vm_interned := t, vm_interned_count := n\<rparr>) = strings_of vm"
  by (simp_all add: strings_of_def)

lemma intern_grow_ok:
  assumes "holds (vm_heap vm) (strings_of vm) old" "vm_interned vm = Some old" "vm_interned_capacity vm = int (length old)"
    and "length old < 2 ^ 29"
  shows "\<exists>tab. intern_grow True vm = Some (vm\<lparr>vm_interned := Some tab, vm_interned_capacity := int (length tab)\<rparr>) \<and>
    length tab = 2 * length old \<and> holds (vm_heap vm) (strings_of vm) tab"
proof -
  let ?new = "replicate (2 * length old) (None :: ptr)"
  have empty: "holds (vm_heap vm) {} ?new"
    by (rule holds_empty) (rule intern_size_double [OF holds_size [OF assms(1)] assms(4)])
  have live: "\<forall>a\<in>strings_of vm. get_string (vm_heap vm) a \<noteq> None" by (simp add: strings_of_def)
  have room: "card {} + card (strings_of vm) \<le> length ?new" using card_holds [OF assms(1)] by simp
  obtain tab where tab: "move_entries (vm_heap vm) old ?new = Some tab" "length tab = length ?new"
    "holds (vm_heap vm) ({} \<union> strings_of vm) tab"
    using move_entries_ok [OF empty holds_distinct [OF assms(1)] holds_members [OF assms(1)] Int_empty_left live room]
    by blast
  have "nat (vm_interned_capacity vm * 2) = 2 * length old" "\<not> INT32_MAX < vm_interned_capacity vm * 2"
    using assms(3,4) by simp_all
  then show ?thesis using tab assms(2,3) by (intro exI [of _ tab]) (simp add: intern_grow_def Let_def)
qed

text \<open>Making room leaves everything but the table alone, and the table below half full.\<close>

lemma make_room_ok:
  assumes ok: "table_ok vm" and cap: "vm_interned_capacity vm < 2 ^ 29"
  shows "\<exists>tab. make_room True vm = Some (vm\<lparr>vm_interned := Some tab, vm_interned_capacity := int (length tab)\<rparr>) \<and>
    holds (vm_heap vm) (strings_of vm) tab \<and> vm_interned_count vm = int (card (strings_of vm)) \<and>
    2 * (vm_interned_count vm + 1) \<le> int (length tab)"
proof (cases "vm_interned vm")
  case None
  then have "strings_of vm = {}" "vm_interned_capacity vm = 0" "vm_interned_count vm = 0"
    using ok by (simp_all add: table_ok_def)
  then show ?thesis using None holds_empty [OF table_size_256, of "vm_heap vm"]
    by (intro exI [of _ "replicate 256 None"]) (simp add: make_room_def)
next
  case (Some tab)
  then have t: "holds (vm_heap vm) (strings_of vm) tab" "vm_interned_capacity vm = int (length tab)"
    "vm_interned_count vm = int (card (strings_of vm))" "2 * vm_interned_count vm \<le> vm_interned_capacity vm"
    using ok by (simp_all add: table_ok_def)
  have small: "\<not> INT32_MAX < vm_interned_count vm * 2" using t(4) cap by simp
  obtain k where k: "length tab = 2 ^ k" "4 \<le> k" using holds_size [OF t(1)] by (auto simp: table_size_def)
  then have even: "even (length tab)" by simp
  show ?thesis
  proof (cases "vm_interned_count vm * 2 < vm_interned_capacity vm")
    case True
    then have "2 * (vm_interned_count vm + 1) \<le> int (length tab)" using even t(2) by presburger
    moreover have "vm\<lparr>vm_interned := Some tab, vm_interned_capacity := int (length tab)\<rparr> = vm" using Some t(2) by simp
    ultimately show ?thesis using True small t Some by (intro exI [of _ tab]) (simp add: make_room_def)
  next
    case False
    obtain new where "intern_grow True vm = Some (vm\<lparr>vm_interned := Some new, vm_interned_capacity := int (length new)\<rparr>)"
      "length new = 2 * length tab" "holds (vm_heap vm) (strings_of vm) new"
      using intern_grow_ok [OF t(1) Some t(2)] cap t(2) by auto
    moreover have "16 \<le> length tab" using table_size_pos [OF holds_size [OF t(1)]] by simp
    ultimately show ?thesis using False small t Some
      by (intro exI [of _ new]) (simp add: make_room_def)
  qed
qed

lemma find_interned_ok:
  assumes "intern_ok vm"
  shows "find_interned chars vm =
    Some (if \<exists>b\<in>strings_of vm. text_of (vm_heap vm) b = chars
          then Some (THE b. b \<in> strings_of vm \<and> text_of (vm_heap vm) b = chars) else None)"
proof (cases "vm_interned vm")
  case None
  then show ?thesis using assms by (auto simp: find_interned_def intern_ok_def table_ok_def)
next
  case (Some tab)
  then show ?thesis using assms intern_probe_ok [of "vm_heap vm" "strings_of vm" tab chars]
    by (simp add: find_interned_def intern_ok_def table_ok_def)
qed

lemma text_the:
  assumes "intern_ok vm" "b \<in> strings_of vm"
  shows "(THE c. c \<in> strings_of vm \<and> text_of (vm_heap vm) c = text_of (vm_heap vm) b) = b"
  using assms by (intro the_equality) (auto simp: intern_ok_def canonical_def inj_on_def)

lemma intern_found:
  assumes "intern_ok vm" "b \<in> strings_of vm" "text_of (vm_heap vm) b = chars"
  shows "slp_vm_intern_string sizes allocated p chars vm = Some (Some b, vm)"
  using find_interned_ok [OF assms(1), of chars] text_the [OF assms(1,2)] assms(2,3)
  by (auto simp: slp_vm_intern_string_def)

text \<open>A new string, in an empty or a well-formed table.\<close>

lemma intern_new:
  assumes ok: "intern_ok vm" and cap: "vm_interned_capacity vm < 2 ^ 29" and a: "vm_heap vm a = None"
    and new: "\<forall>b\<in>strings_of vm. text_of (vm_heap vm) b \<noteq> chars"
  defines "ob \<equiv> OString \<lparr>s_chars = chars, s_hash = slp_hash_string chars\<rparr>"
  shows "\<exists>vm'. slp_vm_intern_string sizes True (Some a) chars vm = Some (Some a, vm') \<and> intern_ok vm' \<and>
    vm_heap vm' = (vm_heap vm)(a \<mapsto> ob) \<and> strings_of vm' = insert a (strings_of vm) \<and>
    vm_objects vm' = a # vm_objects vm \<and> vm_bytes_allocated vm' = vm_bytes_allocated vm + slp_gc_object_size sizes ob"
proof -
  let ?h = "(vm_heap vm)(a \<mapsto> ob)" and ?S = "strings_of vm"
  obtain tab where room: "make_room True vm = Some (vm\<lparr>vm_interned := Some tab, vm_interned_capacity := int (length tab)\<rparr>)"
    "holds (vm_heap vm) ?S tab" "vm_interned_count vm = int (card ?S)" "2 * (vm_interned_count vm + 1) \<le> int (length tab)"
    using make_room_ok [OF _ cap] ok by (auto simp: intern_ok_def)
  have aS: "a \<notin> ?S" using a by (auto simp: strings_of_def get_string_def)
  have same: "?h b = vm_heap vm b" if "b \<in> ?S" for b using that aS by auto
  have hold: "holds ?h ?S tab" using room(2) same by (rule holds_cong)
  have str: "get_string ?h a = Some \<lparr>s_chars = chars, s_hash = slp_hash_string chars\<rparr>" by (simp add: get_string_def ob_def)
  have "card ?S < length tab" using room(3,4) by simp
  then obtain tab' where put: "intern_put ?h a tab = Some tab'" "length tab' = length tab" "holds ?h (insert a ?S) tab'"
    using intern_put_ok [OF hold aS] str by auto
  let ?vm = "vm\<lparr>vm_interned := Some tab', vm_interned_capacity := int (length tab), vm_heap := ?h,
    vm_objects := a # vm_objects vm, vm_bytes_allocated := vm_bytes_allocated vm + slp_gc_object_size sizes ob,
    vm_interned_count := vm_interned_count vm + 1\<rparr>"
  have res: "slp_vm_intern_string sizes True (Some a) chars vm = Some (Some a, ?vm)"
    using find_interned_ok [OF ok, of chars] new room(1) put(1)
    by (auto simp: slp_vm_intern_string_def slp_obj_string_new_def place_def track_object_def ob_def)
  have dom: "set (vm_objects vm) \<subseteq> dom (vm_heap vm)" using ok by (simp add: intern_ok_def)
  then have a_new: "a \<notin> set (vm_objects vm)" using a by auto
  have strs: "strings_of ?vm = insert a ?S"
  proof -
    have "get_string ?h b = get_string (vm_heap vm) b" if "b \<in> set (vm_objects vm)" for b
      using that a_new by (cases "b = a") (simp_all add: get_string_def)
    then show ?thesis using str by (auto simp: strings_of_def)
  qed
  have texts: "text_of ?h b = text_of (vm_heap vm) b" "string_at ?h b = string_at (vm_heap vm) b" if "b \<in> ?S" for b
    using same [OF that] by (simp_all add: text_of_def string_at_def get_string_def)
  have text_a: "text_of ?h a = chars" "s_hash (string_at ?h a) = slp_hash_string chars"
    using str by (simp_all add: text_of_def string_at_def)
  have "canonical ?h (insert a ?S)"
  proof -
    have "inj_on (text_of ?h) ?S" using ok texts(1) by (simp add: intern_ok_def canonical_def inj_on_def)
    moreover have "text_of ?h a \<notin> text_of ?h ` ?S" using new texts(1) text_a(1) by auto
    ultimately have "inj_on (text_of ?h) (insert a ?S)" using aS by (simp add: inj_on_insert)
    then show ?thesis using ok texts text_a by (simp add: intern_ok_def canonical_def)
  qed
  moreover have "card (insert a ?S) = Suc (card ?S)" using aS holds_finite [OF room(2)] by simp
  ultimately have "intern_ok ?vm"
    using ok a_new dom put room(3,4) strs by (auto simp: intern_ok_def table_ok_def)
  then show ?thesis using res strs by simp
qed

subsection \<open>The result of an interning\<close>

lemma intern_string_ok:
  assumes "intern_ok vm" "vm_interned_capacity vm < 2 ^ 29" "vm_heap vm a = None"
  shows "\<exists>b vm'. slp_vm_intern_string sizes True (Some a) chars vm = Some (Some b, vm') \<and> intern_ok vm' \<and>
    b \<in> strings_of vm' \<and> text_of (vm_heap vm') b = chars \<and> vm_heap vm \<subseteq>\<^sub>m vm_heap vm' \<and> dom (vm_heap vm') \<subseteq> insert a (dom (vm_heap vm)) \<and>
    (if \<exists>c\<in>strings_of vm. text_of (vm_heap vm) c = chars then vm' = vm
     else b = a \<and> strings_of vm' = insert a (strings_of vm) \<and> vm_objects vm' = a # vm_objects vm) \<and>
    (\<forall>p. slp_vm_intern_string sizes True p chars vm' = Some (Some b, vm'))"
proof (cases "\<exists>c\<in>strings_of vm. text_of (vm_heap vm) c = chars")
  case True
  then obtain c where c: "c \<in> strings_of vm" "text_of (vm_heap vm) c = chars" by blast
  show ?thesis using True assms(1) c intern_found [OF assms(1) c] by (intro exI [of _ c] exI [of _ vm]) auto
next
  case False
  then obtain vm' where vm': "slp_vm_intern_string sizes True (Some a) chars vm = Some (Some a, vm')" "intern_ok vm'"
    "vm_heap vm' = (vm_heap vm)(a \<mapsto> OString \<lparr>s_chars = chars, s_hash = slp_hash_string chars\<rparr>)"
    "strings_of vm' = insert a (strings_of vm)" "vm_objects vm' = a # vm_objects vm"
    using intern_new [OF assms, of chars sizes] by auto
  have a: "a \<in> strings_of vm'" "text_of (vm_heap vm') a = chars"
    using vm'(3,4) by (simp_all add: text_of_def string_at_def get_string_def)
  have "vm_heap vm \<subseteq>\<^sub>m vm_heap vm'" using assms(3) vm'(3) by (auto simp: map_le_def)
  moreover have "dom (vm_heap vm') \<subseteq> insert a (dom (vm_heap vm))" using vm'(3) by auto
  ultimately show ?thesis using False vm' a intern_found [OF vm'(2) a]
    by (intro exI [of _ a] exI [of _ vm']) simp
qed

subsection \<open>Properties\<close>

text \<open>C3: interning a text returns the one string object that has it: an existing object is returned and
  the machine is unchanged; otherwise a new object is put in the table and the object list, the table
  growing when it is half full. Interning the same text again returns the same object, so two strings
  of the machine are equal exactly when their pointers are.\<close>

theorem interning:
  assumes "intern_ok vm" "vm_interned_capacity vm < 2 ^ 29" "vm_heap vm a = None"
  shows "\<exists>b vm'. slp_vm_intern_string sizes True (Some a) chars vm = Some (Some b, vm') \<and> intern_ok vm' \<and>
    b \<in> strings_of vm' \<and> text_of (vm_heap vm') b = chars \<and> vm_heap vm \<subseteq>\<^sub>m vm_heap vm' \<and>
    (if \<exists>c\<in>strings_of vm. text_of (vm_heap vm) c = chars then vm' = vm
     else b = a \<and> strings_of vm' = insert a (strings_of vm) \<and> vm_objects vm' = a # vm_objects vm) \<and>
    (\<forall>p. slp_vm_intern_string sizes True p chars vm' = Some (Some b, vm'))"
  using intern_string_ok [OF assms, of sizes chars] by blast

lemma intern_ok_zero: "intern_ok vm_zero"
  by (simp add: intern_ok_def table_ok_def canonical_def strings_of_def vm_zero_def)

theorem interning_witness:
  "\<exists>vm'. slp_vm_intern_string (\<lambda>_. 32) True (Some 7) ''abc'' vm_zero = Some (Some 7, vm') \<and> intern_ok vm' \<and>
     (\<forall>p. slp_vm_intern_string (\<lambda>_. 32) True p ''abc'' vm' = Some (Some 7, vm'))"
proof -
  have "strings_of vm_zero = {}" by (simp add: strings_of_def vm_zero_def)
  with interning [of vm_zero 7 "\<lambda>_. 32" "''abc''"] intern_ok_zero show ?thesis
    by (auto simp: vm_zero_def)
qed

end
