(* ===== verification/GC_Props.thy ===== *)
theory GC_Props
  imports GC Interned
begin

text \<open>
  Correctness of the collector: reachability from the roots, marking as a worklist search whose result
  is the set of reachable objects, the sweep, the rebuilt table of interned strings, and the collection
  as a whole.
\<close>

subsection \<open>Reachability\<close>

definition objects_in :: "slp_value list \<Rightarrow> addr set" where
  "objects_in vs = {a. VObj a \<in> set vs}"

inductive reachable :: "heap \<Rightarrow> slp_value list \<Rightarrow> addr \<Rightarrow> bool" for h vs where
  root: "VObj a \<in> set vs \<Longrightarrow> reachable h vs a"
| step: "reachable h vs a \<Longrightarrow> h a = Some ob \<Longrightarrow> references h ob = Some ws \<Longrightarrow> VObj b \<in> set ws \<Longrightarrow> reachable h vs b"

inductive_cases reachableE: "reachable h vs a"

lemma objects_in_simps [simp]:
  "objects_in [] = {}"
  "objects_in (VObj a # vs) = insert a (objects_in vs)"
  "objects_in (VNull # vs) = objects_in vs"
  "objects_in (VBool b # vs) = objects_in vs"
  "objects_in (VNum d # vs) = objects_in vs"
  by (auto simp: objects_in_def)

text \<open>Every object reached is live, and its pointers can be read.\<close>

definition sound_heap :: "heap \<Rightarrow> addr set \<Rightarrow> bool" where
  "sound_heap h R \<longleftrightarrow> (\<forall>a\<in>R. \<exists>ob ws. h a = Some ob \<and> references h ob = Some ws \<and> objects_in ws \<subseteq> R)"

definition closed_under :: "heap \<Rightarrow> addr set \<Rightarrow> addr set \<Rightarrow> bool" where
  "closed_under h A B \<longleftrightarrow> (\<forall>a\<in>A. \<forall>ob ws. h a = Some ob \<longrightarrow> references h ob = Some ws \<longrightarrow> objects_in ws \<subseteq> B)"

lemma reachable_least:
  assumes "objects_in vs \<subseteq> M" "closed_under h M M" "reachable h vs a"
  shows "a \<in> M"
  using assms(3)
proof induction
  case (root a)
  then show ?case using assms(1) by (auto simp: objects_in_def)
next
  case (step a ob ws b)
  then have "b \<in> objects_in ws" "objects_in ws \<subseteq> M" using assms(2) by (auto simp: objects_in_def closed_under_def)
  then show ?case by blast
qed

subsection \<open>Marking\<close>

abbreviation marking :: "vm \<Rightarrow> addr set \<Rightarrow> addr list \<Rightarrow> int \<Rightarrow> vm" where
  "marking vm M G c \<equiv> vm\<lparr>vm_marked := M, vm_gray_capacity := c, vm_gray_stack := G\<rparr>"

text \<open>The state of the search: marked objects are reachable, the gray ones wait on the stack once each.\<close>

definition mark_ok :: "addr set \<Rightarrow> addr set \<Rightarrow> addr list \<Rightarrow> int \<Rightarrow> bool" where
  "mark_ok R M G c \<longleftrightarrow> finite R \<and> card R < 2 ^ 29 \<and> M \<subseteq> R \<and> set G \<subseteq> M \<and> distinct G \<and>
     int (length G) \<le> c \<and> c \<le> 2 ^ 30"

lemma mark_ok_length: "mark_ok R M G c \<Longrightarrow> length G \<le> card R"
proof -
  assume "mark_ok R M G c"
  then have "finite R" "set G \<subseteq> R" "distinct G" by (auto simp: mark_ok_def)
  then show ?thesis by (metis card_mono distinct_card)
qed

lemma mark_obj_ok:
  assumes ok: "mark_ok R M G c" and a: "a \<in> R" "vm_heap vm a \<noteq> None"
  shows "\<exists>G' c'. slp_gc_mark_obj (Some a) (marking vm M G c) = Some (marking vm (insert a M) G' c') \<and>
    mark_ok R (insert a M) G' c' \<and> set G' = set G \<union> (insert a M - M)"
proof (cases "a \<in> M")
  case True
  then show ?thesis using ok a(2)
    by (intro exI [of _ G] exI [of _ c]) (simp add: slp_gc_mark_obj_def insert_absorb)
next
  case False
  have "length G < 2 ^ 29" using mark_ok_length [OF ok] ok by (simp add: mark_ok_def)
  then have cap: "int (length G) + 1 \<le> grown 64 (length G) c" "grown 64 (length G) c \<le> 2 ^ 30"
    using grown_ok [of "length G" c 64] ok by (simp_all add: mark_ok_def)
  then have "slp_gc_mark_obj (Some a) (marking vm M G c) = Some (marking vm (insert a M) (G @ [a]) (grown 64 (length G) c))"
    using False a(2) by (simp add: slp_gc_mark_obj_def gc_gray_stack_push_def)
  moreover have "mark_ok R (insert a M) (G @ [a]) (grown 64 (length G) c)"
    using ok False a(1) cap by (auto simp: mark_ok_def)
  ultimately show ?thesis using False
    by (intro exI [of _ "G @ [a]"] exI [of _ "grown 64 (length G) c"]) auto
qed

lemma mark_values_ok:
  "mark_ok R M G c \<Longrightarrow> objects_in vs \<subseteq> R \<Longrightarrow> R \<subseteq> dom (vm_heap vm) \<Longrightarrow>
   \<exists>G' c'. mark_values vs (marking vm M G c) = Some (marking vm (M \<union> objects_in vs) G' c') \<and>
     mark_ok R (M \<union> objects_in vs) G' c' \<and> set G' = set G \<union> (objects_in vs - M)"
proof (induction vs arbitrary: M G c)
  case Nil
  then show ?case by (intro exI [of _ G] exI [of _ c]) simp
next
  case (Cons v vs)
  show ?case
  proof (cases v)
    case (VObj a)
    then have a: "a \<in> R" "vm_heap vm a \<noteq> None" using Cons.prems(2,3) by auto
    obtain G1 c1 where 1: "slp_gc_mark_obj (Some a) (marking vm M G c) = Some (marking vm (insert a M) G1 c1)"
      "mark_ok R (insert a M) G1 c1" "set G1 = set G \<union> (insert a M - M)"
      using mark_obj_ok [OF Cons.prems(1) a] by blast
    obtain G2 c2 where 2: "mark_values vs (marking vm (insert a M) G1 c1) = Some (marking vm (insert a M \<union> objects_in vs) G2 c2)"
      "mark_ok R (insert a M \<union> objects_in vs) G2 c2" "set G2 = set G1 \<union> (objects_in vs - insert a M)"
      using Cons.IH [OF 1(2)] Cons.prems(2,3) VObj by auto
    have "set G2 = set G \<union> (objects_in (v # vs) - M)" using 1(3) 2(3) VObj by auto
    then show ?thesis using 1(1) 2 VObj by (intro exI [of _ G2] exI [of _ c2]) (simp add: slp_gc_mark_value_def)
  qed (use Cons in \<open>simp_all add: slp_gc_mark_value_def\<close>)
qed

text \<open>Popping and blackening makes progress: an object leaves the stack, its white neighbours enter it.\<close>

lemma mark_ok_pop:
  assumes "mark_ok R M G c" "G \<noteq> []"
  shows "mark_ok R M (butlast G) c" "last G \<in> R" "set (butlast G) = set G - {last G}"
proof -
  have G: "G = butlast G @ [last G]" using assms(2) by simp
  then have "distinct (butlast G @ [last G])" "set (butlast G @ [last G]) \<subseteq> M" using assms(1) by (simp_all add: mark_ok_def)
  then show "mark_ok R M (butlast G) c" "last G \<in> R" using assms(1) by (auto simp: mark_ok_def)
  show "set (butlast G) = set G - {last G}"
    using \<open>distinct (butlast G @ [last G])\<close> arg_cong [OF G, of set] by auto
qed

lemma trace_ok:
  "mark_ok R M G c \<Longrightarrow> R \<subseteq> dom (vm_heap vm) \<Longrightarrow> sound_heap (vm_heap vm) R \<Longrightarrow> closed_under (vm_heap vm) (M - set G) M \<Longrightarrow>
   \<exists>M' c'. trace_references (marking vm M G c) = Some (marking vm M' [] c') \<and> mark_ok R M' [] c' \<and> M \<subseteq> M' \<and>
     closed_under (vm_heap vm) M' M'"
proof (induction "2 * card (R - M) + length G" arbitrary: M G c rule: less_induct)
  case less
  show ?case
  proof (cases "G = []")
    case True
    then show ?thesis using less.prems
      by (intro exI [of _ M] exI [of _ c]) (simp add: trace_references.simps)
  next
    case False
    let ?a = "last G"
    note pop = mark_ok_pop [OF less.prems(1) False]
    obtain ob ws where ob: "vm_heap vm ?a = Some ob" "references (vm_heap vm) ob = Some ws" "objects_in ws \<subseteq> R"
      using less.prems(3) pop(2) by (auto simp: sound_heap_def)
    obtain G' c' where mk: "mark_values ws (marking vm M (butlast G) c) = Some (marking vm (M \<union> objects_in ws) G' c')"
      "mark_ok R (M \<union> objects_in ws) G' c'" "set G' = set (butlast G) \<union> (objects_in ws - M)"
      using mark_values_ok [OF pop(1) ob(3) less.prems(2)] by blast
    let ?M = "M \<union> objects_in ws" and ?W = "objects_in ws - M"
    have fin: "finite R" "M \<subseteq> R" "distinct G" using less.prems(1) by (simp_all add: mark_ok_def)
    have "length G' = card (set G')" using mk(2) by (simp add: mark_ok_def distinct_card)
    also have "... \<le> card (set (butlast G)) + card ?W" unfolding mk(3) by (rule card_Un_le)
    also have "... \<le> length G - 1 + card ?W" using card_length [of "butlast G"] by simp
    finally have len: "length G' \<le> length G - 1 + card ?W" .
    have "R - M = (R - ?M) \<union> ?W" "(R - ?M) \<inter> ?W = {}" using ob(3) by auto
    then have "card (R - M) = card (R - ?M) + card ?W" using fin(1) ob(3) by (metis card_Un_disjoint finite_Diff finite_subset)
    moreover have "0 < length G" using False by simp
    ultimately have dec: "2 * card (R - ?M) + length G' < 2 * card (R - M) + length G" using len by linarith
    have "closed_under (vm_heap vm) (?M - set G') ?M"
      unfolding closed_under_def
    proof (intro ballI allI impI)
      fix x ob' ws' assume x: "x \<in> ?M - set G'" "vm_heap vm x = Some ob'" "references (vm_heap vm) ob' = Some ws'"
      show "objects_in ws' \<subseteq> ?M"
      proof (cases "x = ?a")
        case True
        then show ?thesis using x ob by auto
      next
        case False
        then have "x \<in> M - set G" using x(1) mk(3) pop(3) by auto
        then show ?thesis using x(2,3) less.prems(4) by (auto simp: closed_under_def)
      qed
    qed
    from less.hyps [OF dec mk(2) less.prems(2,3) this] obtain M'' c'' where
      res: "trace_references (marking vm ?M G' c') = Some (marking vm M'' [] c'')" "mark_ok R M'' [] c''" "?M \<subseteq> M''"
      "closed_under (vm_heap vm) M'' M''" by blast
    have "trace_references (marking vm M G c) = trace_references (marking vm ?M G' c')"
      using False ob(1,2) mk(1) by (subst trace_references.simps) (simp add: blacken_object_def)
    then show ?thesis using res by (intro exI [of _ M''] exI [of _ c'']) auto
  qed
qed

text \<open>The objects the roots reach, and the machine in which a collection may start.\<close>

definition live :: "vm \<Rightarrow> addr set" where
  "live vm = {a. reachable (vm_heap vm) (the (root_values vm)) a}"

definition gc_ready :: "vm \<Rightarrow> bool" where
  "gc_ready vm \<longleftrightarrow> root_values vm \<noteq> None \<and>
     (\<forall>a\<in>live vm. \<exists>ob ws. vm_heap vm a = Some ob \<and> references (vm_heap vm) ob = Some ws) \<and>
     finite (dom (vm_heap vm)) \<and> card (dom (vm_heap vm)) < 2 ^ 29 \<and>
     vm_marked vm = {} \<and> vm_gray_stack vm = [] \<and> 0 \<le> vm_gray_capacity vm \<and> vm_gray_capacity vm \<le> 2 ^ 30"

lemma live_in_heap: "gc_ready vm \<Longrightarrow> live vm \<subseteq> dom (vm_heap vm)"
  by (auto simp: gc_ready_def)

lemma live_sound: "gc_ready vm \<Longrightarrow> sound_heap (vm_heap vm) (live vm)"
  unfolding sound_heap_def
proof
  fix a assume ready: "gc_ready vm" and a: "a \<in> live vm"
  then obtain ob ws where ob: "vm_heap vm a = Some ob" "references (vm_heap vm) ob = Some ws" by (auto simp: gc_ready_def)
  have "objects_in ws \<subseteq> live vm" using a reachable.step [OF _ ob] by (auto simp: objects_in_def live_def)
  with ob show "\<exists>ob ws. vm_heap vm a = Some ob \<and> references (vm_heap vm) ob = Some ws \<and> objects_in ws \<subseteq> live vm" by blast
qed

lemma mark_phase_ok:
  assumes ready: "gc_ready vm"
  shows "\<exists>c vm1. mark_roots vm = Some vm1 \<and> trace_references vm1 = Some (marking vm (live vm) [] c) \<and> 0 \<le> c \<and> c \<le> 2 ^ 30"
proof -
  obtain vs where vs: "root_values vm = Some vs" using ready by (auto simp: gc_ready_def)
  have live: "live vm = {a. reachable (vm_heap vm) vs a}" using vs by (simp add: live_def)
  let ?R = "live vm"
  have fin: "finite ?R" "card ?R < 2 ^ 29"
    using live_in_heap [OF ready] ready card_mono [of "dom (vm_heap vm)" ?R] by (auto simp: gc_ready_def intro: finite_subset)
  have self: "marking vm {} [] (vm_gray_capacity vm) = vm" using ready by (simp add: gc_ready_def)
  have start: "mark_ok ?R {} [] (vm_gray_capacity vm)" using fin ready by (simp add: mark_ok_def gc_ready_def)
  have roots: "objects_in vs \<subseteq> ?R" using live by (auto simp: objects_in_def intro: reachable.root)
  obtain G c where 1: "mark_values vs vm = Some (marking vm (objects_in vs) G c)" "mark_ok ?R (objects_in vs) G c"
    "set G = objects_in vs"
    using mark_values_ok [OF start roots live_in_heap [OF ready]] self by auto
  have "closed_under (vm_heap vm) (objects_in vs - set G) (objects_in vs)" using 1(3) by (simp add: closed_under_def)
  from trace_ok [OF 1(2) live_in_heap [OF ready] live_sound [OF ready] this] obtain M c' where
    2: "trace_references (marking vm (objects_in vs) G c) = Some (marking vm M [] c')" "mark_ok ?R M [] c'"
    "objects_in vs \<subseteq> M" "closed_under (vm_heap vm) M M" by blast
  have "?R \<subseteq> M" using reachable_least [OF 2(3,4)] live by auto
  then have "M = ?R" using 2(2) by (auto simp: mark_ok_def)
  then show ?thesis using 1(1) 2(1,2) vs by (auto simp: mark_roots_def mark_ok_def)
qed

subsection \<open>Sweeping\<close>

definition size_at :: "struct_sizes \<Rightarrow> heap \<Rightarrow> addr \<Rightarrow> u64" where
  "size_at sizes h a = slp_gc_object_size sizes (the (h a))"

definition closing_at :: "heap \<Rightarrow> addr \<Rightarrow> platform_call list" where
  "closing_at h a = free_obj_contents (the (h a))"

definition without :: "heap \<Rightarrow> addr set \<Rightarrow> heap" where
  "without h D = (\<lambda>a. if a \<in> D then None else h a)"

lemma without_insert: "without h (insert a D) = without (h(a := None)) D"
  by (auto simp: without_def)

lemma map_size_upd: "a \<notin> set xs \<Longrightarrow> map (size_at sizes (h(a := v))) xs = map (size_at sizes h) xs"
  by (auto simp: size_at_def)

lemma map_closing_upd: "a \<notin> set xs \<Longrightarrow> map (closing_at (h(a := v))) xs = map (closing_at h) xs"
  by (auto simp: closing_at_def)

definition swept :: "struct_sizes \<Rightarrow> addr list \<Rightarrow> vm \<Rightarrow> vm" where
  "swept sizes objs vm =
     (let dead = filter (\<lambda>a. a \<notin> vm_marked vm) objs
      in vm\<lparr>vm_marked := vm_marked vm - set objs,
            vm_heap := without (vm_heap vm) (set dead),
            vm_bytes_allocated := vm_bytes_allocated vm - sum_list (map (size_at sizes (vm_heap vm)) dead),
            vm_platform_calls := vm_platform_calls vm @ concat (map (closing_at (vm_heap vm)) dead)\<rparr>)"

lemma sweep_list_ok:
  "distinct objs \<Longrightarrow> set objs \<subseteq> dom (vm_heap vm) \<Longrightarrow>
   sweep_list sizes objs vm = Some (filter (\<lambda>a. a \<in> vm_marked vm) objs, swept sizes objs vm)"
proof (induction objs arbitrary: vm)
  case Nil
  then show ?case by (simp add: swept_def without_def)
next
  case (Cons a objs)
  then obtain ob where ob: "vm_heap vm a = Some ob" by auto
  have a: "a \<notin> set objs" "distinct objs" using Cons.prems(1) by simp_all
  show ?case
  proof (cases "a \<in> vm_marked vm")
    case True
    let ?vm = "vm\<lparr>vm_marked := vm_marked vm - {a}\<rparr>"
    have same: "filter (\<lambda>x. x \<in> vm_marked ?vm) objs = filter (\<lambda>x. x \<in> vm_marked vm) objs"
      "filter (\<lambda>x. x \<notin> vm_marked ?vm) objs = filter (\<lambda>x. x \<notin> vm_marked vm) objs"
      using a(1) by (auto intro: filter_cong)
    have "sweep_list sizes objs ?vm = Some (filter (\<lambda>x. x \<in> vm_marked ?vm) objs, swept sizes objs ?vm)"
      using Cons.prems(2) by (intro Cons.IH a(2)) simp
    moreover have "vm_marked vm - {a} - set objs = vm_marked vm - set (a # objs)" by auto
    then have "swept sizes objs ?vm = swept sizes (a # objs) vm"
      unfolding swept_def same using True by (simp add: Let_def)
    ultimately show ?thesis using ob True same by simp
  next
    case False
    let ?vm = "free_object sizes a ob vm"
    have f: "vm_marked ?vm = vm_marked vm" "vm_heap ?vm = (vm_heap vm)(a := None)" by (simp_all add: free_object_def)
    have "sweep_list sizes objs ?vm = Some (filter (\<lambda>x. x \<in> vm_marked ?vm) objs, swept sizes objs ?vm)"
      using Cons.prems(2) a(1) f(2) by (intro Cons.IH a(2)) auto
    moreover have "swept sizes objs ?vm = swept sizes (a # objs) vm"
      using False ob a(1)
      by (simp add: swept_def Let_def free_object_def without_insert map_size_upd map_closing_upd size_at_def [of _ _ a]
          closing_at_def [of _ a] diff_diff_eq)
    ultimately show ?thesis using ob False f(1) by simp
  qed
qed

subsection \<open>Rebuilding the table of interned strings\<close>

lemma type_string: "h a = Some ob \<Longrightarrow> type_of ob = T_STRING \<longleftrightarrow> get_string h a \<noteq> None"
  by (cases ob) (simp_all add: get_string_def)

lemma put_strings_ok:
  "holds h S tab \<Longrightarrow> distinct objs \<Longrightarrow> set objs \<subseteq> dom h \<Longrightarrow> S \<inter> set objs = {} \<Longrightarrow>
   T = {a \<in> set objs. get_string h a \<noteq> None} \<Longrightarrow> card S + card T \<le> length tab \<Longrightarrow>
   \<exists>tab'. put_strings h objs (tab, n) = Some (tab', n + int (card T)) \<and> length tab' = length tab \<and> holds h (S \<union> T) tab'"
proof (induction objs arbitrary: S T tab n)
  case Nil
  then show ?case by simp
next
  case (Cons a objs)
  obtain ob where ob: "h a = Some ob" using Cons.prems(3) by auto
  let ?T = "{x \<in> set objs. get_string h x \<noteq> None}"
  have rest: "distinct objs" "set objs \<subseteq> dom h" "a \<notin> set objs" using Cons.prems(2,3) by simp_all
  show ?case
  proof (cases "get_string h a = None")
    case True
    then have T: "T = ?T" using Cons.prems(5) by auto
    have "S \<inter> set objs = {}" "card S + card ?T \<le> length tab" using Cons.prems(4,6) T by auto
    from Cons.IH [OF Cons.prems(1) rest(1,2) this(1) refl this(2), of n] True ob type_string [of h a ob] T
    show ?thesis by simp
  next
    case False
    have aS: "a \<notin> S" using Cons.prems(4) by auto
    have T: "T = insert a ?T" using Cons.prems(5) False by auto
    then have cT: "card T = Suc (card ?T)" using rest(3) by simp
    then have "card S < length tab" using Cons.prems(6) by linarith
    then obtain tab1 where tab1: "intern_put h a tab = Some tab1" "length tab1 = length tab" "holds h (insert a S) tab1"
      using intern_put_ok [OF Cons.prems(1) aS False] by blast
    have "card (insert a S) = Suc (card S)" using aS holds_finite [OF Cons.prems(1)] by simp
    then have "insert a S \<inter> set objs = {}" "card (insert a S) + card ?T \<le> length tab1"
      using Cons.prems(4,6) cT rest(3) tab1(2) by auto
    from Cons.IH [OF tab1(3) rest(1,2) this(1) refl this(2), of "n + 1"] obtain tab' where
      "put_strings h objs (tab1, n + 1) = Some (tab', n + 1 + int (card ?T))" "length tab' = length tab1"
      "holds h (insert a S \<union> ?T) tab'" by blast
    moreover have "insert a S \<union> ?T = S \<union> T" using T by blast
    ultimately show ?thesis using ob False type_string [of h a ob] tab1(1,2) cT by simp
  qed
qed

text \<open>Rebuilding restores the table for any part of the strings that are left.\<close>

lemma rebuild_ok:
  assumes objs: "distinct (vm_objects vm)" "set (vm_objects vm) \<subseteq> dom (vm_heap vm)"
    and can: "canonical (vm_heap vm) (strings_of vm)"
    and tab: "vm_interned vm = Some tab" "table_size (length tab)" "vm_interned_capacity vm = int (length tab)"
    and few: "2 * card (strings_of vm) \<le> length tab"
  shows "\<exists>tab'. rebuild_interned vm = Some (vm\<lparr>vm_interned := Some tab', vm_interned_count := int (card (strings_of vm))\<rparr>) \<and>
    intern_ok (vm\<lparr>vm_interned := Some tab', vm_interned_count := int (card (strings_of vm))\<rparr>)"
proof -
  let ?new = "replicate (length tab) (None :: ptr)"
  have empty: "holds (vm_heap vm) {} ?new" by (rule holds_empty) (rule tab(2))
  have T: "strings_of vm = {a \<in> set (vm_objects vm). get_string (vm_heap vm) a \<noteq> None}" by (simp add: strings_of_def)
  have "card {} + card (strings_of vm) \<le> length ?new" using few by simp
  from put_strings_ok [OF empty objs Int_empty_left T this, of 0] obtain tab' where
    tab': "put_strings (vm_heap vm) (vm_objects vm) (?new, 0) = Some (tab', int (card (strings_of vm)))"
    "length tab' = length tab" "holds (vm_heap vm) (strings_of vm) tab'" by auto
  have "0 < length tab" using table_size_pos [OF tab(2)] by linarith
  then have "rebuild_interned vm = Some (vm\<lparr>vm_interned := Some tab', vm_interned_count := int (card (strings_of vm))\<rparr>)"
    using tab(1,3) tab'(1) by (simp add: rebuild_interned_def)
  moreover have "intern_ok (vm\<lparr>vm_interned := Some tab', vm_interned_count := int (card (strings_of vm))\<rparr>)"
    using objs can tab' tab(3) few by (simp add: intern_ok_def table_ok_def)
  ultimately show ?thesis by blast
qed

subsection \<open>Pointers in the swept heap\<close>

lemma references_cong:
  assumes "references h ob = Some ws" "\<And>b. b \<in> objects_in ws \<Longrightarrow> h' b = h b"
  shows "references h' ob = Some ws"
proof (cases ob)
  case (OClosure c)
  then obtain a f ups where c: "co_function c = Some a" "get_function h a = Some f" "VObj a \<in> set ws"
    using assms(1) by (auto simp: references_def closure_references_def bind_Some_iff)
  then have "get_function h' a = get_function h a" using assms(2) by (simp add: get_function_def objects_in_def)
  then show ?thesis using assms(1) OClosure c by (simp add: references_def closure_references_def)
qed (use assms(1) in \<open>simp_all add: references_def\<close>)

lemma reachable_cong:
  assumes "sound_heap h R" "R = {a. reachable h vs a}" "\<And>a. a \<in> R \<Longrightarrow> h' a = h a"
  shows "reachable h' vs a \<longleftrightarrow> reachable h vs a"
proof
  show "reachable h' vs a \<Longrightarrow> reachable h vs a"
  proof (induction rule: reachable.induct)
    case (root a)
    then show ?case by (rule reachable.root)
  next
    case (step a ob ws b)
    then have "a \<in> R" using assms(2) by simp
    then obtain ob' ws' where ob': "h a = Some ob'" "references h ob' = Some ws'" "objects_in ws' \<subseteq> R"
      using assms(1) by (auto simp: sound_heap_def)
    moreover have "ob' = ob" using assms(3) [OF \<open>a \<in> R\<close>] step.hyps(2) ob'(1) by simp
    moreover have "references h' ob' = Some ws'" using references_cong [OF ob'(2)] assms(3) ob'(3) by blast
    ultimately show ?case using reachable.step [OF step.IH ob'(1,2)] step.hyps by simp
  qed
  show "reachable h vs a \<Longrightarrow> reachable h' vs a"
  proof (induction rule: reachable.induct)
    case (root a)
    then show ?case by (rule reachable.root)
  next
    case (step a ob ws b)
    then have a: "a \<in> R" using assms(2) by simp
    then obtain ob' ws' where "h a = Some ob'" "references h ob' = Some ws'" "objects_in ws' \<subseteq> R"
      using assms(1) by (auto simp: sound_heap_def)
    then have "objects_in ws \<subseteq> R" using step.hyps by simp
    then have "references h' ob = Some ws" using references_cong [OF step.hyps(3)] assms(3) by blast
    then show ?case using reachable.step [OF step.IH] step.hyps assms(3) [OF a] by simp
  qed
qed

lemma upvalue_chain_cong:
  assumes "open_upvalue_chain h p = Some vs" "\<forall>a\<in>objects_in vs. h' a = h a"
  shows "open_upvalue_chain h' p = Some vs"
proof -
  have "(\<forall>a\<in>objects_in vs. h' a = h a) \<longrightarrow> open_upvalue_chain h' p = Some vs"
  proof (rule open_upvalue_chain.raw_induct
      [where P = "\<lambda>h p vs. (\<forall>a\<in>objects_in vs. h' a = h a) \<longrightarrow> open_upvalue_chain h' p = Some vs", OF _ assms(1)], rule impI)
    fix chain h p vs
    assume IH: "\<And>h p vs. chain h p = Some vs \<Longrightarrow> (\<forall>a\<in>objects_in vs. h' a = h a) \<longrightarrow> open_upvalue_chain h' p = Some vs"
      and eq: "(case p of None \<Rightarrow> Some [] | Some a \<Rightarrow> (case h a of
          Some (OUpvalue u) \<Rightarrow> chain h (uv_next u) \<bind> (\<lambda>vs. Some (VObj a # vs)) | _ \<Rightarrow> None)) = Some vs"
      and same: "\<forall>a\<in>objects_in vs. h' a = h a"
    show "open_upvalue_chain h' p = Some vs"
    proof (cases p)
      case None
      then show ?thesis using eq by (simp add: open_upvalue_chain.simps)
    next
      case (Some a)
      then obtain u ws where u: "h a = Some (OUpvalue u)" "chain h (uv_next u) = Some ws" "vs = VObj a # ws"
        using eq by (auto simp: bind_Some_iff split: option.splits obj.splits)
      have "open_upvalue_chain h' (uv_next u) = Some ws" using IH [OF u(2)] same u(3) by simp
      then show ?thesis using u Some same by (subst open_upvalue_chain.simps) simp
    qed
  qed
  with assms(2) show ?thesis by blast
qed

subsection \<open>Collection\<close>

abbreviation garbage :: "vm \<Rightarrow> addr list" where
  "garbage vm \<equiv> filter (\<lambda>a. a \<notin> live vm) (vm_objects vm)"

definition collected :: "struct_sizes \<Rightarrow> vm \<Rightarrow> int \<Rightarrow> vm" where
  "collected sizes vm c =
     vm\<lparr>vm_marked := live vm - set (vm_objects vm), vm_gray_capacity := c, vm_gray_stack := [],
        vm_heap := without (vm_heap vm) (set (garbage vm)),
        vm_bytes_allocated := vm_bytes_allocated vm - sum_list (map (size_at sizes (vm_heap vm)) (garbage vm)),
        vm_platform_calls := vm_platform_calls vm @ concat (map (closing_at (vm_heap vm)) (garbage vm)),
        vm_objects := filter (\<lambda>a. a \<in> live vm) (vm_objects vm)\<rparr>"

lemma sweep_phase_ok:
  assumes "gc_ready vm" "intern_ok vm"
  shows "\<exists>c. do { vm \<leftarrow> mark_roots vm; vm \<leftarrow> trace_references vm; slp_gc_sweep sizes vm } = Some (collected sizes vm c) \<and>
    0 \<le> c \<and> c \<le> 2 ^ 30"
proof -
  obtain c vm1 where c: "mark_roots vm = Some vm1" "trace_references vm1 = Some (marking vm (live vm) [] c)" "0 \<le> c" "c \<le> 2 ^ 30"
    using mark_phase_ok [OF assms(1)] by blast
  have objs: "distinct (vm_objects vm)" "set (vm_objects vm) \<subseteq> dom (vm_heap vm)" using assms(2) by (simp_all add: intern_ok_def)
  then have "slp_gc_sweep sizes (marking vm (live vm) [] c) = Some (collected sizes vm c)"
    using sweep_list_ok [of "vm_objects vm" "marking vm (live vm) [] c" sizes]
    by (simp add: slp_gc_sweep_def swept_def collected_def Let_def)
  then show ?thesis using c by auto
qed

lemma heap_on_live: "a \<in> live vm \<Longrightarrow> without (vm_heap vm) (set (garbage vm)) a = vm_heap vm a"
  by (simp add: without_def)

lemma string_without: "get_string (without h D) a = (if a \<in> D then None else get_string h a)"
  by (simp add: get_string_def without_def)

lemma strings_collected: "strings_of (collected sizes vm c) = strings_of vm \<inter> live vm"
  by (auto simp: strings_of_def collected_def string_without split: if_splits)

lemma canonical_subset:
  assumes "canonical h S" "T \<subseteq> S" "\<And>a. a \<in> T \<Longrightarrow> h' a = h a"
  shows "canonical h' T"
proof -
  have "string_at h' a = string_at h a" if "a \<in> T" for a using assms(3) [OF that] by (simp add: string_at_def get_string_def)
  then show ?thesis using assms(1,2) by (auto simp: canonical_def text_of_def inj_on_def subset_iff)
qed

lemma intern_ok_collected:
  assumes ok: "intern_ok vm"
  shows "\<exists>t n. rebuild_interned (collected sizes vm c) = Some ((collected sizes vm c)\<lparr>vm_interned := t, vm_interned_count := n\<rparr>) \<and>
    intern_ok ((collected sizes vm c)\<lparr>vm_interned := t, vm_interned_count := n\<rparr>)"
proof -
  let ?vm = "collected sizes vm c"
  have objs: "distinct (vm_objects ?vm)" "set (vm_objects ?vm) \<subseteq> dom (vm_heap ?vm)"
    using ok by (auto simp: intern_ok_def collected_def without_def)
  have can: "canonical (vm_heap ?vm) (strings_of ?vm)"
  proof (rule canonical_subset)
    show "canonical (vm_heap vm) (strings_of vm)" using ok by (simp add: intern_ok_def)
    show "vm_heap ?vm a = vm_heap vm a" if "a \<in> strings_of ?vm" for a
      using that heap_on_live [of a vm] by (simp add: strings_collected) (simp add: collected_def)
  qed (simp add: strings_collected)
  show ?thesis
  proof (cases "vm_interned vm")
    case None
    then have none: "vm_interned ?vm = None" by (simp add: collected_def)
    then have "rebuild_interned ?vm = Some ?vm" by (simp add: rebuild_interned_def)
    moreover have "strings_of vm = {}" "vm_interned_capacity vm = 0" "vm_interned_count vm = 0"
      using ok None by (simp_all add: intern_ok_def table_ok_def)
    then have "table_ok ?vm" using none by (simp add: table_ok_def strings_collected) (simp add: collected_def)
    ultimately show ?thesis using objs can
      by (intro exI [of _ "vm_interned ?vm"] exI [of _ "vm_interned_count ?vm"]) (simp add: intern_ok_def)
  next
    case (Some tab)
    then have t: "holds (vm_heap vm) (strings_of vm) tab" "vm_interned_capacity vm = int (length tab)"
      "2 * card (strings_of vm) \<le> length tab" using ok by (auto simp: intern_ok_def table_ok_def)
    have "card (strings_of ?vm) \<le> card (strings_of vm)"
      unfolding strings_collected using holds_finite [OF t(1)] by (intro card_mono) auto
    then have "2 * card (strings_of ?vm) \<le> length tab" using t(3) by linarith
    moreover have "vm_interned ?vm = Some tab" "vm_interned_capacity ?vm = int (length tab)"
      using Some t(2) by (simp_all add: collected_def)
    ultimately show ?thesis using rebuild_ok [OF objs can _ holds_size [OF t(1)]] by blast
  qed
qed

definition gc_threshold :: "u64 \<Rightarrow> u64" where
  "gc_threshold bytes = (if bytes * 3 div 2 < 256 * 1024 then 256 * 1024 else bytes * 3 div 2)"

lemma collect_ok:
  assumes "gc_ready vm" "intern_ok vm"
  shows "\<exists>c t n. slp_gc_collect sizes vm =
      Some ((collected sizes vm c)\<lparr>vm_interned := t, vm_interned_count := n,
        vm_next_gc_threshold := gc_threshold (vm_bytes_allocated (collected sizes vm c))\<rparr>) \<and>
    intern_ok ((collected sizes vm c)\<lparr>vm_interned := t, vm_interned_count := n\<rparr>) \<and> 0 \<le> c \<and> c \<le> 2 ^ 30"
proof -
  obtain c vm1 vm2 where sw: "mark_roots vm = Some vm1" "trace_references vm1 = Some vm2"
    "slp_gc_sweep sizes vm2 = Some (collected sizes vm c)" "0 \<le> c" "c \<le> 2 ^ 30"
    using sweep_phase_ok [OF assms, of sizes] by (auto simp: bind_Some_iff)
  obtain t n where "rebuild_interned (collected sizes vm c) = Some ((collected sizes vm c)\<lparr>vm_interned := t, vm_interned_count := n\<rparr>)"
    "intern_ok ((collected sizes vm c)\<lparr>vm_interned := t, vm_interned_count := n\<rparr>)"
    using intern_ok_collected [OF assms(2)] by blast
  then show ?thesis using sw
    by (intro exI [of _ c] exI [of _ t] exI [of _ n]) (simp add: slp_gc_collect_def Let_def gc_threshold_def)
qed

lemma intern_ok_threshold [simp]: "intern_ok (vm\<lparr>vm_next_gc_threshold := x\<rparr>) = intern_ok vm"
  by (cases "vm_interned vm") (simp_all add: intern_ok_def table_ok_def strings_of_def)

text \<open>The roots and what they reach are the same after the collection.\<close>

abbreviation collected_vm :: "struct_sizes \<Rightarrow> vm \<Rightarrow> int \<Rightarrow> ptr list option \<Rightarrow> int \<Rightarrow> u64 \<Rightarrow> vm" where
  "collected_vm sizes vm c t n th \<equiv>
     (collected sizes vm c)\<lparr>vm_interned := t, vm_interned_count := n, vm_next_gc_threshold := th\<rparr>"

lemma roots_collected:
  assumes "gc_ready vm"
  shows "root_values (collected_vm sizes vm c t n th) = root_values vm"
proof -
  obtain vs where vs: "root_values vm = Some vs" using assms by (auto simp: gc_ready_def)
  then obtain ups where chain: "open_upvalue_chain (vm_heap vm) (vm_open_upvalues vm) = Some ups"
    by (auto simp: root_values_def bind_Some_iff)
  with vs have "set ups \<subseteq> set vs" by (auto simp: root_values_def)
  note ups = chain this
  have "a \<in> live vm" if "a \<in> objects_in ups" for a
    using that ups(2) vs by (auto simp: live_def objects_in_def intro: reachable.root)
  then have "open_upvalue_chain (without (vm_heap vm) (set (garbage vm))) (vm_open_upvalues vm) = Some ups"
    using upvalue_chain_cong [OF ups(1)] heap_on_live by blast
  then show ?thesis using ups(1) by (simp add: root_values_def collected_def slp_embed_roots_def)
qed

lemma live_collected:
  assumes "gc_ready vm"
  shows "live (collected_vm sizes vm c t n th) = live vm"
proof -
  obtain vs where vs: "root_values vm = Some vs" using assms by (auto simp: gc_ready_def)
  then have "live vm = {a. reachable (vm_heap vm) vs a}" by (simp add: live_def)
  from reachable_cong [OF live_sound [OF assms] this heap_on_live]
  have "reachable (without (vm_heap vm) (set (garbage vm))) vs a = reachable (vm_heap vm) vs a" for a .
  then have "reachable (without (vm_heap vm) (set (garbage vm))) vs = reachable (vm_heap vm) vs" by (rule ext)
  moreover have "vm_heap (collected_vm sizes vm c t n th) = without (vm_heap vm) (set (garbage vm))" by (simp add: collected_def)
  ultimately show ?thesis unfolding live_def roots_collected [OF assms] using vs by simp
qed

lemma ready_collected:
  assumes ready: "gc_ready vm" and listed: "live vm \<subseteq> set (vm_objects vm)" and c: "0 \<le> c" "c \<le> 2 ^ 30"
  shows "gc_ready (collected_vm sizes vm c t n th)"
proof -
  let ?h = "without (vm_heap vm) (set (garbage vm))"
  have "\<exists>ob ws. ?h a = Some ob \<and> references ?h ob = Some ws" if a: "a \<in> live vm" for a
  proof -
    obtain ob ws where ob: "vm_heap vm a = Some ob" "references (vm_heap vm) ob = Some ws" "objects_in ws \<subseteq> live vm"
      using live_sound [OF ready] a by (auto simp: sound_heap_def)
    then have "references ?h ob = Some ws" using references_cong [OF ob(2)] heap_on_live by blast
    then show ?thesis using ob(1) heap_on_live [OF a] by simp
  qed
  moreover have "dom ?h \<subseteq> dom (vm_heap vm)" by (auto simp: without_def split: if_splits)
  then have "finite (dom ?h)" "card (dom ?h) < 2 ^ 29"
    using ready card_mono [of "dom (vm_heap vm)" "dom ?h"] by (auto simp: gc_ready_def intro: finite_subset)
  ultimately show ?thesis
    using ready listed c roots_collected [OF ready] live_collected [OF ready]
    by (simp add: gc_ready_def) (simp add: collected_def)
qed

subsection \<open>Properties\<close>

text \<open>C1: a collection returns, and it frees exactly the objects of the object list that the roots do not reach:
  every other object is left as it was, the list keeps its order, the handles of the freed objects are
  closed in list order, and the table of interned strings is rebuilt for the strings that are left.\<close>

theorem gc_collects:
  assumes "gc_ready vm" "intern_ok vm"
  shows "\<exists>vm'. slp_gc_collect sizes vm = Some vm' \<and>
    vm_objects vm' = filter (\<lambda>a. a \<in> live vm) (vm_objects vm) \<and>
    (\<forall>a. vm_heap vm' a = (if a \<in> set (vm_objects vm) \<and> a \<notin> live vm then None else vm_heap vm a)) \<and>
    vm_platform_calls vm' = vm_platform_calls vm @ concat (map (closing_at (vm_heap vm)) (garbage vm)) \<and>
    intern_ok vm' \<and> root_values vm' = root_values vm \<and> live vm' = live vm"
proof -
  from collect_ok [OF assms, of sizes] obtain c t n th where
    "slp_gc_collect sizes vm = Some (collected_vm sizes vm c t n th)"
    "intern_ok ((collected sizes vm c)\<lparr>vm_interned := t, vm_interned_count := n\<rparr>)" by blast
  then show ?thesis
    using roots_collected [OF assms(1)] live_collected [OF assms(1)]
    by (intro exI [of _ "collected_vm sizes vm c t n th"]) (simp add: collected_def without_def)
qed

text \<open>
  When every reachable object is on the object list, the machine is ready for the next collection after
  one, and a second collection right after the first frees nothing.\<close>

theorem gc_repeats:
  assumes "gc_ready vm" "intern_ok vm" "live vm \<subseteq> set (vm_objects vm)"
  shows "\<exists>vm' vm''. slp_gc_collect sizes vm = Some vm' \<and> gc_ready vm' \<and> intern_ok vm' \<and>
    live vm' \<subseteq> set (vm_objects vm') \<and> slp_gc_collect sizes vm' = Some vm'' \<and>
    vm_objects vm'' = vm_objects vm' \<and> vm_heap vm'' = vm_heap vm'"
proof -
  from collect_ok [OF assms(1,2), of sizes] obtain c t n th where
    1: "slp_gc_collect sizes vm = Some (collected_vm sizes vm c t n th)"
    "intern_ok ((collected sizes vm c)\<lparr>vm_interned := t, vm_interned_count := n\<rparr>)" "0 \<le> c" "c \<le> 2 ^ 30" by blast
  let ?vm = "collected_vm sizes vm c t n th"
  have ok: "gc_ready ?vm" "intern_ok ?vm" using ready_collected [OF assms(1,3) 1(3,4)] 1(2) by simp_all
  have live: "live ?vm = live vm" using live_collected [OF assms(1)] .
  have objs: "vm_objects ?vm = filter (\<lambda>a. a \<in> live vm) (vm_objects vm)" by (simp add: collected_def)
  from collect_ok [OF ok, of sizes] obtain c' t' n' th' where
    2: "slp_gc_collect sizes ?vm = Some (collected_vm sizes ?vm c' t' n' th')" by blast
  have none: "garbage ?vm = []" "filter (\<lambda>a. a \<in> live ?vm) (vm_objects ?vm) = vm_objects ?vm"
    unfolding live objs by (simp_all add: filter_empty_conv)
  have "vm_objects (collected_vm sizes ?vm c' t' n' th') = vm_objects ?vm"
    "vm_heap (collected_vm sizes ?vm c' t' n' th') = vm_heap ?vm"
    using none by (simp_all add: collected_def [of sizes ?vm c'] without_def)
  moreover have "live ?vm \<subseteq> set (vm_objects ?vm)" using live objs assms(3) by auto
  ultimately show ?thesis using 1(1) 2 ok by blast
qed

definition listed_size :: "struct_sizes \<Rightarrow> vm \<Rightarrow> u64" where
  "listed_size sizes vm = sum_list (map (size_at sizes (vm_heap vm)) (vm_objects vm))"

lemma sum_list_partition:
  "sum_list (map f xs) = sum_list (map f (filter P xs)) + sum_list (map f (filter (\<lambda>x. \<not> P x) xs))"
  for f :: "'a \<Rightarrow> 'b::comm_monoid_add"
  by (induction xs) (simp_all add: ac_simps)

text \<open>C28: the allocation counter stays exact: if it is the total size of the listed objects before a collection it
  is so after it, modulo the width of \<open>size_t\<close>; and the next threshold is never below 256 KiB.\<close>

theorem gc_accounts:
  assumes "gc_ready vm" "intern_ok vm" "vm_bytes_allocated vm = listed_size sizes vm"
  shows "\<exists>vm'. slp_gc_collect sizes vm = Some vm' \<and> vm_bytes_allocated vm' = listed_size sizes vm' \<and>
    256 * 1024 \<le> vm_next_gc_threshold vm'"
proof -
  from collect_ok [OF assms(1,2), of sizes] obtain c t n where
    1: "slp_gc_collect sizes vm = Some (collected_vm sizes vm c t n (gc_threshold (vm_bytes_allocated (collected sizes vm c))))"
    by blast
  let ?f = "size_at sizes (vm_heap vm)" and ?h = "without (vm_heap vm) (set (garbage vm))"
  let ?kept = "filter (\<lambda>a. a \<in> live vm) (vm_objects vm)"
  have "sum_list (map (size_at sizes ?h) ?kept) = sum_list (map ?f ?kept)"
    by (rule arg_cong [of _ _ sum_list], rule map_cong) (simp_all add: size_at_def without_def)
  then have "vm_bytes_allocated (collected sizes vm c) = listed_size sizes (collected sizes vm c)"
    using assms(3) sum_list_partition [of ?f "vm_objects vm" "\<lambda>a. a \<in> live vm"]
    by (simp add: listed_size_def collected_def)
  then show ?thesis using 1 by (simp add: gc_threshold_def listed_size_def not_less)
qed

text \<open>A machine with a reachable cell, the number it holds, and a garbage number.\<close>

definition sample_vm :: vm where
  "sample_vm = vm_zero\<lparr>vm_heap := [1 \<mapsto> OScalarCell \<lparr>sc_value = VObj 2, sc_watch_name = None\<rparr>, 2 \<mapsto> OLong 7, 3 \<mapsto> OLong 8],
     vm_stack := [VObj 1], vm_objects := [3, 2, 1], vm_bytes_allocated := 96\<rparr>"

lemma sample_roots: "root_values sample_vm = Some (VObj 1 # replicate 265 VNull)"
  by (simp add: root_values_def sample_vm_def vm_zero_def open_upvalue_chain.simps slp_embed_roots_def ptr_value_def
      numeral_eq_Suc)

lemma sample_live: "live sample_vm = {1, 2}"
proof
  let ?h = "vm_heap sample_vm"
  have h: "?h 1 = Some (OScalarCell \<lparr>sc_value = VObj 2, sc_watch_name = None\<rparr>)" "?h 2 = Some (OLong 7)"
    by (simp_all add: sample_vm_def)
  let ?vs = "VObj 1 # replicate 265 VNull"
  have "closed_under ?h {1, 2} {1, 2}" using h by (auto simp: closed_under_def references_def ptr_value_def)
  moreover have "objects_in ?vs \<subseteq> {1, 2}" by (auto simp: objects_in_def)
  ultimately show "live sample_vm \<subseteq> {1, 2}" using reachable_least [of ?vs "{1, 2}" ?h] by (auto simp: live_def sample_roots)
  have one: "reachable ?h ?vs 1" by (rule reachable.root) simp
  have "references ?h (OScalarCell \<lparr>sc_value = VObj 2, sc_watch_name = None\<rparr>) = Some [VObj 2, VNull]"
    by (simp add: references_def ptr_value_def)
  from reachable.step [OF one h(1) this, of 2] have "reachable ?h ?vs 2" by simp
  with one show "{1, 2} \<subseteq> live sample_vm" by (simp add: live_def sample_roots)
qed

lemma sample_ready: "gc_ready sample_vm" "intern_ok sample_vm"
proof -
  have "references (vm_heap sample_vm) (OScalarCell \<lparr>sc_value = VObj 2, sc_watch_name = None\<rparr>) \<noteq> None"
    "references (vm_heap sample_vm) (OLong 7) \<noteq> None" by (simp_all add: references_def)
  moreover have "dom (vm_heap sample_vm) = {1, 2, 3}" by (auto simp: sample_vm_def)
  ultimately show "gc_ready sample_vm"
    by (simp add: gc_ready_def sample_live sample_roots) (simp add: sample_vm_def vm_zero_def)
  show "intern_ok sample_vm"
    by (auto simp: intern_ok_def table_ok_def strings_of_def canonical_def get_string_def sample_vm_def vm_zero_def)
qed

theorem gc_collects_witness:
  "\<exists>vm'. slp_gc_collect (\<lambda>_. 32) sample_vm = Some vm' \<and> vm_objects vm' = [2, 1] \<and> vm_heap vm' 3 = None \<and>
     vm_heap vm' 2 = Some (OLong 7)"
  using gc_collects [OF sample_ready, of "\<lambda>_. 32"] by (auto simp: sample_live) (auto simp: sample_vm_def)

theorem gc_repeats_witness:
  "\<exists>vm' vm''. slp_gc_collect (\<lambda>_. 32) sample_vm = Some vm' \<and> slp_gc_collect (\<lambda>_. 32) vm' = Some vm'' \<and>
     vm_objects vm'' = vm_objects vm'"
proof -
  have "live sample_vm \<subseteq> set (vm_objects sample_vm)" unfolding sample_live by (simp add: sample_vm_def)
  from gc_repeats [OF sample_ready this, of "\<lambda>_. 32"] show ?thesis by blast
qed

theorem gc_accounts_witness:
  "\<exists>vm'. slp_gc_collect (\<lambda>_. 32) sample_vm = Some vm' \<and> vm_bytes_allocated vm' = listed_size (\<lambda>_. 32) vm'"
proof -
  have "vm_bytes_allocated sample_vm = listed_size (\<lambda>_. 32) sample_vm"
    by (simp add: listed_size_def size_at_def slp_gc_object_size_def sample_vm_def)
  from gc_accounts [OF sample_ready this] show ?thesis by blast
qed

text \<open>
  An object that the roots reach but that is not on the object list, as a function read by
  \<open>slp_bytecode_deserialize_function\<close> is not: its mark bit is set by the first collection and never cleared.
\<close>

definition unlisted_vm :: vm where
  "unlisted_vm = sample_vm\<lparr>vm_objects := [2]\<rparr>"

lemma mark_nulls: "mark_values (replicate n VNull) vm = Some vm"
  by (induction n) (simp_all add: slp_gc_mark_value_def)

lemma unlisted_roots: "root_values unlisted_vm = Some (VObj 1 # replicate 265 VNull)"
  using sample_roots by (simp add: root_values_def unlisted_vm_def slp_embed_roots_def)

lemma unlisted_live: "live unlisted_vm = {1, 2}"
  using sample_live unfolding live_def unlisted_roots sample_roots by (simp add: unlisted_vm_def)

lemma unlisted_ready: "gc_ready unlisted_vm" "intern_ok unlisted_vm"
proof -
  show "gc_ready unlisted_vm"
    using sample_ready(1) unfolding gc_ready_def unlisted_live sample_live unlisted_roots sample_roots
    by (simp add: unlisted_vm_def)
  show "intern_ok unlisted_vm"
    by (auto simp: intern_ok_def table_ok_def strings_of_def canonical_def get_string_def unlisted_vm_def sample_vm_def vm_zero_def)
qed

text \<open>An object that is reachable but not on the object list is traced by one collection only: its mark is not
  cleared by the sweep, so the next collection does not look at its pointers and frees what only it reaches,
  although the object, and the pointer in it, are still in use.\<close>

theorem unlisted_object_dangles:
  "\<exists>vm' vm''. slp_gc_collect (\<lambda>_. 32) unlisted_vm = Some vm' \<and> vm_heap vm' = vm_heap unlisted_vm \<and> 1 \<in> vm_marked vm' \<and>
     slp_gc_collect (\<lambda>_. 32) vm' = Some vm'' \<and> 2 \<in> live vm' \<and>
     vm_heap vm'' 1 = Some (OScalarCell \<lparr>sc_value = VObj 2, sc_watch_name = None\<rparr>) \<and> vm_heap vm'' 2 = None"
proof -
  from collect_ok [OF unlisted_ready, of "\<lambda>_. 32"] obtain c t n th where
    1: "slp_gc_collect (\<lambda>_. 32) unlisted_vm = Some (collected_vm (\<lambda>_. 32) unlisted_vm c t n th)"
    "intern_ok ((collected (\<lambda>_. 32) unlisted_vm c)\<lparr>vm_interned := t, vm_interned_count := n\<rparr>)" by blast
  let ?vm = "collected_vm (\<lambda>_. 32) unlisted_vm c t n th"
  have f: "vm_objects ?vm = [2]" "vm_marked ?vm = {1}" "vm_gray_stack ?vm = []" "vm_heap ?vm = vm_heap unlisted_vm"
    "vm_interned ?vm = t"
    by (auto simp: collected_def unlisted_live without_def) (auto simp: unlisted_vm_def)
  have h: "vm_heap unlisted_vm 1 = Some (OScalarCell \<lparr>sc_value = VObj 2, sc_watch_name = None\<rparr>)" "vm_heap unlisted_vm 2 = Some (OLong 7)"
    by (simp_all add: unlisted_vm_def sample_vm_def)
  have "mark_roots ?vm = Some ?vm"
    unfolding mark_roots_def roots_collected [OF unlisted_ready(1)] unlisted_roots
    using f(2,4) h by (simp add: slp_gc_mark_value_def slp_gc_mark_obj_def mark_nulls)
  moreover have "trace_references ?vm = Some ?vm" using f(3) by (subst trace_references.simps) simp
  moreover have "slp_gc_sweep (\<lambda>_. 32) ?vm = Some ((free_object (\<lambda>_. 32) 2 (OLong 7) ?vm)\<lparr>vm_objects := []\<rparr>)" (is "_ = Some ?sw")
    unfolding slp_gc_sweep_def f(1) using f(2,4) h(2) by simp
  moreover have "\<exists>vm2. rebuild_interned ?sw = Some vm2 \<and> vm_heap vm2 = vm_heap ?sw"
    by (cases "vm_interned ?sw") (simp_all add: rebuild_interned_def)
  then obtain vm2 where "rebuild_interned ?sw = Some vm2" "vm_heap vm2 = vm_heap ?sw" by blast
  ultimately have "\<exists>vm''. slp_gc_collect (\<lambda>_. 32) ?vm = Some vm'' \<and> vm_heap vm'' = vm_heap ?sw"
    by (simp add: slp_gc_collect_def Let_def)
  moreover have "vm_heap ?sw = (vm_heap unlisted_vm)(2 := None)" using f(4) by (simp add: free_object_def)
  ultimately show ?thesis using 1(1) f(2,4) h live_collected [OF unlisted_ready(1)] unlisted_live by auto
qed

end
