(* ===== verification/F64_Ops.thy ===== *)
theory F64_Ops
  imports F64
begin

text \<open>
  Arithmetic on doubles (round to nearest, ties to even), \<open>strtod\<close> and \<open>printf\<close> with \<open>%.*g\<close>, computed
  on integers like the rest of the double model. The result of an invalid operation is one quiet NaN;
  C leaves its sign and payload open.
\<close>

subsection \<open>Rounding\<close>

definition f_nan :: f64 where "f_nan = 0x7FF8000000000000"

definition f_with_sign :: "bool \<Rightarrow> nat \<Rightarrow> f64" where
  "f_with_sign neg bits = word_of_nat (bits + (if neg then 2 ^ 63 else 0))"

definition f_inf :: "bool \<Rightarrow> f64" where
  "f_inf neg = f_with_sign neg (2047 * 2 ^ 52)"

text \<open>The double nearest to \<open>p / q\<close>; a scale below \<open>- 1074\<close> does not exist.\<close>

definition log2_ratio :: "nat \<Rightarrow> nat \<Rightarrow> int" where
  "log2_ratio p q =
     (let e = int (nat_bits p) - int (nat_bits q)
      in if q * 2 ^ nat e \<le> p * 2 ^ nat (- e) then e else e - 1)"

definition f_of_ratio :: "bool \<Rightarrow> nat \<Rightarrow> nat \<Rightarrow> f64" where
  "f_of_ratio neg p q =
     (if p = 0 then f_with_sign neg 0
      else let s = max (log2_ratio p q - 52) (- 1074);
               m = round_half_even (p * 2 ^ nat (- s)) (q * 2 ^ nat s);
               bits = nat (s + 1074) * 2 ^ 52 + m
           in if 2047 * 2 ^ 52 \<le> bits then f_inf neg else f_with_sign neg bits)"

text \<open>A finite double as a signed fraction with a power of two as its denominator.\<close>

definition f_numer :: "f64 \<Rightarrow> int" where
  "f_numer d = (let m = int (f_signif d * 2 ^ nat (f_scale d)) in if f_sign d then - m else m)"

definition f_denom :: "f64 \<Rightarrow> nat" where
  "f_denom d = 2 ^ nat (- f_scale d)"

subsection \<open>Arithmetic\<close>

definition f_lt :: "f64 \<Rightarrow> f64 \<Rightarrow> bool" where
  "f_lt a b \<longleftrightarrow> f_le a b \<and> \<not> f_eq a b"

definition f_is_finite :: "f64 \<Rightarrow> bool" where
  "f_is_finite d \<longleftrightarrow> \<not> f_is_nan d \<and> \<not> f_is_inf d"

definition f_neg :: "f64 \<Rightarrow> f64" where
  "f_neg d = xor d (push_bit 63 1)"

definition f_add :: "f64 \<Rightarrow> f64 \<Rightarrow> f64" where
  "f_add a b =
     (if f_is_nan a \<or> f_is_nan b then f_nan
      else if f_is_inf a then (if f_is_inf b \<and> f_sign a \<noteq> f_sign b then f_nan else a)
      else if f_is_inf b then b
      else let n = f_numer a * int (f_denom b) + f_numer b * int (f_denom a)
           in if n = 0 then f_with_sign (f_sign a \<and> f_sign b) 0
              else f_of_ratio (n < 0) (nat \<bar>n\<bar>) (f_denom a * f_denom b))"

definition f_sub :: "f64 \<Rightarrow> f64 \<Rightarrow> f64" where
  "f_sub a b = f_add a (f_neg b)"

definition f_mul :: "f64 \<Rightarrow> f64 \<Rightarrow> f64" where
  "f_mul a b =
     (let neg = (f_sign a \<noteq> f_sign b)
      in if f_is_nan a \<or> f_is_nan b then f_nan
         else if f_is_inf a \<or> f_is_inf b then (if f_is_zero a \<or> f_is_zero b then f_nan else f_inf neg)
         else f_of_ratio neg (nat \<bar>f_numer a * f_numer b\<bar>) (f_denom a * f_denom b))"

definition f_div :: "f64 \<Rightarrow> f64 \<Rightarrow> f64" where
  "f_div a b =
     (let neg = (f_sign a \<noteq> f_sign b)
      in if f_is_nan a \<or> f_is_nan b then f_nan
         else if f_is_inf a then (if f_is_inf b then f_nan else f_inf neg)
         else if f_is_inf b then f_with_sign neg 0
         else if f_is_zero b then (if f_is_zero a then f_nan else f_inf neg)
         else f_of_ratio neg (nat \<bar>f_numer a\<bar> * f_denom b) (nat \<bar>f_numer b\<bar> * f_denom a))"

subsection \<open>\<open>strtod\<close>\<close>

definition char_in :: "char \<Rightarrow> char \<Rightarrow> char \<Rightarrow> bool" where
  "char_in lo hi c \<longleftrightarrow> (of_char lo :: nat) \<le> of_char c \<and> (of_char c :: nat) \<le> of_char hi"

definition c_isdigit :: "char \<Rightarrow> bool" where
  "c_isdigit c \<longleftrightarrow> char_in CHR ''0'' CHR ''9'' c"

definition c_isspace :: "char \<Rightarrow> bool" where
  "c_isspace c \<longleftrightarrow> c = CHR '' '' \<or> char_in CHR 0x09 CHR 0x0D c"

definition c_tolower :: "char \<Rightarrow> char" where
  "c_tolower c = (if char_in CHR ''A'' CHR ''Z'' c then char_of (of_char c + 32 :: nat) else c)"

definition c_isxdigit :: "char \<Rightarrow> bool" where
  "c_isxdigit c \<longleftrightarrow> c_isdigit c \<or> char_in CHR ''a'' CHR ''f'' (c_tolower c)"

definition xdigit_value :: "char \<Rightarrow> nat" where
  "xdigit_value c = (if c_isdigit c then of_char c - 48 else of_char (c_tolower c) - 87)"

definition digits_value :: "nat \<Rightarrow> string \<Rightarrow> nat" where
  "digits_value base s = foldl (\<lambda>n c. n * base + xdigit_value c) 0 s"

text \<open>An optional sign, then the rest.\<close>

definition take_sign :: "string \<Rightarrow> bool \<times> string" where
  "take_sign s =
     (case s of c # r \<Rightarrow> if c = CHR ''-'' then (True, r) else if c = CHR ''+'' then (False, r) else (False, s) | [] \<Rightarrow> (False, s))"

text \<open>An exponent part is taken only when it has a digit.\<close>

definition take_exponent :: "char \<Rightarrow> string \<Rightarrow> int \<times> string" where
  "take_exponent mark s =
     (case s of
        c # r \<Rightarrow>
          (let (neg, r) = take_sign r; ds = takeWhile c_isdigit r; n = int (digits_value 10 ds)
           in if c_tolower c = mark \<and> ds \<noteq> [] then (if neg then - n else n, dropWhile c_isdigit r) else (0, s))
      | [] \<Rightarrow> (0, s))"

text \<open>Digits with an optional point: the digits before it, those behind it, and the rest.\<close>

definition take_digits :: "(char \<Rightarrow> bool) \<Rightarrow> string \<Rightarrow> string \<times> string \<times> string" where
  "take_digits is_digit s =
     (let whole = takeWhile is_digit s; r = dropWhile is_digit s
      in case r of
           c # t \<Rightarrow> if c = CHR ''.'' then (whole, takeWhile is_digit t, dropWhile is_digit t) else (whole, [], r)
         | [] \<Rightarrow> (whole, [], r))"

definition f_scaled :: "bool \<Rightarrow> nat \<Rightarrow> nat \<Rightarrow> int \<Rightarrow> f64" where
  "f_scaled neg m base x = f_of_ratio neg (m * base ^ nat x) (base ^ nat (- x))"

definition strtod_decimal :: "bool \<Rightarrow> string \<Rightarrow> (f64 \<times> string) option" where
  "strtod_decimal neg s =
     (let (whole, frac, r) = take_digits c_isdigit s; (x, r) = take_exponent CHR ''e'' r
      in if whole = [] \<and> frac = [] then None
         else Some (f_scaled neg (digits_value 10 (whole @ frac)) 10 (x - int (length frac)), r))"

definition strtod_hex :: "bool \<Rightarrow> string \<Rightarrow> (f64 \<times> string) option" where
  "strtod_hex neg s =
     (let (whole, frac, r) = take_digits c_isxdigit s; (x, r) = take_exponent CHR ''p'' r
      in if whole = [] \<and> frac = [] then None
         else Some (f_scaled neg (digits_value 16 (whole @ frac)) 2 (x - 4 * int (length frac)), r))"

definition has_prefix :: "string \<Rightarrow> string \<Rightarrow> bool" where
  "has_prefix p s \<longleftrightarrow> map c_tolower (take (length p) s) = p"

definition skip_nan_chars :: "string \<Rightarrow> string" where
  "skip_nan_chars s =
     (case s of
        c # r \<Rightarrow>
          (let t = dropWhile (\<lambda>c. c_isdigit c \<or> char_in CHR ''a'' CHR ''z'' (c_tolower c) \<or> c = CHR ''_'') r
           in if c = CHR ''('' \<and> t \<noteq> [] \<and> hd t = CHR '')'' then tl t else s)
      | [] \<Rightarrow> s)"

text \<open>The value and the unread rest of the C string \<open>s\<close>; without a conversion the value is zero and nothing is read.\<close>

definition strtod :: "string \<Rightarrow> f64 \<times> string" where
  "strtod s =
     (let (neg, r) = take_sign (dropWhile c_isspace s)
      in if has_prefix ''infinity'' r then (f_inf neg, drop 8 r)
         else if has_prefix ''inf'' r then (f_inf neg, drop 3 r)
         else if has_prefix ''nan'' r then (f_nan, skip_nan_chars (drop 3 r))
         else case (if has_prefix ''0x'' r then strtod_hex neg (drop 2 r) else None) of
                Some res \<Rightarrow> res
              | None \<Rightarrow> (case strtod_decimal neg r of Some res \<Rightarrow> res | None \<Rightarrow> (0, s)))"

subsection \<open>\<open>%.*g\<close>\<close>

definition g_digits :: "nat \<Rightarrow> nat \<Rightarrow> nat \<Rightarrow> nat \<times> int" where
  "g_digits precision n d =
     (let x = log10_floor n d; y = int precision - 1 - x;
          q = round_half_even (n * 10 ^ nat y) (d * 10 ^ nat (- y))
      in if q = 10 ^ precision then (10 ^ (precision - 1), x + 1) else (q, x))"

definition g_positive :: "nat \<Rightarrow> nat \<Rightarrow> nat \<Rightarrow> string" where
  "g_positive precision n d =
     (let (q, x) = g_digits precision n d; s = dec_nat q
      in if x < - 4 \<or> int precision \<le> x then with_fraction (take 1 s) (drop 1 s) @ exponent_text x
         else if x < 0 then with_fraction ''0'' (replicate (nat (- x) - 1) CHR ''0'' @ s)
         else with_fraction (take (nat x + 1) s) (drop (nat x + 1) s))"

definition fmt_g :: "nat \<Rightarrow> f64 \<Rightarrow> string" where
  "fmt_g precision d =
     (if f_sign d then ''-'' else '''') @
     (if f_is_nan d then ''nan''
      else if f_is_inf d then ''inf''
      else if f_is_zero d then ''0''
      else g_positive precision (nat \<bar>f_numer d\<bar>) (f_denom d))"

end
