(* ===== verification/Stringify.thy ===== *)
theory Stringify
  imports F64_Ops Interning Arrays
begin

text \<open>
  The text of a value (\<^verbatim>\<open>src/slp_vm.c\<close>, from \<open>dereference_value\<close> to \<open>describe_value\<close>): the number formats
  of the language, the growing string builder, the recursive description of values with its depth limit
  and its references to containers already seen, and the interned result. The number buffers of 64
  characters hold every number text; the builder's reallocation is assumed to succeed.
\<close>

abbreviation SIZE_MAX :: nat where "SIZE_MAX \<equiv> 18446744073709551615"

subsection \<open>Numbers\<close>

definition same_double_bits :: "f64 \<Rightarrow> f64 \<Rightarrow> bool" where
  "same_double_bits left right \<longleftrightarrow> left = right"

definition is_int32_double :: "f64 \<Rightarrow> bool" where
  "is_int32_double d \<longleftrightarrow> f_le (f_of_int INT32_MIN) d \<and> f_le d (f_of_int INT32_MAX) \<and> f_eq d (f_of_int (f_trunc d))"

text \<open>The shortest \<open>%.*g\<close> text that reads back as the same double.\<close>

definition shortest_text :: "f64 \<Rightarrow> string" where
  "shortest_text d =
     (case find (\<lambda>precision. let (parsed, rest) = strtod (fmt_g precision d) in rest = [] \<and> same_double_bits parsed d) [1..<18] of
        Some precision \<Rightarrow> fmt_g precision d
      | None \<Rightarrow> fmt_g 17 d)"

definition exponent_mark :: "string \<Rightarrow> char" where
  "exponent_mark s = (if CHR ''e'' \<in> set s then CHR ''e'' else CHR ''E'')"

text \<open>The significant digits of a \<open>%g\<close> text and the decimal exponent of the first one.\<close>

definition number_parts :: "string \<Rightarrow> string \<times> int" where
  "number_parts cursor =
     (let mark = exponent_mark cursor;
          mantissa = takeWhile (\<lambda>c. c \<noteq> mark) cursor;
          explicit_exponent =
            (case dropWhile (\<lambda>c. c \<noteq> mark) cursor of
               [] \<Rightarrow> 0
             | _ # t \<Rightarrow> (let (neg, ds) = take_sign t; n = int (digits_value 10 (takeWhile c_isdigit ds))
                          in if neg then - n else n));
          digits = filter c_isdigit mantissa;
          decimal_index = length (filter c_isdigit (takeWhile (\<lambda>c. c \<noteq> CHR ''.'') mantissa));
          first_significant = length (takeWhile (\<lambda>c. c = CHR ''0'') (butlast digits))
      in (drop first_significant digits, explicit_exponent + int decimal_index - int first_significant - 1))"

definition layout_number :: "string \<Rightarrow> int \<Rightarrow> string" where
  "layout_number digits x =
     (if - 3 \<le> x \<and> x < 7 then
        if x < 0 then ''0.'' @ replicate (nat (- 1 - x)) CHR ''0'' @ digits
        else let integer_digits = nat (x + 1)
             in map (\<lambda>i. if i < length digits then digits ! i else CHR ''0'') [0..<integer_digits] @
                (if integer_digits < length digits then CHR ''.'' # drop integer_digits digits else [])
      else take 1 digits @ CHR ''.'' # (if length digits = 1 then ''0'' else drop 1 digits) @ CHR ''E'' # dec_int x)"

definition format_sleep_number :: "f64 \<Rightarrow> string" where
  "format_sleep_number d =
     (if f_is_nan d then ''NaN''
      else if f_is_inf d then (if f_sign d then ''-Infinity'' else ''Infinity'')
      else if is_int32_double d then dec_int (f_trunc d)
      else let shortest = shortest_text d;
               negative = (shortest \<noteq> [] \<and> hd shortest = CHR ''-'');
               (digits, x) = number_parts (if negative then tl shortest else shortest)
           in (if negative then ''-'' else '''') @ layout_number digits x)"

definition format_sleep_double :: "f64 \<Rightarrow> string" where
  "format_sleep_double d =
     (if f_is_finite d \<and> is_int32_double d then (if f_sign d then ''-'' else '''') @ dec_nat (nat \<bar>f_trunc d\<bar>) @ ''.0''
      else format_sleep_number d)"

subsection \<open>The string builder\<close>

record string_builder =
  sb_chars :: string
  sb_capacity :: nat
  sb_failed :: bool
  sb_containers :: "addr list"
  sb_warnings :: "string list"

function builder_capacity :: "nat \<Rightarrow> nat \<Rightarrow> nat" where
  "builder_capacity capacity needed =
     (if capacity = 0 \<or> needed \<le> capacity then capacity
      else if SIZE_MAX div 2 < capacity then needed
      else builder_capacity (capacity * 2) needed)"
  by pat_completeness auto
termination by (relation "measure (\<lambda>(capacity, needed). needed - capacity)") auto

declare builder_capacity.simps [simp del]

definition string_builder_append :: "string \<Rightarrow> string_builder \<Rightarrow> string_builder" where
  "string_builder_append chars b =
     (if sb_failed b \<or> chars = [] then b
      else if SIZE_MAX - length (sb_chars b) - 1 < length chars then b\<lparr>sb_failed := True\<rparr>
      else let needed = length (sb_chars b) + length chars + 1;
               capacity = (if sb_capacity b < needed
                           then builder_capacity (if sb_capacity b < 64 then 64 else sb_capacity b) needed
                           else sb_capacity b)
           in b\<lparr>sb_chars := sb_chars b @ chars, sb_capacity := capacity\<rparr>)"

subsection \<open>Values\<close>

definition dereference_value :: "heap \<Rightarrow> slp_value \<Rightarrow> slp_value option" where
  "dereference_value h v = skip_cells h v"

text \<open>A loop over values with a separator before every one but the first.\<close>

fun join_values :: "(slp_value \<Rightarrow> string_builder \<Rightarrow> string_builder option) \<Rightarrow> bool \<Rightarrow> slp_value list \<Rightarrow>
    string_builder \<Rightarrow> string_builder option" where
  "join_values put first [] b = Some b"
| "join_values put first (v # vs) b =
     do { b \<leftarrow> put v (if first then b else string_builder_append '', '' b); join_values put False vs b }"

text \<open>The entries of a hash in the order of the enumeration, without those whose value is null.\<close>

fun visible_entries :: "heap \<Rightarrow> obj_hash \<Rightarrow> int list \<Rightarrow> hash_entry list option" where
  "visible_entries h r [] = Some []"
| "visible_entries h r (ordinal # ordinals) =
     do { i \<leftarrow> slp_obj_hash_ordered_index h r ordinal;
          es \<leftarrow> visible_entries h r ordinals;
          Some (if i < 0 \<or> he_value (ha_entries r ! nat i) = VNull then es else ha_entries r ! nat i # es) }"

fun join_entries :: "(slp_value \<Rightarrow> string_builder \<Rightarrow> string_builder option) \<Rightarrow> string \<Rightarrow>
    (slp_value \<Rightarrow> string_builder \<Rightarrow> string_builder option) \<Rightarrow> bool \<Rightarrow> hash_entry list \<Rightarrow> string_builder \<Rightarrow> string_builder option" where
  "join_entries put_key arrow put_value first [] b = Some b"
| "join_entries put_key arrow put_value first (e # es) b =
     do { b \<leftarrow> put_key (he_key e) (if first then b else string_builder_append '', '' b);
          b \<leftarrow> put_value (he_value e) (string_builder_append arrow b);
          join_entries put_key arrow put_value False es b }"

definition append_string_object :: "heap \<Rightarrow> addr \<Rightarrow> string_builder \<Rightarrow> string_builder option" where
  "append_string_object h a b = map_option (\<lambda>s. string_builder_append (s_chars s) b) (get_string h a)"

text \<open>The position of a container among those seen, with the sign of its kind.\<close>

definition seen_reference :: "char \<Rightarrow> addr \<Rightarrow> string_builder \<Rightarrow> string option" where
  "seen_reference sign a b =
     map_option (\<lambda>i. sign # dec_nat i) (find (\<lambda>i. sb_containers b ! i = a) [0..<length (sb_containers b)])"

text \<open>The first steps for an array or a hash: \<open>Inl\<close> when the reference or the limit is all that is written.\<close>

definition enter_container :: "char \<Rightarrow> addr \<Rightarrow> string_builder \<Rightarrow> string_builder + string_builder" where
  "enter_container sign a b =
     (case seen_reference sign a b of
        Some reference \<Rightarrow> Inl (string_builder_append reference b)
      | None \<Rightarrow>
          if 64 \<le> length (sb_containers b) then Inl (string_builder_append ''...'' b)
          else Inr (string_builder_append [sign, CHR ''(''] (b\<lparr>sb_containers := sb_containers b @ [a]\<rparr>)))"

definition closure_location :: "obj_function option \<Rightarrow> u64 \<Rightarrow> string" where
  "closure_location f identity =
     (case f of
        Some f \<Rightarrow>
          if fn_line_start f < fn_line_end f
          then '':'' @ dec_int (fn_line_start f) @ ''-'' @ dec_int (fn_line_end f) @ '']#'' @ dec_nat (unat identity)
          else '':'' @ dec_int (fn_line_start f) @ '']#'' @ dec_nat (unat identity)
      | None \<Rightarrow> '':0]#'' @ dec_nat (unat identity))"

definition stringify_closure :: "heap \<Rightarrow> obj_closure \<Rightarrow> string_builder \<Rightarrow> string_builder option" where
  "stringify_closure h c b =
     do { f \<leftarrow> (case co_function c of None \<Rightarrow> Some None | Some a \<Rightarrow> map_option Some (get_function h a));
          b \<leftarrow> (let b = string_builder_append ''&closure['' b
                in case Option.bind f fn_source_name of
                     Some s \<Rightarrow> append_string_object h s b
                   | None \<Rightarrow> Some (string_builder_append ''<unknown>'' b));
          Some (string_builder_append (closure_location f (co_identity c)) b) }"

definition unsafe_sublist_warning :: string where
  "unsafe_sublist_warning = ''unsafe data modification: parent @array changed after &sublist creation''"

text \<open>
  The levels that are left before the depth limit are the first argument: the code starts at depth 0 and
  writes \<open>...\<close> at a depth above 32, so 33 levels are left at the start and none at the limit.
\<close>

fun stringify_value :: "nat \<Rightarrow> heap \<Rightarrow> bool \<Rightarrow> slp_value \<Rightarrow> string_builder \<Rightarrow> string_builder option" where
  "stringify_value 0 h quote v b =
     do { v \<leftarrow> dereference_value h v; Some (string_builder_append ''...'' b) }"
| "stringify_value (Suc levels) h quote v b =
     do { v \<leftarrow> dereference_value h v;
          (case v of
             VNull \<Rightarrow> Some b
           | VBool x \<Rightarrow> Some (string_builder_append (if x then ''true'' else ''false'') b)
           | VNum d \<Rightarrow> Some (string_builder_append (format_sleep_number d) b)
           | VObj a \<Rightarrow>
               (case h a of
                  None \<Rightarrow> None
                | Some ob \<Rightarrow>
                    (case ob of
                       OString s \<Rightarrow>
                         Some (let b = (if quote then string_builder_append [CHR 0x27] b else b);
                                   b = string_builder_append (s_chars s) b
                               in if quote then string_builder_append [CHR 0x27] b else b)
                     | OClass c \<Rightarrow>
                         (let b = string_builder_append (if cl_is_interface c then ''interface '' else ''class '') b
                          in case cl_name c of None \<Rightarrow> Some b | Some s \<Rightarrow> append_string_object h s b)
                     | OJava j \<Rightarrow>
                         (let name = Option.bind (jo_class j) (\<lambda>c. case h c of Some (OClass c) \<Rightarrow> cl_name c | _ \<Rightarrow> None);
                              dangling = (case jo_class j of None \<Rightarrow> False
                                          | Some c \<Rightarrow> (case h c of Some (OClass _) \<Rightarrow> False | _ \<Rightarrow> True))
                          in if jo_kind j = JAVA_LIST \<and> jo_list j \<noteq> None then
                               do { arr \<leftarrow> get_array h (the (jo_list j));
                                    b \<leftarrow> join_values (stringify_value levels h False) True (take (nat (ar_count arr)) (ar_elements arr))
                                           (string_builder_append ''['' b);
                                    Some (string_builder_append '']'' b) }
                             else if jo_kind j = JAVA_MAP \<and> jo_map j \<noteq> None then
                               do { r \<leftarrow> get_hash h (the (jo_map j));
                                    es \<leftarrow> visible_entries h r [0..ha_count r - 1];
                                    b \<leftarrow> join_entries (stringify_value levels h False) ''='' (stringify_value levels h False) True es
                                           (string_builder_append ''{'' b);
                                    Some (string_builder_append ''}'' b) }
                             else if dangling then None
                             else (case name of
                                     None \<Rightarrow> Some (string_builder_append ''[object]'' b)
                                   | Some s \<Rightarrow>
                                       do { n \<leftarrow> get_string h s;
                                            if jo_value j \<noteq> VNull \<and> take 1 (s_chars n) \<noteq> ''['' then
                                              stringify_value levels h False (jo_value j) b
                                            else append_string_object h s b }))
                     | OLong w \<Rightarrow>
                         Some (let b = string_builder_append (dec_int (sint w)) b
                               in if quote then string_builder_append ''L'' b else b)
                     | ODouble d \<Rightarrow> Some (string_builder_append (format_sleep_double d) b)
                     | OArray arr \<Rightarrow>
                         do { valid \<leftarrow> slp_obj_array_view_is_valid h (Some a);
                              if \<not> valid then
                                Some (b\<lparr>sb_failed := True, sb_warnings := sb_warnings b @ [unsafe_sublist_warning]\<rparr>)
                              else (case enter_container CHR ''@'' a b of
                                      Inl b \<Rightarrow> Some b
                                    | Inr b \<Rightarrow>
                                        do { b \<leftarrow> join_values (stringify_value levels h True) True
                                               (take (nat (ar_count arr)) (ar_elements arr)) b;
                                             Some (string_builder_append '')'' b) }) }
                     | OHash r \<Rightarrow>
                         (case enter_container CHR ''%'' a b of
                            Inl b \<Rightarrow> Some b
                          | Inr b \<Rightarrow>
                              do { es \<leftarrow> visible_entries h r [0..ha_count r - 1];
                                   b \<leftarrow> join_entries (stringify_value levels h False) '' => '' (stringify_value levels h True) True es b;
                                   Some (string_builder_append '')'' b) })
                     | OClosure c \<Rightarrow> stringify_closure h c b
                     | OFunction _ \<Rightarrow> Some (string_builder_append ''&function'' b)
                     | ONative n \<Rightarrow>
                         (let b = string_builder_append ''&'' b
                          in case na_name n of None \<Rightarrow> Some b | Some s \<Rightarrow> append_string_object h s b)
                     | OContinuation c \<Rightarrow>
                         (case cn_coroutine_owner c of
                            Some owner \<Rightarrow> stringify_value levels h quote (VObj owner) b
                          | None \<Rightarrow> Some (string_builder_append ''&continuation'' b))
                     | OKeyValue k \<Rightarrow>
                         do { b \<leftarrow> stringify_value levels h False (kv_key k) b;
                              stringify_value levels h True (kv_value k) (string_builder_append '' => '' b) }
                     | OTainted w \<Rightarrow> stringify_value levels h quote w b
                     | OScalarCell c \<Rightarrow> stringify_value levels h quote (sc_value c) b
                     | _ \<Rightarrow> Some (string_builder_append ''[object]'' b)))) }"

definition empty_builder :: string_builder where
  "empty_builder = \<lparr>sb_chars = [], sb_capacity = 0, sb_failed = False, sb_containers = [], sb_warnings = []\<rparr>"

text \<open>The warnings of an aborted text: each is written by \<open>slp_vm_abort_warning\<close>, which also stops the script.\<close>

definition slp_vm_abort_warnings :: "string list \<Rightarrow> vm \<Rightarrow> vm" where
  "slp_vm_abort_warnings ws vm =
     (if ws = [] then vm else vm\<lparr>vm_warnings := vm_warnings vm @ ws, vm_abort_requested := True\<rparr>)"

definition stringify_quoted :: "bool \<Rightarrow> struct_sizes \<Rightarrow> bool \<Rightarrow> ptr \<Rightarrow> slp_value \<Rightarrow> vm \<Rightarrow> (ptr \<times> vm) option" where
  "stringify_quoted quote sizes table_allocated p v vm =
     do { b \<leftarrow> stringify_value 33 (vm_heap vm) quote v empty_builder;
          let vm = slp_vm_abort_warnings (sb_warnings b) vm;
          if sb_failed b then Some (None, vm) else slp_vm_copy_string sizes table_allocated p (sb_chars b) vm }"

definition slp_vm_stringify :: "struct_sizes \<Rightarrow> bool \<Rightarrow> ptr \<Rightarrow> slp_value \<Rightarrow> vm \<Rightarrow> (ptr \<times> vm) option" where
  "slp_vm_stringify sizes table_allocated p v vm =
     (case v of
        VObj a \<Rightarrow> (case vm_heap vm a of
                     None \<Rightarrow> None
                   | Some ob \<Rightarrow> (case ob of OString _ \<Rightarrow> Some (Some a, vm) | _ \<Rightarrow> stringify_quoted False sizes table_allocated p v vm))
      | _ \<Rightarrow> stringify_quoted False sizes table_allocated p v vm)"

definition describe_value :: "struct_sizes \<Rightarrow> bool \<Rightarrow> ptr \<Rightarrow> slp_value \<Rightarrow> vm \<Rightarrow> (ptr \<times> vm) option" where
  "describe_value sizes table_allocated p v vm = stringify_quoted True sizes table_allocated p v vm"

end
