(* ===== verification/Opcodes.thy ===== *)
theory Opcodes
  imports Prelude
begin

text \<open>
  The instructions of the virtual machine (\<^verbatim>\<open>include/slp_opcodes.h\<close>): the constants of the C enum, which
  are the instruction bytes, and the list of them in the order of the enum.
\<close>

abbreviation OP_PUSH_NULL :: byte where "OP_PUSH_NULL \<equiv> 0"
abbreviation OP_PUSH_TRUE :: byte where "OP_PUSH_TRUE \<equiv> 1"
abbreviation OP_PUSH_FALSE :: byte where "OP_PUSH_FALSE \<equiv> 2"
abbreviation OP_PUSH_CONST :: byte where "OP_PUSH_CONST \<equiv> 3"
abbreviation OP_LOAD_LOCAL_0 :: byte where "OP_LOAD_LOCAL_0 \<equiv> 4"
abbreviation OP_LOAD_LOCAL_1 :: byte where "OP_LOAD_LOCAL_1 \<equiv> 5"
abbreviation OP_LOAD_LOCAL_2 :: byte where "OP_LOAD_LOCAL_2 \<equiv> 6"
abbreviation OP_LOAD_LOCAL_3 :: byte where "OP_LOAD_LOCAL_3 \<equiv> 7"
abbreviation OP_LOAD_LOCAL_4 :: byte where "OP_LOAD_LOCAL_4 \<equiv> 8"
abbreviation OP_LOAD_LOCAL_5 :: byte where "OP_LOAD_LOCAL_5 \<equiv> 9"
abbreviation OP_LOAD_LOCAL_6 :: byte where "OP_LOAD_LOCAL_6 \<equiv> 10"
abbreviation OP_LOAD_LOCAL_7 :: byte where "OP_LOAD_LOCAL_7 \<equiv> 11"
abbreviation OP_STORE_LOCAL_0 :: byte where "OP_STORE_LOCAL_0 \<equiv> 12"
abbreviation OP_STORE_LOCAL_1 :: byte where "OP_STORE_LOCAL_1 \<equiv> 13"
abbreviation OP_STORE_LOCAL_2 :: byte where "OP_STORE_LOCAL_2 \<equiv> 14"
abbreviation OP_STORE_LOCAL_3 :: byte where "OP_STORE_LOCAL_3 \<equiv> 15"
abbreviation OP_STORE_LOCAL_4 :: byte where "OP_STORE_LOCAL_4 \<equiv> 16"
abbreviation OP_STORE_LOCAL_5 :: byte where "OP_STORE_LOCAL_5 \<equiv> 17"
abbreviation OP_STORE_LOCAL_6 :: byte where "OP_STORE_LOCAL_6 \<equiv> 18"
abbreviation OP_STORE_LOCAL_7 :: byte where "OP_STORE_LOCAL_7 \<equiv> 19"
abbreviation OP_LOAD_LOCAL :: byte where "OP_LOAD_LOCAL \<equiv> 20"
abbreviation OP_STORE_LOCAL :: byte where "OP_STORE_LOCAL \<equiv> 21"
abbreviation OP_LOAD_GLOBAL :: byte where "OP_LOAD_GLOBAL \<equiv> 22"
abbreviation OP_STORE_GLOBAL :: byte where "OP_STORE_GLOBAL \<equiv> 23"
abbreviation OP_STORE_CATCH :: byte where "OP_STORE_CATCH \<equiv> 24"
abbreviation OP_LOAD_UPVALUE :: byte where "OP_LOAD_UPVALUE \<equiv> 25"
abbreviation OP_STORE_UPVALUE :: byte where "OP_STORE_UPVALUE \<equiv> 26"
abbreviation OP_REFERENCE_LOCAL :: byte where "OP_REFERENCE_LOCAL \<equiv> 27"
abbreviation OP_REFERENCE_GLOBAL :: byte where "OP_REFERENCE_GLOBAL \<equiv> 28"
abbreviation OP_REFERENCE_UPVALUE :: byte where "OP_REFERENCE_UPVALUE \<equiv> 29"
abbreviation OP_ADD :: byte where "OP_ADD \<equiv> 30"
abbreviation OP_SUBTRACT :: byte where "OP_SUBTRACT \<equiv> 31"
abbreviation OP_MULTIPLY :: byte where "OP_MULTIPLY \<equiv> 32"
abbreviation OP_DIVIDE :: byte where "OP_DIVIDE \<equiv> 33"
abbreviation OP_MODULO :: byte where "OP_MODULO \<equiv> 34"
abbreviation OP_POWER :: byte where "OP_POWER \<equiv> 35"
abbreviation OP_NEGATE :: byte where "OP_NEGATE \<equiv> 36"
abbreviation OP_CONCAT :: byte where "OP_CONCAT \<equiv> 37"
abbreviation OP_ALIGN :: byte where "OP_ALIGN \<equiv> 38"
abbreviation OP_REPEAT :: byte where "OP_REPEAT \<equiv> 39"
abbreviation OP_EQUAL :: byte where "OP_EQUAL \<equiv> 40"
abbreviation OP_NOT_EQUAL :: byte where "OP_NOT_EQUAL \<equiv> 41"
abbreviation OP_LESS :: byte where "OP_LESS \<equiv> 42"
abbreviation OP_GREATER :: byte where "OP_GREATER \<equiv> 43"
abbreviation OP_LESS_EQUAL :: byte where "OP_LESS_EQUAL \<equiv> 44"
abbreviation OP_GREATER_EQUAL :: byte where "OP_GREATER_EQUAL \<equiv> 45"
abbreviation OP_SPACESHIP :: byte where "OP_SPACESHIP \<equiv> 46"
abbreviation OP_MATCH :: byte where "OP_MATCH \<equiv> 47"
abbreviation OP_NOT_MATCH :: byte where "OP_NOT_MATCH \<equiv> 48"
abbreviation OP_NOT :: byte where "OP_NOT \<equiv> 49"
abbreviation OP_AND :: byte where "OP_AND \<equiv> 50"
abbreviation OP_OR :: byte where "OP_OR \<equiv> 51"
abbreviation OP_BIT_AND :: byte where "OP_BIT_AND \<equiv> 52"
abbreviation OP_BIT_OR :: byte where "OP_BIT_OR \<equiv> 53"
abbreviation OP_BIT_XOR :: byte where "OP_BIT_XOR \<equiv> 54"
abbreviation OP_BIT_NOT :: byte where "OP_BIT_NOT \<equiv> 55"
abbreviation OP_LSHIFT :: byte where "OP_LSHIFT \<equiv> 56"
abbreviation OP_RSHIFT :: byte where "OP_RSHIFT \<equiv> 57"
abbreviation OP_INCREMENT :: byte where "OP_INCREMENT \<equiv> 58"
abbreviation OP_DECREMENT :: byte where "OP_DECREMENT \<equiv> 59"
abbreviation OP_UNARY_PREDICATE :: byte where "OP_UNARY_PREDICATE \<equiv> 60"
abbreviation OP_BINARY_PREDICATE :: byte where "OP_BINARY_PREDICATE \<equiv> 61"
abbreviation OP_NEGATED_BINARY_PREDICATE :: byte where "OP_NEGATED_BINARY_PREDICATE \<equiv> 62"
abbreviation OP_POP :: byte where "OP_POP \<equiv> 63"
abbreviation OP_DUP :: byte where "OP_DUP \<equiv> 64"
abbreviation OP_DUP2 :: byte where "OP_DUP2 \<equiv> 65"
abbreviation OP_SWAP :: byte where "OP_SWAP \<equiv> 66"
abbreviation OP_REVERSE :: byte where "OP_REVERSE \<equiv> 67"
abbreviation OP_JUMP :: byte where "OP_JUMP \<equiv> 68"
abbreviation OP_JUMP_IF_FALSE :: byte where "OP_JUMP_IF_FALSE \<equiv> 69"
abbreviation OP_JUMP_IF_TRUE :: byte where "OP_JUMP_IF_TRUE \<equiv> 70"
abbreviation OP_JUMP_IF_NULL :: byte where "OP_JUMP_IF_NULL \<equiv> 71"
abbreviation OP_LOOP :: byte where "OP_LOOP \<equiv> 72"
abbreviation OP_CALL :: byte where "OP_CALL \<equiv> 73"
abbreviation OP_CALL_NAMED :: byte where "OP_CALL_NAMED \<equiv> 74"
abbreviation OP_RETURN :: byte where "OP_RETURN \<equiv> 75"
abbreviation OP_INLINE_RETURN :: byte where "OP_INLINE_RETURN \<equiv> 76"
abbreviation OP_CLOSURE :: byte where "OP_CLOSURE \<equiv> 77"
abbreviation OP_CLOSE_UPVALUE :: byte where "OP_CLOSE_UPVALUE \<equiv> 78"
abbreviation OP_FOREACH_NEXT :: byte where "OP_FOREACH_NEXT \<equiv> 79"
abbreviation OP_FOREACH_NEXT_VALUE :: byte where "OP_FOREACH_NEXT_VALUE \<equiv> 80"
abbreviation OP_BUILD_ARRAY :: byte where "OP_BUILD_ARRAY \<equiv> 81"
abbreviation OP_BUILD_HASH :: byte where "OP_BUILD_HASH \<equiv> 82"
abbreviation OP_BUILD_KEY_VALUE :: byte where "OP_BUILD_KEY_VALUE \<equiv> 83"
abbreviation OP_INDEX_GET :: byte where "OP_INDEX_GET \<equiv> 84"
abbreviation OP_INDEX_ENSURE :: byte where "OP_INDEX_ENSURE \<equiv> 85"
abbreviation OP_INDEX_SET :: byte where "OP_INDEX_SET \<equiv> 86"
abbreviation OP_TUPLE_GET :: byte where "OP_TUPLE_GET \<equiv> 87"
abbreviation OP_TUPLE_COMPOUND :: byte where "OP_TUPLE_COMPOUND \<equiv> 88"
abbreviation OP_OBJ_EXPR :: byte where "OP_OBJ_EXPR \<equiv> 89"
abbreviation OP_PUSH_HANDLER :: byte where "OP_PUSH_HANDLER \<equiv> 90"
abbreviation OP_POP_HANDLER :: byte where "OP_POP_HANDLER \<equiv> 91"
abbreviation OP_THROW :: byte where "OP_THROW \<equiv> 92"
abbreviation OP_ASSERT :: byte where "OP_ASSERT \<equiv> 93"
abbreviation OP_HALT :: byte where "OP_HALT \<equiv> 94"
abbreviation OP_DONE :: byte where "OP_DONE \<equiv> 95"
abbreviation OP_YIELD :: byte where "OP_YIELD \<equiv> 96"
abbreviation OP_CALLCC :: byte where "OP_CALLCC \<equiv> 97"
abbreviation OP_RESUME :: byte where "OP_RESUME \<equiv> 98"
abbreviation OP_BRIDGE_REGISTER :: byte where "OP_BRIDGE_REGISTER \<equiv> 99"
abbreviation OP_IMPORT :: byte where "OP_IMPORT \<equiv> 100"
abbreviation OP_BACKTICK :: byte where "OP_BACKTICK \<equiv> 101"
abbreviation OP_CLASS_LITERAL :: byte where "OP_CLASS_LITERAL \<equiv> 102"
abbreviation OP_ADDRESS :: byte where "OP_ADDRESS \<equiv> 103"
abbreviation OP_LOCAL :: byte where "OP_LOCAL \<equiv> 104"
abbreviation OP_THIS :: byte where "OP_THIS \<equiv> 105"
abbreviation OP_UNPACK_TUPLE :: byte where "OP_UNPACK_TUPLE \<equiv> 106"
abbreviation OP_BREAK :: byte where "OP_BREAK \<equiv> 107"
abbreviation OP_CONTINUE :: byte where "OP_CONTINUE \<equiv> 108"
abbreviation OP_NOP :: byte where "OP_NOP \<equiv> 109"
abbreviation OP_END :: byte where "OP_END \<equiv> 110"

definition all_opcodes :: "byte list" where
  "all_opcodes =
    [OP_PUSH_NULL, OP_PUSH_TRUE, OP_PUSH_FALSE, OP_PUSH_CONST, OP_LOAD_LOCAL_0, OP_LOAD_LOCAL_1,
     OP_LOAD_LOCAL_2, OP_LOAD_LOCAL_3, OP_LOAD_LOCAL_4, OP_LOAD_LOCAL_5, OP_LOAD_LOCAL_6, OP_LOAD_LOCAL_7,
     OP_STORE_LOCAL_0, OP_STORE_LOCAL_1, OP_STORE_LOCAL_2, OP_STORE_LOCAL_3, OP_STORE_LOCAL_4,
     OP_STORE_LOCAL_5, OP_STORE_LOCAL_6, OP_STORE_LOCAL_7, OP_LOAD_LOCAL, OP_STORE_LOCAL, OP_LOAD_GLOBAL,
     OP_STORE_GLOBAL, OP_STORE_CATCH, OP_LOAD_UPVALUE, OP_STORE_UPVALUE, OP_REFERENCE_LOCAL,
     OP_REFERENCE_GLOBAL, OP_REFERENCE_UPVALUE, OP_ADD, OP_SUBTRACT, OP_MULTIPLY, OP_DIVIDE, OP_MODULO,
     OP_POWER, OP_NEGATE, OP_CONCAT, OP_ALIGN, OP_REPEAT, OP_EQUAL, OP_NOT_EQUAL, OP_LESS, OP_GREATER,
     OP_LESS_EQUAL, OP_GREATER_EQUAL, OP_SPACESHIP, OP_MATCH, OP_NOT_MATCH, OP_NOT, OP_AND, OP_OR, OP_BIT_AND,
     OP_BIT_OR, OP_BIT_XOR, OP_BIT_NOT, OP_LSHIFT, OP_RSHIFT, OP_INCREMENT, OP_DECREMENT, OP_UNARY_PREDICATE,
     OP_BINARY_PREDICATE, OP_NEGATED_BINARY_PREDICATE, OP_POP, OP_DUP, OP_DUP2, OP_SWAP, OP_REVERSE, OP_JUMP,
     OP_JUMP_IF_FALSE, OP_JUMP_IF_TRUE, OP_JUMP_IF_NULL, OP_LOOP, OP_CALL, OP_CALL_NAMED, OP_RETURN,
     OP_INLINE_RETURN, OP_CLOSURE, OP_CLOSE_UPVALUE, OP_FOREACH_NEXT, OP_FOREACH_NEXT_VALUE, OP_BUILD_ARRAY,
     OP_BUILD_HASH, OP_BUILD_KEY_VALUE, OP_INDEX_GET, OP_INDEX_ENSURE, OP_INDEX_SET, OP_TUPLE_GET,
     OP_TUPLE_COMPOUND, OP_OBJ_EXPR, OP_PUSH_HANDLER, OP_POP_HANDLER, OP_THROW, OP_ASSERT, OP_HALT, OP_DONE,
     OP_YIELD, OP_CALLCC, OP_RESUME, OP_BRIDGE_REGISTER, OP_IMPORT, OP_BACKTICK, OP_CLASS_LITERAL, OP_ADDRESS,
     OP_LOCAL, OP_THIS, OP_UNPACK_TUPLE, OP_BREAK, OP_CONTINUE, OP_NOP, OP_END]"

lemma length_all_opcodes: "length all_opcodes = 111"
  by (simp add: all_opcodes_def)

text \<open>The listed values are the positions, so the constants are distinct bytes.\<close>

lemma all_opcodes_bytes: "map unat all_opcodes = [0..<111]"
  by (simp add: all_opcodes_def upt_rec)

lemma distinct_all_opcodes: "distinct all_opcodes"
  using all_opcodes_bytes distinct_map [of unat all_opcodes] by simp

end
