(* ===== verification/VM_Objects.thy ===== *)
theory VM_Objects
  imports Stringify Arrays Opcodes
begin

text \<open>
  The objects of the machine (\<^verbatim>\<open>src/slp_vm.c\<close>): the value stack, the constructors that link a new object
  into the collector's list, the canonical class objects, error objects, taint, closures and the hash
  accesses of scripts with their miss and removal policies. An allocator gives the address of the next
  object, or none when memory is exhausted; plain buffers are assumed to be allocated. \<open>call\<close> stands for
  \<open>slp_vm_call\<close>, the interpreter loop: it takes the number of arguments on the stack.
\<close>

type_synonym heap_allocator = "heap \<Rightarrow> ptr"
type_synonym vm_call = "nat \<Rightarrow> vm \<Rightarrow> (bool \<times> vm) option"

abbreviation SLP_STACK_MAX :: nat where "SLP_STACK_MAX \<equiv> 4096"

subsection \<open>The value stack\<close>

definition slp_vm_runtime_error :: "string \<Rightarrow> vm \<Rightarrow> vm" where
  "slp_vm_runtime_error msg vm = vm\<lparr>vm_errors := vm_errors vm @ [msg]\<rparr>"

definition slp_vm_push :: "slp_value \<Rightarrow> vm \<Rightarrow> vm" where
  "slp_vm_push v vm =
     (if SLP_STACK_MAX \<le> length (vm_stack vm)
      then (slp_vm_runtime_error ''Stack overflow.'' vm)\<lparr>vm_abort_requested := True\<rparr>
      else vm\<lparr>vm_stack := vm_stack vm @ [v]\<rparr>)"

definition slp_vm_pop :: "vm \<Rightarrow> slp_value \<times> vm" where
  "slp_vm_pop vm =
     (if vm_stack vm = [] then (VNull, (slp_vm_runtime_error ''Stack underflow.'' vm)\<lparr>vm_abort_requested := True\<rparr>)
      else (last (vm_stack vm), vm\<lparr>vm_stack := butlast (vm_stack vm)\<rparr>))"

definition slp_vm_peek :: "nat \<Rightarrow> vm \<Rightarrow> slp_value option" where
  "slp_vm_peek distance vm =
     (if distance < length (vm_stack vm) then Some (vm_stack vm ! (length (vm_stack vm) - 1 - distance)) else None)"

subsection \<open>Constructors\<close>

definition new_tracked :: "struct_sizes \<Rightarrow> (heap \<Rightarrow> ptr \<times> heap) \<Rightarrow> vm \<Rightarrow> (ptr \<times> vm) option" where
  "new_tracked sizes build vm =
     (case build (vm_heap vm) of
        (None, h) \<Rightarrow> Some (None, vm\<lparr>vm_heap := h\<rparr>)
      | (Some a, h) \<Rightarrow> do { vm \<leftarrow> track_object sizes a (vm\<lparr>vm_heap := h\<rparr>); Some (Some a, vm) })"

definition slp_vm_new_long :: "struct_sizes \<Rightarrow> heap_allocator \<Rightarrow> u64 \<Rightarrow> vm \<Rightarrow> (ptr \<times> vm) option" where
  "slp_vm_new_long sizes alloc w vm = new_tracked sizes (slp_obj_long_new (alloc (vm_heap vm)) w) vm"

definition slp_vm_new_double :: "struct_sizes \<Rightarrow> heap_allocator \<Rightarrow> f64 \<Rightarrow> vm \<Rightarrow> (ptr \<times> vm) option" where
  "slp_vm_new_double sizes alloc d vm = new_tracked sizes (slp_obj_double_new (alloc (vm_heap vm)) d) vm"

definition slp_vm_new_array :: "struct_sizes \<Rightarrow> heap_allocator \<Rightarrow> vm \<Rightarrow> (ptr \<times> vm) option" where
  "slp_vm_new_array sizes alloc vm = new_tracked sizes (slp_obj_array_new (alloc (vm_heap vm))) vm"

definition slp_vm_new_hash :: "struct_sizes \<Rightarrow> heap_allocator \<Rightarrow> vm \<Rightarrow> (ptr \<times> vm) option" where
  "slp_vm_new_hash sizes alloc vm = new_tracked sizes (slp_obj_hash_new (alloc (vm_heap vm))) vm"

text \<open>A C string ends at its first NUL.\<close>

definition c_text :: "string \<Rightarrow> string" where
  "c_text s = takeWhile (\<lambda>c. c \<noteq> NUL) s"

definition slp_vm_copy_cstr :: "struct_sizes \<Rightarrow> heap_allocator \<Rightarrow> string \<Rightarrow> vm \<Rightarrow> (ptr \<times> vm) option" where
  "slp_vm_copy_cstr sizes alloc cstr vm = slp_vm_intern_string sizes True (alloc (vm_heap vm)) (c_text cstr) vm"

definition new_index_collection :: "struct_sizes \<Rightarrow> heap_allocator \<Rightarrow> byte \<Rightarrow> obj_type \<Rightarrow> vm \<Rightarrow> (slp_value \<times> vm) option" where
  "new_index_collection sizes alloc kind parent_type vm =
     do { (p, vm) \<leftarrow> (if kind = 1 \<or> (kind = 0 \<and> parent_type = T_ARRAY) then slp_vm_new_array sizes alloc vm
                      else slp_vm_new_hash sizes alloc vm);
          Some (ptr_value p, vm) }"

subsection \<open>Classes\<close>

record known_class =
  kc_short_name :: string
  kc_qualified_name :: string
  kc_is_interface :: bool

definition known :: "string \<Rightarrow> string \<Rightarrow> bool \<Rightarrow> known_class" where
  "known short_name qualified_name is_interface =
     \<lparr>kc_short_name = short_name, kc_qualified_name = qualified_name, kc_is_interface = is_interface\<rparr>"

definition known_classes :: "known_class list" where
  "known_classes =
     [known ''Boolean'' ''java.lang.Boolean'' False,
      known ''Byte'' ''java.lang.Byte'' False,
      known ''Character'' ''java.lang.Character'' False,
      known ''CharSequence'' ''java.lang.CharSequence'' True,
      known ''Class'' ''java.lang.Class'' False,
      known ''Double'' ''java.lang.Double'' False,
      known ''Float'' ''java.lang.Float'' False,
      known ''Integer'' ''java.lang.Integer'' False,
      known ''Long'' ''java.lang.Long'' False,
      known ''Math'' ''java.lang.Math'' False,
      known ''Number'' ''java.lang.Number'' False,
      known ''Object'' ''java.lang.Object'' False,
      known ''Runnable'' ''java.lang.Runnable'' True,
      known ''Short'' ''java.lang.Short'' False,
      known ''String'' ''java.lang.String'' False,
      known ''System'' ''java.lang.System'' False,
      known ''Thread'' ''java.lang.Thread'' False,
      known ''Array'' ''java.lang.reflect.Array'' False,
      known ''Arrays'' ''java.util.Arrays'' False,
      known ''Collection'' ''java.util.Collection'' True,
      known ''Collections'' ''java.util.Collections'' False,
      known ''Comparable'' ''java.lang.Comparable'' True,
      known ''Comparator'' ''java.util.Comparator'' True,
      known ''Deque'' ''java.util.Deque'' True,
      known ''HashMap'' ''java.util.HashMap'' False,
      known ''HashSet'' ''java.util.HashSet'' False,
      known ''Iterator'' ''java.util.Iterator'' True,
      known ''Iterable'' ''java.lang.Iterable'' True,
      known ''ArrayList'' ''java.util.ArrayList'' False,
      known ''LinkedHashMap'' ''java.util.LinkedHashMap'' False,
      known ''LinkedList'' ''java.util.LinkedList'' False,
      known ''List'' ''java.util.List'' True,
      known ''Map'' ''java.util.Map'' True,
      known ''Queue'' ''java.util.Queue'' True,
      known ''Set'' ''java.util.Set'' True,
      known ''Stack'' ''java.util.Stack'' False,
      known ''Vector'' ''java.util.Vector'' False,
      known ''Scalar'' ''sleep.runtime.Scalar'' False,
      known ''ScalarArray'' ''sleep.runtime.ScalarArray'' True,
      known ''ScalarHash'' ''sleep.runtime.ScalarHash'' True,
      known ''SleepUtils'' ''sleep.runtime.SleepUtils'' False]"

definition find_known_class :: "string \<Rightarrow> known_class option" where
  "find_known_class name = find (\<lambda>k. name = kc_short_name k \<or> name = kc_qualified_name k) known_classes"

text \<open>The scan of the object list for a class of that name.\<close>

fun find_class :: "heap \<Rightarrow> addr list \<Rightarrow> string \<Rightarrow> ptr option" where
  "find_class h [] resolved = Some None"
| "find_class h (a # objects) resolved =
     do { ob \<leftarrow> h a;
          (case ob of
             OClass c \<Rightarrow>
               (case cl_name c of
                  None \<Rightarrow> find_class h objects resolved
                | Some s \<Rightarrow> do { n \<leftarrow> get_string h s;
                                 if c_text (s_chars n) = resolved then Some (Some a) else find_class h objects resolved })
           | _ \<Rightarrow> find_class h objects resolved) }"

definition slp_vm_new_class :: "struct_sizes \<Rightarrow> heap_allocator \<Rightarrow> string \<Rightarrow> vm \<Rightarrow> (ptr \<times> vm) option" where
  "slp_vm_new_class sizes alloc name vm =
     (let (resolved, is_interface) =
            (case find_known_class (c_text name) of
               Some k \<Rightarrow> (kc_qualified_name k, kc_is_interface k)
             | None \<Rightarrow> (c_text name, False))
      in do { existing \<leftarrow> find_class (vm_heap vm) (vm_objects vm) resolved;
              (case existing of
                 Some a \<Rightarrow> Some (Some a, vm)
               | None \<Rightarrow>
                   do { (class_name, vm) \<leftarrow> slp_vm_copy_cstr sizes alloc resolved vm;
                        if class_name = None then Some (None, vm)
                        else new_tracked sizes (slp_obj_class_new (alloc (vm_heap vm)) class_name is_interface) vm }) })"

subsection \<open>Java objects, the console and errors\<close>

definition get_java :: "heap \<Rightarrow> addr \<Rightarrow> obj_java option" where
  "get_java h a = (case h a of Some (OJava j) \<Rightarrow> Some j | _ \<Rightarrow> None)"

definition update_java :: "addr \<Rightarrow> (obj_java \<Rightarrow> obj_java) \<Rightarrow> vm \<Rightarrow> vm option" where
  "update_java a f vm = do { j \<leftarrow> get_java (vm_heap vm) a; Some (vm\<lparr>vm_heap := (vm_heap vm)(a \<mapsto> OJava (f j))\<rparr>) }"

definition slp_vm_new_java_object :: "struct_sizes \<Rightarrow> heap_allocator \<Rightarrow> string \<Rightarrow> java_kind \<Rightarrow> vm \<Rightarrow> (ptr \<times> vm) option" where
  "slp_vm_new_java_object sizes alloc class_name kind vm =
     do { (class_object, vm) \<leftarrow> slp_vm_new_class sizes alloc class_name vm;
          if class_object = None then Some (None, vm)
          else do { (object, vm) \<leftarrow> new_tracked sizes (slp_obj_java_object_new (alloc (vm_heap vm)) class_object kind) vm;
                    (case object of
                       None \<Rightarrow> Some (None, vm)
                     | Some a \<Rightarrow>
                         if kind = JAVA_LIST \<or> kind = JAVA_ERROR then
                           do { (p, vm) \<leftarrow> slp_vm_new_array sizes alloc vm;
                                vm \<leftarrow> update_java a (\<lambda>j. j\<lparr>jo_list := p\<rparr>) vm;
                                Some (if p = None then None else Some a, vm) }
                         else if kind = JAVA_MAP then
                           do { (p, vm) \<leftarrow> slp_vm_new_hash sizes alloc vm;
                                vm \<leftarrow> update_java a (\<lambda>j. j\<lparr>jo_map := p\<rparr>) vm;
                                Some (if p = None then None else Some a, vm) }
                         else Some (Some a, vm)) } }"

text \<open>The file 0 is \<open>stdin\<close>.\<close>

definition console_of :: "heap \<Rightarrow> addr \<Rightarrow> heap" where
  "console_of h a =
     (case h a of Some (OIOHandle io) \<Rightarrow> h(a \<mapsto> OIOHandle (io\<lparr>io_file := Some 0, io_is_console := True\<rparr>)) | _ \<Rightarrow> h)"

definition slp_vm_get_console_handle :: "struct_sizes \<Rightarrow> heap_allocator \<Rightarrow> vm \<Rightarrow> (ptr \<times> vm) option" where
  "slp_vm_get_console_handle sizes alloc vm =
     (case vm_console_handle vm of
        Some a \<Rightarrow> Some (Some a, vm)
      | None \<Rightarrow>
          (case slp_obj_io_handle_new (alloc (vm_heap vm)) (vm_heap vm) of
             (None, h) \<Rightarrow> Some (None, vm\<lparr>vm_heap := h\<rparr>)
           | (Some a, h) \<Rightarrow> do { vm \<leftarrow> track_object sizes a (vm\<lparr>vm_heap := console_of h a\<rparr>);
                                 Some (Some a, vm\<lparr>vm_console_handle := Some a\<rparr>) }))"

text \<open>A string is pushed on the error's list when it could be made.\<close>

definition push_string :: "ptr \<Rightarrow> ptr \<Rightarrow> vm \<Rightarrow> vm option" where
  "push_string text list vm =
     (case text of
        None \<Rightarrow> Some vm
      | Some s \<Rightarrow> do { l \<leftarrow> list; h \<leftarrow> slp_obj_array_push (vm_heap vm) l (VObj s); Some (vm\<lparr>vm_heap := h\<rparr>) })"

definition error_display :: "string \<Rightarrow> string \<Rightarrow> string" where
  "error_display class_name message =
     (if message = [] then class_name else class_name @ '': '' @ message)"

definition slp_vm_new_error :: "struct_sizes \<Rightarrow> heap_allocator \<Rightarrow> string option \<Rightarrow> string option \<Rightarrow> string option \<Rightarrow>
    string option \<Rightarrow> vm \<Rightarrow> (slp_value \<times> vm) option" where
  "slp_vm_new_error sizes alloc class_name message formatted display vm =
     (case class_name of
        None \<Rightarrow> Some (VNull, vm)
      | Some class_name \<Rightarrow>
          let message = c_text (case message of None \<Rightarrow> [] | Some m \<Rightarrow> m);
              formatted = c_text (case formatted of None \<Rightarrow> message | Some f \<Rightarrow> f);
              display = (case display of None \<Rightarrow> error_display (c_text class_name) message | Some d \<Rightarrow> d)
          in do { (error, vm) \<leftarrow> slp_vm_new_java_object sizes alloc class_name JAVA_ERROR vm;
                  (case error of
                     None \<Rightarrow> Some (VNull, vm)
                   | Some a \<Rightarrow>
                       do { let vm = slp_vm_push (VObj a) vm;
                            (message_string, vm) \<leftarrow> slp_vm_copy_cstr sizes alloc message vm;
                            (formatted_string, vm) \<leftarrow> slp_vm_copy_cstr sizes alloc formatted vm;
                            j \<leftarrow> get_java (vm_heap vm) a;
                            vm \<leftarrow> push_string message_string (jo_list j) vm;
                            vm \<leftarrow> push_string formatted_string (jo_list j) vm;
                            (display_string, vm) \<leftarrow> slp_vm_copy_cstr sizes alloc display vm;
                            vm \<leftarrow> update_java a (\<lambda>j. j\<lparr>jo_value := ptr_value display_string\<rparr>) vm;
                            let (_, vm) = slp_vm_pop vm;
                            Some (VObj a, vm) }) })"

end
