(* ===== verification/Operators.thy ===== *)
theory Operators
  imports VM_Objects
begin

text \<open>
  The numeric tower of the machine (\<^verbatim>\<open>src/slp_vm.c\<close>): the coercion of a value to a number, the three
  kinds of numbers, and the operators of compound assignments. A conversion of a double to an integer
  type that cannot hold it is undefined in C. \<open>pow\<close> is the function of the C library; the object
  allocator is a parameter as in the bytecode reader.
\<close>

subsection \<open>Numbers\<close>

partial_function (option) slp_value_as_number :: "heap \<Rightarrow> slp_value \<Rightarrow> f64 option" where
  [code]: "slp_value_as_number h v =
     do { v \<leftarrow> slp_value_unwrap_taint h v;
          (case v of
             VNum d \<Rightarrow> Some d
           | VBool b \<Rightarrow> Some (f_of_int (if b then 1 else 0))
           | VNull \<Rightarrow> Some (f_of_int 0)
           | VObj a \<Rightarrow>
               (case h a of
                  None \<Rightarrow> None
                | Some ob \<Rightarrow>
                    (case ob of
                       OScalarCell c \<Rightarrow> slp_value_as_number h (sc_value c)
                     | OString s \<Rightarrow> Some (fst (strtod (takeWhile (\<lambda>c. c \<noteq> NUL) (s_chars s))))
                     | OLong w \<Rightarrow> Some (f_of_int (sint w))
                     | ODouble d \<Rightarrow> Some d
                     | _ \<Rightarrow> Some (f_of_int 0)))) }"

datatype numeric_kind = NUMERIC_INT | NUMERIC_LONG | NUMERIC_DOUBLE

primrec kind_rank :: "numeric_kind \<Rightarrow> nat" where
  "kind_rank NUMERIC_INT = 0"
| "kind_rank NUMERIC_LONG = 1"
| "kind_rank NUMERIC_DOUBLE = 2"

instantiation numeric_kind :: linorder
begin

definition less_eq_numeric_kind :: "numeric_kind \<Rightarrow> numeric_kind \<Rightarrow> bool" where
  "less_eq_numeric_kind a b \<longleftrightarrow> kind_rank a \<le> kind_rank b"

definition less_numeric_kind :: "numeric_kind \<Rightarrow> numeric_kind \<Rightarrow> bool" where
  "less_numeric_kind a b \<longleftrightarrow> kind_rank a < kind_rank b"

instance
proof
  fix a b c :: numeric_kind
  show "a < b \<longleftrightarrow> a \<le> b \<and> \<not> b \<le> a" unfolding less_eq_numeric_kind_def less_numeric_kind_def by linarith
  show "a \<le> a" unfolding less_eq_numeric_kind_def by simp
  show "a \<le> b \<or> b \<le> a" unfolding less_eq_numeric_kind_def by linarith
  show "a \<le> b \<Longrightarrow> b \<le> c \<Longrightarrow> a \<le> c" unfolding less_eq_numeric_kind_def by linarith
  show "a \<le> b \<Longrightarrow> b \<le> a \<Longrightarrow> a = b"
    unfolding less_eq_numeric_kind_def by (cases a; cases b) simp_all
qed

end

definition numeric_kind_of :: "heap \<Rightarrow> slp_value \<Rightarrow> numeric_kind option" where
  "numeric_kind_of h v =
     do { v \<leftarrow> slp_value_unwrap_taint h v;
          (case v of
             VObj a \<Rightarrow> (case h a of
                          None \<Rightarrow> None
                        | Some ob \<Rightarrow> Some (case ob of ODouble _ \<Rightarrow> NUMERIC_DOUBLE | OLong _ \<Rightarrow> NUMERIC_LONG | _ \<Rightarrow> NUMERIC_INT))
           | VNum d \<Rightarrow> Some (if \<not> f_is_finite d then NUMERIC_DOUBLE
                             else if \<not> f_eq d (f_of_int (f_trunc d)) then NUMERIC_DOUBLE else NUMERIC_INT)
           | _ \<Rightarrow> Some NUMERIC_INT) }"

definition widest_numeric_kind :: "heap \<Rightarrow> slp_value \<Rightarrow> slp_value \<Rightarrow> numeric_kind option" where
  "widest_numeric_kind h left right =
     do { l \<leftarrow> numeric_kind_of h left; r \<leftarrow> numeric_kind_of h right; Some (if r < l then l else r) }"

text \<open>The C conversions to \<open>int32_t\<close> and \<open>int64_t\<close>.\<close>

definition to_int32 :: "f64 \<Rightarrow> u32 option" where
  "to_int32 d =
     (if f_is_finite d \<and> INT32_MIN \<le> f_trunc d \<and> f_trunc d \<le> INT32_MAX then Some (word_of_int (f_trunc d)) else None)"

definition to_int64 :: "f64 \<Rightarrow> u64 option" where
  "to_int64 d =
     (if f_is_finite d \<and> - (2 ^ 63) \<le> f_trunc d \<and> f_trunc d < 2 ^ 63 then Some (word_of_int (f_trunc d)) else None)"

definition numeric_int_value :: "heap \<Rightarrow> slp_value \<Rightarrow> u32 option" where
  "numeric_int_value h v = do { d \<leftarrow> slp_value_as_number h v; to_int32 d }"

definition numeric_long_value :: "heap \<Rightarrow> slp_value \<Rightarrow> u64 option" where
  "numeric_long_value h v =
     do { v \<leftarrow> slp_value_unwrap_taint h v;
          (case v of
             VObj a \<Rightarrow> (case h a of
                          Some (OLong w) \<Rightarrow> Some w
                        | _ \<Rightarrow> do { d \<leftarrow> slp_value_as_number h v; to_int64 d })
           | _ \<Rightarrow> do { d \<leftarrow> slp_value_as_number h v; to_int64 d }) }"

subsection \<open>New numbers\<close>

definition make_long_value :: "struct_sizes \<Rightarrow> heap_allocator \<Rightarrow> u64 \<Rightarrow> vm \<Rightarrow> (slp_value \<times> vm) option" where
  "make_long_value sizes alloc w vm = do { (p, vm) \<leftarrow> slp_vm_new_long sizes alloc w vm; Some (ptr_value p, vm) }"

definition make_double_value :: "struct_sizes \<Rightarrow> heap_allocator \<Rightarrow> f64 \<Rightarrow> vm \<Rightarrow> (slp_value \<times> vm) option" where
  "make_double_value sizes alloc d vm = do { (p, vm) \<leftarrow> slp_vm_new_double sizes alloc d vm; Some (ptr_value p, vm) }"

definition int_value :: "u32 \<Rightarrow> slp_value" where
  "int_value w = VNum (f_of_int (sint w))"

subsection \<open>Compound assignment\<close>

text \<open>Addition, subtraction and multiplication share their shape: wrap at the width of the widest kind.\<close>

definition arith :: "struct_sizes \<Rightarrow> heap_allocator \<Rightarrow> (f64 \<Rightarrow> f64 \<Rightarrow> f64) \<Rightarrow> (u64 \<Rightarrow> u64 \<Rightarrow> u64) \<Rightarrow> (u32 \<Rightarrow> u32 \<Rightarrow> u32) \<Rightarrow>
    numeric_kind \<Rightarrow> slp_value \<Rightarrow> slp_value \<Rightarrow> vm \<Rightarrow> (slp_value option \<times> vm) option" where
  "arith sizes alloc fop lop iop kind left right vm =
     (case kind of
        NUMERIC_DOUBLE \<Rightarrow>
          do { x \<leftarrow> slp_value_as_number (vm_heap vm) left; y \<leftarrow> slp_value_as_number (vm_heap vm) right;
               (v, vm) \<leftarrow> make_double_value sizes alloc (fop x y) vm; Some (Some v, vm) }
      | NUMERIC_LONG \<Rightarrow>
          do { x \<leftarrow> numeric_long_value (vm_heap vm) left; y \<leftarrow> numeric_long_value (vm_heap vm) right;
               (v, vm) \<leftarrow> make_long_value sizes alloc (lop x y) vm; Some (Some v, vm) }
      | NUMERIC_INT \<Rightarrow>
          do { x \<leftarrow> numeric_int_value (vm_heap vm) left; y \<leftarrow> numeric_int_value (vm_heap vm) right;
               Some (Some (int_value (iop x y)), vm) })"

text \<open>C division truncates; the one overflowing quotient is the dividend.\<close>

definition c_div :: "'a::len word \<Rightarrow> 'a word \<Rightarrow> 'a word" where
  "c_div x y = word_of_int (let q = \<bar>sint x\<bar> div \<bar>sint y\<bar> in if (sint x < 0) \<noteq> (sint y < 0) then - q else q)"

definition divide :: "struct_sizes \<Rightarrow> heap_allocator \<Rightarrow> numeric_kind \<Rightarrow> slp_value \<Rightarrow> slp_value \<Rightarrow> vm \<Rightarrow> (slp_value option \<times> vm) option" where
  "divide sizes alloc kind left right vm =
     (case kind of
        NUMERIC_DOUBLE \<Rightarrow>
          do { x \<leftarrow> slp_value_as_number (vm_heap vm) left; y \<leftarrow> slp_value_as_number (vm_heap vm) right;
               (v, vm) \<leftarrow> make_double_value sizes alloc (f_div x y) vm; Some (Some v, vm) }
      | NUMERIC_LONG \<Rightarrow>
          do { y \<leftarrow> numeric_long_value (vm_heap vm) right;
               if y = 0 then Some (None, slp_vm_runtime_error ''Division by zero.'' vm)
               else do { x \<leftarrow> numeric_long_value (vm_heap vm) left;
                         (v, vm) \<leftarrow> make_long_value sizes alloc
                            (if x = word_of_int (- (2 ^ 63)) \<and> y = - 1 then word_of_int (- (2 ^ 63)) else c_div x y) vm;
                         Some (Some v, vm) } }
      | NUMERIC_INT \<Rightarrow>
          do { y \<leftarrow> numeric_int_value (vm_heap vm) right;
               if y = 0 then Some (None, slp_vm_runtime_error ''Division by zero.'' vm)
               else do { x \<leftarrow> numeric_int_value (vm_heap vm) left;
                         Some (Some (int_value (if x = word_of_int INT32_MIN \<and> y = - 1 then word_of_int INT32_MIN else c_div x y)), vm) } })"

definition concat_values :: "struct_sizes \<Rightarrow> heap_allocator \<Rightarrow> slp_value \<Rightarrow> slp_value \<Rightarrow> vm \<Rightarrow> (slp_value option \<times> vm) option" where
  "concat_values sizes alloc left right vm =
     do { (l, vm) \<leftarrow> slp_vm_stringify sizes True (alloc (vm_heap vm)) left vm;
          (r, vm) \<leftarrow> slp_vm_stringify sizes True (alloc (vm_heap vm)) right vm;
          (case (l, r) of
             (Some l, Some r) \<Rightarrow>
               do { s \<leftarrow> get_string (vm_heap vm) l;
                    t \<leftarrow> get_string (vm_heap vm) r;
                    if 2 ^ 32 \<le> length (s_chars s) + length (s_chars t) then None
                    else do { (p, vm) \<leftarrow> slp_vm_copy_string sizes True (alloc (vm_heap vm)) (s_chars s @ s_chars t) vm;
                              Some (case p of
                                      None \<Rightarrow> (None, slp_vm_runtime_error ''Out of memory.'' vm)
                                    | Some a \<Rightarrow> (Some (VObj a), vm)) } }
           | _ \<Rightarrow> Some (None, slp_vm_runtime_error ''Out of memory.'' vm)) }"

text \<open>The bit operators work at the width of the widest kind, where a double counts as an int.\<close>

definition bitwise :: "struct_sizes \<Rightarrow> heap_allocator \<Rightarrow> (u64 \<Rightarrow> u64 \<Rightarrow> u64) \<Rightarrow> (u32 \<Rightarrow> u32 \<Rightarrow> u32) \<Rightarrow>
    numeric_kind \<Rightarrow> slp_value \<Rightarrow> slp_value \<Rightarrow> vm \<Rightarrow> (slp_value option \<times> vm) option" where
  "bitwise sizes alloc lop iop kind left right vm =
     (if kind = NUMERIC_LONG then
        do { x \<leftarrow> numeric_long_value (vm_heap vm) left; y \<leftarrow> numeric_long_value (vm_heap vm) right;
             (v, vm) \<leftarrow> make_long_value sizes alloc (lop x y) vm; Some (Some v, vm) }
      else do { x \<leftarrow> numeric_int_value (vm_heap vm) left; y \<leftarrow> numeric_int_value (vm_heap vm) right;
                Some (Some (int_value (iop x y)), vm) })"

text \<open>A shift has the width of its left operand; the count is masked.\<close>

definition shift :: "struct_sizes \<Rightarrow> heap_allocator \<Rightarrow> (nat \<Rightarrow> u64 \<Rightarrow> u64) \<Rightarrow> (nat \<Rightarrow> u32 \<Rightarrow> u32) \<Rightarrow>
    slp_value \<Rightarrow> slp_value \<Rightarrow> vm \<Rightarrow> (slp_value option \<times> vm) option" where
  "shift sizes alloc lop iop left right vm =
     do { kind \<leftarrow> numeric_kind_of (vm_heap vm) left;
          count \<leftarrow> numeric_int_value (vm_heap vm) right;
          if kind = NUMERIC_LONG then
            do { x \<leftarrow> numeric_long_value (vm_heap vm) left;
                 (v, vm) \<leftarrow> make_long_value sizes alloc (lop (unat (and count 63)) x) vm; Some (Some v, vm) }
          else do { x \<leftarrow> numeric_int_value (vm_heap vm) left;
                    Some (Some (int_value (iop (unat (and count 31)) x)), vm) } }"

definition evaluate_assignment_operator :: "(f64 \<Rightarrow> f64 \<Rightarrow> f64) \<Rightarrow> struct_sizes \<Rightarrow> heap_allocator \<Rightarrow> byte \<Rightarrow>
    slp_value \<Rightarrow> slp_value \<Rightarrow> vm \<Rightarrow> (slp_value option \<times> vm) option" where
  "evaluate_assignment_operator pow sizes alloc opcode left right vm =
     do { kind \<leftarrow> widest_numeric_kind (vm_heap vm) left right;
          if opcode = OP_ADD then arith sizes alloc f_add (+) (+) kind left right vm
          else if opcode = OP_SUBTRACT then arith sizes alloc f_sub (-) (-) kind left right vm
          else if opcode = OP_MULTIPLY then arith sizes alloc f_mul (*) (*) kind left right vm
          else if opcode = OP_DIVIDE then divide sizes alloc kind left right vm
          else if opcode = OP_POWER then
            do { x \<leftarrow> slp_value_as_number (vm_heap vm) left; y \<leftarrow> slp_value_as_number (vm_heap vm) right;
                 (v, vm) \<leftarrow> make_double_value sizes alloc (pow x y) vm; Some (Some v, vm) }
          else if opcode = OP_CONCAT then concat_values sizes alloc left right vm
          else if opcode = OP_BIT_AND then bitwise sizes alloc and and kind left right vm
          else if opcode = OP_BIT_OR then bitwise sizes alloc or or kind left right vm
          else if opcode = OP_BIT_XOR then bitwise sizes alloc xor xor kind left right vm
          else if opcode = OP_LSHIFT then shift sizes alloc push_bit push_bit left right vm
          else if opcode = OP_RSHIFT then shift sizes alloc signed_drop_bit signed_drop_bit left right vm
          else Some (None, slp_vm_runtime_error ''Unsupported tuple assignment operator.'' vm) }"

end
