(* ===== verification/Number_Text.thy ===== *)
theory Number_Text
  imports Stringify
begin

text \<open>
  The decimal text of an integer and its value as a number: \<open>strtod\<close> reads the text that \<open>%d\<close> and
  \<open>%lld\<close> write of any integer below \<open>2 ^ 53\<close> in magnitude, completely and exactly.
\<close>

subsection \<open>Digits\<close>

lemma digit_chars: "k < 10 \<Longrightarrow> of_char (digit_char k) = (48 + k :: nat)"
proof -
  assume "k < 10"
  then have "k \<in> set [0, 1, 2, 3, 4, 5, 6, 7, 8, 9]" by auto
  then show ?thesis by (auto simp: digit_char_def)
qed

lemma of_digit_char: "of_char (digit_char k) = (48 + k mod 10 :: nat)"
  using digit_chars [of "k mod 10"] by (simp add: digit_char_def)

lemma is_digit_char [simp]: "c_isdigit (digit_char k)"
  by (simp add: c_isdigit_def char_in_def of_digit_char)

lemma xdigit_char [simp]: "xdigit_value (digit_char k) = k mod 10"
  by (simp add: xdigit_value_def of_digit_char)

lemma digits_value_append [simp]: "digits_value b (s @ [c]) = digits_value b s * b + xdigit_value c"
  by (simp add: digits_value_def)

lemma digits_value_dec [simp]: "digits_value 10 (dec_nat n) = n"
proof (induction n rule: dec_nat.induct)
  case (1 n)
  have single: "digits_value 10 [digit_char n] = n" if "n < 10" using that by (simp add: digits_value_def)
  show ?case using 1 single by (subst dec_nat.simps) simp
qed

lemma dec_nat_digits: "c \<in> set (dec_nat n) \<Longrightarrow> c_isdigit c"
proof (induction n rule: dec_nat.induct)
  case (1 n)
  then show ?case by (subst (asm) (2) dec_nat.simps) (auto split: if_splits)
qed

lemma dec_nat_length: "length (dec_nat n) \<le> Suc n"
proof (induction n rule: dec_nat.induct)
  case (1 n)
  then show ?case by (subst dec_nat.simps) auto
qed

lemma dec_nat_Cons: obtains c s where "dec_nat n = c # s" "c_isdigit c"
  using dec_nat_digits [of _ n] by (cases "dec_nat n") auto

lemma digit_not:
  "c_isdigit c \<Longrightarrow> \<not> c_isspace c" "c_isdigit c \<Longrightarrow> c \<noteq> CHR ''-''" "c_isdigit c \<Longrightarrow> c \<noteq> CHR ''+''"
  "c_isdigit c \<Longrightarrow> c_tolower c = c" "c_isdigit c \<Longrightarrow> c \<noteq> CHR ''x''" "c_isdigit c \<Longrightarrow> c \<noteq> CHR ''i''"
  "c_isdigit c \<Longrightarrow> c \<noteq> CHR ''n''" "c_isdigit c \<Longrightarrow> c \<noteq> NUL"
  by (auto simp: c_isdigit_def c_isspace_def c_tolower_def char_in_def)

subsection \<open>An integer as a ratio\<close>

lemma nat_bits_1 [simp]: "nat_bits (Suc 0) = 1"
  using nat_bits.simps [of 1] nat_bits.simps [of 0] by simp

lemma f_of_ratio_nat:
  assumes "n < 2 ^ 53"
  shows "f_of_ratio neg n 1 = f_with_sign neg (f_of_nat_bits n)"
proof (cases "n = 0")
  case True
  then show ?thesis by (simp add: f_of_ratio_def f_of_nat_bits_def)
next
  case False
  let ?l = "nat_bits n"
  have b: "2 ^ (?l - 1) \<le> n" "0 < ?l" "?l \<le> 53" using nat_bits_bounds [of n] nat_bits_le [OF assms] False by auto
  have "log2_ratio n 1 = int ?l - 1"
    using b by (simp add: log2_ratio_def Let_def nat_diff_distrib')
  then have s: "max (log2_ratio n 1 - 52) (- 1074) = int ?l - 53" using b(2) by simp
  have m: "round_half_even (n * 2 ^ nat (- (int ?l - 53))) (1 * 2 ^ nat (int ?l - 53)) = n * 2 ^ (53 - ?l)"
    using b by (simp add: round_half_even_def nat_diff_distrib')
  have bits: "nat (int ?l - 53 + 1074) * 2 ^ 52 + n * 2 ^ (53 - ?l) = f_of_nat_bits n"
    using False b by (simp add: f_of_nat_bits_def Let_def nat_add_distrib nat_int_add)
  have "f_of_nat_bits n < 2047 * 2 ^ 52"
  proof -
    define r where "r = n * 2 ^ (53 - ?l) - 2 ^ 52"
    have "r < 2 ^ 53" using f_of_nat_bits_split(3) [of n] False assms by (simp add: r_def)
    moreover have "f_of_nat_bits n = (?l + 1022) * 2 ^ 52 + r"
      using f_of_nat_bits_split(1) [of n] False assms by (simp add: r_def)
    moreover have "(?l + 1022) * 2 ^ 52 \<le> 1075 * 2 ^ 52" using b(3) by (intro mult_le_mono1) simp
    ultimately show ?thesis by simp
  qed
  then show ?thesis
    using False by (simp only: f_of_ratio_def Let_def s m bits) simp
qed

lemma f_of_int_sign: "f_of_int n = f_with_sign (n < 0) (f_of_nat_bits (nat \<bar>n\<bar>))"
  by (simp add: f_of_int_def f_with_sign_def)

subsection \<open>Reading the text back\<close>

lemma no_prefix: "c_isdigit c \<Longrightarrow> \<not> c_isdigit d \<Longrightarrow> \<not> has_prefix (d # p) (c # s)"
  by (auto simp: has_prefix_def digit_not)

lemma no_hex: "\<forall>c\<in>set s. c_isdigit c \<Longrightarrow> \<not> has_prefix ''0x'' s"
proof -
  assume s: "\<forall>c\<in>set s. c_isdigit c"
  show ?thesis
  proof (cases s rule: remdups_adj.cases)
    case (3 c d t)
    then show ?thesis using s by (auto simp: has_prefix_def digit_not)
  qed (simp_all add: has_prefix_def)
qed

lemma all_digits: "takeWhile c_isdigit (dec_nat n) = dec_nat n" "dropWhile c_isdigit (dec_nat n) = []"
  using dec_nat_digits [of _ n] by simp_all

lemma not_space: "\<not> c_isspace CHR ''-''"
  by (simp add: c_isspace_def char_in_def)

lemma strtod_decimal_dec: "n < 2 ^ 53 \<Longrightarrow> strtod_decimal neg (dec_nat n) = Some (f_with_sign neg (f_of_nat_bits n), [])"
  by (simp add: strtod_decimal_def take_digits_def take_exponent_def all_digits f_scaled_def f_of_ratio_nat [simplified])

lemma strtod_dec_nat:
  assumes "n < 2 ^ 53"
  shows "strtod (dec_nat n) = (f_with_sign False (f_of_nat_bits n), [])"
    and "strtod (CHR ''-'' # dec_nat n) = (f_with_sign True (f_of_nat_bits n), [])"
proof -
  obtain c s where d: "dec_nat n = c # s" "c_isdigit c" by (rule dec_nat_Cons)
  note nots = no_prefix [OF d(2), of _ _ s, folded d(1)] no_hex [of "dec_nat n"] dec_nat_digits [of _ n]
  have start: "take_sign (dropWhile c_isspace (dec_nat n)) = (False, dec_nat n)"
    "take_sign (dropWhile c_isspace (CHR ''-'' # dec_nat n)) = (True, dec_nat n)"
    using d by (simp_all add: take_sign_def digit_not not_space)
  have letters: "\<not> c_isdigit CHR ''i''" "\<not> c_isdigit CHR ''n''" by (simp_all add: c_isdigit_def char_in_def)
  show "strtod (dec_nat n) = (f_with_sign False (f_of_nat_bits n), [])"
    "strtod (CHR ''-'' # dec_nat n) = (f_with_sign True (f_of_nat_bits n), [])"
    unfolding strtod_def start using nots letters strtod_decimal_dec [OF assms] by simp_all
qed

lemma strtod_dec_int: "\<bar>n\<bar> < 2 ^ 53 \<Longrightarrow> strtod (dec_int n) = (f_of_int n, [])"
  using strtod_dec_nat [of "nat \<bar>n\<bar>"] by (cases "n < 0") (simp_all add: dec_int_def f_of_int_sign nat_less_iff)

lemma dec_int_no_NUL: "takeWhile (\<lambda>c. c \<noteq> NUL) (dec_int n) = dec_int n"
  using dec_nat_digits [of _ "nat n"] dec_nat_digits [of _ "nat (- n)"]
  by (auto simp: dec_int_def takeWhile_eq_all_conv dest: digit_not(8))

end
