(* ===== verification/Operator_Props.thy ===== *)
theory Operator_Props
  imports Operators Number_Text Interned
begin

text \<open>
  What the operators of compound assignment do with numbers: ints wrap at 32 bits and longs at 64, the
  shift counts are masked, division truncates and reports a zero divisor, and an int operator on a text
  whose number does not fit 32 bits is undefined.
\<close>

subsection \<open>Int operands\<close>

definition int32 :: "int \<Rightarrow> bool" where
  "int32 n \<longleftrightarrow> - (2 ^ 31) \<le> n \<and> n < 2 ^ 31"

definition num :: "int \<Rightarrow> slp_value" where
  "num n = VNum (f_of_int n)"

definition wrap32 :: "int \<Rightarrow> int" where
  "wrap32 n = (n + 2 ^ 31) mod 2 ^ 32 - 2 ^ 31"

lemma int32_small: "int32 n \<Longrightarrow> \<bar>n\<bar> < 2 ^ 53"
  by (auto simp: int32_def)

lemma f_of_int_not_inf: "\<bar>n\<bar> < 2 ^ 53 \<Longrightarrow> \<not> f_is_inf (f_of_int n)"
proof (cases "n = 0")
  case True
  then show ?thesis by (simp add: f_of_int_0 f_is_inf_def f_expo_def)
next
  case False
  assume "\<bar>n\<bar> < 2 ^ 53"
  from f_of_int_fields(1,4) [OF False this] show ?thesis by (simp add: f_is_inf_def)
qed

lemma f_of_int_finite: "\<bar>n\<bar> < 2 ^ 53 \<Longrightarrow> f_is_finite (f_of_int n)"
  by (simp add: f_is_finite_def f_of_int_not_nan f_of_int_not_inf)

lemma dec_int_length: "int32 n \<Longrightarrow> length (dec_int n) \<le> 2 ^ 31 + 2"
  using dec_nat_length [of "nat n"] dec_nat_length [of "nat (- n)"] by (auto simp: int32_def dec_int_def)

lemma as_number_plain:
  "slp_value_as_number h (VNum d) = Some d"
  by (subst slp_value_as_number.simps) simp

lemma as_number_string:
  "h a = Some (OString s) \<Longrightarrow> slp_value_as_number h (VObj a) = Some (fst (strtod (takeWhile (\<lambda>c. c \<noteq> NUL) (s_chars s))))"
  by (subst slp_value_as_number.simps) simp

lemma kind_num: "int32 n \<Longrightarrow> numeric_kind_of h (num n) = Some NUMERIC_INT"
  using f_of_int_finite [OF int32_small] f_trunc_of_int [OF int32_small] f_eq_of_int [OF int32_small int32_small]
  by (simp add: numeric_kind_of_def num_def)

lemma kind_long: "h a = Some (OLong w) \<Longrightarrow> numeric_kind_of h (VObj a) = Some NUMERIC_LONG"
  by (simp add: numeric_kind_of_def)

lemma kind_string: "h a = Some (OString s) \<Longrightarrow> numeric_kind_of h (VObj a) = Some NUMERIC_INT"
  by (simp add: numeric_kind_of_def)

lemma int_of_num: "int32 n \<Longrightarrow> numeric_int_value h (num n) = Some (word_of_int n)"
  using f_of_int_finite [OF int32_small] f_trunc_of_int [OF int32_small]
  by (simp add: numeric_int_value_def to_int32_def as_number_plain num_def int32_def)

lemma long_of_num: "int32 n \<Longrightarrow> numeric_long_value h (num n) = Some (word_of_int n)"
  using f_of_int_finite [OF int32_small] f_trunc_of_int [OF int32_small]
  by (simp add: numeric_long_value_def to_int64_def as_number_plain num_def int32_def)

lemma long_of_long: "h a = Some (OLong w) \<Longrightarrow> numeric_long_value h (VObj a) = Some w"
  by (simp add: numeric_long_value_def)

lemma widest: 
  "numeric_kind_of h l = Some k \<Longrightarrow> numeric_kind_of h r = Some m \<Longrightarrow> widest_numeric_kind h l r = Some (max k m)"
  by (auto simp: widest_numeric_kind_def max_def)

lemma rank_order [simp]: "NUMERIC_INT \<le> k" "\<not> NUMERIC_LONG \<le> NUMERIC_INT" "max k k = k"
  "max NUMERIC_LONG NUMERIC_INT = NUMERIC_LONG" "max NUMERIC_INT NUMERIC_LONG = NUMERIC_LONG"
  by (simp_all add: less_eq_numeric_kind_def max_def)

lemma sint_word32: "sint (word_of_int n :: u32) = wrap32 n"
  by (simp add: sint_sbintrunc' signed_take_bit_eq_take_bit_shift take_bit_eq_mod wrap32_def)

lemma int_value_num: "int_value (word_of_int n) = num (wrap32 n)"
  by (simp add: int_value_def num_def sint_word32)

lemma wrap32_id: "int32 n \<Longrightarrow> wrap32 n = n"
  by (auto simp: int32_def wrap32_def)

lemma sint_int32: "int32 n \<Longrightarrow> sint (word_of_int n :: u32) = n"
  by (simp add: sint_word32 wrap32_id)

lemma sint_word_num: "int_value w = num (sint w)"
  by (simp add: int_value_def num_def)

lemma mask_count:
  assumes "k \<le> 6"
  shows "unat (and (word_of_int n :: u32) (mask k)) = nat (n mod 2 ^ k)"
proof -
  have k: "(2::int) ^ k dvd 2 ^ 32" using assms by (intro le_imp_power_dvd) simp
  have "uint (and (word_of_int n :: u32) (mask k)) = take_bit k (uint (word_of_int n :: u32))"
    by (simp only: take_bit_eq_mask [symmetric] unsigned_take_bit_eq)
  also have "... = take_bit k (take_bit 32 n)" by (simp add: unsigned_of_int)
  also have "... = n mod 2 ^ k" using assms by (simp add: take_bit_eq_mod [of k n])
  finally show ?thesis by (simp add: unat_eq_nat_uint)
qed

lemma shift_masks: "(31 :: u32) = mask 5" "(63 :: u32) = mask 6"
  by (simp_all add: mask_eq_exp_minus_1)

lemma shift_count:
  "unat (and (word_of_int n :: u32) 31) = nat (n mod 32)" "unat (and (word_of_int n :: u32) 63) = nat (n mod 64)"
  using mask_count [of 5 n] mask_count [of 6 n] by (simp_all add: shift_masks)

subsection \<open>Division\<close>

definition quotient :: "int \<Rightarrow> int \<Rightarrow> int" where
  "quotient x y = (let q = \<bar>x\<bar> div \<bar>y\<bar> in if (x < 0) \<noteq> (y < 0) then - q else q)"

lemma c_div_int32:
  assumes "int32 i" "int32 j"
  shows "c_div (word_of_int i :: u32) (word_of_int j) = word_of_int (quotient i j)"
  using assms by (simp add: c_div_def quotient_def sint_int32 Let_def)

lemma quotient_bounds:
  assumes "y \<noteq> 0"
  shows "\<bar>quotient x y\<bar> = \<bar>x\<bar> div \<bar>y\<bar>" and "\<bar>x\<bar> div \<bar>y\<bar> \<le> \<bar>x\<bar>"
proof -
  have "0 \<le> \<bar>x\<bar> div \<bar>y\<bar>" using assms by (simp add: pos_imp_zdiv_nonneg_iff)
  then show "\<bar>quotient x y\<bar> = \<bar>x\<bar> div \<bar>y\<bar>" by (simp add: quotient_def Let_def)
  have "\<bar>x\<bar> div \<bar>y\<bar> \<le> \<bar>x\<bar> div 1" using assms by (intro zdiv_mono2) simp_all
  then show "\<bar>x\<bar> div \<bar>y\<bar> \<le> \<bar>x\<bar>" by simp
qed

lemma quotient_int32:
  assumes "int32 i" "int32 j" "j \<noteq> 0" "\<not> (i = - (2 ^ 31) \<and> j = - 1)"
  shows "int32 (quotient i j)"
proof (cases "i = - (2 ^ 31)")
  case False
  then have "\<bar>i\<bar> < 2 ^ 31" using assms(1) unfolding int32_def by linarith
  then have "\<bar>quotient i j\<bar> < 2 ^ 31" using quotient_bounds [OF assms(3), of i] by linarith
  then show ?thesis by (simp add: int32_def abs_less_iff)
next
  case True
  show ?thesis
  proof (cases "j = 1")
    case True
    then show ?thesis using \<open>i = _\<close> by (simp add: int32_def quotient_def)
  next
    case False
    then have "2 \<le> \<bar>j\<bar>" using assms(3,4) True by linarith
    then have "\<bar>i\<bar> div \<bar>j\<bar> \<le> \<bar>i\<bar> div 2" by (intro zdiv_mono2) simp_all
    then have "\<bar>quotient i j\<bar> \<le> 2 ^ 30" using quotient_bounds(1) [OF assms(3), of i] True by simp
    then show ?thesis unfolding int32_def abs_le_iff by simp
  qed
qed

subsection \<open>New longs\<close>

lemma new_long:
  assumes "alloc (vm_heap vm) = Some q"
  shows "\<exists>vm'. make_long_value sizes alloc w vm = Some (VObj q, vm') \<and>
    vm_heap vm' = (vm_heap vm)(q \<mapsto> OLong w) \<and> vm_objects vm' = q # vm_objects vm \<and> vm_errors vm' = vm_errors vm"
  using assms
  by (simp add: make_long_value_def slp_vm_new_long_def new_tracked_def slp_obj_long_new_def place_def
    track_object_def ptr_value_def)

subsection \<open>Properties\<close>

text \<open>The operators on two ints, and on a long with a second operand that is a long or an int.\<close>

definition int_meaning :: "(byte \<times> (int \<Rightarrow> int \<Rightarrow> int)) list" where
  "int_meaning =
     [(OP_ADD, \<lambda>i j. wrap32 (i + j)), (OP_SUBTRACT, \<lambda>i j. wrap32 (i - j)), (OP_MULTIPLY, \<lambda>i j. wrap32 (i * j)),
      (OP_BIT_AND, and), (OP_BIT_OR, or), (OP_BIT_XOR, xor),
      (OP_LSHIFT, \<lambda>i j. wrap32 (i * 2 ^ nat (j mod 32))), (OP_RSHIFT, \<lambda>i j. i div 2 ^ nat (j mod 32))]"

definition long_meaning :: "(byte \<times> (u64 \<Rightarrow> u64 \<Rightarrow> u64)) list" where
  "long_meaning =
     [(OP_ADD, (+)), (OP_SUBTRACT, (-)), (OP_MULTIPLY, (*)), (OP_BIT_AND, and), (OP_BIT_OR, or), (OP_BIT_XOR, xor)]"

definition integer_operand :: "heap \<Rightarrow> slp_value \<Rightarrow> u64 \<Rightarrow> bool" where
  "integer_operand h v y \<longleftrightarrow> (\<exists>j. int32 j \<and> v = num j \<and> y = word_of_int j) \<or> (\<exists>b. v = VObj b \<and> h b = Some (OLong y))"

lemma arith_words:
  "int_value (word_of_int i + word_of_int j) = num (wrap32 (i + j))"
  "int_value (word_of_int i - word_of_int j) = num (wrap32 (i - j))"
  "int_value (word_of_int i * word_of_int j) = num (wrap32 (i * j))"
  by (simp_all only: wi_homs int_value_num)

lemma bit_words:
  assumes "int32 i" "int32 j"
  shows "int_value (and (word_of_int i) (word_of_int j)) = num (and i j)"
    and "int_value (or (word_of_int i) (word_of_int j)) = num (or i j)"
    and "int_value (xor (word_of_int i) (word_of_int j)) = num (xor i j)"
  using assms by (simp_all add: sint_word_num signed_and_eq signed_or_eq signed_xor_eq sint_int32)

lemma shift_words:
  assumes "int32 i"
  shows "int_value (push_bit n (word_of_int i)) = num (wrap32 (i * 2 ^ n))"
    and "int_value (signed_drop_bit n (word_of_int i)) = num (i div 2 ^ n)"
proof -
  have "push_bit n (word_of_int i :: u32) = word_of_int (i * 2 ^ n)" by (simp add: push_bit_eq_mult)
  then show "int_value (push_bit n (word_of_int i)) = num (wrap32 (i * 2 ^ n))" by (simp only: int_value_num)
  show "int_value (signed_drop_bit n (word_of_int i)) = num (i div 2 ^ n)"
    using assms by (simp add: sint_word_num sint_signed_drop_bit_eq sint_int32 drop_bit_eq_div)
qed

text \<open>C13: on two ints the operators of compound assignment are those of 32-bit two's complement: sum, difference
  and product wrap, the bit operators work on the signed values, a shift count is taken modulo 32 and the
  right shift keeps the sign. Nothing is allocated and the machine is unchanged.\<close>

theorem int_operators:
  assumes "int32 i" "int32 j" "(opcode, f) \<in> set int_meaning"
  shows "evaluate_assignment_operator pow sizes alloc opcode (num i) (num j) vm = Some (Some (num (f i j)), vm)"
  using assms
  by (auto simp: int_meaning_def evaluate_assignment_operator_def arith_def bitwise_def shift_def widest kind_num
    int_of_num shift_count arith_words bit_words shift_words)

theorem int_operators_witness:
  "evaluate_assignment_operator (\<lambda>x y. x) (\<lambda>_. 32) (\<lambda>_. None) OP_ADD (num 2147483647) (num 1) vm_zero =
     Some (Some (num (wrap32 2147483648)), vm_zero)"
  using int_operators [of 2147483647 1 OP_ADD "\<lambda>i j. wrap32 (i + j)" "\<lambda>x y. x" "\<lambda>_. 32" "\<lambda>_. None" vm_zero]
  by (simp add: int32_def int_meaning_def)

text \<open>
  With a long on the left and a long or an int on the right the arithmetic and bit operators are those of
  64-bit words; the result is a new long object, linked into the collector's list.\<close>

theorem long_operators:
  assumes "vm_heap vm a = Some (OLong x)" "integer_operand (vm_heap vm) r y" "(opcode, f) \<in> set long_meaning"
    and "alloc (vm_heap vm) = Some q"
  shows "\<exists>vm'. evaluate_assignment_operator pow sizes alloc opcode (VObj a) r vm = Some (Some (VObj q), vm') \<and>
    vm_heap vm' = (vm_heap vm)(q \<mapsto> OLong (f x y)) \<and> vm_objects vm' = q # vm_objects vm \<and> vm_errors vm' = vm_errors vm"
proof -
  have "\<exists>k. numeric_kind_of (vm_heap vm) r = Some k \<and> max NUMERIC_LONG k = NUMERIC_LONG"
    using assms(2) by (auto simp: integer_operand_def kind_num kind_long)
  then have kind: "widest_numeric_kind (vm_heap vm) (VObj a) r = Some NUMERIC_LONG"
    using widest [OF kind_long [where h = "vm_heap vm" and a = a, OF assms(1)]] by auto
  have y: "numeric_long_value (vm_heap vm) r = Some y"
    using assms(2) by (auto simp: integer_operand_def long_of_num long_of_long)
  note new = new_long [where alloc = alloc and vm = vm and sizes = sizes and w = "f x y", OF assms(4)]
  have "evaluate_assignment_operator pow sizes alloc opcode (VObj a) r vm =
    do { (v, vm) \<leftarrow> make_long_value sizes alloc (f x y) vm; Some (Some v, vm) }"
    using assms(3) kind y long_of_long [of "vm_heap vm", OF assms(1)]
    by (auto simp: long_meaning_def evaluate_assignment_operator_def arith_def bitwise_def)
  with new show ?thesis by auto
qed

definition two_longs :: vm where
  "two_longs = vm_zero\<lparr>vm_heap := [1 \<mapsto> OLong 0x7FFFFFFFFFFFFFFF, 2 \<mapsto> OLong 1], vm_objects := [1, 2]\<rparr>"

theorem long_operators_witness:
  "\<exists>vm'. evaluate_assignment_operator (\<lambda>x y. x) (\<lambda>_. 32) (\<lambda>_. Some 3) OP_ADD (VObj 1) (VObj 2) two_longs = Some (Some (VObj 3), vm') \<and>
     vm_heap vm' 3 = Some (OLong 0x8000000000000000)"
  using long_operators [where vm = two_longs and a = 1 and x = "0x7FFFFFFFFFFFFFFF" and r = "VObj 2" and y = 1 and opcode = OP_ADD
    and f = "(+)" and alloc = "\<lambda>_. Some 3" and q = 3 and pow = "\<lambda>x y. x" and sizes = "\<lambda>_. 32"]
  by (auto simp: two_longs_def integer_operand_def long_meaning_def)

text \<open>C33: the int division truncates towards zero; its one overflow, the least int by -1, gives the least int; a
  zero divisor is reported as an error and gives no value.\<close>

theorem int_division:
  assumes "int32 i" "int32 j"
  shows "evaluate_assignment_operator pow sizes alloc OP_DIVIDE (num i) (num j) vm =
    Some (if j = 0 then (None, vm\<lparr>vm_errors := vm_errors vm @ [''Division by zero.'']\<rparr>)
          else if i = - (2 ^ 31) \<and> j = - 1 then (Some (num (- (2 ^ 31))), vm)
          else (Some (num (quotient i j)), vm))"
proof -
  have zero: "(word_of_int j :: u32) = 0 \<longleftrightarrow> j = 0" "(word_of_int j :: u32) = - 1 \<longleftrightarrow> j = - 1"
    "(word_of_int i :: u32) = - 2147483648 \<longleftrightarrow> i = INT32_MIN"
    using sint_int32 [OF assms(2)] sint_int32 [OF assms(1)] by auto
  have least: "int_value (- 2147483648) = num INT32_MIN"
    using int_value_num [of INT32_MIN] by (simp add: wrap32_def)
  have "evaluate_assignment_operator pow sizes alloc OP_DIVIDE (num i) (num j) vm = divide sizes alloc NUMERIC_INT (num i) (num j) vm"
    using assms by (simp add: evaluate_assignment_operator_def widest kind_num)
  then show ?thesis
    using assms quotient_int32 [OF assms]
    by (auto simp: divide_def int_of_num zero least c_div_int32 int_value_num wrap32_id slp_vm_runtime_error_def)
qed

theorem int_division_witness:
  "evaluate_assignment_operator (\<lambda>x y. x) (\<lambda>_. 32) (\<lambda>_. None) OP_DIVIDE (num (- 7)) (num 2) vm_zero = Some (Some (num (- 3)), vm_zero)"
  using int_division [of "- 7" 2 "\<lambda>x y. x" "\<lambda>_. 32" "\<lambda>_. None" vm_zero]
  by (simp add: int32_def quotient_def)

text \<open>An int operator on a text whose number does not fit 32 bits is undefined: a text never counts as a long or
  a double, so its number is cast to \<open>int32_t\<close> whatever its size.\<close>

theorem text_operand_overflow:
  assumes "vm_heap vm a = Some (OString s)" "\<not> int32 (f_trunc (fst (strtod (takeWhile (\<lambda>c. c \<noteq> NUL) (s_chars s)))))"
    and "int32 j" "(opcode, f) \<in> set int_meaning"
  shows "evaluate_assignment_operator pow sizes alloc opcode (VObj a) (num j) vm = None"
proof -
  have "numeric_int_value (vm_heap vm) (VObj a) = None"
    using assms(2) by (auto simp: numeric_int_value_def as_number_string [where h = "vm_heap vm", OF assms(1)] to_int32_def int32_def)
  then show ?thesis
    using assms(3,4) kind_string [where h = "vm_heap vm", OF assms(1)]
    by (auto simp: int_meaning_def evaluate_assignment_operator_def arith_def bitwise_def shift_def widest kind_num int_of_num)
qed

definition big_text :: vm where
  "big_text = vm_zero\<lparr>vm_heap := [1 \<mapsto> OString \<lparr>s_chars = dec_int 3000000000, s_hash = 0\<rparr>]\<rparr>"

theorem text_operand_overflow_witness:
  "evaluate_assignment_operator (\<lambda>x y. x) (\<lambda>_. 32) (\<lambda>_. None) OP_ADD (VObj 1) (num 1) big_text = None"
  by (rule text_operand_overflow [where s = "\<lparr>s_chars = dec_int 3000000000, s_hash = 0\<rparr>" and f = "\<lambda>i j. wrap32 (i + j)"])
    (simp_all add: big_text_def int_meaning_def int32_def dec_int_no_NUL strtod_dec_int f_trunc_of_int)

text \<open>C25: an int survives being written as text: the text of an int is its decimal form, interned as a string, and
  as an operand this string counts as the same int again.\<close>

theorem int_text_roundtrip:
  assumes "intern_ok vm" "vm_interned_capacity vm < 2 ^ 29" "vm_heap vm a = None" "int32 i"
  shows "\<exists>b vm'. slp_vm_stringify sizes True (Some a) (num i) vm = Some (Some b, vm') \<and> intern_ok vm' \<and>
    text_of (vm_heap vm') b = dec_int i \<and> numeric_kind_of (vm_heap vm') (VObj b) = Some NUMERIC_INT \<and>
    numeric_int_value (vm_heap vm') (VObj b) = Some (word_of_int i)"
proof -
  have "is_int32_double (f_of_int i)"
    using assms(4) f_trunc_of_int [OF int32_small [OF assms(4)]] f_eq_of_int [of i i]
    by (auto simp: is_int32_double_def f_le_of_int int32_def)
  then have format: "format_sleep_number (f_of_int i) = dec_int i"
    using int32_small [OF assms(4)] by (simp add: format_sleep_number_def f_of_int_not_nan f_of_int_not_inf f_trunc_of_int)
  obtain b vm' where b: "slp_vm_intern_string sizes True (Some a) (dec_int i) vm = Some (Some b, vm')" "intern_ok vm'"
    "b \<in> strings_of vm'" "text_of (vm_heap vm') b = dec_int i"
    using intern_string_ok [OF assms(1-3), of sizes "dec_int i"] by blast
  obtain s where s: "vm_heap vm' b = Some (OString s)" "s_chars s = dec_int i"
    using b(3,4) by (auto simp: strings_of_def text_of_def string_at_def get_string_def split: option.splits obj.splits)
  have append: "sb_chars (string_builder_append (dec_int i) empty_builder) = dec_int i"
    "\<not> sb_failed (string_builder_append (dec_int i) empty_builder)"
    "sb_warnings (string_builder_append (dec_int i) empty_builder) = []"
    using dec_int_length [OF assms(4)] by (simp_all add: string_builder_append_def empty_builder_def Let_def)
  have "stringify_value (Suc 32) (vm_heap vm) False (num i) empty_builder = Some (string_builder_append (dec_int i) empty_builder)"
    by (simp only: stringify_value.simps) (simp add: dereference_value_def num_def format)
  then have "stringify_value 33 (vm_heap vm) False (num i) empty_builder = Some (string_builder_append (dec_int i) empty_builder)"
    by simp
  then have "slp_vm_stringify sizes True (Some a) (num i) vm = Some (Some b, vm')"
    using append b(1)
    by (simp add: slp_vm_stringify_def num_def stringify_quoted_def slp_vm_abort_warnings_def slp_vm_copy_string_def)
  moreover have "slp_value_as_number (vm_heap vm') (VObj b) = Some (f_of_int i)"
    using s int32_small [OF assms(4)] by (simp add: as_number_string dec_int_no_NUL strtod_dec_int)
  then have "numeric_int_value (vm_heap vm') (VObj b) = Some (word_of_int i)"
    using assms(4) int32_small [OF assms(4)]
    by (simp add: numeric_int_value_def to_int32_def f_of_int_finite f_trunc_of_int int32_def)
  ultimately show ?thesis using b s by (auto simp: kind_string)
qed

theorem int_text_roundtrip_witness:
  "\<exists>b vm'. slp_vm_stringify (\<lambda>_. 32) True (Some 5) (num (- 42)) vm_zero = Some (Some b, vm') \<and>
     numeric_int_value (vm_heap vm') (VObj b) = Some (- 42)"
  using int_text_roundtrip [of vm_zero 5 "- 42" "\<lambda>_. 32"] intern_ok_zero
  by (auto simp: vm_zero_def int32_def)

end
