(* ===== verification/Stringify_Props.thy ===== *)
theory Stringify_Props
  imports Stringify
begin

text \<open>
  The string builder under the description of a value: text and seen containers only grow, a failure is
  final, at most 64 containers are numbered, each once, and there is always room for the closing NUL.
\<close>

subsection \<open>The invariant of the builder\<close>

definition builder_ok :: "string_builder \<Rightarrow> bool" where
  "builder_ok b \<longleftrightarrow> distinct (sb_containers b) \<and> length (sb_containers b) \<le> 64 \<and>
     (sb_chars b = [] \<or> length (sb_chars b) < sb_capacity b)"

definition grows :: "string_builder \<Rightarrow> string_builder \<Rightarrow> bool" where
  "grows b b' \<longleftrightarrow> (\<exists>t. sb_chars b' = sb_chars b @ t \<and> (sb_failed b \<longrightarrow> t = [] \<and> sb_failed b')) \<and>
     (\<exists>cs. sb_containers b' = sb_containers b @ cs) \<and> (\<exists>ws. sb_warnings b' = sb_warnings b @ ws)"

definition step_ok :: "string_builder \<Rightarrow> string_builder \<Rightarrow> bool" where
  "step_ok b b' \<longleftrightarrow> grows b b' \<and> (builder_ok b \<longrightarrow> builder_ok b')"

lemma step_refl [simp]: "step_ok b b"
  by (simp add: step_ok_def grows_def)

lemma step_trans [trans]: "step_ok a b \<Longrightarrow> step_ok b c \<Longrightarrow> step_ok a c"
  unfolding step_ok_def grows_def by fastforce

lemma step_trans': "step_ok b c \<Longrightarrow> step_ok a b \<Longrightarrow> step_ok a c"
  by (rule step_trans)

lemma capacity_enough: "0 < capacity \<Longrightarrow> needed \<le> builder_capacity capacity needed"
  by (induction capacity needed rule: builder_capacity.induct) (subst builder_capacity.simps, auto)

lemma step_append [simp]: "step_ok b (string_builder_append t b)"
proof -
  have "length (sb_chars b) + length t + 1 \<le> builder_capacity (if sb_capacity b < 64 then 64 else sb_capacity b) (length (sb_chars b) + length t + 1)"
    by (rule capacity_enough) simp
  then show ?thesis
    by (auto simp: string_builder_append_def Let_def step_ok_def grows_def builder_ok_def)
qed

lemma step_append_after: "step_ok a b \<Longrightarrow> step_ok a (string_builder_append t b)"
  by (rule step_trans [OF _ step_append])

lemma step_string_object: "append_string_object h s b = Some b' \<Longrightarrow> step_ok b b'"
  by (auto simp: append_string_object_def)

lemma step_join_values:
  assumes put: "\<And>v b b'. put v b = Some b' \<Longrightarrow> step_ok b b'"
  shows "join_values put first vs b = Some b' \<Longrightarrow> step_ok b b'"
proof (induction vs arbitrary: first b)
  case (Cons v vs)
  let ?b = "if first then b else string_builder_append '', '' b"
  from Cons.prems obtain c where c: "put v ?b = Some c" "join_values put False vs c = Some b'"
    by (auto simp: bind_eq_Some_conv)
  have "step_ok b ?b" by simp
  also have "step_ok ?b c" using c(1) by (rule put)
  also have "step_ok c b'" using c(2) by (rule Cons.IH)
  finally show ?case .
qed simp

lemma step_join_entries:
  assumes put: "\<And>v b b'. put_key v b = Some b' \<Longrightarrow> step_ok b b'" "\<And>v b b'. put_value v b = Some b' \<Longrightarrow> step_ok b b'"
  shows "join_entries put_key arrow put_value first es b = Some b' \<Longrightarrow> step_ok b b'"
proof (induction es arbitrary: first b)
  case (Cons e es)
  let ?b = "if first then b else string_builder_append '', '' b"
  from Cons.prems obtain c d where c: "put_key (he_key e) ?b = Some c"
    "put_value (he_value e) (string_builder_append arrow c) = Some d" "join_entries put_key arrow put_value False es d = Some b'"
    by (auto simp: bind_eq_Some_conv)
  have "step_ok b ?b" by simp
  also have "step_ok ?b c" using c(1) by (rule put)
  also have "step_ok c (string_builder_append arrow c)" by simp
  also have "step_ok (string_builder_append arrow c) d" using c(2) by (rule put)
  also have "step_ok d b'" using c(3) by (rule Cons.IH)
  finally show ?case .
qed simp

text \<open>A container that is entered is new, and there was room for it.\<close>

lemma seen_reference_None: "seen_reference sign a b = None \<Longrightarrow> a \<notin> set (sb_containers b)"
  by (auto simp: seen_reference_def find_None_iff in_set_conv_nth)

lemma step_enter: "case enter_container sign a b of Inl b' \<Rightarrow> step_ok b b' | Inr b' \<Rightarrow> step_ok b b'"
proof -
  have "step_ok b (b\<lparr>sb_containers := sb_containers b @ [a]\<rparr>)"
    if "seen_reference sign a b = None" "length (sb_containers b) < 64"
    using that seen_reference_None [OF that(1)] by (auto simp: step_ok_def grows_def builder_ok_def)
  then show ?thesis
    by (auto simp: enter_container_def intro: step_append_after split: option.splits)
qed

lemma step_closure: "stringify_closure h c b = Some b' \<Longrightarrow> step_ok b b'"
  by (auto simp: stringify_closure_def bind_eq_Some_conv Let_def split: option.splits if_splits
      intro!: step_append_after dest!: step_string_object intro: step_trans [OF step_append])

lemma step_fail: "step_ok b (b\<lparr>sb_failed := True, sb_warnings := sb_warnings b @ ws\<rparr>)"
  by (auto simp: step_ok_def grows_def builder_ok_def)

lemma step_stringify: "stringify_value levels h quote v b = Some b' \<Longrightarrow> step_ok b b'"
proof (induction levels arbitrary: quote v b b')
  case 0
  then show ?case by (auto simp: bind_eq_Some_conv)
next
  case (Suc levels)
  note IH = Suc.IH
  have joined: "join_values (stringify_value levels h q) first vs b = Some b' \<Longrightarrow> step_ok b b'" for q first vs b b'
    by (erule step_join_values [rotated]) (rule IH)
  have paired: "join_entries (stringify_value levels h q) t (stringify_value levels h q') first es b = Some b' \<Longrightarrow> step_ok b b'"
    for q t q' first es b b'
    by (erule step_join_entries [rotated 2]) (rule IH, assumption)+
  obtain w where w: "dereference_value h v = Some w" using Suc.prems by (auto simp: bind_eq_Some_conv)
  show ?case
  proof (cases w)
    case (VObj a)
    then obtain ob where ob: "h a = Some ob" using Suc.prems w by (auto split: option.splits)
    note eq = Suc.prems [unfolded stringify_value.simps w bind.bind_lunit VObj slp_value.case ob option.case]
    show ?thesis
    proof (cases ob)
      case (OString x1)
      then show ?thesis using eq by (auto simp: Let_def intro!: step_append_after)
    next
      case (OClass c)
      then show ?thesis using eq
        by (auto simp: Let_def intro: step_trans [OF step_append] dest!: step_string_object split: option.splits)
    next
      case (OJava j)
      then show ?thesis using eq
        by (auto simp: Let_def bind_eq_Some_conv intro: step_trans [OF step_append] step_append_after
            dest!: step_string_object joined paired IH split: option.splits if_splits)
    next
      case (OArray arr)
      show ?thesis using eq step_enter [where sign = "CHR ''@''" and a = a and b = b] unfolding OArray obj.case
        by (auto simp: bind_eq_Some_conv step_fail dest!: joined intro: step_trans step_append_after split: sum.splits if_splits)
    next
      case (OHash r)
      show ?thesis using eq step_enter [where sign = "CHR ''%''" and a = a and b = b] unfolding OHash obj.case
        by (auto simp: bind_eq_Some_conv dest!: paired intro: step_trans step_append_after split: sum.splits)
    next
      case (OClosure c)
      then show ?thesis using eq step_closure by simp
    next
      case (ONative n)
      then show ?thesis using eq
        by (auto simp: Let_def intro: step_trans [OF step_append] dest!: step_string_object split: option.splits)
    next
      case (OKeyValue k)
      then show ?thesis using eq by (auto simp: bind_eq_Some_conv dest!: IH intro: step_trans [OF step_append_after])
    next
      case (OContinuation c)
      then show ?thesis using eq by (auto dest: IH split: option.splits)
    qed (use eq IH in \<open>auto simp: Let_def intro!: step_append_after\<close>)
  qed (use Suc.prems w in auto)
qed

subsection \<open>Properties\<close>

text \<open>C26: describing a value only appends: the text, the numbered containers and the warnings of the builder are
  extended and nothing of them is changed; a failed builder gets no more text and stays failed; no container
  is numbered twice, at most 64 are numbered, and the buffer always has room for the closing NUL.\<close>

theorem stringify_appends:
  assumes "stringify_value levels h quote v b = Some b'"
  shows "grows b b' \<and> (builder_ok b \<longrightarrow> builder_ok b')"
  using step_stringify [OF assms] by (simp add: step_ok_def)

theorem stringify_appends_witness:
  "\<exists>b'. stringify_value (Suc 32) (Map.empty) False (VBool True) empty_builder = Some b' \<and> sb_chars b' = ''true'' \<and> builder_ok b'"
proof -
  have e: "stringify_value (Suc 32) Map.empty False (VBool True) empty_builder = Some (string_builder_append ''true'' empty_builder)"
    by (simp only: stringify_value.simps) (simp add: dereference_value_def)
  show ?thesis using e stringify_appends [OF e]
    by (auto simp: builder_ok_def empty_builder_def string_builder_append_def Let_def)
qed

text \<open>The text of a sublist whose parent array has changed is refused: no string is made, the warning about the
  unsafe modification is raised and the script is asked to stop.\<close>

theorem stringify_unsafe_sublist:
  assumes "vm_heap vm a = Some (OArray arr)" "slp_obj_array_view_is_valid (vm_heap vm) (Some a) = Some False"
  shows "slp_vm_stringify sizes table_allocated p (VObj a) vm =
    Some (None, vm\<lparr>vm_warnings := vm_warnings vm @ [unsafe_sublist_warning], vm_abort_requested := True\<rparr>)"
proof -
  have "stringify_value (Suc 32) (vm_heap vm) False (VObj a) empty_builder =
    Some (empty_builder\<lparr>sb_failed := True, sb_warnings := [unsafe_sublist_warning]\<rparr>)"
    using assms by (simp only: stringify_value.simps) (simp add: dereference_value_def empty_builder_def)
  then have "stringify_value 33 (vm_heap vm) False (VObj a) empty_builder =
    Some (empty_builder\<lparr>sb_failed := True, sb_warnings := [unsafe_sublist_warning]\<rparr>)"
    by simp
  then show ?thesis using assms(1)
    by (simp add: slp_vm_stringify_def stringify_quoted_def slp_vm_abort_warnings_def)
qed

definition stale_view :: vm where
  "stale_view = vm_zero\<lparr>vm_heap := [1 \<mapsto> OArray \<lparr>ar_elements = [VNull], ar_count = 1, ar_version = 3, ar_view_source = None,
       ar_view_offset = 0, ar_view_source_version = 0, ar_view_invalid = False, ar_read_only = False\<rparr>,
     2 \<mapsto> OArray \<lparr>ar_elements = [VNull], ar_count = 1, ar_version = 0, ar_view_source = Some 1,
       ar_view_offset = 0, ar_view_source_version = 2, ar_view_invalid = False, ar_read_only = False\<rparr>]\<rparr>"

theorem stringify_unsafe_sublist_witness:
  "\<exists>vm'. slp_vm_stringify (\<lambda>_. 32) True (Some 5) (VObj 2) stale_view = Some (None, vm') \<and> vm_abort_requested vm'"
  using stringify_unsafe_sublist [where vm = stale_view and a = 2 and sizes = "\<lambda>_. 32" and table_allocated = True and p = "Some 5"]
  by (simp add: stale_view_def slp_obj_array_view_is_valid_def get_array_def)

end
