(* ===== verification/VM_Collections.thy ===== *)
theory VM_Collections
  imports VM_Objects
begin

text \<open>
  Taint, closures and the hash accesses of scripts (\<^verbatim>\<open>src/slp_vm.c\<close>). A key is made canonical before it is
  looked up: the interned text of the value. Ordered hashes ask a closure of the script for the value of a
  missing key and for the removal of the eldest entry. \<open>call\<close> is the interpreter's \<open>slp_vm_call\<close>: with the
  number of arguments, it takes the callable, a message and the arguments from the stack and tells whether
  the call succeeded; then the result is on the stack.
\<close>

subsection \<open>Taint\<close>

text \<open>
  The recursion of \<open>slp_vm_taint_value\<close> and its two loops, over the elements of an array and over the
  entries of a table, as one recursion over tasks.
\<close>

datatype taint_task = Taint_value slp_value | Taint_elements addr nat | Taint_entries addr nat

definition set_element :: "addr \<Rightarrow> nat \<Rightarrow> slp_value \<Rightarrow> vm \<Rightarrow> vm option" where
  "set_element a i v vm =
     do { arr \<leftarrow> get_array (vm_heap vm) a;
          Some (vm\<lparr>vm_heap := (vm_heap vm)(a \<mapsto> OArray (arr\<lparr>ar_elements := (ar_elements arr)[i := v]\<rparr>))\<rparr>) }"

definition set_entry_value :: "addr \<Rightarrow> nat \<Rightarrow> slp_value \<Rightarrow> vm \<Rightarrow> vm option" where
  "set_entry_value a i v vm =
     do { r \<leftarrow> get_hash (vm_heap vm) a;
          Some (vm\<lparr>vm_heap := (vm_heap vm)(a \<mapsto>
            OHash (r\<lparr>ha_entries := (ha_entries r)[i := (ha_entries r ! i)\<lparr>he_value := v\<rparr>]\<rparr>))\<rparr>) }"

definition wrap_taint :: "struct_sizes \<Rightarrow> heap_allocator \<Rightarrow> slp_value \<Rightarrow> vm \<Rightarrow> (slp_value \<times> vm) option" where
  "wrap_taint sizes alloc v vm =
     do { (p, vm) \<leftarrow> new_tracked sizes (slp_obj_tainted_new (alloc (vm_heap vm)) v) vm; Some (ptr_value p, vm) }"

text \<open>The container whose contents are tainted in place of the value itself.\<close>

definition taint_container :: "obj \<Rightarrow> addr \<Rightarrow> taint_task option" where
  "taint_container ob a =
     (case ob of
        OArray _ \<Rightarrow> Some (Taint_elements a 0)
      | OHash _ \<Rightarrow> Some (Taint_entries a 0)
      | OJava j \<Rightarrow> (case jo_list j of
                      Some l \<Rightarrow> Some (Taint_elements l 0)
                    | None \<Rightarrow> (case jo_map j of Some m \<Rightarrow> Some (Taint_entries m 0) | None \<Rightarrow> None))
      | _ \<Rightarrow> None)"

partial_function (option) run_taint :: "struct_sizes \<Rightarrow> heap_allocator \<Rightarrow> taint_task \<Rightarrow> vm \<Rightarrow> (slp_value \<times> vm) option" where
  [code]: "run_taint sizes alloc task vm =
     (case task of
        Taint_value v \<Rightarrow>
          do { tainted \<leftarrow> slp_value_is_tainted (vm_heap vm) v;
               if tainted then Some (v, vm)
               else (case v of
                       VObj a \<Rightarrow>
                         do { ob \<leftarrow> vm_heap vm a;
                              (case taint_container ob a of
                                 Some t \<Rightarrow> Option.bind (run_taint sizes alloc t vm) (\<lambda>(_, vm). Some (v, vm))
                               | None \<Rightarrow> wrap_taint sizes alloc v vm) }
                     | _ \<Rightarrow> wrap_taint sizes alloc v vm) }
      | Taint_elements a i \<Rightarrow>
          do { arr \<leftarrow> get_array (vm_heap vm) a;
               if ar_count arr \<le> int i then Some (VNull, vm)
               else if length (ar_elements arr) \<le> i then None
               else Option.bind (run_taint sizes alloc (Taint_value (ar_elements arr ! i)) vm) (\<lambda>(v, vm).
                      do { vm \<leftarrow> set_element a i v vm; run_taint sizes alloc (Taint_elements a (Suc i)) vm }) }
      | Taint_entries a i \<Rightarrow>
          do { r \<leftarrow> get_hash (vm_heap vm) a;
               if length (ha_entries r) \<le> i then Some (VNull, vm)
               else if he_key (ha_entries r ! i) = VNull \<or> he_value (ha_entries r ! i) = VNull
               then run_taint sizes alloc (Taint_entries a (Suc i)) vm
               else Option.bind (run_taint sizes alloc (Taint_value (he_value (ha_entries r ! i))) vm) (\<lambda>(v, vm).
                      do { vm \<leftarrow> set_entry_value a i v vm; run_taint sizes alloc (Taint_entries a (Suc i)) vm }) })"

definition slp_vm_taint_value :: "struct_sizes \<Rightarrow> heap_allocator \<Rightarrow> slp_value \<Rightarrow> vm \<Rightarrow> (slp_value \<times> vm) option" where
  "slp_vm_taint_value sizes alloc v vm = run_taint sizes alloc (Taint_value v) vm"

definition propagate_taint_unary :: "struct_sizes \<Rightarrow> heap_allocator \<Rightarrow> slp_value \<Rightarrow> slp_value \<Rightarrow> vm \<Rightarrow> (slp_value \<times> vm) option" where
  "propagate_taint_unary sizes alloc result operand vm =
     do { t \<leftarrow> slp_value_is_tainted (vm_heap vm) operand;
          if t then slp_vm_taint_value sizes alloc result vm else Some (result, vm) }"

definition propagate_taint_binary :: "struct_sizes \<Rightarrow> heap_allocator \<Rightarrow> slp_value \<Rightarrow> slp_value \<Rightarrow> slp_value \<Rightarrow> vm \<Rightarrow>
    (slp_value \<times> vm) option" where
  "propagate_taint_binary sizes alloc result left right vm =
     do { l \<leftarrow> slp_value_is_tainted (vm_heap vm) left;
          r \<leftarrow> (if l then Some True else slp_value_is_tainted (vm_heap vm) right);
          if r then slp_vm_taint_value sizes alloc result vm else Some (result, vm) }"

subsection \<open>Closures\<close>

definition get_closure :: "heap \<Rightarrow> addr \<Rightarrow> obj_closure option" where
  "get_closure h a = (case h a of Some (OClosure c) \<Rightarrow> Some c | _ \<Rightarrow> None)"

definition update_closure :: "addr \<Rightarrow> (obj_closure \<Rightarrow> obj_closure) \<Rightarrow> vm \<Rightarrow> vm option" where
  "update_closure a f vm = do { c \<leftarrow> get_closure (vm_heap vm) a; Some (vm\<lparr>vm_heap := (vm_heap vm)(a \<mapsto> OClosure (f c))\<rparr>) }"

definition store_hash :: "addr \<Rightarrow> obj_hash \<Rightarrow> vm \<Rightarrow> vm" where
  "store_hash a r vm = vm\<lparr>vm_heap := (vm_heap vm)(a \<mapsto> OHash r)\<rparr>"

definition hash_set_at :: "addr \<Rightarrow> slp_value \<Rightarrow> slp_value \<Rightarrow> vm \<Rightarrow> (bool \<times> vm) option" where
  "hash_set_at a key v vm =
     do { r \<leftarrow> get_hash (vm_heap vm) a;
          (ok, r) \<leftarrow> slp_obj_hash_set (vm_heap vm) r key v;
          Some (ok, store_hash a r vm) }"

definition ensure_closure_scope :: "struct_sizes \<Rightarrow> heap_allocator \<Rightarrow> addr \<Rightarrow> vm \<Rightarrow> (bool \<times> vm) option" where
  "ensure_closure_scope sizes alloc a vm =
     do { c \<leftarrow> get_closure (vm_heap vm) a;
          if co_scope c \<noteq> None then Some (True, vm)
          else do { (scope, vm) \<leftarrow> slp_vm_new_hash sizes alloc vm;
                    vm \<leftarrow> update_closure a (\<lambda>c. c\<lparr>co_scope := scope\<rparr>) vm;
                    (case scope of
                       None \<Rightarrow> Some (False, vm)
                     | Some s \<Rightarrow>
                         do { (this_name, vm) \<leftarrow> slp_vm_copy_string sizes True (alloc (vm_heap vm)) ''$this'' vm;
                              (case this_name of
                                 None \<Rightarrow> Some (False, vm)
                               | Some n \<Rightarrow> hash_set_at s (VObj n) (VObj a) vm) }) } }"

definition new_closure_object :: "struct_sizes \<Rightarrow> heap_allocator \<Rightarrow> addr \<Rightarrow> vm \<Rightarrow> (ptr \<times> vm) option" where
  "new_closure_object sizes alloc fn vm =
     do { (p, h) \<leftarrow> slp_obj_closure_new (alloc (vm_heap vm)) fn (vm_heap vm);
          (case p of
             None \<Rightarrow> Some (None, vm\<lparr>vm_heap := h\<rparr>)
           | Some a \<Rightarrow>
               do { vm \<leftarrow> track_object sizes a (vm\<lparr>vm_heap := h\<rparr>);
                    let vm = vm\<lparr>vm_next_closure_identity := vm_next_closure_identity vm + 1\<rparr>;
                    vm \<leftarrow> update_closure a (\<lambda>c. c\<lparr>co_identity := vm_next_closure_identity vm\<rparr>) vm;
                    Some (Some a, vm) }) }"

definition slp_vm_new_closure :: "struct_sizes \<Rightarrow> heap_allocator \<Rightarrow> ptr \<Rightarrow> vm \<Rightarrow> (ptr \<times> vm) option" where
  "slp_vm_new_closure sizes alloc function_object vm =
     (case function_object of None \<Rightarrow> Some (None, vm) | Some fn \<Rightarrow> new_closure_object sizes alloc fn vm)"

definition slp_vm_clone_closure :: "struct_sizes \<Rightarrow> heap_allocator \<Rightarrow> ptr \<Rightarrow> vm \<Rightarrow> (ptr \<times> vm) option" where
  "slp_vm_clone_closure sizes alloc source vm =
     (case source of
        None \<Rightarrow> Some (None, vm)
      | Some src \<Rightarrow>
          do { s \<leftarrow> get_closure (vm_heap vm) src;
               fn \<leftarrow> co_function s;
               (p, vm) \<leftarrow> new_closure_object sizes alloc fn vm;
               (case p of
                  None \<Rightarrow> Some (None, vm)
                | Some a \<Rightarrow>
                    do { vm \<leftarrow> update_closure a (\<lambda>c. c\<lparr>co_is_inline := co_is_inline s, co_upvalues := co_upvalues s\<rparr>) vm;
                         (ok, vm) \<leftarrow> ensure_closure_scope sizes alloc a vm;
                         Some (if ok then Some a else None, vm) }) })"

subsection \<open>Hashes with policies\<close>

definition canonical_hash_key :: "struct_sizes \<Rightarrow> heap_allocator \<Rightarrow> slp_value \<Rightarrow> vm \<Rightarrow> (ptr \<times> vm) option" where
  "canonical_hash_key sizes alloc key vm =
     do { key \<leftarrow> skip_cells (vm_heap vm) key;
          (case key of
             VBool b \<Rightarrow> slp_vm_copy_cstr sizes alloc (if b then ''1'' else '''') vm
           | _ \<Rightarrow> slp_vm_stringify sizes True (alloc (vm_heap vm)) key vm) }"

definition hash_delete_at :: "addr \<Rightarrow> slp_value \<Rightarrow> vm \<Rightarrow> (bool \<times> vm) option" where
  "hash_delete_at a key vm =
     do { r \<leftarrow> get_hash (vm_heap vm) a;
          (found, r) \<leftarrow> slp_obj_hash_delete (vm_heap vm) r key;
          Some (found, store_hash a r vm) }"

definition hash_get_at :: "addr \<Rightarrow> slp_value \<Rightarrow> vm \<Rightarrow> (slp_value \<times> vm) option" where
  "hash_get_at a key vm =
     do { r \<leftarrow> get_hash (vm_heap vm) a;
          (v, r) \<leftarrow> slp_obj_hash_get (vm_heap vm) r key;
          Some (v, store_hash a r vm) }"

definition push_all :: "slp_value list \<Rightarrow> vm \<Rightarrow> vm" where
  "push_all vs vm = foldl (\<lambda>vm v. slp_vm_push v vm) vm vs"

text \<open>The rest of an insertion once the removal policy has answered.\<close>

definition after_removal :: "addr \<Rightarrow> int \<Rightarrow> slp_value \<Rightarrow> slp_value \<Rightarrow> slp_value \<Rightarrow> vm \<Rightarrow> (bool \<times> vm) option" where
  "after_removal a eldest eldest_key key v vm =
     (let (answer, vm) = slp_vm_pop vm
      in do { falsy \<leftarrow> slp_value_is_falsy (vm_heap vm) answer;
              if falsy then hash_set_at a key v vm
              else if eldest < 0 then Some (True, vm)
              else do { (_, vm) \<leftarrow> hash_delete_at a eldest_key vm; hash_set_at a key v vm } })"

definition hash_set_canonical :: "vm_call \<Rightarrow> struct_sizes \<Rightarrow> heap_allocator \<Rightarrow> addr \<Rightarrow> slp_value \<Rightarrow> slp_value \<Rightarrow> vm \<Rightarrow>
    (bool \<times> vm) option" where
  "hash_set_canonical call sizes alloc a key v vm =
     do { r \<leftarrow> get_hash (vm_heap vm) a;
          exists \<leftarrow> slp_obj_hash_contains (vm_heap vm) r key;
          (case ha_removal_policy r of
             None \<Rightarrow> hash_set_at a key v vm
           | Some policy \<Rightarrow>
               if exists \<or> ha_order_mode r = 0 then hash_set_at a key v vm
               else do {
                 eldest \<leftarrow> slp_obj_hash_ordered_index (vm_heap vm) r 0;
                 let (eldest_key, eldest_value) =
                       (if 0 \<le> eldest then (he_key (ha_entries r ! nat eldest), he_value (ha_entries r ! nat eldest))
                        else (key, VNull));
                 (message, vm) \<leftarrow> slp_vm_copy_cstr sizes alloc ''remove'' vm;
                 (case message of
                    None \<Rightarrow> Some (False, vm)
                  | Some m \<Rightarrow>
                      do { (ok, vm) \<leftarrow> call 3 (push_all [VObj policy, VObj m, VObj a, eldest_key, eldest_value] vm);
                           if ok then after_removal a eldest eldest_key key v vm else Some (False, vm) }) }) }"

text \<open>The miss policy is asked for a value, which is stored under the canonical key.\<close>

definition ask_miss_policy :: "vm_call \<Rightarrow> struct_sizes \<Rightarrow> heap_allocator \<Rightarrow> addr \<Rightarrow> addr \<Rightarrow> addr \<Rightarrow> slp_value \<Rightarrow> vm \<Rightarrow>
    (slp_value \<times> vm) option" where
  "ask_miss_policy call sizes alloc policy a c key vm =
     do { (message, vm) \<leftarrow> slp_vm_copy_cstr sizes alloc ''miss'' vm;
          (case message of
             None \<Rightarrow> Some (VNull, snd (slp_vm_pop vm))
           | Some m \<Rightarrow>
               do { (ok, vm) \<leftarrow> call 2 (push_all [VObj policy, VObj m, VObj a, key] vm);
                    if \<not> ok then Some (VNull, snd (slp_vm_pop vm))
                    else let (v, vm) = slp_vm_pop vm
                         in do { (_, vm) \<leftarrow> hash_set_canonical call sizes alloc a (VObj c) v vm;
                                 Some (v, snd (slp_vm_pop vm)) } }) }"

definition slp_vm_hash_get :: "vm_call \<Rightarrow> struct_sizes \<Rightarrow> heap_allocator \<Rightarrow> ptr \<Rightarrow> slp_value \<Rightarrow> vm \<Rightarrow> (slp_value \<times> vm) option" where
  "slp_vm_hash_get call sizes alloc hash key vm =
     (case hash of
        None \<Rightarrow> Some (VNull, vm)
      | Some a \<Rightarrow>
          do { (canonical, vm) \<leftarrow> canonical_hash_key sizes alloc key vm;
               (case canonical of
                  None \<Rightarrow> Some (VNull, vm)
                | Some c \<Rightarrow>
                    do { (v, vm) \<leftarrow> hash_get_at a (VObj c) (slp_vm_push (VObj c) vm);
                         r \<leftarrow> get_hash (vm_heap vm) a;
                         (case ha_miss_policy r of
                            None \<Rightarrow> Some (v, snd (slp_vm_pop vm))
                          | Some policy \<Rightarrow>
                              if v \<noteq> VNull then Some (v, snd (slp_vm_pop vm))
                              else ask_miss_policy call sizes alloc policy a c key vm) }) })"

definition slp_vm_hash_contains :: "struct_sizes \<Rightarrow> heap_allocator \<Rightarrow> ptr \<Rightarrow> slp_value \<Rightarrow> vm \<Rightarrow> (bool \<times> vm) option" where
  "slp_vm_hash_contains sizes alloc hash key vm =
     (case hash of
        None \<Rightarrow> Some (False, vm)
      | Some a \<Rightarrow>
          do { (canonical, vm) \<leftarrow> canonical_hash_key sizes alloc key vm;
               (case canonical of
                  None \<Rightarrow> Some (False, vm)
                | Some c \<Rightarrow> do { r \<leftarrow> get_hash (vm_heap vm) a;
                                 found \<leftarrow> slp_obj_hash_contains (vm_heap vm) r (VObj c);
                                 Some (found, vm) }) })"

definition slp_vm_hash_set :: "vm_call \<Rightarrow> struct_sizes \<Rightarrow> heap_allocator \<Rightarrow> ptr \<Rightarrow> slp_value \<Rightarrow> slp_value \<Rightarrow> vm \<Rightarrow> (bool \<times> vm) option" where
  "slp_vm_hash_set call sizes alloc hash key v vm =
     (case hash of
        None \<Rightarrow> Some (False, vm)
      | Some a \<Rightarrow>
          do { (canonical, vm) \<leftarrow> canonical_hash_key sizes alloc key vm;
               (case canonical of
                  None \<Rightarrow> Some (False, vm)
                | Some c \<Rightarrow>
                    do { (ok, vm) \<leftarrow> hash_set_canonical call sizes alloc a (VObj c) v (slp_vm_push (VObj c) vm);
                         Some (ok, snd (slp_vm_pop vm)) }) })"

definition slp_vm_hash_delete :: "struct_sizes \<Rightarrow> heap_allocator \<Rightarrow> ptr \<Rightarrow> slp_value \<Rightarrow> vm \<Rightarrow> (bool \<times> vm) option" where
  "slp_vm_hash_delete sizes alloc hash key vm =
     (case hash of
        None \<Rightarrow> Some (False, vm)
      | Some a \<Rightarrow>
          do { (canonical, vm) \<leftarrow> canonical_hash_key sizes alloc key vm;
               (case canonical of
                  None \<Rightarrow> Some (False, vm)
                | Some c \<Rightarrow> hash_delete_at a (VObj c) vm) })"

subsection \<open>The current frame\<close>

definition set_regex_matches :: "ptr \<Rightarrow> vm \<Rightarrow> vm option" where
  "set_regex_matches matches vm =
     (let vm = vm\<lparr>vm_last_regex_matches := matches\<rparr>
      in if vm_frames vm = [] then Some vm
         else do { c \<leftarrow> cf_closure (last (vm_frames vm)); update_closure c (\<lambda>c. c\<lparr>co_last_regex_matches := matches\<rparr>) vm })"

definition slp_vm_regex_matches :: "vm \<Rightarrow> ptr option" where
  "slp_vm_regex_matches vm =
     (if vm_frames vm = [] then Some (vm_last_regex_matches vm)
      else do { a \<leftarrow> cf_closure (last (vm_frames vm)); c \<leftarrow> get_closure (vm_heap vm) a; Some (co_last_regex_matches c) })"

definition current_local_scope :: "heap \<Rightarrow> call_frame option \<Rightarrow> ptr option" where
  "current_local_scope h frame =
     (case Option.bind frame cf_local_scopes of
        None \<Rightarrow> Some None
      | Some a \<Rightarrow>
          do { arr \<leftarrow> get_array h a;
               if ar_count arr = 0 then Some None
               else if ar_count arr < 0 \<or> int (length (ar_elements arr)) < ar_count arr then None
               else (case ar_elements arr ! nat (ar_count arr - 1) of
                       VObj s \<Rightarrow> do { ob \<leftarrow> h s; Some (case ob of OHash _ \<Rightarrow> Some s | _ \<Rightarrow> None) }
                     | _ \<Rightarrow> Some None) })"

end
