(* ===== verification/VM_Props.thy ===== *)
theory VM_Props
  imports VM_Collections Interned
begin

text \<open>
  Properties of the machine's objects: the class objects are canonical, and tainting a container that
  contains itself does not come back.
\<close>

subsection \<open>Classes\<close>

definition resolved_class :: "string \<Rightarrow> string" where
  "resolved_class name =
     (case find_known_class (c_text name) of Some k \<Rightarrow> kc_qualified_name k | None \<Rightarrow> c_text name)"

text \<open>Every object of the list is live and every class of it has a name that is a string without a NUL.\<close>

definition classes_ok :: "vm \<Rightarrow> bool" where
  "classes_ok vm \<longleftrightarrow> (\<forall>a\<in>set (vm_objects vm). \<forall>c. vm_heap vm a = Some (OClass c) \<longrightarrow>
     (\<forall>s. cl_name c = Some s \<longrightarrow> get_string (vm_heap vm) s \<noteq> None))"

text \<open>The allocator gives a free address in a heap and in one with an object more.\<close>

definition fresh_twice :: "heap_allocator \<Rightarrow> heap \<Rightarrow> bool" where
  "fresh_twice alloc h0 \<longleftrightarrow> (\<forall>h p. dom h \<subseteq> insert p (dom h0) \<longrightarrow> (\<exists>a. alloc h = Some a \<and> h a = None))"

lemma fresh_twiceD:
  "fresh_twice alloc h0 \<Longrightarrow> dom h \<subseteq> insert p (dom h0) \<Longrightarrow> \<exists>a. alloc h = Some a \<and> h a = None"
  unfolding fresh_twice_def by blast

lemma known_names: "k \<in> set known_classes \<Longrightarrow> NUL \<notin> set (kc_qualified_name k)"
  by (auto simp: known_classes_def known_def)

lemma c_text_id: "NUL \<notin> set s \<Longrightarrow> c_text s = s"
  by (induction s) (auto simp: c_text_def)

lemma c_text_no_NUL: "NUL \<notin> set (c_text s)"
  unfolding c_text_def using set_takeWhileD by fastforce

lemma resolved_no_NUL: "c_text (resolved_class name) = resolved_class name"
proof (rule c_text_id)
  show "NUL \<notin> set (resolved_class name)"
    using known_names c_text_no_NUL
    by (auto simp: resolved_class_def find_known_class_def find_Some_iff split: option.splits dest: nth_mem)
qed

lemma find_class_cases:
  assumes "\<forall>a\<in>set objects. \<exists>ob. h a = Some ob"
    and "\<forall>a\<in>set objects. \<forall>c. h a = Some (OClass c) \<longrightarrow> (\<forall>s. cl_name c = Some s \<longrightarrow> get_string h s \<noteq> None)"
  shows "\<exists>r. find_class h objects name = Some r \<and> (\<forall>a. r = Some a \<longrightarrow> a \<in> set objects)"
  using assms
proof (induction objects)
  case (Cons a objects)
  then obtain ob where ob: "h a = Some ob" by auto
  from Cons obtain r where r: "find_class h objects name = Some r" "\<forall>a. r = Some a \<longrightarrow> a \<in> set objects" by auto
  show ?case
  proof (cases "\<exists>c s. ob = OClass c \<and> cl_name c = Some s")
    case True
    then obtain c s where c: "ob = OClass c" "cl_name c = Some s" by blast
    then obtain n where "get_string h s = Some n" using Cons.prems(2) ob by (cases "get_string h s") auto
    then show ?thesis using ob c r by auto
  next
    case False
    then show ?thesis using ob r by (auto split: obj.splits option.splits)
  qed
qed simp

lemma new_class_eq:
  "slp_vm_new_class sizes alloc name vm =
     do { existing \<leftarrow> find_class (vm_heap vm) (vm_objects vm) (resolved_class name);
          (case existing of
             Some a \<Rightarrow> Some (Some a, vm)
           | None \<Rightarrow>
               do { (class_name, vm) \<leftarrow> slp_vm_copy_cstr sizes alloc (resolved_class name) vm;
                    if class_name = None then Some (None, vm)
                    else new_tracked sizes (slp_obj_class_new (alloc (vm_heap vm)) class_name
                      (case find_known_class (c_text name) of Some k \<Rightarrow> kc_is_interface k | None \<Rightarrow> False)) vm }) }"
  by (auto simp: slp_vm_new_class_def resolved_class_def Let_def split: option.splits)

lemma new_class_found:
  "find_class (vm_heap vm) (vm_objects vm) (resolved_class name) = Some (Some a) \<Longrightarrow>
   slp_vm_new_class sizes alloc name vm = Some (Some a, vm)"
  by (simp add: new_class_eq)

lemma new_class_ok:
  assumes "intern_ok vm" "vm_interned_capacity vm < 2 ^ 29" "classes_ok vm" "fresh_twice alloc (vm_heap vm)"
  shows "\<exists>a vm'. slp_vm_new_class sizes alloc name vm = Some (Some a, vm') \<and>
    find_class (vm_heap vm') (vm_objects vm') (resolved_class name) = Some (Some a)"
proof -
  have live: "\<forall>a\<in>set (vm_objects vm). \<exists>ob. vm_heap vm a = Some ob" using assms(1) by (auto simp: intern_ok_def)
  obtain r where r: "find_class (vm_heap vm) (vm_objects vm) (resolved_class name) = Some r"
    using find_class_cases [OF live, of "resolved_class name"] assms(3) unfolding classes_ok_def by blast
  show ?thesis
  proof (cases r)
    case (Some a)
    then show ?thesis using r new_class_found by blast
  next
    case None
    obtain p where p: "alloc (vm_heap vm) = Some p" "vm_heap vm p = None"
      using fresh_twiceD [OF assms(4) subset_insertI] by blast
    obtain b vm1 where b: "slp_vm_intern_string sizes True (Some p) (resolved_class name) vm = Some (Some b, vm1)"
      "b \<in> strings_of vm1" "text_of (vm_heap vm1) b = resolved_class name" "dom (vm_heap vm1) \<subseteq> insert p (dom (vm_heap vm))"
      using intern_string_ok [OF assms(1,2) p(2)] by blast
    obtain s where str: "get_string (vm_heap vm1) b = Some s" using b(2) unfolding strings_of_def by blast
    have "text_of (vm_heap vm1) b = s_chars s" unfolding text_of_def string_at_def str by simp
    note s = str trans [OF this [symmetric] b(3)]
    obtain q where q: "alloc (vm_heap vm1) = Some q" "vm_heap vm1 q = None" using fresh_twiceD [OF assms(4) b(4)] by blast
    have bq: "b \<noteq> q" using s(1) q(2) by (auto simp: get_string_def)
    define is_interface where "is_interface = (case find_known_class (c_text name) of Some k \<Rightarrow> kc_is_interface k | None \<Rightarrow> False)"
    define ob where "ob = OClass \<lparr>cl_name = Some b, cl_is_interface = is_interface, cl_interfaces = None, cl_fields = None\<rparr>"
    define vm2 where "vm2 = vm1\<lparr>vm_heap := (vm_heap vm1)(q \<mapsto> ob), vm_objects := q # vm_objects vm1,
      vm_bytes_allocated := vm_bytes_allocated vm1 + slp_gc_object_size sizes ob\<rparr>"
    have copy: "slp_vm_copy_cstr sizes alloc (resolved_class name) vm = Some (Some b, vm1)"
      using p(1) b(1) resolved_no_NUL [of name] by (simp add: slp_vm_copy_cstr_def)
    have build: "new_tracked sizes (slp_obj_class_new (alloc (vm_heap vm1)) (Some b) is_interface) vm1 = Some (Some q, vm2)"
      unfolding vm2_def ob_def using q(1) by (simp add: new_tracked_def slp_obj_class_new_def place_def track_object_def)
    have "slp_vm_new_class sizes alloc name vm = Some (Some q, vm2)"
      unfolding new_class_eq r None is_interface_def [symmetric] bind.bind_lunit option.case copy prod.case using build by simp
    moreover have "get_string (vm_heap vm2) b = Some s" using s(1) bq by (simp add: vm2_def get_string_def)
    then have "find_class (vm_heap vm2) (vm_objects vm2) (resolved_class name) = Some (Some q)"
      using s(2) resolved_no_NUL [of name] by (simp add: vm2_def ob_def)
    ultimately show ?thesis by blast
  qed
qed

subsection \<open>Properties\<close>

text \<open>C27: class objects are canonical: a class is found again under its short name, its qualified name or any
  name that resolves to the same class, and no second object is made, so classes can be compared by identity.\<close>

theorem class_canonical:
  assumes "intern_ok vm" "vm_interned_capacity vm < 2 ^ 29" "classes_ok vm" "fresh_twice alloc (vm_heap vm)"
  shows "\<exists>a vm'. slp_vm_new_class sizes alloc name vm = Some (Some a, vm') \<and>
    (\<forall>name'. resolved_class name' = resolved_class name \<longrightarrow> slp_vm_new_class sizes alloc name' vm' = Some (Some a, vm'))"
proof -
  obtain a vm' where "slp_vm_new_class sizes alloc name vm = Some (Some a, vm')"
    "find_class (vm_heap vm') (vm_objects vm') (resolved_class name) = Some (Some a)"
    using new_class_ok [OF assms] by blast
  then show ?thesis using new_class_found [of vm' _ a] by metis
qed

definition five_or_six :: heap_allocator where
  "five_or_six h = Some (if h 5 = None then 5 else 6)"

theorem class_canonical_witness:
  "\<exists>a vm'. slp_vm_new_class (\<lambda>_. 32) five_or_six ''String'' vm_zero = Some (Some a, vm') \<and>
     slp_vm_new_class (\<lambda>_. 32) five_or_six ''java.lang.String'' vm' = Some (Some a, vm')"
proof -
  have "fresh_twice five_or_six (vm_heap vm_zero)"
    unfolding fresh_twice_def
  proof (intro allI impI)
    fix h :: heap and p assume "dom h \<subseteq> insert p (dom (vm_heap vm_zero))"
    then have "dom h \<subseteq> {p}" by (simp add: vm_zero_def)
    then have "5 \<notin> dom h \<or> 6 \<notin> dom h" by (cases "p = 5") auto
    then have "h 5 = None \<or> h 6 = None" unfolding domIff by simp
    then show "\<exists>a. five_or_six h = Some a \<and> h a = None" by (auto simp: five_or_six_def)
  qed
  moreover have "classes_ok vm_zero" "vm_interned_capacity vm_zero < 2 ^ 29" by (simp_all add: classes_ok_def vm_zero_def)
  moreover have "resolved_class ''java.lang.String'' = resolved_class ''String''" by code_simp
  ultimately show ?thesis
    using class_canonical [of vm_zero five_or_six "\<lambda>_. 32" "''String''"] intern_ok_zero by blast
qed

text \<open>Tainting an array whose first element is the array itself does not come back: the recursion has no check
  for containers it has already entered, so the C stack overflows.\<close>

theorem taint_cycle:
  assumes "vm_heap vm a = Some (OArray arr)" "0 < ar_count arr" "ar_elements arr = VObj a # es"
  shows "slp_vm_taint_value sizes alloc (VObj a) vm = None"
proof -
  have never: "run_taint sizes alloc task vm' = Some r \<Longrightarrow>
    \<not> (vm' = vm \<and> (task = Taint_value (VObj a) \<or> task = Taint_elements a 0))" for task vm' r
  proof (rule run_taint.raw_induct [where P = "\<lambda>s' al' task vm' r. \<not> (vm' = vm \<and> (task = Taint_value (VObj a) \<or> task = Taint_elements a 0))"],
      goal_cases)
    case (1 f s' al' task vm' r)
    have plain: "slp_value_is_tainted (vm_heap vm) (VObj a) = Some False"
      using assms(1) by (simp add: slp_value_is_tainted_def)
    show ?case
    proof (rule notI, elim conjE disjE)
      assume "vm' = vm" "task = Taint_value (VObj a)"
      then obtain x where "f s' al' (Taint_elements a 0) vm = Some x"
        using 1(3) assms(1) plain by (auto simp: taint_container_def bind_eq_Some_conv)
      then show False using 1(2) by blast
    next
      assume "vm' = vm" "task = Taint_elements a 0"
      then obtain x where "f s' al' (Taint_value (VObj a)) vm = Some x"
        using 1(3) assms by (auto simp: get_array_def bind_eq_Some_conv)
      then show False using 1(2) by blast
    qed
  qed
  then show ?thesis unfolding slp_vm_taint_value_def by (cases "run_taint sizes alloc (Taint_value (VObj a)) vm") auto
qed

definition self_array :: vm where
  "self_array = vm_zero\<lparr>vm_heap := [1 \<mapsto> OArray \<lparr>ar_elements = [VObj 1], ar_count = 1, ar_version = 1, ar_view_source = None,
       ar_view_offset = 0, ar_view_source_version = 0, ar_view_invalid = False, ar_read_only = False\<rparr>]\<rparr>"

theorem taint_cycle_witness: "slp_vm_taint_value (\<lambda>_. 32) (\<lambda>_. Some 5) (VObj 1) self_array = None"
  using taint_cycle [of self_array 1 _ "[]"] by (simp add: self_array_def)

end
