(* ===== verification/Regex_Text.thy ===== *)
theory Regex_Text
  imports Prelude
begin

text \<open>
  The translation of a Sleep regular expression, written in the style of Java, to the extended syntax of
  POSIX (\<open>translate_sleep_regex\<close> of \<^verbatim>\<open>src/slp_vm.c\<close>). The pattern is a C string, the class depth stays
  below its length, and the buffer has sixteen characters for each character of the pattern and a NUL.
\<close>

abbreviation backslash :: char where "backslash \<equiv> CHR 0x5C"

text \<open>The replacement of a class escape, inside and outside a bracket expression.\<close>

definition escape_replacement :: "bool \<Rightarrow> char \<Rightarrow> string option" where
  "escape_replacement in_class escaped =
     (if escaped = CHR ''s'' then Some (if in_class then ''[:space:]'' else ''[[:space:]]'')
      else if escaped = CHR ''S'' then (if in_class then None else Some ''[^[:space:]]'')
      else if escaped = CHR ''d'' then Some (if in_class then ''[:digit:]'' else ''[[:digit:]]'')
      else if escaped = CHR ''D'' then (if in_class then None else Some ''[^[:digit:]]'')
      else if escaped = CHR ''w'' then Some (if in_class then ''[:alnum:]_'' else ''[[:alnum:]_]'')
      else if escaped = CHR ''W'' then (if in_class then None else Some ''[^[:alnum:]_]'')
      else None)"

text \<open>What an escape writes, and whether a literal hyphen waits for the end of the class afterwards.\<close>

definition translate_escape :: "nat \<Rightarrow> bool \<Rightarrow> char \<Rightarrow> string \<times> bool" where
  "translate_escape depth deferred escaped =
     (case escape_replacement (0 < depth) escaped of
        Some replacement \<Rightarrow> (replacement, deferred)
      | None \<Rightarrow>
          if 0 < depth \<and> escaped = CHR '']'' then ([], deferred)
          else if 0 < depth \<and> escaped = CHR ''-'' then ([], True)
          else if 0 < depth \<and> escaped \<in> set ''[.:|`^{}'' then ([escaped], deferred)
          else ([backslash, escaped], deferred))"

text \<open>The look ahead from an opening bracket: an escaped \<open>]\<close> before the brackets are balanced.\<close>

fun has_literal_closing_bracket :: "nat \<Rightarrow> string \<Rightarrow> bool" where
  "has_literal_closing_bracket 0 cs = False"
| "has_literal_closing_bracket depth [] = False"
| "has_literal_closing_bracket (Suc depth) (c # cs) =
     (if c = backslash \<and> cs \<noteq> []
      then hd cs = CHR '']'' \<or> has_literal_closing_bracket (Suc depth) (tl cs)
      else if c = CHR ''['' then has_literal_closing_bracket (Suc (Suc depth)) cs
      else if c = CHR '']'' then has_literal_closing_bracket depth cs
      else has_literal_closing_bracket (Suc depth) cs)"

text \<open>A quantifier directly behind a quantifier is a reluctant or possessive modifier.\<close>

definition is_modifier :: "char option \<Rightarrow> nat \<Rightarrow> char \<Rightarrow> bool" where
  "is_modifier previous depth current \<longleftrightarrow>
     depth = 0 \<and> current \<in> set ''+?'' \<and> (case previous of None \<Rightarrow> False | Some p \<Rightarrow> p \<in> set ''+*?'')"

text \<open>The main loop. \<open>previous\<close> is the character of the pattern before the rest \<open>c # cs\<close>, if there is one.\<close>

fun translate :: "char option \<Rightarrow> nat \<Rightarrow> bool \<Rightarrow> string \<Rightarrow> string" where
  "translate previous depth deferred [] = []"
| "translate previous depth deferred (c # cs) =
     (if c = backslash \<and> cs \<noteq> [] then
        let (out, deferred) = translate_escape depth deferred (hd cs)
        in out @ translate (Some (hd cs)) depth deferred (tl cs)
      else if c = CHR ''['' then
        if depth = 0 then
          ''['' @ (if has_literal_closing_bracket 1 cs then '']'' else '''') @ translate (Some c) 1 False cs
        else translate (Some c) (Suc depth) deferred cs
      else if c = CHR '']'' \<and> 0 < depth then
        if depth = 1 then (if deferred then ''-]'' else '']'') @ translate (Some c) 0 False cs
        else translate (Some c) (depth - 1) deferred cs
      else if is_modifier previous depth c then translate (Some c) depth deferred cs
      else c # translate (Some c) depth deferred cs)"

definition translate_sleep_regex :: "string \<Rightarrow> string" where
  "translate_sleep_regex pattern =
     (if take 4 pattern = ''(?s)'' then translate (Some CHR '')'') 0 False (drop 4 pattern)
      else translate None 0 False pattern)"

subsection \<open>Facts\<close>

lemma escape_length: "length (fst (translate_escape depth deferred c)) \<le> 13"
  by (auto simp: translate_escape_def escape_replacement_def)

lemma translate_length: "length (translate previous depth deferred cs) \<le> 16 * length cs"
proof (induction previous depth deferred cs rule: translate.induct)
  case (2 previous depth deferred c cs)
  show ?case
  proof (cases "c = backslash \<and> cs \<noteq> []")
    case True
    obtain out deferred' where e: "translate_escape depth deferred (hd cs) = (out, deferred')" by fastforce
    have "length out \<le> 13" using escape_length [of depth deferred "hd cs"] e by simp
    moreover have "length (translate (Some (hd cs)) depth deferred' (tl cs)) \<le> 16 * length (tl cs)"
      using 2(1) True e by simp
    ultimately show ?thesis using True e by simp
  next
    case False
    note rest = False 2(2-7) [OF False]
    consider "c = CHR ''[''" "depth = 0" | "c = CHR ''[''" "depth \<noteq> 0"
      | "c = CHR '']''" "depth = 1" | "c = CHR '']''" "1 < depth" | "c \<noteq> CHR ''[''" "\<not> (c = CHR '']'' \<and> 0 < depth)"
      by (cases "c = CHR ''[''"; cases "c = CHR '']''"; cases depth; fastforce)
    then show ?thesis
    proof cases
      case 5
      have "translate previous depth deferred (c # cs) =
        (if is_modifier previous depth c then translate (Some c) depth deferred cs else c # translate (Some c) depth deferred cs)"
        by (simp only: translate.simps if_not_P [OF False] if_not_P [OF 5(1)] if_not_P [OF 5(2)])
      then show ?thesis using rest(6,7) 5 by (cases "is_modifier previous depth c") simp_all
    qed (use rest in \<open>simp_all del: translate.simps(1)\<close>)
  qed
qed simp

subsection \<open>Properties\<close>

text \<open>C34: a translated pattern and its NUL fit the buffer that is allocated for it.\<close>

theorem regex_fits_buffer: "length (translate_sleep_regex pattern) + 1 \<le> length pattern * 16 + 1"
proof (cases "take 4 pattern = ''(?s)''")
  case True
  then show ?thesis using translate_length [of "Some CHR '')''" 0 False "drop 4 pattern"] by (simp add: translate_sleep_regex_def)
next
  case False
  then show ?thesis using translate_length [of None 0 False pattern] by (simp add: translate_sleep_regex_def)
qed

text \<open>A quantifier behind an escaped quantifier character is dropped as if it were a modifier, although the
  escaped character is a literal: the pattern of one or more plus signs becomes that of one plus sign.\<close>

theorem regex_escaped_quantifier:
  assumes "q \<in> set ''+*?''" "m \<in> set ''+?''"
  shows "translate_sleep_regex (backslash # q # m # cs) = backslash # q # translate (Some m) 0 False cs"
  using assms by (auto simp: translate_sleep_regex_def translate_escape_def escape_replacement_def is_modifier_def)

theorem regex_escaped_quantifier_witness:
  "translate_sleep_regex [backslash, CHR ''+'', CHR ''+''] = [backslash, CHR ''+'']"
  using regex_escaped_quantifier [of "CHR ''+''" "CHR ''+''" "[]"] by simp

end
