(* ===== verification/Embed.thy ===== *)
theory Embed
  imports VM_Collections Operators
begin

text \<open>
  The embedding interface (\<^verbatim>\<open>src/slp_embed.c\<close>): predicates and conversions that look through cells and
  taint, the reader of native arguments, callable handles, and the format-driven \<open>slp_args_unpack\<close>.

  Results: the outer \<open>option\<close> is undefined behaviour of C, a conversion that fails gives \<open>Some None\<close>. The
  destinations of the conversions are assumed to be there (not \<open>NULL\<close>).
\<close>

type_synonym 'a getter = "heap \<Rightarrow> slp_value \<Rightarrow> 'a option option"

subsection \<open>Predicates\<close>

definition embedding_value :: "heap \<Rightarrow> slp_value \<Rightarrow> slp_value option" where
  "embedding_value h v = skip_wrappers h v"

text \<open>A test of the value behind the wrappers: of the value itself and, for an object, of the object.\<close>

definition embedding_test :: "(slp_value \<Rightarrow> bool) \<Rightarrow> (obj \<Rightarrow> bool) \<Rightarrow> heap \<Rightarrow> slp_value \<Rightarrow> bool option" where
  "embedding_test p q h v =
     do { v \<leftarrow> embedding_value h v;
          (case v of VObj a \<Rightarrow> map_option q (h a) | _ \<Rightarrow> Some (p v)) }"

definition slp_value_is_null :: "heap \<Rightarrow> slp_value \<Rightarrow> bool option" where
  "slp_value_is_null = embedding_test (\<lambda>v. v = VNull) (\<lambda>_. False)"

definition slp_value_is_bool :: "heap \<Rightarrow> slp_value \<Rightarrow> bool option" where
  "slp_value_is_bool = embedding_test (\<lambda>v. case v of VBool _ \<Rightarrow> True | _ \<Rightarrow> False) (\<lambda>_. False)"

definition slp_value_is_number :: "heap \<Rightarrow> slp_value \<Rightarrow> bool option" where
  "slp_value_is_number =
     embedding_test (\<lambda>v. case v of VNum _ \<Rightarrow> True | _ \<Rightarrow> False) (\<lambda>ob. type_of ob = T_LONG \<or> type_of ob = T_DOUBLE)"

definition slp_value_is_string :: "heap \<Rightarrow> slp_value \<Rightarrow> bool option" where
  "slp_value_is_string = embedding_test (\<lambda>_. False) (\<lambda>ob. type_of ob = T_STRING)"

definition slp_value_is_array :: "heap \<Rightarrow> slp_value \<Rightarrow> bool option" where
  "slp_value_is_array = embedding_test (\<lambda>_. False) (\<lambda>ob. type_of ob = T_ARRAY)"

definition slp_value_is_hash :: "heap \<Rightarrow> slp_value \<Rightarrow> bool option" where
  "slp_value_is_hash = embedding_test (\<lambda>_. False) (\<lambda>ob. type_of ob = T_HASH)"

definition slp_value_is_callable :: "heap \<Rightarrow> slp_value \<Rightarrow> bool option" where
  "slp_value_is_callable =
     embedding_test (\<lambda>_. False) (\<lambda>ob. type_of ob = T_CLOSURE \<or> type_of ob = T_FUNCTION \<or> type_of ob = T_NATIVE)"

subsection \<open>Conversions\<close>

definition slp_value_get_bool :: "bool getter" where
  "slp_value_get_bool h v =
     do { v \<leftarrow> embedding_value h v; Some (case v of VBool b \<Rightarrow> Some b | _ \<Rightarrow> None) }"

definition slp_value_get_number :: "f64 getter" where
  "slp_value_get_number h v =
     do { v \<leftarrow> embedding_value h v;
          (case v of
             VNum d \<Rightarrow> Some (Some d)
           | VObj a \<Rightarrow> map_option (\<lambda>ob. case ob of OLong w \<Rightarrow> Some (f_of_int (sint w)) | ODouble d \<Rightarrow> Some d | _ \<Rightarrow> None) (h a)
           | _ \<Rightarrow> Some None) }"

definition in_int_range :: "f64 \<Rightarrow> bool" where
  "in_int_range d \<longleftrightarrow> f_is_finite d \<and> f_le (f_of_int INT32_MIN) d \<and> f_le d (f_of_int INT32_MAX)"

definition in_long_range :: "f64 \<Rightarrow> bool" where
  "in_long_range d \<longleftrightarrow> f_is_finite d \<and> f_le (f_of_int (- (2 ^ 63))) d \<and> f_lt d (f_of_int (2 ^ 63))"

definition slp_value_get_int :: "u32 getter" where
  "slp_value_get_int h v =
     do { number \<leftarrow> slp_value_get_number h v;
          (case number of
             Some d \<Rightarrow> if in_int_range d then do { w \<leftarrow> to_int32 d; Some (Some w) } else Some None
           | None \<Rightarrow> Some None) }"

definition slp_value_get_long :: "u64 getter" where
  "slp_value_get_long h v =
     do { v \<leftarrow> embedding_value h v;
          (case (case v of VObj a \<Rightarrow> h a | _ \<Rightarrow> None) of
             Some (OLong w) \<Rightarrow> Some (Some w)
           | _ \<Rightarrow>
               do { number \<leftarrow> slp_value_get_number h v;
                    (case number of
                       Some d \<Rightarrow> if in_long_range d then do { w \<leftarrow> to_int64 d; Some (Some w) } else Some None
                     | None \<Rightarrow> Some None) }) }"

definition slp_value_get_string :: "string getter" where
  "slp_value_get_string h v =
     do { v \<leftarrow> embedding_value h v;
          (case v of
             VObj a \<Rightarrow> map_option (\<lambda>ob. case ob of OString s \<Rightarrow> Some (s_chars s) | _ \<Rightarrow> None) (h a)
           | _ \<Rightarrow> Some None) }"

definition slp_value_get_array :: "addr getter" where
  "slp_value_get_array h v =
     do { v \<leftarrow> embedding_value h v;
          (case v of
             VObj a \<Rightarrow> map_option (\<lambda>ob. if type_of ob = T_ARRAY then Some a else None) (h a)
           | _ \<Rightarrow> Some None) }"

definition slp_value_get_hash :: "addr getter" where
  "slp_value_get_hash h v =
     do { v \<leftarrow> embedding_value h v;
          (case v of
             VObj a \<Rightarrow> map_option (\<lambda>ob. if type_of ob = T_HASH then Some a else None) (h a)
           | _ \<Rightarrow> Some None) }"

definition slp_value_truthy :: "heap \<Rightarrow> slp_value \<Rightarrow> bool option" where
  "slp_value_truthy h v = map_option Not (slp_value_is_falsy h v)"

subsection \<open>The argument reader\<close>

record slp_args =
  ag_values :: "slp_value list"
  ag_count :: int
  ag_index :: int

text \<open>\<open>values\<close> is the array of the caller, or \<open>NULL\<close>.\<close>

definition slp_args_init :: "slp_value list option \<Rightarrow> int \<Rightarrow> slp_args" where
  "slp_args_init values_opt count =
     \<lparr>ag_values = (case values_opt of Some vs \<Rightarrow> if 0 < count then vs else [] | None \<Rightarrow> []),
      ag_count = (if values_opt \<noteq> None \<and> 0 < count then count else 0), ag_index = 0\<rparr>"

definition slp_args_remaining :: "slp_args \<Rightarrow> int" where
  "slp_args_remaining r = (if ag_count r \<le> ag_index r then 0 else ag_count r - ag_index r)"

definition slp_args_peek :: "slp_args \<Rightarrow> slp_value option option" where
  "slp_args_peek r =
     (if slp_args_remaining r = 0 then Some None
      else if 0 \<le> ag_index r \<and> ag_index r < int (length (ag_values r)) then Some (Some (ag_values r ! nat (ag_index r)))
      else None)"

definition advance :: "slp_args \<Rightarrow> slp_args" where
  "advance r = r\<lparr>ag_index := ag_index r + 1\<rparr>"

text \<open>A typed read advances only when its conversion succeeds.\<close>

definition slp_args_typed_next :: "'a getter \<Rightarrow> heap \<Rightarrow> slp_args \<Rightarrow> ('a option \<times> slp_args) option" where
  "slp_args_typed_next getter h r =
     do { argument \<leftarrow> slp_args_peek r;
          (case argument of
             None \<Rightarrow> Some (None, r)
           | Some v \<Rightarrow> do { res \<leftarrow> getter h v; Some (res, if res = None then r else advance r) }) }"

definition slp_args_next_value :: "slp_args \<Rightarrow> (slp_value option \<times> slp_args) option" where
  "slp_args_next_value r = do { argument \<leftarrow> slp_args_peek r; Some (argument, if argument = None then r else advance r) }"

definition slp_args_next_int :: "heap \<Rightarrow> slp_args \<Rightarrow> (u32 option \<times> slp_args) option" where
  "slp_args_next_int = slp_args_typed_next slp_value_get_int"

definition slp_args_next_long :: "heap \<Rightarrow> slp_args \<Rightarrow> (u64 option \<times> slp_args) option" where
  "slp_args_next_long = slp_args_typed_next slp_value_get_long"

definition slp_args_next_number :: "heap \<Rightarrow> slp_args \<Rightarrow> (f64 option \<times> slp_args) option" where
  "slp_args_next_number = slp_args_typed_next slp_value_get_number"

definition slp_args_next_bool :: "heap \<Rightarrow> slp_args \<Rightarrow> (bool option \<times> slp_args) option" where
  "slp_args_next_bool = slp_args_typed_next slp_value_get_bool"

definition slp_args_next_array :: "heap \<Rightarrow> slp_args \<Rightarrow> (addr option \<times> slp_args) option" where
  "slp_args_next_array = slp_args_typed_next slp_value_get_array"

definition slp_args_next_hash :: "heap \<Rightarrow> slp_args \<Rightarrow> (addr option \<times> slp_args) option" where
  "slp_args_next_hash = slp_args_typed_next slp_value_get_hash"

definition slp_args_next_string :: "heap \<Rightarrow> slp_args \<Rightarrow> (string option \<times> slp_args) option" where
  "slp_args_next_string = slp_args_typed_next slp_value_get_string"

definition slp_args_next_truthy :: "heap \<Rightarrow> slp_args \<Rightarrow> (bool option \<times> slp_args) option" where
  "slp_args_next_truthy = slp_args_typed_next (\<lambda>h v. map_option Some (slp_value_truthy h v))"

subsection \<open>Callable handles\<close>

text \<open>
  A handle is an address of its own; \<open>handle\<close> is the pointer its allocation returned. The list
  \<open>vm_callables\<close> has the newest handle first. Reading a handle that has been released is undefined.
\<close>

definition link_callable :: "ptr \<Rightarrow> slp_value \<Rightarrow> vm \<Rightarrow> ptr \<times> vm" where
  "link_callable handle v vm =
     (case handle of
        None \<Rightarrow> (None, vm)
      | Some c \<Rightarrow> (Some c, vm\<lparr>vm_callables := \<lparr>cb_handle = c, cb_value = v\<rparr> # vm_callables vm\<rparr>))"

definition slp_callable_acquire :: "struct_sizes \<Rightarrow> heap_allocator \<Rightarrow> ptr \<Rightarrow> slp_value \<Rightarrow> vm \<Rightarrow> (ptr \<times> vm) option" where
  "slp_callable_acquire sizes alloc handle v vm =
     do { v \<leftarrow> embedding_value (vm_heap vm) v;
          callable \<leftarrow> slp_value_is_callable (vm_heap vm) v;
          if \<not> callable then Some (None, vm)
          else (case v of
                  VObj a \<Rightarrow>
                    do { ob \<leftarrow> vm_heap vm a;
                         if type_of ob = T_FUNCTION then
                           do { (closure, vm) \<leftarrow> slp_vm_new_closure sizes alloc (Some a) vm;
                                Some (case closure of None \<Rightarrow> (None, vm) | Some c \<Rightarrow> link_callable handle (VObj c) vm) }
                         else Some (link_callable handle v vm) }
                | _ \<Rightarrow> None) }"

fun unlink_callable :: "addr \<Rightarrow> callable list \<Rightarrow> callable list option" where
  "unlink_callable c [] = None"
| "unlink_callable c (k # ks) = (if cb_handle k = c then Some ks else map_option ((#) k) (unlink_callable c ks))"

definition slp_callable_release :: "ptr \<Rightarrow> vm \<Rightarrow> vm option" where
  "slp_callable_release handle vm =
     (case handle of
        None \<Rightarrow> Some vm
      | Some c \<Rightarrow> map_option (\<lambda>ks. vm\<lparr>vm_callables := ks\<rparr>) (unlink_callable c (vm_callables vm)))"

definition slp_embed_release_all :: "vm \<Rightarrow> vm" where
  "slp_embed_release_all vm = vm\<lparr>vm_callables := []\<rparr>"

text \<open>The call of a handle, where \<open>call_value\<close> is the interpreter's \<open>slp_vm_call_value\<close>.\<close>

definition slp_callable_call :: "(slp_value \<Rightarrow> slp_value list \<Rightarrow> vm \<Rightarrow> (slp_result \<times> slp_value \<times> vm) option) \<Rightarrow>
    ptr \<Rightarrow> slp_value list \<Rightarrow> vm \<Rightarrow> (slp_result \<times> slp_value \<times> vm) option" where
  "slp_callable_call call_value handle arguments vm =
     (case handle of
        None \<Rightarrow> Some (SLP_RUNTIME_ERROR, VNull, vm)
      | Some c \<Rightarrow> do { k \<leftarrow> find (\<lambda>k. cb_handle k = c) (vm_callables vm); call_value (cb_value k) arguments vm })"

definition slp_args_next_callable :: "struct_sizes \<Rightarrow> heap_allocator \<Rightarrow> ptr \<Rightarrow> slp_args \<Rightarrow> vm \<Rightarrow> (ptr \<times> slp_args \<times> vm) option" where
  "slp_args_next_callable sizes alloc handle r vm =
     do { argument \<leftarrow> slp_args_peek r;
          (case argument of
             None \<Rightarrow> Some (None, r, vm)
           | Some v \<Rightarrow> do { (p, vm) \<leftarrow> slp_callable_acquire sizes alloc handle v vm;
                            Some (p, if p = None then r else advance r, vm) }) }"

subsection \<open>Collections\<close>

definition slp_array_new :: "struct_sizes \<Rightarrow> heap_allocator \<Rightarrow> vm \<Rightarrow> (ptr \<times> vm) option" where
  "slp_array_new sizes alloc vm = slp_vm_new_array sizes alloc vm"

definition slp_array_push :: "ptr \<Rightarrow> slp_value \<Rightarrow> vm \<Rightarrow> vm option" where
  "slp_array_push array v vm =
     (case array of
        None \<Rightarrow> Some vm
      | Some a \<Rightarrow> do { h \<leftarrow> slp_obj_array_push (vm_heap vm) a v; Some (vm\<lparr>vm_heap := h\<rparr>) })"

definition slp_array_pop :: "ptr \<Rightarrow> vm \<Rightarrow> (slp_value \<times> vm) option" where
  "slp_array_pop array vm =
     (case array of
        None \<Rightarrow> Some (VNull, vm)
      | Some a \<Rightarrow> do { (v, h) \<leftarrow> slp_obj_array_pop (vm_heap vm) a; Some (v, vm\<lparr>vm_heap := h\<rparr>) })"

definition slp_array_get :: "ptr \<Rightarrow> int \<Rightarrow> vm \<Rightarrow> slp_value option" where
  "slp_array_get array index vm =
     (case array of None \<Rightarrow> Some VNull | Some a \<Rightarrow> slp_obj_array_get (vm_heap vm) a index)"

definition slp_array_count :: "ptr \<Rightarrow> vm \<Rightarrow> int option" where
  "slp_array_count array vm =
     (case array of None \<Rightarrow> Some 0 | Some a \<Rightarrow> map_option ar_count (get_array (vm_heap vm) a))"

definition slp_hash_new :: "struct_sizes \<Rightarrow> heap_allocator \<Rightarrow> vm \<Rightarrow> (ptr \<times> vm) option" where
  "slp_hash_new sizes alloc vm = slp_vm_new_hash sizes alloc vm"

definition slp_hash_set :: "vm_call \<Rightarrow> struct_sizes \<Rightarrow> heap_allocator \<Rightarrow> ptr \<Rightarrow> slp_value \<Rightarrow> slp_value \<Rightarrow> vm \<Rightarrow> (bool \<times> vm) option" where
  "slp_hash_set call sizes alloc hash key v vm = slp_vm_hash_set call sizes alloc hash key v vm"

definition slp_hash_get :: "vm_call \<Rightarrow> struct_sizes \<Rightarrow> heap_allocator \<Rightarrow> ptr \<Rightarrow> slp_value \<Rightarrow> vm \<Rightarrow> (slp_value \<times> vm) option" where
  "slp_hash_get call sizes alloc hash key vm = slp_vm_hash_get call sizes alloc hash key vm"

definition slp_hash_contains :: "struct_sizes \<Rightarrow> heap_allocator \<Rightarrow> ptr \<Rightarrow> slp_value \<Rightarrow> vm \<Rightarrow> (bool \<times> vm) option" where
  "slp_hash_contains sizes alloc hash key vm = slp_vm_hash_contains sizes alloc hash key vm"

definition slp_hash_delete :: "struct_sizes \<Rightarrow> heap_allocator \<Rightarrow> ptr \<Rightarrow> slp_value \<Rightarrow> vm \<Rightarrow> (bool \<times> vm) option" where
  "slp_hash_delete sizes alloc hash key vm = slp_vm_hash_delete sizes alloc hash key vm"

subsection \<open>Unpacking by a format\<close>

text \<open>
  What is written to the destinations behind the format, in order. The types that \<open>O!\<close> expects are
  arguments among the destinations; they are a list of their own here.
\<close>

datatype unpacked = U_string "string option" | U_length int | U_int u32 | U_long u64 | U_number f64 | U_bool bool
  | U_array addr | U_hash addr | U_value slp_value

definition unpack_nullable_string :: "bool \<Rightarrow> heap \<Rightarrow> slp_args \<Rightarrow> (bool \<times> unpacked list \<times> slp_args) option" where
  "unpack_nullable_string with_length h r =
     do { argument \<leftarrow> slp_args_peek r;
          (case argument of
             None \<Rightarrow> Some (False, [], r)
           | Some v \<Rightarrow>
               do { null \<leftarrow> slp_value_is_null h v;
                    if null then Some (True, U_string None # (if with_length then [U_length 0] else []), advance r)
                    else do { s \<leftarrow> slp_value_get_string h v;
                              Some (case s of
                                      None \<Rightarrow> (False, [], r)
                                    | Some cs \<Rightarrow>
                                        if with_length \<and> INT32_MAX < int (length cs) then (False, [U_string (Some cs)], r)
                                        else (True, U_string (Some cs) # (if with_length then [U_length (int (length cs))] else []),
                                              advance r)) } }) }"

definition unpack_int :: "heap \<Rightarrow> slp_args \<Rightarrow> (bool \<times> unpacked list \<times> slp_args) option" where
  "unpack_int h r =
     do { argument \<leftarrow> slp_args_peek r;
          (case argument of
             None \<Rightarrow> Some (False, [], r)
           | Some v \<Rightarrow> do { d \<leftarrow> slp_value_as_number h v;
                            if in_int_range d then do { w \<leftarrow> to_int32 d; Some (True, [U_int w], advance r) }
                            else Some (False, [], r) }) }"

definition unpack_by :: "('a \<Rightarrow> unpacked) \<Rightarrow> ('a option \<times> slp_args) option \<Rightarrow> (bool \<times> unpacked list \<times> slp_args) option" where
  "unpack_by wrap res =
     map_option (\<lambda>(x, r). case x of None \<Rightarrow> (False, [], r) | Some x \<Rightarrow> (True, [wrap x], r)) res"

definition unpack_value :: "heap \<Rightarrow> slp_args \<Rightarrow> (bool \<times> unpacked list \<times> slp_args) option" where
  "unpack_value h r =
     do { (x, r) \<leftarrow> slp_args_next_value r;
          (case x of
             None \<Rightarrow> Some (False, [], r)
           | Some v \<Rightarrow> do { v \<leftarrow> embedding_value h v; Some (True, [U_value v], r) }) }"

definition unpack_expected :: "obj_type \<Rightarrow> heap \<Rightarrow> slp_args \<Rightarrow> (bool \<times> unpacked list \<times> slp_args) option" where
  "unpack_expected expected h r =
     (if expected = T_ARRAY then unpack_by U_array (slp_args_next_array h r)
      else if expected = T_HASH then unpack_by U_hash (slp_args_next_hash h r)
      else Some (False, [], r))"

text \<open>The next item of a format: its reader and the format and the expected types behind it.\<close>

definition unpack_item :: "char \<Rightarrow> string \<Rightarrow> obj_type list \<Rightarrow>
    ((heap \<Rightarrow> slp_args \<Rightarrow> (bool \<times> unpacked list \<times> slp_args) option) \<times> string \<times> obj_type list) option" where
  "unpack_item c cs types =
     (if c = CHR ''s'' then
        (if take 1 cs = ''#'' then Some (unpack_nullable_string True, tl cs, types)
         else Some (unpack_nullable_string False, cs, types))
      else if c = CHR ''i'' then Some (unpack_int, cs, types)
      else if c = CHR ''l'' then Some (\<lambda>h r. unpack_by U_long (slp_args_next_long h r), cs, types)
      else if c = CHR ''d'' then Some (\<lambda>h r. unpack_by U_number (slp_args_next_number h r), cs, types)
      else if c = CHR ''b'' then Some (\<lambda>h r. unpack_by U_bool (slp_args_next_truthy h r), cs, types)
      else if c = CHR ''O'' then
        (if take 1 cs = ''!'' then
           (case types of [] \<Rightarrow> None | expected # types \<Rightarrow> Some (unpack_expected expected, tl cs, types))
         else Some (unpack_value, cs, types))
      else Some (\<lambda>h r. Some (False, [], r), cs, types))"

lemma unpack_item_shrinks: "unpack_item c cs types = Some (f, cs', types') \<Longrightarrow> length cs' \<le> length cs"
  by (auto simp: unpack_item_def split: if_splits list.splits)

function unpack_loop :: "heap \<Rightarrow> string \<Rightarrow> obj_type list \<Rightarrow> bool \<Rightarrow> slp_args \<Rightarrow> (bool \<times> unpacked list) option" where
  "unpack_loop h [] types optional r = Some (True, [])"
| "unpack_loop h (c # cs) types optional r =
     (if c = CHR '' '' then unpack_loop h cs types optional r
      else if c = CHR ''|'' then unpack_loop h cs types True r
      else if slp_args_remaining r = 0 then Some (optional, [])
      else (case unpack_item c cs types of
              None \<Rightarrow> None
            | Some (item, cs', types') \<Rightarrow>
                (case item h r of
                   None \<Rightarrow> None
                 | Some (ok, written, r) \<Rightarrow>
                     if \<not> ok then Some (False, written)
                     else map_option (\<lambda>(ok, ws). (ok, written @ ws)) (unpack_loop h cs' types' optional r))))"
  by pat_completeness auto
termination
  by (relation "measure (\<lambda>(h, cs, types, optional, r). length cs)")
    (auto simp: less_Suc_eq_le dest: unpack_item_shrinks)

definition slp_args_unpack :: "heap \<Rightarrow> slp_value list option \<Rightarrow> int \<Rightarrow> string option \<Rightarrow> obj_type list \<Rightarrow> (bool \<times> unpacked list) option" where
  "slp_args_unpack h arguments argument_count format types =
     (case format of
        None \<Rightarrow> Some (True, [])
      | Some cs \<Rightarrow> unpack_loop h (c_text cs) types False (slp_args_init arguments argument_count))"

end
