(* ===== verification/Embed_Props.thy ===== *)
theory Embed_Props
  imports Embed Operator_Props GC
begin

text \<open>
  The casts of the embedding interface are guarded: a double that passes the range test is cast to a
  defined value, the truncation of the double. A callable handle keeps a closure or a native function.
\<close>

subsection \<open>Truncation is monotone\<close>

text \<open>The magnitude of a finite double in units of \<open>2 ^ (- 1074)\<close>.\<close>

definition f_units :: "f64 \<Rightarrow> nat" where
  "f_units d = (if f_expo d = 0 then f_frac d else (f_frac d + 2 ^ 52) * 2 ^ (f_expo d - 1))"

definition f_magnitude_bits :: "f64 \<Rightarrow> nat" where
  "f_magnitude_bits d = unat d mod 2 ^ 63"

lemma frac_less: "f_frac d < 2 ^ 52"
  by (simp add: f_frac_def)

lemma magnitude_split: "f_magnitude_bits d = f_expo d * 2 ^ 52 + f_frac d"
proof -
  have "unat d mod 2 ^ 63 = unat d mod (2 ^ 52 * 2 ^ 11)" by simp
  also have "... = 2 ^ 52 * (unat d div 2 ^ 52 mod 2 ^ 11) + unat d mod 2 ^ 52" by (rule mod_mult2_eq)
  finally show ?thesis by (simp add: f_magnitude_bits_def f_expo_def f_frac_def)
qed

lemma units_mono:
  assumes "f_magnitude_bits a \<le> f_magnitude_bits b"
  shows "f_units a \<le> f_units b"
proof -
  have le: "f_expo a * 2 ^ 52 + f_frac a \<le> f_expo b * 2 ^ 52 + f_frac b" using assms by (simp add: magnitude_split)
  consider "f_expo a = f_expo b" | "f_expo a < f_expo b" | "f_expo b < f_expo a" by linarith
  then show ?thesis
  proof cases
    case 1
    then have "f_frac a \<le> f_frac b" using le by simp
    then show ?thesis using 1 by (simp add: f_units_def)
  next
    case 2
    have "f_units a \<le> 2 ^ 52 * 2 ^ f_expo a"
    proof (cases "f_expo a")
      case 0
      then show ?thesis using frac_less [of a] by (simp add: f_units_def)
    next
      case (Suc e)
      have "(f_frac a + 2 ^ 52) * 2 ^ e \<le> 2 ^ 53 * 2 ^ e" using frac_less [of a] by (intro mult_le_mono1) simp
      then show ?thesis using Suc by (simp add: f_units_def)
    qed
    also have "... \<le> 2 ^ 52 * 2 ^ (f_expo b - 1)" using 2 by simp
    also have "... \<le> f_units b" using 2 by (simp add: f_units_def)
    finally show ?thesis .
  next
    case 3
    then have "Suc (f_expo b) * 2 ^ 52 \<le> f_expo a * 2 ^ 52" by (intro mult_le_mono1) simp
    then show ?thesis using le frac_less [of b] by simp
  qed
qed

lemma trunc_units: "f_trunc d = (if f_sign d then - int (f_units d div 2 ^ 1074) else int (f_units d div 2 ^ 1074))"
proof -
  have "(if 0 \<le> f_scale d then f_signif d * 2 ^ nat (f_scale d) else f_signif d div 2 ^ nat (- f_scale d)) = f_units d div 2 ^ 1074"
  proof (cases "f_expo d = 0")
    case True
    then show ?thesis by (simp add: f_scale_def f_signif_def f_units_def)
  next
    case False
    show ?thesis
    proof (cases "1075 \<le> f_expo d")
      case True
      have "f_expo d - 1 = (f_expo d - 1075) + 1074" using True by simp
      then have "(f_frac d + 2 ^ 52) * 2 ^ (f_expo d - 1) = (f_frac d + 2 ^ 52) * 2 ^ (f_expo d - 1075) * 2 ^ 1074"
        by (simp only: power_add mult.assoc)
      then have "f_units d div 2 ^ 1074 = (f_frac d + 2 ^ 52) * 2 ^ (f_expo d - 1075)"
        using False by (simp only: f_units_def if_False) simp
      then show ?thesis using True False by (simp add: f_scale_def f_signif_def nat_diff_distrib')
    next
      case less: False
      have "1074 = (f_expo d - 1) + (1075 - f_expo d)" using less False by simp
      then have "(2::nat) ^ 1074 = 2 ^ (f_expo d - 1) * 2 ^ (1075 - f_expo d)" by (metis power_add)
      then have "f_units d div 2 ^ 1074 = f_signif d div 2 ^ (1075 - f_expo d)"
        using False by (simp only: f_units_def f_signif_def if_False div_mult2_eq) simp
      then show ?thesis using less False by (simp add: f_scale_def nat_diff_distrib')
    qed
  qed
  then show ?thesis by (simp add: f_trunc_def Let_def)
qed

lemma key_magnitude: "f_key d = (if f_sign d then - int (f_magnitude_bits d) else int (f_magnitude_bits d))"
  by (simp add: f_key_def f_magnitude_bits_def Let_def)

lemma units_div_mono: "f_magnitude_bits a \<le> f_magnitude_bits b \<Longrightarrow> f_units a div 2 ^ 1074 \<le> f_units b div 2 ^ 1074"
  by (intro div_le_mono units_mono)

lemma trunc_mono:
  assumes "f_le a b"
  shows "f_trunc a \<le> f_trunc b"
proof -
  have key: "f_key a \<le> f_key b" using assms by (simp add: f_le_def)
  show ?thesis
  proof (cases "f_sign a"; cases "f_sign b")
    assume "f_sign a" "f_sign b"
    then show ?thesis using key units_div_mono [of b a] by (simp only: key_magnitude trunc_units if_True) simp
  next
    assume "\<not> f_sign a" "\<not> f_sign b"
    then show ?thesis using key units_div_mono [of a b] by (simp only: key_magnitude trunc_units if_False) simp
  next
    assume "f_sign a" "\<not> f_sign b"
    then show ?thesis by (simp only: trunc_units if_True if_False)
  next
    assume "\<not> f_sign a" "f_sign b"
    then have "f_magnitude_bits a = 0" "f_magnitude_bits b = 0" using key by (simp_all add: key_magnitude)
    then have "f_units a \<le> f_units 0" "f_units b \<le> f_units 0"
      using units_mono [of a 0] units_mono [of b 0] by simp_all
    then have "f_units a = 0" "f_units b = 0" by (simp_all add: f_units_def f_expo_def f_frac_def)
    then show ?thesis by (simp add: trunc_units)
  qed
qed

subsection \<open>The casts are defined\<close>

lemma f_le_trans_key: "f_lt d b \<Longrightarrow> \<not> f_is_nan c \<Longrightarrow> f_key b = f_key c + 1 \<Longrightarrow> f_le d c"
  by (auto simp: f_lt_def f_le_def f_eq_def)

lemma long_limits:
  "f_of_int (2 ^ 63) = 0x43E0000000000000" "f_of_int (- (2 ^ 63)) = 0xC3E0000000000000"
  "f_trunc 0xC3E0000000000000 = - (2 ^ 63)" "f_trunc 0x43DFFFFFFFFFFFFF < 2 ^ 63"
  "f_key 0x43E0000000000000 = f_key 0x43DFFFFFFFFFFFFF + 1" "\<not> f_is_nan 0x43DFFFFFFFFFFFFF"
  by (simp_all add: f_of_int_def f_of_nat_bits_def nat_bits.simps [of "numeral k" for k] nat_bits.simps [of "Suc 0"] nat_bits.simps [of 0]
    round_half_even_def Let_def f_trunc_def f_scale_def f_signif_def f_sign_def f_expo_def f_frac_def f_key_def f_is_nan_def)

lemma int_range_trunc:
  assumes "in_int_range d"
  shows "INT32_MIN \<le> f_trunc d" "f_trunc d \<le> INT32_MAX"
  using assms trunc_mono [of "f_of_int INT32_MIN" d] trunc_mono [of d "f_of_int INT32_MAX"]
  by (simp_all add: in_int_range_def f_trunc_of_int)

lemma long_range_trunc:
  assumes "in_long_range d"
  shows "- (2 ^ 63) \<le> f_trunc d" "f_trunc d < 2 ^ 63"
proof -
  have lo: "f_le 0xC3E0000000000000 d" and hi: "f_lt d 0x43E0000000000000"
    using assms by (simp_all only: in_long_range_def long_limits)
  show "- (2 ^ 63) \<le> f_trunc d" using trunc_mono [OF lo] by (simp only: long_limits)
  show "f_trunc d < 2 ^ 63" 
    using trunc_mono [OF f_le_trans_key [OF hi long_limits(6,5)]] long_limits(4) by linarith
qed

subsection \<open>Properties\<close>

definition live_value :: "heap \<Rightarrow> slp_value \<Rightarrow> bool" where
  "live_value h v \<longleftrightarrow> (case v of VObj a \<Rightarrow> h a \<noteq> None | _ \<Rightarrow> True)"

lemma to_int32_defined: "in_int_range d \<Longrightarrow> to_int32 d = Some (word_of_int (f_trunc d))"
  using int_range_trunc [of d] by (simp add: to_int32_def in_int_range_def)

lemma to_int64_defined: "in_long_range d \<Longrightarrow> to_int64 d = Some (word_of_int (f_trunc d))"
  using long_range_trunc [of d] by (simp add: to_int64_def in_long_range_def)

lemma unwrapped_again: "skip_wrappers h v = Some w \<Longrightarrow> skip_wrappers h w = Some w"
proof (rule skip_wrappers.raw_induct [where P = "\<lambda>h v w. skip_wrappers h w = Some w"], goal_cases)
  case (1 f h v w)
  show ?case
  proof (cases v)
    case (VObj a)
    then obtain ob where ob: "h a = Some ob" using 1(3) by (auto split: option.splits)
    then show ?thesis using 1 VObj by (cases ob) auto
  qed (use 1 in auto)
qed

lemma long_or_none:
  assumes "slp_value_get_number h w = Some n"
  shows "do { number \<leftarrow> slp_value_get_number h w;
              (case number of Some d \<Rightarrow> if in_long_range d then do { w \<leftarrow> to_int64 d; Some (Some w) } else Some None | None \<Rightarrow> Some None) }
    \<noteq> None"
  using assms to_int64_defined by (cases n) auto

lemma get_number_defined:
  "embedding_value h v = Some w \<Longrightarrow> live_value h w \<Longrightarrow> \<exists>n. slp_value_get_number h v = Some n"
  by (auto simp: slp_value_get_number_def live_value_def split: slp_value.splits)

text \<open>C18: the integer conversions of the embedding interface never run into an undefined cast: on a live value
  they return, and an int that is returned is the truncation of the number.\<close>

theorem embedding_casts:
  assumes "embedding_value h v = Some w" "live_value h w"
  shows "slp_value_get_int h v \<noteq> None \<and> slp_value_get_long h v \<noteq> None \<and>
    (\<forall>x. slp_value_get_int h v = Some (Some x) \<longrightarrow> (\<exists>d. slp_value_get_number h v = Some (Some d) \<and> sint x = f_trunc d))"
proof -
  obtain n where n: "slp_value_get_number h v = Some n" using get_number_defined [OF assms] by blast
  have w: "embedding_value h w = Some w" using assms(1) by (simp add: embedding_value_def unwrapped_again)
  obtain m where m: "slp_value_get_number h w = Some m" using get_number_defined [OF w assms(2)] by blast
  have "slp_value_get_int h v \<noteq> None"
    using n to_int32_defined by (auto simp: slp_value_get_int_def split: option.splits)
  moreover have "slp_value_get_long h v \<noteq> None"
    unfolding slp_value_get_long_def assms(1) bind.bind_lunit
    using long_or_none [OF m] by (cases "case w of VObj a \<Rightarrow> h a | _ \<Rightarrow> None") (simp, rename_tac ob, case_tac ob, simp_all)
  moreover have "\<exists>d. slp_value_get_number h v = Some (Some d) \<and> sint x = f_trunc d"
    if x: "slp_value_get_int h v = Some (Some x)" for x
  proof -
    from x n obtain d where d: "n = Some d" "in_int_range d" "x = word_of_int (f_trunc d)"
      using to_int32_defined by (auto simp: slp_value_get_int_def split: option.splits if_splits)
    have "int32 (f_trunc d)" using int_range_trunc [OF d(2)] by (simp add: int32_def)
    then show ?thesis using n d sint_int32 by simp
  qed
  ultimately show ?thesis by blast
qed

theorem embedding_casts_witness:
  "slp_value_get_int [1 \<mapsto> OTainted (num 7)] (VObj 1) \<noteq> None"
  using embedding_casts [of "[1 \<mapsto> OTainted (num 7)]" "VObj 1" "num 7"]
  by (simp add: embedding_value_def live_value_def num_def)

lemma new_closure_heap:
  assumes "slp_vm_new_closure sizes alloc fn vm = Some (Some q, vm')"
  shows "\<exists>c. vm_heap vm' q = Some (OClosure c)" "vm_callables vm' = vm_callables vm"
proof -
  from assms obtain f where f: "fn = Some f" "new_closure_object sizes alloc f vm = Some (Some q, vm')"
    by (auto simp: slp_vm_new_closure_def split: option.splits)
  then obtain p h where p: "slp_obj_closure_new (alloc (vm_heap vm)) f (vm_heap vm) = Some (p, h)"
    by (auto simp: new_closure_object_def bind_eq_Some_conv)
  have pq: "p = Some q" using f(2) unfolding new_closure_object_def p
    by (cases p) (auto simp: bind_eq_Some_conv Let_def)
  note eq = f(2) [unfolded new_closure_object_def p bind.bind_lunit prod.case pq option.case]
  obtain vm1 where vm1: "track_object sizes q (vm\<lparr>vm_heap := h\<rparr>) = Some vm1"
    "update_closure q (\<lambda>c. c\<lparr>co_identity := vm_next_closure_identity vm1 + 1\<rparr>)
       (vm1\<lparr>vm_next_closure_identity := vm_next_closure_identity vm1 + 1\<rparr>) = Some vm'"
    using eq by (auto simp: bind_eq_Some_conv Let_def)
  have "vm_callables vm1 = vm_callables vm" using vm1(1) by (auto simp: track_object_def bind_eq_Some_conv)
  then show "\<exists>c. vm_heap vm' q = Some (OClosure c)" "vm_callables vm' = vm_callables vm"
    using vm1(2) by (auto simp: update_closure_def bind_eq_Some_conv)
qed

lemma linked:
  "link_callable (Some c) x vm = (Some c, vm\<lparr>vm_callables := \<lparr>cb_handle = c, cb_value = x\<rparr> # vm_callables vm\<rparr>)"
  by (simp add: link_callable_def)

lemma acquire_cases:
  assumes "slp_callable_acquire sizes alloc (Some c) v vm = Some (Some c', vm')"
  shows "\<exists>vm1 a ob. vm_callables vm1 = vm_callables vm \<and> vm_heap vm1 a = Some ob \<and> type_of ob \<in> {T_CLOSURE, T_NATIVE} \<and>
    (Some c', vm') = link_callable (Some c) (VObj a) vm1"
proof -
  from assms obtain w where w: "embedding_value (vm_heap vm) v = Some w" "slp_value_is_callable (vm_heap vm) w = Some True"
    by (auto simp: slp_callable_acquire_def bind_eq_Some_conv split: if_splits)
  have ww: "embedding_value (vm_heap vm) w = Some w" using w(1) by (simp add: embedding_value_def unwrapped_again)
  then obtain a ob where a: "w = VObj a" "vm_heap vm a = Some ob" "type_of ob \<in> {T_CLOSURE, T_FUNCTION, T_NATIVE}"
    using w(2) by (auto simp: slp_value_is_callable_def embedding_test_def split: slp_value.splits)
  note eq = assms [unfolded slp_callable_acquire_def w(1) bind.bind_lunit, unfolded w(2) bind.bind_lunit, unfolded a(1) slp_value.case a(2)]
  show ?thesis
  proof (cases "type_of ob = T_FUNCTION")
    case True
    then obtain q vm1 where q: "slp_vm_new_closure sizes alloc (Some a) vm = Some (Some q, vm1)"
      "(Some c', vm') = link_callable (Some c) (VObj q) vm1"
      using eq by (auto simp: bind_eq_Some_conv split: option.splits)
    obtain cl where "vm_heap vm1 q = Some (OClosure cl)" using new_closure_heap(1) [OF q(1)] by blast
    then show ?thesis using q(2) new_closure_heap(2) [OF q(1)] by (intro exI [of _ vm1] exI [of _ q] exI [of _ "OClosure cl"]) simp
  next
    case False
    then show ?thesis using eq a by (intro exI [of _ vm] exI [of _ a] exI [of _ ob]) auto
  qed
qed

text \<open>C29: a callable handle roots a closure or a native function: a bare function is wrapped in a new closure, the
  value is among the roots of the collector, and releasing the handle takes exactly this handle away.\<close>

theorem callable_handle:
  assumes "slp_callable_acquire sizes alloc (Some c) v vm = Some (Some c', vm')"
  shows "c' = c \<and> (\<exists>x a ob. vm_callables vm' = \<lparr>cb_handle = c, cb_value = x\<rparr> # vm_callables vm \<and>
      x \<in> set (slp_embed_roots vm') \<and> x = VObj a \<and> vm_heap vm' a = Some ob \<and> type_of ob \<in> {T_CLOSURE, T_NATIVE}) \<and>
    slp_callable_release (Some c) vm' = Some (vm'\<lparr>vm_callables := vm_callables vm\<rparr>)"
proof -
  obtain vm1 a ob where vm1: "vm_callables vm1 = vm_callables vm" "vm_heap vm1 a = Some ob" "type_of ob \<in> {T_CLOSURE, T_NATIVE}"
    "(Some c', vm') = link_callable (Some c) (VObj a) vm1"
    using acquire_cases [OF assms] by blast
  then show ?thesis by (auto simp: linked slp_embed_roots_def slp_callable_release_def)
qed

definition one_native :: vm where
  "one_native = vm_zero\<lparr>vm_heap := [1 \<mapsto> ONative \<lparr>na_fn = 0, na_name = None, na_preserve_references = False\<rparr>], vm_objects := [1]\<rparr>"

theorem callable_handle_witness:
  "\<exists>vm'. slp_callable_acquire (\<lambda>_. 32) (\<lambda>_. None) (Some 9) (VObj 1) one_native = Some (Some 9, vm') \<and>
     slp_callable_release (Some 9) vm' = Some (vm'\<lparr>vm_callables := []\<rparr>)"
proof -
  have "\<exists>vm'. slp_callable_acquire (\<lambda>_. 32) (\<lambda>_. None) (Some 9) (VObj 1) one_native = Some (Some 9, vm')"
    by (simp add: slp_callable_acquire_def embedding_value_def one_native_def slp_value_is_callable_def embedding_test_def link_callable_def)
  then show ?thesis using callable_handle [of "\<lambda>_. 32" "\<lambda>_. None" 9 "VObj 1" one_native]
    by (auto simp: one_native_def vm_zero_def)
qed

end
