(* ===== verification/Disasm.thy ===== *)
theory Disasm
  imports Opcodes Chunks F64_Ops VM_State
begin

text \<open>
  The disassembler (\<^verbatim>\<open>src/slp_disasm.c\<close>): the text of an instruction and the offset of the next one. A
  read outside the code, the line table or the heap is undefined.
\<close>

subsection \<open>Names\<close>

definition opcode_names :: "(byte \<times> string) list" where
  "opcode_names =
     [(OP_PUSH_NULL, ''PUSH_NULL''), (OP_PUSH_TRUE, ''PUSH_TRUE''),
      (OP_PUSH_FALSE, ''PUSH_FALSE''), (OP_PUSH_CONST, ''PUSH_CONST''),
      (OP_LOAD_LOCAL_0, ''LOAD_LOCAL_0''), (OP_LOAD_LOCAL_1, ''LOAD_LOCAL_1''),
      (OP_LOAD_LOCAL_2, ''LOAD_LOCAL_2''), (OP_LOAD_LOCAL_3, ''LOAD_LOCAL_3''),
      (OP_LOAD_LOCAL_4, ''LOAD_LOCAL_4''), (OP_LOAD_LOCAL_5, ''LOAD_LOCAL_5''),
      (OP_LOAD_LOCAL_6, ''LOAD_LOCAL_6''), (OP_LOAD_LOCAL_7, ''LOAD_LOCAL_7''),
      (OP_STORE_LOCAL_0, ''STORE_LOCAL_0''), (OP_STORE_LOCAL_1, ''STORE_LOCAL_1''),
      (OP_STORE_LOCAL_2, ''STORE_LOCAL_2''), (OP_STORE_LOCAL_3, ''STORE_LOCAL_3''),
      (OP_STORE_LOCAL_4, ''STORE_LOCAL_4''), (OP_STORE_LOCAL_5, ''STORE_LOCAL_5''),
      (OP_STORE_LOCAL_6, ''STORE_LOCAL_6''), (OP_STORE_LOCAL_7, ''STORE_LOCAL_7''),
      (OP_LOAD_LOCAL, ''LOAD_LOCAL''), (OP_STORE_LOCAL, ''STORE_LOCAL''),
      (OP_LOAD_GLOBAL, ''LOAD_GLOBAL''), (OP_STORE_GLOBAL, ''STORE_GLOBAL''),
      (OP_STORE_CATCH, ''STORE_CATCH''), (OP_LOAD_UPVALUE, ''LOAD_UPVALUE''),
      (OP_STORE_UPVALUE, ''STORE_UPVALUE''), (OP_REFERENCE_LOCAL, ''REFERENCE_LOCAL''),
      (OP_REFERENCE_GLOBAL, ''REFERENCE_GLOBAL''), (OP_REFERENCE_UPVALUE, ''REFERENCE_UPVALUE''),
      (OP_ADD, ''ADD''), (OP_SUBTRACT, ''SUBTRACT''),
      (OP_MULTIPLY, ''MULTIPLY''), (OP_DIVIDE, ''DIVIDE''),
      (OP_MODULO, ''MODULO''), (OP_POWER, ''POWER''),
      (OP_NEGATE, ''NEGATE''), (OP_CONCAT, ''CONCAT''),
      (OP_ALIGN, ''ALIGN''), (OP_REPEAT, ''REPEAT''),
      (OP_EQUAL, ''EQUAL''), (OP_NOT_EQUAL, ''NOT_EQUAL''),
      (OP_LESS, ''LESS''), (OP_GREATER, ''GREATER''),
      (OP_LESS_EQUAL, ''LESS_EQUAL''), (OP_GREATER_EQUAL, ''GREATER_EQUAL''),
      (OP_SPACESHIP, ''SPACESHIP''), (OP_MATCH, ''MATCH''),
      (OP_NOT_MATCH, ''NOT_MATCH''), (OP_NOT, ''NOT''),
      (OP_AND, ''AND''), (OP_OR, ''OR''),
      (OP_BIT_AND, ''BIT_AND''), (OP_BIT_OR, ''BIT_OR''),
      (OP_BIT_XOR, ''BIT_XOR''), (OP_BIT_NOT, ''BIT_NOT''),
      (OP_LSHIFT, ''LSHIFT''), (OP_RSHIFT, ''RSHIFT''),
      (OP_INCREMENT, ''INCREMENT''), (OP_DECREMENT, ''DECREMENT''),
      (OP_UNARY_PREDICATE, ''UNARY_PREDICATE''), (OP_BINARY_PREDICATE, ''BINARY_PREDICATE''),
      (OP_NEGATED_BINARY_PREDICATE, ''NEGATED_BINARY_PREDICATE''), (OP_POP, ''POP''),
      (OP_DUP, ''DUP''), (OP_DUP2, ''DUP2''),
      (OP_SWAP, ''SWAP''), (OP_REVERSE, ''REVERSE''),
      (OP_JUMP, ''JUMP''), (OP_JUMP_IF_FALSE, ''JUMP_IF_FALSE''),
      (OP_JUMP_IF_TRUE, ''JUMP_IF_TRUE''), (OP_JUMP_IF_NULL, ''JUMP_IF_NULL''),
      (OP_LOOP, ''LOOP''), (OP_CALL, ''CALL''),
      (OP_CALL_NAMED, ''CALL_NAMED''), (OP_RETURN, ''RETURN''),
      (OP_INLINE_RETURN, ''INLINE_RETURN''), (OP_CLOSURE, ''CLOSURE''),
      (OP_CLOSE_UPVALUE, ''CLOSE_UPVALUE''), (OP_FOREACH_NEXT, ''FOREACH_NEXT''),
      (OP_FOREACH_NEXT_VALUE, ''FOREACH_NEXT_VALUE''), (OP_BUILD_ARRAY, ''BUILD_ARRAY''),
      (OP_BUILD_HASH, ''BUILD_HASH''), (OP_BUILD_KEY_VALUE, ''BUILD_KEY_VALUE''),
      (OP_INDEX_GET, ''INDEX_GET''), (OP_INDEX_ENSURE, ''INDEX_ENSURE''),
      (OP_INDEX_SET, ''INDEX_SET''), (OP_TUPLE_GET, ''TUPLE_GET''),
      (OP_TUPLE_COMPOUND, ''TUPLE_COMPOUND''), (OP_OBJ_EXPR, ''OBJ_EXPR''),
      (OP_PUSH_HANDLER, ''PUSH_HANDLER''), (OP_POP_HANDLER, ''POP_HANDLER''),
      (OP_THROW, ''THROW''), (OP_ASSERT, ''ASSERT''),
      (OP_HALT, ''HALT''), (OP_DONE, ''DONE''),
      (OP_YIELD, ''YIELD''), (OP_CALLCC, ''CALLCC''),
      (OP_RESUME, ''RESUME''), (OP_BRIDGE_REGISTER, ''BRIDGE_REGISTER''),
      (OP_IMPORT, ''IMPORT''), (OP_BACKTICK, ''BACKTICK''),
      (OP_CLASS_LITERAL, ''CLASS_LITERAL''), (OP_ADDRESS, ''ADDRESS''),
      (OP_LOCAL, ''LOCAL''), (OP_THIS, ''THIS''),
      (OP_UNPACK_TUPLE, ''UNPACK_TUPLE''), (OP_BREAK, ''BREAK''),
      (OP_CONTINUE, ''CONTINUE''), (OP_NOP, ''NOP''),
      (OP_END, ''END'')]"

definition slp_opcode_name :: "byte \<Rightarrow> string" where
  "slp_opcode_name op = (case map_of opcode_names op of Some name \<Rightarrow> name | None \<Rightarrow> ''UNKNOWN'')"

subsection \<open>Formats\<close>

definition pad_left :: "char \<Rightarrow> nat \<Rightarrow> string \<Rightarrow> string" where
  "pad_left c width s = replicate (width - length s) c @ s"

definition pad_right :: "nat \<Rightarrow> string \<Rightarrow> string" where
  "pad_right width s = s @ replicate (width - length s) CHR '' ''"

definition fmt_4d :: "int \<Rightarrow> string" where
  "fmt_4d n = pad_left CHR '' '' 4 (dec_int n)"

definition fmt_04d :: "int \<Rightarrow> string" where
  "fmt_04d n = (if n < 0 then CHR ''-'' # pad_left CHR ''0'' 3 (dec_nat (nat (- n))) else pad_left CHR ''0'' 4 (dec_nat (nat n)))"

text \<open>The text of a C string behind a pointer that may be null.\<close>

definition name_text :: "heap \<Rightarrow> ptr \<Rightarrow> string option" where
  "name_text h p = do { a \<leftarrow> p; s \<leftarrow> get_string h a; Some (takeWhile (\<lambda>c. c \<noteq> NUL) (s_chars s)) }"

definition name_or :: "string \<Rightarrow> heap \<Rightarrow> ptr \<Rightarrow> string option" where
  "name_or missing h p = (if p = None then Some missing else name_text h p)"

primrec obj_type_code :: "obj_type \<Rightarrow> nat" where
  "obj_type_code T_STRING = 0"
| "obj_type_code T_CLASS = 1"
| "obj_type_code T_JAVA_OBJECT = 2"
| "obj_type_code T_LONG = 3"
| "obj_type_code T_DOUBLE = 4"
| "obj_type_code T_ARRAY = 5"
| "obj_type_code T_HASH = 6"
| "obj_type_code T_FUNCTION = 7"
| "obj_type_code T_CLOSURE = 8"
| "obj_type_code T_UPVALUE = 9"
| "obj_type_code T_CONTINUATION = 10"
| "obj_type_code T_NATIVE = 11"
| "obj_type_code T_BRIDGE = 12"
| "obj_type_code T_IO_HANDLE = 13"
| "obj_type_code T_KEY_VALUE = 14"
| "obj_type_code T_TAINTED = 15"
| "obj_type_code T_SCALAR_CELL = 16"

definition print_value :: "heap \<Rightarrow> slp_value \<Rightarrow> string option" where
  "print_value h v =
     (case v of
        VNull \<Rightarrow> Some ''null''
      | VBool b \<Rightarrow> Some (if b then ''true'' else ''false'')
      | VNum d \<Rightarrow> Some (fmt_g 6 d)
      | VObj a \<Rightarrow>
          do { ob \<leftarrow> h a;
               (case ob of
                  OString s \<Rightarrow> Some ([CHR 0x22] @ takeWhile (\<lambda>c. c \<noteq> NUL) (s_chars s) @ [CHR 0x22])
                | OClass c \<Rightarrow> do { n \<leftarrow> name_text h (cl_name c);
                                   Some ((if cl_is_interface c then ''<interface '' else ''<class '') @ n @ ''>'') }
                | OJava j \<Rightarrow> do { c \<leftarrow> jo_class j;
                                  n \<leftarrow> (case h c of Some (OClass cl) \<Rightarrow> name_text h (cl_name cl) | _ \<Rightarrow> None);
                                  Some (''<java '' @ n @ ''>'') }
                | OLong w \<Rightarrow> Some (dec_int (sint w) @ ''L'')
                | ODouble d \<Rightarrow> Some (fmt_g17 d)
                | OFunction f \<Rightarrow> do { n \<leftarrow> name_or ''(script)'' h (fn_name f); Some (''<fn '' @ n @ ''>'') }
                | OClosure _ \<Rightarrow> Some ''<closure>''
                | ONative f \<Rightarrow> do { n \<leftarrow> name_or ''?'' h (na_name f); Some (''<native '' @ n @ ''>'') }
                | _ \<Rightarrow> Some (''<obj '' @ dec_nat (obj_type_code (type_of ob)) @ ''>'')) })"

subsection \<open>Instructions\<close>

definition is_short_instruction :: "byte \<Rightarrow> bool" where
  "is_short_instruction op \<longleftrightarrow> op \<in> set
     [OP_PUSH_CONST, OP_LOAD_LOCAL, OP_STORE_LOCAL, OP_LOAD_GLOBAL, OP_STORE_GLOBAL, OP_STORE_CATCH, OP_LOAD_UPVALUE,
      OP_STORE_UPVALUE, OP_REFERENCE_GLOBAL, OP_JUMP, OP_JUMP_IF_FALSE, OP_JUMP_IF_TRUE, OP_JUMP_IF_NULL, OP_LOOP,
      OP_AND, OP_OR, OP_PUSH_HANDLER, OP_FOREACH_NEXT, OP_FOREACH_NEXT_VALUE, OP_BUILD_ARRAY, OP_BUILD_HASH,
      OP_BRIDGE_REGISTER, OP_IMPORT, OP_BACKTICK, OP_CLASS_LITERAL]"

definition code_byte :: "chunk \<Rightarrow> nat \<Rightarrow> byte option" where
  "code_byte ck offset = (if offset < length (ck_code ck) then Some (ck_code ck ! offset) else None)"

definition line_at :: "chunk \<Rightarrow> nat \<Rightarrow> int option" where
  "line_at ck offset = (if offset < length (ck_lines ck) then Some (ck_lines ck ! offset) else None)"

text \<open>The test of a constant index compares 16 bits of the number of constants.\<close>

definition constant_in_pool :: "chunk \<Rightarrow> u16 \<Rightarrow> slp_value option" where
  "constant_in_pool ck idx =
     (if idx < word_of_nat (length (ck_constants ck)) then Some (ck_constants ck ! unat idx) else None)"

definition constant_text :: "heap \<Rightarrow> chunk \<Rightarrow> string \<Rightarrow> u16 \<Rightarrow> string option" where
  "constant_text h ck missing idx =
     do { t \<leftarrow> (case constant_in_pool ck idx of None \<Rightarrow> Some missing | Some v \<Rightarrow> print_value h v);
          Some ('' '' @ fmt_4d (int (unat idx)) @ '' '' @ [CHR 0x27] @ t @ [CHR 0x27]) }"

fun upvalue_lines :: "chunk \<Rightarrow> nat \<Rightarrow> nat \<Rightarrow> (string \<times> nat) option" where
  "upvalue_lines ck 0 pos = Some ([], pos)"
| "upvalue_lines ck (Suc n) pos =
     do { line \<leftarrow> line_at ck pos;
          kind \<leftarrow> code_byte ck pos;
          index \<leftarrow> code_byte ck (pos + 1);
          (t, last_pos) \<leftarrow> upvalue_lines ck n (pos + 2);
          Some ([CHR 0x0A] @ fmt_04d (int pos) @ '' '' @ fmt_4d line @ '' '' @ pad_right 24 [] @ '' '' @
                fmt_4d (uint index) @ '' '' @ (if kind \<noteq> 0 then ''upvalue'' else ''local'') @ t, last_pos) }"

definition has_constant_operand :: "byte \<Rightarrow> bool" where
  "has_constant_operand op \<longleftrightarrow> op \<in> set [OP_PUSH_CONST, OP_LOAD_GLOBAL, OP_STORE_GLOBAL, OP_STORE_CATCH, OP_REFERENCE_GLOBAL]"

definition has_slot_operand :: "byte \<Rightarrow> bool" where
  "has_slot_operand op \<longleftrightarrow> op \<in> set
     [OP_LOAD_LOCAL, OP_STORE_LOCAL, OP_LOAD_UPVALUE, OP_STORE_UPVALUE, OP_REFERENCE_LOCAL, OP_REFERENCE_UPVALUE,
      OP_INDEX_ENSURE, OP_REVERSE, OP_TUPLE_COMPOUND, OP_OBJ_EXPR]"

definition is_jump :: "byte \<Rightarrow> bool" where
  "is_jump op \<longleftrightarrow> op \<in> set
     [OP_JUMP, OP_JUMP_IF_FALSE, OP_JUMP_IF_TRUE, OP_JUMP_IF_NULL, OP_LOOP, OP_AND, OP_OR, OP_PUSH_HANDLER]"

definition closure_function :: "heap \<Rightarrow> chunk \<Rightarrow> u16 \<Rightarrow> obj_function option option" where
  "closure_function h ck idx =
     (case constant_in_pool ck idx of
        Some (VObj a) \<Rightarrow> map_option (\<lambda>ob. case ob of OFunction f \<Rightarrow> Some f | _ \<Rightarrow> None) (h a)
      | _ \<Rightarrow> Some None)"

text \<open>The operands of the instruction at \<open>offset\<close>.\<close>

definition disasm_operands :: "heap \<Rightarrow> chunk \<Rightarrow> nat \<Rightarrow> byte \<Rightarrow> (string \<times> nat) option" where
  "disasm_operands h ck offset op =
     (if has_constant_operand op then
        do { idx \<leftarrow> slp_chunk_read_short ck (offset + 1); t \<leftarrow> constant_text h ck ''???'' idx; Some (t, offset + 3) }
      else if has_slot_operand op then
        do { idx \<leftarrow> code_byte ck (offset + 1); Some ('' '' @ fmt_4d (uint idx), offset + 2) }
      else if is_short_instruction op then
        do { val \<leftarrow> slp_chunk_read_short ck (offset + 1);
             Some (if is_jump op
                   then '' -> '' @ dec_int (int offset + 3 + (if op = OP_LOOP then - uint val else uint val))
                   else '' '' @ fmt_4d (uint val), offset + 3) }
      else if op = OP_CALL then
        do { n \<leftarrow> code_byte ck (offset + 1); Some ('' '' @ fmt_4d (uint n), offset + 2) }
      else if op = OP_CALL_NAMED then
        do { argc \<leftarrow> code_byte ck (offset + 1);
             idx \<leftarrow> slp_chunk_read_short ck (offset + 2);
             t \<leftarrow> constant_text h ck ''???'' idx;
             Some ('' '' @ fmt_4d (uint argc) @ t, offset + 4) }
      else if op = OP_CLOSURE then
        do { idx \<leftarrow> slp_chunk_read_short ck (offset + 1);
             t \<leftarrow> constant_text h ck [] idx;
             f \<leftarrow> closure_function h ck idx;
             (u, pos) \<leftarrow> upvalue_lines ck (case f of None \<Rightarrow> 0 | Some f \<Rightarrow> nat (fn_upvalue_count f)) (offset + 3);
             Some (t @ u, pos) }
      else Some ([], offset + 1))"

definition slp_disasm_instruction :: "heap \<Rightarrow> chunk \<Rightarrow> nat \<Rightarrow> (string \<times> nat) option" where
  "slp_disasm_instruction h ck offset =
     do { line \<leftarrow> line_at ck offset;
          op \<leftarrow> code_byte ck offset;
          (t, next_offset) \<leftarrow> disasm_operands h ck offset op;
          Some (fmt_04d (int offset) @ '' '' @
                (if 0 < offset \<and> line_at ck (offset - 1) = Some line then ''  | '' else fmt_4d line @ '' '') @
                pad_right 24 (slp_opcode_name op) @ t, next_offset) }"

subsection \<open>Chunks\<close>

lemma upvalue_lines_pos: "upvalue_lines ck n pos = Some (t, pos') \<Longrightarrow> pos' = pos + 2 * n"
proof (induction n arbitrary: pos t)
  case (Suc n)
  then obtain u where "upvalue_lines ck n (pos + 2) = Some (u, pos')" by (auto simp: bind_eq_Some_conv)
  from Suc.IH [OF this] show ?case by simp
qed simp

lemma operands_forward: "disasm_operands h ck offset op = Some (t, pos) \<Longrightarrow> offset < pos"
  by (auto simp: disasm_operands_def bind_eq_Some_conv split: if_splits dest!: upvalue_lines_pos)

lemma instruction_forward: "slp_disasm_instruction h ck offset = Some (t, pos) \<Longrightarrow> offset < pos"
  by (auto simp: slp_disasm_instruction_def bind_eq_Some_conv dest!: operands_forward)

function disasm_from :: "heap \<Rightarrow> chunk \<Rightarrow> nat \<Rightarrow> string option" where
  "disasm_from h ck offset =
     (if length (ck_code ck) \<le> offset then Some []
      else (case slp_disasm_instruction h ck offset of
              None \<Rightarrow> None
            | Some (t, pos) \<Rightarrow> map_option (\<lambda>rest. t @ [CHR 0x0A] @ rest) (disasm_from h ck pos)))"
  by pat_completeness auto
termination
  by (relation "measure (\<lambda>(h, ck, offset). length (ck_code ck) - offset)") (auto dest!: instruction_forward)

declare disasm_from.simps [simp del]

definition slp_disasm_chunk :: "heap \<Rightarrow> chunk \<Rightarrow> string \<Rightarrow> string option" where
  "slp_disasm_chunk h ck name =
     map_option (\<lambda>t. ''=== '' @ name @ '' ==='' @ [CHR 0x0A] @ t) (disasm_from h ck 0)"

end
