(* ===== verification/Ast.thy ===== *)
theory Ast
  imports Tokens F64
begin

text \<open>
  The syntax tree (\<^verbatim>\<open>include/slp_parser.h\<close>): one constructor per node type with the fields of its union
  member, the source line first. \<open>No_node\<close> is the null pointer, so every child may be missing as in the C
  struct. A token kept in a node is its type and its text. Left out are the owned buffer of an alignment,
  the flag \<open>is_rewritten\<close> and the capacities of the child arrays.
\<close>

type_synonym ast_op = "slp_token_type \<times> string"

datatype (plugins only: size code) ast =
    No_node
  | Script int "ast list"
  | Block int "ast list"
  | Boolean int bool
  | Null int
  | Long int u64
  | Literal int "string option"
  | Str int "string option"
  | Align int ast ast
  | Number int bool f64
  | Scalar int "string option"
  | Array int "string option"
  | Hashtable int "string option"
  | Identifier int "string option"
  | Class_literal int "string option"
  | Backtick int "string option"
  | Address int "string option"
  | Call int ast "ast list"
  | Assignment int ast ast_op ast
  | Binop int ast ast_op ast bool
  | Unaryop int ast_op ast bool
  | If int ast ast ast
  | While int ast ast
  | For int "ast list" ast "ast list" ast
  | Foreach int "string option" string ast ast
  | Return int ast
  | Break int ast
  | Continue int ast
  | Yield int ast
  | Assign_loop int string ast ast
  | Index int ast ast
  | Obj_expr int ast ast "ast list"
  | Try_catch int ast "string option" ast
  | Throw int ast
  | Assert int ast ast
  | Env_bridge int "string option" "string option" "string option" ast
  | Import int "string option" "string option"
  | Lvalue_tuple int "ast list"
  | Kv_pair int ast ast
  | Arg int ast ast
  | Halt int ast
  | Done int ast
  | Callcc int ast
  | Local int ast
  | This int ast
  | Nop int
  | Error_node int

text \<open>The line of a node; reading it through the null pointer is undefined.\<close>

definition node_line :: "ast \<Rightarrow> int option" where
  "node_line n =
     (case n of
        No_node \<Rightarrow> None
      | Script l _ \<Rightarrow> Some l | Block l _ \<Rightarrow> Some l | Boolean l _ \<Rightarrow> Some l | Null l \<Rightarrow> Some l
      | Long l _ \<Rightarrow> Some l | Literal l _ \<Rightarrow> Some l | Str l _ \<Rightarrow> Some l | Align l _ _ \<Rightarrow> Some l
      | Number l _ _ \<Rightarrow> Some l | Scalar l _ \<Rightarrow> Some l | Array l _ \<Rightarrow> Some l | Hashtable l _ \<Rightarrow> Some l
      | Identifier l _ \<Rightarrow> Some l | Class_literal l _ \<Rightarrow> Some l | Backtick l _ \<Rightarrow> Some l | Address l _ \<Rightarrow> Some l
      | Call l _ _ \<Rightarrow> Some l | Assignment l _ _ _ \<Rightarrow> Some l | Binop l _ _ _ _ \<Rightarrow> Some l | Unaryop l _ _ _ \<Rightarrow> Some l
      | If l _ _ _ \<Rightarrow> Some l | While l _ _ \<Rightarrow> Some l | For l _ _ _ _ \<Rightarrow> Some l | Foreach l _ _ _ _ \<Rightarrow> Some l
      | Return l _ \<Rightarrow> Some l | Break l _ \<Rightarrow> Some l | Continue l _ \<Rightarrow> Some l | Yield l _ \<Rightarrow> Some l
      | Assign_loop l _ _ _ \<Rightarrow> Some l | Index l _ _ \<Rightarrow> Some l | Obj_expr l _ _ _ \<Rightarrow> Some l | Try_catch l _ _ _ \<Rightarrow> Some l
      | Throw l _ \<Rightarrow> Some l | Assert l _ _ \<Rightarrow> Some l | Env_bridge l _ _ _ _ \<Rightarrow> Some l | Import l _ _ \<Rightarrow> Some l
      | Lvalue_tuple l _ \<Rightarrow> Some l | Kv_pair l _ _ \<Rightarrow> Some l | Arg l _ _ \<Rightarrow> Some l | Halt l _ \<Rightarrow> Some l
      | Done l _ \<Rightarrow> Some l | Callcc l _ \<Rightarrow> Some l | Local l _ \<Rightarrow> Some l | This l _ \<Rightarrow> Some l | Nop l \<Rightarrow> Some l
      | Error_node l \<Rightarrow> Some l)"

text \<open>A pointer member of the union read as \<open>string_val\<close>: only the null pointer has a defined reading.\<close>

definition pointer_as_text :: "ast \<Rightarrow> string option option" where
  "pointer_as_text child = (if child = No_node then Some None else None)"

text \<open>
  \<open>as.string_val\<close>, read without a test of the node type: for a node of another type it is the first bytes
  of its union member taken as a pointer, which is defined only when they are all zero.
\<close>

definition string_val :: "ast \<Rightarrow> string option option" where
  "string_val n =
     (case n of
        Literal _ s \<Rightarrow> Some s | Str _ s \<Rightarrow> Some s | Scalar _ s \<Rightarrow> Some s | Array _ s \<Rightarrow> Some s | Hashtable _ s \<Rightarrow> Some s
      | Identifier _ s \<Rightarrow> Some s | Class_literal _ s \<Rightarrow> Some s | Backtick _ s \<Rightarrow> Some s | Address _ s \<Rightarrow> Some s
      | Null _ \<Rightarrow> Some None | Nop _ \<Rightarrow> Some None
      | Boolean _ b \<Rightarrow> (if b then None else Some None)
      | Long _ w \<Rightarrow> (if w = 0 then Some None else None)
      | Number _ _ d \<Rightarrow> (if d = 0 then Some None else None)
      | Align _ w _ \<Rightarrow> pointer_as_text w | Call _ t _ \<Rightarrow> pointer_as_text t | Assignment _ l _ _ \<Rightarrow> pointer_as_text l
      | Binop _ l _ _ _ \<Rightarrow> pointer_as_text l | Index _ c _ \<Rightarrow> pointer_as_text c | Obj_expr _ t _ _ \<Rightarrow> pointer_as_text t
      | Return _ v \<Rightarrow> pointer_as_text v | Break _ v \<Rightarrow> pointer_as_text v | Continue _ v \<Rightarrow> pointer_as_text v
      | Yield _ v \<Rightarrow> pointer_as_text v | Throw _ v \<Rightarrow> pointer_as_text v | Assert _ v _ \<Rightarrow> pointer_as_text v
      | Halt _ v \<Rightarrow> pointer_as_text v | Done _ v \<Rightarrow> pointer_as_text v | Callcc _ v \<Rightarrow> pointer_as_text v
      | Local _ v \<Rightarrow> pointer_as_text v | This _ v \<Rightarrow> pointer_as_text v
      | Kv_pair _ k _ \<Rightarrow> pointer_as_text k | Arg _ k _ \<Rightarrow> pointer_as_text k
      | _ \<Rightarrow> None)"

text \<open>The children of a node are smaller than the node, also those in a list.\<close>

lemma size_member: "x \<in> set xs \<Longrightarrow> size x \<le> size_list size xs"
  by (induction xs) auto

end
