(* ===== verification/Compiler_State.thy ===== *)
theory Compiler_State
  imports Ast VM_Objects
begin

text \<open>
  The state of the compiler and its primitive operations (\<^verbatim>\<open>src/slp_compiler.c\<close>, the part before
  \<open>compile_node\<close>): emitting bytes, jumps and constants, scopes, and the resolution of variables.

  The function object a compiler fills is held in \<open>cp_fn\<close> while its code is emitted and written to the heap
  at \<open>cp_function\<close> when it is finished; nothing reads it in between. Compilers that enclose the current one
  are a list. The name of a local is kept as its text. The arrays of pending jumps keep what an inner loop
  wrote behind their count, as the C arrays do. A pointer to a string or number that could not be allocated
  is used without a test in the code and is undefined here.
\<close>

subsection \<open>State\<close>

record local_var =
  lv_name :: "string option"
  lv_depth :: int
  lv_captured :: bool

record compiler =
  cp_function :: addr
  cp_fn :: obj_function
  cp_locals :: "local_var list"
  cp_scope_depth :: int
  cp_upvalues :: "(byte \<times> bool) list"
  cp_loop_start :: int
  cp_loop_continue_target :: int
  cp_loop_exit_jump :: int
  cp_loop_scope_depth :: int
  cp_try_depth :: int
  cp_loop_try_depth :: int
  cp_break_jumps :: "nat list"
  cp_break_count :: nat
  cp_continue_jumps :: "nat list"
  cp_continue_count :: nat
  cp_error :: "(int \<times> string) option"
  cp_repl_mode :: bool
  cp_inline_body :: bool

record compile_state =
  cs_vm :: vm
  cs_compiler :: compiler
  cs_enclosing :: "compiler list"

record compile_env =
  ce_sizes :: struct_sizes
  ce_alloc :: heap_allocator
  ce_source_name :: "string option"

type_synonym action = "compile_state \<Rightarrow> compile_state option"

text \<open>A sequence of statements.\<close>

fun do_all :: "action list \<Rightarrow> action" where
  "do_all [] s = Some s"
| "do_all (a # as) s = (case a s of None \<Rightarrow> None | Some s' \<Rightarrow> do_all as s')"

definition update_compiler :: "(compiler \<Rightarrow> compiler) \<Rightarrow> compile_state \<Rightarrow> compile_state" where
  "update_compiler f s = s\<lparr>cs_compiler := f (cs_compiler s)\<rparr>"

definition current_chunk :: "compile_state \<Rightarrow> chunk option" where
  "current_chunk s = fn_chunk (cp_fn (cs_compiler s))"

definition put_chunk :: "chunk \<Rightarrow> compile_state \<Rightarrow> compile_state" where
  "put_chunk ck = update_compiler (\<lambda>c. c\<lparr>cp_fn := (cp_fn c)\<lparr>fn_chunk := Some ck\<rparr>\<rparr>)"

definition compiler_error :: "int \<Rightarrow> string \<Rightarrow> compile_state \<Rightarrow> compile_state" where
  "compiler_error line msg =
     update_compiler (\<lambda>c. if cp_error c = None then c\<lparr>cp_error := Some (line, msg)\<rparr> else c)"

subsection \<open>Emitting code\<close>

definition emit_byte :: "byte \<Rightarrow> int \<Rightarrow> action" where
  "emit_byte b line s =
     do { ck \<leftarrow> current_chunk s; (_, ck) \<leftarrow> slp_chunk_write ck b line; Some (put_chunk ck s) }"

text \<open>An instruction with a one-byte operand.\<close>

definition emit_pair :: "byte \<Rightarrow> byte \<Rightarrow> int \<Rightarrow> action" where
  "emit_pair op operand line = do_all [emit_byte op line, emit_byte operand line]"

definition emit_short :: "u16 \<Rightarrow> int \<Rightarrow> action" where
  "emit_short v line s =
     do { ck \<leftarrow> current_chunk s; ck \<leftarrow> slp_chunk_write_short ck v line; Some (put_chunk ck s) }"

definition code_count :: "compile_state \<Rightarrow> nat option" where
  "code_count s = map_option (\<lambda>ck. length (ck_code ck)) (current_chunk s)"

text \<open>Emits a jump with a dummy operand and returns the offset of the operand.\<close>

definition emit_jump :: "byte \<Rightarrow> int \<Rightarrow> compile_state \<Rightarrow> (nat \<times> compile_state) option" where
  "emit_jump op line s =
     do { s \<leftarrow> do_all [emit_byte op line, emit_byte 0xFF line, emit_byte 0xFF line] s;
          n \<leftarrow> code_count s;
          Some (n - 2, s) }"

definition with_jump :: "byte \<Rightarrow> int \<Rightarrow> (nat \<Rightarrow> action) \<Rightarrow> action" where
  "with_jump op line body s = do { (offset, s) \<leftarrow> emit_jump op line s; body offset s }"

definition set_code :: "nat \<Rightarrow> byte \<Rightarrow> action" where
  "set_code i b s =
     do { ck \<leftarrow> current_chunk s;
          if i < length (ck_code ck) then Some (put_chunk (ck\<lparr>ck_code := (ck_code ck)[i := b]\<rparr>) s) else None }"

text \<open>Stores a jump distance in an operand, the high byte first.\<close>

definition set_operand :: "nat \<Rightarrow> int \<Rightarrow> action" where
  "set_operand offset jump =
     do_all [set_code offset (word_of_int (jump div 256)), set_code (Suc offset) (word_of_int jump)]"

definition patch_jump :: "nat \<Rightarrow> action" where
  "patch_jump offset s =
     do { n \<leftarrow> code_count s;
          let jump = int n - int offset - 2;
          if 65535 < jump then Some (compiler_error 0 ''Too much code to jump over.'' s)
          else set_operand offset jump s }"

definition patch_jumps :: "nat list \<Rightarrow> action" where
  "patch_jumps offsets = do_all (map patch_jump offsets)"

definition emit_loop :: "int \<Rightarrow> action" where
  "emit_loop line s =
     do { s \<leftarrow> emit_byte OP_LOOP line s;
          n \<leftarrow> code_count s;
          let offset = int n - cp_loop_start (cs_compiler s) + 2;
          if 32767 < offset then Some (compiler_error line ''Loop body too large.'' s)
          else do_all [emit_byte (word_of_int (offset div 256)) line, emit_byte (word_of_int offset) line] s }"

text \<open>The constant pool of the current chunk; \<open>add_constant\<close> returns the index of the constant.\<close>

definition add_constant :: "slp_value \<Rightarrow> compile_state \<Rightarrow> (nat \<times> compile_state) option" where
  "add_constant v s =
     do { ck \<leftarrow> current_chunk s; (i, ck) \<leftarrow> slp_chunk_add_constant (vm_heap (cs_vm s)) ck v; Some (i, put_chunk ck s) }"

definition make_constant :: "slp_value \<Rightarrow> compile_state \<Rightarrow> (u16 \<times> compile_state) option" where
  "make_constant v s =
     do { (i, s) \<leftarrow> add_constant v s;
          if 65535 < i then Some (0, compiler_error 0 ''Too many constants in one chunk.'' s)
          else Some (word_of_nat i, s) }"

definition emit_constant_index :: "slp_value \<Rightarrow> int \<Rightarrow> action" where
  "emit_constant_index v line s = do { (i, s) \<leftarrow> make_constant v s; emit_short i line s }"

definition emit_constant :: "slp_value \<Rightarrow> int \<Rightarrow> action" where
  "emit_constant v line = do_all [emit_byte OP_PUSH_CONST line, emit_constant_index v line]"

definition emit_return :: "int \<Rightarrow> action" where
  "emit_return line = do_all [emit_byte OP_PUSH_NULL line, emit_byte OP_RETURN line]"

text \<open>Strings and numbers of the source, as objects of the machine.\<close>

definition intern_str :: "compile_env \<Rightarrow> string \<Rightarrow> compile_state \<Rightarrow> (slp_value \<times> compile_state) option" where
  "intern_str env text s =
     do { (p, vm) \<leftarrow> slp_vm_copy_string (ce_sizes env) True (ce_alloc env (vm_heap (cs_vm s))) text (cs_vm s);
          a \<leftarrow> p;
          Some (VObj a, s\<lparr>cs_vm := vm\<rparr>) }"

definition emit_name :: "compile_env \<Rightarrow> string \<Rightarrow> int \<Rightarrow> action" where
  "emit_name env text line s = do { (v, s) \<leftarrow> intern_str env text s; emit_constant_index v line s }"

text \<open>An instruction with the name as its operand.\<close>

definition emit_named :: "compile_env \<Rightarrow> byte \<Rightarrow> string \<Rightarrow> int \<Rightarrow> action" where
  "emit_named env op text line s =
     do { (v, s) \<leftarrow> intern_str env text s; do_all [emit_byte op line, emit_constant_index v line] s }"

subsection \<open>Scopes\<close>

definition begin_scope :: action where
  "begin_scope s = Some (update_compiler (\<lambda>c. c\<lparr>cp_scope_depth := cp_scope_depth c + 1\<rparr>) s)"

text \<open>The locals of the closed scope are taken off the stack, the last one first; the argument is the reversed list.\<close>

fun pop_locals :: "local_var list \<Rightarrow> action" where
  "pop_locals [] s = Some s"
| "pop_locals [lv] s = Some s"
| "pop_locals (lv # lvs) s =
     (if cp_scope_depth (cs_compiler s) < lv_depth lv
      then (case emit_byte (if lv_captured lv then OP_CLOSE_UPVALUE else OP_POP) 0 s of
              None \<Rightarrow> None
            | Some s \<Rightarrow> pop_locals lvs (update_compiler (\<lambda>c. c\<lparr>cp_locals := butlast (cp_locals c)\<rparr>) s))
      else Some s)"

definition end_scope :: action where
  "end_scope s =
     (let s = update_compiler (\<lambda>c. c\<lparr>cp_scope_depth := cp_scope_depth c - 1\<rparr>) s
      in pop_locals (rev (cp_locals (cs_compiler s))) s)"

definition scoped :: "action list \<Rightarrow> action" where
  "scoped as = do_all ([begin_scope] @ as @ [end_scope])"

subsection \<open>Variables\<close>

text \<open>The index of the last local with the name.\<close>

definition resolve_local :: "compiler \<Rightarrow> string \<Rightarrow> nat option" where
  "resolve_local c name =
     find (\<lambda>i. lv_name (cp_locals c ! i) = Some name) (rev [0..<length (cp_locals c)])"

definition add_upvalue :: "byte \<Rightarrow> bool \<Rightarrow> compiler \<Rightarrow> nat \<times> compiler" where
  "add_upvalue index is_local c =
     (case find (\<lambda>i. cp_upvalues c ! i = (index, is_local)) [0..<length (cp_upvalues c)] of
        Some i \<Rightarrow> (i, c)
      | None \<Rightarrow>
          if 256 \<le> length (cp_upvalues c)
          then (0, if cp_error c = None then c\<lparr>cp_error := Some (0, ''Too many closure variables in function.'')\<rparr> else c)
          else (length (cp_upvalues c),
                c\<lparr>cp_upvalues := cp_upvalues c @ [(index, is_local)],
                  cp_fn := (cp_fn c)\<lparr>fn_upvalue_count := int (length (cp_upvalues c)) + 1\<rparr>\<rparr>))"

definition mark_captured :: "nat \<Rightarrow> compiler \<Rightarrow> compiler" where
  "mark_captured i c = c\<lparr>cp_locals := (cp_locals c)[i := (cp_locals c ! i)\<lparr>lv_captured := True\<rparr>]\<rparr>"

fun resolve_upvalue :: "compiler \<Rightarrow> compiler list \<Rightarrow> string \<Rightarrow> nat option \<times> compiler \<times> compiler list" where
  "resolve_upvalue c [] name = (None, c, [])"
| "resolve_upvalue c (e # es) name =
     (case resolve_local e name of
        Some i \<Rightarrow> let (u, c) = add_upvalue (word_of_nat i) True c in (Some u, c, mark_captured i e # es)
      | None \<Rightarrow>
          (case resolve_upvalue e es name of
             (Some u, e, es) \<Rightarrow> let (u, c) = add_upvalue (word_of_nat u) False c in (Some u, c, e # es)
           | (None, e, es) \<Rightarrow> (None, c, e # es)))"

text \<open>Where a variable lives: a local slot, an upvalue, or a global named by a constant.\<close>

datatype variable = Local_slot nat | Upvalue_slot nat | Global_name

definition resolve_variable :: "string \<Rightarrow> compile_state \<Rightarrow> variable \<times> compile_state" where
  "resolve_variable name s =
     (case resolve_local (cs_compiler s) name of
        Some i \<Rightarrow> (Local_slot i, s)
      | None \<Rightarrow>
          (case resolve_upvalue (cs_compiler s) (cs_enclosing s) name of
             (Some u, c, es) \<Rightarrow> (Upvalue_slot u, s\<lparr>cs_compiler := c, cs_enclosing := es\<rparr>)
           | (None, c, es) \<Rightarrow> (Global_name, s\<lparr>cs_compiler := c, cs_enclosing := es\<rparr>)))"

text \<open>The index of a global's name is cut to 16 bits without a test.\<close>

definition named_variable :: "compile_env \<Rightarrow> string \<Rightarrow> bool \<Rightarrow> int \<Rightarrow> action" where
  "named_variable env name assign line s =
     (case resolve_variable name s of
        (Local_slot i, s) \<Rightarrow>
          if i < 8 then emit_byte ((if assign then OP_STORE_LOCAL_0 else OP_LOAD_LOCAL_0) + word_of_nat i) line s
          else emit_pair (if assign then OP_STORE_LOCAL else OP_LOAD_LOCAL) (word_of_nat i) line s
      | (Upvalue_slot i, s) \<Rightarrow>
          emit_pair (if assign then OP_STORE_UPVALUE else OP_LOAD_UPVALUE) (word_of_nat i) line s
      | (Global_name, s) \<Rightarrow>
          do { (v, s) \<leftarrow> intern_str env name s;
               (i, s) \<leftarrow> add_constant v s;
               do_all [emit_byte (if assign then OP_STORE_GLOBAL else OP_LOAD_GLOBAL) line, emit_short (word_of_nat i) line] s })"

definition reference_variable :: "compile_env \<Rightarrow> string \<Rightarrow> int \<Rightarrow> action" where
  "reference_variable env name line s =
     (case resolve_variable name s of
        (Local_slot i, s) \<Rightarrow> emit_pair OP_REFERENCE_LOCAL (word_of_nat i) line s
      | (Upvalue_slot i, s) \<Rightarrow> emit_pair OP_REFERENCE_UPVALUE (word_of_nat i) line s
      | (Global_name, s) \<Rightarrow>
          do { (v, s) \<leftarrow> intern_str env name s;
               (i, s) \<leftarrow> add_constant v s;
               let (i, s) = (if 65535 < i then (0, compiler_error line ''Too many constants in one chunk.'' s) else (i, s));
               do_all [emit_byte OP_REFERENCE_GLOBAL line, emit_short (word_of_nat i) line] s })"

subsection \<open>Functions\<close>

definition new_compiler :: "addr \<Rightarrow> obj_function \<Rightarrow> bool \<Rightarrow> compiler" where
  "new_compiler a fn repl =
     \<lparr>cp_function = a, cp_fn = fn, cp_locals = [\<lparr>lv_name = None, lv_depth = 0, lv_captured = False\<rparr>], cp_scope_depth = 0,
      cp_upvalues = [], cp_loop_start = -1, cp_loop_continue_target = -1, cp_loop_exit_jump = -1,
      cp_loop_scope_depth = 0, cp_try_depth = 0, cp_loop_try_depth = 0, cp_break_jumps = [], cp_break_count = 0,
      cp_continue_jumps = [], cp_continue_count = 0, cp_error = None, cp_repl_mode = repl, cp_inline_body = False\<rparr>"

definition argument_names :: "string list" where
  "argument_names =
     [''$0'', ''$1'', ''$2'', ''$3'', ''$4'', ''$5'', ''$6'', ''$7'', ''$8'', ''$9'', ''@_'']"

fun add_arguments :: "compile_env \<Rightarrow> string list \<Rightarrow> action" where
  "add_arguments env [] s = Some s"
| "add_arguments env (name # names) s =
     (case intern_str env name s of
        None \<Rightarrow> None
      | Some (_, s) \<Rightarrow>
          add_arguments env names
            (update_compiler (\<lambda>c. c\<lparr>cp_locals := cp_locals c @ [\<lparr>lv_name = Some name, lv_depth = 0, lv_captured = False\<rparr>]\<rparr>) s))"

text \<open>
  The new function object is linked into the collector's list without being counted. The current compiler,
  if there is one, becomes the first enclosing one.
\<close>

definition new_function :: "compile_env \<Rightarrow> vm \<Rightarrow> (addr \<times> obj_function \<times> vm) option option" where
  "new_function env vm =
     (case slp_obj_function_new (ce_alloc env (vm_heap vm)) True (vm_heap vm) of
        (None, _) \<Rightarrow> Some None
      | (Some a, h) \<Rightarrow>
          do { fn \<leftarrow> get_function h a;
               let vm = vm\<lparr>vm_heap := h, vm_objects := a # vm_objects vm\<rparr>;
               (case ce_source_name env of
                  None \<Rightarrow> Some (Some (a, fn, vm))
                | Some name \<Rightarrow>
                    do { (p, vm) \<leftarrow> slp_vm_intern_string (ce_sizes env) True (ce_alloc env (vm_heap vm)) name vm;
                         Some (Some (a, fn\<lparr>fn_source_name := p\<rparr>, vm)) }) })"

definition init_compiler :: "compile_env \<Rightarrow> action" where
  "init_compiler env s =
     do { new \<leftarrow> new_function env (cs_vm s);
          (a, fn, vm) \<leftarrow> new;
          add_arguments env argument_names
            \<lparr>cs_vm = vm, cs_compiler = new_compiler a fn (cp_repl_mode (cs_compiler s)),
             cs_enclosing = cs_compiler s # cs_enclosing s\<rparr> }"

end
