(* ===== verification/Compiler.thy ===== *)
theory Compiler
  imports Compiler_State
begin

text \<open>
  The compiler (\<^verbatim>\<open>src/slp_compiler.c\<close>): the code of every node type, and the compilation of a script.
\<close>

subsection \<open>Names\<close>

text \<open>A name is printed into a buffer of 256 bytes: what does not fit is cut off.\<close>

definition scalar_name :: "string \<Rightarrow> string" where
  "scalar_name s = take 255 (CHR ''$'' # s)"

definition array_name :: "string \<Rightarrow> string" where
  "array_name s = take 255 (if s = ''@'' then s else CHR ''@'' # s)"

definition hash_name :: "string \<Rightarrow> string" where
  "hash_name s = take 255 (if s = ''%'' then s else CHR ''%'' # s)"

definition variable_node_name :: "ast \<Rightarrow> string option" where
  "variable_node_name n =
     (case n of
        Scalar _ (Some s) \<Rightarrow> Some (scalar_name s)
      | Array _ (Some s) \<Rightarrow> Some (array_name s)
      | Hashtable _ (Some s) \<Rightarrow> Some (hash_name s)
      | _ \<Rightarrow> None)"

text \<open>The name of an assigned variable, and of one that is incremented; the latter reads the text of any operand.\<close>

definition target_name :: "ast \<Rightarrow> string option" where
  "target_name n = (case n of Identifier _ (Some s) \<Rightarrow> Some (take 255 s) | _ \<Rightarrow> variable_node_name n)"

definition step_name :: "ast \<Rightarrow> string \<Rightarrow> string" where
  "step_name n s =
     (case n of
        Scalar _ _ \<Rightarrow> take 255 (CHR ''$'' # s)
      | Array _ _ \<Rightarrow> take 255 (CHR ''@'' # s)
      | Hashtable _ _ \<Rightarrow> take 255 (CHR ''%'' # s)
      | _ \<Rightarrow> take 255 s)"

subsection \<open>Instruction selection\<close>

definition compound_opcodes :: "(slp_token_type \<times> byte) list" where
  "compound_opcodes =
     [(Asg TOKEN_PLUSEQUAL, OP_ADD), (Asg TOKEN_MINUSEQUAL, OP_SUBTRACT), (Asg TOKEN_TIMESEQUAL, OP_MULTIPLY),
      (Asg TOKEN_DIVEQUAL, OP_DIVIDE), (Asg TOKEN_CATEQUAL, OP_CONCAT), (Asg TOKEN_ANDEQUAL, OP_BIT_AND),
      (Asg TOKEN_OREQUAL, OP_BIT_OR), (Asg TOKEN_XOREQUAL, OP_BIT_XOR), (Asg TOKEN_LSHIFTEQUAL, OP_LSHIFT),
      (Asg TOKEN_RSHIFTEQUAL, OP_RSHIFT), (Tok TOKEN_EXPEQUAL, OP_POWER)]"

definition assignment_operation_opcode :: "slp_token_type \<Rightarrow> byte" where
  "assignment_operation_opcode t = (case map_of compound_opcodes t of Some op \<Rightarrow> op | None \<Rightarrow> OP_NOP)"

definition emit_compound :: "slp_token_type \<Rightarrow> int \<Rightarrow> action" where
  "emit_compound t line = (case map_of compound_opcodes t of Some op \<Rightarrow> emit_byte op line | None \<Rightarrow> Some)"

definition binary_opcodes :: "(slp_token_type \<times> byte) list" where
  "binary_opcodes =
     [(Sym TOKEN_PLUS, OP_ADD), (Sym TOKEN_MINUS, OP_SUBTRACT), (Sym TOKEN_STAR, OP_MULTIPLY), (Sym TOKEN_SLASH, OP_DIVIDE),
      (Sym TOKEN_PERCENT, OP_MODULO), (Tok TOKEN_EXP, OP_POWER), (Sym TOKEN_DOT, OP_CONCAT), (Sym TOKEN_LOWER_X, OP_REPEAT),
      (Tok TOKEN_EQ, OP_EQUAL), (Tok TOKEN_NE, OP_NOT_EQUAL), (Sym TOKEN_LESS, OP_LESS), (Sym TOKEN_GREATER, OP_GREATER),
      (Tok TOKEN_LE, OP_LESS_EQUAL), (Tok TOKEN_GE, OP_GREATER_EQUAL), (Tok TOKEN_SPACESHIP, OP_SPACESHIP),
      (Tok TOKEN_EQI, OP_MATCH), (Tok TOKEN_NEQI, OP_NOT_MATCH), (Sym TOKEN_AMPERSAND, OP_BIT_AND),
      (Sym TOKEN_PIPE, OP_BIT_OR), (Sym TOKEN_CARET, OP_BIT_XOR), (Tok TOKEN_LSHIFT, OP_LSHIFT), (Tok TOKEN_RSHIFT, OP_RSHIFT)]"

definition binary_opcode :: "slp_token_type \<Rightarrow> byte" where
  "binary_opcode t = (case map_of binary_opcodes t of Some op \<Rightarrow> op | None \<Rightarrow> OP_ADD)"

subsection \<open>Predicates\<close>

definition is_predicate_token :: "slp_token_type \<Rightarrow> bool" where
  "is_predicate_token t \<longleftrightarrow> t \<in> set
     [Tok TOKEN_LAND, Tok TOKEN_LOR, Tok TOKEN_EQ, Tok TOKEN_NE, Sym TOKEN_LESS, Sym TOKEN_GREATER, Tok TOKEN_LE,
      Tok TOKEN_GE, Tok TOKEN_EQI, Tok TOKEN_NEQI, Tok TOKEN_BUILTIN_BINARY_PREDICATE_BRIDGE]"

definition assert_condition_is_predicate :: "ast \<Rightarrow> bool" where
  "assert_condition_is_predicate n = (case n of Binop _ _ op _ _ \<Rightarrow> is_predicate_token (fst op) | _ \<Rightarrow> True)"

definition condition_is_explicit_predicate :: "ast \<Rightarrow> bool" where
  "condition_is_explicit_predicate n =
     (case n of
        Unaryop _ op _ _ \<Rightarrow> fst op = Tok TOKEN_UNARY_PREDICATE_BRIDGE
      | Binop _ _ op _ _ \<Rightarrow> is_predicate_token (fst op)
      | _ \<Rightarrow> False)"

definition emit_truth_predicate :: "compile_env \<Rightarrow> int \<Rightarrow> action" where
  "emit_truth_predicate env line = emit_named env OP_UNARY_PREDICATE ''-istrue'' line"

subsection \<open>Statements\<close>

text \<open>The statements after which the code takes no value off the stack.\<close>

definition leaves_no_value :: "ast \<Rightarrow> bool" where
  "leaves_no_value n =
     (case n of
        Env_bridge _ _ _ _ _ \<Rightarrow> True | If _ _ _ _ \<Rightarrow> True | While _ _ _ \<Rightarrow> True | For _ _ _ _ _ \<Rightarrow> True
      | Foreach _ _ _ _ _ \<Rightarrow> True | Assert _ _ _ \<Rightarrow> True | Try_catch _ _ _ _ \<Rightarrow> True | Return _ _ \<Rightarrow> True
      | Throw _ _ \<Rightarrow> True | Yield _ _ \<Rightarrow> True | Break _ _ \<Rightarrow> True | Continue _ _ \<Rightarrow> True | Nop _ \<Rightarrow> True
      | _ \<Rightarrow> False)"

definition end_statement :: "bool \<Rightarrow> ast \<Rightarrow> action" where
  "end_statement print_it n s =
     do { line \<leftarrow> node_line n;
          if leaves_no_value n then Some s else emit_byte (if print_it then OP_RETURN else OP_POP) line s }"

text \<open>The statements with their code; \<open>repl\<close> tells whether the value of the last one is returned.\<close>

fun run_statements :: "bool \<Rightarrow> (ast \<times> action) list \<Rightarrow> action" where
  "run_statements repl [] s = Some s"
| "run_statements repl ((n, act) # rest) s =
     (case do_all [act, end_statement (repl \<and> rest = []) n] s of
        None \<Rightarrow> None
      | Some s \<Rightarrow> run_statements repl rest s)"

definition pop_value :: "ast \<Rightarrow> action" where
  "pop_value n s = do { line \<leftarrow> node_line n; emit_byte OP_POP line s }"

subsection \<open>Loops\<close>

text \<open>The loop fields are set for the inner loop and restored behind it; the arrays of pending jumps are not.\<close>

definition enter_loop :: "bool \<Rightarrow> action" where
  "enter_loop sets_continue s =
     do { n \<leftarrow> code_count s;
          Some (update_compiler (\<lambda>c. c\<lparr>cp_loop_start := int n,
            cp_loop_continue_target := (if sets_continue then int n else cp_loop_continue_target c),
            cp_loop_scope_depth := cp_scope_depth c, cp_loop_try_depth := cp_try_depth c,
            cp_break_count := 0, cp_continue_count := 0\<rparr>) s) }"

definition leave_loop :: "compiler \<Rightarrow> action" where
  "leave_loop outer s =
     Some (update_compiler (\<lambda>c. c\<lparr>cp_loop_start := cp_loop_start outer,
       cp_loop_continue_target := cp_loop_continue_target outer, cp_loop_exit_jump := cp_loop_exit_jump outer,
       cp_loop_scope_depth := cp_loop_scope_depth outer, cp_loop_try_depth := cp_loop_try_depth outer,
       cp_break_count := cp_break_count outer, cp_continue_count := cp_continue_count outer\<rparr>) s)"

definition looping :: "bool \<Rightarrow> action \<Rightarrow> action" where
  "looping sets_continue body s = do_all [enter_loop sets_continue, body, leave_loop (cs_compiler s)] s"

definition set_exit_jump :: "int \<Rightarrow> action" where
  "set_exit_jump i s = Some (update_compiler (\<lambda>c. c\<lparr>cp_loop_exit_jump := i\<rparr>) s)"

definition patch_breaks :: action where
  "patch_breaks s = patch_jumps (take (cp_break_count (cs_compiler s)) (cp_break_jumps (cs_compiler s))) s"

definition patch_continues :: action where
  "patch_continues s = patch_jumps (take (cp_continue_count (cs_compiler s)) (cp_continue_jumps (cs_compiler s))) s"

text \<open>In a \<open>for\<close> loop a continue goes to the increments; the distance is not tested.\<close>

definition patch_continues_to :: "nat \<Rightarrow> action" where
  "patch_continues_to target s =
     do_all (map (\<lambda>offset. set_operand offset (int target - int offset - 2))
       (take (cp_continue_count (cs_compiler s)) (cp_continue_jumps (cs_compiler s)))) s"

definition at_count :: "(nat \<Rightarrow> action) \<Rightarrow> action" where
  "at_count body s = do { n \<leftarrow> code_count s; body n s }"

definition array_put :: "nat \<Rightarrow> 'a \<Rightarrow> 'a list \<Rightarrow> 'a list" where
  "array_put i x xs = take i xs @ [x] @ drop (Suc i) xs"

definition record_break :: "nat \<Rightarrow> action" where
  "record_break offset = (\<lambda>s. Some (update_compiler (\<lambda>c.
     if cp_break_count c < 256
     then c\<lparr>cp_break_jumps := array_put (cp_break_count c) offset (cp_break_jumps c), cp_break_count := Suc (cp_break_count c)\<rparr>
     else c) s))"

definition record_continue :: "nat \<Rightarrow> action" where
  "record_continue offset = (\<lambda>s. Some (update_compiler (\<lambda>c.
     if cp_continue_count c < 256
     then c\<lparr>cp_continue_jumps := array_put (cp_continue_count c) offset (cp_continue_jumps c),
            cp_continue_count := Suc (cp_continue_count c)\<rparr>
     else c) s))"

text \<open>A break or continue leaves the handlers of the tries inside the loop; outside every loop it has no code.\<close>

definition jump_out :: "(nat \<Rightarrow> action) \<Rightarrow> int \<Rightarrow> action" where
  "jump_out record_jump line s =
     (let c = cs_compiler s
      in if 0 \<le> cp_loop_start c
         then do_all [do_all (replicate (nat (cp_try_depth c - cp_loop_try_depth c)) (emit_byte OP_POP_HANDLER line)),
                      with_jump OP_JUMP line record_jump] s
         else Some s)"

definition add_try_depth :: "int \<Rightarrow> action" where
  "add_try_depth d s = Some (update_compiler (\<lambda>c. c\<lparr>cp_try_depth := cp_try_depth c + d\<rparr>) s)"

definition inside_try :: "action \<Rightarrow> action" where
  "inside_try body = do_all [add_try_depth 1, body, add_try_depth (- 1)]"

subsection \<open>Closures\<close>

fun line_range :: "int list \<Rightarrow> int \<times> int \<Rightarrow> int \<times> int" where
  "line_range [] r = r"
| "line_range (l # ls) (first_line, last_line) =
     line_range ls
       (if l \<le> 0 then (first_line, last_line)
        else (if first_line = 0 \<or> l < first_line then l else first_line, if last_line < l then l else last_line))"

definition set_line_range :: "int \<Rightarrow> action" where
  "set_line_range body_line s =
     do { ck \<leftarrow> current_chunk s;
          let (a, b) = line_range (ck_lines ck) (0, 0);
          Some (update_compiler (\<lambda>c. c\<lparr>cp_fn := (cp_fn c)\<lparr>fn_line_start := (if 0 < a then a else body_line),
            fn_line_end := (if 0 < b then b else body_line)\<rparr>\<rparr>) s) }"

definition begin_function :: "compile_env \<Rightarrow> string option \<Rightarrow> action" where
  "begin_function env keyword s =
     do { s \<leftarrow> init_compiler env s;
          Some (update_compiler (\<lambda>c. c\<lparr>cp_inline_body := (keyword = Some ''inline'')\<rparr>) s) }"

definition name_function :: "compile_env \<Rightarrow> string option \<Rightarrow> action" where
  "name_function env keyword s =
     (case keyword of
        None \<Rightarrow> Some s
      | Some k \<Rightarrow>
          do { (v, s) \<leftarrow> intern_str env k s;
               Some (update_compiler (\<lambda>c. c\<lparr>cp_fn := (cp_fn c)\<lparr>fn_name := (case v of VObj a \<Rightarrow> Some a | _ \<Rightarrow> None)\<rparr>\<rparr>) s) })"

text \<open>
  The end of a function body: the finished function is written to the heap, an error of the inner compiler
  becomes one of the outer, and the outer code makes the closure and registers it under its name.
\<close>

definition leave_function :: "compile_state \<Rightarrow> compile_state option" where
  "leave_function s =
     (case cs_enclosing s of
        [] \<Rightarrow> None
      | c # es \<Rightarrow>
          let sub = cs_compiler s;
              vm = (cs_vm s)\<lparr>vm_heap := (vm_heap (cs_vm s))(cp_function sub \<mapsto> OFunction (cp_fn sub))\<rparr>;
              s = \<lparr>cs_vm = vm, cs_compiler = c, cs_enclosing = es\<rparr>
          in Some (case cp_error sub of None \<Rightarrow> s | Some (l, m) \<Rightarrow> compiler_error l m s))"

definition emit_upvalues :: "(byte \<times> bool) list \<Rightarrow> int \<Rightarrow> action" where
  "emit_upvalues uvs line =
     do_all (map (\<lambda>(index, is_local). do_all [emit_byte (if is_local then 1 else 0) line, emit_byte index line]) uvs)"

definition register_bridge :: "compile_env \<Rightarrow> string option \<Rightarrow> string option \<Rightarrow> int \<Rightarrow> action" where
  "register_bridge env keyword ident line =
     (case (keyword, ident) of
        (Some k, Some i) \<Rightarrow> do_all [emit_named env OP_BRIDGE_REGISTER k line, emit_name env i line]
      | _ \<Rightarrow> Some)"

definition emit_import :: "compile_env \<Rightarrow> string \<Rightarrow> string option \<Rightarrow> int \<Rightarrow> action" where
  "emit_import env target path line =
     do_all [emit_named env OP_IMPORT target line,
             (case path of Some p \<Rightarrow> emit_name env p line | None \<Rightarrow> emit_short 0 line)]"

definition emit_call_named :: "compile_env \<Rightarrow> byte \<Rightarrow> string \<Rightarrow> int \<Rightarrow> action" where
  "emit_call_named env arg_count name line = do_all [emit_pair OP_CALL_NAMED arg_count line, emit_name env name line]"

definition end_function :: "compile_env \<Rightarrow> string option \<Rightarrow> string option \<Rightarrow> int \<Rightarrow> int \<Rightarrow> action" where
  "end_function env keyword ident body_line line s =
     do { s \<leftarrow> do_all [set_line_range body_line, emit_return line, name_function env keyword] s;
          let sub = cs_compiler s;
          do_all [leave_function, emit_byte OP_CLOSURE line, emit_constant_index (VObj (cp_function sub)) line,
                  emit_upvalues (cp_upvalues sub) line, register_bridge env keyword ident line] s }"

subsection \<open>Calls and assignments\<close>

definition call_argument_value :: "ast \<Rightarrow> ast" where
  "call_argument_value n = (case n of Arg _ _ v \<Rightarrow> v | Kv_pair _ _ v \<Rightarrow> v | _ \<Rightarrow> n)"

lemma size_call_argument_value: "size (call_argument_value n) \<le> size n"
  by (cases n) (simp_all add: call_argument_value_def)

text \<open>The name of a call target or message that is an identifier.\<close>

definition identifier_name :: "ast \<Rightarrow> string option" where
  "identifier_name n = (case n of Identifier _ s \<Rightarrow> s | _ \<Rightarrow> None)"

definition too_many :: "nat \<Rightarrow> int \<Rightarrow> string \<Rightarrow> action" where
  "too_many count line msg s = Some (if 255 < count then compiler_error line msg s else s)"

definition emit_reverse :: "nat \<Rightarrow> int \<Rightarrow> action" where
  "emit_reverse count line =
     (if 1 < count then emit_pair OP_REVERSE (word_of_nat count) line else Some)"

fun index_root :: "ast \<Rightarrow> ast" where
  "index_root (Index line container element) = index_root container"
| "index_root n = n"

definition index_autovivify_kind :: "ast \<Rightarrow> byte" where
  "index_autovivify_kind n = (case index_root n of Array _ _ \<Rightarrow> 1 | Hashtable _ _ \<Rightarrow> 2 | _ \<Rightarrow> 0)"

text \<open>The assignment of one element of a tuple: the value of the right side is on the stack.\<close>

definition assign_element :: "compile_env \<Rightarrow> slp_token_type \<Rightarrow> nat \<Rightarrow> int \<Rightarrow> nat \<Rightarrow> ast \<Rightarrow> action" where
  "assign_element env t count line i element =
     (case target_name element of
        None \<Rightarrow> (if element = No_node then (\<lambda>_. None) else Some)
      | Some name \<Rightarrow>
          let compound = (t \<noteq> Sym TOKEN_EQUAL); op = assignment_operation_opcode t
          in do_all
               [emit_byte OP_DUP line,
                if compound \<and> count = 1
                then do_all [named_variable env name False line, emit_pair OP_TUPLE_COMPOUND op line]
                else do_all
                  [emit_constant (VNum (f_of_int (int i))) line, emit_byte OP_TUPLE_GET line,
                   if compound
                   then do_all [named_variable env name False line, emit_byte OP_SWAP line, emit_byte op line]
                   else Some],
                named_variable env name True line,
                emit_byte OP_POP line])"

definition assign_elements :: "compile_env \<Rightarrow> slp_token_type \<Rightarrow> ast list \<Rightarrow> int \<Rightarrow> action" where
  "assign_elements env t elements line =
     do_all (map (\<lambda>(i, element). assign_element env t (length elements) line i element) (enumerate 0 elements))"

text \<open>The name before the value of a pair, and the value passed by reference if it is a variable.\<close>

definition by_name_argument :: "ast \<Rightarrow> string option" where
  "by_name_argument v =
     (case v of Address _ (Some (c # s)) \<Rightarrow> if c \<in> set ''$@%'' then Some (c # s) else None | _ \<Rightarrow> None)"

definition pair_name :: "ast \<Rightarrow> string option" where
  "pair_name n =
     (case variable_node_name n of
        Some s \<Rightarrow> Some s
      | None \<Rightarrow> map_option (take 255) (identifier_name n))"

subsection \<open>Nodes\<close>

definition compile_step :: "compile_env \<Rightarrow> slp_token_type \<Rightarrow> string \<Rightarrow> int \<Rightarrow> action" where
  "compile_step env t name line =
     do_all [named_variable env name False line,
             emit_byte (if t = Tok TOKEN_INC then OP_INCREMENT else OP_DECREMENT) line,
             named_variable env name True line]"

text \<open>
  The code of the node types with jumps or several instructions; the code of the children is an argument.
\<close>

definition short_circuit :: "byte \<Rightarrow> int \<Rightarrow> action \<Rightarrow> action \<Rightarrow> action" where
  "short_circuit op line left right =
     do_all [left, with_jump op line (\<lambda>end_jump. do_all [right, patch_jump end_jump])]"

definition binop_code :: "compile_env \<Rightarrow> int \<Rightarrow> ast_op \<Rightarrow> bool \<Rightarrow> action \<Rightarrow> action \<Rightarrow> action" where
  "binop_code env line op negate left right =
     (if fst op = Tok TOKEN_LAND then short_circuit OP_AND line left right
      else if fst op = Tok TOKEN_LOR then short_circuit OP_OR line left right
      else if fst op = Tok TOKEN_BUILTIN_BINARY_PREDICATE_BRIDGE then
        do_all [left, right, emit_named env (if negate then OP_NEGATED_BINARY_PREDICATE else OP_BINARY_PREDICATE) (snd op) line]
      else
        do_all [right, left, emit_byte OP_SWAP line, emit_byte (binary_opcode (fst op)) line])"

definition unary_code :: "compile_env \<Rightarrow> int \<Rightarrow> ast_op \<Rightarrow> action" where
  "unary_code env line op =
     (if fst op = Sym TOKEN_MINUS then emit_byte OP_NEGATE line
      else if fst op = Sym TOKEN_BANG then emit_byte OP_NOT line
      else if fst op = Tok TOKEN_UNARY_PREDICATE_BRIDGE then emit_named env OP_UNARY_PREDICATE (snd op) line
      else Some)"

definition assign_index :: "int \<Rightarrow> slp_token_type \<Rightarrow> action \<Rightarrow> action \<Rightarrow> action \<Rightarrow> action" where
  "assign_index line t container element right =
     do_all [container, element,
             if t \<noteq> Sym TOKEN_EQUAL then do_all [emit_byte OP_DUP2 line, emit_byte OP_INDEX_GET line] else Some,
             right, emit_compound t line, emit_byte OP_INDEX_SET line]"

definition assign_variable :: "compile_env \<Rightarrow> int \<Rightarrow> slp_token_type \<Rightarrow> string \<Rightarrow> action \<Rightarrow> action" where
  "assign_variable env line t name right =
     do_all [if t \<noteq> Sym TOKEN_EQUAL
             then do_all [named_variable env name False line, right, emit_compound t line]
             else right,
             named_variable env name True line]"

definition if_code :: "int \<Rightarrow> action \<Rightarrow> action \<Rightarrow> action \<Rightarrow> action" where
  "if_code line condition then_branch else_branch =
     do_all [condition,
             with_jump OP_JUMP_IF_FALSE line (\<lambda>then_jump. do_all
               [emit_byte OP_POP line, then_branch,
                with_jump OP_JUMP line (\<lambda>else_jump. do_all
                  [patch_jump then_jump, emit_byte OP_POP line, else_branch, patch_jump else_jump])])]"

definition while_code :: "int \<Rightarrow> action \<Rightarrow> action \<Rightarrow> action" where
  "while_code line condition body =
     looping True (do_all
       [condition,
        with_jump OP_JUMP_IF_FALSE line (\<lambda>exit_jump. do_all
          [set_exit_jump (int exit_jump), emit_byte OP_POP line, body, emit_loop line,
           patch_jump exit_jump, emit_byte OP_POP line, patch_breaks, patch_continues])])"

definition for_code :: "int \<Rightarrow> action list \<Rightarrow> action option \<Rightarrow> action list \<Rightarrow> action \<Rightarrow> action" where
  "for_code line initializers condition increments body =
     scoped
       [do_all initializers,
        looping False (do_all
          [(case condition of
              Some test \<Rightarrow>
                do_all [test,
                  with_jump OP_JUMP_IF_FALSE line (\<lambda>exit_jump. do_all
                    [set_exit_jump (int exit_jump), emit_byte OP_POP line, body,
                     at_count (\<lambda>inc_start. do_all
                       [do_all increments, emit_loop line, patch_jump exit_jump, emit_byte OP_POP line,
                        patch_continues_to inc_start])])]
            | None \<Rightarrow>
                do_all [set_exit_jump (- 1), body,
                  at_count (\<lambda>inc_start. do_all [do_all increments, emit_loop line, patch_continues_to inc_start])]),
           patch_breaks])]"

definition foreach_code :: "compile_env \<Rightarrow> int \<Rightarrow> string option \<Rightarrow> string \<Rightarrow> action \<Rightarrow> action \<Rightarrow> action" where
  "foreach_code env line key val generator body =
     scoped
       [generator, emit_constant (VNum (f_of_int 0)) line,
        looping True (
          with_jump (if key \<noteq> None then OP_FOREACH_NEXT else OP_FOREACH_NEXT_VALUE) line (\<lambda>exit_jump. do_all
            [set_exit_jump (int exit_jump),
             emit_named env OP_STORE_GLOBAL (take 255 (CHR ''$'' # val)) line, emit_byte OP_POP line,
             (case key of
                Some k \<Rightarrow> emit_named env OP_STORE_GLOBAL (take 255 (CHR ''$'' # k)) line
              | None \<Rightarrow> Some),
             emit_byte OP_POP line,
             body, patch_continues, emit_loop line, patch_jump exit_jump, patch_breaks,
             emit_byte OP_POP line, emit_byte OP_POP line]))]"

definition assign_loop_code :: "compile_env \<Rightarrow> int \<Rightarrow> string \<Rightarrow> action \<Rightarrow> action \<Rightarrow> action" where
  "assign_loop_code env line var generator body =
     looping True (do_all
       [generator, named_variable env (take 255 (CHR ''$'' # var)) True line,
        with_jump OP_JUMP_IF_NULL line (\<lambda>exit_jump. do_all
          [set_exit_jump (int exit_jump), emit_byte OP_POP line, body, emit_loop line,
           patch_jump exit_jump, emit_byte OP_POP line, patch_breaks, patch_continues])])"

text \<open>\<open>iff\<close> is compiled in place: its second value defaults to 1, its third to null.\<close>

definition iff_code :: "int \<Rightarrow> action \<Rightarrow> action option \<Rightarrow> action option \<Rightarrow> action" where
  "iff_code line condition yes no =
     do_all
       [condition,
        with_jump OP_JUMP_IF_FALSE line (\<lambda>false_jump. do_all
          [emit_byte OP_POP line,
           (case yes of None \<Rightarrow> emit_constant (VNum (f_of_int 1)) line | Some act \<Rightarrow> act),
           with_jump OP_JUMP line (\<lambda>end_jump. do_all
             [patch_jump false_jump, emit_byte OP_POP line,
              (case no of Some act \<Rightarrow> act | None \<Rightarrow> emit_byte OP_PUSH_NULL line),
              patch_jump end_jump])])]"

definition call_code :: "compile_env \<Rightarrow> int \<Rightarrow> string option \<Rightarrow> action \<Rightarrow> action list \<Rightarrow> action" where
  "call_code env line target target_code args =
     do_all
       [(case target of Some name \<Rightarrow> named_variable env name False line | None \<Rightarrow> target_code),
        do_all args,
        too_many (length args) line ''Too many arguments in call.'',
        emit_reverse (length args) line,
        (case target of
           Some name \<Rightarrow> emit_call_named env (word_of_nat (length args)) name line
         | None \<Rightarrow> emit_pair OP_CALL (word_of_nat (length args)) line)]"

definition object_code :: "compile_env \<Rightarrow> int \<Rightarrow> string option \<Rightarrow> action \<Rightarrow> bool \<Rightarrow> string option \<Rightarrow> action \<Rightarrow> action list \<Rightarrow> action" where
  "object_code env line target target_code has_message message message_code args =
     do_all
       [(case target of Some name \<Rightarrow> named_variable env name False line | None \<Rightarrow> target_code),
        too_many (length args) line ''Too many arguments in object expression.'',
        if \<not> has_message then
          do_all [do_all args, emit_reverse (length args) line, emit_pair OP_CALL (word_of_nat (length args)) line]
        else
          do_all [(case message of Some name \<Rightarrow> emit_named env OP_PUSH_CONST name line | None \<Rightarrow> message_code),
                  do_all args, emit_reverse (length args) line, emit_pair OP_OBJ_EXPR (word_of_nat (length args)) line]]"

definition assert_code :: "compile_env \<Rightarrow> int \<Rightarrow> ast \<Rightarrow> action \<Rightarrow> action option \<Rightarrow> action" where
  "assert_code env line condition condition_code message =
     do_all
       [if assert_condition_is_predicate condition
        then do_all [condition_code,
                     if condition_is_explicit_predicate condition then Some else emit_truth_predicate env line]
        else emit_byte OP_PUSH_FALSE line,
        with_jump OP_JUMP_IF_TRUE line (\<lambda>success_jump. do_all
          [emit_byte OP_POP line,
           (case message of Some act \<Rightarrow> act | None \<Rightarrow> emit_named env OP_PUSH_CONST ''assertion failed'' line),
           emit_byte OP_ASSERT line,
           with_jump OP_JUMP line (\<lambda>end_jump. do_all
             [patch_jump success_jump, emit_byte OP_POP line, patch_jump end_jump])])]"

definition try_code :: "compile_env \<Rightarrow> int \<Rightarrow> action \<Rightarrow> string option \<Rightarrow> action \<Rightarrow> action" where
  "try_code env line body var handler =
     with_jump OP_PUSH_HANDLER line (\<lambda>catch_offset. do_all
       [inside_try body, emit_byte OP_POP_HANDLER line,
        with_jump OP_JUMP line (\<lambda>exit_jump. do_all
          [patch_jump catch_offset,
           (case var of None \<Rightarrow> Some | Some v \<Rightarrow> emit_named env OP_STORE_CATCH (take 255 (CHR ''$'' # v)) line),
           handler, patch_jump exit_jump])])"

definition closure_node_code :: "compile_env \<Rightarrow> int \<Rightarrow> string option \<Rightarrow> string option \<Rightarrow> int \<Rightarrow> action \<Rightarrow> action" where
  "closure_node_code env line keyword ident body_line body =
     do_all [begin_function env keyword, body, end_function env keyword ident body_line line]"

lemmas node_code_defs = short_circuit_def binop_code_def unary_code_def assign_index_def assign_variable_def if_code_def
  while_code_def for_code_def foreach_code_def assign_loop_code_def iff_code_def call_code_def object_code_def assert_code_def
  try_code_def closure_node_code_def

function compile_node :: "compile_env \<Rightarrow> ast \<Rightarrow> action"
  and compile_expr :: "compile_env \<Rightarrow> ast \<Rightarrow> action"
  and compile_assignment_container :: "compile_env \<Rightarrow> ast \<Rightarrow> byte \<Rightarrow> int \<Rightarrow> action"
  and compile_pair :: "compile_env \<Rightarrow> int \<Rightarrow> ast \<Rightarrow> ast \<Rightarrow> action" where
  "compile_node env No_node = Some"
| "compile_node env (Script line ns) =
     (\<lambda>s. run_statements (cp_repl_mode (cs_compiler s)) (map (\<lambda>n. (n, compile_node env n)) ns) s)"
| "compile_node env (Block line ns) = run_statements False (map (\<lambda>n. (n, compile_node env n)) ns)"
| "compile_node env (Boolean line b) = emit_byte (if b then OP_PUSH_TRUE else OP_PUSH_FALSE) line"
| "compile_node env (Null line) = emit_byte OP_PUSH_NULL line"
| "compile_node env (Number line is_double d) =
     (\<lambda>s. if is_double
          then do { (p, vm) \<leftarrow> slp_vm_new_double (ce_sizes env) (ce_alloc env) d (cs_vm s);
                    emit_constant (ptr_value p) line (s\<lparr>cs_vm := vm\<rparr>) }
          else emit_constant (VNum d) line s)"
| "compile_node env (Long line w) =
     (\<lambda>s. do { (p, vm) \<leftarrow> slp_vm_new_long (ce_sizes env) (ce_alloc env) w (cs_vm s);
               emit_constant (ptr_value p) line (s\<lparr>cs_vm := vm\<rparr>) })"
| "compile_node env (Literal line text) =
     (case text of None \<Rightarrow> emit_byte OP_PUSH_NULL line | Some t \<Rightarrow> emit_named env OP_PUSH_CONST t line)"
| "compile_node env (Str line text) =
     (case text of None \<Rightarrow> emit_byte OP_PUSH_NULL line | Some t \<Rightarrow> emit_named env OP_PUSH_CONST t line)"
| "compile_node env (Align line width v) = do_all [compile_expr env width, compile_expr env v, emit_byte OP_ALIGN line]"
| "compile_node env (Scalar line text) =
     (case text of None \<Rightarrow> Some | Some t \<Rightarrow> named_variable env (scalar_name t) False line)"
| "compile_node env (Array line text) =
     (case text of None \<Rightarrow> emit_byte OP_PUSH_NULL line | Some t \<Rightarrow> named_variable env (array_name t) False line)"
| "compile_node env (Hashtable line text) =
     (case text of None \<Rightarrow> emit_byte OP_PUSH_NULL line | Some t \<Rightarrow> named_variable env (hash_name t) False line)"
| "compile_node env (Identifier line text) =
     (\<lambda>s. emit_byte OP_PUSH_NULL line (compiler_error line ''Unknown expression'' s))"
| "compile_node env (Class_literal line text) =
     (case text of None \<Rightarrow> Some | Some t \<Rightarrow> emit_named env OP_CLASS_LITERAL t line)"
| "compile_node env (Backtick line text) = (case text of None \<Rightarrow> Some | Some t \<Rightarrow> emit_named env OP_BACKTICK t line)"
| "compile_node env (Address line text) = (case text of None \<Rightarrow> Some | Some t \<Rightarrow> emit_named env OP_ADDRESS t line)"
| "compile_node env (Binop line left op right negate) =
     binop_code env line op negate (compile_expr env left) (compile_expr env right)"
| "compile_node env (Unaryop line op operand is_postfix) =
     (if fst op = Tok TOKEN_INC \<or> fst op = Tok TOKEN_DEC then
        (case (if operand = No_node then Some None else string_val operand) of
           None \<Rightarrow> (\<lambda>_. None)
         | Some (Some t) \<Rightarrow> compile_step env (fst op) (step_name operand t) line
         | Some None \<Rightarrow>
             do_all [compile_expr env operand,
                     emit_byte (if fst op = Tok TOKEN_INC then OP_INCREMENT else OP_DECREMENT) line])
      else do_all [compile_expr env operand, unary_code env line op])"
| "compile_node env (Assignment line left op right) =
     (case left of
        Index index_line container element \<Rightarrow>
          assign_index line (fst op) (compile_assignment_container env container (index_autovivify_kind left) line)
            (compile_expr env element) (compile_expr env right)
      | Lvalue_tuple tuple_line elements \<Rightarrow>
          do_all [compile_expr env right, assign_elements env (fst op) elements line]
      | _ \<Rightarrow>
          (case target_name left of
             None \<Rightarrow> Some
           | Some name \<Rightarrow> assign_variable env line (fst op) name (compile_expr env right)))"
| "compile_node env (If line condition then_branch else_branch) =
     if_code line (compile_expr env condition) (compile_expr env then_branch)
       (if else_branch = No_node then Some else compile_expr env else_branch)"
| "compile_node env (While line condition body) = while_code line (compile_expr env condition) (compile_expr env body)"
| "compile_node env (For line initializers condition increments body) =
     for_code line (map (\<lambda>n. do_all [compile_node env n, pop_value n]) initializers)
       (if condition \<noteq> No_node then Some (compile_expr env condition) else None)
       (map (\<lambda>n. do_all [compile_node env n, pop_value n]) increments) (compile_expr env body)"
| "compile_node env (Foreach line key val generator body) =
     foreach_code env line key val (compile_expr env generator) (compile_expr env body)"
| "compile_node env (Call line target args) =
     (if identifier_name target = Some ''iff'' then
        (case args of
           [] \<Rightarrow> emit_byte OP_PUSH_NULL line
         | a # rest \<Rightarrow>
             iff_code line
               (if assert_condition_is_predicate (call_argument_value a) then compile_expr env (call_argument_value a)
                else emit_byte OP_PUSH_FALSE line)
               (case rest of [] \<Rightarrow> None | b # _ \<Rightarrow> Some (compile_expr env (call_argument_value b)))
               (case rest of _ # c # _ \<Rightarrow> Some (compile_expr env (call_argument_value c)) | _ \<Rightarrow> None))
      else
        call_code env line (identifier_name target) (compile_expr env target) (map (\<lambda>n. compile_node env n) (rev args)))"
| "compile_node env (Return line v) =
     (\<lambda>s. do_all [if v \<noteq> No_node then compile_expr env v else emit_byte OP_PUSH_NULL line,
             (\<lambda>s. emit_byte (if cp_inline_body (cs_compiler s) then OP_INLINE_RETURN else OP_RETURN) line s)] s)"
| "compile_node env (Throw line v) = do_all [compile_expr env v, emit_byte OP_THROW line]"
| "compile_node env (Assert line condition message) =
     assert_code env line condition (compile_expr env condition)
       (if message \<noteq> No_node then Some (compile_expr env message) else None)"
| "compile_node env (Yield line v) =
     do_all [if v \<noteq> No_node then compile_expr env v else emit_byte OP_PUSH_NULL line, emit_byte OP_YIELD line]"
| "compile_node env (Break line v) = jump_out record_break line"
| "compile_node env (Continue line v) = jump_out record_continue line"
| "compile_node env (Halt line v) = emit_byte OP_HALT line"
| "compile_node env (Done line v) = emit_byte OP_DONE line"
| "compile_node env (Try_catch line body var handler) =
     try_code env line (compile_expr env body) var (compile_expr env handler)"
| "compile_node env (Env_bridge line keyword ident text body) =
     closure_node_code env line keyword ident (case node_line body of None \<Rightarrow> line | Some l \<Rightarrow> l) (compile_node env body)"
| "compile_node env (Import line target path) =
     (case target of
        None \<Rightarrow> Some
      | Some t \<Rightarrow> emit_import env t path line)"
| "compile_node env (Index line container element) =
     do_all [compile_expr env container, compile_expr env element, emit_byte OP_INDEX_GET line]"
| "compile_node env (Obj_expr line target message args) =
     object_code env line (identifier_name target) (compile_expr env target) (message \<noteq> No_node) (identifier_name message)
       (compile_expr env message) (map (\<lambda>n. compile_node env n) (rev args))"
| "compile_node env (Local line v) =
     (if v \<noteq> No_node then do_all [compile_expr env v, emit_byte OP_LOCAL line] else emit_byte OP_PUSH_NULL line)"
| "compile_node env (This line v) =
     (if v \<noteq> No_node then do_all [compile_expr env v, emit_byte OP_THIS line] else emit_byte OP_PUSH_NULL line)"
| "compile_node env (Callcc line v) =
     do_all [if v \<noteq> No_node then compile_expr env v else Some, emit_pair OP_CALLCC (if v \<noteq> No_node then 1 else 0) line]"
| "compile_node env (Lvalue_tuple line ns) =
     do_all [do_all (map (\<lambda>n. compile_node env n) ns),
             too_many (length ns) line ''Too many elements in tuple assignment.'',
             emit_pair OP_UNPACK_TUPLE (word_of_nat (length ns)) line]"
| "compile_node env (Assign_loop line var generator body) =
     assign_loop_code env line var (compile_expr env generator) (compile_expr env body)"
| "compile_node env (Arg line name v) = compile_pair env line name v"
| "compile_node env (Kv_pair line name v) = compile_pair env line name v"
| "compile_node env (Nop line) = emit_byte OP_NOP line"
| "compile_node env (Error_node line) = Some"
| "compile_expr env n = (if n = No_node then emit_byte OP_PUSH_NULL 0 else compile_node env n)"
| "compile_assignment_container env n kind line =
     (case n of
        Index index_line container element \<Rightarrow>
          do_all [compile_assignment_container env container kind line, compile_expr env element,
                  emit_pair OP_INDEX_ENSURE kind line]
      | _ \<Rightarrow> compile_expr env n)"
| "compile_pair env line name v =
     (case (if name = No_node then by_name_argument v else None) of
        Some t \<Rightarrow> do_all [emit_named env OP_PUSH_CONST t line, reference_variable env t line, emit_byte OP_BUILD_KEY_VALUE line]
      | None \<Rightarrow> do_all
          [if name = No_node then Some
           else (case pair_name name of
                   Some t \<Rightarrow> emit_named env OP_PUSH_CONST t line
                 | None \<Rightarrow> compile_expr env name),
           (case variable_node_name v of
              Some t \<Rightarrow> reference_variable env t line
            | None \<Rightarrow> compile_expr env v),
           if name = No_node then Some else emit_byte OP_BUILD_KEY_VALUE line])"
  by pat_completeness auto
termination
  by (relation "measure (\<lambda>x. case x of Inl (Inl (env, n)) \<Rightarrow> 3 * size n | Inl (Inr (env, n)) \<Rightarrow> 3 * size n + 1
        | Inr (Inl (env, n, kind, line)) \<Rightarrow> 3 * size n + 2 | Inr (Inr (env, line, name, v)) \<Rightarrow> 3 * (size name + size v) + 2)")
     (auto dest!: size_member intro!: le_less_trans [OF mult_le_mono2 [OF size_call_argument_value]])

declare compile_node.simps [simp del] compile_expr.simps [simp del] compile_assignment_container.simps [simp del]
  compile_pair.simps [simp del]

subsection \<open>Scripts\<close>

text \<open>The result is the function, unless it could not be allocated or there was an error.\<close>

definition slp_compile_ex :: "compile_env \<Rightarrow> ast \<Rightarrow> bool \<Rightarrow> vm \<Rightarrow> (ptr \<times> (int \<times> string) option \<times> vm) option" where
  "slp_compile_ex env n repl vm =
     do { new \<leftarrow> new_function env vm;
          (case new of
             None \<Rightarrow> Some (None, None, vm)
           | Some (a, fn, vm) \<Rightarrow>
               do { s \<leftarrow> do_all [compile_node env n, emit_return (case node_line n of None \<Rightarrow> 0 | Some l \<Rightarrow> l)]
                      \<lparr>cs_vm = vm, cs_compiler = new_compiler a fn repl, cs_enclosing = []\<rparr>;
                    let c = cs_compiler s;
                    let vm = (cs_vm s)\<lparr>vm_heap := (vm_heap (cs_vm s))(a \<mapsto> OFunction (cp_fn c))\<rparr>;
                    Some (if cp_error c = None then Some a else None, cp_error c, vm) }) }"

definition slp_compile :: "compile_env \<Rightarrow> ast \<Rightarrow> vm \<Rightarrow> (ptr \<times> (int \<times> string) option \<times> vm) option" where
  "slp_compile env n vm = slp_compile_ex env n False vm"

end
