(* ===== verification/Compiler_Frame.thy ===== *)
theory Compiler_Frame
  imports Compiler
begin

text \<open>
  What the compiler leaves alone. Every compiler but the outermost has the same locals, the closure slot and
  the eleven argument variables, so no variable is ever captured: a name is a local slot or a global. Under
  this invariant the enclosing compilers do not change, and the current one keeps its scopes and loop fields.
\<close>

subsection \<open>Scopes\<close>

definition frame_names :: "bool \<Rightarrow> string option list" where
  "frame_names outermost = (if outermost then [None] else None # map Some argument_names)"

definition compiler_ok :: "bool \<Rightarrow> compiler \<Rightarrow> bool" where
  "compiler_ok outermost c \<longleftrightarrow>
     map lv_name (cp_locals c) = frame_names outermost \<and> (\<forall>lv\<in>set (cp_locals c). lv_depth lv = 0) \<and>
     cp_upvalues c = [] \<and> fn_upvalue_count (cp_fn c) = 0 \<and> fn_chunk (cp_fn c) \<noteq> None \<and> 0 \<le> cp_scope_depth c"

fun chain_ok :: "compiler \<Rightarrow> compiler list \<Rightarrow> bool" where
  "chain_ok c [] = compiler_ok True c"
| "chain_ok c (e # es) = (compiler_ok False c \<and> chain_ok e es)"

definition scopes_ok :: "compile_state \<Rightarrow> bool" where
  "scopes_ok s = chain_ok (cs_compiler s) (cs_enclosing s)"

lemma find_none: "find P xs = None \<longleftrightarrow> (\<forall>x\<in>set xs. \<not> P x)"
  by (induction xs) auto

lemma find_some_in: "find P xs = Some x \<Longrightarrow> x \<in> set xs \<and> P x"
  by (induction xs) (auto split: if_splits)

lemma resolve_local_outermost: "compiler_ok True c \<Longrightarrow> resolve_local c name = None"
proof -
  assume "compiler_ok True c"
  then obtain lv where "cp_locals c = [lv]" "lv_name lv = None"
    by (auto simp: compiler_ok_def frame_names_def)
  then show ?thesis by (simp add: resolve_local_def)
qed

lemma resolve_local_names:
  assumes "map lv_name (cp_locals c) = map lv_name (cp_locals d)"
  shows "resolve_local c name = resolve_local d name"
proof -
  have len: "length (cp_locals c) = length (cp_locals d)" using assms map_eq_imp_length_eq by blast
  then have "\<forall>i<length (cp_locals c). lv_name (cp_locals c ! i) = lv_name (cp_locals d ! i)"
    using assms by (metis nth_map)
  with len show ?thesis
    unfolding resolve_local_def by (intro find_cong) auto
qed

lemma resolve_local_below:
  assumes "compiler_ok b c" "resolve_local c name = Some i" shows "i < 12"
proof -
  have "length (map lv_name (cp_locals c)) = length (frame_names b)" using assms(1) by (simp add: compiler_ok_def)
  then have "length (cp_locals c) \<le> 12" by (simp add: frame_names_def argument_names_def split: if_splits)
  moreover have "i < length (cp_locals c)" using assms(2) by (auto simp: resolve_local_def dest!: find_some_in)
  ultimately show ?thesis by linarith
qed

text \<open>A name that is no local of a compiler is no upvalue either, and no enclosing compiler changes.\<close>

lemma resolve_upvalue_none:
  "chain_ok c es \<Longrightarrow> resolve_local c name = None \<Longrightarrow> resolve_upvalue c es name = (None, c, es)"
proof (induction es arbitrary: c)
  case (Cons e es)
  have e: "resolve_local e name = None"
  proof (cases es)
    case Nil
    then show ?thesis using Cons.prems(1) by (simp add: resolve_local_outermost)
  next
    case (Cons e' es')
    then have "compiler_ok False e" "compiler_ok False c" using Cons.prems(1) by simp_all
    then show ?thesis using Cons.prems(2) resolve_local_names [of e c name] by (simp add: compiler_ok_def)
  qed
  then show ?case using Cons.IH [of e] Cons.prems(1) by simp
qed simp

lemma resolve_variable_ok:
  "scopes_ok s \<Longrightarrow> resolve_variable name s =
     (case resolve_local (cs_compiler s) name of Some i \<Rightarrow> (Local_slot i, s) | None \<Rightarrow> (Global_name, s))"
  by (simp add: scopes_ok_def resolve_variable_def resolve_upvalue_none split: option.splits)

subsection \<open>The frame of an action\<close>

definition same_compiler :: "compiler \<Rightarrow> compiler \<Rightarrow> bool" where
  "same_compiler c d \<longleftrightarrow>
     cp_function d = cp_function c \<and> cp_locals d = cp_locals c \<and> cp_upvalues d = cp_upvalues c \<and>
     cp_scope_depth d = cp_scope_depth c \<and> cp_try_depth d = cp_try_depth c \<and> cp_loop_start d = cp_loop_start c \<and>
     cp_loop_try_depth d = cp_loop_try_depth c \<and> cp_repl_mode d = cp_repl_mode c \<and> cp_inline_body d = cp_inline_body c \<and>
     fn_upvalue_count (cp_fn d) = fn_upvalue_count (cp_fn c) \<and> fn_chunk (cp_fn d) \<noteq> None \<and>
     (cp_error c \<noteq> None \<longrightarrow> cp_error d = cp_error c)"

definition frame :: "compile_state \<Rightarrow> compile_state \<Rightarrow> bool" where
  "frame s s' \<longleftrightarrow> cs_enclosing s' = cs_enclosing s \<and> same_compiler (cs_compiler s) (cs_compiler s')"

definition failed :: "compile_state \<Rightarrow> bool" where
  "failed s \<longleftrightarrow> cp_error (cs_compiler s) \<noteq> None"

lemma frame_trans [trans]: "frame s t \<Longrightarrow> frame t u \<Longrightarrow> frame s u"
  by (auto simp: frame_def same_compiler_def)

lemma chain_ok_chunk: "chain_ok c es \<Longrightarrow> fn_chunk (cp_fn c) \<noteq> None"
  by (cases es) (auto simp: compiler_ok_def)

lemma frame_refl: "scopes_ok s \<Longrightarrow> frame s s"
  using chain_ok_chunk by (auto simp: frame_def same_compiler_def scopes_ok_def)

lemma frame_scopes: "frame s s' \<Longrightarrow> scopes_ok s \<Longrightarrow> scopes_ok s'"
  by (cases "cs_enclosing s") (auto simp: frame_def same_compiler_def scopes_ok_def compiler_ok_def)

lemma frame_failed: "frame s s' \<Longrightarrow> failed s \<Longrightarrow> failed s'"
  by (auto simp: frame_def same_compiler_def failed_def)

subsection \<open>Primitive operations\<close>

definition code_of :: "compile_state \<Rightarrow> bytes" where
  "code_of s = (case current_chunk s of None \<Rightarrow> [] | Some ck \<Rightarrow> ck_code ck)"

text \<open>The pending jumps and the loop fields the frame does not speak of.\<close>

definition pending :: "compile_state \<Rightarrow> nat list \<times> nat \<times> nat list \<times> nat" where
  "pending s = (let c = cs_compiler s in (cp_break_jumps c, cp_break_count c, cp_continue_jumps c, cp_continue_count c))"

text \<open>The function objects of the machine stay as they were, up to new ones without code.\<close>

definition functions_kept :: "heap \<Rightarrow> heap \<Rightarrow> bool" where
  "functions_kept h h' \<longleftrightarrow>
     (\<forall>a f. h' a = Some (OFunction f) \<longrightarrow> h a = Some (OFunction f) \<or> (\<exists>ck. fn_chunk f = Some ck \<and> ck_code ck = [] \<and> fn_upvalue_count f = 0))"

lemma functions_kept_refl [simp]: "functions_kept h h"
  by (simp add: functions_kept_def)

lemma functions_kept_trans: "functions_kept h h' \<Longrightarrow> functions_kept h' h'' \<Longrightarrow> functions_kept h h''"
  unfolding functions_kept_def by blast

definition appends :: "bytes \<Rightarrow> compile_state \<Rightarrow> compile_state \<Rightarrow> bool" where
  "appends bs s s' \<longleftrightarrow> frame s s' \<and> code_of s' = code_of s @ bs \<and> pending s' = pending s \<and>
     functions_kept (vm_heap (cs_vm s)) (vm_heap (cs_vm s'))"

lemma appends_trans: "appends bs s t \<Longrightarrow> appends cs t u \<Longrightarrow> appends (bs @ cs) s u"
  by (auto simp: appends_def intro: frame_trans functions_kept_trans)

lemma appends_Nil: "scopes_ok s \<Longrightarrow> appends [] s s"
  by (simp add: appends_def frame_refl)

lemma appends_scopes: "appends bs s s' \<Longrightarrow> scopes_ok s \<Longrightarrow> scopes_ok s'"
  by (auto simp: appends_def intro: frame_scopes)

lemma appends_error: "scopes_ok s \<Longrightarrow> appends [] s (compiler_error line msg s)"
  using chain_ok_chunk
  by (auto simp: appends_def frame_def same_compiler_def compiler_error_def update_compiler_def scopes_ok_def pending_def
      code_of_def current_chunk_def Let_def)

lemma appends_chunk:
  "scopes_ok s \<Longrightarrow> current_chunk s = Some ck \<Longrightarrow> ck_code ck' = ck_code ck @ bs \<Longrightarrow> appends bs s (put_chunk ck' s)"
  by (auto simp: appends_def frame_def same_compiler_def put_chunk_def update_compiler_def pending_def code_of_def
      current_chunk_def Let_def)

lemma chunk_write_code: "slp_chunk_write ck b line = Some (i, ck') \<Longrightarrow> ck_code ck' = ck_code ck @ [b]"
  by (auto simp: slp_chunk_write_def Let_def split: if_splits)

lemma emit_byte_appends: "emit_byte b line s = Some s' \<Longrightarrow> scopes_ok s \<Longrightarrow> appends [b] s s'"
  by (auto simp: emit_byte_def bind_Some_iff intro!: appends_chunk dest!: chunk_write_code)

lemma emit_short_appends:
  assumes "emit_short v line s = Some s'" "scopes_ok s" shows "\<exists>bs. length bs = 2 \<and> appends bs s s'"
proof -
  obtain ck ck' i c1 j where "current_chunk s = Some ck"
    "slp_chunk_write ck (ucast (and (drop_bit 8 v) 0xFF)) line = Some (i, c1)"
    "slp_chunk_write c1 (ucast (and v 0xFF)) line = Some (j, ck')" "s' = put_chunk ck' s"
    using assms(1) by (auto simp: emit_short_def slp_chunk_write_short_def bind_Some_iff)
  then show ?thesis using appends_chunk [OF assms(2)] chunk_write_code
    by (intro exI [of _ "[ucast (and (drop_bit 8 v) 0xFF), ucast (and v 0xFF)]"]) fastforce
qed

lemma add_constant_code: "slp_chunk_add_constant h ck v = Some (i, ck') \<Longrightarrow> ck_code ck' = ck_code ck"
  by (auto simp: slp_chunk_add_constant_def bind_Some_iff Let_def split: option.splits if_splits)

lemma add_constant_appends: "add_constant v s = Some (i, s') \<Longrightarrow> scopes_ok s \<Longrightarrow> appends [] s s'"
  by (auto simp: add_constant_def bind_Some_iff intro!: appends_chunk dest: add_constant_code)

lemma make_constant_appends:
  assumes "make_constant v s = Some (i, s')" "scopes_ok s" shows "appends [] s s'"
proof -
  obtain j t where t: "add_constant v s = Some (j, t)" and s': "s' = t \<or> s' = compiler_error 0 ''Too many constants in one chunk.'' t"
    using assms(1) by (auto simp: make_constant_def bind_Some_iff split: if_splits)
  have "appends [] s t" using add_constant_appends [OF t assms(2)] .
  with s' assms(2) show ?thesis using appends_trans [of "[]"] appends_error appends_scopes by fastforce
qed

lemma emit_constant_index_appends:
  assumes "emit_constant_index v line s = Some s'" "scopes_ok s" shows "\<exists>bs. length bs = 2 \<and> appends bs s s'"
proof -
  obtain i t where t: "make_constant v s = Some (i, t)" "emit_short i line t = Some s'"
    using assms(1) by (auto simp: emit_constant_index_def bind_Some_iff)
  then have "appends [] s t" using make_constant_appends assms(2) by blast
  moreover obtain bs where "length bs = 2" "appends bs t s'"
    using emit_short_appends [OF t(2)] appends_scopes calculation assms(2) by blast
  ultimately show ?thesis using appends_trans [of "[]"] by fastforce
qed

end
