(* ===== verification/Compiler_Code.thy ===== *)
theory Compiler_Code
  imports Compiler_Frame
begin

text \<open>
  The code the compiler emits is a sequence of whole instructions, with the operand lengths the interpreter
  loop reads. Jump operands are patched after the code behind them is known: the offsets handed to
  \<open>patch_jump\<close> are operands of jumps (\<open>hole\<close>), so a patch never changes an opcode.
\<close>

subsection \<open>Whole instructions\<close>

definition byte_operand :: "byte \<Rightarrow> bool" where
  "byte_operand op \<longleftrightarrow> op \<in> set
     [OP_LOAD_LOCAL, OP_STORE_LOCAL, OP_LOAD_UPVALUE, OP_STORE_UPVALUE, OP_REFERENCE_LOCAL, OP_REFERENCE_UPVALUE,
      OP_REVERSE, OP_CALL, OP_INDEX_ENSURE, OP_TUPLE_COMPOUND, OP_OBJ_EXPR, OP_CALLCC, OP_UNPACK_TUPLE]"

definition short_operand_op :: "byte \<Rightarrow> bool" where
  "short_operand_op op \<longleftrightarrow> op \<in> set
     [OP_PUSH_CONST, OP_LOAD_GLOBAL, OP_STORE_GLOBAL, OP_STORE_CATCH, OP_REFERENCE_GLOBAL, OP_AND, OP_OR,
      OP_UNARY_PREDICATE, OP_BINARY_PREDICATE, OP_NEGATED_BINARY_PREDICATE, OP_JUMP, OP_JUMP_IF_FALSE,
      OP_JUMP_IF_TRUE, OP_JUMP_IF_NULL, OP_LOOP, OP_CLOSURE, OP_FOREACH_NEXT, OP_FOREACH_NEXT_VALUE,
      OP_BUILD_ARRAY, OP_BUILD_HASH, OP_PUSH_HANDLER, OP_BACKTICK, OP_CLASS_LITERAL, OP_ADDRESS]"

text \<open>The operand of a closure of a function without upvalues is the short alone.\<close>

definition operand_bytes :: "byte \<Rightarrow> nat" where
  "operand_bytes op =
     (if byte_operand op then 1 else if short_operand_op op then 2 else if op = OP_CALL_NAMED then 3
      else if op = OP_IMPORT \<or> op = OP_BRIDGE_REGISTER then 4 else 0)"

function whole :: "bytes \<Rightarrow> bool" where
  "whole [] = True"
| "whole (op # bs) = (operand_bytes op \<le> length bs \<and> whole (drop (operand_bytes op) bs))"
  by pat_completeness auto
termination by (relation "measure length") auto

declare whole.simps(2) [simp del]

lemma whole_append: "whole a \<Longrightarrow> whole (a @ b) = whole b"
  by (induction a rule: whole.induct) (auto simp: whole.simps)

lemma whole_instr: "length bs = operand_bytes op \<Longrightarrow> whole (op # bs)"
  by (simp add: whole.simps)

lemma whole_drop: "whole (take m code) \<Longrightarrow> whole code = whole (drop m code)"
  by (metis append_take_drop_id whole_append)

text \<open>A prefix of whole instructions that goes beyond another one contains the next instruction.\<close>

lemma whole_beyond:
  assumes "whole (take k code)" "whole (take m code)" "k < m" "m \<le> length code"
  shows "k + operand_bytes (code ! k) < m"
proof -
  have "whole (drop k (take m code))"
    using assms whole_drop [of k "take m code"] by (simp add: min_def)
  moreover have "drop k (take m code) = code ! k # drop (Suc k) (take m code)"
    using assms(3,4) by (simp add: Cons_nth_drop_Suc [symmetric])
  ultimately have "operand_bytes (code ! k) \<le> length (drop (Suc k) (take m code))" by (simp add: whole.simps)
  then show ?thesis using assms(3,4) by simp
qed

definition hole :: "bytes \<Rightarrow> nat \<Rightarrow> bool" where
  "hole code off \<longleftrightarrow> 0 < off \<and> whole (take (off - 1) code) \<and> Suc off < length code \<and> operand_bytes (code ! (off - 1)) = 2"

lemma hole_append: "hole code off \<Longrightarrow> hole (code @ bs) off"
  by (auto simp: hole_def nth_append)

lemma hole_new: "whole code \<Longrightarrow> operand_bytes op = 2 \<Longrightarrow> hole (code @ [op, x, y]) (Suc (length code))"
  by (simp add: hole_def nth_append)

lemma split_at_hole:
  assumes "0 < off" "Suc off < length xs"
  shows "xs = take (off - 1) xs @ xs ! (off - 1) # xs ! off # xs ! Suc off # drop (Suc (Suc off)) xs"
proof -
  have "drop (off - 1) xs = xs ! (off - 1) # xs ! off # xs ! Suc off # drop (Suc (Suc off)) xs"
    using assms by (cases off) (simp_all add: Cons_nth_drop_Suc)
  then show ?thesis by (metis append_take_drop_id)
qed

lemma whole_update:
  assumes h: "hole code off" and p: "p = off \<or> p = Suc off" and m: "whole (take m code)" "m \<le> length code"
  shows "whole (take m (code[p := x]))"
proof (cases "m \<le> off - 1")
  case True
  then have "m \<le> p" using p by auto
  then show ?thesis using m(1) by (simp add: take_update_cancel)
next
  case False
  with h m whole_beyond [of "off - 1" code m] have big: "Suc off < m" "0 < off" by (auto simp: hole_def)
  define a op y z r where "a = take (off - 1) code" "op = code ! (off - 1)" "y = code ! off" "z = code ! Suc off"
    "r = drop (Suc (Suc off)) (take m code)"
  then have split: "take m code = a @ op # y # z # r" "length a = off - 1"
    using split_at_hole [of off "take m code"] big m(2) by (simp_all add: min.absorb1 min.absorb2)
  have w: "whole a" "operand_bytes op = 2" using h by (simp_all add: hole_def a_op_y_z_r_def)
  with m(1) have "whole r" unfolding split by (simp add: whole_append whole.simps numeral_2_eq_2)
  moreover have "(take m code)[p := x] = a @ op # (if p = off then x else y) # (if p = off then z else x) # r"
    unfolding split using p split(2) big(2) by (cases off) (auto simp: list_update_append)
  ultimately show ?thesis using w by (simp add: take_update_swap whole_append whole.simps numeral_2_eq_2)
qed

lemma hole_update:
  assumes h: "hole code off" and p: "p = off \<or> p = Suc off" and o: "hole code o'"
  shows "hole (code[p := x]) o'"
proof -
  have "p \<noteq> o' - 1"
  proof
    assume eq: "p = o' - 1"
    have "off - 1 + 2 < o' - 1 \<or> o' - 1 \<le> off - 1"
      using h o whole_beyond [of "off - 1" code "o' - 1"] by (fastforce simp: hole_def)
    with eq p h show False by (auto simp: hole_def)
  qed
  moreover have "o' - 1 \<le> length code" using o by (auto simp: hole_def)
  ultimately show ?thesis using whole_update [OF h p, of "o' - 1"] o by (simp add: hole_def)
qed

subsection \<open>The judgement\<close>

text \<open>
  \<open>emits A act\<close>: the action appends a code of the set \<open>A\<close> and changes nothing else. \<open>sound h0 os act\<close>: the
  action keeps the invariant of the code, given that the offsets \<open>os\<close> are operands of jumps; \<open>h0\<close> is the
  heap before the compilation.
\<close>

definition emits :: "bytes set \<Rightarrow> action \<Rightarrow> bool" where
  "emits A act \<longleftrightarrow> (\<forall>s s'. act s = Some s' \<longrightarrow> scopes_ok s \<longrightarrow> (\<exists>bs\<in>A. appends bs s s'))"

definition functions_ok :: "heap \<Rightarrow> heap \<Rightarrow> bool" where
  "functions_ok h0 h \<longleftrightarrow>
     (\<forall>a f. h a = Some (OFunction f) \<longrightarrow> h0 a = Some (OFunction f) \<or>
        (\<exists>ck. fn_chunk f = Some ck \<and> whole (ck_code ck) \<and> fn_upvalue_count f = 0))"

definition code_ok :: "heap \<Rightarrow> compile_state \<Rightarrow> bool" where
  "code_ok h0 s \<longleftrightarrow>
     whole (code_of s) \<and> functions_ok h0 (vm_heap (cs_vm s)) \<and>
     (\<forall>off \<in> set (cp_break_jumps (cs_compiler s)) \<union> set (cp_continue_jumps (cs_compiler s)). hole (code_of s) off)"

definition keeps_code :: "heap \<Rightarrow> nat set \<Rightarrow> compile_state \<Rightarrow> compile_state \<Rightarrow> bool" where
  "keeps_code h0 os s s' \<longleftrightarrow>
     (\<not> failed s' \<longrightarrow> code_ok h0 s \<longrightarrow> (\<forall>off\<in>os. hole (code_of s) off) \<longrightarrow>
        code_ok h0 s' \<and> (\<forall>off. hole (code_of s) off \<longrightarrow> hole (code_of s') off))"

definition sound :: "heap \<Rightarrow> nat set \<Rightarrow> action \<Rightarrow> bool" where
  "sound h0 os act \<longleftrightarrow> (\<forall>s s'. act s = Some s' \<longrightarrow> scopes_ok s \<longrightarrow> frame s s' \<and> keeps_code h0 os s s')"

lemma functions_ok_kept: "functions_ok h0 h \<Longrightarrow> functions_kept h h' \<Longrightarrow> functions_ok h0 h'"
  unfolding functions_ok_def functions_kept_def by (metis whole.simps(1))

lemma keeps_code_trans:
  assumes "frame t u" "keeps_code h0 os s t" "keeps_code h0 os t u"
  shows "keeps_code h0 os s u"
proof -
  have "failed t \<Longrightarrow> failed u" using assms(1) by (rule frame_failed)
  with assms(2,3) show ?thesis unfolding keeps_code_def by blast
qed

lemma appends_keeps_code: "appends bs s s' \<Longrightarrow> whole bs \<Longrightarrow> keeps_code h0 os s s'"
  by (auto simp: keeps_code_def appends_def code_ok_def whole_append pending_def Let_def intro: hole_append functions_ok_kept)

lemma sound_emits: "emits A act \<Longrightarrow> (\<And>bs. bs \<in> A \<Longrightarrow> whole bs) \<Longrightarrow> sound h0 os act"
  unfolding emits_def sound_def using appends_keeps_code by (metis appends_def)

subsection \<open>Emitting\<close>

lemma emits_mono: "emits A act \<Longrightarrow> A \<subseteq> B \<Longrightarrow> emits B act"
  unfolding emits_def by blast

lemma emits_cons: "emits A act \<Longrightarrow> emits B (do_all rest) \<Longrightarrow> emits {x @ y | x y. x \<in> A \<and> y \<in> B} (do_all (act # rest))"
proof -
  assume a: "emits A act" and b: "emits B (do_all rest)"
  show ?thesis unfolding emits_def
  proof (intro allI impI)
    fix s s' assume "do_all (act # rest) s = Some s'" and ok: "scopes_ok s"
    then obtain t where t: "act s = Some t" "do_all rest t = Some s'" by (auto split: option.splits)
    from a t(1) ok obtain x where x: "x \<in> A" "appends x s t" by (auto simp: emits_def)
    then have "scopes_ok t" using ok appends_scopes by blast
    with b t(2) obtain y where "y \<in> B" "appends y t s'" by (auto simp: emits_def)
    with x show "\<exists>bs\<in>{x @ y | x y. x \<in> A \<and> y \<in> B}. appends bs s s'" using appends_trans by blast
  qed
qed

lemma emits_nil: "emits {[]} (do_all [])"
  using appends_Nil by (simp add: emits_def)

lemma emits_skip: "emits {[]} Some"
  using appends_Nil by (simp add: emits_def)

lemma emits_seq:
  "emits A act \<Longrightarrow> emits B (do_all rest) \<Longrightarrow> (\<And>x y. x \<in> A \<Longrightarrow> y \<in> B \<Longrightarrow> x @ y \<in> C) \<Longrightarrow> emits C (do_all (act # rest))"
  by (erule emits_mono [OF emits_cons]) auto

lemma emits_byte: "emits {[b]} (emit_byte b line)"
  by (auto simp: emits_def emit_byte_appends)

lemma emits_short: "emits {bs. length bs = 2} (emit_short v line)"
  using emit_short_appends by (fastforce simp: emits_def)

lemma emits_constant_index: "emits {bs. length bs = 2} (emit_constant_index v line)"
  using emit_constant_index_appends by (fastforce simp: emits_def)

lemma emits_last: "emits A act \<Longrightarrow> emits A (do_all [act])"
  using emits_seq [OF _ emits_nil, of A act A] by simp

lemma emits_pair: "emits {[op, x]} (emit_pair op x line)"
  unfolding emit_pair_def by (rule emits_seq [OF emits_byte emits_last [OF emits_byte]]) simp

text \<open>An instruction with a two-byte operand.\<close>

definition short_instr :: "byte \<Rightarrow> bytes set" where
  "short_instr op = {op # bs | bs. length bs = 2}"

lemma emits_constant: "emits (short_instr OP_PUSH_CONST) (emit_constant v line)"
  unfolding emit_constant_def
  by (rule emits_seq [OF emits_byte emits_last [OF emits_constant_index]]) (simp add: short_instr_def)

lemma intern_string_kept:
  assumes "slp_vm_intern_string sizes t p chars vm = Some (r, vm')"
  shows "functions_kept (vm_heap vm) (vm_heap vm')"
proof -
  have room: "make_room b vm = Some v \<Longrightarrow> vm_heap v = vm_heap vm" for b v
    by (auto simp: make_room_def intern_grow_def Let_def bind_Some_iff split: if_splits option.splits)
  have new: "functions_kept h h'" if "slp_obj_string_new p chars h = (q, h')" for q h h'
    using that by (auto simp: slp_obj_string_new_def place_def functions_kept_def split: option.splits if_splits)
  obtain found where found: "find_interned chars vm = Some found"
    using assms by (auto simp: slp_vm_intern_string_def bind_Some_iff)
  show ?thesis
  proof (cases found)
    case (Some a)
    then show ?thesis using assms found by (simp add: slp_vm_intern_string_def)
  next
    case None
    then obtain v where v: "make_room t vm = Some v"
      using assms found by (auto simp: slp_vm_intern_string_def bind_Some_iff)
    obtain q h where q: "slp_obj_string_new p chars (vm_heap v) = (q, h)" by fastforce
    have "vm_heap vm' = h"
      using assms found None v q
      by (auto simp: slp_vm_intern_string_def bind_Some_iff track_object_def split: option.splits)
    then show ?thesis using new [OF q] room [OF v] by simp
  qed
qed

lemma intern_str_appends:
  assumes "intern_str env text s = Some (v, s')" "scopes_ok s" shows "appends [] s s'"
proof -
  obtain p a vm where vm: "slp_vm_copy_string (ce_sizes env) True (ce_alloc env (vm_heap (cs_vm s))) text (cs_vm s) = Some (p, vm)"
    and s': "s' = s\<lparr>cs_vm := vm\<rparr>"
    using assms(1) by (auto simp: intern_str_def bind_Some_iff)
  have "functions_kept (vm_heap (cs_vm s)) (vm_heap vm)"
    using vm intern_string_kept unfolding slp_vm_copy_string_def by blast
  with s' appends_Nil [OF assms(2)] show ?thesis
    by (auto simp: appends_def frame_def code_of_def current_chunk_def pending_def)
qed

end
