(* ===== verification/Compiler_Units.thy ===== *)
theory Compiler_Units
  imports Compiler_Code
begin

text \<open>The bytes that the helpers of the compiler append, and the rules of the judgement for its combinators.\<close>

subsection \<open>Helpers that append one instruction\<close>

lemma emits_name: "emits {bs. length bs = 2} (emit_name env text line)"
  unfolding emits_def
proof (intro allI impI)
  fix s s' assume e: "emit_name env text line s = Some s'" and ok: "scopes_ok s"
  from e obtain v t where t: "intern_str env text s = Some (v, t)" "emit_constant_index v line t = Some s'"
    by (auto simp: emit_name_def bind_Some_iff)
  have st: "appends [] s t" using intern_str_appends t(1) ok by blast
  then obtain bs where "length bs = 2" "appends bs t s'"
    using emits_constant_index t(2) ok appends_scopes unfolding emits_def by blast
  then show "\<exists>bs\<in>{bs. length bs = 2}. appends bs s s'" using appends_trans [OF st] by fastforce
qed

lemma emits_named: "emits (short_instr op) (emit_named env op text line)"
  unfolding emits_def
proof (intro allI impI)
  fix s s' assume e: "emit_named env op text line s = Some s'" and ok: "scopes_ok s"
  from e obtain v t where t: "intern_str env text s = Some (v, t)"
    "do_all [emit_byte op line, emit_constant_index v line] t = Some s'"
    by (auto simp: emit_named_def bind_Some_iff)
  have st: "appends [] s t" using intern_str_appends t(1) ok by blast
  have "emits (short_instr op) (do_all [emit_byte op line, emit_constant_index v line])"
    by (rule emits_seq [OF emits_byte emits_last [OF emits_constant_index]]) (simp add: short_instr_def)
  then obtain bs where "bs \<in> short_instr op" "appends bs t s'"
    using t(2) ok appends_scopes [OF st] unfolding emits_def by blast
  then show "\<exists>bs\<in>short_instr op. appends bs s s'" using appends_trans [OF st] by fastforce
qed

definition load_code :: "bytes set" where
  "load_code = {[OP_LOAD_LOCAL_0 + word_of_nat i] | i. i < 8} \<union> {[OP_LOAD_LOCAL, x] | x. True} \<union> short_instr OP_LOAD_GLOBAL"

definition store_code :: "bytes set" where
  "store_code = {[OP_STORE_LOCAL_0 + word_of_nat i] | i. i < 8} \<union> {[OP_STORE_LOCAL, x] | x. True} \<union> short_instr OP_STORE_GLOBAL"

definition reference_code :: "bytes set" where
  "reference_code = {[OP_REFERENCE_LOCAL, x] | x. True} \<union> short_instr OP_REFERENCE_GLOBAL"

text \<open>A global: its name is interned and made a constant, and the instruction has the index.\<close>

lemma global_appends:
  assumes ok: "scopes_ok s"
    and run: "intern_str env name s = Some (v, t)" "add_constant v t = Some (i, u)"
    and u': "appends [] u u'" and fin: "do_all [emit_byte op line, emit_short x line] u' = Some s'"
  shows "\<exists>bs\<in>short_instr op. appends bs s s'"
proof -
  have 1: "appends [] s t" using intern_str_appends run(1) ok by blast
  have 2: "appends [] t u" using add_constant_appends run(2) appends_scopes [OF 1 ok] by blast
  have 3: "appends [] s u'" using appends_trans [OF appends_trans [OF 1 2] u'] by simp
  have "emits (short_instr op) (do_all [emit_byte op line, emit_short x line])"
    by (rule emits_seq [OF emits_byte emits_last [OF emits_short]]) (simp add: short_instr_def)
  then obtain bs where "bs \<in> short_instr op" "appends bs u' s'"
    using fin appends_scopes [OF 3 ok] unfolding emits_def by blast
  then show ?thesis using appends_trans [OF 3] by fastforce
qed

lemma global_scopes: "scopes_ok s \<Longrightarrow> intern_str env name s = Some (v, t) \<Longrightarrow> add_constant v t = Some (i, u) \<Longrightarrow> scopes_ok u"
  by (drule (1) intern_str_appends, drule (1) appends_scopes, drule (1) add_constant_appends, drule (1) appends_scopes)

lemma emits_named_variable: "emits (if assign then store_code else load_code) (named_variable env name assign line)"
  unfolding emits_def
proof (intro allI impI)
  fix s s' assume e: "named_variable env name assign line s = Some s'" and ok: "scopes_ok s"
  show "\<exists>bs\<in>(if assign then store_code else load_code). appends bs s s'"
  proof (cases "resolve_local (cs_compiler s) name")
    case (Some i)
    show ?thesis
    proof (cases "i < 8")
      case True
      with e Some have "emit_byte ((if assign then OP_STORE_LOCAL_0 else OP_LOAD_LOCAL_0) + word_of_nat i) line s = Some s'"
        by (simp add: named_variable_def resolve_variable_ok [OF ok])
      from emit_byte_appends [OF this ok] True show ?thesis by (auto simp: load_code_def store_code_def)
    next
      case False
      with e Some have "emit_pair (if assign then OP_STORE_LOCAL else OP_LOAD_LOCAL) (word_of_nat i) line s = Some s'"
        by (simp add: named_variable_def resolve_variable_ok [OF ok])
      with emits_pair ok show ?thesis unfolding emits_def by (fastforce simp: load_code_def store_code_def)
    qed
  next
    case None
    with e obtain v t i u where "intern_str env name s = Some (v, t)" "add_constant v t = Some (i, u)"
      "do_all [emit_byte (if assign then OP_STORE_GLOBAL else OP_LOAD_GLOBAL) line, emit_short (word_of_nat i) line] u = Some s'"
      by (auto simp: named_variable_def resolve_variable_ok [OF ok] bind_Some_iff simp del: do_all.simps)
    moreover from this have "scopes_ok u" using ok global_scopes by blast
    ultimately show ?thesis using global_appends [OF ok _ _ appends_Nil] by (fastforce simp: load_code_def store_code_def)
  qed
qed

lemma emits_load: "emits load_code (named_variable env name False line)"
  using emits_named_variable [of False] by simp

lemma emits_store: "emits store_code (named_variable env name True line)"
  using emits_named_variable [of True] by simp

lemma emits_reference: "emits reference_code (reference_variable env name line)"
  unfolding emits_def
proof (intro allI impI)
  fix s s' assume e: "reference_variable env name line s = Some s'" and ok: "scopes_ok s"
  show "\<exists>bs\<in>reference_code. appends bs s s'"
  proof (cases "resolve_local (cs_compiler s) name")
    case (Some i)
    with e have "emit_pair OP_REFERENCE_LOCAL (word_of_nat i) line s = Some s'"
      by (simp add: reference_variable_def resolve_variable_ok [OF ok])
    with emits_pair ok show ?thesis unfolding emits_def by (fastforce simp: reference_code_def)
  next
    case None
    with e obtain v t i u where r: "intern_str env name s = Some (v, t)" "add_constant v t = Some (i, u)"
      and raw: "(let (i, s) = (if 65535 < i then (0, compiler_error line ''Too many constants in one chunk.'' u) else (i, u))
        in do_all [emit_byte OP_REFERENCE_GLOBAL line, emit_short (word_of_nat i) line] s) = Some s'"
      by (auto simp: reference_variable_def resolve_variable_ok [OF ok] bind_Some_iff simp del: do_all.simps)
    define u' where "u' = (if 65535 < i then compiler_error line ''Too many constants in one chunk.'' u else u)"
    obtain x where fin: "do_all [emit_byte OP_REFERENCE_GLOBAL line, emit_short x line] u' = Some s'"
      using raw by (auto simp: u'_def Let_def simp del: do_all.simps split: if_splits)
    have "appends [] u u'" using global_scopes [OF ok r] by (simp add: u'_def appends_Nil appends_error)
    with global_appends [OF ok r _ fin] show ?thesis by (auto simp: reference_code_def)
  qed
qed

lemma emits_too_many: "emits {[]} (too_many n line msg)"
  by (auto simp: emits_def too_many_def appends_Nil appends_error)

lemma emits_exit_jump: "emits {[]} (set_exit_jump i)"
  using chain_ok_chunk
  by (auto simp: emits_def set_exit_jump_def update_compiler_def appends_def frame_def same_compiler_def code_of_def
      current_chunk_def pending_def scopes_ok_def Let_def)

lemma vm_appends:
  "scopes_ok s \<Longrightarrow> functions_kept (vm_heap (cs_vm s)) (vm_heap vm) \<Longrightarrow> appends [] s (s\<lparr>cs_vm := vm\<rparr>)"
  using appends_Nil [of s] by (auto simp: appends_def frame_def code_of_def current_chunk_def pending_def)

lemma new_tracked_kept:
  assumes "new_tracked sizes build vm = Some (p, vm')" "\<And>h. functions_kept h (snd (build h))"
  shows "functions_kept (vm_heap vm) (vm_heap vm')"
proof -
  obtain q h where q: "build (vm_heap vm) = (q, h)" by fastforce
  with assms(1) have "vm_heap vm' = h"
    by (auto simp: new_tracked_def track_object_def bind_Some_iff split: option.splits)
  then show ?thesis using assms(2) [of "vm_heap vm"] q by simp
qed

lemma place_kept: "(\<And>f. ob \<noteq> OFunction f) \<Longrightarrow> functions_kept h (snd (place p ob h))"
  by (cases p) (auto simp: place_def functions_kept_def)

lemma emits_object:
  assumes "\<And>vm p vm'. new vm = Some (p, vm') \<Longrightarrow> functions_kept (vm_heap vm) (vm_heap vm')"
  shows "emits (short_instr OP_PUSH_CONST)
    (\<lambda>s. do { (p, vm) \<leftarrow> new (cs_vm s); emit_constant (ptr_value p) line (s\<lparr>cs_vm := vm\<rparr>) })"
  unfolding emits_def
proof (intro allI impI)
  fix s s' assume "do { (p, vm) \<leftarrow> new (cs_vm s); emit_constant (ptr_value p) line (s\<lparr>cs_vm := vm\<rparr>) } = Some s'"
    and ok: "scopes_ok s"
  then obtain p vm where vm: "new (cs_vm s) = Some (p, vm)" "emit_constant (ptr_value p) line (s\<lparr>cs_vm := vm\<rparr>) = Some s'"
    by (auto simp: bind_Some_iff)
  have st: "appends [] s (s\<lparr>cs_vm := vm\<rparr>)" using vm_appends [OF ok assms [OF vm(1)]] .
  then obtain bs where "bs \<in> short_instr OP_PUSH_CONST" "appends bs (s\<lparr>cs_vm := vm\<rparr>) s'"
    using emits_constant vm(2) appends_scopes [OF st ok] unfolding emits_def by blast
  then show "\<exists>bs\<in>short_instr OP_PUSH_CONST. appends bs s s'" using appends_trans [OF st] by fastforce
qed

lemma emits_double:
  "emits (short_instr OP_PUSH_CONST)
     (\<lambda>s. do { (p, vm) \<leftarrow> slp_vm_new_double sizes alloc d (cs_vm s); emit_constant (ptr_value p) line (s\<lparr>cs_vm := vm\<rparr>) })"
  by (rule emits_object)
     (auto simp: slp_vm_new_double_def slp_obj_double_new_def elim!: new_tracked_kept intro: place_kept)

lemma emits_long:
  "emits (short_instr OP_PUSH_CONST)
     (\<lambda>s. do { (p, vm) \<leftarrow> slp_vm_new_long sizes alloc w (cs_vm s); emit_constant (ptr_value p) line (s\<lparr>cs_vm := vm\<rparr>) })"
  by (rule emits_object)
     (auto simp: slp_vm_new_long_def slp_obj_long_new_def elim!: new_tracked_kept intro: place_kept)

lemma emits_compound: "emits (insert [] {[op] | op. op \<in> snd ` set compound_opcodes}) (emit_compound t line)"
proof (cases "map_of compound_opcodes t")
  case None
  then show ?thesis unfolding emit_compound_def by (auto intro: emits_mono [OF emits_skip])
next
  case (Some op)
  then have "op \<in> snd ` set compound_opcodes" by (force dest: map_of_SomeD)
  with Some show ?thesis unfolding emit_compound_def by (auto intro: emits_mono [OF emits_byte])
qed

lemma emits_reverse: "emits (insert [] {[OP_REVERSE, x] | x. True}) (emit_reverse n line)"
  unfolding emit_reverse_def by (auto intro: emits_mono [OF emits_pair] emits_mono [OF emits_skip])

lemma emits_call_named: "emits {OP_CALL_NAMED # n # bs | bs. length bs = 2} (emit_call_named env n name line)"
  unfolding emit_call_named_def by (rule emits_seq [OF emits_pair emits_last [OF emits_name]]) simp

definition long_instr :: "byte \<Rightarrow> bytes set" where
  "long_instr op = {op # bs | bs. length bs = 4}"

lemma emits_import: "emits (long_instr OP_IMPORT) (emit_import env target path line)"
proof -
  have "emits {bs. length bs = 2} (case path of Some p \<Rightarrow> emit_name env p line | None \<Rightarrow> emit_short 0 line)"
    by (simp add: emits_name emits_short split: option.split)
  then show ?thesis unfolding emit_import_def
    by (intro emits_seq [OF emits_named emits_last]) (auto simp: short_instr_def long_instr_def)
qed

lemma emits_register: "emits (insert [] (long_instr OP_BRIDGE_REGISTER)) (register_bridge env keyword ident line)"
proof (cases "keyword = None \<or> ident = None")
  case True
  then show ?thesis by (auto simp: register_bridge_def split: option.splits intro: emits_mono [OF emits_skip])
next
  case False
  then obtain k i where "keyword = Some k" "ident = Some i" by auto
  moreover have "emits (insert [] (long_instr OP_BRIDGE_REGISTER))
      (do_all [emit_named env OP_BRIDGE_REGISTER k line, emit_name env i line])"
    by (rule emits_seq [OF emits_named emits_last [OF emits_name]]) (auto simp: short_instr_def long_instr_def)
  ultimately show ?thesis by (simp add: register_bridge_def)
qed

lemma emits_return: "emits {[OP_PUSH_NULL, OP_RETURN]} (emit_return line)"
  unfolding emit_return_def by (rule emits_seq [OF emits_byte emits_last [OF emits_byte]]) simp

lemma emits_pop_value: "emits {[OP_POP]} (pop_value n)"
  using emit_byte_appends by (fastforce simp: emits_def pop_value_def bind_Some_iff)

lemma emits_end_statement:
  "emits (if leaves_no_value n then {[]} else {[if print_it then OP_RETURN else OP_POP]}) (end_statement print_it n)"
  using emit_byte_appends by (fastforce simp: emits_def end_statement_def bind_Some_iff appends_Nil)

subsection \<open>Whole instructions\<close>

lemma operand_bytes_table [simp]:
  "operand_bytes OP_PUSH_NULL = 0" "operand_bytes OP_PUSH_TRUE = 0" "operand_bytes OP_PUSH_FALSE = 0"
  "operand_bytes OP_PUSH_CONST = 2" "operand_bytes OP_LOAD_LOCAL_0 = 0" "operand_bytes OP_LOAD_LOCAL_1 = 0"
  "operand_bytes OP_LOAD_LOCAL_2 = 0" "operand_bytes OP_LOAD_LOCAL_3 = 0" "operand_bytes OP_LOAD_LOCAL_4 = 0"
  "operand_bytes OP_LOAD_LOCAL_5 = 0" "operand_bytes OP_LOAD_LOCAL_6 = 0" "operand_bytes OP_LOAD_LOCAL_7 = 0"
  "operand_bytes OP_STORE_LOCAL_0 = 0" "operand_bytes OP_STORE_LOCAL_1 = 0" "operand_bytes OP_STORE_LOCAL_2 = 0"
  "operand_bytes OP_STORE_LOCAL_3 = 0" "operand_bytes OP_STORE_LOCAL_4 = 0" "operand_bytes OP_STORE_LOCAL_5 = 0"
  "operand_bytes OP_STORE_LOCAL_6 = 0" "operand_bytes OP_STORE_LOCAL_7 = 0" "operand_bytes OP_LOAD_LOCAL = 1"
  "operand_bytes OP_STORE_LOCAL = 1" "operand_bytes OP_LOAD_GLOBAL = 2" "operand_bytes OP_STORE_GLOBAL = 2"
  "operand_bytes OP_STORE_CATCH = 2" "operand_bytes OP_LOAD_UPVALUE = 1" "operand_bytes OP_STORE_UPVALUE = 1"
  "operand_bytes OP_REFERENCE_LOCAL = 1" "operand_bytes OP_REFERENCE_GLOBAL = 2"
  "operand_bytes OP_REFERENCE_UPVALUE = 1" "operand_bytes OP_ADD = 0" "operand_bytes OP_SUBTRACT = 0"
  "operand_bytes OP_MULTIPLY = 0" "operand_bytes OP_DIVIDE = 0" "operand_bytes OP_MODULO = 0"
  "operand_bytes OP_POWER = 0" "operand_bytes OP_NEGATE = 0" "operand_bytes OP_CONCAT = 0"
  "operand_bytes OP_ALIGN = 0" "operand_bytes OP_REPEAT = 0" "operand_bytes OP_EQUAL = 0"
  "operand_bytes OP_NOT_EQUAL = 0" "operand_bytes OP_LESS = 0" "operand_bytes OP_GREATER = 0"
  "operand_bytes OP_LESS_EQUAL = 0" "operand_bytes OP_GREATER_EQUAL = 0" "operand_bytes OP_SPACESHIP = 0"
  "operand_bytes OP_MATCH = 0" "operand_bytes OP_NOT_MATCH = 0" "operand_bytes OP_NOT = 0" "operand_bytes OP_AND = 2"
  "operand_bytes OP_OR = 2" "operand_bytes OP_BIT_AND = 0" "operand_bytes OP_BIT_OR = 0"
  "operand_bytes OP_BIT_XOR = 0" "operand_bytes OP_BIT_NOT = 0" "operand_bytes OP_LSHIFT = 0"
  "operand_bytes OP_RSHIFT = 0" "operand_bytes OP_INCREMENT = 0" "operand_bytes OP_DECREMENT = 0"
  "operand_bytes OP_UNARY_PREDICATE = 2" "operand_bytes OP_BINARY_PREDICATE = 2"
  "operand_bytes OP_NEGATED_BINARY_PREDICATE = 2" "operand_bytes OP_POP = 0" "operand_bytes OP_DUP = 0"
  "operand_bytes OP_DUP2 = 0" "operand_bytes OP_SWAP = 0" "operand_bytes OP_REVERSE = 1" "operand_bytes OP_JUMP = 2"
  "operand_bytes OP_JUMP_IF_FALSE = 2" "operand_bytes OP_JUMP_IF_TRUE = 2" "operand_bytes OP_JUMP_IF_NULL = 2"
  "operand_bytes OP_LOOP = 2" "operand_bytes OP_CALL = 1" "operand_bytes OP_CALL_NAMED = 3"
  "operand_bytes OP_RETURN = 0" "operand_bytes OP_INLINE_RETURN = 0" "operand_bytes OP_CLOSURE = 2"
  "operand_bytes OP_CLOSE_UPVALUE = 0" "operand_bytes OP_FOREACH_NEXT = 2" "operand_bytes OP_FOREACH_NEXT_VALUE = 2"
  "operand_bytes OP_BUILD_ARRAY = 2" "operand_bytes OP_BUILD_HASH = 2" "operand_bytes OP_BUILD_KEY_VALUE = 0"
  "operand_bytes OP_INDEX_GET = 0" "operand_bytes OP_INDEX_ENSURE = 1" "operand_bytes OP_INDEX_SET = 0"
  "operand_bytes OP_TUPLE_GET = 0" "operand_bytes OP_TUPLE_COMPOUND = 1" "operand_bytes OP_OBJ_EXPR = 1"
  "operand_bytes OP_PUSH_HANDLER = 2" "operand_bytes OP_POP_HANDLER = 0" "operand_bytes OP_THROW = 0"
  "operand_bytes OP_ASSERT = 0" "operand_bytes OP_HALT = 0" "operand_bytes OP_DONE = 0" "operand_bytes OP_YIELD = 0"
  "operand_bytes OP_CALLCC = 1" "operand_bytes OP_RESUME = 0" "operand_bytes OP_BRIDGE_REGISTER = 4"
  "operand_bytes OP_IMPORT = 4" "operand_bytes OP_BACKTICK = 2" "operand_bytes OP_CLASS_LITERAL = 2"
  "operand_bytes OP_ADDRESS = 2" "operand_bytes OP_LOCAL = 0" "operand_bytes OP_THIS = 0"
  "operand_bytes OP_UNPACK_TUPLE = 1" "operand_bytes OP_BREAK = 0" "operand_bytes OP_CONTINUE = 0"
  "operand_bytes OP_NOP = 0" "operand_bytes OP_END = 0"
  by (simp_all add: operand_bytes_def byte_operand_def short_operand_op_def)

lemma whole_short: "bs \<in> short_instr op \<Longrightarrow> operand_bytes op = 2 \<Longrightarrow> whole bs"
  by (auto simp: short_instr_def whole_instr)

lemma whole_byte: "operand_bytes op = 0 \<Longrightarrow> whole [op]"
  by (simp add: whole_instr)

lemma whole_pair: "operand_bytes op = 1 \<Longrightarrow> whole [op, x]"
  by (simp add: whole_instr)

lemma small_cases: "i < 8 \<Longrightarrow> i = 0 \<or> i = 1 \<or> i = 2 \<or> i = 3 \<or> i = 4 \<or> i = 5 \<or> i = 6 \<or> i = (7::nat)"
  by arith

lemma whole_local: "i < 8 \<Longrightarrow> operand_bytes (OP_LOAD_LOCAL_0 + word_of_nat i) = 0"
  "i < 8 \<Longrightarrow> operand_bytes (OP_STORE_LOCAL_0 + word_of_nat i) = 0"
  by (auto dest!: small_cases)

lemma whole_load: "bs \<in> load_code \<Longrightarrow> whole bs"
  unfolding load_code_def by (auto intro: whole_byte whole_local whole_pair whole_short)

lemma whole_store: "bs \<in> store_code \<Longrightarrow> whole bs"
  unfolding store_code_def by (auto intro: whole_byte whole_local whole_pair whole_short)

lemma whole_reference: "bs \<in> reference_code \<Longrightarrow> whole bs"
  unfolding reference_code_def by (auto intro: whole_pair whole_short)

lemma whole_compound: "op \<in> snd ` set compound_opcodes \<Longrightarrow> operand_bytes op = 0"
  by (auto simp: compound_opcodes_def)

lemma binary_opcode_cases: "binary_opcode t = OP_ADD \<or> binary_opcode t \<in> snd ` set binary_opcodes"
  by (force simp: binary_opcode_def dest: map_of_SomeD split: option.split)

lemma whole_binary: "operand_bytes (binary_opcode t) = 0"
  using binary_opcode_cases [of t] by (auto simp: binary_opcodes_def)

end
