(* ===== verification/Compiler_Sound.thy ===== *)
theory Compiler_Sound
  imports Compiler_Units
begin

text \<open>The rules of the judgement for jumps, loops, scopes and functions, and the judgement of every node.\<close>

subsection \<open>Sequences\<close>

lemma soundD: "sound h0 os act \<Longrightarrow> act s = Some s' \<Longrightarrow> scopes_ok s \<Longrightarrow> frame s s' \<and> keeps_code h0 os s s'"
  by (simp add: sound_def)

lemma soundI: "(\<And>s s'. act s = Some s' \<Longrightarrow> scopes_ok s \<Longrightarrow> frame s s' \<and> keeps_code h0 os s s') \<Longrightarrow> sound h0 os act"
  by (simp add: sound_def)

lemma keeps_code_refl: "keeps_code h0 os s s"
  by (simp add: keeps_code_def)

lemma sound_skip: "sound h0 os Some"
  by (simp add: sound_def keeps_code_refl frame_refl)

lemma sound_nil: "sound h0 os (do_all [])"
  by (simp add: sound_def keeps_code_refl frame_refl)

lemma sound_none: "sound h0 os (\<lambda>_. None)"
  by (simp add: sound_def)

lemma sound_cons:
  assumes "sound h0 os act" "sound h0 os (do_all rest)" shows "sound h0 os (do_all (act # rest))"
proof (rule soundI)
  fix s s' assume r: "do_all (act # rest) s = Some s'" and ok: "scopes_ok s"
  then obtain t where t: "act s = Some t" "do_all rest t = Some s'" by (auto split: option.splits)
  note 1 = soundD [OF assms(1) t(1) ok]
  note 2 = soundD [OF assms(2) t(2) frame_scopes [OF conjunct1 [OF 1] ok]]
  from 1 2 show "frame s s' \<and> keeps_code h0 os s s'" by (blast intro: frame_trans keeps_code_trans)
qed

lemma sound_map: "(\<And>x. x \<in> set xs \<Longrightarrow> sound h0 os (f x)) \<Longrightarrow> sound h0 os (do_all (map f xs))"
  by (induction xs) (auto intro!: sound_nil sound_cons simp del: do_all.simps)

lemma sound_replicate: "sound h0 os act \<Longrightarrow> sound h0 os (do_all (replicate n act))"
  by (induction n) (auto intro!: sound_nil sound_cons simp del: do_all.simps)

lemma sound_state: "(\<And>x. sound h0 os (f x)) \<Longrightarrow> sound h0 os (\<lambda>s. f (g s) s)"
  by (simp add: sound_def)

lemma sound_mono: "sound h0 os act \<Longrightarrow> os \<subseteq> os' \<Longrightarrow> sound h0 os' act"
  unfolding sound_def keeps_code_def by blast

lemma sound_run_statements:
  "(\<And>n act. (n, act) \<in> set ns \<Longrightarrow> sound h0 os act) \<Longrightarrow> sound h0 os (run_statements repl ns)"
proof (induction ns)
  case Nil
  then show ?case by (simp add: sound_def keeps_code_refl frame_refl)
next
  case (Cons p ns)
  obtain n act where p: "p = (n, act)" by fastforce
  have "sound h0 os (end_statement b n)" for b
    by (rule sound_emits [OF emits_end_statement]) (auto simp: whole_byte split: if_splits)
  then have "sound h0 os (do_all [act, end_statement b n])" for b
    using Cons.prems p by (intro sound_cons sound_nil) auto
  moreover have "sound h0 os (run_statements repl ns)" by (rule Cons.IH) (meson Cons.prems list.set_intros(2))
  ultimately have "sound h0 os (do_all [do_all [act, end_statement (repl \<and> ns = []) n], run_statements repl ns])"
    by - (rule sound_cons, blast, rule sound_cons, blast, rule sound_nil)
  moreover have "run_statements repl (p # ns) = do_all [do_all [act, end_statement (repl \<and> ns = []) n], run_statements repl ns]"
    by (rule ext) (simp add: p split: option.splits)
  ultimately show ?case by (simp only:)
qed

subsection \<open>Jumps\<close>

lemma emit_jump_appends:
  assumes "emit_jump op line s = Some (off, t)" "scopes_ok s"
  shows "appends [op, 0xFF, 0xFF] s t \<and> off = Suc (length (code_of s))"
proof -
  have "emits {[op, 0xFF, 0xFF]} (do_all [emit_byte op line, emit_byte 0xFF line, emit_byte 0xFF line])"
    by (rule emits_seq [OF emits_byte emits_seq [OF emits_byte emits_last [OF emits_byte], where C = "{[0xFF, 0xFF]}"]]) auto
  moreover obtain n where "do_all [emit_byte op line, emit_byte 0xFF line, emit_byte 0xFF line] s = Some t"
    "code_count t = Some n" "off = n - 2"
    using assms(1) by (auto simp: emit_jump_def bind_Some_iff simp del: do_all.simps)
  ultimately have "appends [op, 0xFF, 0xFF] s t" "n = length (code_of t)" "off = n - 2"
    using assms(2) by (auto simp: emits_def code_count_def code_of_def simp del: do_all.simps)
  then show ?thesis by (simp add: appends_def)
qed

lemma sound_with_jump:
  assumes op: "operand_bytes op = 2" and body: "\<And>off. sound h0 (insert off os) (body off)"
  shows "sound h0 os (with_jump op line body)"
proof (rule soundI)
  fix s s' assume "with_jump op line body s = Some s'" and ok: "scopes_ok s"
  then obtain off t where t: "emit_jump op line s = Some (off, t)" "body off t = Some s'"
    by (auto simp: with_jump_def bind_Some_iff)
  have a: "appends [op, 0xFF, 0xFF] s t" and off: "off = Suc (length (code_of s))"
    using emit_jump_appends [OF t(1) ok] by blast+
  have k: "keeps_code h0 os s t" by (rule appends_keeps_code [OF a]) (simp add: whole_instr op)
  note b = soundD [OF body t(2) appends_scopes [OF a ok]]
  have "frame s s'" using a b by (auto simp: appends_def intro: frame_trans)
  moreover have "keeps_code h0 os s s'"
    unfolding keeps_code_def
  proof (intro impI)
    assume nf: "\<not> failed s'" and c: "code_ok h0 s" and os: "\<forall>off\<in>os. hole (code_of s) off"
    have "\<not> failed t" using nf b frame_failed by blast
    with k c os have 1: "code_ok h0 t" "\<forall>off. hole (code_of s) off \<longrightarrow> hole (code_of t) off"
      by (auto simp: keeps_code_def)
    have "hole (code_of t) off"
      using c a op hole_new [of "code_of s" op] unfolding off by (simp add: code_ok_def appends_def)
    with 1 os nf b show "code_ok h0 s' \<and> (\<forall>off. hole (code_of s) off \<longrightarrow> hole (code_of s') off)"
      by (auto simp: keeps_code_def)
  qed
  ultimately show "frame s s' \<and> keeps_code h0 os s s'" by blast
qed

lemma set_code_at:
  assumes "set_code i b s = Some s'" "scopes_ok s"
  shows "frame s s' \<and> code_of s' = (code_of s)[i := b] \<and> pending s' = pending s \<and> cs_vm s' = cs_vm s"
proof -
  obtain ck where "current_chunk s = Some ck" "s' = put_chunk (ck\<lparr>ck_code := (ck_code ck)[i := b]\<rparr>) s"
    using assms(1) by (auto simp: set_code_def bind_Some_iff split: if_splits)
  then show ?thesis
    by (auto simp: frame_def same_compiler_def put_chunk_def update_compiler_def pending_def code_of_def current_chunk_def Let_def)
qed

text \<open>Writing one byte of the operand of a jump.\<close>

lemma set_code_sound: "p = off \<or> p = Suc off \<Longrightarrow> off \<in> os \<Longrightarrow> sound h0 os (set_code p b)"
proof (rule soundI)
  fix s s' assume p: "p = off \<or> p = Suc off" and off: "off \<in> os" and r: "set_code p b s = Some s'" and ok: "scopes_ok s"
  note f = set_code_at [OF r ok]
  have "hole (code_of s) off \<Longrightarrow> whole (code_of s) \<Longrightarrow> whole (code_of s')"
    using whole_update [of "code_of s" off p "length (code_of s)" b] p f by simp
  moreover have "hole (code_of s) off \<Longrightarrow> hole (code_of s) o' \<Longrightarrow> hole (code_of s') o'" for o'
    using hole_update [of "code_of s" off p o' b] p f by simp
  ultimately show "frame s s' \<and> keeps_code h0 os s s'"
    using f off by (auto simp: keeps_code_def code_ok_def pending_def Let_def)
qed

lemma sound_set_operand: "off \<in> os \<Longrightarrow> sound h0 os (set_operand off j)"
  unfolding set_operand_def by (intro sound_cons sound_nil) (rule set_code_sound; simp)+

lemma sound_error: "sound h0 os (\<lambda>s. Some (compiler_error line msg s))"
  using appends_error appends_keeps_code [of "[]"] by (fastforce simp: sound_def appends_def)

lemma sound_patch: "off \<in> os \<Longrightarrow> sound h0 os (patch_jump off)"
proof (rule soundI)
  fix s s' assume "off \<in> os" "patch_jump off s = Some s'" "scopes_ok s"
  moreover from this obtain j where "set_operand off j s = Some s' \<or> Some (compiler_error 0 ''Too much code to jump over.'' s) = Some s'"
    by (auto simp: patch_jump_def bind_Some_iff Let_def split: if_splits)
  ultimately show "frame s s' \<and> keeps_code h0 os s s'"
    using sound_set_operand [of off os h0 j] sound_error [of h0 os 0 "''Too much code to jump over.''"]
    unfolding sound_def by blast
qed

text \<open>The pending jumps are operands of jumps by the invariant.\<close>

lemma sound_pending:
  assumes "\<And>s. set (offs s) \<subseteq> set (cp_break_jumps (cs_compiler s)) \<union> set (cp_continue_jumps (cs_compiler s))"
    and "\<And>off os. off \<in> os \<Longrightarrow> sound h0 os (f off)"
  shows "sound h0 os (\<lambda>s. do_all (map f (offs s)) s)"
proof (rule soundI)
  fix s s' assume r: "do_all (map f (offs s)) s = Some s'" and ok: "scopes_ok s"
  have "sound h0 (os \<union> set (offs s)) (do_all (map f (offs s)))"
    by (rule sound_map) (simp add: assms(2))
  from soundD [OF this r ok] assms(1) [of s] show "frame s s' \<and> keeps_code h0 os s s'"
    unfolding keeps_code_def code_ok_def by blast
qed

lemma sound_patch_breaks: "sound h0 os patch_breaks"
  unfolding patch_breaks_def [abs_def] patch_jumps_def
  by (rule sound_pending) (auto intro: sound_patch dest: in_set_takeD)

lemma sound_patch_continues: "sound h0 os patch_continues"
  unfolding patch_continues_def [abs_def] patch_jumps_def
  by (rule sound_pending) (auto intro: sound_patch dest: in_set_takeD)

lemma sound_patch_continues_to: "sound h0 os (patch_continues_to target)"
  unfolding patch_continues_to_def [abs_def]
  by (rule sound_pending) (auto intro: sound_set_operand dest: in_set_takeD)

lemma set_array_put: "set (array_put i x xs) \<subseteq> insert x (set xs)"
  by (auto simp: array_put_def dest: in_set_takeD in_set_dropD)

lemma sound_record_break: "off \<in> os \<Longrightarrow> sound h0 os (record_break off)"
  using set_array_put chain_ok_chunk
  by (fastforce simp: sound_def record_break_def update_compiler_def frame_def same_compiler_def keeps_code_def code_ok_def
      code_of_def current_chunk_def scopes_ok_def failed_def)

lemma sound_record_continue: "off \<in> os \<Longrightarrow> sound h0 os (record_continue off)"
  using set_array_put chain_ok_chunk
  by (fastforce simp: sound_def record_continue_def update_compiler_def frame_def same_compiler_def keeps_code_def code_ok_def
      code_of_def current_chunk_def scopes_ok_def failed_def)

lemma sound_byte: "operand_bytes op = 0 \<Longrightarrow> sound h0 os (emit_byte op line)"
  by (rule sound_emits [OF emits_byte]) (simp add: whole_byte)

lemma sound_jump_out:
  assumes "\<And>off. sound h0 (insert off os) (rec off)" shows "sound h0 os (jump_out rec line)"
proof -
  have "sound h0 os (do_all [do_all (replicate n (emit_byte OP_POP_HANDLER line)), with_jump OP_JUMP line rec])" for n
    by (intro sound_cons sound_nil sound_replicate sound_byte sound_with_jump assms) simp_all
  then show ?thesis
    unfolding sound_def by (auto simp: jump_out_def Let_def keeps_code_refl frame_refl simp del: do_all.simps split: if_splits)
qed

lemma emit_loop_appends:
  assumes "emit_loop line s = Some s'" "scopes_ok s"
  shows "(\<exists>x y. appends [OP_LOOP, x, y] s s') \<or> frame s s' \<and> failed s'"
proof -
  obtain t n where t: "emit_byte OP_LOOP line s = Some t" "code_count t = Some n"
    and r: "(let offset = int n - cp_loop_start (cs_compiler t) + 2
      in if 32767 < offset then Some (compiler_error line ''Loop body too large.'' t)
         else do_all [emit_byte (word_of_int (offset div 256)) line, emit_byte (word_of_int offset) line] t) = Some s'"
    using assms(1) by (auto simp: emit_loop_def bind_Some_iff simp del: do_all.simps)
  have a: "appends [OP_LOOP] s t" using emit_byte_appends t(1) assms(2) by blast
  have ok: "scopes_ok t" using appends_scopes [OF a assms(2)] .
  show ?thesis
  proof (cases "32767 < int n - cp_loop_start (cs_compiler t) + 2")
    case True
    with r have s': "s' = compiler_error line ''Loop body too large.'' t" by (simp add: Let_def)
    then have "frame s s'" using a appends_error [OF ok] by (auto simp: appends_def intro: frame_trans)
    moreover have "failed s'" by (auto simp: s' failed_def compiler_error_def update_compiler_def)
    ultimately show ?thesis by blast
  next
    case False
    with r obtain x y where "do_all [emit_byte x line, emit_byte y line] t = Some s'"
      by (auto simp: Let_def simp del: do_all.simps)
    moreover have "emits {[x, y]} (do_all [emit_byte x line, emit_byte y line])"
      by (rule emits_seq [OF emits_byte emits_last [OF emits_byte]]) simp
    ultimately have "appends [x, y] t s'" using ok by (auto simp: emits_def simp del: do_all.simps)
    from appends_trans [OF a this] show ?thesis by auto
  qed
qed

lemma sound_emit_loop: "sound h0 os (emit_loop line)"
proof (rule soundI)
  fix s s' assume r: "emit_loop line s = Some s'" "scopes_ok s"
  from emit_loop_appends [OF this] show "frame s s' \<and> keeps_code h0 os s s'"
  proof
    assume "\<exists>x y. appends [OP_LOOP, x, y] s s'"
    then obtain x y where a: "appends [OP_LOOP, x, y] s s'" by blast
    have "keeps_code h0 os s s'" by (rule appends_keeps_code [OF a]) (simp add: whole_instr)
    with a show ?thesis by (simp add: appends_def)
  next
    assume "frame s s' \<and> failed s'"
    then show ?thesis by (simp add: keeps_code_def)
  qed
qed

lemma sound_at_count: "(\<And>n. sound h0 os (body n)) \<Longrightarrow> sound h0 os (at_count body)"
  by (auto simp: sound_def at_count_def bind_Some_iff)

subsection \<open>Loops, scopes and tries\<close>

text \<open>A change of fields that the code invariant does not speak of.\<close>

definition retags :: "compile_state \<Rightarrow> compile_state \<Rightarrow> bool" where
  "retags s s' \<longleftrightarrow> cs_vm s' = cs_vm s \<and> cs_enclosing s' = cs_enclosing s \<and> code_of s' = code_of s \<and>
     cp_break_jumps (cs_compiler s') = cp_break_jumps (cs_compiler s) \<and>
     cp_continue_jumps (cs_compiler s') = cp_continue_jumps (cs_compiler s) \<and>
     cp_error (cs_compiler s') = cp_error (cs_compiler s)"

lemma retags_around:
  assumes "retags s t" "keeps_code h0 os t u" "retags u s'"
  shows "keeps_code h0 os s s'"
  using assms by (simp add: retags_def keeps_code_def code_ok_def failed_def)

lemma sound_looping:
  assumes "sound h0 os body" shows "sound h0 os (looping b body)"
proof (rule soundI)
  fix s s' assume r: "looping b body s = Some s'" and ok: "scopes_ok s"
  then obtain t u where t: "enter_loop b s = Some t" "body t = Some u" "leave_loop (cs_compiler s) u = Some s'"
    by (auto simp: looping_def split: option.splits)
  have e: "retags s t" "retags u s'"
    using t(1,3) by (auto simp: enter_loop_def leave_loop_def retags_def update_compiler_def code_of_def current_chunk_def bind_Some_iff)
  have "scopes_ok t"
    using t(1) ok by (cases "cs_enclosing s") (auto simp: enter_loop_def update_compiler_def bind_Some_iff scopes_ok_def compiler_ok_def)
  note f = soundD [OF assms t(2) this]
  have "frame s s'" using t(1,3) f
    by (auto simp: enter_loop_def leave_loop_def update_compiler_def bind_Some_iff frame_def same_compiler_def)
  with f e show "frame s s' \<and> keeps_code h0 os s s'" using retags_around by blast
qed

lemma do_all_append: "do_all (as @ bs) s = (case do_all as s of None \<Rightarrow> None | Some t \<Rightarrow> do_all bs t)"
  by (induction as arbitrary: s) (auto split: option.splits)

lemma pop_locals_none:
  "\<forall>lv\<in>set lvs. lv_depth lv = 0 \<Longrightarrow> 0 \<le> cp_scope_depth (cs_compiler s) \<Longrightarrow> pop_locals lvs s = Some s"
  by (cases "(lvs, s)" rule: pop_locals.cases) auto

lemma chain_ok_compiler: "chain_ok c es \<Longrightarrow> \<exists>b. compiler_ok b c"
  by (cases es) auto

lemma sound_scoped:
  assumes "sound h0 os (do_all as)" shows "sound h0 os (scoped as)"
proof (rule soundI)
  fix s s' assume r: "scoped as s = Some s'" and ok: "scopes_ok s"
  then obtain t u where t: "begin_scope s = Some t" "do_all as t = Some u" "end_scope u = Some s'"
    by (auto simp: scoped_def do_all_append split: option.splits)
  have okt: "scopes_ok t"
    using t(1) ok by (cases "cs_enclosing s") (auto simp: begin_scope_def update_compiler_def scopes_ok_def compiler_ok_def)
  note f = soundD [OF assms t(2) okt]
  let ?u = "update_compiler (\<lambda>c. c\<lparr>cp_scope_depth := cp_scope_depth c - 1\<rparr>) u"
  obtain b where b: "compiler_ok b (cs_compiler s)" using ok chain_ok_compiler by (auto simp: scopes_ok_def)
  have "cp_locals (cs_compiler u) = cp_locals (cs_compiler s)" "cp_scope_depth (cs_compiler u) = cp_scope_depth (cs_compiler s) + 1"
    using t(1) f by (auto simp: begin_scope_def update_compiler_def frame_def same_compiler_def)
  with b have "s' = ?u"
    using t(3) pop_locals_none [of "rev (cp_locals (cs_compiler u))" ?u]
    by (simp add: end_scope_def Let_def update_compiler_def compiler_ok_def)
  then have e: "retags s t" "retags u s'" and "frame s s'"
    using t(1) f by (auto simp: begin_scope_def retags_def update_compiler_def code_of_def current_chunk_def frame_def same_compiler_def)
  with f show "frame s s' \<and> keeps_code h0 os s s'" using retags_around by blast
qed

lemma sound_inside_try:
  assumes "sound h0 os body" shows "sound h0 os (inside_try body)"
proof (rule soundI)
  fix s s' assume r: "inside_try body s = Some s'" and ok: "scopes_ok s"
  then obtain t u where t: "add_try_depth 1 s = Some t" "body t = Some u" "add_try_depth (- 1) u = Some s'"
    by (auto simp: inside_try_def split: option.splits)
  have "scopes_ok t"
    using t(1) ok by (cases "cs_enclosing s") (auto simp: add_try_depth_def update_compiler_def scopes_ok_def compiler_ok_def)
  note f = soundD [OF assms t(2) this]
  have e: "retags s t" "retags u s'" and "frame s s'"
    using t(1,3) f by (auto simp: add_try_depth_def retags_def update_compiler_def code_of_def current_chunk_def frame_def same_compiler_def)
  with f show "frame s s' \<and> keeps_code h0 os s s'" using retags_around by blast
qed

subsection \<open>Functions\<close>

lemma new_function_ok:
  assumes "new_function env vm = Some (Some (a, fn, vm'))"
  shows "functions_kept (vm_heap vm) (vm_heap vm') \<and> fn_upvalue_count fn = 0 \<and> (\<exists>ck. fn_chunk fn = Some ck \<and> ck_code ck = [])"
proof -
  obtain q h where q: "slp_obj_function_new (ce_alloc env (vm_heap vm)) True (vm_heap vm) = (q, h)" by fastforce
  with assms obtain fn0 where a: "q = Some a" and fn0: "get_function h a = Some fn0"
    and fn: "fn_upvalue_count fn = fn_upvalue_count fn0" "fn_chunk fn = fn_chunk fn0"
    and h: "functions_kept h (vm_heap vm')"
    by (cases q) (auto simp: new_function_def bind_Some_iff Let_def split: option.splits dest!: intern_string_kept)
  define new where "new = \<lparr>fn_arity = 0, fn_upvalue_count = 0, fn_chunk = Some slp_chunk_init, fn_name = None,
    fn_source_name = None, fn_line_start = 0, fn_line_end = 0\<rparr>"
  from q a have "h = (vm_heap vm)(a \<mapsto> OFunction new)"
    by (auto simp: slp_obj_function_new_def place_def new_def split: option.splits)
  moreover from this have "functions_kept (vm_heap vm) h"
    by (auto simp: functions_kept_def new_def slp_chunk_init_def)
  ultimately show ?thesis
    using fn fn0 h functions_kept_trans by (auto simp: get_function_def new_def slp_chunk_init_def)
qed

lemma add_arguments_ok:
  "add_arguments env names s = Some s' \<Longrightarrow>
   cs_enclosing s' = cs_enclosing s \<and> functions_kept (vm_heap (cs_vm s)) (vm_heap (cs_vm s')) \<and>
   cs_compiler s' = (cs_compiler s)\<lparr>cp_locals := cp_locals (cs_compiler s) @
     map (\<lambda>name. \<lparr>lv_name = Some name, lv_depth = 0, lv_captured = False\<rparr>) names\<rparr>"
proof (induction names arbitrary: s)
  case (Cons name names)
  then obtain v t where t: "intern_str env name s = Some (v, t)"
    and r: "add_arguments env names (update_compiler (\<lambda>c. c\<lparr>cp_locals := cp_locals c @ [\<lparr>lv_name = Some name, lv_depth = 0, lv_captured = False\<rparr>]\<rparr>) t) = Some s'"
    by (auto split: option.splits)
  from t obtain vm where vm: "t = s\<lparr>cs_vm := vm\<rparr>" "functions_kept (vm_heap (cs_vm s)) (vm_heap vm)"
    by (auto simp: intern_str_def slp_vm_copy_string_def bind_Some_iff dest!: intern_string_kept)
  with Cons.IH [OF r] show ?case by (auto simp: update_compiler_def intro: functions_kept_trans)
qed (simp add: update_compiler_def)

lemma begin_function_ok:
  assumes "begin_function env keyword s = Some t" "scopes_ok s"
  shows "scopes_ok t \<and> cs_enclosing t = cs_compiler s # cs_enclosing s \<and> \<not> failed t \<and> code_of t = [] \<and>
    pending t = ([], 0, [], 0) \<and> functions_kept (vm_heap (cs_vm s)) (vm_heap (cs_vm t))"
proof -
  obtain a fn vm u where f: "new_function env (cs_vm s) = Some (Some (a, fn, vm))"
    and u: "add_arguments env argument_names
      \<lparr>cs_vm = vm, cs_compiler = new_compiler a fn (cp_repl_mode (cs_compiler s)), cs_enclosing = cs_compiler s # cs_enclosing s\<rparr> = Some u"
    and t: "t = update_compiler (\<lambda>c. c\<lparr>cp_inline_body := (keyword = Some ''inline'')\<rparr>) u"
    using assms(1) by (auto simp: begin_function_def init_compiler_def bind_Some_iff)
  from new_function_ok [OF f] add_arguments_ok [OF u] t assms(2) show ?thesis
    by (auto simp: scopes_ok_def compiler_ok_def new_compiler_def frame_names_def argument_names_def update_compiler_def
        failed_def code_of_def current_chunk_def pending_def Let_def intro: functions_kept_trans)
qed

end
