(* ===== verification/Compiler_Whole.thy ===== *)
theory Compiler_Whole
  imports Compiler_Sound
begin

text \<open>The judgement of every node, by induction over the calls of the compiler, and what it gives for scripts.\<close>

subsection \<open>Closures\<close>

lemma emits_line_range: "emits {[]} (set_line_range l)"
  unfolding emits_def
proof (intro allI impI)
  fix s s' assume e: "set_line_range l s = Some s'" and ok: "scopes_ok s"
  from e obtain ck where ck: "current_chunk s = Some ck" by (auto simp: set_line_range_def bind_Some_iff)
  obtain i j where "line_range (ck_lines ck) (0, 0) = (i, j)" by fastforce
  with e ck have s': "s' = update_compiler (\<lambda>c. c\<lparr>cp_fn := (cp_fn c)\<lparr>fn_line_start := (if 0 < i then i else l),
      fn_line_end := (if 0 < j then j else l)\<rparr>\<rparr>) s"
    by (simp add: set_line_range_def)
  from ok have "fn_chunk (cp_fn (cs_compiler s)) \<noteq> None" using chain_ok_chunk by (simp add: scopes_ok_def)
  then show "\<exists>bs\<in>{[]}. appends bs s s'"
    by (simp add: s' update_compiler_def appends_def frame_def same_compiler_def code_of_def current_chunk_def pending_def Let_def)
qed

lemma emits_name_function: "emits {[]} (name_function env keyword)"
  unfolding emits_def
proof (intro allI impI)
  fix s s' assume e: "name_function env keyword s = Some s'" and ok: "scopes_ok s"
  show "\<exists>bs\<in>{[]}. appends bs s s'"
  proof (cases keyword)
    case None
    with e ok show ?thesis by (simp add: name_function_def appends_Nil)
  next
    case (Some k)
    with e obtain v t where t: "intern_str env k s = Some (v, t)"
      and s': "s' = update_compiler (\<lambda>c. c\<lparr>cp_fn := (cp_fn c)\<lparr>fn_name := (case v of VObj a \<Rightarrow> Some a | _ \<Rightarrow> None)\<rparr>\<rparr>) t"
      by (auto simp: name_function_def bind_Some_iff)
    have "appends [] s t" using intern_str_appends t ok by blast
    then show ?thesis
      by (simp add: s' update_compiler_def appends_def frame_def same_compiler_def code_of_def current_chunk_def pending_def Let_def)
  qed
qed

lemma emits_closing: "emits {[OP_PUSH_NULL, OP_RETURN]} (do_all [set_line_range l, emit_return line, name_function env keyword])"
  by (rule emits_seq [OF emits_line_range emits_seq [OF emits_return emits_last [OF emits_name_function],
        where C = "{[OP_PUSH_NULL, OP_RETURN]}"]]) simp_all

definition closure_code :: "bytes set" where
  "closure_code = {OP_CLOSURE # x @ y | x y. length x = 2 \<and> y \<in> insert [] (long_instr OP_BRIDGE_REGISTER)}"

lemma emits_make_closure:
  "emits closure_code (do_all [emit_byte OP_CLOSURE line, emit_constant_index v line, emit_upvalues [] line,
     register_bridge env keyword ident line])"
proof -
  have "emits {[]} (emit_upvalues [] line)" unfolding emit_upvalues_def by (simp add: emits_def appends_Nil)
  then have "emits (insert [] (long_instr OP_BRIDGE_REGISTER)) (do_all [emit_upvalues [] line, register_bridge env keyword ident line])"
    by (rule emits_seq [OF _ emits_last [OF emits_register]]) simp
  then have "emits {x @ y | x y. length x = 2 \<and> y \<in> insert [] (long_instr OP_BRIDGE_REGISTER)}
      (do_all [emit_constant_index v line, emit_upvalues [] line, register_bridge env keyword ident line])"
    by (rule emits_seq [OF emits_constant_index]) auto
  then show ?thesis
    by (rule emits_seq [OF emits_byte]) (auto simp: closure_code_def)
qed

lemma whole_closure: "bs \<in> closure_code \<Longrightarrow> whole bs"
  by (auto simp: closure_code_def long_instr_def whole.simps)

lemma leave_function_ok:
  assumes u: "leave_function t = Some u" and enc: "cs_enclosing t = c # es" and ok: "scopes_ok t"
  shows "cs_enclosing u = es" "pending u = (cp_break_jumps c, cp_break_count c, cp_continue_jumps c, cp_continue_count c)"
    "same_compiler c (cs_compiler u)" "fn_chunk (cp_fn (cs_compiler u)) = fn_chunk (cp_fn c)"
    "failed t \<Longrightarrow> failed u"
    "functions_ok h0 (vm_heap (cs_vm t)) \<Longrightarrow> whole (code_of t) \<Longrightarrow> functions_ok h0 (vm_heap (cs_vm u))"
proof -
  let ?h = "(vm_heap (cs_vm t))(cp_function (cs_compiler t) \<mapsto> OFunction (cp_fn (cs_compiler t)))"
  have chunk: "fn_chunk (cp_fn (cs_compiler t)) \<noteq> None" "fn_upvalue_count (cp_fn (cs_compiler t)) = 0" "fn_chunk (cp_fn c) \<noteq> None"
    using ok enc chain_ok_chunk [of c es] by (auto simp: scopes_ok_def compiler_ok_def)
  have u': "cs_enclosing u = es" "vm_heap (cs_vm u) = ?h"
    "cs_compiler u = (if cp_error (cs_compiler t) \<noteq> None \<and> cp_error c = None then c\<lparr>cp_error := cp_error (cs_compiler t)\<rparr> else c)"
    using u enc by (auto simp: leave_function_def Let_def compiler_error_def update_compiler_def split: option.splits)
  then show "cs_enclosing u = es" "pending u = (cp_break_jumps c, cp_break_count c, cp_continue_jumps c, cp_continue_count c)"
    "same_compiler c (cs_compiler u)" "fn_chunk (cp_fn (cs_compiler u)) = fn_chunk (cp_fn c)" "failed t \<Longrightarrow> failed u"
    using chunk(3) by (auto simp: pending_def same_compiler_def failed_def)
  assume "functions_ok h0 (vm_heap (cs_vm t))" "whole (code_of t)"
  then show "functions_ok h0 (vm_heap (cs_vm u))"
    unfolding u' functions_ok_def using chunk(1,2) by (auto simp: code_of_def current_chunk_def)
qed

text \<open>The enclosing compiler after the end of the function: it has the error of the inner one.\<close>

lemma end_function_steps:
  assumes "end_function env keyword ident bl line s = Some s'" "cs_enclosing s = c # es" "scopes_ok s"
  obtains t u bs where "appends [OP_PUSH_NULL, OP_RETURN] s t" "leave_function t = Some u" "bs \<in> closure_code" "appends bs u s'"
    "scopes_ok u"
proof -
  obtain t where t: "do_all [set_line_range bl, emit_return line, name_function env keyword] s = Some t"
    and r: "do_all [leave_function, emit_byte OP_CLOSURE line, emit_constant_index (VObj (cp_function (cs_compiler t))) line,
                  emit_upvalues (cp_upvalues (cs_compiler t)) line, register_bridge env keyword ident line] t = Some s'"
    using assms(1) by (auto simp: end_function_def bind_Some_iff Let_def simp del: do_all.simps)
  have a: "appends [OP_PUSH_NULL, OP_RETURN] s t" using emits_closing t assms(3) unfolding emits_def by blast
  have ok: "scopes_ok t" using appends_scopes [OF a assms(3)] .
  have enc: "cs_enclosing t = c # es" using a assms(2) by (simp add: appends_def frame_def)
  with ok have up: "cp_upvalues (cs_compiler t) = []" by (auto simp: scopes_ok_def compiler_ok_def)
  from r obtain u where u: "leave_function t = Some u"
    and r': "do_all [emit_byte OP_CLOSURE line, emit_constant_index (VObj (cp_function (cs_compiler t))) line, emit_upvalues [] line,
      register_bridge env keyword ident line] u = Some s'"
    unfolding up by (auto simp: do_all.simps(2) [of leave_function] simp del: do_all.simps split: option.splits)
  note U = leave_function_ok [OF u enc ok]
  have "frame (u\<lparr>cs_compiler := c\<rparr>) u" using U(3) by (simp add: frame_def)
  moreover have "scopes_ok (u\<lparr>cs_compiler := c\<rparr>)" using ok enc U(1) by (simp add: scopes_ok_def)
  ultimately have "scopes_ok u" by (rule frame_scopes)
  then obtain bs where "bs \<in> closure_code" "appends bs u s'" using emits_make_closure r' unfolding emits_def by blast
  with a u \<open>scopes_ok u\<close> show ?thesis using that by blast
qed

lemma sound_function:
  assumes body: "sound h0 {} body"
  shows "sound h0 os (do_all [begin_function env keyword, body, end_function env keyword ident bl line])"
proof (rule soundI)
  fix s s' assume "do_all [begin_function env keyword, body, end_function env keyword ident bl line] s = Some s'" and ok: "scopes_ok s"
  then obtain a b where a: "begin_function env keyword s = Some a" and b: "body a = Some b"
    and e: "end_function env keyword ident bl line b = Some s'"
    by (auto split: option.splits)
  let ?c = "cs_compiler s" and ?es = "cs_enclosing s"
  note A = begin_function_ok [OF a ok]
  note B = soundD [OF body b conjunct1 [OF A]]
  have okb: "scopes_ok b" using A B frame_scopes by blast
  have encb: "cs_enclosing b = ?c # ?es" using A B by (simp add: frame_def)
  obtain t u bs where t: "appends [OP_PUSH_NULL, OP_RETURN] b t" and u: "leave_function t = Some u"
    and bs: "bs \<in> closure_code" "appends bs u s'" and oku: "scopes_ok u"
    using end_function_steps [OF e encb okb] by blast
  have okt: "scopes_ok t" using appends_scopes [OF t okb] .
  have enct: "cs_enclosing t = ?c # ?es" using t encb by (simp add: appends_def frame_def)
  note U = leave_function_ok [OF u enct okt]
  have su: "frame s u" using U(1,3) by (simp add: frame_def)
  have fr: "frame s s'" using su bs(2) by (auto simp: appends_def intro: frame_trans)
  have "keeps_code h0 os s s'"
    unfolding keeps_code_def
  proof (intro impI)
    assume nf: "\<not> failed s'" and c: "code_ok h0 s" and os: "\<forall>off\<in>os. hole (code_of s) off"
    have nfu: "\<not> failed u" using nf bs(2) frame_failed by (auto simp: appends_def)
    then have nfb: "\<not> failed b" using U(5) t frame_failed by (auto simp: appends_def)
    have "code_ok h0 a" using A c functions_ok_kept by (auto simp: code_ok_def pending_def Let_def)
    then have "code_ok h0 b" using B nfb by (simp add: keeps_code_def)
    moreover have "keeps_code h0 {} b t" by (rule appends_keeps_code [OF t]) (simp add: whole_instr whole.simps)
    moreover have "\<not> failed t" using nfu U(5) by blast
    ultimately have "code_ok h0 t" by (simp add: keeps_code_def)
    then have "functions_ok h0 (vm_heap (cs_vm u))" using U(6) by (simp add: code_ok_def)
    moreover have code: "code_of u = code_of s" using U(4) by (simp add: code_of_def current_chunk_def)
    ultimately have "code_ok h0 u" using c U(2) by (simp add: code_ok_def pending_def Let_def)
    moreover have "keeps_code h0 os u s'" by (rule appends_keeps_code [OF bs(2) whole_closure [OF bs(1)]])
    ultimately show "code_ok h0 s' \<and> (\<forall>off. hole (code_of s) off \<longrightarrow> hole (code_of s') off)"
      using os nf code by (simp add: keeps_code_def)
  qed
  with fr show "frame s s' \<and> keeps_code h0 os s s'" by blast
qed

subsection \<open>Nodes\<close>

lemma sound_if: "(P \<Longrightarrow> sound h0 os a) \<Longrightarrow> (\<not> P \<Longrightarrow> sound h0 os b) \<Longrightarrow> sound h0 os (if P then a else b)"
  by simp

lemma sound_option:
  "(x = None \<Longrightarrow> sound h0 os a) \<Longrightarrow> (\<And>y. x = Some y \<Longrightarrow> sound h0 os (f y)) \<Longrightarrow>
   sound h0 os (case x of None \<Rightarrow> a | Some y \<Rightarrow> f y)"
  by (simp split: option.split)

lemma sound_list:
  "(x = [] \<Longrightarrow> sound h0 os a) \<Longrightarrow> (\<And>y ys. x = y # ys \<Longrightarrow> sound h0 os (f y ys)) \<Longrightarrow>
   sound h0 os (case x of [] \<Rightarrow> a | y # ys \<Rightarrow> f y ys)"
  by (simp split: list.split)

lemma sound_option_if:
  "(P \<Longrightarrow> sound h0 os (f a)) \<Longrightarrow> (\<not> P \<Longrightarrow> sound h0 os b) \<Longrightarrow>
   sound h0 os (case (if P then Some a else None) of None \<Rightarrow> b | Some y \<Rightarrow> f y)"
  by simp

lemma sound_option_list:
  "(xs = [] \<Longrightarrow> sound h0 os a) \<Longrightarrow> (\<And>y ys. xs = y # ys \<Longrightarrow> sound h0 os (f (g y ys))) \<Longrightarrow>
   sound h0 os (case (case xs of [] \<Rightarrow> None | y # ys \<Rightarrow> Some (g y ys)) of None \<Rightarrow> a | Some act \<Rightarrow> f act)"
  by (simp split: list.split)

lemma sound_option_second:
  "(\<And>y z ys. xs = y # z # ys \<Longrightarrow> sound h0 os (f (g y z ys))) \<Longrightarrow> sound h0 os a \<Longrightarrow>
   sound h0 os (case (case xs of y # z # ys \<Rightarrow> Some (g y z ys) | _ \<Rightarrow> None) of None \<Rightarrow> a | Some act \<Rightarrow> f act)"
  by (simp split: list.split)

lemma sound_target:
  "(\<And>l c e. n = Index l c e \<Longrightarrow> sound h0 os (f l c e)) \<Longrightarrow> (\<And>l es. n = Lvalue_tuple l es \<Longrightarrow> sound h0 os (g l es)) \<Longrightarrow>
   sound h0 os a \<Longrightarrow> sound h0 os (case n of Index l c e \<Rightarrow> f l c e | Lvalue_tuple l es \<Rightarrow> g l es | _ \<Rightarrow> a)"
  by (cases n) simp_all

lemma sound_index:
  "(\<And>l c e. n = Index l c e \<Longrightarrow> sound h0 os (f l c e)) \<Longrightarrow> sound h0 os a \<Longrightarrow>
   sound h0 os (case n of Index l c e \<Rightarrow> f l c e | _ \<Rightarrow> a)"
  by (cases n) simp_all

lemma sound_pair: "operand_bytes op = 1 \<Longrightarrow> sound h0 os (emit_pair op x line)"
  by (rule sound_emits [OF emits_pair]) (simp add: whole_pair)

lemma sound_named: "operand_bytes op = 2 \<Longrightarrow> sound h0 os (emit_named env op text line)"
  by (rule sound_emits [OF emits_named]) (rule whole_short)

lemma sound_constant: "sound h0 os (emit_constant v line)"
  by (rule sound_emits [OF emits_constant]) (simp add: whole_short)

lemma sound_variable: "sound h0 os (named_variable env name assign line)"
  by (rule sound_emits [OF emits_named_variable]) (auto intro: whole_load whole_store split: if_splits)

lemma sound_reference: "sound h0 os (reference_variable env name line)"
  by (rule sound_emits [OF emits_reference whole_reference])

lemma sound_too_many: "sound h0 os (too_many n line msg)"
  by (rule sound_emits [OF emits_too_many]) simp

lemma sound_exit_jump: "sound h0 os (set_exit_jump i)"
  by (rule sound_emits [OF emits_exit_jump]) simp

lemma sound_compound: "sound h0 os (emit_compound t line)"
  by (rule sound_emits [OF emits_compound]) (use whole_compound in \<open>fastforce simp: whole_byte\<close>)

lemma sound_reverse: "sound h0 os (emit_reverse n line)"
  by (rule sound_emits [OF emits_reverse]) (auto simp: whole_pair)

lemma sound_call_named: "sound h0 os (emit_call_named env n name line)"
  by (rule sound_emits [OF emits_call_named]) (auto simp: whole_instr)

lemma sound_import: "sound h0 os (emit_import env target path line)"
  by (rule sound_emits [OF emits_import]) (auto simp: long_instr_def whole_instr)

lemma sound_pop_value: "sound h0 os (pop_value n)"
  by (rule sound_emits [OF emits_pop_value]) (simp add: whole_byte)

lemma sound_double:
  "sound h0 os (\<lambda>s. do { (p, vm) \<leftarrow> slp_vm_new_double sizes alloc d (cs_vm s); emit_constant (ptr_value p) line (s\<lparr>cs_vm := vm\<rparr>) })"
  by (rule sound_emits [OF emits_double]) (simp add: whole_short)

lemma sound_long:
  "sound h0 os (\<lambda>s. do { (p, vm) \<leftarrow> slp_vm_new_long sizes alloc w (cs_vm s); emit_constant (ptr_value p) line (s\<lparr>cs_vm := vm\<rparr>) })"
  by (rule sound_emits [OF emits_long]) (simp add: whole_short)

lemma sound_assignment_opcode: "sound h0 os (emit_byte (assignment_operation_opcode t) line)"
proof -
  have "operand_bytes (assignment_operation_opcode t) = 0"
    by (auto simp: assignment_operation_opcode_def compound_opcodes_def)
  then show ?thesis by (rule sound_byte)
qed

lemmas sound_helpers = sound_pair sound_named sound_constant sound_variable sound_reference sound_too_many sound_exit_jump
  sound_compound sound_reverse sound_call_named sound_import sound_pop_value sound_double sound_long sound_assignment_opcode
  sound_skip sound_none sound_byte sound_set_operand sound_patch sound_patch_breaks sound_patch_continues
  sound_patch_continues_to sound_emit_loop sound_record_break sound_record_continue

lemma sound_run_nodes:
  "(\<And>n. n \<in> set ns \<Longrightarrow> sound h0 os (f n)) \<Longrightarrow> sound h0 os (run_statements repl (map (\<lambda>n. (n, f n)) ns))"
  by (rule sound_run_statements) auto

lemma sound_state_nodes:
  "(\<And>n. n \<in> set ns \<Longrightarrow> sound h0 os (f n)) \<Longrightarrow>
   sound h0 os (\<lambda>s. run_statements (cp_repl_mode (cs_compiler s)) (map (\<lambda>n. (n, f n)) ns) s)"
  by (rule sound_state [where g = "\<lambda>s. cp_repl_mode (cs_compiler s)"]) (rule sound_run_nodes)

lemmas [simp] = whole_binary

lemmas sound_rules = sound_if sound_option_if sound_option_list sound_option_second sound_option sound_list sound_target sound_index sound_nil sound_cons sound_map
  sound_with_jump sound_at_count sound_looping sound_scoped sound_inside_try sound_jump_out sound_run_nodes

lemma sound_assign_element: "sound h0 os (assign_element env t count line i element)"
  unfolding assign_element_def Let_def
  by (intro sound_rules sound_helpers) simp_all

lemma sound_assign_elements: "sound h0 os (assign_elements env t elements line)"
  unfolding assign_elements_def by (intro sound_map) (auto intro: sound_assign_element)

lemma sound_identifier: "sound h0 os (\<lambda>s. emit_byte OP_PUSH_NULL line (compiler_error line msg s))"
proof -
  have "sound h0 os (do_all [\<lambda>s. Some (compiler_error line msg s), emit_byte OP_PUSH_NULL line])"
    by (intro sound_cons sound_nil sound_error sound_byte) simp
  moreover have "do_all [\<lambda>s. Some (compiler_error line msg s), emit_byte OP_PUSH_NULL line] =
      (\<lambda>s. emit_byte OP_PUSH_NULL line (compiler_error line msg s))"
    by (rule ext) (simp split: option.split)
  ultimately show ?thesis by (simp only:)
qed

lemma sound_number:
  "sound h0 os (\<lambda>s. if is_double
     then do { (p, vm) \<leftarrow> slp_vm_new_double sizes alloc d (cs_vm s); emit_constant (ptr_value p) line (s\<lparr>cs_vm := vm\<rparr>) }
     else emit_constant (VNum d) line s)"
  using sound_double sound_constant by (cases is_double) simp_all

lemma sound_return_byte: "sound h0 os (\<lambda>s. emit_byte (if cp_inline_body (cs_compiler s) then OP_INLINE_RETURN else OP_RETURN) line s)"
proof -
  have "sound h0 os (emit_byte (if b then OP_INLINE_RETURN else OP_RETURN) line)" for b
    by (rule sound_byte) simp
  then show ?thesis by (rule sound_state)
qed

lemma sound_step: "sound h0 os (compile_step env t name line)"
  unfolding compile_step_def by (intro sound_cons sound_nil sound_variable sound_byte) simp

lemma sound_truth_predicate: "sound h0 os (emit_truth_predicate env line)"
  unfolding emit_truth_predicate_def by (rule sound_named) simp

lemma sound_node: "sound h0 os (compile_node env n)"
proof (induction n arbitrary: os rule: measure_induct_rule [where f = size])
  case (less n)
  have e: "sound h0 os (compile_expr env m)" if "size m < size n" for m os
    using less [OF that] by (simp add: compile_expr.simps sound_byte)
  have c: "sound h0 os (compile_assignment_container env m kind line)" if "size m < size n" for m kind line os
    using that
  proof (induction m rule: measure_induct_rule [where f = size])
    case (less m)
    then show ?case unfolding compile_assignment_container.simps [of env m]
      by (intro sound_index sound_cons sound_nil sound_pair e) simp_all
  qed
  have p: "sound h0 os (compile_pair env line name v)" if "size name < size n" "size v < size n" for line name v os
    unfolding compile_pair.simps
    by (intro sound_option sound_cons sound_nil sound_if sound_skip sound_named sound_reference sound_byte e that) simp_all
  show ?case
    by (cases n; simp only: compile_node.simps node_code_defs; (rule sound_state_nodes sound_function sound_return_byte sound_identifier sound_number sound_rules sound_helpers
      sound_assign_elements sound_step sound_truth_predicate e c p less | (auto dest!: size_member intro!: le_less_trans [OF size_call_argument_value]; fail) | simp)+)
qed

subsection \<open>Scripts\<close>

lemma compile_ex_code:
  assumes "slp_compile_ex env n repl vm = Some (Some a, None, vm')"
  shows "functions_ok (vm_heap vm) (vm_heap vm') \<and>
    (\<exists>f ck bs. vm_heap vm' a = Some (OFunction f) \<and> fn_chunk f = Some ck \<and> fn_upvalue_count f = 0 \<and> whole bs \<and>
      ck_code ck = bs @ [OP_PUSH_NULL, OP_RETURN])"
proof -
  let ?line = "case node_line n of None \<Rightarrow> 0 | Some l \<Rightarrow> l"
  obtain fn v s where new: "new_function env vm = Some (Some (a, fn, v))"
    and r: "do_all [compile_node env n, emit_return ?line] \<lparr>cs_vm = v, cs_compiler = new_compiler a fn repl, cs_enclosing = []\<rparr> = Some s"
    and nf: "\<not> failed s" and vm': "vm_heap vm' = (vm_heap (cs_vm s))(a \<mapsto> OFunction (cp_fn (cs_compiler s)))"
    using assms by (auto simp: slp_compile_ex_def bind_Some_iff Let_def failed_def simp del: do_all.simps split: option.splits if_splits)
  let ?s = "\<lparr>cs_vm = v, cs_compiler = new_compiler a fn repl, cs_enclosing = []\<rparr>"
  note N = new_function_ok [OF new]
  have ok: "scopes_ok ?s" using N by (auto simp: scopes_ok_def compiler_ok_def new_compiler_def frame_names_def)
  obtain t where t: "compile_node env n ?s = Some t" "emit_return ?line t = Some s" using r by (auto split: option.splits)
  note T = soundD [OF sound_node [of "vm_heap vm" "{}"] t(1) ok]
  have okt: "scopes_ok t" using T ok frame_scopes by blast
  have S: "appends [OP_PUSH_NULL, OP_RETURN] t s" using emits_return t(2) okt unfolding emits_def by blast
  have "functions_ok (vm_heap vm) (vm_heap vm)" by (simp add: functions_ok_def)
  then have "code_ok (vm_heap vm) ?s"
    using N functions_ok_kept by (auto simp: code_ok_def new_compiler_def code_of_def current_chunk_def)
  moreover have "\<not> failed t" using S nf frame_failed by (auto simp: appends_def)
  ultimately have ct: "code_ok (vm_heap vm) t" using T by (simp add: keeps_code_def)
  moreover have "keeps_code (vm_heap vm) {} t s" by (rule appends_keeps_code [OF S]) (simp add: whole_instr whole.simps)
  ultimately have cs: "code_ok (vm_heap vm) s" using nf by (simp add: keeps_code_def)
  have "scopes_ok s" "cs_enclosing s = []" using appends_scopes [OF S okt] S T by (auto simp: appends_def frame_def)
  then obtain ck where ck: "fn_chunk (cp_fn (cs_compiler s)) = Some ck" "fn_upvalue_count (cp_fn (cs_compiler s)) = 0"
    by (auto simp: scopes_ok_def compiler_ok_def)
  moreover have "ck_code ck = code_of s" using ck by (simp add: code_of_def current_chunk_def)
  ultimately show ?thesis
    using cs ct S unfolding vm' by (auto simp: functions_ok_def code_ok_def appends_def)
qed

end
