(* ===== verification/Compiler_Props.thy ===== *)
theory Compiler_Props
  imports Compiler_Whole
begin

text \<open>
  The properties of the compiler: the shape of the code it makes, the code of variables, and the loops whose
  jumps go astray.
\<close>

subsection \<open>Constants and names\<close>















text \<open>An environment without a source name in which two objects can be allocated, and a function in a script.\<close>

definition plain_env :: compile_env where
  "plain_env =
     \<lparr>ce_sizes = (\<lambda>_. 0), ce_alloc = (\<lambda>h. if h 0 = None then Some 0 else if h 1 = None then Some 1 else None), ce_source_name = None\<rparr>"





subsection \<open>The shape of the code\<close>

text \<open>C12: when a script is compiled without an error, its code, and the code of every function made on the
  way, is a sequence of whole instructions with the operand lengths the interpreter reads, so patched jumps
  hit operands and never an opcode; the code of the script ends with a return of null. No function captures
  a variable: scripts and closures have no upvalues.\<close>

theorem compiled_code:
  assumes "slp_compile_ex env n repl vm = Some (Some a, None, vm')"
  shows "(\<exists>f ck bs. vm_heap vm' a = Some (OFunction f) \<and> fn_chunk f = Some ck \<and> fn_upvalue_count f = 0 \<and> whole bs \<and>
      ck_code ck = bs @ [OP_PUSH_NULL, OP_RETURN]) \<and>
    (\<forall>b f. vm_heap vm' b = Some (OFunction f) \<longrightarrow> vm_heap vm b = Some (OFunction f) \<or>
      (\<exists>ck. fn_chunk f = Some ck \<and> whole (ck_code ck) \<and> fn_upvalue_count f = 0))"
  using compile_ex_code [OF assms] by (auto simp: functions_ok_def)

definition script_code :: "ast \<Rightarrow> bytes option" where
  "script_code n =
     do { (p, _, vm) \<leftarrow> slp_compile plain_env n vm_zero; a \<leftarrow> p; f \<leftarrow> get_function (vm_heap vm) a; ck \<leftarrow> fn_chunk f;
          Some (ck_code ck) }"

lemmas compiling = slp_compile_def slp_compile_ex_def new_function_def plain_env_def slp_obj_function_new_def place_def vm_zero_def
  get_function_def slp_chunk_init_def new_compiler_def compile_node.simps compile_expr.simps end_statement_def
  leaves_no_value_def node_line_def emit_byte_def current_chunk_def put_chunk_def update_compiler_def slp_chunk_write_def grown_def
  Let_def looping_def enter_loop_def leave_loop_def set_exit_jump_def with_jump_def emit_jump_def code_count_def patch_jump_def
  patch_jumps_def patch_breaks_def patch_continues_def set_operand_def set_code_def emit_loop_def jump_out_def record_break_def
  record_continue_def array_put_def emit_return_def if_code_def while_code_def

theorem compiled_code_witness:
  "\<exists>a vm' f. slp_compile plain_env (Script 1 [If 1 (Boolean 1 True) (Null 1) No_node]) vm_zero = Some (Some a, None, vm') \<and>
     vm_heap vm' a = Some (OFunction f) \<and> fn_upvalue_count f = 0"
proof -
  have "\<exists>a vm'. slp_compile plain_env (Script 1 [If 1 (Boolean 1 True) (Null 1) No_node]) vm_zero = Some (Some a, None, vm')"
    by (simp add: compiling)
  then show ?thesis using compiled_code [of plain_env _ False vm_zero] unfolding slp_compile_def by blast
qed

subsection \<open>Loops\<close>


text \<open>In a \<open>while\<close> loop the jump of a continue is patched behind the loop, where the breaks go, and not to
  its condition: \<open>while (true) { continue; }\<close> leaves the loop.\<close>

theorem continue_leaves_while:
  "script_code (Script 1 [While 1 (Boolean 1 True) (Block 1 [Continue 1 No_node])]) =
   script_code (Script 1 [While 1 (Boolean 1 True) (Block 1 [Break 1 No_node])]) \<and>
   script_code (Script 1 [While 1 (Boolean 1 True) (Block 1 [Continue 1 No_node])]) =
   Some [OP_PUSH_TRUE, OP_JUMP_IF_FALSE, 0, 7, OP_POP, OP_JUMP, 0, 4, OP_LOOP, 0, 11, OP_POP, OP_PUSH_NULL, OP_RETURN]"
  by (simp add: script_code_def compiling)

text \<open>Names are cut to 255 characters, so two long scalars are one variable.\<close>

lemma long_names_collide:
  "take 254 t = take 254 u \<Longrightarrow> compile_node env (Scalar line (Some t)) = compile_node env (Scalar line (Some u))"
  by (simp add: compile_node.simps scalar_name_def)

end
