(* ===== verification/VM_Trace.thy ===== *)
theory VM_Trace
  imports VM_Collections Operators
begin

text \<open>
  What the machine tells about itself (\<^verbatim>\<open>src/slp_vm.c\<close>): the position of a frame, warnings, the traces of
  calls and predicates, the profile and the stack trace of an exception. The host is a record of what lies
  outside the machine: the allocator, the C library, the file tests, the working directory, the shell, the
  matcher of regular expressions, and the native functions it has registered. A native takes the machine's \<open>slp_vm_call\<close>, the
  number of the function and the arguments.
\<close>

type_synonym vm_run = "bool \<Rightarrow> nat \<Rightarrow> vm \<Rightarrow> (slp_result \<times> vm) option"

text \<open>A matcher gives the offsets of the whole match and of the groups, a group without a match has none.\<close>

record host =
  h_sizes :: struct_sizes
  h_alloc :: heap_allocator
  h_pow :: "f64 \<Rightarrow> f64 \<Rightarrow> f64"
  h_fmod :: "f64 \<Rightarrow> f64 \<Rightarrow> f64"
  h_native :: "vm_run \<Rightarrow> nat \<Rightarrow> slp_value list \<Rightarrow> vm \<Rightarrow> (slp_value \<times> vm) option"
  h_bridge :: "nat \<Rightarrow> string \<Rightarrow> string option \<Rightarrow> addr \<Rightarrow> vm \<Rightarrow> vm option"
  h_file_test :: "string \<Rightarrow> string \<Rightarrow> bool"
  h_exec :: "string \<Rightarrow> string option"
  h_match :: "string \<Rightarrow> bool \<Rightarrow> string \<Rightarrow> ((nat \<times> nat) \<times> (nat \<times> nat) option list) option"
  h_object_text :: "addr \<Rightarrow> string"
  h_cwd :: "string option"
  h_separator :: char

subsection \<open>Allocation through the host\<close>

definition copy_text :: "host \<Rightarrow> string \<Rightarrow> vm \<Rightarrow> (ptr \<times> vm) option" where
  "copy_text H text vm = slp_vm_copy_string (h_sizes H) True (h_alloc H (vm_heap vm)) text vm"

definition copy_c_text :: "host \<Rightarrow> string \<Rightarrow> vm \<Rightarrow> (ptr \<times> vm) option" where
  "copy_c_text H text vm = slp_vm_copy_cstr (h_sizes H) (h_alloc H) text vm"

definition describe :: "host \<Rightarrow> slp_value \<Rightarrow> vm \<Rightarrow> (ptr \<times> vm) option" where
  "describe H v vm = describe_value (h_sizes H) True (h_alloc H (vm_heap vm)) v vm"

definition stringify :: "host \<Rightarrow> slp_value \<Rightarrow> vm \<Rightarrow> (ptr \<times> vm) option" where
  "stringify H v vm = slp_vm_stringify (h_sizes H) True (h_alloc H (vm_heap vm)) v vm"

definition new_array :: "host \<Rightarrow> vm \<Rightarrow> (ptr \<times> vm) option" where
  "new_array H vm = slp_vm_new_array (h_sizes H) (h_alloc H) vm"

definition new_hash :: "host \<Rightarrow> vm \<Rightarrow> (ptr \<times> vm) option" where
  "new_hash H vm = slp_vm_new_hash (h_sizes H) (h_alloc H) vm"

text \<open>The characters of a string object, up to the NUL, and of a string that may be missing.\<close>

definition chars_at :: "heap \<Rightarrow> addr \<Rightarrow> string option" where
  "chars_at h a = map_option (\<lambda>s. c_text (s_chars s)) (get_string h a)"

definition chars_of :: "heap \<Rightarrow> ptr \<Rightarrow> string option option" where
  "chars_of h p = (case p of None \<Rightarrow> Some None | Some a \<Rightarrow> map_option Some (chars_at h a))"

definition array_push :: "addr \<Rightarrow> slp_value \<Rightarrow> vm \<Rightarrow> vm option" where
  "array_push a v vm = do { h \<leftarrow> slp_obj_array_push (vm_heap vm) a v; Some (vm\<lparr>vm_heap := h\<rparr>) }"

subsection \<open>Frames\<close>

definition current_frame :: "vm \<Rightarrow> call_frame option" where
  "current_frame vm = (if vm_frames vm = [] then None else Some (last (vm_frames vm)))"

definition update_frame :: "(call_frame \<Rightarrow> call_frame) \<Rightarrow> vm \<Rightarrow> vm option" where
  "update_frame f vm =
     (if vm_frames vm = [] then None
      else Some (vm\<lparr>vm_frames := butlast (vm_frames vm) @ [f (last (vm_frames vm))]\<rparr>))"

definition frame_function :: "heap \<Rightarrow> call_frame \<Rightarrow> obj_function option" where
  "frame_function h f = do { a \<leftarrow> cf_closure f; c \<leftarrow> get_closure h a; fn \<leftarrow> co_function c; get_function h fn }"

definition frame_chunk :: "heap \<Rightarrow> call_frame \<Rightarrow> chunk option" where
  "frame_chunk h f = do { fn \<leftarrow> frame_function h f; fn_chunk fn }"

text \<open>The line of the instruction before the instruction pointer.\<close>

definition chunk_line :: "chunk \<Rightarrow> nat \<Rightarrow> int" where
  "chunk_line ck ip = (let offset = (if 0 < ip then ip - 1 else 0) in if offset < length (ck_lines ck) then ck_lines ck ! offset else 0)"

definition frame_current_line :: "heap \<Rightarrow> call_frame option \<Rightarrow> int option" where
  "frame_current_line h frame =
     (case frame of
        None \<Rightarrow> Some 0
      | Some f \<Rightarrow>
          (case cf_closure f of
             None \<Rightarrow> Some 0
           | Some a \<Rightarrow>
               do { c \<leftarrow> get_closure h a;
                    (case co_function c of
                       None \<Rightarrow> Some 0
                     | Some fn \<Rightarrow>
                         do { g \<leftarrow> get_function h fn;
                              Some (case fn_chunk g of None \<Rightarrow> 0 | Some ck \<Rightarrow> chunk_line ck (cf_ip f)) }) }))"

definition slp_vm_current_line :: "vm \<Rightarrow> int option" where
  "slp_vm_current_line vm =
     (case current_frame vm of None \<Rightarrow> Some 0 | Some f \<Rightarrow> do { ck \<leftarrow> frame_chunk (vm_heap vm) f; Some (chunk_line ck (cf_ip f)) })"

definition frame_source_name :: "heap \<Rightarrow> call_frame option \<Rightarrow> string option" where
  "frame_source_name h frame =
     (case frame of
        None \<Rightarrow> Some ''<unknown>''
      | Some f \<Rightarrow>
          (case cf_closure f of
             None \<Rightarrow> Some ''<unknown>''
           | Some a \<Rightarrow>
               do { c \<leftarrow> get_closure h a;
                    (case co_function c of
                       None \<Rightarrow> Some ''<unknown>''
                     | Some fn \<Rightarrow>
                         do { g \<leftarrow> get_function h fn;
                              (case fn_source_name g of None \<Rightarrow> Some ''<unknown>'' | Some s \<Rightarrow> chars_at h s) }) }))"

subsection \<open>Messages\<close>

definition slp_vm_write :: "string \<Rightarrow> vm \<Rightarrow> vm" where
  "slp_vm_write text vm = vm\<lparr>vm_output := vm_output vm @ [c_text text]\<rparr>"

definition write_all :: "string list \<Rightarrow> vm \<Rightarrow> vm" where
  "write_all texts vm = fold slp_vm_write texts vm"

definition slp_vm_warning :: "string \<Rightarrow> vm \<Rightarrow> vm" where
  "slp_vm_warning msg vm = vm\<lparr>vm_warnings := vm_warnings vm @ [c_text msg]\<rparr>"

definition slp_vm_abort_warning :: "string \<Rightarrow> vm \<Rightarrow> vm" where
  "slp_vm_abort_warning msg vm = (slp_vm_warning msg vm)\<lparr>vm_abort_requested := True\<rparr>"

definition warn_invalid_index :: "host \<Rightarrow> slp_value \<Rightarrow> slp_value \<Rightarrow> vm \<Rightarrow> vm option" where
  "warn_invalid_index H container index vm =
     do { (c, vm) \<leftarrow> describe H container vm;
          (i, vm) \<leftarrow> describe H index vm;
          (case (c, i) of
             (Some c, Some i) \<Rightarrow>
               do { ct \<leftarrow> chars_at (vm_heap vm) c; it \<leftarrow> chars_at (vm_heap vm) i;
                    Some (slp_vm_abort_warning (''invalid use of index operator: '' @ ct @ ''['' @ it @ '']'') vm) }
           | _ \<Rightarrow> Some vm) }"

subsection \<open>Traces\<close>

definition debug_flag :: "u32 \<Rightarrow> vm \<Rightarrow> bool" where
  "debug_flag flag vm \<longleftrightarrow> and (vm_debug_flags vm) flag = flag"

definition traced_position :: "vm \<Rightarrow> string list option" where
  "traced_position vm =
     do { line \<leftarrow> frame_current_line (vm_heap vm) (current_frame vm);
          source \<leftarrow> frame_source_name (vm_heap vm) (current_frame vm);
          Some [source, '':'', dec_int line, [CHR 0x0A]] }"

definition trace_unary_predicate :: "host \<Rightarrow> string \<Rightarrow> slp_value \<Rightarrow> bool \<Rightarrow> vm \<Rightarrow> vm option" where
  "trace_unary_predicate H predicate v result vm =
     (if \<not> debug_flag 64 vm \<or> debug_flag 16 vm then Some vm
      else do { (d, vm) \<leftarrow> describe H v vm;
                (case d of
                   None \<Rightarrow> Some vm
                 | Some d \<Rightarrow>
                     do { t \<leftarrow> chars_at (vm_heap vm) d;
                          position \<leftarrow> traced_position vm;
                          Some (write_all ([''Trace: '', predicate, '' '', t, if result then '' ? TRUE at '' else '' ? FALSE at ''] @ position) vm) }) })"

definition trace_binary_predicate :: "host \<Rightarrow> slp_value \<Rightarrow> string \<Rightarrow> slp_value \<Rightarrow> bool \<Rightarrow> vm \<Rightarrow> vm option" where
  "trace_binary_predicate H left predicate right result vm =
     (if \<not> debug_flag 64 vm \<or> debug_flag 16 vm then Some vm
      else do { (l, vm) \<leftarrow> describe H left vm;
                (r, vm) \<leftarrow> describe H right vm;
                (case (l, r) of
                   (Some l, Some r) \<Rightarrow>
                     do { lt \<leftarrow> chars_at (vm_heap vm) l; rt \<leftarrow> chars_at (vm_heap vm) r;
                          position \<leftarrow> traced_position vm;
                          Some (write_all ([''Trace: '', lt, '' '', predicate, '' '', rt,
                            if result then '' ? TRUE at '' else '' ? FALSE at ''] @ position) vm) }
                 | _ \<Rightarrow> Some vm) })"

record call_trace =
  ct_call :: ptr
  ct_source :: ptr
  ct_line :: int
  ct_enabled :: bool

definition no_trace :: call_trace where
  "no_trace = \<lparr>ct_call = None, ct_source = None, ct_line = - 1, ct_enabled = False\<rparr>"

text \<open>The text of a call; the values are one level deep, so 32 levels are left before the depth limit.\<close>

definition trace_named_call :: "heap \<Rightarrow> bool \<Rightarrow> string \<Rightarrow> slp_value list \<Rightarrow> string_builder option" where
  "trace_named_call h inline_call name args =
     do { let b = (if inline_call then string_builder_append ''<inline> '' empty_builder else empty_builder);
          b \<leftarrow> join_values (stringify_value 32 h True) True args
                 (string_builder_append ''('' (string_builder_append name (string_builder_append ''&'' b)));
          Some (string_builder_append '')'' b) }"

definition trace_value_call :: "heap \<Rightarrow> slp_value \<Rightarrow> bool \<Rightarrow> slp_value list \<Rightarrow> string_builder option" where
  "trace_value_call h callee has_message args =
     do { b \<leftarrow> stringify_value 32 h True callee (string_builder_append ''['' empty_builder);
          b \<leftarrow> (case args of
                 m # _ \<Rightarrow>
                   if has_message then
                     do { m \<leftarrow> dereference_value h m;
                          if m = VNull then Some b else stringify_value 32 h False m (string_builder_append '' '' b) }
                   else Some b
               | [] \<Rightarrow> Some b);
          let rest = (if has_message then tl args else args);
          b \<leftarrow> (if rest = [] then Some b
                else join_values (stringify_value 32 h True) True rest (string_builder_append '': '' b));
          Some (string_builder_append '']'' b) }"

definition is_inline_closure :: "heap \<Rightarrow> slp_value \<Rightarrow> bool option" where
  "is_inline_closure h v =
     (case v of VObj a \<Rightarrow> map_option (\<lambda>ob. case ob of OClosure c \<Rightarrow> co_is_inline c | _ \<Rightarrow> False) (h a) | _ \<Rightarrow> Some False)"

text \<open>The interned text of a finished builder, with the warnings of an unsafe sublist.\<close>

definition intern_builder :: "host \<Rightarrow> string_builder \<Rightarrow> vm \<Rightarrow> (ptr \<times> vm) option" where
  "intern_builder H b vm =
     (let vm = slp_vm_abort_warnings (sb_warnings b) vm
      in if sb_failed b then Some (None, vm) else copy_text H (sb_chars b) vm)"

definition caller_source :: "heap \<Rightarrow> call_frame option \<Rightarrow> ptr option" where
  "caller_source h frame =
     (case frame of
        None \<Rightarrow> Some None
      | Some f \<Rightarrow>
          (case cf_closure f of
             None \<Rightarrow> Some None
           | Some a \<Rightarrow>
               do { c \<leftarrow> get_closure h a;
                    (case co_function c of None \<Rightarrow> Some None | Some fn \<Rightarrow> map_option fn_source_name (get_function h fn)) }))"

definition prepare_call_trace :: "host \<Rightarrow> slp_value \<Rightarrow> slp_value list \<Rightarrow> bool \<Rightarrow> string option \<Rightarrow> vm \<Rightarrow> (call_trace \<times> vm) option" where
  "prepare_call_trace H callee args has_message named_call vm =
     (if \<not> debug_flag 8 vm then Some (no_trace, vm)
      else do {
        inline_call \<leftarrow> is_inline_closure (vm_heap vm) callee;
        b \<leftarrow> (case named_call of
               Some (c # name) \<Rightarrow> trace_named_call (vm_heap vm) inline_call (c # name) args
             | _ \<Rightarrow> trace_value_call (vm_heap vm) callee has_message args);
        (call, vm) \<leftarrow> intern_builder H b vm;
        if call = None then Some (no_trace, vm)
        else do {
          source \<leftarrow> caller_source (vm_heap vm) (current_frame vm);
          (source, vm) \<leftarrow> (if source \<noteq> None then Some (source, vm) else copy_c_text H ''<internal>'' vm);
          line \<leftarrow> (case current_frame vm of None \<Rightarrow> Some (- 1) | Some f \<Rightarrow> frame_current_line (vm_heap vm) (Some f));
          Some (\<lparr>ct_call = call, ct_source = source, ct_line = line, ct_enabled = True\<rparr>, vm) } })"

definition describe_text :: "host \<Rightarrow> slp_value \<Rightarrow> vm \<Rightarrow> (string \<times> vm) option" where
  "describe_text H v vm =
     do { (d, vm) \<leftarrow> describe H v vm; t \<leftarrow> chars_of (vm_heap vm) d; Some (case t of None \<Rightarrow> [] | Some t \<Rightarrow> t, vm) }"

definition finish_call_trace :: "host \<Rightarrow> call_trace \<Rightarrow> slp_value \<Rightarrow> bool \<Rightarrow> bool \<Rightarrow> vm \<Rightarrow> vm option" where
  "finish_call_trace H t result failed passed_control vm =
     (case ct_call t of
        None \<Rightarrow> Some vm
      | Some call \<Rightarrow>
          if \<not> ct_enabled t \<or> vm_debug_flags vm = 0 \<or> debug_flag 16 vm then Some vm
          else do {
            name \<leftarrow> chars_at (vm_heap vm) call;
            let vm = write_all [''Trace: '', name] vm;
            vm \<leftarrow> (if failed then Some (slp_vm_write '' - FAILED!'' vm)
                   else if passed_control then
                     do { (d, vm) \<leftarrow> describe_text H result vm; Some (write_all ['' -goto- '', d] vm) }
                   else do {
                     falsy \<leftarrow> slp_value_is_falsy (vm_heap vm) result;
                     if (\<not> falsy \<or> result \<noteq> VNull) \<and> result \<noteq> FALSE_VAL then
                       do { (d, vm) \<leftarrow> describe_text H result vm; Some (write_all ['' = '', d] vm) }
                     else Some vm });
            source \<leftarrow> chars_of (vm_heap vm) (ct_source t);
            Some (write_all ['' at '', (case source of None \<Rightarrow> ''<internal>'' | Some s \<Rightarrow> s), '':'', dec_int (ct_line t), [CHR 0x0A]] vm) })"

definition frame_trace :: "call_frame \<Rightarrow> call_trace" where
  "frame_trace f =
     \<lparr>ct_call = cf_trace_call f, ct_source = cf_trace_source f, ct_line = cf_trace_line f, ct_enabled = cf_trace_enabled f\<rparr>"

definition build_callcc_trace_call :: "host \<Rightarrow> slp_value \<Rightarrow> slp_value \<Rightarrow> vm \<Rightarrow> (ptr \<times> vm) option" where
  "build_callcc_trace_call H handler continuation vm =
     do { b \<leftarrow> stringify_value 32 (vm_heap vm) False handler (string_builder_append ''['' empty_builder);
          b \<leftarrow> stringify_value 32 (vm_heap vm) False continuation (string_builder_append '' CALLCC: '' b);
          intern_builder H (string_builder_append '']'' b) vm }"

subsection \<open>The profile\<close>

text \<open>Names are printed into a buffer of 1024 characters.\<close>

definition closure_profile_name :: "heap \<Rightarrow> obj_closure \<Rightarrow> string option" where
  "closure_profile_name h c =
     (case co_function c of
        None \<Rightarrow> Some ''&closure[<unknown>:0]''
      | Some fn \<Rightarrow>
          do { f \<leftarrow> get_function h fn;
               source \<leftarrow> chars_of h (fn_source_name f);
               Some (''&closure['' @ (case source of None \<Rightarrow> ''<unknown>'' | Some s \<Rightarrow> s) @ '':'' @ dec_int (fn_line_start f) @
                 (if fn_line_start f < fn_line_end f then ''-'' @ dec_int (fn_line_end f) else []) @ '']'') })"

definition profile_call_name :: "host \<Rightarrow> slp_value \<Rightarrow> bool \<Rightarrow> slp_value list \<Rightarrow> string option \<Rightarrow> vm \<Rightarrow> (ptr \<times> vm) option" where
  "profile_call_name H callee has_message args named_call vm =
     (case named_call of
        Some (c # name) \<Rightarrow> copy_c_text H (take 1023 (CHR ''&'' # c # name)) vm
      | _ \<Rightarrow>
          (case callee of
             VObj a \<Rightarrow>
               do { ob \<leftarrow> vm_heap vm a;
                    (case ob of
                       ONative n \<Rightarrow>
                         (case na_name n of
                            None \<Rightarrow> Some (None, vm)
                          | Some s \<Rightarrow> do { t \<leftarrow> chars_at (vm_heap vm) s; copy_c_text H (take 1023 (CHR ''&'' # t)) vm })
                     | OClosure c \<Rightarrow> do { t \<leftarrow> closure_profile_name (vm_heap vm) c; copy_c_text H (take 1023 t) vm }
                     | _ \<Rightarrow>
                         (case args of
                            VObj m # _ \<Rightarrow>
                              do { mo \<leftarrow> vm_heap vm m;
                                   (case (has_message, mo, ob) of
                                      (True, OString s, OString _) \<Rightarrow>
                                        if c_text (s_chars s) = ''length'' then copy_c_text H ''public int java.lang.String.length()'' vm
                                        else Some (None, vm)
                                    | _ \<Rightarrow> Some (None, vm)) }
                          | _ \<Rightarrow> Some (None, vm))) }
           | _ \<Rightarrow> Some (None, vm)))"

text \<open>The list of a profile statistic: the number of calls, the ticks and the name.\<close>

definition profile_entry :: "heap \<Rightarrow> slp_value \<Rightarrow> addr option option" where
  "profile_entry h v =
     (case v of
        VObj a \<Rightarrow>
          do { ob \<leftarrow> h a;
               (case ob of
                  OJava j \<Rightarrow>
                    (case jo_list j of
                       Some l \<Rightarrow>
                         if jo_kind j = JAVA_PROFILE_STATISTIC then
                           do { arr \<leftarrow> get_array h l; Some (if ar_count arr < 3 then None else Some l) }
                         else Some None
                     | None \<Rightarrow> Some None)
                | _ \<Rightarrow> Some None) }
      | _ \<Rightarrow> Some None)"

definition element_at :: "heap \<Rightarrow> addr \<Rightarrow> nat \<Rightarrow> slp_value option" where
  "element_at h a i = do { arr \<leftarrow> get_array h a; if i < length (ar_elements arr) then Some (ar_elements arr ! i) else None }"

definition is_named_entry :: "heap \<Rightarrow> addr \<Rightarrow> string \<Rightarrow> bool option" where
  "is_named_entry h l name =
     do { v \<leftarrow> element_at h l 2;
          (case v of
             VObj s \<Rightarrow> do { ob \<leftarrow> h s; Some (case ob of OString st \<Rightarrow> c_text (s_chars st) = name | _ \<Rightarrow> False) }
           | _ \<Rightarrow> Some False) }"

fun find_profile :: "heap \<Rightarrow> slp_value list \<Rightarrow> string \<Rightarrow> addr option option" where
  "find_profile h [] name = Some None"
| "find_profile h (v # vs) name =
     do { e \<leftarrow> profile_entry h v;
          (case e of
             None \<Rightarrow> find_profile h vs name
           | Some l \<Rightarrow> do { found \<leftarrow> is_named_entry h l name; if found then Some (Some l) else find_profile h vs name }) }"

definition count_call :: "host \<Rightarrow> addr \<Rightarrow> vm \<Rightarrow> vm option" where
  "count_call H l vm =
     do { calls \<leftarrow> element_at (vm_heap vm) l 0;
          count \<leftarrow> numeric_long_value (vm_heap vm) calls;
          if sint count = 2 ^ 63 - 1 then None
          else do { (p, vm) \<leftarrow> slp_vm_new_long (h_sizes H) (h_alloc H) (count + 1) vm;
                    (case p of None \<Rightarrow> Some vm | Some a \<Rightarrow> set_element l 0 (VObj a) vm) } }"

definition new_profile :: "host \<Rightarrow> addr \<Rightarrow> addr \<Rightarrow> vm \<Rightarrow> vm option" where
  "new_profile H statistics name vm =
     do { (p, vm) \<leftarrow> slp_vm_new_java_object (h_sizes H) (h_alloc H) ''sleep.runtime.ScriptInstance$ProfilerStatistic''
                        JAVA_PROFILE_STATISTIC vm;
          (case p of
             None \<Rightarrow> Some vm
           | Some a \<Rightarrow>
               do { (l, vm) \<leftarrow> new_array H vm;
                    vm \<leftarrow> update_java a (\<lambda>j. j\<lparr>jo_list := l\<rparr>) vm;
                    (case l of
                       None \<Rightarrow> Some vm
                     | Some l \<Rightarrow>
                         do { (calls, vm) \<leftarrow> slp_vm_new_long (h_sizes H) (h_alloc H) 1 vm;
                              (ticks, vm) \<leftarrow> slp_vm_new_long (h_sizes H) (h_alloc H) 0 vm;
                              (case (calls, ticks) of
                                 (Some c, Some t) \<Rightarrow>
                                   do { vm \<leftarrow> array_push l (VObj c) vm; vm \<leftarrow> array_push l (VObj t) vm;
                                        vm \<leftarrow> array_push l (VObj name) vm; array_push statistics (VObj a) vm }
                               | _ \<Rightarrow> Some vm) }) }) }"

definition profile_record :: "host \<Rightarrow> ptr \<Rightarrow> vm \<Rightarrow> vm option" where
  "profile_record H name vm =
     (case name of
        None \<Rightarrow> Some vm
      | Some n \<Rightarrow>
          do { t \<leftarrow> chars_at (vm_heap vm) n;
               if \<not> debug_flag 8 vm \<or> t = ''&profile'' then Some vm
               else do {
                 (stats, vm) \<leftarrow> (case vm_profile_statistics vm of
                                  Some s \<Rightarrow> Some (Some s, vm)
                                | None \<Rightarrow> do { (p, vm) \<leftarrow> new_array H vm; Some (p, vm\<lparr>vm_profile_statistics := p\<rparr>) });
                 (case stats of
                    None \<Rightarrow> Some vm
                  | Some s \<Rightarrow>
                      do { arr \<leftarrow> get_array (vm_heap vm) s;
                           entry \<leftarrow> find_profile (vm_heap vm) (take (nat (ar_count arr)) (ar_elements arr)) t;
                           (case entry of Some l \<Rightarrow> count_call H l vm | None \<Rightarrow> new_profile H s n vm) }) } })"

subsection \<open>The stack trace of an exception\<close>

definition stack_trace_append :: "host \<Rightarrow> addr \<Rightarrow> string \<Rightarrow> int \<Rightarrow> string \<Rightarrow> vm \<Rightarrow> vm option" where
  "stack_trace_append H trace source line description vm =
     do { (p, vm) \<leftarrow> copy_text H (take 767 (''   '' @ source @ '':'' @ dec_int line @ '' '' @ description)) vm;
          (case p of None \<Rightarrow> Some vm | Some a \<Rightarrow> array_push trace (VObj a) vm) }"

text \<open>The description of a called closure, cut to 511 characters.\<close>

definition callee_text :: "host \<Rightarrow> ptr \<Rightarrow> vm \<Rightarrow> (string \<times> vm) option" where
  "callee_text H callee vm =
     (case callee of
        None \<Rightarrow> Some (''&closure'', vm)
      | Some a \<Rightarrow>
          do { c \<leftarrow> get_closure (vm_heap vm) a;
               (case co_call_name c of
                  Some n \<Rightarrow> do { t \<leftarrow> chars_at (vm_heap vm) n;
                                Some (take 511 ((if co_is_inline c then ''<inline> '' else []) @ t @ ''()''), vm) }
                | None \<Rightarrow>
                    do { (d, vm) \<leftarrow> describe H (VObj a) vm; t \<leftarrow> chars_of (vm_heap vm) d;
                         Some (take 511 (case t of None \<Rightarrow> ''&closure'' | Some t \<Rightarrow> t), vm) }) })"

fun trace_frames :: "host \<Rightarrow> addr \<Rightarrow> (call_frame \<times> call_frame) list \<Rightarrow> vm \<Rightarrow> vm option" where
  "trace_frames H trace [] vm = Some vm"
| "trace_frames H trace ((caller, callee) # rest) vm =
     do { (t, vm) \<leftarrow> callee_text H (cf_closure callee) vm;
          source \<leftarrow> frame_source_name (vm_heap vm) (Some caller);
          line \<leftarrow> frame_current_line (vm_heap vm) (Some caller);
          vm \<leftarrow> stack_trace_append H trace source line t vm;
          trace_frames H trace rest vm }"

definition capture_stack_trace :: "host \<Rightarrow> int \<Rightarrow> vm \<Rightarrow> vm option" where
  "capture_stack_trace H handler_frame_count vm =
     do { (p, vm) \<leftarrow> new_array H vm;
          (case p of
             None \<Rightarrow> Some vm
           | Some trace \<Rightarrow>
               do { let first_callee = (if handler_frame_count < 1 then 1 else nat handler_frame_count);
                    let frames = vm_frames vm;
                    vm \<leftarrow> trace_frames H trace (map (\<lambda>i. (frames ! (i - 1), frames ! i)) [first_callee..<length frames]) vm;
                    vm \<leftarrow> (case current_frame vm of
                            None \<Rightarrow> Some vm
                          | Some origin \<Rightarrow>
                              do { source \<leftarrow> frame_source_name (vm_heap vm) (Some origin);
                                   line \<leftarrow> frame_current_line (vm_heap vm) (Some origin);
                                   stack_trace_append H trace source line ''<origin of exception>'' vm });
                    Some (vm\<lparr>vm_last_stack_trace := Some trace\<rparr>) }) }"

end
