(* ===== verification/VM_Scopes.thy ===== *)
theory VM_Scopes
  imports VM_Trace
begin

text \<open>
  Variables of scripts (\<^verbatim>\<open>src/slp_vm.c\<close>, from \<open>watched_cell_assign\<close> to \<open>close_upvalues\<close>): the chain of the
  innermost local scope, the closure scope and the globals, each a hash from names to values; scalar cells,
  which make two names one variable; and the declarations of the library.
\<close>

subsection \<open>Cells\<close>

definition get_cell :: "heap \<Rightarrow> addr \<Rightarrow> obj_scalar_cell option" where
  "get_cell h a = (case h a of Some (OScalarCell c) \<Rightarrow> Some c | _ \<Rightarrow> None)"

text \<open>The cell a value is, if it is one.\<close>

definition cell_of :: "heap \<Rightarrow> slp_value \<Rightarrow> addr option option" where
  "cell_of h v =
     (case v of VObj a \<Rightarrow> map_option (\<lambda>ob. case ob of OScalarCell _ \<Rightarrow> Some a | _ \<Rightarrow> None) (h a) | _ \<Rightarrow> Some None)"

definition put_object :: "addr \<Rightarrow> obj \<Rightarrow> vm \<Rightarrow> vm" where
  "put_object a ob vm = vm\<lparr>vm_heap := (vm_heap vm)(a \<mapsto> ob)\<rparr>"

definition watched_cell_assign :: "host \<Rightarrow> addr \<Rightarrow> slp_value \<Rightarrow> vm \<Rightarrow> vm option" where
  "watched_cell_assign H a v vm =
     do { assigned \<leftarrow> dereference_value (vm_heap vm) v;
          c \<leftarrow> get_cell (vm_heap vm) a;
          let vm = put_object a (OScalarCell (c\<lparr>sc_value := assigned\<rparr>)) vm;
          (case sc_watch_name c of
             None \<Rightarrow> Some vm
           | Some w \<Rightarrow>
               do { (d, vm) \<leftarrow> describe H assigned vm;
                    (case d of
                       None \<Rightarrow> Some vm
                     | Some d \<Rightarrow>
                         do { n \<leftarrow> chars_at (vm_heap vm) w; t \<leftarrow> chars_at (vm_heap vm) d;
                              Some (slp_vm_warning (''watch(): '' @ n @ '' = '' @ t) vm) }) }) }"

definition new_cell :: "host \<Rightarrow> slp_value \<Rightarrow> vm \<Rightarrow> (ptr \<times> vm) option" where
  "new_cell H v vm = new_tracked (h_sizes H) (slp_obj_scalar_cell_new (h_alloc H (vm_heap vm)) v) vm"

definition hash_contains_at :: "addr \<Rightarrow> slp_value \<Rightarrow> vm \<Rightarrow> bool option" where
  "hash_contains_at a key vm = do { r \<leftarrow> get_hash (vm_heap vm) a; slp_obj_hash_contains (vm_heap vm) r key }"

definition hash_get_raw_at :: "addr \<Rightarrow> slp_value \<Rightarrow> vm \<Rightarrow> (slp_value \<times> vm) option" where
  "hash_get_raw_at a key vm =
     do { r \<leftarrow> get_hash (vm_heap vm) a; (v, r) \<leftarrow> slp_obj_hash_get_raw (vm_heap vm) r key; Some (v, store_hash a r vm) }"

definition hash_put_at :: "addr \<Rightarrow> slp_value \<Rightarrow> slp_value \<Rightarrow> vm \<Rightarrow> vm option" where
  "hash_put_at a key v vm = do { (_, vm) \<leftarrow> hash_set_at a key v vm; Some vm }"

text \<open>A cell replaces the binding, another value goes into the cell that is bound.\<close>

definition assign_binding :: "host \<Rightarrow> addr \<Rightarrow> slp_value \<Rightarrow> slp_value \<Rightarrow> vm \<Rightarrow> vm option" where
  "assign_binding H scope name v vm =
     do { (existing, vm) \<leftarrow> hash_get_raw_at scope name vm;
          cell \<leftarrow> cell_of (vm_heap vm) v;
          if cell \<noteq> None then hash_put_at scope name v vm
          else do { bound \<leftarrow> cell_of (vm_heap vm) existing;
                    (case bound of
                       Some c \<Rightarrow> watched_cell_assign H c v vm
                     | None \<Rightarrow> hash_put_at scope name v vm) } }"

subsection \<open>The scope chain\<close>

text \<open>The scopes of the current frame before the globals, the innermost first.\<close>

definition frame_scopes_of :: "vm \<Rightarrow> addr list option" where
  "frame_scopes_of vm =
     do { local \<leftarrow> current_local_scope (vm_heap vm) (current_frame vm);
          let closure = Option.bind (current_frame vm) cf_closure_scope;
          Some ((case local of None \<Rightarrow> [] | Some a \<Rightarrow> [a]) @ (case closure of None \<Rightarrow> [] | Some a \<Rightarrow> [a])) }"

fun first_with :: "addr list \<Rightarrow> slp_value \<Rightarrow> vm \<Rightarrow> ptr option" where
  "first_with [] name vm = Some None"
| "first_with (a # as) name vm =
     do { found \<leftarrow> hash_contains_at a name vm; if found then Some (Some a) else first_with as name vm }"

definition scoped_variable_level :: "slp_value \<Rightarrow> vm \<Rightarrow> addr option" where
  "scoped_variable_level name vm =
     do { scopes \<leftarrow> frame_scopes_of vm; found \<leftarrow> first_with scopes name vm;
          (case found of Some a \<Rightarrow> Some a | None \<Rightarrow> vm_globals vm) }"

definition name_chars :: "heap \<Rightarrow> slp_value \<Rightarrow> string option option" where
  "name_chars h v =
     (case v of VObj a \<Rightarrow> map_option (\<lambda>ob. case ob of OString s \<Rightarrow> Some (s_chars s) | _ \<Rightarrow> None) (h a) | _ \<Rightarrow> Some None)"

definition is_sigil :: "char \<Rightarrow> bool" where
  "is_sigil c \<longleftrightarrow> c = CHR ''$'' \<or> c = CHR ''@'' \<or> c = CHR ''%''"

definition warn_undeclared_variable :: "slp_value \<Rightarrow> vm \<Rightarrow> vm option" where
  "warn_undeclared_variable name vm =
     (if and (vm_debug_flags vm) 4 = 0 then Some vm
      else do { n \<leftarrow> name_chars (vm_heap vm) name;
                Some (case n of
                        Some (c # rest) \<Rightarrow>
                          if is_sigil c then slp_vm_warning (''variable '' @ [CHR 0x27] @ (c # rest) @ [CHR 0x27] @ '' not declared'') vm
                          else vm
                      | _ \<Rightarrow> vm) })"

definition implicit_variable_value :: "host \<Rightarrow> slp_value \<Rightarrow> vm \<Rightarrow> (slp_value \<times> vm) option" where
  "implicit_variable_value H name vm =
     do { n \<leftarrow> name_chars (vm_heap vm) name;
          (case n of
             None \<Rightarrow> Some (VNull, vm)
           | Some s \<Rightarrow>
               do { (p, vm) \<leftarrow> (if take 1 s = ''@'' then new_array H vm
                               else if take 1 s = ''%'' then new_hash H vm
                               else if find_known_class (c_text s) \<noteq> None then slp_vm_new_class (h_sizes H) (h_alloc H) (c_text s) vm
                               else Some (None, vm));
                    Some (ptr_value p, vm) }) }"

definition scoped_variable_get :: "slp_value \<Rightarrow> vm \<Rightarrow> (slp_value option \<times> vm) option" where
  "scoped_variable_get name vm =
     do { scopes \<leftarrow> frame_scopes_of vm;
          g \<leftarrow> vm_globals vm;
          found \<leftarrow> first_with (scopes @ [g]) name vm;
          (case found of
             None \<Rightarrow> Some (None, vm)
           | Some a \<Rightarrow> do { (v, vm) \<leftarrow> hash_get_at a name vm; v \<leftarrow> dereference_value (vm_heap vm) v; Some (Some v, vm) }) }"

definition scoped_variable_set :: "host \<Rightarrow> slp_value \<Rightarrow> slp_value \<Rightarrow> vm \<Rightarrow> vm option" where
  "scoped_variable_set H name v vm =
     do { scope \<leftarrow> scoped_variable_level name vm; assign_binding H scope name v vm }"

definition scoped_variable_reference :: "host \<Rightarrow> slp_value \<Rightarrow> vm \<Rightarrow> (slp_value \<times> vm) option" where
  "scoped_variable_reference H name vm =
     do { scope \<leftarrow> scoped_variable_level name vm;
          (current, vm) \<leftarrow> hash_get_raw_at scope name vm;
          bound \<leftarrow> cell_of (vm_heap vm) current;
          if bound \<noteq> None then Some (current, vm)
          else do { (p, vm) \<leftarrow> new_cell H current vm;
                    (case p of
                       None \<Rightarrow> Some (VNull, vm)
                     | Some c \<Rightarrow> do { vm \<leftarrow> hash_put_at scope name (VObj c) vm; Some (VObj c, vm) }) } }"

text \<open>A load of a variable that is not there binds the empty array, the empty hash, the class or null.\<close>

definition load_variable :: "host \<Rightarrow> slp_value \<Rightarrow> vm \<Rightarrow> (slp_value \<times> vm) option" where
  "load_variable H name vm =
     do { (v, vm) \<leftarrow> scoped_variable_get name vm;
          (case v of
             Some v \<Rightarrow> Some (v, vm)
           | None \<Rightarrow>
               do { vm \<leftarrow> warn_undeclared_variable name vm;
                    (v, vm) \<leftarrow> implicit_variable_value H name vm;
                    vm \<leftarrow> scoped_variable_set H name v vm;
                    Some (v, vm) }) }"

definition store_variable :: "host \<Rightarrow> slp_value \<Rightarrow> slp_value \<Rightarrow> vm \<Rightarrow> vm option" where
  "store_variable H name v vm =
     do { (previous, vm) \<leftarrow> scoped_variable_get name vm;
          vm \<leftarrow> (if previous = None then warn_undeclared_variable name vm else Some vm);
          scoped_variable_set H name v vm }"

definition reference_global :: "host \<Rightarrow> slp_value \<Rightarrow> vm \<Rightarrow> (slp_value \<times> vm) option" where
  "reference_global H name vm =
     do { (v, vm) \<leftarrow> load_variable H name vm; scoped_variable_reference H name vm }"

subsection \<open>Slots\<close>

text \<open>A variable outside the hashes is a place of the stack or the own field of a closed upvalue.\<close>

datatype place = Stack_at nat | Closed_in addr

definition get_upvalue :: "heap \<Rightarrow> addr \<Rightarrow> obj_upvalue option" where
  "get_upvalue h a = (case h a of Some (OUpvalue u) \<Rightarrow> Some u | _ \<Rightarrow> None)"

definition upvalue_place :: "heap \<Rightarrow> addr \<Rightarrow> place option" where
  "upvalue_place h a =
     do { u \<leftarrow> get_upvalue h a; Some (case uv_location u of Stack_slot i \<Rightarrow> Stack_at i | Own_closed \<Rightarrow> Closed_in a) }"

definition read_place :: "place \<Rightarrow> vm \<Rightarrow> slp_value option" where
  "read_place p vm =
     (case p of
        Stack_at i \<Rightarrow> if i < length (vm_stack vm) then Some (vm_stack vm ! i) else None
      | Closed_in a \<Rightarrow> map_option uv_closed (get_upvalue (vm_heap vm) a))"

definition write_place :: "place \<Rightarrow> slp_value \<Rightarrow> vm \<Rightarrow> vm option" where
  "write_place p v vm =
     (case p of
        Stack_at i \<Rightarrow> if i < length (vm_stack vm) then Some (vm\<lparr>vm_stack := (vm_stack vm)[i := v]\<rparr>) else None
      | Closed_in a \<Rightarrow> do { u \<leftarrow> get_upvalue (vm_heap vm) a; Some (put_object a (OUpvalue (u\<lparr>uv_closed := v\<rparr>)) vm) })"

definition slot_reference :: "host \<Rightarrow> place \<Rightarrow> vm \<Rightarrow> (slp_value \<times> vm) option" where
  "slot_reference H p vm =
     do { v \<leftarrow> read_place p vm;
          bound \<leftarrow> cell_of (vm_heap vm) v;
          if bound \<noteq> None then Some (v, vm)
          else do { (c, vm) \<leftarrow> new_cell H v vm;
                    (case c of
                       None \<Rightarrow> Some (VNull, vm)
                     | Some c \<Rightarrow> do { vm \<leftarrow> write_place p (VObj c) vm; Some (VObj c, vm) }) } }"

definition slot_assign :: "host \<Rightarrow> place \<Rightarrow> slp_value \<Rightarrow> vm \<Rightarrow> vm option" where
  "slot_assign H p v vm =
     do { old \<leftarrow> read_place p vm;
          bound \<leftarrow> cell_of (vm_heap vm) old;
          (case bound of Some c \<Rightarrow> watched_cell_assign H c v vm | None \<Rightarrow> write_place p v vm) }"

definition slp_vm_assign_reference :: "host \<Rightarrow> slp_value \<Rightarrow> slp_value \<Rightarrow> vm \<Rightarrow> (bool \<times> vm) option" where
  "slp_vm_assign_reference H reference v vm =
     do { bound \<leftarrow> cell_of (vm_heap vm) reference;
          (case bound of
             None \<Rightarrow> Some (False, vm)
           | Some c \<Rightarrow> do { vm \<leftarrow> watched_cell_assign H c v vm; Some (True, vm) }) }"

text \<open>The open upvalues at or above a stack position get their own copy of the value.\<close>

partial_function (option) close_upvalues :: "nat \<Rightarrow> vm \<Rightarrow> vm option" where
  [code]: "close_upvalues last_slot vm =
     (case vm_open_upvalues vm of
        None \<Rightarrow> Some vm
      | Some a \<Rightarrow>
          do { u \<leftarrow> get_upvalue (vm_heap vm) a;
               (case uv_location u of
                  Own_closed \<Rightarrow> None
                | Stack_slot i \<Rightarrow>
                    if i < last_slot then Some vm
                    else do { v \<leftarrow> read_place (Stack_at i) vm;
                              close_upvalues last_slot
                                ((put_object a (OUpvalue (u\<lparr>uv_closed := v, uv_location := Own_closed\<rparr>)) vm)\<lparr>vm_open_upvalues := uv_next u\<rparr>) }) })"

subsection \<open>Declarations\<close>

text \<open>The words of a text between white space.\<close>

function scope_words :: "string \<Rightarrow> string list" where
  "scope_words s =
     (let t = dropWhile c_isspace s
      in if t = [] then [] else takeWhile (\<lambda>c. \<not> c_isspace c) t # scope_words (dropWhile (\<lambda>c. \<not> c_isspace c) t))"
  by pat_completeness auto
termination
proof (relation "measure length")
  fix s t :: string
  assume t: "t = dropWhile c_isspace s" "t \<noteq> []"
  obtain c u where cu: "t = c # u" using t(2) by (cases t) blast+
  have "dropWhile c_isspace s \<noteq> []" using t by metis
  then have "\<not> c_isspace (hd (dropWhile c_isspace s))" by (rule hd_dropWhile)
  then have "\<not> c_isspace (hd (c # u))" by (metis t(1) cu)
  then have c: "\<not> c_isspace c" unfolding list.sel .
  have "dropWhile (\<lambda>c. \<not> c_isspace c) t = dropWhile (\<lambda>c. \<not> c_isspace c) u"
    unfolding cu using c by simp
  then have "length (dropWhile (\<lambda>c. \<not> c_isspace c) t) < Suc (length u)"
    using length_dropWhile_le [of "\<lambda>c. \<not> c_isspace c" u] by simp
  also have "Suc (length u) = length t" unfolding cu by simp
  also have "\<dots> \<le> length s" unfolding t(1) by (rule length_dropWhile_le)
  finally show "(dropWhile (\<lambda>c. \<not> c_isspace c) t, s) \<in> measure length" by simp
qed simp

declare scope_words.simps [simp del]

definition valid_variable_name :: "string \<Rightarrow> bool" where
  "valid_variable_name w \<longleftrightarrow> 2 \<le> length w \<and> is_sigil (hd w)"

text \<open>The first value of a declared variable; none when it could not be allocated.\<close>

definition initial_value :: "host \<Rightarrow> string \<Rightarrow> vm \<Rightarrow> (slp_value option \<times> vm) option" where
  "initial_value H w vm =
     (if hd w = CHR ''@'' then do { (p, vm) \<leftarrow> new_array H vm; Some (map_option VObj p, vm) }
      else if hd w = CHR ''%'' then do { (p, vm) \<leftarrow> new_hash H vm; Some (map_option VObj p, vm) }
      else Some (Some VNull, vm))"

fun declare_words :: "host \<Rightarrow> addr \<Rightarrow> string list \<Rightarrow> vm \<Rightarrow> (bool \<times> vm) option" where
  "declare_words H scope [] vm = Some (True, vm)"
| "declare_words H scope (w # ws) vm =
     (if \<not> valid_variable_name w
      then Some (False, slp_vm_runtime_error ''Malformed variable name in scope declaration.'' vm)
      else do { (name, vm) \<leftarrow> copy_text H w vm;
                n \<leftarrow> name;
                found \<leftarrow> hash_contains_at scope (VObj n) vm;
                if found then declare_words H scope ws vm
                else do { (v, vm) \<leftarrow> initial_value H w vm;
                          (case v of
                             None \<Rightarrow> Some (False, vm)
                           | Some v \<Rightarrow> do { vm \<leftarrow> hash_put_at scope (VObj n) v vm; declare_words H scope ws vm }) } })"

definition declare_scope_variables :: "host \<Rightarrow> ptr \<Rightarrow> string \<Rightarrow> vm \<Rightarrow> (bool \<times> vm) option" where
  "declare_scope_variables H scope declarations vm =
     (case scope of None \<Rightarrow> Some (False, vm) | Some s \<Rightarrow> declare_words H s (scope_words (c_text declarations)) vm)"

definition slp_vm_declare_local :: "host \<Rightarrow> string \<Rightarrow> vm \<Rightarrow> (bool \<times> vm) option" where
  "slp_vm_declare_local H declarations vm =
     (if vm_frames vm = [] then Some (False, vm)
      else do { scope \<leftarrow> current_local_scope (vm_heap vm) (current_frame vm); declare_scope_variables H scope declarations vm })"

definition slp_vm_declare_closure :: "host \<Rightarrow> string \<Rightarrow> vm \<Rightarrow> (bool \<times> vm) option" where
  "slp_vm_declare_closure H declarations vm =
     (case current_frame vm of
        None \<Rightarrow> Some (False, vm)
      | Some f \<Rightarrow> declare_scope_variables H (cf_closure_scope f) declarations vm)"

definition slp_vm_declare_global :: "host \<Rightarrow> string \<Rightarrow> vm \<Rightarrow> (bool \<times> vm) option" where
  "slp_vm_declare_global H declarations vm = declare_scope_variables H (vm_globals vm) declarations vm"

definition get_key_value :: "heap \<Rightarrow> addr \<Rightarrow> obj_key_value option" where
  "get_key_value h a = (case h a of Some (OKeyValue k) \<Rightarrow> Some k | _ \<Rightarrow> None)"

text \<open>The pair a value is, if it is one.\<close>

definition pair_of :: "heap \<Rightarrow> slp_value \<Rightarrow> obj_key_value option option" where
  "pair_of h v =
     (case v of VObj a \<Rightarrow> map_option (\<lambda>ob. case ob of OKeyValue k \<Rightarrow> Some k | _ \<Rightarrow> None) (h a) | _ \<Rightarrow> Some None)"

fun initialize_scope :: "addr \<Rightarrow> slp_value list \<Rightarrow> vm \<Rightarrow> (bool \<times> vm) option" where
  "initialize_scope scope [] vm = Some (True, vm)"
| "initialize_scope scope (v # vs) vm =
     do { pair \<leftarrow> pair_of (vm_heap vm) v;
          (case pair of
             None \<Rightarrow> Some (False, slp_vm_runtime_error ''Local scope initializer must be a key/value pair.'' vm)
           | Some kv \<Rightarrow>
               do { name \<leftarrow> name_chars (vm_heap vm) (kv_key kv);
                    (case name of
                       None \<Rightarrow> Some (False, slp_vm_runtime_error ''Local scope initializer requires a variable name.'' vm)
                     | Some n \<Rightarrow>
                         if \<not> valid_variable_name n
                         then Some (False, slp_vm_runtime_error ''Malformed variable name in local scope initializer.'' vm)
                         else do { vm \<leftarrow> hash_put_at scope (kv_key kv) (kv_value kv) vm; initialize_scope scope vs vm }) }) }"

definition drop_scope :: "addr \<Rightarrow> vm \<Rightarrow> vm option" where
  "drop_scope scopes vm =
     do { arr \<leftarrow> get_array (vm_heap vm) scopes; Some (put_object scopes (OArray (arr\<lparr>ar_count := ar_count arr - 1\<rparr>)) vm) }"

definition slp_vm_push_local_scope :: "host \<Rightarrow> slp_value list \<Rightarrow> vm \<Rightarrow> (bool \<times> vm) option" where
  "slp_vm_push_local_scope H initializers vm =
     (case Option.bind (current_frame vm) cf_local_scopes of
        None \<Rightarrow> Some (False, vm)
      | Some scopes \<Rightarrow>
          do { (scope, vm) \<leftarrow> new_hash H vm;
               (case scope of
                  None \<Rightarrow> Some (False, vm)
                | Some s \<Rightarrow>
                    do { vm \<leftarrow> array_push scopes (VObj s) vm;
                         (ok, vm) \<leftarrow> initialize_scope s initializers vm;
                         if ok then Some (True, vm) else do { vm \<leftarrow> drop_scope scopes vm; Some (False, vm) } }) })"

definition slp_vm_pop_local_scope :: "slp_value list \<Rightarrow> vm \<Rightarrow> (bool \<times> vm) option" where
  "slp_vm_pop_local_scope initializers vm =
     (if vm_frames vm = [] then Some (False, vm)
      else do {
        left \<leftarrow> (case Option.bind (current_frame vm) cf_local_scopes of
                  None \<Rightarrow> Some None
                | Some scopes \<Rightarrow> do { arr \<leftarrow> get_array (vm_heap vm) scopes; Some (if ar_count arr \<le> 1 then None else Some scopes) });
        (case left of
           None \<Rightarrow> Some (False, slp_vm_warning ''&popl: no more local frames exist'' vm)
         | Some scopes \<Rightarrow>
             do { vm \<leftarrow> drop_scope scopes vm;
                  scope \<leftarrow> current_local_scope (vm_heap vm) (current_frame vm);
                  (case scope of None \<Rightarrow> Some (False, vm) | Some s \<Rightarrow> initialize_scope s initializers vm) }) })"

subsection \<open>Watched variables\<close>

definition set_watch :: "host \<Rightarrow> addr \<Rightarrow> addr \<Rightarrow> vm \<Rightarrow> (bool \<times> vm) option" where
  "set_watch H scope name vm =
     do { (existing, vm) \<leftarrow> hash_get_raw_at scope (VObj name) vm;
          bound \<leftarrow> cell_of (vm_heap vm) existing;
          (p, vm) \<leftarrow> (case bound of
                     Some c \<Rightarrow> Some (Some c, vm)
                   | None \<Rightarrow>
                       do { (p, vm) \<leftarrow> new_cell H existing vm;
                            (case p of
                               None \<Rightarrow> Some (None, vm)
                             | Some c \<Rightarrow> do { vm \<leftarrow> hash_put_at scope (VObj name) (VObj c) vm; Some (Some c, vm) }) });
          (case p of
             None \<Rightarrow> Some (False, vm)
           | Some c \<Rightarrow>
               do { cell \<leftarrow> get_cell (vm_heap vm) c;
                    Some (True, put_object c (OScalarCell (cell\<lparr>sc_watch_name := Some name\<rparr>)) vm) }) }"

fun watch_words :: "host \<Rightarrow> string list \<Rightarrow> vm \<Rightarrow> (bool \<times> vm) option" where
  "watch_words H [] vm = Some (True, vm)"
| "watch_words H (w # ws) vm =
     (if \<not> valid_variable_name w then Some (False, vm)
      else do { (name, vm) \<leftarrow> copy_text H w vm;
                (case name of
                   None \<Rightarrow> Some (False, vm)
                 | Some n \<Rightarrow>
                     do { scopes \<leftarrow> frame_scopes_of vm;
                          g \<leftarrow> vm_globals vm;
                          found \<leftarrow> first_with (scopes @ [g]) (VObj n) vm;
                          (case found of
                             None \<Rightarrow> Some (False, vm)
                           | Some scope \<Rightarrow>
                               do { (ok, vm) \<leftarrow> set_watch H scope n vm;
                                    if ok then watch_words H ws vm else Some (False, vm) }) }) })"

definition slp_vm_watch_variables :: "host \<Rightarrow> string \<Rightarrow> vm \<Rightarrow> (bool \<times> vm) option" where
  "slp_vm_watch_variables H declarations vm = watch_words H (scope_words (c_text declarations)) vm"

definition slp_vm_set_scoped_value :: "host \<Rightarrow> string \<Rightarrow> slp_value \<Rightarrow> vm \<Rightarrow> (bool \<times> vm) option" where
  "slp_vm_set_scoped_value H name v vm =
     (if c_text name = [] then Some (False, vm)
      else do { (key, vm) \<leftarrow> copy_c_text H name vm;
                (case key of
                   None \<Rightarrow> Some (False, vm)
                 | Some k \<Rightarrow> do { vm \<leftarrow> scoped_variable_set H (VObj k) v vm; Some (True, vm) }) })"

end
