(* ===== verification/VM_Builtins.thy ===== *)
theory VM_Builtins
  imports VM_Scopes Regex_Text
begin

text \<open>
  Matching with the state a closure keeps between calls of \<open>hasmatch\<close>, and the native functions the
  machine defines itself (\<^verbatim>\<open>src/slp_vm.c\<close>). A native function is known by its number, the numbers from 11
  on are functions of the host.
\<close>

subsection \<open>Regular expressions\<close>

fun push_captures :: "host \<Rightarrow> addr \<Rightarrow> string \<Rightarrow> (nat \<times> nat) option list \<Rightarrow> vm \<Rightarrow> vm option" where
  "push_captures H captures text [] vm = Some vm"
| "push_captures H captures text (g # gs) vm =
     do { (p, vm) \<leftarrow> copy_text H (case g of None \<Rightarrow> [] | Some (so, eo) \<Rightarrow> take (eo - so) (drop so text)) vm;
          vm \<leftarrow> array_push captures (ptr_value p) vm;
          push_captures H captures text gs vm }"

definition regex_failed :: "vm \<Rightarrow> (int \<times> int \<times> vm) option" where
  "regex_failed vm = do { vm \<leftarrow> set_regex_matches None vm; Some (- 1, - 1, vm) }"

text \<open>The offset of the match and its end.\<close>

definition slp_vm_regex_find :: "host \<Rightarrow> string \<Rightarrow> string \<Rightarrow> int \<Rightarrow> bool \<Rightarrow> vm \<Rightarrow> (int \<times> int \<times> vm) option" where
  "slp_vm_regex_find H text pattern start full_match vm =
     (let text = c_text text; start = (if start < 0 then 0 else start); rest = drop (nat start) text
      in if int (length text) < start then regex_failed vm
         else (case h_match H (translate_sleep_regex (c_text pattern)) (0 < start) rest of
                 None \<Rightarrow> regex_failed vm
               | Some ((so, eo), groups) \<Rightarrow>
                   let first = start + int so; end_at = start + int eo
                   in if full_match \<and> (first \<noteq> 0 \<or> end_at \<noteq> int (length text)) then regex_failed vm
                      else do { (p, vm) \<leftarrow> new_array H vm;
                                (case p of
                                   None \<Rightarrow> regex_failed vm
                                 | Some captures \<Rightarrow>
                                     do { vm \<leftarrow> push_captures H captures rest (take 15 groups) vm;
                                          vm \<leftarrow> set_regex_matches (Some captures) vm;
                                          Some (first, end_at, vm) }) }))"

fun find_regex_state :: "regex_state list \<Rightarrow> addr \<Rightarrow> addr \<Rightarrow> nat \<Rightarrow> nat option" where
  "find_regex_state [] text pattern i = None"
| "find_regex_state (s # ss) text pattern i =
     (if rs_text s = Some text \<and> rs_pattern s = Some pattern then Some i else find_regex_state ss text pattern (Suc i))"

text \<open>The state used longest ago.\<close>

definition oldest_state :: "regex_state list \<Rightarrow> nat" where
  "oldest_state ss = fold (\<lambda>i m. if rs_sequence (ss ! i) < rs_sequence (ss ! m) then i else m) [1..<length ss] 0"

definition grown_states :: "obj_closure \<Rightarrow> int" where
  "grown_states c =
     (if int (length (co_regex_states c)) = co_regex_state_capacity c
      then min 16 (if co_regex_state_capacity c < 4 then 4 else co_regex_state_capacity c * 2)
      else co_regex_state_capacity c)"

text \<open>The place of the state of a text and a pattern, created or reused.\<close>

definition claim_regex_state :: "addr \<Rightarrow> addr \<Rightarrow> obj_closure \<Rightarrow> nat \<times> obj_closure" where
  "claim_regex_state text pattern c =
     (let states = co_regex_states c;
          fresh = \<lparr>rs_text = Some text, rs_pattern = Some pattern, rs_next_offset = 0, rs_sequence = 0\<rparr>
      in case find_regex_state states text pattern 0 of
           Some i \<Rightarrow> (i, c)
         | None \<Rightarrow>
             if length states < 16
             then (length states, c\<lparr>co_regex_states := states @ [fresh], co_regex_state_capacity := grown_states c\<rparr>)
             else (let i = oldest_state states
                   in (i, c\<lparr>co_regex_states := states[i := fresh\<lparr>rs_sequence := rs_sequence (states ! i)\<rparr>]\<rparr>)))"

text \<open>The last state moves to the place of a dropped one.\<close>

definition drop_regex_state :: "nat \<Rightarrow> obj_closure \<Rightarrow> obj_closure" where
  "drop_regex_state i c = c\<lparr>co_regex_states := butlast ((co_regex_states c)[i := last (co_regex_states c)])\<rparr>"

definition regex_hasmatch :: "host \<Rightarrow> addr \<Rightarrow> addr \<Rightarrow> vm \<Rightarrow> (bool \<times> vm) option" where
  "regex_hasmatch H text pattern vm =
     do { f \<leftarrow> current_frame vm;
          a \<leftarrow> cf_closure f;
          c \<leftarrow> get_closure (vm_heap vm) a;
          let (i, c) = claim_regex_state text pattern c;
          let s = (co_regex_states c ! i)\<lparr>rs_sequence := co_next_regex_sequence c + 1\<rparr>;
          let vm = put_object a (OClosure (c\<lparr>co_next_regex_sequence := co_next_regex_sequence c + 1,
                                             co_regex_states := (co_regex_states c)[i := s]\<rparr>)) vm;
          t \<leftarrow> get_string (vm_heap vm) text;
          p \<leftarrow> get_string (vm_heap vm) pattern;
          (first, end_at, vm) \<leftarrow> slp_vm_regex_find H (s_chars t) (s_chars p) (rs_next_offset s) False vm;
          if first < 0 then do { vm \<leftarrow> update_closure a (drop_regex_state i) vm; Some (False, vm) }
          else do { vm \<leftarrow> update_closure a (\<lambda>c. c\<lparr>co_regex_states := (co_regex_states c)
                            [i := (co_regex_states c ! i)\<lparr>rs_next_offset := (if end_at = first then end_at + 1 else end_at)\<rparr>]\<rparr>) vm;
                    Some (True, vm) } }"

text \<open>The wildcards of \<open>iswm\<close>.\<close>

fun nonempty_tails :: "'a list \<Rightarrow> 'a list list" where
  "nonempty_tails [] = []"
| "nonempty_tails (x # xs) = (x # xs) # nonempty_tails xs"

function match_wildcard :: "string \<Rightarrow> string \<Rightarrow> bool" where
  "match_wildcard [] s = (s = [])"
| "match_wildcard (p # ps) s =
     (if p = CHR ''*'' then
        (let rest = dropWhile (\<lambda>c. c = CHR ''*'') ps
         in if rest = [] then True else list_ex (match_wildcard rest) (nonempty_tails s))
      else if s = [] then False
      else if p = CHR ''?'' \<or> p = hd s then match_wildcard ps (tl s)
      else False)"
  by pat_completeness auto
termination
  by (relation "measure (length \<circ> fst)") (auto simp: le_imp_less_Suc length_dropWhile_le)

subsection \<open>Native functions of the machine\<close>

abbreviation NATIVE_PRINTLN :: nat where "NATIVE_PRINTLN \<equiv> 0"
abbreviation NATIVE_SIZE :: nat where "NATIVE_SIZE \<equiv> 1"
abbreviation NATIVE_ARRAY :: nat where "NATIVE_ARRAY \<equiv> 2"
abbreviation NATIVE_HASH :: nat where "NATIVE_HASH \<equiv> 3"
abbreviation NATIVE_PUSH :: nat where "NATIVE_PUSH \<equiv> 4"
abbreviation NATIVE_POP :: nat where "NATIVE_POP \<equiv> 5"
abbreviation NATIVE_TYPEOF :: nat where "NATIVE_TYPEOF \<equiv> 6"
abbreviation NATIVE_KEYS :: nat where "NATIVE_KEYS \<equiv> 7"
abbreviation NATIVE_REMOVE :: nat where "NATIVE_REMOVE \<equiv> 8"
abbreviation NATIVE_INVOKE :: nat where "NATIVE_INVOKE \<equiv> 9"
abbreviation NATIVE_DEBUG :: nat where "NATIVE_DEBUG \<equiv> 10"

definition call_of :: "vm_run \<Rightarrow> vm_call" where
  "call_of run n vm = do { (r, vm) \<leftarrow> run True n vm; Some (r = SLP_OK, vm) }"

definition object_of :: "heap \<Rightarrow> slp_value \<Rightarrow> obj option option" where
  "object_of h v = (case v of VObj a \<Rightarrow> map_option Some (h a) | _ \<Rightarrow> Some None)"

definition native_println :: "host \<Rightarrow> slp_value list \<Rightarrow> vm \<Rightarrow> (slp_value \<times> vm) option" where
  "native_println H args vm =
     do { vm \<leftarrow> (case args of
                 [] \<Rightarrow> Some vm
               | v # _ \<Rightarrow> do { (p, vm) \<leftarrow> stringify H v vm;
                              t \<leftarrow> chars_of (vm_heap vm) p;
                              Some (case t of None \<Rightarrow> vm | Some t \<Rightarrow> slp_vm_write t vm) });
          Some (VNull, slp_vm_write [CHR 0x0A] vm) }"

definition native_size :: "slp_value list \<Rightarrow> vm \<Rightarrow> slp_value option" where
  "native_size args vm =
     (case args of
        [] \<Rightarrow> Some (VNum (f_of_int 0))
      | v # _ \<Rightarrow>
          do { ob \<leftarrow> object_of (vm_heap vm) v;
               Some (VNum (f_of_int (case ob of
                                       Some (OString s) \<Rightarrow> int (length (s_chars s))
                                     | Some (OArray r) \<Rightarrow> ar_count r
                                     | Some (OHash r) \<Rightarrow> slp_obj_hash_visible_count r
                                     | _ \<Rightarrow> 0))) })"

fun array_push_all :: "addr \<Rightarrow> slp_value list \<Rightarrow> vm \<Rightarrow> vm option" where
  "array_push_all a [] vm = Some vm"
| "array_push_all a (v # vs) vm = do { vm \<leftarrow> array_push a v vm; array_push_all a vs vm }"

definition native_array :: "host \<Rightarrow> slp_value list \<Rightarrow> vm \<Rightarrow> (slp_value \<times> vm) option" where
  "native_array H args vm =
     do { (p, vm) \<leftarrow> new_array H vm;
          (case p of None \<Rightarrow> Some (VNull, vm) | Some a \<Rightarrow> do { vm \<leftarrow> array_push_all a args vm; Some (VObj a, vm) }) }"

definition read_only_array :: "string" where
  "read_only_array = ''array is read-only''"

definition native_push :: "slp_value list \<Rightarrow> vm \<Rightarrow> (slp_value \<times> vm) option" where
  "native_push args vm =
     (case args of
        VObj a # v # vs \<Rightarrow>
          do { ob \<leftarrow> vm_heap vm a;
               (case ob of
                  OArray r \<Rightarrow>
                    if ar_read_only r then Some (VNull, slp_vm_abort_warning read_only_array vm)
                    else do { vm \<leftarrow> array_push_all a (v # vs) vm; Some (last (v # vs), vm) }
                | _ \<Rightarrow> Some (VNull, vm)) }
      | _ \<Rightarrow> Some (VNull, vm))"

definition native_pop :: "slp_value list \<Rightarrow> vm \<Rightarrow> (slp_value \<times> vm) option" where
  "native_pop args vm =
     (case args of
        VObj a # _ \<Rightarrow>
          do { ob \<leftarrow> vm_heap vm a;
               (case ob of
                  OArray r \<Rightarrow>
                    if ar_read_only r then Some (VNull, slp_vm_abort_warning read_only_array vm)
                    else do { (v, h) \<leftarrow> slp_obj_array_pop (vm_heap vm) a; Some (v, vm\<lparr>vm_heap := h\<rparr>) }
                | _ \<Rightarrow> Some (VNull, vm)) }
      | _ \<Rightarrow> Some (VNull, vm))"

definition hash_set :: "vm_run \<Rightarrow> host \<Rightarrow> addr \<Rightarrow> slp_value \<Rightarrow> slp_value \<Rightarrow> vm \<Rightarrow> (bool \<times> vm) option" where
  "hash_set run H a key v vm = slp_vm_hash_set (call_of run) (h_sizes H) (h_alloc H) (Some a) key v vm"

text \<open>The text before the first equals sign and the text behind it.\<close>

definition split_pair :: "string \<Rightarrow> (string \<times> string) option" where
  "split_pair s =
     (if CHR ''='' \<in> set (c_text s)
      then Some (takeWhile (\<lambda>c. c \<noteq> CHR ''='') s, tl (dropWhile (\<lambda>c. c \<noteq> CHR ''='') s)) else None)"

definition written_pair :: "obj option \<Rightarrow> obj_key_value option + (string \<times> string) option" where
  "written_pair ob =
     (case ob of
        Some (OKeyValue kv) \<Rightarrow> Inl (Some kv)
      | Some (OString s) \<Rightarrow> (case split_pair (s_chars s) of Some p \<Rightarrow> Inr (Some p) | None \<Rightarrow> Inl None)
      | _ \<Rightarrow> Inl None)"

fun hash_arguments :: "vm_run \<Rightarrow> host \<Rightarrow> addr \<Rightarrow> slp_value list \<Rightarrow> vm \<Rightarrow> vm option" where
  "hash_arguments run H a [] vm = Some vm"
| "hash_arguments run H a (v # vs) vm =
     do { ob \<leftarrow> object_of (vm_heap vm) v;
          (case written_pair ob of
             Inl (Some kv) \<Rightarrow>
               do { w \<leftarrow> dereference_value (vm_heap vm) (kv_value kv);
                    (_, vm) \<leftarrow> hash_set run H a (kv_key kv) w vm;
                    hash_arguments run H a vs vm }
           | Inr (Some (k, w)) \<Rightarrow>
               do { (key, vm) \<leftarrow> copy_text H k vm;
                    (val, vm) \<leftarrow> copy_text H w vm;
                    key \<leftarrow> key;
                    (_, vm) \<leftarrow> hash_set run H a (VObj key) (ptr_value val) vm;
                    hash_arguments run H a vs vm }
           | _ \<Rightarrow>
               (case vs of
                  [] \<Rightarrow> Some vm
                | w # ws \<Rightarrow> do { (_, vm) \<leftarrow> hash_set run H a v w vm; hash_arguments run H a ws vm })) }"

definition native_hash :: "vm_run \<Rightarrow> host \<Rightarrow> slp_value list \<Rightarrow> vm \<Rightarrow> (slp_value \<times> vm) option" where
  "native_hash run H args vm =
     do { (p, vm) \<leftarrow> new_hash H vm;
          (case p of None \<Rightarrow> Some (VNull, vm) | Some a \<Rightarrow> do { vm \<leftarrow> hash_arguments run H a args vm; Some (VObj a, vm) }) }"

definition typeof_text :: "heap \<Rightarrow> slp_value \<Rightarrow> string option" where
  "typeof_text h v =
     (case v of
        VNull \<Rightarrow> Some ''null''
      | VBool _ \<Rightarrow> Some ''boolean''
      | VNum _ \<Rightarrow> Some ''number''
      | VObj a \<Rightarrow>
          do { ob \<leftarrow> h a;
               Some (case ob of
                       OString _ \<Rightarrow> ''string''
                     | OLong _ \<Rightarrow> ''long''
                     | ODouble _ \<Rightarrow> ''double''
                     | OArray _ \<Rightarrow> ''array''
                     | OHash _ \<Rightarrow> ''hash''
                     | OFunction _ \<Rightarrow> ''function''
                     | OClosure _ \<Rightarrow> ''function''
                     | ONative _ \<Rightarrow> ''function''
                     | OBridge _ \<Rightarrow> ''function''
                     | _ \<Rightarrow> ''object'') })"

definition native_typeof :: "host \<Rightarrow> slp_value list \<Rightarrow> vm \<Rightarrow> (slp_value \<times> vm) option" where
  "native_typeof H args vm =
     (case args of
        [] \<Rightarrow> Some (VNull, vm)
      | v # _ \<Rightarrow> do { t \<leftarrow> typeof_text (vm_heap vm) v; (p, vm) \<leftarrow> copy_text H t vm; Some (ptr_value p, vm) })"

fun push_keys :: "addr \<Rightarrow> obj_hash \<Rightarrow> int list \<Rightarrow> vm \<Rightarrow> vm option" where
  "push_keys a r [] vm = Some vm"
| "push_keys a r (ordinal # os) vm =
     do { i \<leftarrow> slp_obj_hash_ordered_index (vm_heap vm) r ordinal;
          vm \<leftarrow> (if 0 \<le> i \<and> he_value (ha_entries r ! nat i) \<noteq> VNull
                then array_push a (he_key (ha_entries r ! nat i)) vm else Some vm);
          push_keys a r os vm }"

definition native_keys :: "host \<Rightarrow> slp_value list \<Rightarrow> vm \<Rightarrow> (slp_value \<times> vm) option" where
  "native_keys H args vm =
     (case args of
        VObj k # _ \<Rightarrow>
          do { ob \<leftarrow> vm_heap vm k;
               (case ob of
                  OHash r \<Rightarrow>
                    do { (p, vm) \<leftarrow> new_array H vm;
                         (case p of
                            None \<Rightarrow> Some (VNull, vm)
                          | Some a \<Rightarrow> do { vm \<leftarrow> push_keys a r [0..ha_count r - 1] vm; Some (VObj a, vm) }) }
                | _ \<Rightarrow> Some (VNull, vm)) }
      | _ \<Rightarrow> Some (VNull, vm))"

subsection \<open>Removal inside a loop\<close>

text \<open>The removal from the collection a frame iterates, if it does: the collection, the frame and the machine.\<close>

definition remove_from_frame :: "call_frame \<Rightarrow> vm \<Rightarrow> ((addr \<times> call_frame) option \<times> vm) option" where
  "remove_from_frame f vm =
     (if \<not> cf_foreach_active f then Some (None, vm)
      else (case (cf_foreach_array f, cf_foreach_hash f) of
              (Some a, _) \<Rightarrow>
                do { (_, h) \<leftarrow> slp_obj_array_remove_at (vm_heap vm) a (cf_foreach_index f);
                     arr \<leftarrow> get_array h a;
                     Some (Some (a, f\<lparr>cf_foreach_iteration_version := ar_version arr\<rparr>), vm\<lparr>vm_heap := h\<rparr>) }
            | (None, Some a) \<Rightarrow>
                do { (_, vm) \<leftarrow> hash_delete_at a (cf_foreach_key f) vm; Some (Some (a, f), vm) }
            | (None, None) \<Rightarrow> Some (None, vm)))"

definition step_back :: "int \<Rightarrow> vm \<Rightarrow> vm option" where
  "step_back i vm =
     (if 0 \<le> i \<and> i < int (length (vm_stack vm))
      then do { d \<leftarrow> slp_value_as_number (vm_heap vm) (vm_stack vm ! nat i);
                Some (vm\<lparr>vm_stack := (vm_stack vm)[nat i := VNum (f_sub d (f_of_int 1))]\<rparr>) }
      else Some vm)"

text \<open>From the innermost of the first frames outwards.\<close>

fun remove_in_frames :: "nat \<Rightarrow> vm \<Rightarrow> (slp_value \<times> vm) option" where
  "remove_in_frames 0 vm = Some (VNull, slp_vm_warning ''&remove: no active foreach loop to remove element from'' vm)"
| "remove_in_frames (Suc i) vm =
     do { (removed, vm) \<leftarrow> remove_from_frame (vm_frames vm ! i) vm;
          (case removed of
             None \<Rightarrow> remove_in_frames i vm
           | Some (a, f) \<Rightarrow>
               do { vm \<leftarrow> step_back (cf_foreach_iterator_offset f) vm;
                    Some (VObj a, vm\<lparr>vm_frames := (vm_frames vm)
                       [i := f\<lparr>cf_foreach_array := None, cf_foreach_hash := None, cf_foreach_active := False\<rparr>]\<rparr>) }) }"

definition native_remove :: "host \<Rightarrow> slp_value list \<Rightarrow> vm \<Rightarrow> (slp_value \<times> vm) option" where
  "native_remove H args vm =
     (case args of
        [] \<Rightarrow> remove_in_frames (length (vm_frames vm)) vm
      | VObj a # key # _ \<Rightarrow>
          do { ob \<leftarrow> vm_heap vm a;
               (case ob of
                  OHash _ \<Rightarrow> do { (b, vm) \<leftarrow> slp_vm_hash_delete (h_sizes H) (h_alloc H) (Some a) key vm; Some (VBool b, vm) }
                | _ \<Rightarrow> Some (FALSE_VAL, vm)) }
      | _ \<Rightarrow> Some (FALSE_VAL, vm))"

definition native_debug :: "slp_value list \<Rightarrow> vm \<Rightarrow> (slp_value \<times> vm) option" where
  "native_debug args vm =
     do { vm \<leftarrow> (case args of
                 [] \<Rightarrow> Some vm
               | v # _ \<Rightarrow> do { w \<leftarrow> numeric_int_value (vm_heap vm) v; Some (vm\<lparr>vm_debug_flags := w\<rparr>) });
          Some (int_value (vm_debug_flags vm), vm) }"

text \<open>A native function by its number; \<open>invoke\<close> is only a mark, its calls are done by \<open>call_value\<close>.\<close>

definition native_function :: "host \<Rightarrow> vm_run \<Rightarrow> nat \<Rightarrow> slp_value list \<Rightarrow> vm \<Rightarrow> (slp_value \<times> vm) option" where
  "native_function H run n args vm =
     (if n = NATIVE_PRINTLN then native_println H args vm
      else if n = NATIVE_SIZE then map_option (\<lambda>v. (v, vm)) (native_size args vm)
      else if n = NATIVE_ARRAY then native_array H args vm
      else if n = NATIVE_HASH then native_hash run H args vm
      else if n = NATIVE_PUSH then native_push args vm
      else if n = NATIVE_POP then native_pop args vm
      else if n = NATIVE_TYPEOF then native_typeof H args vm
      else if n = NATIVE_KEYS then native_keys H args vm
      else if n = NATIVE_REMOVE then native_remove H args vm
      else if n = NATIVE_INVOKE then Some (VNull, vm)
      else if n = NATIVE_DEBUG then native_debug args vm
      else h_native H run (n - 11) args vm)"

definition define_native_ex :: "host \<Rightarrow> string \<Rightarrow> nat \<Rightarrow> bool \<Rightarrow> vm \<Rightarrow> vm option" where
  "define_native_ex H name fn preserve_references vm =
     do { (name_str, vm) \<leftarrow> copy_text H name vm;
          (p, vm) \<leftarrow> new_tracked (h_sizes H) (slp_obj_native_new (h_alloc H (vm_heap vm)) fn name_str) vm;
          n \<leftarrow> name_str;
          g \<leftarrow> vm_globals vm;
          (case p of
             None \<Rightarrow> hash_put_at g (VObj n) VNull vm
           | Some a \<Rightarrow>
               (case vm_heap vm a of
                  Some (ONative r) \<Rightarrow>
                    hash_put_at g (VObj n) (VObj a) (put_object a (ONative (r\<lparr>na_preserve_references := preserve_references\<rparr>)) vm)
                | _ \<Rightarrow> None)) }"

definition builtins :: "(string \<times> nat) list" where
  "builtins =
     [(''println'', NATIVE_PRINTLN), (''size'', NATIVE_SIZE), (''array'', NATIVE_ARRAY), (''@'', NATIVE_ARRAY),
      (''%'', NATIVE_HASH), (''hash'', NATIVE_HASH), (''push'', NATIVE_PUSH), (''pop'', NATIVE_POP),
      (''typeof'', NATIVE_TYPEOF), (''keys'', NATIVE_KEYS), (''remove'', NATIVE_REMOVE), (''invoke'', NATIVE_INVOKE),
      (''debug'', NATIVE_DEBUG)]"

fun define_natives :: "host \<Rightarrow> (string \<times> nat) list \<Rightarrow> vm \<Rightarrow> vm option" where
  "define_natives H [] vm = Some vm"
| "define_natives H ((name, fn) # rest) vm = do { vm \<leftarrow> define_native_ex H name fn False vm; define_natives H rest vm }"

definition define_builtins :: "host \<Rightarrow> vm \<Rightarrow> vm option" where
  "define_builtins H vm = define_natives H builtins vm"

subsection \<open>A new machine\<close>

text \<open>The two tables are linked into the list of objects without being counted as allocated.\<close>

definition new_table :: "host \<Rightarrow> vm \<Rightarrow> ptr \<times> vm" where
  "new_table H vm =
     (case slp_obj_hash_new (h_alloc H (vm_heap vm)) (vm_heap vm) of
        (None, h) \<Rightarrow> (None, vm\<lparr>vm_heap := h\<rparr>)
      | (Some a, h) \<Rightarrow> (Some a, vm\<lparr>vm_heap := h, vm_objects := a # vm_objects vm\<rparr>))"

definition slp_vm_new :: "host \<Rightarrow> vm option" where
  "slp_vm_new H =
     (let (globals, vm) = new_table H vm_zero;
          (natives, vm) = new_table H (vm\<lparr>vm_globals := globals\<rparr>)
      in define_builtins H (vm\<lparr>vm_natives := natives\<rparr>))"

end
