(* ===== verification/VM_Calls.thy ===== *)
theory VM_Calls
  imports VM_Builtins
begin

text \<open>
  Calls (\<^verbatim>\<open>src/slp_vm.c\<close>, from \<open>clear_coroutine_state\<close> to \<open>call_value\<close>). A call of a closure finds
  the callee and the arguments on the stack and pushes a frame over them: slot 0 is the callee, slot 1 the
  message, slots 2 to 10 the first nine positional arguments and slot 11 the array of all of them; a
  suspended closure gets its frames back instead. A continuation replaces the whole context. A saved frame
  keeps its slots as an index into the stack saved with it.
\<close>

abbreviation SLP_MAX_FRAMES :: nat where "SLP_MAX_FRAMES \<equiv> 512"
abbreviation SLP_MAX_HANDLERS :: nat where "SLP_MAX_HANDLERS \<equiv> 256"

subsection \<open>The stack\<close>

text \<open>The stack cut at a height it has reached.\<close>

definition cut_stack :: "nat \<Rightarrow> vm \<Rightarrow> vm option" where
  "cut_stack n vm = (if length (vm_stack vm) < n then None else Some (vm\<lparr>vm_stack := take n (vm_stack vm)\<rparr>))"

definition drop_top :: "nat \<Rightarrow> vm \<Rightarrow> vm option" where
  "drop_top n vm =
     (if length (vm_stack vm) < n then None
      else Some (vm\<lparr>vm_stack := take (length (vm_stack vm) - n) (vm_stack vm)\<rparr>))"

text \<open>A call that yields null: the callee and its arguments are consumed.\<close>

definition answer_null :: "nat \<Rightarrow> vm \<Rightarrow> (bool \<times> vm) option" where
  "answer_null total_args vm = do { vm \<leftarrow> drop_top (total_args + 1) vm; Some (True, slp_vm_push VNull vm) }"

subsection \<open>Suspended closures\<close>

definition clear_coroutine_state :: "addr \<Rightarrow> vm \<Rightarrow> vm option" where
  "clear_coroutine_state a vm =
     update_closure a (\<lambda>c. c\<lparr>co_coroutine_stack := [], co_coroutine_frames := [], co_coroutine_needs_result := False,
                             co_coroutine_try_handlers := []\<rparr>) vm"

text \<open>The handlers of frames above a height are dropped.\<close>

definition trim_try_handlers :: "int \<Rightarrow> vm \<Rightarrow> vm" where
  "trim_try_handlers frame_count vm =
     vm\<lparr>vm_try_handlers := rev (dropWhile (\<lambda>t. frame_count < th_frame_count t) (rev (vm_try_handlers vm)))\<rparr>"

definition shift_handler :: "int \<Rightarrow> int \<Rightarrow> try_handler \<Rightarrow> try_handler" where
  "shift_handler frames stack t =
     t\<lparr>th_frame_count := th_frame_count t + frames, th_stack_count := th_stack_count t + stack\<rparr>"

definition capture_coroutine_try_handlers :: "addr \<Rightarrow> int \<Rightarrow> nat \<Rightarrow> vm \<Rightarrow> vm option" where
  "capture_coroutine_try_handlers a root_index root_slots vm =
     update_closure a (\<lambda>c. c\<lparr>co_coroutine_try_handlers :=
       map (shift_handler (- root_index) (- int root_slots))
         (dropWhile (\<lambda>t. th_frame_count t \<le> root_index) (vm_try_handlers vm))\<rparr>) vm"

subsection \<open>Arguments\<close>

text \<open>Positional arguments and named arguments, which are pairs.\<close>

fun split_arguments :: "heap \<Rightarrow> slp_value list \<Rightarrow> (slp_value list \<times> obj_key_value list) option" where
  "split_arguments h [] = Some ([], [])"
| "split_arguments h (v # vs) =
     do { pair \<leftarrow> pair_of h v;
          (positional, named) \<leftarrow> split_arguments h vs;
          Some (case pair of None \<Rightarrow> (v # positional, named) | Some kv \<Rightarrow> (positional, kv # named)) }"

text \<open>The first name that is no name of a variable.\<close>

fun unreachable_name :: "heap \<Rightarrow> obj_key_value list \<Rightarrow> string option option" where
  "unreachable_name h [] = Some None"
| "unreachable_name h (kv # kvs) =
     do { name \<leftarrow> name_chars h (kv_key kv);
          (case name of
             None \<Rightarrow> unreachable_name h kvs
           | Some n \<Rightarrow> if n \<noteq> [] \<and> is_sigil (hd n) then unreachable_name h kvs else Some (Some n)) }"

fun bind_named :: "ptr \<Rightarrow> obj_key_value list \<Rightarrow> vm \<Rightarrow> (bool \<times> vm) option" where
  "bind_named local [] vm = Some (True, vm)"
| "bind_named local (kv # kvs) vm =
     do { name \<leftarrow> name_chars (vm_heap vm) (kv_key kv);
          if name = None then Some (False, slp_vm_runtime_error ''Named argument requires a variable name.'' vm)
          else do { s \<leftarrow> local; vm \<leftarrow> hash_put_at s (kv_key kv) (kv_value kv) vm; bind_named local kvs vm } }"

definition bind_named_arguments :: "call_frame \<Rightarrow> obj_key_value list \<Rightarrow> vm \<Rightarrow> (bool \<times> vm) option" where
  "bind_named_arguments frame named vm =
     do { local \<leftarrow> current_local_scope (vm_heap vm) (Some frame); bind_named local named vm }"

fun dereference_all :: "heap \<Rightarrow> slp_value list \<Rightarrow> slp_value list option" where
  "dereference_all h [] = Some []"
| "dereference_all h (v # vs) = do { w \<leftarrow> dereference_value h v; ws \<leftarrow> dereference_all h vs; Some (w # ws) }"

definition arguments_array :: "host \<Rightarrow> slp_value list \<Rightarrow> vm \<Rightarrow> (ptr \<times> vm) option" where
  "arguments_array H positional vm =
     do { (p, vm) \<leftarrow> new_array H vm;
          (case p of
             None \<Rightarrow> Some (None, vm)
           | Some a \<Rightarrow>
               do { vs \<leftarrow> dereference_all (vm_heap vm) positional; vm \<leftarrow> array_push_all a vs vm; Some (Some a, vm) }) }"

fun any_tainted :: "heap \<Rightarrow> slp_value list \<Rightarrow> bool option" where
  "any_tainted h [] = Some False"
| "any_tainted h (v # vs) = do { t \<leftarrow> slp_value_is_tainted h v; if t then Some True else any_tainted h vs }"

subsection \<open>Calls of closures\<close>

definition call_failed :: "string \<Rightarrow> vm \<Rightarrow> (bool \<times> vm) option" where
  "call_failed msg vm = Some (False, slp_vm_runtime_error msg vm)"

text \<open>A named argument the callee cannot reach ends the call with a warning and null.\<close>

definition refuse_name :: "host \<Rightarrow> call_trace \<Rightarrow> nat \<Rightarrow> string \<Rightarrow> vm \<Rightarrow> (bool \<times> vm) option" where
  "refuse_name H trace slots name vm =
     do { vm \<leftarrow> finish_call_trace H trace VNull True False vm;
          vm \<leftarrow> cut_stack slots (slp_vm_warning (''unreachable named parameter: '' @ c_text name) vm);
          Some (True, slp_vm_push VNull vm) }"

fun write_slots :: "nat \<Rightarrow> slp_value list \<Rightarrow> vm \<Rightarrow> vm option" where
  "write_slots i [] vm = Some vm"
| "write_slots i (v # vs) vm = do { vm \<leftarrow> write_place (Stack_at i) v vm; write_slots (Suc i) vs vm }"

definition set_frame_trace :: "call_trace \<Rightarrow> call_frame \<Rightarrow> call_frame" where
  "set_frame_trace t f =
     f\<lparr>cf_trace_call := ct_call t, cf_trace_source := ct_source t, cf_trace_line := ct_line t, cf_trace_enabled := ct_enabled t\<rparr>"

definition restore_frames :: "obj_closure \<Rightarrow> nat \<Rightarrow> vm \<Rightarrow> vm" where
  "restore_frames c slots vm =
     vm\<lparr>vm_stack := vm_stack vm @ co_coroutine_stack c,
        vm_frames := vm_frames vm @ map (\<lambda>f. f\<lparr>cf_slots := slots + cf_slots f\<rparr>) (co_coroutine_frames c),
        vm_try_handlers := vm_try_handlers vm @
          map (shift_handler (int (length (vm_frames vm))) (int slots)) (co_coroutine_try_handlers c)\<rparr>"

definition resume_closure :: "host \<Rightarrow> addr \<Rightarrow> obj_closure \<Rightarrow> bool \<Rightarrow> call_trace \<Rightarrow> nat \<Rightarrow> slp_value \<Rightarrow>
    slp_value list \<Rightarrow> obj_key_value list \<Rightarrow> vm \<Rightarrow> (bool \<times> vm) option" where
  "resume_closure H a c has_message trace slots message positional named vm =
     do { (args, vm) \<leftarrow> arguments_array H positional vm;
          (case args of
             None \<Rightarrow> call_failed ''Out of memory.'' vm
           | Some args \<Rightarrow>
               do { vm \<leftarrow> cut_stack slots vm;
                    answer \<leftarrow> (if has_message then Some message
                              else case positional of [] \<Rightarrow> Some VNull | v # _ \<Rightarrow> dereference_value (vm_heap vm) v);
                    if SLP_STACK_MAX < slots + length (co_coroutine_stack c)
                    then call_failed ''Stack overflow.'' vm
                    else if SLP_MAX_FRAMES < length (vm_frames vm) + length (co_coroutine_frames c)
                    then call_failed ''Stack overflow.'' vm
                    else if SLP_MAX_HANDLERS < length (vm_try_handlers vm) + length (co_coroutine_try_handlers c)
                    then call_failed ''Too many active exception handlers.'' vm
                    else do {
                      let root = length (vm_frames vm);
                      vm \<leftarrow> clear_coroutine_state a (restore_frames c slots vm);
                      if length (vm_frames vm) \<le> root then None
                      else do {
                        let f = set_frame_trace trace (vm_frames vm ! root);
                        let vm = vm\<lparr>vm_frames := (vm_frames vm)[root := f]\<rparr>;
                        vm \<leftarrow> write_slots (cf_slots f + 1) (message # take 9 positional) vm;
                        vm \<leftarrow> write_place (Stack_at (cf_slots f + 11)) (VObj args) vm;
                        (ok, vm) \<leftarrow> bind_named_arguments f named vm;
                        Some (ok, if ok \<and> co_coroutine_needs_result c then slp_vm_push answer vm else vm) } } }) }"

definition new_frame :: "addr \<Rightarrow> nat \<Rightarrow> ptr \<Rightarrow> ptr \<Rightarrow> call_trace \<Rightarrow> bool \<Rightarrow> call_frame" where
  "new_frame closure slots local_scopes closure_scope trace tainted =
     \<lparr>cf_ip = 0, cf_closure = Some closure, cf_slots = slots, cf_local_scopes = local_scopes,
      cf_closure_scope = closure_scope, cf_foreach_pending = False, cf_foreach_array = None, cf_foreach_hash = None,
      cf_foreach_key = VNull, cf_foreach_index = - 1, cf_foreach_iterator_offset = - 1, cf_foreach_active = False,
      cf_foreach_iteration_array = None, cf_foreach_iteration_version = 0, cf_foreach_last_key = VNull,
      cf_foreach_last_value = VNull, cf_foreach_invalidated = False, cf_continuation_return = None,
      cf_trace_call = ct_call trace, cf_trace_source = ct_source trace, cf_trace_line = ct_line trace,
      cf_trace_enabled = ct_enabled trace, cf_tainted_arguments = tainted\<rparr>"

text \<open>
  An inline closure runs in the scopes of its caller, another one in a local scope of its own and the scope
  of the closure. The answer tells whether there was enough memory.
\<close>

definition callee_scopes :: "host \<Rightarrow> addr \<Rightarrow> obj_closure \<Rightarrow> vm \<Rightarrow> (bool \<times> ptr \<times> ptr \<times> vm) option" where
  "callee_scopes H a c vm =
     (if co_is_inline c \<and> vm_frames vm \<noteq> []
      then Some (True, cf_local_scopes (last (vm_frames vm)), cf_closure_scope (last (vm_frames vm)), vm)
      else do {
        (scopes, vm) \<leftarrow> new_array H vm;
        (local, vm) \<leftarrow> new_hash H vm;
        (case (scopes, local) of
           (Some s, Some l) \<Rightarrow>
             do { vm \<leftarrow> array_push s (VObj l) vm;
                  (ok, vm) \<leftarrow> ensure_closure_scope (h_sizes H) (h_alloc H) a vm;
                  c \<leftarrow> get_closure (vm_heap vm) a;
                  Some (ok, Some s, co_scope c, vm) }
         | _ \<Rightarrow> Some (False, None, None, vm)) })"

text \<open>The slots after the callee: the message, nine arguments and the array of the arguments.\<close>

definition fixed_slots :: "slp_value \<Rightarrow> slp_value list \<Rightarrow> addr \<Rightarrow> slp_value list" where
  "fixed_slots message positional args =
     message # map (\<lambda>i. if i < length positional then positional ! i else VNull) [0..<9] @ [VObj args]"

definition enter_closure :: "host \<Rightarrow> addr \<Rightarrow> obj_closure \<Rightarrow> call_trace \<Rightarrow> nat \<Rightarrow> slp_value \<Rightarrow>
    slp_value list \<Rightarrow> obj_key_value list \<Rightarrow> vm \<Rightarrow> (bool \<times> vm) option" where
  "enter_closure H a c trace slots message positional named vm =
     (if SLP_STACK_MAX < slots + 12 then call_failed ''Stack overflow.'' vm
      else do {
        (args, vm) \<leftarrow> arguments_array H positional vm;
        (case args of
           None \<Rightarrow> call_failed ''Out of memory.'' vm
         | Some args \<Rightarrow>
             do { (ok, local_scopes, closure_scope, vm) \<leftarrow> callee_scopes H a c vm;
                  if \<not> ok then call_failed ''Out of memory.'' vm
                  else do {
                    vm \<leftarrow> cut_stack (slots + 1) vm;
                    let vm = push_all (fixed_slots message positional args) vm;
                    tainted \<leftarrow> (if co_is_inline c then Some False
                               else any_tainted (vm_heap vm) (positional @ map kv_value named));
                    fn \<leftarrow> co_function c;
                    g \<leftarrow> get_function (vm_heap vm) fn;
                    _ \<leftarrow> fn_chunk g;
                    let f = new_frame a slots local_scopes closure_scope trace tainted;
                    bind_named_arguments f named (vm\<lparr>vm_frames := vm_frames vm @ [f]\<rparr>) } }) })"

definition call_closure :: "host \<Rightarrow> addr \<Rightarrow> nat \<Rightarrow> bool \<Rightarrow> call_trace \<Rightarrow> vm \<Rightarrow> (bool \<times> vm) option" where
  "call_closure H a arg_count has_message trace vm =
     (if SLP_MAX_FRAMES \<le> length (vm_frames vm) then call_failed ''Stack overflow.'' vm
      else (let total_args = (if has_message then arg_count + 1 else arg_count)
            in if length (vm_stack vm) < total_args + 1 then None
               else do {
                 let slots = length (vm_stack vm) - total_args - 1;
                 let args = drop (length (vm_stack vm) - arg_count) (vm_stack vm);
                 c \<leftarrow> get_closure (vm_heap vm) a;
                 let message = (if has_message then vm_stack vm ! (slots + 1) else ptr_value (co_call_name c));
                 (positional, named) \<leftarrow> split_arguments (vm_heap vm) args;
                 if 255 < length positional \<or> 255 < length named then None
                 else do {
                   unreachable \<leftarrow> unreachable_name (vm_heap vm) named;
                   (case unreachable of
                      Some name \<Rightarrow> refuse_name H trace slots name vm
                    | None \<Rightarrow>
                        if co_coroutine_stack c \<noteq> []
                        then resume_closure H a c has_message trace slots message positional named vm
                        else enter_closure H a c trace slots message positional named vm) } }))"

subsection \<open>Continuations\<close>

definition get_continuation :: "heap \<Rightarrow> addr \<Rightarrow> obj_continuation option" where
  "get_continuation h a = (case h a of Some (OContinuation k) \<Rightarrow> Some k | _ \<Rightarrow> None)"

definition update_continuation :: "addr \<Rightarrow> (obj_continuation \<Rightarrow> obj_continuation) \<Rightarrow> vm \<Rightarrow> vm option" where
  "update_continuation a f vm =
     do { k \<leftarrow> get_continuation (vm_heap vm) a; Some (put_object a (OContinuation (f k)) vm) }"

definition capture_vm_context :: "host \<Rightarrow> nat \<Rightarrow> vm \<Rightarrow> (ptr \<times> vm) option" where
  "capture_vm_context H stack_count vm =
     do { (p, vm) \<leftarrow> new_tracked (h_sizes H) (slp_obj_continuation_new (h_alloc H (vm_heap vm))) vm;
          (case p of
             None \<Rightarrow> Some (None, vm)
           | Some a \<Rightarrow>
               if length (vm_stack vm) < stack_count then None
               else do { vm \<leftarrow> update_continuation a (\<lambda>k. k\<lparr>cn_frames := vm_frames vm, cn_stack := take stack_count (vm_stack vm),
                                                             cn_try_handlers := vm_try_handlers vm\<rparr>) vm;
                         Some (Some a, vm) }) }"

definition restore_vm_context :: "obj_continuation \<Rightarrow> vm \<Rightarrow> vm" where
  "restore_vm_context k vm =
     vm\<lparr>vm_frames := cn_frames k, vm_try_handlers := cn_try_handlers k, vm_stack := cn_stack k\<rparr>"

text \<open>The suspended closure sees the value it is resumed with as its first argument.\<close>

definition resume_frame :: "host \<Rightarrow> nat \<Rightarrow> addr \<Rightarrow> slp_value \<Rightarrow> vm \<Rightarrow> (bool \<times> vm) option" where
  "resume_frame H i return_to v vm =
     (let f = (vm_frames vm ! i)\<lparr>cf_continuation_return := Some return_to\<rparr>
      in do { vm \<leftarrow> write_place (Stack_at (cf_slots f + 2)) v (vm\<lparr>vm_frames := (vm_frames vm)[i := f]\<rparr>);
              (args, vm) \<leftarrow> new_array H vm;
              (case args of
                 None \<Rightarrow> call_failed ''Out of memory.'' vm
               | Some args \<Rightarrow>
                   do { vm \<leftarrow> (if v = VNull then Some vm else array_push args v vm);
                        vm \<leftarrow> write_place (Stack_at (cf_slots f + 11)) (VObj args) vm;
                        Some (True, slp_vm_push v vm) }) })"

definition call_continuation :: "host \<Rightarrow> addr \<Rightarrow> nat \<Rightarrow> call_trace \<Rightarrow> vm \<Rightarrow> (bool \<times> vm) option" where
  "call_continuation H a total_args trace vm =
     (if length (vm_stack vm) < total_args + 1 then None
      else do {
        let caller = length (vm_stack vm) - total_args - 1;
        let v = (if 0 < total_args then vm_stack vm ! (caller + 1) else VNull);
        (p, vm) \<leftarrow> capture_vm_context H caller vm;
        (case p of
           None \<Rightarrow> call_failed ''Out of memory.'' vm
         | Some return_to \<Rightarrow>
             do { vm \<leftarrow> update_continuation return_to (\<lambda>k. k\<lparr>cn_return_trace_call := ct_call trace,
                     cn_return_trace_source := ct_source trace, cn_return_trace_line := ct_line trace,
                     cn_return_trace_enabled := ct_enabled trace\<rparr>) vm;
                  k \<leftarrow> get_continuation (vm_heap vm) a;
                  vm \<leftarrow> (case cn_coroutine_owner k of None \<Rightarrow> Some vm | Some owner \<Rightarrow> clear_coroutine_state owner vm);
                  let vm = restore_vm_context k vm;
                  if 0 \<le> cn_resume_frame_index k \<and> cn_resume_frame_index k < int (length (vm_frames vm))
                  then resume_frame H (nat (cn_resume_frame_index k)) return_to v vm
                  else Some (True, slp_vm_push v vm) }) })"

subsection \<open>Native functions\<close>

definition get_native :: "heap \<Rightarrow> addr \<Rightarrow> obj_native option" where
  "get_native h a = (case h a of Some (ONative n) \<Rightarrow> Some n | _ \<Rightarrow> None)"

fun unwrap_all :: "heap \<Rightarrow> slp_value list \<Rightarrow> slp_value list option" where
  "unwrap_all h [] = Some []"
| "unwrap_all h (v # vs) = do { w \<leftarrow> slp_value_unwrap_taint h v; ws \<leftarrow> unwrap_all h vs; Some (w # ws) }"

text \<open>The arguments a native function gets, and whether one of them was tainted.\<close>

definition native_arguments :: "heap \<Rightarrow> obj_native \<Rightarrow> slp_value list \<Rightarrow> (slp_value list \<times> bool) option" where
  "native_arguments h n args =
     (if na_preserve_references n then Some (args, False)
      else do { vs \<leftarrow> dereference_all h args; t \<leftarrow> any_tainted h vs; vs \<leftarrow> unwrap_all h vs; Some (vs, t) })"

definition untraced_native :: "heap \<Rightarrow> obj_native \<Rightarrow> bool option" where
  "untraced_native h n =
     (case na_name n of
        None \<Rightarrow> Some False
      | Some s \<Rightarrow> do { t \<leftarrow> chars_at h s; Some (t = ''warn'' \<or> t = ''@'' \<or> t = ''%'') })"

definition call_native :: "host \<Rightarrow> vm_run \<Rightarrow> addr \<Rightarrow> nat \<Rightarrow> call_trace \<Rightarrow> vm \<Rightarrow> (bool \<times> vm) option" where
  "call_native H run a total_args trace vm =
     (if 256 < total_args \<or> length (vm_stack vm) < total_args then None
      else do {
        n \<leftarrow> get_native (vm_heap vm) a;
        (args, tainted) \<leftarrow> native_arguments (vm_heap vm) n (drop (length (vm_stack vm) - total_args) (vm_stack vm));
        (v, vm) \<leftarrow> native_function H run (na_fn n) args vm;
        (v, vm) \<leftarrow> (if tainted then slp_vm_taint_value (h_sizes H) (h_alloc H) v vm else Some (v, vm));
        vm \<leftarrow> drop_top (total_args + 1) vm;
        let vm = slp_vm_push v vm;
        quiet \<leftarrow> untraced_native (vm_heap vm) n;
        vm \<leftarrow> (if quiet then Some vm else finish_call_trace H trace v (vm_abort_requested vm) False vm);
        Some (True, vm) })"

subsection \<open>The call of invoke\<close>

text \<open>What the arguments of \<open>invoke\<close> name: the message, the arguments, a table of named ones, the closure for \<open>$this\<close>.\<close>

record invocation =
  iv_message :: slp_value
  iv_args :: "slp_value list"
  iv_parameters :: ptr
  iv_environment :: ptr
  iv_array_seen :: bool
  iv_message_seen :: bool

definition no_invocation :: invocation where
  "no_invocation = \<lparr>iv_message = VNull, iv_args = [], iv_parameters = None, iv_environment = None, iv_array_seen = False,
                    iv_message_seen = False\<rparr>"

definition add_argument :: "slp_value \<Rightarrow> invocation \<Rightarrow> invocation" where
  "add_argument v iv = (if length (iv_args iv) < 255 then iv\<lparr>iv_args := iv_args iv @ [v]\<rparr> else iv)"

definition invoke_pair :: "heap \<Rightarrow> slp_value \<Rightarrow> obj_key_value \<Rightarrow> invocation \<Rightarrow> invocation option" where
  "invoke_pair h v kv iv =
     do { name \<leftarrow> name_chars h (kv_key kv);
          let key = (case name of None \<Rightarrow> [] | Some n \<Rightarrow> c_text n);
          ob \<leftarrow> object_of h (kv_value kv);
          if key = ''message'' then
            do { m \<leftarrow> dereference_value h (kv_value kv); Some (iv\<lparr>iv_message := m, iv_message_seen := True\<rparr>) }
          else Some (case (kv_value kv, ob) of
                       (VObj a, Some (OHash _)) \<Rightarrow> if key = ''parameters'' then iv\<lparr>iv_parameters := Some a\<rparr> else add_argument v iv
                     | (VObj a, Some (OClosure _)) \<Rightarrow> if key = ''$this'' then iv\<lparr>iv_environment := Some a\<rparr> else add_argument v iv
                     | _ \<Rightarrow> add_argument v iv) }"

text \<open>None when there are too many arguments.\<close>

definition invoke_plain :: "heap \<Rightarrow> slp_value \<Rightarrow> invocation \<Rightarrow> invocation option option" where
  "invoke_plain h v iv =
     do { plain \<leftarrow> dereference_value h v;
          ob \<leftarrow> object_of h plain;
          Some (case (iv_array_seen iv, ob) of
                  (False, Some (OArray r)) \<Rightarrow>
                    if 255 - int (length (iv_args iv)) < ar_count r then None
                    else Some (iv\<lparr>iv_args := iv_args iv @ take (nat (ar_count r)) (ar_elements r), iv_array_seen := True\<rparr>)
                | _ \<Rightarrow>
                    Some (if \<not> iv_message_seen iv then iv\<lparr>iv_message := plain, iv_message_seen := True\<rparr>
                          else add_argument v iv)) }"

fun read_invocation :: "heap \<Rightarrow> slp_value list \<Rightarrow> invocation \<Rightarrow> invocation option option" where
  "read_invocation h [] iv = Some (Some iv)"
| "read_invocation h (v # vs) iv =
     do { pair \<leftarrow> pair_of h v;
          (case pair of
             Some kv \<Rightarrow> do { iv \<leftarrow> invoke_pair h v kv iv; read_invocation h vs iv }
           | None \<Rightarrow>
               do { r \<leftarrow> invoke_plain h v iv; (case r of None \<Rightarrow> Some None | Some iv \<Rightarrow> read_invocation h vs iv) }) }"

fun named_parameters :: "host \<Rightarrow> hash_entry list \<Rightarrow> vm \<Rightarrow> (slp_value list option \<times> vm) option" where
  "named_parameters H [] vm = Some (Some [], vm)"
| "named_parameters H (e # es) vm =
     (if he_key e = VNull then named_parameters H es vm
      else do { (p, vm) \<leftarrow> new_tracked (h_sizes H) (slp_obj_key_value_new (h_alloc H (vm_heap vm)) (he_key e) (he_value e)) vm;
                (case p of
                   None \<Rightarrow> Some (None, vm)
                 | Some a \<Rightarrow>
                     do { (vs, vm) \<leftarrow> named_parameters H es vm; Some (map_option (\<lambda>vs. VObj a # vs) vs, vm) }) })"

text \<open>A copy of the invoked closure in the scope of another one; none when memory is exhausted.\<close>

definition bind_environment :: "host \<Rightarrow> slp_value \<Rightarrow> ptr \<Rightarrow> vm \<Rightarrow> (slp_value option \<times> vm) option" where
  "bind_environment H invoked environment vm =
     do { ob \<leftarrow> object_of (vm_heap vm) invoked;
          (case (environment, invoked, ob) of
             (Some e, VObj a, Some (OClosure _)) \<Rightarrow>
               do { (ok, vm) \<leftarrow> ensure_closure_scope (h_sizes H) (h_alloc H) e vm;
                    if \<not> ok then Some (None, vm)
                    else do { (bound, vm) \<leftarrow> slp_vm_clone_closure (h_sizes H) (h_alloc H) (Some a) vm;
                              (case bound of
                                 None \<Rightarrow> Some (None, vm)
                               | Some b \<Rightarrow>
                                   do { env \<leftarrow> get_closure (vm_heap vm) e;
                                        vm \<leftarrow> update_closure b (\<lambda>c. c\<lparr>co_scope := co_scope env\<rparr>) vm;
                                        Some (Some (VObj b), vm) }) } }
           | _ \<Rightarrow> Some (Some invoked, vm)) }"

text \<open>The call \<open>invoke\<close> asks for: it is over, or the callee and the number of its arguments, which are on the stack.\<close>

definition prepare_invoke :: "host \<Rightarrow> nat \<Rightarrow> vm \<Rightarrow> ((bool + slp_value \<times> nat) \<times> vm) option" where
  "prepare_invoke H total_args vm =
     (if total_args < 1 then do { (ok, vm) \<leftarrow> answer_null total_args vm; Some (Inl ok, vm) }
      else if length (vm_stack vm) < total_args + 1 then None
      else do {
        let base = length (vm_stack vm) - total_args - 1;
        invoked \<leftarrow> dereference_value (vm_heap vm) (vm_stack vm ! (base + 1));
        read \<leftarrow> read_invocation (vm_heap vm) (drop (base + 2) (vm_stack vm)) no_invocation;
        (case read of
           None \<Rightarrow> Some (Inl False, slp_vm_runtime_error ''invoke: too many closure arguments.'' vm)
         | Some iv \<Rightarrow>
             do { entries \<leftarrow> (case iv_parameters iv of
                               None \<Rightarrow> Some (Some [])
                             | Some a \<Rightarrow>
                                 do { r \<leftarrow> get_hash (vm_heap vm) a;
                                      Some (if 255 - int (length (iv_args iv)) < ha_count r then None else Some (ha_entries r)) });
                  (case entries of
                     None \<Rightarrow> Some (Inl False, slp_vm_runtime_error ''invoke: too many named parameters.'' vm)
                   | Some entries \<Rightarrow>
                       do { (named, vm) \<leftarrow> named_parameters H entries vm;
                            (case named of
                               None \<Rightarrow> Some (Inl False, slp_vm_runtime_error ''Out of memory.'' vm)
                             | Some named \<Rightarrow>
                                 do { (bound, vm) \<leftarrow> bind_environment H invoked (iv_environment iv) vm;
                                      (case bound of
                                         None \<Rightarrow> Some (Inl False, slp_vm_runtime_error ''Out of memory.'' vm)
                                       | Some callee \<Rightarrow>
                                           do { vm \<leftarrow> cut_stack base vm;
                                                let args = iv_args iv @ named;
                                                Some (Inr (callee, length args),
                                                      push_all (callee # iv_message iv # args) vm) }) }) }) }) })"

subsection \<open>Calls of values\<close>

definition start_call :: "host \<Rightarrow> slp_value \<Rightarrow> nat \<Rightarrow> bool \<Rightarrow> string option \<Rightarrow> vm \<Rightarrow> (call_trace \<times> vm) option" where
  "start_call H callee total_args has_message trace_name vm =
     (if length (vm_stack vm) < total_args + 1 then None
      else do {
        let args = drop (length (vm_stack vm) - total_args) (vm_stack vm);
        (trace, vm) \<leftarrow> prepare_call_trace H callee args has_message trace_name vm;
        vm \<leftarrow> (if debug_flag 8 vm then do { (n, vm) \<leftarrow> profile_call_name H callee has_message args trace_name vm; profile_record H n vm }
              else Some vm);
        Some (trace, vm) })"

text \<open>A call of anything but \<open>invoke\<close>.\<close>

definition call_object :: "host \<Rightarrow> vm_run \<Rightarrow> slp_value \<Rightarrow> nat \<Rightarrow> bool \<Rightarrow> call_trace \<Rightarrow> vm \<Rightarrow> (bool \<times> vm) option" where
  "call_object H run callee arg_count has_message trace vm =
     (let total_args = (if has_message then arg_count + 1 else arg_count)
      in (case callee of
            VObj a \<Rightarrow>
              do { ob \<leftarrow> vm_heap vm a;
                   (case ob of
                      OClosure _ \<Rightarrow> call_closure H a arg_count has_message trace vm
                    | ONative _ \<Rightarrow> call_native H run a total_args trace vm
                    | OContinuation _ \<Rightarrow> call_continuation H a total_args trace vm
                    | _ \<Rightarrow> answer_null total_args vm) }
          | _ \<Rightarrow> answer_null total_args vm))"

definition is_invoke :: "heap \<Rightarrow> slp_value \<Rightarrow> bool option" where
  "is_invoke h v = do { ob \<leftarrow> object_of h v; Some (case ob of Some (ONative n) \<Rightarrow> na_fn n = NATIVE_INVOKE | _ \<Rightarrow> False) }"

partial_function (option) call_value :: "host \<Rightarrow> vm_run \<Rightarrow> slp_value \<Rightarrow> nat \<Rightarrow> bool \<Rightarrow> string option \<Rightarrow> vm \<Rightarrow>
    (bool \<times> vm) option" where
  [code]: "call_value H run callee arg_count has_message trace_name vm =
     Option.bind (start_call H callee (if has_message then arg_count + 1 else arg_count) has_message trace_name vm)
       (\<lambda>(trace, vm).
          Option.bind (is_invoke (vm_heap vm) callee) (\<lambda>invoke.
            if invoke then
              Option.bind (prepare_invoke H (if has_message then arg_count + 1 else arg_count) vm) (\<lambda>(next, vm).
                case next of
                  Inl ok \<Rightarrow> Some (ok, vm)
                | Inr (callee, n) \<Rightarrow> call_value H run callee n True None vm)
            else call_object H run callee arg_count has_message trace vm))"

end
