(* ===== verification/VM_Methods.thy ===== *)
theory VM_Methods
  imports VM_Calls
begin

text \<open>
  Compile errors as objects and the methods of built-in objects (\<^verbatim>\<open>src/slp_vm.c\<close>, \<open>make_compile_error\<close>
  and \<open>call_builtin_object_method\<close>): constructors of Java classes, static methods, fields, streams,
  proxies, iterators, lists and strings. A method that is not built in gives none.
\<close>

subsection \<open>Compile errors\<close>

definition trim_spaces :: "string \<Rightarrow> string" where
  "trim_spaces s = rev (dropWhile c_isspace (rev (dropWhile c_isspace s)))"

text \<open>The text after the first line feeds.\<close>

fun skip_lines :: "nat \<Rightarrow> string \<Rightarrow> string" where
  "skip_lines 0 s = s"
| "skip_lines (Suc n) [] = []"
| "skip_lines (Suc n) (c # s) = (if c = NL then skip_lines n s else skip_lines (Suc n) s)"

definition compile_error_source_line :: "string \<Rightarrow> int \<Rightarrow> string" where
  "compile_error_source_line source line =
     trim_spaces (takeWhile (\<lambda>c. c \<noteq> CHR 0x0D \<and> c \<noteq> NL) (skip_lines (nat (line - 1)) (c_text source)))"

definition without_dots :: "string \<Rightarrow> string" where
  "without_dots s = rev (dropWhile (\<lambda>c. c = CHR ''.'') (rev s))"

definition is_runaway :: "string \<Rightarrow> bool" where
  "is_runaway msg \<longleftrightarrow> msg = ''Unterminated string.'' \<or> msg = ''Unterminated string''"

definition compile_error_message :: "string \<Rightarrow> int \<Rightarrow> string" where
  "compile_error_message msg line =
     take 1023 (if is_runaway msg
                then ''2 error(s): Mismatched Parentheses - missing close paren at 1; Runaway string at 1''
                else ''1 error(s): '' @ without_dots msg @ '' at '' @ dec_int line)"

text \<open>The buffer for the formatted text has room for the format, the message and the snippet.\<close>

definition formatted_errors :: "string \<Rightarrow> int \<Rightarrow> string \<Rightarrow> string" where
  "formatted_errors msg line snippet =
     (if is_runaway msg
      then ''Error: Mismatched Parentheses - missing close paren at line 1'' @ [NL] @ ''       '' @ snippet @ [NL] @
           ''Error: Runaway string at line 1'' @ [NL] @ ''       '' @ snippet @ [NL]
      else ''Error: '' @ take 511 (without_dots msg) @ '' at line '' @ dec_int line @ [NL] @ ''       '' @ snippet @ [NL])"

definition make_compile_error :: "host \<Rightarrow> string \<Rightarrow> int \<Rightarrow> string \<Rightarrow> vm \<Rightarrow> (slp_value \<times> vm) option" where
  "make_compile_error H source line parser_message vm =
     (let line = (if line < 1 then 1 else line);
          msg = (if c_text parser_message = [] then ''Parse error'' else c_text parser_message);
          snippet = compile_error_source_line source line;
          message = compile_error_message msg line
      in do { (p, vm) \<leftarrow> slp_vm_new_java_object (h_sizes H) (h_alloc H) ''sleep.error.YourCodeSucksException'' JAVA_ERROR vm;
              (case p of
                 None \<Rightarrow> Some (VNull, vm)
               | Some e \<Rightarrow>
                   do { (m, vm) \<leftarrow> copy_text H message (slp_vm_push (VObj e) vm);
                        (f, vm) \<leftarrow> copy_c_text H (formatted_errors msg line snippet) vm;
                        (t, vm) \<leftarrow> copy_c_text H (''YourCodeSucksException: '' @ message) vm;
                        j \<leftarrow> get_java (vm_heap vm) e;
                        vm \<leftarrow> push_string m (jo_list j) vm;
                        vm \<leftarrow> push_string f (jo_list j) vm;
                        vm \<leftarrow> update_java e (\<lambda>j. j\<lparr>jo_value := ptr_value t\<rparr>) vm;
                        Some (VObj e, snd (slp_vm_pop vm)) }) })"

subsection \<open>Methods of classes\<close>

type_synonym method_answer = "(slp_value option \<times> vm) option"

definition no_method :: "vm \<Rightarrow> method_answer" where
  "no_method vm = Some (None, vm)"

definition answer :: "slp_value \<Rightarrow> vm \<Rightarrow> method_answer" where
  "answer v vm = Some (Some v, vm)"

text \<open>A new object, or no method when memory is exhausted.\<close>

definition answer_object :: "ptr \<Rightarrow> vm \<Rightarrow> method_answer" where
  "answer_object p vm = Some (map_option VObj p, vm)"

definition get_class :: "heap \<Rightarrow> addr \<Rightarrow> obj_class option" where
  "get_class h a = (case h a of Some (OClass c) \<Rightarrow> Some c | _ \<Rightarrow> None)"

definition class_name :: "heap \<Rightarrow> addr \<Rightarrow> string option" where
  "class_name h a = do { c \<leftarrow> get_class h a; n \<leftarrow> cl_name c; chars_at h n }"

definition current_thread :: "host \<Rightarrow> vm \<Rightarrow> method_answer" where
  "current_thread H vm =
     do { (key, vm) \<leftarrow> copy_c_text H ''$source'' vm;
          (source, vm) \<leftarrow> (case key of
                          None \<Rightarrow> Some (VNull, vm)
                        | Some k \<Rightarrow> do { g \<leftarrow> vm_globals vm; hash_get_at g (VObj k) vm });
          ob \<leftarrow> object_of (vm_heap vm) source;
          let in_fork = (case ob of Some (OIOHandle _) \<Rightarrow> True | _ \<Rightarrow> False);
          description \<leftarrow> (if in_fork \<and> vm_frames vm \<noteq> []
                         then do { s \<leftarrow> frame_source_name (vm_heap vm) (current_frame vm);
                                   line \<leftarrow> slp_vm_current_line vm;
                                   Some (take 1399 (''Thread[fork of '' @ s @ '':'' @ dec_int line @ '',5,main]'')) }
                         else Some ''Thread[main,5,main]'');
          (p, vm) \<leftarrow> slp_vm_new_java_object (h_sizes H) (h_alloc H) ''java.lang.Thread'' JAVA_GENERIC vm;
          (case p of
             None \<Rightarrow> no_method vm
           | Some a \<Rightarrow>
               do { (t, vm) \<leftarrow> copy_c_text H description vm;
                    vm \<leftarrow> update_java a (\<lambda>j. j\<lparr>jo_value := ptr_value t\<rparr>) vm;
                    answer (VObj a) vm }) }"

definition class_method :: "host \<Rightarrow> addr \<Rightarrow> slp_value \<Rightarrow> string \<Rightarrow> slp_value list \<Rightarrow> vm \<Rightarrow> method_answer" where
  "class_method H a message method args vm =
     do { c \<leftarrow> get_class (vm_heap vm) a;
          name \<leftarrow> class_name (vm_heap vm) a;
          if name = ''java.lang.Math'' \<and> method = ''pow'' \<and> length args = 2 then
            do { x \<leftarrow> slp_value_as_number (vm_heap vm) (args ! 0);
                 y \<leftarrow> slp_value_as_number (vm_heap vm) (args ! 1);
                 (p, vm) \<leftarrow> slp_vm_new_double (h_sizes H) (h_alloc H) (h_pow H x y) vm;
                 answer_object p vm }
          else if name = ''java.lang.Thread'' \<and> method = ''currentThread'' \<and> args = [] then current_thread H vm
          else if name = ''java.lang.System'' \<and> method = ''out'' \<and> args = [] then
            do { (p, vm) \<leftarrow> slp_vm_new_java_object (h_sizes H) (h_alloc H) ''java.io.PrintStream'' JAVA_GENERIC vm;
                 answer_object p vm }
          else if name = ''sleep.runtime.SleepUtils'' \<and> method = ''getIOHandle'' \<and> length args = 2 then
            do { (p, vm) \<leftarrow> slp_vm_get_console_handle (h_sizes H) (h_alloc H) vm; answer_object p vm }
          else if method = ''getInterfaces'' \<and> args = [] \<and> cl_interfaces c \<noteq> None then answer (ptr_value (cl_interfaces c)) vm
          else (case cl_fields c of
                  None \<Rightarrow> no_method vm
                | Some table \<Rightarrow>
                    if args \<noteq> [] then no_method vm
                    else do { (field, vm) \<leftarrow> hash_get_at table message vm;
                              if field = VNull then no_method vm
                              else do { v \<leftarrow> dereference_value (vm_heap vm) field; answer v vm } }) }"

subsection \<open>Constructors\<close>

definition list_names :: "string list" where
  "list_names = [''LinkedList'', ''java.util.LinkedList'', ''ArrayList'', ''java.util.ArrayList'']"

definition map_names :: "string list" where
  "map_names = [''HashMap'', ''java.util.HashMap'', ''LinkedHashMap'', ''java.util.LinkedHashMap'']"

definition object_names :: "string list" where
  "object_names = [''Object'', ''java.lang.Object'']"

definition wrapper_names :: "string list" where
  "wrapper_names =
     concat (map (\<lambda>n. [n, ''java.lang.'' @ n])
       [''Boolean'', ''Byte'', ''Character'', ''Double'', ''Float'', ''Integer'', ''Long'', ''Short'', ''String''])"

definition array_items :: "heap \<Rightarrow> addr \<Rightarrow> slp_value list option" where
  "array_items h a =
     do { arr \<leftarrow> get_array h a;
          if int (length (ar_elements arr)) < ar_count arr then None else Some (take (nat (ar_count arr)) (ar_elements arr)) }"

text \<open>A new list has the elements of an array or of another list.\<close>

definition fill_list :: "addr \<Rightarrow> slp_value \<Rightarrow> vm \<Rightarrow> vm option" where
  "fill_list a argument vm =
     do { source \<leftarrow> dereference_value (vm_heap vm) argument;
          ob \<leftarrow> object_of (vm_heap vm) source;
          j \<leftarrow> get_java (vm_heap vm) a;
          l \<leftarrow> jo_list j;
          (case (source, ob) of
             (VObj s, Some (OArray _)) \<Rightarrow> do { vs \<leftarrow> array_items (vm_heap vm) s; array_push_all l vs vm }
           | (VObj s, Some (OJava k)) \<Rightarrow>
               if jo_kind k = JAVA_LIST
               then do { s \<leftarrow> jo_list k; vs \<leftarrow> array_items (vm_heap vm) s; array_push_all l vs vm }
               else Some vm
           | _ \<Rightarrow> Some vm) }"

definition wrapped_value :: "host \<Rightarrow> string \<Rightarrow> slp_value \<Rightarrow> slp_value \<Rightarrow> vm \<Rightarrow> (slp_value \<times> vm) option" where
  "wrapped_value H name source old vm =
     (if name = ''java.lang.Double'' \<or> name = ''java.lang.Float'' then
        do { d \<leftarrow> slp_value_as_number (vm_heap vm) source; make_double_value (h_sizes H) (h_alloc H) d vm }
      else if name = ''java.lang.Long'' then
        do { w \<leftarrow> numeric_long_value (vm_heap vm) source; make_long_value (h_sizes H) (h_alloc H) w vm }
      else if name = ''java.lang.Integer'' \<or> name = ''java.lang.Short'' \<or> name = ''java.lang.Byte'' then
        do { w \<leftarrow> numeric_int_value (vm_heap vm) source; Some (int_value w, vm) }
      else if name = ''java.lang.Boolean'' then
        do { f \<leftarrow> slp_value_is_falsy (vm_heap vm) source; Some (VBool (\<not> f), vm) }
      else if name = ''java.lang.Character'' then
        do { (p, vm) \<leftarrow> stringify H source vm;
             s \<leftarrow> (case p of None \<Rightarrow> Some [] | Some a \<Rightarrow> map_option s_chars (get_string (vm_heap vm) a));
             (p, vm) \<leftarrow> copy_text H (take 1 s) vm;
             Some (ptr_value p, vm) }
      else if name = ''java.lang.String'' then do { (p, vm) \<leftarrow> stringify H source vm; Some (ptr_value p, vm) }
      else Some (old, vm))"

definition construct_object :: "host \<Rightarrow> string \<Rightarrow> slp_value list \<Rightarrow> vm \<Rightarrow> method_answer" where
  "construct_object H method args vm =
     (if \<not> List.member (list_names @ map_names @ object_names @ wrapper_names) method then no_method vm
      else do {
        let kind = (if List.member list_names method then JAVA_LIST
                    else if List.member map_names method then JAVA_MAP else JAVA_GENERIC);
        (p, vm) \<leftarrow> slp_vm_new_java_object (h_sizes H) (h_alloc H) method kind vm;
        (case p of
           None \<Rightarrow> no_method vm
         | Some a \<Rightarrow>
             do { vm \<leftarrow> (case args of
                         [] \<Rightarrow> Some vm
                       | v # vs \<Rightarrow>
                           if kind = JAVA_LIST \<and> vs = [] then fill_list a v vm
                           else if List.member wrapper_names method then
                             do { source \<leftarrow> dereference_value (vm_heap vm) v;
                                  j \<leftarrow> get_java (vm_heap vm) a;
                                  c \<leftarrow> jo_class j;
                                  name \<leftarrow> class_name (vm_heap vm) c;
                                  (w, vm) \<leftarrow> wrapped_value H name source (jo_value j) vm;
                                  update_java a (\<lambda>j. j\<lparr>jo_value := w\<rparr>) vm }
                           else Some vm);
                  answer (VObj a) vm }) })"

subsection \<open>Methods of Java objects\<close>

text \<open>The value of a field of the object or else of its class.\<close>

definition field_in :: "ptr \<Rightarrow> slp_value \<Rightarrow> vm \<Rightarrow> (slp_value \<times> vm) option" where
  "field_in table message vm = (case table of None \<Rightarrow> Some (VNull, vm) | Some a \<Rightarrow> hash_get_at a message vm)"

definition java_field :: "obj_java \<Rightarrow> slp_value \<Rightarrow> vm \<Rightarrow> (slp_value \<times> vm) option" where
  "java_field j message vm =
     do { (field, vm) \<leftarrow> field_in (jo_fields j) message vm;
          if field \<noteq> VNull then Some (field, vm)
          else (case jo_class j of
                  None \<Rightarrow> Some (VNull, vm)
                | Some a \<Rightarrow> do { c \<leftarrow> get_class (vm_heap vm) a; field_in (cl_fields c) message vm }) }"

definition is_print_stream :: "heap \<Rightarrow> obj_java \<Rightarrow> bool option" where
  "is_print_stream h j =
     (case jo_class j of
        None \<Rightarrow> Some False
      | Some a \<Rightarrow>
          do { c \<leftarrow> get_class h a;
               (case cl_name c of None \<Rightarrow> Some False | Some n \<Rightarrow> map_option (\<lambda>t. t = ''java.io.PrintStream'') (chars_at h n)) })"

definition print_stream_method :: "host \<Rightarrow> string \<Rightarrow> slp_value list \<Rightarrow> vm \<Rightarrow> method_answer" where
  "print_stream_method H method args vm =
     (let newline = (if method = ''println'' then slp_vm_write [NL] else id)
      in (case args of
            [] \<Rightarrow> answer VNull (newline vm)
          | v # _ \<Rightarrow>
              do { v \<leftarrow> dereference_value (vm_heap vm) v;
                   (p, vm) \<leftarrow> stringify H v vm;
                   t \<leftarrow> chars_of (vm_heap vm) p;
                   answer VNull (newline (case t of None \<Rightarrow> vm | Some t \<Rightarrow> slp_vm_write t vm)) }))"

definition error_method :: "obj_java \<Rightarrow> addr \<Rightarrow> string \<Rightarrow> slp_value list \<Rightarrow> vm \<Rightarrow> method_answer" where
  "error_method j l method args vm =
     (if args \<noteq> [] then no_method vm
      else if method = ''getMessage'' then do { v \<leftarrow> slp_obj_array_get (vm_heap vm) l 0; answer v vm }
      else if method = ''formatErrors'' then do { v \<leftarrow> slp_obj_array_get (vm_heap vm) l 1; answer v vm }
      else if method = ''toString'' then answer (jo_value j) vm
      else no_method vm)"

definition statistic_method :: "host \<Rightarrow> addr \<Rightarrow> string \<Rightarrow> vm \<Rightarrow> method_answer" where
  "statistic_method H l method vm =
     (if method = ''calls'' then do { v \<leftarrow> element_at (vm_heap vm) l 0; answer v vm }
      else if method = ''ticks'' then do { v \<leftarrow> element_at (vm_heap vm) l 1; answer v vm }
      else if method = ''functionName'' then do { v \<leftarrow> element_at (vm_heap vm) l 2; answer v vm }
      else if method = ''toString'' then
        do { n \<leftarrow> element_at (vm_heap vm) l 2;
             c \<leftarrow> element_at (vm_heap vm) l 0;
             (case (n, c) of
                (VObj n, VObj c) \<Rightarrow>
                  do { t \<leftarrow> chars_at (vm_heap vm) n;
                       (case vm_heap vm c of
                          Some (OLong w) \<Rightarrow>
                            do { (p, vm) \<leftarrow> copy_c_text H (take 1199 (''0.0s '' @ dec_int (sint w) @ '' '' @ t)) vm;
                                 answer (ptr_value p) vm }
                        | _ \<Rightarrow> None) }
              | _ \<Rightarrow> None) }
      else no_method vm)"

definition proxy_method :: "vm_run \<Rightarrow> slp_value \<Rightarrow> slp_value \<Rightarrow> slp_value list \<Rightarrow> vm \<Rightarrow> method_answer" where
  "proxy_method run closure message args vm =
     do { vs \<leftarrow> dereference_all (vm_heap vm) args;
          (r, vm) \<leftarrow> run True (length args) (push_all (closure # message # vs) vm);
          if r \<noteq> SLP_OK then no_method vm else (let (v, vm) = slp_vm_pop vm in answer v vm) }"

definition number_of :: "int \<Rightarrow> slp_value" where
  "number_of i = VNum (f_of_int i)"

text \<open>The index of an iterator is converted before the method is looked at.\<close>

definition iterator_method :: "addr \<Rightarrow> obj_java \<Rightarrow> addr \<Rightarrow> string \<Rightarrow> slp_value list \<Rightarrow> vm \<Rightarrow> method_answer" where
  "iterator_method a j l method args vm =
     do { w \<leftarrow> numeric_int_value (vm_heap vm) (jo_value j);
          let index = sint w;
          arr \<leftarrow> get_array (vm_heap vm) l;
          if method = ''hasNext'' \<and> args = [] then
            answer (if 0 \<le> index \<and> index < ar_count arr then number_of 1 else VNull) vm
          else if method = ''next'' \<and> args = [] then
            (if index < 0 \<or> ar_count arr \<le> index then answer VNull vm
             else do { v \<leftarrow> element_at (vm_heap vm) l (nat index);
                       v \<leftarrow> dereference_value (vm_heap vm) v;
                       vm \<leftarrow> update_java a (\<lambda>j. j\<lparr>jo_value := number_of (index + 1)\<rparr>) vm;
                       answer v vm })
          else if method = ''remove'' \<and> args = [] then
            (if index \<le> 0 \<or> ar_count arr < index then answer VNull vm
             else do { (_, h) \<leftarrow> slp_obj_array_remove_at (vm_heap vm) l (index - 1);
                       vm \<leftarrow> update_java a (\<lambda>j. j\<lparr>jo_value := number_of (index - 1)\<rparr>) (vm\<lparr>vm_heap := h\<rparr>);
                       answer VNull vm })
          else no_method vm }"

definition clear_list :: "addr \<Rightarrow> vm \<Rightarrow> vm option" where
  "clear_list l vm =
     do { arr \<leftarrow> get_array (vm_heap vm) l;
          Some (put_object l (OArray (arr\<lparr>ar_count := 0, ar_version := ar_version arr + 1\<rparr>)) vm) }"

definition list_method :: "host \<Rightarrow> addr \<Rightarrow> string \<Rightarrow> slp_value list \<Rightarrow> vm \<Rightarrow> method_answer" where
  "list_method H l method args vm =
     do { arr \<leftarrow> get_array (vm_heap vm) l;
          if method = ''iterator'' \<and> args = [] then
            do { (p, vm) \<leftarrow> slp_vm_new_java_object (h_sizes H) (h_alloc H) ''java.util.ListIterator'' JAVA_ITERATOR vm;
                 (case p of
                    None \<Rightarrow> no_method vm
                  | Some i \<Rightarrow>
                      do { vm \<leftarrow> update_java i (\<lambda>j. j\<lparr>jo_list := Some l, jo_value := number_of 0\<rparr>) vm; answer (VObj i) vm }) }
          else if method = ''add'' \<and> length args = 1 then
            do { v \<leftarrow> dereference_value (vm_heap vm) (args ! 0); vm \<leftarrow> array_push l v vm; answer (number_of 1) vm }
          else if method = ''add'' \<and> length args = 2 then
            do { i \<leftarrow> numeric_int_value (vm_heap vm) (args ! 0);
                 v \<leftarrow> dereference_value (vm_heap vm) (args ! 1);
                 h \<leftarrow> slp_obj_array_insert (vm_heap vm) l (sint i) v;
                 answer (number_of 1) (vm\<lparr>vm_heap := h\<rparr>) }
          else if method = ''size'' \<and> args = [] then answer (number_of (ar_count arr)) vm
          else if method = ''isEmpty'' \<and> args = [] then answer (if ar_count arr = 0 then number_of 1 else VNull) vm
          else if method = ''get'' \<and> length args = 1 then
            do { i \<leftarrow> numeric_int_value (vm_heap vm) (args ! 0);
                 v \<leftarrow> slp_obj_array_get (vm_heap vm) l (sint i);
                 answer v vm }
          else if method = ''clear'' \<and> args = [] then do { vm \<leftarrow> clear_list l vm; answer VNull vm }
          else no_method vm }"

text \<open>The methods of the kind of the object.\<close>

definition kind_method :: "host \<Rightarrow> vm_run \<Rightarrow> addr \<Rightarrow> obj_java \<Rightarrow> slp_value \<Rightarrow> string \<Rightarrow> slp_value list \<Rightarrow> vm \<Rightarrow> method_answer" where
  "kind_method H run a j message method args vm =
     (case (jo_kind j, jo_list j) of
        (JAVA_ERROR, Some l) \<Rightarrow> error_method j l method args vm
      | (JAVA_PROFILE_STATISTIC, Some l) \<Rightarrow>
          do { arr \<leftarrow> get_array (vm_heap vm) l;
               if ar_count arr < 3 \<or> args \<noteq> [] then no_method vm else statistic_method H l method vm }
      | (JAVA_PROXY, _) \<Rightarrow>
          do { ob \<leftarrow> object_of (vm_heap vm) (jo_value j);
               (case ob of
                  Some (OClosure _) \<Rightarrow> proxy_method run (jo_value j) message args vm
                | _ \<Rightarrow> no_method vm) }
      | (JAVA_ITERATOR, Some l) \<Rightarrow> iterator_method a j l method args vm
      | (JAVA_LIST, Some l) \<Rightarrow> list_method H l method args vm
      | _ \<Rightarrow> no_method vm)"

definition java_method :: "host \<Rightarrow> vm_run \<Rightarrow> addr \<Rightarrow> slp_value \<Rightarrow> string \<Rightarrow> slp_value list \<Rightarrow> vm \<Rightarrow> method_answer" where
  "java_method H run a message method args vm =
     do { j \<leftarrow> get_java (vm_heap vm) a;
          stream \<leftarrow> is_print_stream (vm_heap vm) j;
          if stream \<and> (method = ''print'' \<or> method = ''println'') \<and> length args \<le> 1 then print_stream_method H method args vm
          else if method = ''getClass'' \<and> args = [] then answer (ptr_value (jo_class j)) vm
          else do {
            (field, vm) \<leftarrow> (if args = [] then java_field j message vm else Some (VNull, vm));
            if field \<noteq> VNull then do { v \<leftarrow> dereference_value (vm_heap vm) field; answer v vm }
            else kind_method H run a j message method args vm } }"

subsection \<open>Methods of strings\<close>

definition is_blank :: "char \<Rightarrow> bool" where
  "is_blank c \<longleftrightarrow> (of_char c :: nat) \<le> 32"

definition trim_blanks :: "string \<Rightarrow> string" where
  "trim_blanks s = rev (dropWhile is_blank (rev (dropWhile is_blank s)))"

definition string_method :: "host \<Rightarrow> string \<Rightarrow> string \<Rightarrow> slp_value list \<Rightarrow> vm \<Rightarrow> method_answer" where
  "string_method H s method args vm =
     (if method = ''getClass'' \<and> args = [] then
        do { (p, vm) \<leftarrow> slp_vm_new_class (h_sizes H) (h_alloc H) ''java.lang.String'' vm; answer_object p vm }
      else if method = ''length'' \<and> args = [] then answer (number_of (int (length s))) vm
      else if method = ''trim'' \<and> args = [] then
        do { (p, vm) \<leftarrow> copy_text H (trim_blanks s) vm; answer (ptr_value p) vm }
      else if method = ''equals'' \<and> length args = 1 then
        do { other \<leftarrow> dereference_value (vm_heap vm) (args ! 0);
             t \<leftarrow> name_chars (vm_heap vm) other;
             answer (number_of (if t = Some s then 1 else 0)) vm }
      else if method = ''substring'' \<and> (length args = 1 \<or> length args = 2) then
        do { w \<leftarrow> numeric_int_value (vm_heap vm) (args ! 0);
             let first = sint w;
             let size = sint (word_of_nat (length s) :: u32);
             stop \<leftarrow> (if length args = 2 then map_option sint (numeric_int_value (vm_heap vm) (args ! 1)) else Some size);
             if first < 0 \<or> stop < first \<or> size < stop then no_method vm
             else do { (p, vm) \<leftarrow> copy_text H (take (nat (stop - first)) (drop (nat first) s)) vm; answer (ptr_value p) vm } }
      else no_method vm)"

definition call_builtin_object_method :: "host \<Rightarrow> vm_run \<Rightarrow> nat \<Rightarrow> vm \<Rightarrow> method_answer" where
  "call_builtin_object_method H run arg_count vm =
     (if length (vm_stack vm) < arg_count + 2 then None
      else do {
        let base = length (vm_stack vm) - arg_count - 2;
        target \<leftarrow> dereference_value (vm_heap vm) (vm_stack vm ! base);
        message \<leftarrow> dereference_value (vm_heap vm) (vm_stack vm ! (base + 1));
        let args = drop (base + 2) (vm_stack vm);
        name \<leftarrow> name_chars (vm_heap vm) message;
        (case name of
           None \<Rightarrow> no_method vm
         | Some name \<Rightarrow>
             let method = c_text name
             in do { ob \<leftarrow> object_of (vm_heap vm) target;
                     (case (target, ob) of
                        (VNull, _) \<Rightarrow> construct_object H method args vm
                      | (VObj a, Some (OClass _)) \<Rightarrow> class_method H a message method args vm
                      | (VObj a, Some (OJava _)) \<Rightarrow> java_method H run a message method args vm
                      | (VObj a, Some (OString s)) \<Rightarrow> string_method H (s_chars s) method args vm
                      | _ \<Rightarrow> no_method vm) }) })"

end
