(* ===== verification/VM_Predicates.thy ===== *)
theory VM_Predicates
  imports VM_Methods
begin

text \<open>
  The predicates of scripts (\<^verbatim>\<open>src/slp_vm.c\<close>): the Java class a value stands for, the texts that string
  comparisons work on, and the bodies of \<open>OP_MATCH\<close>, \<open>OP_UNARY_PREDICATE\<close> and \<open>OP_BINARY_PREDICATE\<close> from
  the popped operands to the answer. Letters are those of the C locale; the file tests are the host's.
\<close>

subsection \<open>Classes of values\<close>

definition value_java_class_name :: "heap \<Rightarrow> slp_value \<Rightarrow> string option option" where
  "value_java_class_name h v =
     do { v \<leftarrow> dereference_value h v;
          v \<leftarrow> slp_value_unwrap_taint h v;
          (case v of
             VNull \<Rightarrow> Some None
           | VBool b \<Rightarrow> Some (if b then Some ''java.lang.Integer'' else None)
           | VNum _ \<Rightarrow> Some (Some ''java.lang.Integer'')
           | VObj a \<Rightarrow>
               do { ob \<leftarrow> h a;
                    (case ob of
                       OString _ \<Rightarrow> Some (Some ''java.lang.String'')
                     | OClass _ \<Rightarrow> Some (Some ''java.lang.Class'')
                     | OJava j \<Rightarrow> do { c \<leftarrow> jo_class j; map_option Some (class_name h c) }
                     | OLong _ \<Rightarrow> Some (Some ''java.lang.Long'')
                     | ODouble _ \<Rightarrow> Some (Some ''java.lang.Double'')
                     | OArray _ \<Rightarrow> Some (Some ''sleep.engine.types.ListContainer'')
                     | OHash r \<Rightarrow> Some (Some (if ha_order_mode r = 0 then ''sleep.engine.types.HashContainer''
                                               else ''sleep.engine.types.OrderedHashContainer''))
                     | OClosure _ \<Rightarrow> Some (Some ''sleep.bridges.SleepClosure'')
                     | OIOHandle _ \<Rightarrow> Some (Some ''sleep.bridges.io.IOObject'')
                     | _ \<Rightarrow> Some (Some ''java.lang.Object'')) }) }"

definition class_name_is_instance :: "string \<Rightarrow> string option \<Rightarrow> bool" where
  "class_name_is_instance target actual =
     (case actual of
        None \<Rightarrow> False
      | Some actual \<Rightarrow>
          if target = actual then True
          else if target = ''java.lang.Object'' then True
          else if target = ''java.lang.Number'' then
            List.member [''java.lang.Integer'', ''java.lang.Long'', ''java.lang.Double'', ''java.lang.Float'', ''java.lang.Short'',
              ''java.lang.Byte''] actual
          else if target = ''java.lang.CharSequence'' then actual = ''java.lang.String''
          else if List.member [''java.util.List'', ''java.util.Collection'', ''java.lang.Iterable''] target then
            List.member [''java.util.LinkedList'', ''java.util.ArrayList''] actual
          else if List.member [''java.util.Queue'', ''java.util.Deque''] target then actual = ''java.util.LinkedList''
          else if target = ''java.util.Map'' then List.member [''java.util.HashMap'', ''java.util.LinkedHashMap''] actual
          else if target = ''sleep.runtime.ScalarArray'' then
            List.member [''sleep.engine.types.ListContainer'', ''sleep.runtime.CollectionWrapper''] actual
          else if target = ''sleep.runtime.ScalarHash'' then
            List.member [''sleep.engine.types.HashContainer'', ''sleep.engine.types.OrderedHashContainer''] actual
          else False)"

definition invalid_cast_source_class :: "heap \<Rightarrow> slp_value \<Rightarrow> string option" where
  "invalid_cast_source_class h v = map_option (\<lambda>n. case n of None \<Rightarrow> ''null'' | Some n \<Rightarrow> n) (value_java_class_name h v)"

subsection \<open>Texts\<close>

text \<open>The text a value is compared by; texts printed into the buffer of 64 characters are cut.\<close>

definition get_string_repr :: "host \<Rightarrow> heap \<Rightarrow> slp_value \<Rightarrow> string option" where
  "get_string_repr H h v =
     do { v \<leftarrow> slp_value_unwrap_taint h v;
          (case v of
             VNull \<Rightarrow> Some []
           | VBool b \<Rightarrow> Some (if b then ''true'' else ''false'')
           | VNum d \<Rightarrow> Some (take 63 (format_sleep_number d))
           | VObj a \<Rightarrow>
               do { ob \<leftarrow> h a;
                    (case ob of
                       OString s \<Rightarrow> Some (s_chars s)
                     | OLong w \<Rightarrow> Some (dec_int (sint w))
                     | ODouble d \<Rightarrow> Some (take 63 (format_sleep_double d))
                     | OClass c \<Rightarrow>
                         do { n \<leftarrow> chars_of h (cl_name c);
                              Some (take 63 ((if cl_is_interface c then ''interface'' else ''class'') @ '' '' @
                                (case n of None \<Rightarrow> [] | Some n \<Rightarrow> n))) }
                     | _ \<Rightarrow> Some (take 63 (h_object_text H a))) }) }"

text \<open>The sign of \<open>strcmp\<close>: unsigned characters, up to the NUL.\<close>

fun text_order :: "string \<Rightarrow> string \<Rightarrow> int" where
  "text_order [] [] = 0"
| "text_order [] (d # ds) = - 1"
| "text_order (c # cs) [] = 1"
| "text_order (c # cs) (d # ds) =
     (if c = d then text_order cs ds else if (of_char c :: nat) < of_char d then - 1 else 1)"

definition c_strcmp :: "string \<Rightarrow> string \<Rightarrow> int" where
  "c_strcmp s t = text_order (c_text s) (c_text t)"

fun has_infix :: "string \<Rightarrow> string \<Rightarrow> bool" where
  "has_infix needle [] = (needle = [])"
| "has_infix needle (c # cs) = (take (length needle) (c # cs) = needle \<or> has_infix needle cs)"

definition c_strstr :: "string \<Rightarrow> string \<Rightarrow> bool" where
  "c_strstr haystack needle = has_infix (c_text needle) (c_text haystack)"

definition c_isupper :: "char \<Rightarrow> bool" where
  "c_isupper c = char_in (CHR ''A'') (CHR ''Z'') c"

definition c_islower :: "char \<Rightarrow> bool" where
  "c_islower c = char_in (CHR ''a'') (CHR ''z'') c"

definition c_isalpha :: "char \<Rightarrow> bool" where
  "c_isalpha c \<longleftrightarrow> c_isupper c \<or> c_islower c"

definition letters_all :: "(char \<Rightarrow> bool) \<Rightarrow> string option \<Rightarrow> bool" where
  "letters_all ok s = (case s of None \<Rightarrow> False | Some s \<Rightarrow> c_text s \<noteq> [] \<and> list_all ok (c_text s))"

subsection \<open>Unary predicates\<close>

definition file_tests :: "string list" where
  "file_tests = [''-exists'', ''-isdir'', ''-isDir'', ''-isfile'', ''-isFile'', ''-canread'', ''-canwrite'', ''-canexecute'']"

text \<open>None for an unknown predicate.\<close>

definition unary_predicate :: "host \<Rightarrow> string \<Rightarrow> heap \<Rightarrow> slp_value \<Rightarrow> bool option option" where
  "unary_predicate H name h v =
     do { ob \<leftarrow> object_of h v;
          s \<leftarrow> name_chars h v;
          if name = ''-istrue'' then map_option (\<lambda>f. Some (\<not> f)) (slp_value_is_falsy h v)
          else if name = ''-isarray'' then Some (Some (case ob of Some (OArray _) \<Rightarrow> True | _ \<Rightarrow> False))
          else if name = ''-ishash'' then Some (Some (case ob of Some (OHash _) \<Rightarrow> True | _ \<Rightarrow> False))
          else if name = ''-isnumber'' then
            Some (Some (case v of VNum _ \<Rightarrow> True
                                | _ \<Rightarrow> (case ob of Some (OLong _) \<Rightarrow> True | Some (ODouble _) \<Rightarrow> True | _ \<Rightarrow> False)))
          else if name = ''-isfunction'' \<or> name = ''-isclosure'' then
            Some (Some (case ob of Some (OClosure _) \<Rightarrow> True | _ \<Rightarrow> False))
          else if List.member file_tests name then
            Some (Some (case s of None \<Rightarrow> False | Some path \<Rightarrow> h_file_test H name (c_text path)))
          else if name = ''-isstring'' then Some (Some (s \<noteq> None))
          else if name = ''-isnull'' then Some (Some (v = VNull))
          else if name = ''-isboolean'' \<or> name = ''-isbool'' then Some (Some (case v of VBool _ \<Rightarrow> True | _ \<Rightarrow> False))
          else if name = ''-islong'' then Some (Some (case ob of Some (OLong _) \<Rightarrow> True | _ \<Rightarrow> False))
          else if name = ''-isupper'' then Some (Some (letters_all (\<lambda>c. \<not> c_isalpha c \<or> c_isupper c) s))
          else if name = ''-islower'' then Some (Some (letters_all (\<lambda>c. \<not> c_isalpha c \<or> c_islower c) s))
          else if name = ''-isletter'' then Some (Some (letters_all c_isalpha s))
          else if name = ''-istainted'' then map_option Some (slp_value_is_tainted h v)
          else if name = ''-eof'' then Some (Some (case ob of Some (OIOHandle io) \<Rightarrow> io_is_eof io | _ \<Rightarrow> False))
          else Some None }"

text \<open>The operation on a popped value: its answer.\<close>

definition test_unary :: "host \<Rightarrow> string \<Rightarrow> slp_value \<Rightarrow> vm \<Rightarrow> (bool \<times> vm) option" where
  "test_unary H name v vm =
     do { result \<leftarrow> unary_predicate H name (vm_heap vm) v;
          (case result of
             None \<Rightarrow> Some (False, slp_vm_warning (take 255 (''Attempted to use non-existent predicate: '' @ name)) vm)
           | Some b \<Rightarrow> do { vm \<leftarrow> trace_unary_predicate H name v b vm; Some (b, vm) }) }"

subsection \<open>Binary predicates\<close>

fun any_equal :: "heap \<Rightarrow> slp_value list \<Rightarrow> slp_value \<Rightarrow> bool option" where
  "any_equal h [] v = Some False"
| "any_equal h (w # ws) v = do { e \<leftarrow> slp_value_equals h w v; if e then Some True else any_equal h ws v }"

fun any_class_named :: "heap \<Rightarrow> slp_value list \<Rightarrow> string \<Rightarrow> bool option" where
  "any_class_named h [] name = Some False"
| "any_class_named h (v # vs) name =
     do { ob \<leftarrow> object_of h v;
          found \<leftarrow> (case (v, ob) of (VObj a, Some (OClass _)) \<Rightarrow> map_option (\<lambda>n. n = name) (class_name h a) | _ \<Rightarrow> Some False);
          if found then Some True else any_class_named h vs name }"

definition is_in :: "host \<Rightarrow> slp_value \<Rightarrow> slp_value \<Rightarrow> vm \<Rightarrow> (bool \<times> vm) option" where
  "is_in H left right vm =
     do { ob \<leftarrow> object_of (vm_heap vm) right;
          (case (right, ob) of
             (VObj a, Some (OArray _)) \<Rightarrow>
               do { vs \<leftarrow> array_items (vm_heap vm) a; found \<leftarrow> any_equal (vm_heap vm) vs left; Some (found, vm) }
           | (VObj a, Some (OHash _)) \<Rightarrow> slp_vm_hash_contains (h_sizes H) (h_alloc H) (Some a) left vm
           | (VObj a, Some (OString s)) \<Rightarrow>
               do { t \<leftarrow> name_chars (vm_heap vm) left;
                    Some (case t of None \<Rightarrow> False | Some t \<Rightarrow> c_strstr (s_chars s) t, vm) }
           | _ \<Rightarrow> Some (False, vm)) }"

text \<open>The answer and whether it is traced.\<close>

definition is_a :: "slp_value \<Rightarrow> slp_value \<Rightarrow> vm \<Rightarrow> ((bool \<times> bool) \<times> vm) option" where
  "is_a left right vm =
     do { class_ob \<leftarrow> object_of (vm_heap vm) right;
          (case (right, class_ob) of
             (VObj c, Some (OClass _)) \<Rightarrow>
               do { target \<leftarrow> class_name (vm_heap vm) c;
                    ob \<leftarrow> object_of (vm_heap vm) left;
                    proxied \<leftarrow> Some (case ob of
                                 Some (OJava j) \<Rightarrow> if jo_kind j = JAVA_PROXY then jo_list j else None
                               | _ \<Rightarrow> None);
                    result \<leftarrow> (case proxied of
                              Some l \<Rightarrow> do { vs \<leftarrow> array_items (vm_heap vm) l;
                                            found \<leftarrow> any_class_named (vm_heap vm) vs target;
                                            Some (found \<or> target = ''java.lang.Object'') }
                            | None \<Rightarrow> do { actual \<leftarrow> value_java_class_name (vm_heap vm) left;
                                          Some (class_name_is_instance target actual) });
                    Some ((result, True), vm) }
           | _ \<Rightarrow>
               do { source \<leftarrow> invalid_cast_source_class (vm_heap vm) right;
                    Some ((False, False), slp_vm_abort_warning
                      (take 319 (''attempted an invalid cast: '' @ source @ '' cannot be cast to java.lang.Class'')) vm) }) }"

text \<open>The text operators apply a test to the two texts.\<close>

definition compare_texts :: "host \<Rightarrow> (string \<Rightarrow> string \<Rightarrow> bool) \<Rightarrow> slp_value \<Rightarrow> slp_value \<Rightarrow> vm \<Rightarrow> ((bool \<times> bool) \<times> vm) option" where
  "compare_texts H test left right vm =
     do { s \<leftarrow> get_string_repr H (vm_heap vm) left;
          t \<leftarrow> get_string_repr H (vm_heap vm) right;
          Some ((test s t, True), vm) }"

definition regex_predicate :: "host \<Rightarrow> string \<Rightarrow> slp_value \<Rightarrow> slp_value \<Rightarrow> vm \<Rightarrow> ((bool \<times> bool) \<times> vm) option" where
  "regex_predicate H name left right vm =
     do { s \<leftarrow> name_chars (vm_heap vm) left;
          t \<leftarrow> name_chars (vm_heap vm) right;
          (case (left, right, s, t) of
             (VObj text, VObj pattern, Some s, Some t) \<Rightarrow>
               if name = ''hasmatch'' then do { (b, vm) \<leftarrow> regex_hasmatch H text pattern vm; Some ((b, True), vm) }
               else do { (first, _, vm) \<leftarrow> slp_vm_regex_find H s t 0 True vm; Some ((0 \<le> first, True), vm) }
           | _ \<Rightarrow> do { vm \<leftarrow> set_regex_matches None vm; Some ((False, True), vm) }) }"

definition binary_predicate :: "host \<Rightarrow> string \<Rightarrow> slp_value \<Rightarrow> slp_value \<Rightarrow> vm \<Rightarrow> ((bool \<times> bool) \<times> vm) option" where
  "binary_predicate H name left right vm =
     (if name = ''is'' then do { b \<leftarrow> slp_value_identity_equals (vm_heap vm) left right; Some ((b, True), vm) }
      else if name = ''eq'' then compare_texts H (\<lambda>s t. s = t) left right vm
      else if name = ''ne'' then compare_texts H (\<lambda>s t. s \<noteq> t) left right vm
      else if name = ''isin'' then compare_texts H (\<lambda>s t. c_strstr t s) left right vm
      else if name = ''ismatch'' \<or> name = ''hasmatch'' then regex_predicate H name left right vm
      else if name = ''iswm'' then
        do { s \<leftarrow> name_chars (vm_heap vm) left;
             t \<leftarrow> name_chars (vm_heap vm) right;
             Some ((case (s, t) of (Some s, Some t) \<Rightarrow> match_wildcard (c_text t) (c_text s) | _ \<Rightarrow> False, True), vm) }
      else if name = ''in'' then do { (b, vm) \<leftarrow> is_in H left right vm; Some ((b, True), vm) }
      else if name = ''isa'' then is_a left right vm
      else if name = ''lt'' then compare_texts H (\<lambda>s t. c_strcmp s t < 0) left right vm
      else if name = ''gt'' then compare_texts H (\<lambda>s t. 0 < c_strcmp s t) left right vm
      else if name = ''ge'' then compare_texts H (\<lambda>s t. 0 \<le> c_strcmp s t) left right vm
      else if name = ''le'' then compare_texts H (\<lambda>s t. c_strcmp s t \<le> 0) left right vm
      else Some ((False, True), vm))"

text \<open>The operation on two popped values; \<open>cmp\<close> has a number as its answer and is neither negated nor traced.\<close>

definition test_binary :: "host \<Rightarrow> string \<Rightarrow> bool \<Rightarrow> slp_value \<Rightarrow> slp_value \<Rightarrow> vm \<Rightarrow> (slp_value \<times> vm) option" where
  "test_binary H name negated left right vm =
     (if name = ''cmp'' then
        do { s \<leftarrow> get_string_repr H (vm_heap vm) left;
             t \<leftarrow> get_string_repr H (vm_heap vm) right;
             Some (number_of (c_strcmp s t), vm) }
      else do {
        ((result, traced), vm) \<leftarrow> binary_predicate H name left right vm;
        let result = (if negated then \<not> result else result);
        vm \<leftarrow> (if traced then trace_binary_predicate H left (if negated then take 259 (CHR ''!'' # name) else name) right result vm
              else Some vm);
        Some (VBool result, vm) })"

definition test_match :: "host \<Rightarrow> bool \<Rightarrow> slp_value \<Rightarrow> slp_value \<Rightarrow> vm \<Rightarrow> (slp_value \<times> vm) option" where
  "test_match H negated left right vm =
     do { s \<leftarrow> name_chars (vm_heap vm) left;
          t \<leftarrow> name_chars (vm_heap vm) right;
          (found, vm) \<leftarrow>
            (case (s, t) of
               (Some s, Some t) \<Rightarrow>
                 if c_text t = [] then
                   (if c_text s = [] then do { (p, vm) \<leftarrow> new_array H vm; vm \<leftarrow> set_regex_matches p vm; Some (True, vm) }
                    else do { vm \<leftarrow> set_regex_matches None vm; Some (False, vm) })
                 else do { (first, _, vm) \<leftarrow> slp_vm_regex_find H s t 0 False vm; Some (0 \<le> first, vm) }
             | _ \<Rightarrow> Some (False, vm));
          let result = (if negated then \<not> found else found);
          vm \<leftarrow> trace_binary_predicate H left (if negated then ''!=~'' else ''=~'') right result vm;
          Some (VBool result, vm) }"

end
