(* ===== verification/VM_Instructions.thy ===== *)
theory VM_Instructions
  imports VM_Predicates
begin

text \<open>
  The instructions of the machine that stay within a frame (\<^verbatim>\<open>src/slp_vm.c\<close>, \<open>slp_vm_call\<close>): constants,
  the stack, variables, operators, comparisons, predicates, jumps, collections. An instruction proceeds to
  the next one or stops the loop with a result. Operands are read through the frame's instruction pointer;
  a read outside the code or the constants is undefined.
\<close>

datatype outcome = Proceed | Stop slp_result

type_synonym step_result = "(outcome \<times> vm) option"

definition proceed :: "vm \<Rightarrow> step_result" where
  "proceed vm = Some (Proceed, vm)"

definition stop :: "slp_result \<Rightarrow> vm \<Rightarrow> step_result" where
  "stop r vm = Some (Stop r, vm)"

definition stop_error :: "string \<Rightarrow> vm \<Rightarrow> step_result" where
  "stop_error msg vm = stop SLP_RUNTIME_ERROR (slp_vm_runtime_error msg vm)"

definition push_next :: "slp_value \<Rightarrow> vm \<Rightarrow> step_result" where
  "push_next v vm = proceed (slp_vm_push v vm)"

subsection \<open>Operands\<close>

definition running_chunk :: "vm \<Rightarrow> chunk option" where
  "running_chunk vm = do { f \<leftarrow> current_frame vm; frame_chunk (vm_heap vm) f }"

definition read_byte :: "vm \<Rightarrow> (byte \<times> vm) option" where
  "read_byte vm =
     do { f \<leftarrow> current_frame vm;
          ck \<leftarrow> running_chunk vm;
          if length (ck_code ck) \<le> cf_ip f then None
          else do { vm \<leftarrow> update_frame (\<lambda>f. f\<lparr>cf_ip := cf_ip f + 1\<rparr>) vm; Some (ck_code ck ! cf_ip f, vm) } }"

definition read_short :: "vm \<Rightarrow> (u16 \<times> vm) option" where
  "read_short vm =
     do { f \<leftarrow> current_frame vm;
          ck \<leftarrow> running_chunk vm;
          w \<leftarrow> slp_chunk_read_short ck (cf_ip f);
          vm \<leftarrow> update_frame (\<lambda>f. f\<lparr>cf_ip := cf_ip f + 2\<rparr>) vm;
          Some (w, vm) }"

definition constant_at :: "u16 \<Rightarrow> vm \<Rightarrow> slp_value option" where
  "constant_at i vm =
     do { ck \<leftarrow> running_chunk vm; if unat i < length (ck_constants ck) then Some (ck_constants ck ! unat i) else None }"

definition read_constant :: "vm \<Rightarrow> (slp_value \<times> vm) option" where
  "read_constant vm = do { (i, vm) \<leftarrow> read_short vm; v \<leftarrow> constant_at i vm; Some (v, vm) }"

definition string_constant :: "u16 \<Rightarrow> vm \<Rightarrow> (addr \<times> string) option" where
  "string_constant i vm =
     do { v \<leftarrow> constant_at i vm;
          (case v of VObj a \<Rightarrow> map_option (\<lambda>s. (a, s_chars s)) (get_string (vm_heap vm) a) | _ \<Rightarrow> None) }"

definition jump_by :: "int \<Rightarrow> vm \<Rightarrow> vm option" where
  "jump_by offset vm =
     do { f \<leftarrow> current_frame vm;
          if int (cf_ip f) + offset < 0 then None else update_frame (\<lambda>f. f\<lparr>cf_ip := nat (int (cf_ip f) + offset)\<rparr>) vm }"

definition pop2 :: "vm \<Rightarrow> slp_value \<times> slp_value \<times> vm" where
  "pop2 vm = (let (b, vm) = slp_vm_pop vm; (a, vm) = slp_vm_pop vm in (a, b, vm))"

subsection \<open>Locals, scoped variables and upvalues\<close>

definition local_place :: "nat \<Rightarrow> vm \<Rightarrow> place option" where
  "local_place i vm = map_option (\<lambda>f. Stack_at (cf_slots f + i)) (current_frame vm)"

definition upvalue_at :: "byte \<Rightarrow> vm \<Rightarrow> place option" where
  "upvalue_at i vm =
     do { f \<leftarrow> current_frame vm; a \<leftarrow> cf_closure f; c \<leftarrow> get_closure (vm_heap vm) a;
          if unat i < length (co_upvalues c) then do { u \<leftarrow> co_upvalues c ! unat i; upvalue_place (vm_heap vm) u } else None }"

definition load_place :: "place \<Rightarrow> vm \<Rightarrow> step_result" where
  "load_place p vm = do { v \<leftarrow> read_place p vm; v \<leftarrow> dereference_value (vm_heap vm) v; push_next v vm }"

definition store_place :: "host \<Rightarrow> place \<Rightarrow> vm \<Rightarrow> step_result" where
  "store_place H p vm = do { v \<leftarrow> slp_vm_peek 0 vm; vm \<leftarrow> slot_assign H p v vm; proceed vm }"

definition reference_place :: "host \<Rightarrow> place \<Rightarrow> vm \<Rightarrow> step_result" where
  "reference_place H p vm = do { (v, vm) \<leftarrow> slot_reference H p vm; push_next v vm }"

definition exec_local :: "host \<Rightarrow> byte \<Rightarrow> vm \<Rightarrow> step_result" where
  "exec_local H opcode vm =
     (if opcode < OP_STORE_LOCAL_0 then
        do { p \<leftarrow> local_place (unat (opcode - OP_LOAD_LOCAL_0)) vm; load_place p vm }
      else if opcode < OP_LOAD_LOCAL then
        do { p \<leftarrow> local_place (unat (opcode - OP_STORE_LOCAL_0)) vm; store_place H p vm }
      else do { (i, vm) \<leftarrow> read_byte vm;
                p \<leftarrow> local_place (unat i) vm;
                if opcode = OP_LOAD_LOCAL then load_place p vm
                else if opcode = OP_STORE_LOCAL then store_place H p vm
                else reference_place H p vm })"

definition exec_scoped :: "host \<Rightarrow> byte \<Rightarrow> vm \<Rightarrow> step_result" where
  "exec_scoped H opcode vm =
     do { (name, vm) \<leftarrow> read_constant vm;
          if opcode = OP_LOAD_GLOBAL then do { (v, vm) \<leftarrow> load_variable H name vm; push_next v vm }
          else if opcode = OP_STORE_GLOBAL then
            do { v \<leftarrow> slp_vm_peek 0 vm; vm \<leftarrow> store_variable H name v vm; proceed vm }
          else if opcode = OP_STORE_CATCH then
            do { v \<leftarrow> slp_vm_peek 0 vm; vm \<leftarrow> scoped_variable_set H name v vm; proceed vm }
          else if opcode = OP_REFERENCE_GLOBAL then do { (v, vm) \<leftarrow> reference_global H name vm; push_next v vm }
          else do { g \<leftarrow> vm_globals vm; (v, vm) \<leftarrow> hash_get_at g name vm; push_next v vm } }"

definition exec_upvalue :: "host \<Rightarrow> byte \<Rightarrow> vm \<Rightarrow> step_result" where
  "exec_upvalue H opcode vm =
     do { (i, vm) \<leftarrow> read_byte vm;
          p \<leftarrow> upvalue_at i vm;
          if opcode = OP_LOAD_UPVALUE then load_place p vm
          else if opcode = OP_STORE_UPVALUE then store_place H p vm
          else reference_place H p vm }"

subsection \<open>Operators\<close>

text \<open>An operator on the two popped values; without a value it has reported an error.\<close>

type_synonym operator = "slp_value \<Rightarrow> slp_value \<Rightarrow> vm \<Rightarrow> (slp_value option \<times> vm) option"

definition tainting :: "host \<Rightarrow> operator \<Rightarrow> vm \<Rightarrow> step_result" where
  "tainting H f vm =
     (let (a, b, vm) = pop2 vm
      in do { (r, vm) \<leftarrow> f a b vm;
              (case r of
                 None \<Rightarrow> stop SLP_RUNTIME_ERROR vm
               | Some v \<Rightarrow> do { (v, vm) \<leftarrow> propagate_taint_binary (h_sizes H) (h_alloc H) v a b vm; push_next v vm }) })"

definition plain :: "operator \<Rightarrow> vm \<Rightarrow> step_result" where
  "plain f vm =
     (let (a, b, vm) = pop2 vm
      in do { (r, vm) \<leftarrow> f a b vm; (case r of None \<Rightarrow> stop SLP_RUNTIME_ERROR vm | Some v \<Rightarrow> push_next v vm) })"

definition at_kind :: "(numeric_kind \<Rightarrow> operator) \<Rightarrow> operator" where
  "at_kind f a b vm = do { kind \<leftarrow> widest_numeric_kind (vm_heap vm) a b; f kind a b vm }"

text \<open>The C remainder; the one overflowing quotient is undefined.\<close>

definition c_mod :: "'a::len word \<Rightarrow> 'a word \<Rightarrow> 'a word option" where
  "c_mod x y =
     (if sint x = - (2 ^ (LENGTH('a) - 1)) \<and> sint y = - 1 then None
      else Some (word_of_int (let r = \<bar>sint x\<bar> mod \<bar>sint y\<bar> in if sint x < 0 then - r else r)))"

definition modulo :: "host \<Rightarrow> numeric_kind \<Rightarrow> operator" where
  "modulo H kind a b vm =
     (let zero = Some (None, slp_vm_runtime_error ''Modulo by zero.'' vm)
      in (case kind of
            NUMERIC_DOUBLE \<Rightarrow>
              do { d \<leftarrow> slp_value_as_number (vm_heap vm) b;
                   if f_eq d (f_of_int 0) then zero
                   else do { x \<leftarrow> slp_value_as_number (vm_heap vm) a;
                             (v, vm) \<leftarrow> make_double_value (h_sizes H) (h_alloc H) (h_fmod H x d) vm;
                             Some (Some v, vm) } }
          | NUMERIC_LONG \<Rightarrow>
              do { d \<leftarrow> numeric_long_value (vm_heap vm) b;
                   if d = 0 then zero
                   else do { x \<leftarrow> numeric_long_value (vm_heap vm) a;
                             r \<leftarrow> c_mod x d;
                             (v, vm) \<leftarrow> make_long_value (h_sizes H) (h_alloc H) r vm;
                             Some (Some v, vm) } }
          | NUMERIC_INT \<Rightarrow>
              do { d \<leftarrow> numeric_int_value (vm_heap vm) b;
                   if d = 0 then zero
                   else do { x \<leftarrow> numeric_int_value (vm_heap vm) a; r \<leftarrow> c_mod x d; Some (Some (int_value r), vm) } }))"

definition power :: "host \<Rightarrow> operator" where
  "power H a b vm =
     do { x \<leftarrow> slp_value_as_number (vm_heap vm) a;
          y \<leftarrow> slp_value_as_number (vm_heap vm) b;
          (v, vm) \<leftarrow> make_double_value (h_sizes H) (h_alloc H) (h_pow H x y) vm;
          Some (Some v, vm) }"

text \<open>The result of a concatenation is not tested, unlike that of a compound assignment.\<close>

definition concatenate :: "host \<Rightarrow> operator" where
  "concatenate H a b vm =
     do { (l, vm) \<leftarrow> stringify H a vm;
          (r, vm) \<leftarrow> stringify H b vm;
          (case (l, r) of
             (Some l, Some r) \<Rightarrow>
               do { s \<leftarrow> get_string (vm_heap vm) l;
                    t \<leftarrow> get_string (vm_heap vm) r;
                    if 2 ^ 32 \<le> length (s_chars s) + length (s_chars t) then None
                    else do { (p, vm) \<leftarrow> copy_text H (s_chars s @ s_chars t) vm; Some (Some (ptr_value p), vm) } }
           | _ \<Rightarrow> Some (None, slp_vm_runtime_error ''Out of memory.'' vm)) }"

text \<open>A negative width aligns to the right.\<close>

definition align :: "host \<Rightarrow> operator" where
  "align H w v vm =
     do { width \<leftarrow> numeric_int_value (vm_heap vm) w;
          (p, vm) \<leftarrow> stringify H v vm;
          (case p of
             None \<Rightarrow> Some (None, slp_vm_runtime_error ''Out of memory.'' vm)
           | Some a \<Rightarrow>
               do { s \<leftarrow> get_string (vm_heap vm) a;
                    let padding = replicate (nat (\<bar>sint width\<bar> - int (length (s_chars s)))) CHR '' '';
                    if padding = [] then Some (Some (VObj a), vm)
                    else do { (q, vm) \<leftarrow> copy_text H (if sint width < 0 then padding @ s_chars s else s_chars s @ padding) vm;
                              Some (case q of
                                      None \<Rightarrow> (None, slp_vm_runtime_error ''Out of memory.'' vm)
                                    | Some q \<Rightarrow> (Some (VObj q), vm)) } }) }"

text \<open>The product of the lengths is computed with 64 bits and tested by a division.\<close>

definition repeat_text :: "host \<Rightarrow> operator" where
  "repeat_text H a b vm =
     do { (p, vm) \<leftarrow> stringify H a vm;
          d \<leftarrow> slp_value_as_number (vm_heap vm) b;
          w \<leftarrow> to_int64 d;
          (case p of
             None \<Rightarrow> Some (None, slp_vm_runtime_error ''Out of memory.'' vm)
           | Some a \<Rightarrow>
               do { s \<leftarrow> get_string (vm_heap vm) a;
                    let total = word_of_nat (length (s_chars s)) * w;
                    if sint w \<le> 0 \<or> s_chars s = [] then do { (q, vm) \<leftarrow> copy_text H [] vm; Some (Some (ptr_value q), vm) }
                    else if 2 ^ 32 \<le> unat total \<or> unat total div unat w \<noteq> length (s_chars s)
                    then Some (None, slp_vm_runtime_error ''Repeated string is too large.'' vm)
                    else do { (q, vm) \<leftarrow> copy_text H (concat (replicate (unat w) (s_chars s))) vm;
                              Some (Some (ptr_value q), vm) } }) }"

text \<open>Bit operators, shifts and steps do not pass the taint of an operand on.\<close>

definition exec_arith :: "host \<Rightarrow> byte \<Rightarrow> vm \<Rightarrow> step_result" where
  "exec_arith H opcode vm =
     (if opcode = OP_ADD then tainting H (at_kind (arith (h_sizes H) (h_alloc H) f_add (+) (+))) vm
      else if opcode = OP_SUBTRACT then tainting H (at_kind (arith (h_sizes H) (h_alloc H) f_sub (-) (-))) vm
      else if opcode = OP_MULTIPLY then tainting H (at_kind (arith (h_sizes H) (h_alloc H) f_mul (*) (*))) vm
      else if opcode = OP_DIVIDE then tainting H (at_kind (divide (h_sizes H) (h_alloc H))) vm
      else if opcode = OP_MODULO then tainting H (at_kind (modulo H)) vm
      else if opcode = OP_POWER then tainting H (power H) vm
      else if opcode = OP_CONCAT then tainting H (concatenate H) vm
      else if opcode = OP_ALIGN then plain (align H) vm
      else plain (repeat_text H) vm)"

definition exec_bits :: "host \<Rightarrow> byte \<Rightarrow> vm \<Rightarrow> step_result" where
  "exec_bits H opcode vm =
     (if opcode = OP_BIT_AND then plain (at_kind (bitwise (h_sizes H) (h_alloc H) and and)) vm
      else if opcode = OP_BIT_OR then plain (at_kind (bitwise (h_sizes H) (h_alloc H) or or)) vm
      else if opcode = OP_BIT_XOR then plain (at_kind (bitwise (h_sizes H) (h_alloc H) xor xor)) vm
      else if opcode = OP_LSHIFT then plain (shift (h_sizes H) (h_alloc H) push_bit push_bit) vm
      else plain (shift (h_sizes H) (h_alloc H) signed_drop_bit signed_drop_bit) vm)"

text \<open>An operator on one value, at the width of its kind.\<close>

definition unary_arith :: "host \<Rightarrow> (f64 \<Rightarrow> f64) \<Rightarrow> (u64 \<Rightarrow> u64) \<Rightarrow> (u32 \<Rightarrow> u32) \<Rightarrow> slp_value \<Rightarrow> vm \<Rightarrow> (slp_value \<times> vm) option" where
  "unary_arith H fop lop iop v vm =
     do { kind \<leftarrow> numeric_kind_of (vm_heap vm) v;
          (case kind of
             NUMERIC_DOUBLE \<Rightarrow> do { d \<leftarrow> slp_value_as_number (vm_heap vm) v; make_double_value (h_sizes H) (h_alloc H) (fop d) vm }
           | NUMERIC_LONG \<Rightarrow> do { w \<leftarrow> numeric_long_value (vm_heap vm) v; make_long_value (h_sizes H) (h_alloc H) (lop w) vm }
           | NUMERIC_INT \<Rightarrow> do { w \<leftarrow> numeric_int_value (vm_heap vm) v; Some (int_value (iop w), vm) }) }"

definition bit_not :: "host \<Rightarrow> slp_value \<Rightarrow> vm \<Rightarrow> (slp_value \<times> vm) option" where
  "bit_not H v vm =
     do { kind \<leftarrow> numeric_kind_of (vm_heap vm) v;
          if kind = NUMERIC_LONG
          then do { w \<leftarrow> numeric_long_value (vm_heap vm) v; make_long_value (h_sizes H) (h_alloc H) (not w) vm }
          else do { w \<leftarrow> numeric_int_value (vm_heap vm) v; Some (int_value (not w), vm) } }"

definition exec_unary :: "host \<Rightarrow> byte \<Rightarrow> vm \<Rightarrow> step_result" where
  "exec_unary H opcode vm =
     (let (v, vm) = slp_vm_pop vm
      in if opcode = OP_NEGATE then
           do { (r, vm) \<leftarrow> unary_arith H f_neg (\<lambda>w. 0 - w) (\<lambda>w. 0 - w) v vm;
                (r, vm) \<leftarrow> propagate_taint_unary (h_sizes H) (h_alloc H) r v vm;
                push_next r vm }
         else if opcode = OP_NOT then do { f \<leftarrow> slp_value_is_falsy (vm_heap vm) v; push_next (VBool f) vm }
         else if opcode = OP_BIT_NOT then do { (r, vm) \<leftarrow> bit_not H v vm; push_next r vm }
         else if opcode = OP_INCREMENT then
           do { (r, vm) \<leftarrow> unary_arith H (\<lambda>d. f_add d (f_of_int 1)) (\<lambda>w. w + 1) (\<lambda>w. w + 1) v vm; push_next r vm }
         else do { (r, vm) \<leftarrow> unary_arith H (\<lambda>d. f_sub d (f_of_int 1)) (\<lambda>w. w - 1) (\<lambda>w. w - 1) v vm; push_next r vm })"

end
