(* ===== verification/VM_Collect.thy ===== *)
theory VM_Collect
  imports VM_Instructions
begin

text \<open>
  The rest of the instructions within a frame (\<^verbatim>\<open>src/slp_vm.c\<close>, \<open>slp_vm_call\<close>): comparisons and
  predicates, the stack, jumps, arrays, hashes and their indices, and the iteration of \<open>foreach\<close>.
\<close>

subsection \<open>Comparisons and predicates\<close>

definition exec_compare :: "host \<Rightarrow> byte \<Rightarrow> vm \<Rightarrow> step_result" where
  "exec_compare H opcode vm =
     (let (a, b, vm) = pop2 vm
      in if opcode = OP_EQUAL \<or> opcode = OP_NOT_EQUAL then
           do { e \<leftarrow> slp_value_equals (vm_heap vm) a b;
                let result = (e = (opcode = OP_EQUAL));
                vm \<leftarrow> trace_binary_predicate H a (if opcode = OP_EQUAL then ''=='' else ''!='') b result vm;
                push_next (VBool result) vm }
         else do {
           x \<leftarrow> slp_value_as_number (vm_heap vm) a;
           y \<leftarrow> slp_value_as_number (vm_heap vm) b;
           if opcode = OP_SPACESHIP
           then push_next (number_of (if f_lt x y then - 1 else if f_lt y x then 1 else 0)) vm
           else do {
             let (name, result) =
               (if opcode = OP_LESS then (''<'', f_lt x y)
                else if opcode = OP_GREATER then (''>'', f_lt y x)
                else if opcode = OP_LESS_EQUAL then (''<='', f_le x y)
                else (''>='', f_le y x));
             vm \<leftarrow> trace_binary_predicate H a name b result vm;
             push_next (VBool result) vm } })"

definition exec_predicate :: "host \<Rightarrow> byte \<Rightarrow> vm \<Rightarrow> step_result" where
  "exec_predicate H opcode vm =
     (if opcode = OP_MATCH \<or> opcode = OP_NOT_MATCH then
        (let (a, b, vm) = pop2 vm
         in do { (v, vm) \<leftarrow> test_match H (opcode = OP_NOT_MATCH) a b vm; push_next v vm })
      else do {
        (i, vm) \<leftarrow> read_short vm;
        (_, name) \<leftarrow> string_constant i vm;
        if opcode = OP_UNARY_PREDICATE then
          (let (v, vm) = slp_vm_pop vm
           in do { (b, vm) \<leftarrow> test_unary H (c_text name) v vm; push_next (VBool b) vm })
        else
          (let (a, b, vm) = pop2 vm
           in do { (v, vm) \<leftarrow> test_binary H (c_text name) (opcode = OP_NEGATED_BINARY_PREDICATE) a b vm; push_next v vm }) })"

subsection \<open>The stack and jumps\<close>

definition reverse_top :: "nat \<Rightarrow> vm \<Rightarrow> vm option" where
  "reverse_top n vm =
     (if length (vm_stack vm) < n then None
      else (let k = length (vm_stack vm) - n in Some (vm\<lparr>vm_stack := take k (vm_stack vm) @ rev (drop k (vm_stack vm))\<rparr>)))"

definition exec_stack :: "byte \<Rightarrow> vm \<Rightarrow> step_result" where
  "exec_stack opcode vm =
     (if opcode = OP_POP then proceed (snd (slp_vm_pop vm))
      else if opcode = OP_DUP then do { v \<leftarrow> slp_vm_peek 0 vm; push_next v vm }
      else if opcode = OP_DUP2 then
        do { below \<leftarrow> slp_vm_peek 1 vm; top \<leftarrow> slp_vm_peek 0 vm; push_next top (slp_vm_push below vm) }
      else if opcode = OP_SWAP then (let (below, top, vm) = pop2 vm in push_next below (slp_vm_push top vm))
      else do { (n, vm) \<leftarrow> read_byte vm; vm \<leftarrow> reverse_top (unat n) vm; proceed vm })"

definition exec_jump :: "byte \<Rightarrow> vm \<Rightarrow> step_result" where
  "exec_jump opcode vm =
     do { (w, vm) \<leftarrow> read_short vm;
          let forward = do { vm \<leftarrow> jump_by (uint w) vm; proceed vm };
          if opcode = OP_JUMP then forward
          else if opcode = OP_LOOP then do { vm \<leftarrow> jump_by (- sint w) vm; proceed vm }
          else do {
            v \<leftarrow> slp_vm_peek 0 vm;
            if opcode = OP_JUMP_IF_NULL then
              do { d \<leftarrow> dereference_value (vm_heap vm) v; if d = VNull then forward else proceed vm }
            else do {
              falsy \<leftarrow> slp_value_is_falsy (vm_heap vm) v;
              if opcode = OP_JUMP_IF_FALSE then (if falsy then forward else proceed vm)
              else if opcode = OP_JUMP_IF_TRUE then (if falsy then proceed vm else forward)
              else if opcode = OP_AND then (if falsy then forward else proceed (snd (slp_vm_pop vm)))
              else (if falsy then proceed (snd (slp_vm_pop vm)) else forward) } } }"

subsection \<open>Arrays and hashes\<close>

fun pop_into :: "nat \<Rightarrow> addr \<Rightarrow> vm \<Rightarrow> vm option" where
  "pop_into 0 a vm = Some vm"
| "pop_into (Suc n) a vm = (let (v, vm) = slp_vm_pop vm in do { vm \<leftarrow> array_push a v vm; pop_into n a vm })"

definition reverse_array :: "addr \<Rightarrow> vm \<Rightarrow> vm option" where
  "reverse_array a vm =
     do { arr \<leftarrow> get_array (vm_heap vm) a;
          let n = nat (ar_count arr);
          Some (put_object a (OArray (arr\<lparr>ar_elements := rev (take n (ar_elements arr)) @ drop n (ar_elements arr)\<rparr>)) vm) }"

definition build_array :: "host \<Rightarrow> nat \<Rightarrow> vm \<Rightarrow> step_result" where
  "build_array H n vm =
     do { (p, vm) \<leftarrow> new_array H vm;
          a \<leftarrow> p;
          vm \<leftarrow> pop_into n a vm;
          vm \<leftarrow> reverse_array a vm;
          push_next (VObj a) vm }"

fun pop_entries :: "vm_run \<Rightarrow> host \<Rightarrow> nat \<Rightarrow> ptr \<Rightarrow> vm \<Rightarrow> vm option" where
  "pop_entries run H 0 p vm = Some vm"
| "pop_entries run H (Suc n) p vm =
     (let (key, val, vm) = pop2 vm
      in do { (_, vm) \<leftarrow> slp_vm_hash_set (call_of run) (h_sizes H) (h_alloc H) p key val vm; pop_entries run H n p vm })"

definition build_pair :: "host \<Rightarrow> vm \<Rightarrow> step_result" where
  "build_pair H vm =
     (let (key, val, vm) = pop2 vm
      in do { (p, vm) \<leftarrow> new_tracked (h_sizes H) (slp_obj_key_value_new (h_alloc H (vm_heap vm)) key val) vm;
              (case p of None \<Rightarrow> stop_error ''Out of memory.'' vm | Some a \<Rightarrow> push_next (VObj a) vm) })"

definition exec_build :: "vm_run \<Rightarrow> host \<Rightarrow> byte \<Rightarrow> vm \<Rightarrow> step_result" where
  "exec_build run H opcode vm =
     (if opcode = OP_BUILD_ARRAY then do { (n, vm) \<leftarrow> read_short vm; build_array H (unat n) vm }
      else if opcode = OP_BUILD_HASH then
        do { (n, vm) \<leftarrow> read_short vm;
             (p, vm) \<leftarrow> new_hash H vm;
             vm \<leftarrow> pop_entries run H (unat n) p vm;
             push_next (ptr_value p) vm }
      else build_pair H vm)"

subsection \<open>Indices\<close>

text \<open>A negative index counts from the end, any number of times around.\<close>

definition wrap_index :: "int \<Rightarrow> int \<Rightarrow> int" where
  "wrap_index i count =
     (if i < 0 \<and> 0 < count then (let r = - (\<bar>i\<bar> mod count) in if r < 0 then r + count else r) else i)"

definition array_index :: "heap \<Rightarrow> obj_array \<Rightarrow> slp_value \<Rightarrow> int option" where
  "array_index h arr v = map_option (\<lambda>w. wrap_index (sint w) (ar_count arr)) (numeric_int_value h v)"

text \<open>The scope of a closure that is indexed; none when memory is exhausted.\<close>

definition closure_scope_at :: "host \<Rightarrow> addr \<Rightarrow> vm \<Rightarrow> (ptr \<times> vm) option" where
  "closure_scope_at H a vm =
     do { (ok, vm) \<leftarrow> ensure_closure_scope (h_sizes H) (h_alloc H) a vm;
          if \<not> ok then Some (None, vm) else do { c \<leftarrow> get_closure (vm_heap vm) a; s \<leftarrow> co_scope c; Some (Some s, vm) } }"

definition script_hash_get :: "vm_run \<Rightarrow> host \<Rightarrow> addr \<Rightarrow> slp_value \<Rightarrow> vm \<Rightarrow> (slp_value \<times> vm) option" where
  "script_hash_get run H a key vm = slp_vm_hash_get (call_of run) (h_sizes H) (h_alloc H) (Some a) key vm"

definition index_get :: "vm_run \<Rightarrow> host \<Rightarrow> slp_value \<Rightarrow> slp_value \<Rightarrow> vm \<Rightarrow> step_result" where
  "index_get run H container index vm =
     do { ob \<leftarrow> object_of (vm_heap vm) container;
          (case (container, ob) of
             (VObj a, Some (OArray arr)) \<Rightarrow>
               do { i \<leftarrow> array_index (vm_heap vm) arr index; v \<leftarrow> slp_obj_array_get (vm_heap vm) a i; push_next v vm }
           | (VObj a, Some (OHash _)) \<Rightarrow> do { (v, vm) \<leftarrow> script_hash_get run H a index vm; push_next v vm }
           | (VObj a, Some (OClosure _)) \<Rightarrow>
               do { (s, vm) \<leftarrow> closure_scope_at H a vm;
                    (case s of
                       None \<Rightarrow> stop_error ''Out of memory.'' vm
                     | Some s \<Rightarrow> do { (v, vm) \<leftarrow> hash_get_at s index vm; push_next v vm }) }
           | _ \<Rightarrow> do { vm \<leftarrow> warn_invalid_index H container index vm; push_next VNull vm }) }"

text \<open>A new collection for a missing element: none when memory is exhausted.\<close>

definition ensured :: "host \<Rightarrow> byte \<Rightarrow> obj_type \<Rightarrow> slp_value \<Rightarrow> (slp_value \<Rightarrow> vm \<Rightarrow> vm option) \<Rightarrow> vm \<Rightarrow> step_result" where
  "ensured H kind parent nested put vm =
     (if nested \<noteq> VNull then push_next nested vm
      else do { (v, vm) \<leftarrow> new_index_collection (h_sizes H) (h_alloc H) kind parent vm;
                if v = VNull then stop_error ''Out of memory.'' vm
                else do { vm \<leftarrow> put v vm; push_next v vm } })"

definition array_set :: "addr \<Rightarrow> int \<Rightarrow> slp_value \<Rightarrow> vm \<Rightarrow> vm option" where
  "array_set a i v vm = do { h \<leftarrow> slp_obj_array_set (vm_heap vm) a i v; Some (vm\<lparr>vm_heap := h\<rparr>) }"

definition script_hash_set :: "vm_run \<Rightarrow> host \<Rightarrow> addr \<Rightarrow> slp_value \<Rightarrow> slp_value \<Rightarrow> vm \<Rightarrow> vm option" where
  "script_hash_set run H a key v vm = do { (_, vm) \<leftarrow> hash_set run H a key v vm; Some vm }"

definition index_ensure :: "vm_run \<Rightarrow> host \<Rightarrow> byte \<Rightarrow> slp_value \<Rightarrow> slp_value \<Rightarrow> vm \<Rightarrow> step_result" where
  "index_ensure run H kind container index vm =
     do { ob \<leftarrow> object_of (vm_heap vm) container;
          (case (container, ob) of
             (VObj a, Some (OArray arr)) \<Rightarrow>
               if ar_read_only arr then proceed (slp_vm_abort_warning read_only_array vm)
               else do { i \<leftarrow> array_index (vm_heap vm) arr index;
                         nested \<leftarrow> slp_obj_array_get (vm_heap vm) a i;
                         ensured H kind T_ARRAY nested (array_set a i) vm }
           | (VObj a, Some (OHash _)) \<Rightarrow>
               do { (nested, vm) \<leftarrow> script_hash_get run H a index vm;
                    ensured H kind T_HASH nested (script_hash_set run H a index) vm }
           | (VObj a, Some (OClosure _)) \<Rightarrow>
               do { (s, vm) \<leftarrow> closure_scope_at H a vm;
                    (case s of
                       None \<Rightarrow> stop_error ''Out of memory.'' vm
                     | Some s \<Rightarrow>
                         do { (nested, vm) \<leftarrow> hash_get_at s index vm;
                              ensured H kind T_CLOSURE nested (assign_binding H s index) vm }) }
           | _ \<Rightarrow> push_next VNull vm) }"

text \<open>Null deletes the key of an unordered hash.\<close>

definition index_set :: "vm_run \<Rightarrow> host \<Rightarrow> slp_value \<Rightarrow> slp_value \<Rightarrow> slp_value \<Rightarrow> vm \<Rightarrow> step_result" where
  "index_set run H container index v vm =
     do { ob \<leftarrow> object_of (vm_heap vm) container;
          (case (container, ob) of
             (VObj a, Some (OArray arr)) \<Rightarrow>
               if ar_read_only arr then proceed (slp_vm_abort_warning read_only_array vm)
               else do { i \<leftarrow> array_index (vm_heap vm) arr index; vm \<leftarrow> array_set a i v vm; push_next v vm }
           | (VObj a, Some (OHash r)) \<Rightarrow>
               do { vm \<leftarrow> (if v = VNull \<and> ha_order_mode r = 0
                          then map_option snd (slp_vm_hash_delete (h_sizes H) (h_alloc H) (Some a) index vm)
                          else script_hash_set run H a index v vm);
                    push_next v vm }
           | (VObj a, Some (OClosure _)) \<Rightarrow>
               do { (s, vm) \<leftarrow> closure_scope_at H a vm;
                    (case s of
                       None \<Rightarrow> stop_error ''Out of memory.'' vm
                     | Some s \<Rightarrow> do { vm \<leftarrow> assign_binding H s index v vm; push_next v vm }) }
           | _ \<Rightarrow> push_next v vm) }"

definition exec_index :: "vm_run \<Rightarrow> host \<Rightarrow> byte \<Rightarrow> vm \<Rightarrow> step_result" where
  "exec_index run H opcode vm =
     (if opcode = OP_INDEX_GET then (let (container, index, vm) = pop2 vm in index_get run H container index vm)
      else if opcode = OP_INDEX_ENSURE then
        do { (kind, vm) \<leftarrow> read_byte vm; (let (container, index, vm) = pop2 vm in index_ensure run H kind container index vm) }
      else (let (v, vm) = slp_vm_pop vm; (container, index, vm) = pop2 vm in index_set run H container index v vm))"

subsection \<open>Tuples\<close>

definition array_of :: "heap \<Rightarrow> slp_value \<Rightarrow> ptr option" where
  "array_of h v = do { ob \<leftarrow> object_of h v; Some (case (v, ob) of (VObj a, Some (OArray _)) \<Rightarrow> Some a | _ \<Rightarrow> None) }"

definition tuple_get :: "vm \<Rightarrow> step_result" where
  "tuple_get vm =
     (let (source, index, vm) = pop2 vm
      in do { array \<leftarrow> array_of (vm_heap vm) source;
              (case array of
                 None \<Rightarrow> push_next source vm
               | Some a \<Rightarrow> do { w \<leftarrow> numeric_int_value (vm_heap vm) index;
                                v \<leftarrow> slp_obj_array_get (vm_heap vm) a (sint w);
                                push_next v vm }) })"

text \<open>One element of a compound assignment; none after a reported error.\<close>

definition compound_value :: "host \<Rightarrow> byte \<Rightarrow> slp_value \<Rightarrow> slp_value \<Rightarrow> vm \<Rightarrow> (slp_value option \<times> vm) option" where
  "compound_value H opcode current operand vm =
     do { (r, vm) \<leftarrow> evaluate_assignment_operator (h_pow H) (h_sizes H) (h_alloc H) opcode current operand vm;
          (case r of
             None \<Rightarrow> Some (None, vm)
           | Some v \<Rightarrow> do { (v, vm) \<leftarrow> propagate_taint_binary (h_sizes H) (h_alloc H) v current operand vm; Some (Some v, vm) }) }"

text \<open>The elements of the targets from an index on; whether all of them have a value.\<close>

partial_function (option) compound_elements :: "host \<Rightarrow> byte \<Rightarrow> addr \<Rightarrow> ptr \<Rightarrow> slp_value \<Rightarrow> int \<Rightarrow> vm \<Rightarrow> (bool \<times> vm) option" where
  [code]: "compound_elements H opcode targets sources right i vm =
     do { arr \<leftarrow> get_array (vm_heap vm) targets;
          if ar_count arr \<le> i then Some (True, vm)
          else do {
            operand \<leftarrow> (case sources of None \<Rightarrow> Some right | Some s \<Rightarrow> slp_obj_array_get (vm_heap vm) s i);
            current \<leftarrow> slp_obj_array_get (vm_heap vm) targets i;
            Option.bind (compound_value H opcode current operand vm) (\<lambda>(r, vm).
              case r of
                None \<Rightarrow> Some (False, vm)
              | Some v \<Rightarrow> do { vm \<leftarrow> array_set targets i v vm; compound_elements H opcode targets sources right (i + 1) vm }) } }"

definition tuple_compound :: "host \<Rightarrow> vm \<Rightarrow> step_result" where
  "tuple_compound H vm =
     do { (opcode, vm) \<leftarrow> read_byte vm;
          let (right, left, vm) = pop2 vm;
          targets \<leftarrow> array_of (vm_heap vm) left;
          sources \<leftarrow> array_of (vm_heap vm) right;
          (case targets of
             Some t \<Rightarrow>
               do { (ok, vm) \<leftarrow> compound_elements H opcode t sources right 0 vm;
                    if ok then push_next left vm else stop SLP_RUNTIME_ERROR vm }
           | None \<Rightarrow>
               do { operand \<leftarrow> (case sources of None \<Rightarrow> Some right | Some s \<Rightarrow> slp_obj_array_get (vm_heap vm) s 0);
                    (r, vm) \<leftarrow> compound_value H opcode left operand vm;
                    (case r of None \<Rightarrow> stop SLP_RUNTIME_ERROR vm | Some v \<Rightarrow> push_next v vm) }) }"

subsection \<open>Iteration\<close>

text \<open>What an iteration step yields: the iterator and, unless the loop is over, the key and the value.\<close>

type_synonym iteration = "slp_value \<times> (slp_value \<times> slp_value) option"

definition set_top :: "slp_value \<Rightarrow> vm \<Rightarrow> vm option" where
  "set_top v vm = (if vm_stack vm = [] then None else Some (vm\<lparr>vm_stack := butlast (vm_stack vm) @ [v]\<rparr>))"

definition top_offset :: "vm \<Rightarrow> int" where
  "top_offset vm = int (length (vm_stack vm)) - 1"

text \<open>The element as a cell, which replaces it in the array.\<close>

definition cell_element :: "host \<Rightarrow> addr \<Rightarrow> nat \<Rightarrow> vm \<Rightarrow> (ptr \<times> vm) option" where
  "cell_element H a i vm =
     do { v \<leftarrow> element_at (vm_heap vm) a i;
          bound \<leftarrow> cell_of (vm_heap vm) v;
          (case bound of
             Some c \<Rightarrow> Some (Some c, vm)
           | None \<Rightarrow>
               do { (p, vm) \<leftarrow> new_cell H v vm;
                    (case p of
                       None \<Rightarrow> Some (None, vm)
                     | Some c \<Rightarrow> do { vm \<leftarrow> set_element a i (VObj c) vm; Some (Some c, vm) }) }) }"

definition begin_iteration :: "addr \<Rightarrow> int \<Rightarrow> vm \<Rightarrow> vm option" where
  "begin_iteration a i vm =
     do { f \<leftarrow> current_frame vm;
          arr \<leftarrow> get_array (vm_heap vm) a;
          if i = 0 \<or> cf_foreach_iteration_array f \<noteq> Some a
          then update_frame (\<lambda>f. f\<lparr>cf_foreach_iteration_array := Some a, cf_foreach_iteration_version := ar_version arr,
                                   cf_foreach_invalidated := False\<rparr>) vm
          else Some vm }"

definition unsafe_iteration :: string where
  "unsafe_iteration = ''unsafe data modification: @array changed during iteration''"

text \<open>\<open>java\<close> is the Java iterator, if one is iterated. None inside when memory is exhausted.\<close>

definition foreach_element :: "host \<Rightarrow> addr \<Rightarrow> ptr \<Rightarrow> int \<Rightarrow> slp_value \<Rightarrow> vm \<Rightarrow> (iteration option \<times> vm) option" where
  "foreach_element H a java i iterator vm =
     do { vm \<leftarrow> begin_iteration a i vm;
          f \<leftarrow> current_frame vm;
          arr \<leftarrow> get_array (vm_heap vm) a;
          if cf_foreach_invalidated f then Some (Some (iterator, None), vm)
          else if 0 < i \<and> cf_foreach_iteration_version f \<noteq> ar_version arr then
            do { vm \<leftarrow> update_frame (\<lambda>f. f\<lparr>cf_foreach_invalidated := True\<rparr>) (slp_vm_warning unsafe_iteration vm);
                 Some (Some (iterator, Some (cf_foreach_last_key f, cf_foreach_last_value f)), vm) }
          else if 0 \<le> i \<and> i < ar_count arr then
            do { (p, vm) \<leftarrow> cell_element H a (nat i) vm;
                 (case p of
                    None \<Rightarrow> Some (None, vm)
                  | Some c \<Rightarrow>
                      do { vm \<leftarrow> update_frame (\<lambda>f. f\<lparr>cf_foreach_array := Some a, cf_foreach_index := i,
                                   cf_foreach_iterator_offset := top_offset vm, cf_foreach_active := True,
                                   cf_foreach_last_key := number_of i, cf_foreach_last_value := VObj c\<rparr>) vm;
                           vm \<leftarrow> (case java of
                                   None \<Rightarrow> Some vm
                                 | Some j \<Rightarrow> update_java j (\<lambda>ob. ob\<lparr>jo_value := number_of (i + 1)\<rparr>) vm);
                           Some (Some (iterator, Some (number_of i, VObj c)), vm) }) }
          else Some (Some (iterator, None), vm) }"

text \<open>A Java iterator that is new to the frame has its own position.\<close>

definition foreach_array :: "host \<Rightarrow> addr \<Rightarrow> ptr \<Rightarrow> int \<Rightarrow> slp_value \<Rightarrow> vm \<Rightarrow> (iteration option \<times> vm) option" where
  "foreach_array H a java i iterator vm =
     do { f \<leftarrow> current_frame vm;
          (case java of
             Some j \<Rightarrow>
               if cf_foreach_iteration_array f \<noteq> Some a then
                 do { ob \<leftarrow> get_java (vm_heap vm) j;
                      w \<leftarrow> numeric_int_value (vm_heap vm) (jo_value ob);
                      vm \<leftarrow> set_top (number_of (sint w)) vm;
                      foreach_element H a java (sint w) (number_of (sint w)) vm }
               else foreach_element H a java i iterator vm
           | None \<Rightarrow> foreach_element H a java i iterator vm) }"

text \<open>The next entry with a value, and the last place that was looked at.\<close>

fun skip_nulls :: "heap \<Rightarrow> obj_hash \<Rightarrow> int list \<Rightarrow> int \<Rightarrow> int \<Rightarrow> (int \<times> int) option" where
  "skip_nulls h r [] past i = Some (past, i)"
| "skip_nulls h r (ordinal # os) past i =
     do { i \<leftarrow> slp_obj_hash_ordered_index h r ordinal;
          if i < 0 \<or> he_value (ha_entries r ! nat i) \<noteq> VNull then Some (ordinal, i) else skip_nulls h r os past i }"

definition foreach_hash :: "addr \<Rightarrow> bool \<Rightarrow> int \<Rightarrow> slp_value \<Rightarrow> vm \<Rightarrow> (iteration option \<times> vm) option" where
  "foreach_hash a keys_only i iterator vm =
     do { r \<leftarrow> get_hash (vm_heap vm) a;
          (ordinal, place) \<leftarrow> skip_nulls (vm_heap vm) r [i..ha_count r - 1] (max i (ha_count r)) (- 1);
          if place < 0 then Some (Some (iterator, None), vm)
          else do { let e = ha_entries r ! nat place;
                    vm \<leftarrow> update_frame (\<lambda>f. f\<lparr>cf_foreach_hash := Some a, cf_foreach_key := he_key e,
                            cf_foreach_iterator_offset := top_offset vm, cf_foreach_active := True\<rparr>) vm;
                    Some (Some (number_of ordinal, Some (he_key e, if keys_only then he_key e else he_value e)), vm) } }"

definition foreach_text :: "host \<Rightarrow> string \<Rightarrow> int \<Rightarrow> slp_value \<Rightarrow> vm \<Rightarrow> (iteration option \<times> vm) option" where
  "foreach_text H s i iterator vm =
     (if 0 \<le> i \<and> i < int (length s)
      then do { (p, vm) \<leftarrow> copy_text H [s ! nat i] vm; Some (Some (iterator, Some (number_of i, ptr_value p)), vm) }
      else Some (Some (iterator, None), vm))"

text \<open>A step over anything but a closure.\<close>

definition foreach_item :: "host \<Rightarrow> bool \<Rightarrow> slp_value \<Rightarrow> slp_value \<Rightarrow> vm \<Rightarrow> (iteration option \<times> vm) option" where
  "foreach_item H keys_only collection iterator vm =
     do { ob \<leftarrow> object_of (vm_heap vm) collection;
          (case (collection, ob, iterator) of
             (VObj a, Some ob, VNum d) \<Rightarrow>
               do { w \<leftarrow> to_int32 d;
                    let i = sint w;
                    (case ob of
                       OArray _ \<Rightarrow> foreach_array H a None i iterator vm
                     | OJava j \<Rightarrow>
                         (case jo_list j of
                            Some l \<Rightarrow> if jo_kind j = JAVA_ITERATOR then foreach_array H l (Some a) i iterator vm
                                     else Some (Some (iterator, None), vm)
                          | None \<Rightarrow> Some (Some (iterator, None), vm))
                     | OHash _ \<Rightarrow> foreach_hash a keys_only i iterator vm
                     | OString s \<Rightarrow> foreach_text H (s_chars s) i iterator vm
                     | _ \<Rightarrow> Some (Some (iterator, None), vm)) }
           | (VObj a, Some ob, _) \<Rightarrow> None
           | _ \<Rightarrow> Some (Some (iterator, None), vm)) }"

definition finish_iteration :: "u16 \<Rightarrow> iteration option \<Rightarrow> vm \<Rightarrow> step_result" where
  "finish_iteration offset item vm =
     (case item of
        None \<Rightarrow> stop_error ''Out of memory.'' vm
      | Some (iterator, None) \<Rightarrow>
          do { vm \<leftarrow> update_frame (\<lambda>f. f\<lparr>cf_foreach_iteration_array := None, cf_foreach_invalidated := False\<rparr>) vm;
               vm \<leftarrow> jump_by (uint offset) vm;
               proceed vm }
      | Some (iterator, Some (key, val)) \<Rightarrow>
          (case iterator of
             VNum d \<Rightarrow> do { vm \<leftarrow> set_top (VNum (f_add d (f_of_int 1))) vm; push_next val (slp_vm_push key vm) }
           | _ \<Rightarrow> None))"

text \<open>The step after a generator has returned: its result is on the stack, null ends the loop.\<close>

definition resume_iteration :: "host \<Rightarrow> bool \<Rightarrow> u16 \<Rightarrow> vm \<Rightarrow> step_result" where
  "resume_iteration H keys_only offset vm =
     (let (val, vm) = slp_vm_pop vm
      in do { vm \<leftarrow> update_frame (\<lambda>f. f\<lparr>cf_foreach_pending := False\<rparr>) vm;
              iterator \<leftarrow> slp_vm_peek 0 vm;
              collection \<leftarrow> slp_vm_peek 1 vm;
              (item, vm) \<leftarrow> (if val \<noteq> VNull then Some (Some (iterator, Some (iterator, val)), vm)
                            else foreach_item H keys_only collection iterator vm);
              finish_iteration offset item vm })"

end
