(* ===== verification/VM_Loop.thy ===== *)
theory VM_Loop
  imports VM_Collect GC
begin

text \<open>
  Control flow and the interpreter loop (\<^verbatim>\<open>src/slp_vm.c\<close>, \<open>slp_vm_call\<close>): calls, returns, closures,
  exceptions, suspension, continuations, \<open>foreach\<close>, and the loop around them with the collection of
  garbage before an instruction and the unwinding of an aborted one after it. Fuel bounds the loop: it is
  consumed by each instruction and each nested call of \<open>slp_vm_call\<close>. Undefined behaviour and the lack of
  fuel both give none.
\<close>

subsection \<open>Frames\<close>

definition pop_frame :: "vm \<Rightarrow> vm" where
  "pop_frame vm = vm\<lparr>vm_frames := butlast (vm_frames vm)\<rparr>"

text \<open>The frames above a height are left, innermost first.\<close>

fun close_frames :: "nat \<Rightarrow> vm \<Rightarrow> vm option" where
  "close_frames 0 vm = Some vm"
| "close_frames (Suc n) vm =
     do { f \<leftarrow> current_frame vm; vm \<leftarrow> close_upvalues (cf_slots f) vm; close_frames n (pop_frame vm) }"

definition close_frames_to :: "int \<Rightarrow> vm \<Rightarrow> vm option" where
  "close_frames_to height vm = close_frames (nat (int (length (vm_frames vm)) - height)) vm"

text \<open>The frame of the ordinary closure below the inline ones.\<close>

fun find_root :: "heap \<Rightarrow> call_frame list \<Rightarrow> nat \<Rightarrow> nat option" where
  "find_root h frames 0 = Some 0"
| "find_root h frames (Suc i) =
     do { a \<leftarrow> cf_closure (frames ! Suc i); c \<leftarrow> get_closure h a;
          if co_is_inline c then find_root h frames i else Some (Suc i) }"

definition root_index :: "vm \<Rightarrow> nat option" where
  "root_index vm = (if vm_frames vm = [] then None else find_root (vm_heap vm) (vm_frames vm) (length (vm_frames vm) - 1))"

text \<open>The result of a call replaces the callee and its arguments.\<close>

definition give_result :: "nat \<Rightarrow> slp_value \<Rightarrow> vm \<Rightarrow> vm option" where
  "give_result slots v vm = do { vm \<leftarrow> cut_stack slots vm; Some (slp_vm_push v vm) }"

subsection \<open>Calls and returns\<close>

definition finish_call :: "(bool \<times> vm) option \<Rightarrow> step_result" where
  "finish_call r = do { (ok, vm) \<leftarrow> r; if ok then proceed vm else stop SLP_RUNTIME_ERROR vm }"

definition is_callable :: "heap \<Rightarrow> slp_value \<Rightarrow> bool option" where
  "is_callable h v =
     do { ob \<leftarrow> object_of h v;
          Some (case ob of Some (OClosure _) \<Rightarrow> True | Some (ONative _) \<Rightarrow> True | Some (OContinuation _) \<Rightarrow> True | _ \<Rightarrow> False) }"

definition call_named :: "vm_run \<Rightarrow> host \<Rightarrow> vm \<Rightarrow> step_result" where
  "call_named run H vm =
     do { (n, vm) \<leftarrow> read_byte vm;
          (name_value, vm) \<leftarrow> read_constant vm;
          callee \<leftarrow> slp_vm_peek (unat n) vm;
          t \<leftarrow> name_chars (vm_heap vm) name_value;
          let name = (case t of None \<Rightarrow> [] | Some t \<Rightarrow> c_text t);
          callable \<leftarrow> is_callable (vm_heap vm) callee;
          if callable then finish_call (call_value H run callee (unat n) False (Some name) vm)
          else finish_call (answer_null (unat n)
                 (slp_vm_warning (take 319 (''Attempted to call non-existent function &'' @ name)) vm)) }"

text \<open>A method of a built-in object, or else a call with a message.\<close>

definition object_expression :: "vm_run \<Rightarrow> host \<Rightarrow> nat \<Rightarrow> vm \<Rightarrow> step_result" where
  "object_expression run H n vm =
     do { let base = length (vm_stack vm) - n - 2;
          (r, vm) \<leftarrow> call_builtin_object_method H run n vm;
          if length (vm_stack vm) \<le> base + 1 then None
          else let callee = vm_stack vm ! base
               in (case r of
                     None \<Rightarrow> finish_call (call_value H run callee n True None vm)
                   | Some v \<Rightarrow>
                       do { vm \<leftarrow> (if debug_flag 8 vm
                                  then do { (name, vm) \<leftarrow> profile_call_name H callee True (drop (base + 1) (vm_stack vm)) None vm;
                                            profile_record H name vm }
                                  else Some vm);
                            vm \<leftarrow> give_result base v vm;
                            proceed vm }) }"

definition exec_call :: "vm_run \<Rightarrow> host \<Rightarrow> byte \<Rightarrow> vm \<Rightarrow> step_result" where
  "exec_call run H opcode vm =
     (if opcode = OP_CALL_NAMED then call_named run H vm
      else do { (n, vm) \<leftarrow> read_byte vm;
                if opcode = OP_OBJ_EXPR then object_expression run H (unat n) vm
                else do { callee \<leftarrow> slp_vm_peek (unat n) vm; finish_call (call_value H run callee (unat n) False None vm) } })"

text \<open>Local scopes that were pushed and not popped are dropped: their number.\<close>

definition drop_leaked_scopes :: "call_frame \<Rightarrow> bool \<Rightarrow> vm \<Rightarrow> (int \<times> vm) option" where
  "drop_leaked_scopes f is_inline vm =
     (case cf_local_scopes f of
        None \<Rightarrow> Some (0, vm)
      | Some s \<Rightarrow>
          if is_inline then Some (0, vm)
          else do { arr \<leftarrow> get_array (vm_heap vm) s;
                    Some (if 1 < ar_count arr then (ar_count arr - 1, put_object s (OArray (arr\<lparr>ar_count := 1\<rparr>)) vm) else (0, vm)) })"

definition leak_warning :: "int \<Rightarrow> ptr \<Rightarrow> vm \<Rightarrow> vm option" where
  "leak_warning leaked description vm =
     (case description of
        None \<Rightarrow> Some vm
      | Some d \<Rightarrow>
          do { t \<leftarrow> chars_at (vm_heap vm) d;
               Some (slp_vm_warning (dec_int leaked @ '' unaccounted local stack frame(s) in '' @ t @
                 '' (perhaps you forgot to &popl?)'') vm) })"

text \<open>What a return does before it gives the result back.\<close>

definition leave_frame :: "host \<Rightarrow> call_frame \<Rightarrow> vm \<Rightarrow> vm option" where
  "leave_frame H f vm =
     do { a \<leftarrow> cf_closure f;
          c \<leftarrow> get_closure (vm_heap vm) a;
          (leaked, vm) \<leftarrow> drop_leaked_scopes f (co_is_inline c) vm;
          (description, vm) \<leftarrow> (if 0 < leaked then describe H (VObj a) vm else Some (None, vm));
          vm \<leftarrow> close_upvalues (cf_slots f) vm;
          let vm = pop_frame vm;
          leak_warning leaked description (trim_try_handlers (int (length (vm_frames vm))) vm) }"

definition return_trace :: "obj_continuation \<Rightarrow> call_trace" where
  "return_trace k =
     \<lparr>ct_call = cn_return_trace_call k, ct_source = cn_return_trace_source k, ct_line = cn_return_trace_line k,
      ct_enabled = cn_return_trace_enabled k\<rparr>"

definition exec_return :: "host \<Rightarrow> int \<Rightarrow> vm \<Rightarrow> step_result" where
  "exec_return H target vm =
     (let (v, vm) = slp_vm_pop vm
      in do { f \<leftarrow> current_frame vm;
              (v, vm) \<leftarrow> (if cf_tainted_arguments f then slp_vm_taint_value (h_sizes H) (h_alloc H) v vm else Some (v, vm));
              vm \<leftarrow> leave_frame H f vm;
              (case cf_continuation_return f of
                 Some ka \<Rightarrow>
                   do { k \<leftarrow> get_continuation (vm_heap vm) ka;
                        vm \<leftarrow> finish_call_trace H (return_trace k) VNull False False vm;
                        push_next v (restore_vm_context k vm) }
               | None \<Rightarrow>
                   do { vm \<leftarrow> finish_call_trace H (frame_trace f) v False False vm;
                        let height = int (length (vm_frames vm));
                        if height = target then do { vm \<leftarrow> give_result (cf_slots f) v vm; stop SLP_OK vm }
                        else if height = 0 then stop SLP_OK vm
                        else do { vm \<leftarrow> give_result (cf_slots f) v vm; proceed vm } }) })"

fun finish_traces :: "host \<Rightarrow> slp_value \<Rightarrow> call_frame list \<Rightarrow> vm \<Rightarrow> vm option" where
  "finish_traces H v [] vm = Some vm"
| "finish_traces H v (f # fs) vm =
     do { vm \<leftarrow> finish_call_trace H (frame_trace f) v False False vm; finish_traces H v fs vm }"

text \<open>A return in inline code leaves the ordinary closure that called it.\<close>

definition exec_inline_return :: "host \<Rightarrow> int \<Rightarrow> vm \<Rightarrow> step_result" where
  "exec_inline_return H target vm =
     (let (v, vm) = slp_vm_pop vm
      in do { i \<leftarrow> root_index vm;
              let root = vm_frames vm ! i;
              vm \<leftarrow> finish_traces H v (rev (drop i (vm_frames vm))) vm;
              vm \<leftarrow> close_upvalues (cf_slots root) vm;
              a \<leftarrow> cf_closure root;
              vm \<leftarrow> clear_coroutine_state a vm;
              let vm = trim_try_handlers (int i) (vm\<lparr>vm_frames := take i (vm_frames vm)\<rparr>);
              vm \<leftarrow> give_result (cf_slots root) v vm;
              if int i = target \<or> i = 0 then stop SLP_OK vm else proceed vm })"

subsection \<open>Closures\<close>

text \<open>The upvalues of a new closure are read from the code: a slot of the frame or an upvalue of the running closure.\<close>

fun read_upvalues :: "host \<Rightarrow> nat \<Rightarrow> vm \<Rightarrow> (ptr list \<times> vm) option" where
  "read_upvalues H 0 vm = Some ([], vm)"
| "read_upvalues H (Suc n) vm =
     do { (is_local, vm) \<leftarrow> read_byte vm;
          (i, vm) \<leftarrow> read_byte vm;
          f \<leftarrow> current_frame vm;
          (p, vm) \<leftarrow>
            (if is_local \<noteq> 0 then
               do { (p, vm) \<leftarrow> new_tracked (h_sizes H) (slp_obj_upvalue_new (h_alloc H (vm_heap vm)) (cf_slots f + unat i)) vm;
                    if p = None then None else Some (p, vm) }
             else do { a \<leftarrow> cf_closure f;
                       c \<leftarrow> get_closure (vm_heap vm) a;
                       if unat i < length (co_upvalues c) then Some (co_upvalues c ! unat i, vm) else None });
          (ps, vm) \<leftarrow> read_upvalues H n vm;
          Some (p # ps, vm) }"

definition make_closure :: "host \<Rightarrow> vm \<Rightarrow> step_result" where
  "make_closure H vm =
     do { (fn, vm) \<leftarrow> read_constant vm;
          (case fn of
             VObj fn \<Rightarrow>
               do { g \<leftarrow> get_function (vm_heap vm) fn;
                    (p, vm) \<leftarrow> new_closure_object (h_sizes H) (h_alloc H) fn vm;
                    a \<leftarrow> p;
                    (ups, vm) \<leftarrow> read_upvalues H (nat (fn_upvalue_count g)) vm;
                    vm \<leftarrow> update_closure a (\<lambda>c. c\<lparr>co_upvalues := ups\<rparr>) vm;
                    push_next (VObj a) vm }
           | _ \<Rightarrow> None) }"

text \<open>The keyword decides who gets the declared closure: the handler of the keyword or the globals.\<close>

definition find_bridge :: "string \<Rightarrow> (string \<times> nat option) list \<Rightarrow> nat option option" where
  "find_bridge keyword types = map_option snd (find (\<lambda>t. fst t = keyword) types)"

definition mark_inline :: "addr \<Rightarrow> bool \<Rightarrow> vm \<Rightarrow> vm option" where
  "mark_inline a is_inline vm =
     do { c \<leftarrow> get_closure (vm_heap vm) a;
          let newest = (co_identity c = vm_next_closure_identity vm \<and> 0 < vm_next_closure_identity vm);
          let vm = put_object a (OClosure (c\<lparr>co_is_inline := is_inline,
                                             co_identity := (if is_inline then 0 else co_identity c)\<rparr>)) vm;
          Some (if is_inline \<and> newest then vm\<lparr>vm_next_closure_identity := vm_next_closure_identity vm - 1\<rparr> else vm) }"

definition bind_declaration :: "host \<Rightarrow> vm \<Rightarrow> step_result" where
  "bind_declaration H vm =
     do { (kw, vm) \<leftarrow> read_short vm;
          (nm, vm) \<leftarrow> read_short vm;
          let (v, vm) = slp_vm_pop vm;
          a \<leftarrow> (case v of VObj a \<Rightarrow> Some a | _ \<Rightarrow> None);
          (_, keyword) \<leftarrow> string_constant kw vm;
          (name_addr, name) \<leftarrow> string_constant nm vm;
          vm \<leftarrow> mark_inline a (c_text keyword = ''inline'') vm;
          vm \<leftarrow> (if name = [] then Some vm
                else do { (p, vm) \<leftarrow> copy_text H (CHR ''&'' # name) vm; update_closure a (\<lambda>c. c\<lparr>co_call_name := p\<rparr>) vm });
          (case find_bridge (c_text keyword) (vm_bridge_types vm) of
             Some (Some handler) \<Rightarrow>
               do { vm \<leftarrow> h_bridge H handler (c_text keyword) (Some (c_text name)) a vm; proceed vm }
           | _ \<Rightarrow>
               if name = [] then proceed vm
               else do { g \<leftarrow> vm_globals vm; vm \<leftarrow> hash_put_at g (VObj name_addr) (VObj a) vm; proceed vm }) }"

subsection \<open>Exceptions\<close>

definition push_handler :: "vm \<Rightarrow> step_result" where
  "push_handler vm =
     do { (offset, vm) \<leftarrow> read_short vm;
          f \<leftarrow> current_frame vm;
          let handler = \<lparr>th_catch_ip = cf_ip f + unat offset, th_frame_count = int (length (vm_frames vm)),
                         th_stack_count = int (length (vm_stack vm))\<rparr>;
          proceed (if length (vm_try_handlers vm) < SLP_MAX_HANDLERS
                   then vm\<lparr>vm_try_handlers := vm_try_handlers vm @ [handler]\<rparr> else vm) }"

definition throw_value :: "host \<Rightarrow> vm \<Rightarrow> step_result" where
  "throw_value H vm =
     (let (v, vm) = slp_vm_pop vm
      in if vm_try_handlers vm = [] then stop SLP_RUNTIME_ERROR (vm\<lparr>vm_thrown_exception := v\<rparr>)
         else do {
           let t = last (vm_try_handlers vm);
           vm \<leftarrow> capture_stack_trace H (th_frame_count t) (vm\<lparr>vm_try_handlers := butlast (vm_try_handlers vm)\<rparr>);
           vm \<leftarrow> close_frames_to (th_frame_count t) vm;
           vm \<leftarrow> update_frame (\<lambda>f. f\<lparr>cf_ip := th_catch_ip t\<rparr>) vm;
           vm \<leftarrow> cut_stack (nat (th_stack_count t)) vm;
           push_next v vm })"

definition exec_assert :: "host \<Rightarrow> vm \<Rightarrow> step_result" where
  "exec_assert H vm =
     (let (v, vm) = slp_vm_pop vm
      in do { (p, vm) \<leftarrow> stringify H v vm;
              vm \<leftarrow> (if \<not> debug_flag 8 vm then Some vm
                    else do { (d, vm) \<leftarrow> describe_text H v vm;
                              (call, vm) \<leftarrow> copy_c_text H (''&exit('' @ d @ '')'') vm;
                              source \<leftarrow> caller_source (vm_heap vm) (current_frame vm);
                              line \<leftarrow> frame_current_line (vm_heap vm) (current_frame vm);
                              finish_call_trace H \<lparr>ct_call = call, ct_source = source, ct_line = line, ct_enabled = True\<rparr>
                                VNull True False vm });
              t \<leftarrow> chars_of (vm_heap vm) p;
              let vm = slp_vm_abort_warning (case t of None \<Rightarrow> ''assertion failed'' | Some t \<Rightarrow> t) vm;
              proceed (vm\<lparr>vm_flow_exit_requested := True\<rparr>) })"

subsection \<open>Suspension\<close>

text \<open>The frames from the root on are saved in the closure of the root.\<close>

definition save_coroutine :: "addr \<Rightarrow> nat \<Rightarrow> nat \<Rightarrow> bool \<Rightarrow> vm \<Rightarrow> vm option" where
  "save_coroutine owner i slots needs_result vm =
     do { vm \<leftarrow> clear_coroutine_state owner vm;
          if length (vm_stack vm) < slots then None
          else do {
            vm \<leftarrow> update_closure owner (\<lambda>c. c\<lparr>co_coroutine_stack := drop slots (vm_stack vm),
                    co_coroutine_frames := map (\<lambda>f. f\<lparr>cf_slots := cf_slots f - slots\<rparr>) (drop i (vm_frames vm))\<rparr>) vm;
            vm \<leftarrow> capture_coroutine_try_handlers owner (int i) slots vm;
            update_closure owner (\<lambda>c. c\<lparr>co_coroutine_needs_result := needs_result\<rparr>) vm } }"

definition leave_root :: "nat \<Rightarrow> nat \<Rightarrow> vm \<Rightarrow> vm option" where
  "leave_root i slots vm =
     do { vm \<leftarrow> close_upvalues slots vm;
          cut_stack slots (trim_try_handlers (int i) (vm\<lparr>vm_frames := take i (vm_frames vm)\<rparr>)) }"

definition exec_yield :: "int \<Rightarrow> vm \<Rightarrow> step_result" where
  "exec_yield target vm =
     (let (v, vm) = slp_vm_pop vm
      in do { i \<leftarrow> root_index vm;
              let root = vm_frames vm ! i;
              owner \<leftarrow> cf_closure root;
              vm \<leftarrow> save_coroutine owner i (cf_slots root) False vm;
              vm \<leftarrow> leave_root i (cf_slots root) vm;
              let vm = slp_vm_push v vm;
              if int i = target then stop SLP_OK vm else proceed vm })"

text \<open>\<open>callcc\<close> saves the whole context as a continuation and suspends the closure as well.\<close>

definition whole_context :: "host \<Rightarrow> addr \<Rightarrow> nat \<Rightarrow> vm \<Rightarrow> (ptr \<times> vm) option" where
  "whole_context H owner i vm =
     do { (p, vm) \<leftarrow> new_tracked (h_sizes H) (slp_obj_continuation_new (h_alloc H (vm_heap vm))) vm;
          (case p of
             None \<Rightarrow> Some (None, vm)
           | Some k \<Rightarrow>
               do { vm \<leftarrow> update_continuation k (\<lambda>k. k\<lparr>cn_coroutine_owner := Some owner, cn_resume_frame_index := int i,
                       cn_frames := vm_frames vm, cn_stack := vm_stack vm, cn_try_handlers := vm_try_handlers vm\<rparr>) vm;
                    Some (Some k, vm) }) }"

definition enter_handler :: "vm_run \<Rightarrow> host \<Rightarrow> slp_value \<Rightarrow> addr \<Rightarrow> ptr \<Rightarrow> int \<Rightarrow> vm \<Rightarrow> step_result" where
  "enter_handler run H handler k source line vm =
     do { (ok, vm) \<leftarrow> call_value H run handler 1 False None (push_all [handler, VObj k] vm);
          if \<not> ok then stop SLP_RUNTIME_ERROR vm
          else do {
            (call, vm) \<leftarrow> build_callcc_trace_call H handler (VObj k) vm;
            (case call of
               None \<Rightarrow> stop_error ''Out of memory.'' vm
             | Some c \<Rightarrow>
                 do { vm \<leftarrow> update_frame (set_frame_trace \<lparr>ct_call = Some c, ct_source = source, ct_line = line,
                                                           ct_enabled = debug_flag 8 vm\<rparr>) vm;
                      proceed vm }) } }"

definition exec_callcc :: "vm_run \<Rightarrow> host \<Rightarrow> vm \<Rightarrow> step_result" where
  "exec_callcc run H vm =
     do { (has_arg, vm) \<leftarrow> read_byte vm;
          let (handler, vm) = (if has_arg \<noteq> 0 then slp_vm_pop vm else (VNull, vm));
          i \<leftarrow> root_index vm;
          let root = vm_frames vm ! i;
          owner \<leftarrow> cf_closure root;
          source \<leftarrow> caller_source (vm_heap vm) (Some root);
          line \<leftarrow> frame_current_line (vm_heap vm) (Some root);
          (p, vm) \<leftarrow> whole_context H owner i vm;
          (case p of
             None \<Rightarrow> stop_error ''Out of memory.'' vm
           | Some k \<Rightarrow>
               do { vm \<leftarrow> save_coroutine owner i (cf_slots root) True vm;
                    vm \<leftarrow> finish_call_trace H (frame_trace root) handler False True vm;
                    vm \<leftarrow> leave_root i (cf_slots root) vm;
                    ob \<leftarrow> object_of (vm_heap vm) handler;
                    (case ob of
                       Some (OClosure _) \<Rightarrow> enter_handler run H handler k source line vm
                     | _ \<Rightarrow> push_next (VObj k) vm) }) }"

definition exec_resume :: "host \<Rightarrow> vm \<Rightarrow> step_result" where
  "exec_resume H vm =
     do { v \<leftarrow> slp_vm_peek 0 vm;
          ob \<leftarrow> object_of (vm_heap vm) v;
          (case (v, ob) of
             (VObj a, Some (OClosure c)) \<Rightarrow>
               if co_coroutine_stack c = [] then proceed vm
               else finish_call (call_closure H a 0 False no_trace (snd (slp_vm_pop vm)))
           | _ \<Rightarrow> proceed vm) }"

subsection \<open>Iteration over a generator\<close>

text \<open>The instruction is entered again when the generator has returned.\<close>

definition call_generator :: "vm_run \<Rightarrow> host \<Rightarrow> slp_value \<Rightarrow> nat \<Rightarrow> vm \<Rightarrow> step_result" where
  "call_generator run H collection start_ip vm =
     do { vm \<leftarrow> update_frame (\<lambda>f. f\<lparr>cf_foreach_pending := True, cf_ip := start_ip\<rparr>) vm;
          finish_call (call_value H run collection 0 False None (slp_vm_push collection vm)) }"

definition exec_foreach :: "vm_run \<Rightarrow> host \<Rightarrow> byte \<Rightarrow> vm \<Rightarrow> step_result" where
  "exec_foreach run H opcode vm =
     do { let keys_only = (opcode = OP_FOREACH_NEXT_VALUE);
          vm \<leftarrow> update_frame (\<lambda>f. f\<lparr>cf_foreach_active := False, cf_foreach_array := None, cf_foreach_hash := None\<rparr>) vm;
          f \<leftarrow> current_frame vm;
          (offset, vm) \<leftarrow> read_short vm;
          if cf_foreach_pending f then resume_iteration H keys_only offset vm
          else do {
            iterator \<leftarrow> slp_vm_peek 0 vm;
            collection \<leftarrow> slp_vm_peek 1 vm;
            ob \<leftarrow> object_of (vm_heap vm) collection;
            (case ob of
               Some (OClosure _) \<Rightarrow> call_generator run H collection (cf_ip f - 1) vm
             | _ \<Rightarrow> do { (item, vm) \<leftarrow> foreach_item H keys_only collection iterator vm; finish_iteration offset item vm }) } }"

subsection \<open>The remaining instructions\<close>

definition declare_with :: "(string \<Rightarrow> vm \<Rightarrow> (bool \<times> vm) option) \<Rightarrow> vm \<Rightarrow> step_result" where
  "declare_with declaration vm =
     (let (v, vm) = slp_vm_pop vm
      in do { t \<leftarrow> name_chars (vm_heap vm) v;
              vm \<leftarrow> (case t of None \<Rightarrow> Some vm | Some t \<Rightarrow> map_option snd (declaration (c_text t) vm));
              push_next VNull vm })"

definition exec_backtick :: "host \<Rightarrow> vm \<Rightarrow> step_result" where
  "exec_backtick H vm =
     do { (v, vm) \<leftarrow> read_constant vm;
          t \<leftarrow> name_chars (vm_heap vm) v;
          (case Option.bind t (\<lambda>t. h_exec H (c_text t)) of
             None \<Rightarrow> push_next VNull vm
           | Some output \<Rightarrow> do { (p, vm) \<leftarrow> copy_text H output vm; push_next (ptr_value p) vm }) }"

definition exec_class :: "host \<Rightarrow> vm \<Rightarrow> step_result" where
  "exec_class H vm =
     do { (v, vm) \<leftarrow> read_constant vm;
          t \<leftarrow> name_chars (vm_heap vm) v;
          (case t of
             None \<Rightarrow> push_next VNull vm
           | Some t \<Rightarrow> do { (p, vm) \<leftarrow> slp_vm_new_class (h_sizes H) (h_alloc H) (c_text t) vm; push_next (ptr_value p) vm }) }"

definition exec_misc :: "vm_run \<Rightarrow> host \<Rightarrow> int \<Rightarrow> byte \<Rightarrow> vm \<Rightarrow> step_result" where
  "exec_misc run H target opcode vm =
     (if opcode = OP_CLOSURE then make_closure H vm
      else if opcode = OP_CLOSE_UPVALUE then
        do { vm \<leftarrow> close_upvalues (length (vm_stack vm) - 1) vm; proceed (snd (slp_vm_pop vm)) }
      else if opcode = OP_RETURN then exec_return H target vm
      else if opcode = OP_INLINE_RETURN then exec_inline_return H target vm
      else if opcode = OP_FOREACH_NEXT \<or> opcode = OP_FOREACH_NEXT_VALUE then exec_foreach run H opcode vm
      else if opcode = OP_PUSH_HANDLER then push_handler vm
      else if opcode = OP_POP_HANDLER then proceed (vm\<lparr>vm_try_handlers := butlast (vm_try_handlers vm)\<rparr>)
      else if opcode = OP_THROW then throw_value H vm
      else if opcode = OP_ASSERT then exec_assert H vm
      else if opcode = OP_HALT then stop SLP_HALT vm
      else if opcode = OP_DONE then stop SLP_OK vm
      else if opcode = OP_YIELD then exec_yield target vm
      else if opcode = OP_CALLCC then exec_callcc run H vm
      else if opcode = OP_RESUME then exec_resume H vm
      else if opcode = OP_BRIDGE_REGISTER then bind_declaration H vm
      else if opcode = OP_IMPORT then do { (_, vm) \<leftarrow> read_short vm; (_, vm) \<leftarrow> read_short vm; push_next VNull vm }
      else if opcode = OP_BACKTICK then exec_backtick H vm
      else if opcode = OP_CLASS_LITERAL then exec_class H vm
      else if opcode = OP_LOCAL then declare_with (slp_vm_declare_local H) vm
      else if opcode = OP_THIS then declare_with (slp_vm_declare_closure H) vm
      else if opcode = OP_UNPACK_TUPLE then do { (_, vm) \<leftarrow> read_byte vm; push_next VNull vm }
      else if opcode = OP_BREAK \<or> opcode = OP_CONTINUE \<or> opcode = OP_NOP then proceed vm
      else stop_error ''Unknown opcode.'' vm)"

definition execute :: "vm_run \<Rightarrow> host \<Rightarrow> int \<Rightarrow> byte \<Rightarrow> vm \<Rightarrow> step_result" where
  "execute run H target opcode vm =
     (if opcode = OP_PUSH_NULL then push_next VNull vm
      else if opcode = OP_PUSH_TRUE then push_next TRUE_VAL vm
      else if opcode = OP_PUSH_FALSE then push_next FALSE_VAL vm
      else if opcode = OP_PUSH_CONST then do { (v, vm) \<leftarrow> read_constant vm; push_next v vm }
      else if opcode \<le> OP_STORE_LOCAL \<or> opcode = OP_REFERENCE_LOCAL then exec_local H opcode vm
      else if opcode \<le> OP_STORE_CATCH \<or> opcode = OP_REFERENCE_GLOBAL \<or> opcode = OP_ADDRESS then exec_scoped H opcode vm
      else if opcode = OP_LOAD_UPVALUE \<or> opcode = OP_STORE_UPVALUE \<or> opcode = OP_REFERENCE_UPVALUE then exec_upvalue H opcode vm
      else if opcode = OP_NEGATE \<or> opcode = OP_NOT \<or> opcode = OP_BIT_NOT \<or> opcode = OP_INCREMENT \<or> opcode = OP_DECREMENT
        then exec_unary H opcode vm
      else if opcode \<le> OP_REPEAT then exec_arith H opcode vm
      else if opcode \<le> OP_SPACESHIP then exec_compare H opcode vm
      else if opcode \<le> OP_NOT_MATCH then exec_predicate H opcode vm
      else if opcode = OP_AND \<or> opcode = OP_OR then exec_jump opcode vm
      else if opcode \<le> OP_RSHIFT then exec_bits H opcode vm
      else if opcode \<le> OP_NEGATED_BINARY_PREDICATE then exec_predicate H opcode vm
      else if opcode \<le> OP_REVERSE then exec_stack opcode vm
      else if opcode \<le> OP_LOOP then exec_jump opcode vm
      else if opcode \<le> OP_CALL_NAMED \<or> opcode = OP_OBJ_EXPR then exec_call run H opcode vm
      else if OP_BUILD_ARRAY \<le> opcode \<and> opcode \<le> OP_BUILD_KEY_VALUE then exec_build run H opcode vm
      else if OP_INDEX_GET \<le> opcode \<and> opcode \<le> OP_INDEX_SET then exec_index run H opcode vm
      else if opcode = OP_TUPLE_GET then tuple_get vm
      else if opcode = OP_TUPLE_COMPOUND then tuple_compound H vm
      else exec_misc run H target opcode vm)"

subsection \<open>Aborted instructions\<close>

fun abort_frames :: "host \<Rightarrow> nat \<Rightarrow> nat \<Rightarrow> vm \<Rightarrow> (nat \<times> vm) option" where
  "abort_frames H 0 slots vm = Some (slots, vm)"
| "abort_frames H (Suc n) slots vm =
     do { f \<leftarrow> current_frame vm;
          vm \<leftarrow> finish_call_trace H (frame_trace f) VNull True False vm;
          vm \<leftarrow> close_upvalues (cf_slots f) vm;
          abort_frames H n (cf_slots f) (pop_frame vm) }"

text \<open>The running function, or every function of this loop, returns null.\<close>

definition handle_abort :: "host \<Rightarrow> int \<Rightarrow> vm \<Rightarrow> step_result" where
  "handle_abort H target vm =
     do { f \<leftarrow> current_frame vm;
          let height = int (length (vm_frames vm));
          let flow_exit = vm_flow_exit_requested vm;
          let stop_at = (if flow_exit then target else height - 1);
          (slots, vm) \<leftarrow> abort_frames H (nat (height - stop_at)) (cf_slots f) vm;
          vm \<leftarrow> cut_stack slots (trim_try_handlers (int (length (vm_frames vm))) vm);
          let vm = (slp_vm_push VNull vm)\<lparr>vm_abort_requested := False, vm_flow_exit_requested := False\<rparr>;
          if flow_exit \<or> int (length (vm_frames vm)) = target then stop SLP_OK vm else proceed vm }"

subsection \<open>The loop\<close>

definition gc_safepoint :: "host \<Rightarrow> vm \<Rightarrow> vm option" where
  "gc_safepoint H vm =
     (if vm_next_gc_threshold vm < vm_bytes_allocated vm then slp_gc_collect (h_sizes H) vm else Some vm)"

definition machine_step :: "vm_run \<Rightarrow> host \<Rightarrow> int \<Rightarrow> vm \<Rightarrow> step_result" where
  "machine_step run H target vm =
     do { vm \<leftarrow> gc_safepoint H vm;
          (opcode, vm) \<leftarrow> read_byte vm;
          (r, vm) \<leftarrow> execute run H target opcode vm;
          (case r of
             Stop s \<Rightarrow> stop s vm
           | Proceed \<Rightarrow> if vm_abort_requested vm then handle_abort H target vm else proceed vm) }"

datatype machine_task = Call bool nat | Run_until int

primrec machine :: "nat \<Rightarrow> host \<Rightarrow> machine_task \<Rightarrow> vm \<Rightarrow> (slp_result \<times> vm) option" where
  "machine 0 H task vm = None"
| "machine (Suc fuel) H task vm =
     (let run = (\<lambda>has_message n. machine fuel H (Call has_message n))
      in (case task of
            Call has_message n \<Rightarrow>
              do { callee \<leftarrow> slp_vm_peek (if has_message then n + 1 else n) vm;
                   (ok, vm) \<leftarrow> call_value H run callee n has_message None vm;
                   if \<not> ok then Some (SLP_RUNTIME_ERROR, vm)
                   else do { ob \<leftarrow> object_of (vm_heap vm) callee;
                             (case ob of
                                Some (OClosure _) \<Rightarrow> machine fuel H (Run_until (int (length (vm_frames vm)) - 1)) vm
                              | _ \<Rightarrow> Some (SLP_OK, vm)) } }
          | Run_until target \<Rightarrow>
              do { (r, vm) \<leftarrow> machine_step run H target vm;
                   (case r of Stop s \<Rightarrow> Some (s, vm) | Proceed \<Rightarrow> machine fuel H (Run_until target) vm) }))"

definition slp_vm_call :: "nat \<Rightarrow> host \<Rightarrow> vm_run" where
  "slp_vm_call fuel H has_message n vm = machine fuel H (Call has_message n) vm"

definition slp_vm_run :: "nat \<Rightarrow> host \<Rightarrow> addr \<Rightarrow> vm \<Rightarrow> (slp_result \<times> vm) option" where
  "slp_vm_run fuel H fn vm =
     do { (p, h) \<leftarrow> slp_obj_closure_new (h_alloc H (vm_heap vm)) fn (vm_heap vm);
          (case p of
             None \<Rightarrow> Some (SLP_RUNTIME_ERROR, vm\<lparr>vm_heap := h\<rparr>)
           | Some a \<Rightarrow>
               do { vm \<leftarrow> track_object (h_sizes H) a (vm\<lparr>vm_heap := h\<rparr>);
                    slp_vm_call fuel H False 0 (slp_vm_push (VObj a) vm) }) }"

text \<open>The callee of the embedding interface: a closure or a native function, a function is made a closure.\<close>

definition embedding_callee :: "host \<Rightarrow> slp_value \<Rightarrow> vm \<Rightarrow> (slp_value option \<times> vm) option" where
  "embedding_callee H v vm =
     do { v \<leftarrow> slp_value_unwrap_taint (vm_heap vm) v;
          v \<leftarrow> dereference_value (vm_heap vm) v;
          ob \<leftarrow> object_of (vm_heap vm) v;
          (case (v, ob) of
             (VObj fn, Some (OFunction _)) \<Rightarrow>
               do { (p, vm) \<leftarrow> slp_vm_new_closure (h_sizes H) (h_alloc H) (Some fn) vm; Some (map_option VObj p, vm) }
           | (_, Some (OClosure _)) \<Rightarrow> Some (Some v, vm)
           | (_, Some (ONative _)) \<Rightarrow> Some (Some v, vm)
           | _ \<Rightarrow> Some (None, vm)) }"

text \<open>The frames, handlers and stack are those of before the call.\<close>

definition restore_heights :: "nat \<Rightarrow> nat \<Rightarrow> nat \<Rightarrow> vm \<Rightarrow> vm option" where
  "restore_heights stack frames handlers vm =
     do { vm \<leftarrow> close_frames_to (int frames) vm;
          if length (vm_try_handlers vm) < handlers then None
          else cut_stack stack (vm\<lparr>vm_try_handlers := take handlers (vm_try_handlers vm)\<rparr>) }"

definition slp_vm_call_value :: "nat \<Rightarrow> host \<Rightarrow> slp_value \<Rightarrow> slp_value list \<Rightarrow> vm \<Rightarrow> (slp_result \<times> slp_value \<times> vm) option" where
  "slp_vm_call_value fuel H callable args vm =
     (if 255 < length args then Some (SLP_RUNTIME_ERROR, VNull, vm)
      else do {
        (callee, vm) \<leftarrow> embedding_callee H callable vm;
        (case callee of
           None \<Rightarrow> Some (SLP_RUNTIME_ERROR, VNull, vm)
         | Some callee \<Rightarrow>
             if int SLP_STACK_MAX - int (length (vm_stack vm)) < int (length args) + 1
             then Some (SLP_RUNTIME_ERROR, VNull, slp_vm_runtime_error ''Stack overflow.'' vm)
             else do {
               let stack = length (vm_stack vm);
               let frames = length (vm_frames vm);
               let handlers = length (vm_try_handlers vm);
               (r, vm) \<leftarrow> slp_vm_call fuel H False (length args) (push_all (callee # args) vm);
               (r, v) \<leftarrow>
                 (if r \<noteq> SLP_OK then Some (r, VNull)
                  else if stack < length (vm_stack vm)
                  then map_option (\<lambda>v. (SLP_OK, v)) (dereference_value (vm_heap vm) (last (vm_stack vm)))
                  else Some (SLP_RUNTIME_ERROR, VNull));
               vm \<leftarrow> restore_heights stack frames handlers vm;
               Some (r, v, vm) }) })"

end
