(* ===== verification/VM_Host.thy ===== *)
theory VM_Host
  imports VM_Loop
begin

text \<open>
  The functions by which a host program sets up the machine (\<^verbatim>\<open>src/slp_vm.c\<close>): bridge types and native
  functions, the last error, the name of the source, and the slots that values are passed through.
\<close>

subsection \<open>Registration and errors\<close>

definition slp_vm_register_bridge_type :: "string \<Rightarrow> nat option \<Rightarrow> vm \<Rightarrow> vm" where
  "slp_vm_register_bridge_type keyword handler vm =
     vm\<lparr>vm_bridge_types := (c_text keyword, handler) # vm_bridge_types vm\<rparr>"

definition slp_vm_register_native :: "host \<Rightarrow> string \<Rightarrow> nat \<Rightarrow> vm \<Rightarrow> vm option" where
  "slp_vm_register_native H name fn vm = define_native_ex H (c_text name) fn False vm"

definition slp_vm_register_native_raw :: "host \<Rightarrow> string \<Rightarrow> nat \<Rightarrow> vm \<Rightarrow> vm option" where
  "slp_vm_register_native_raw H name fn vm = define_native_ex H (c_text name) fn True vm"

definition slp_vm_flag_error :: "host \<Rightarrow> slp_value \<Rightarrow> vm \<Rightarrow> vm option" where
  "slp_vm_flag_error H error vm =
     do { v \<leftarrow> dereference_value (vm_heap vm) error;
          let vm = vm\<lparr>vm_last_error := v\<rparr>;
          if debug_flag 2 vm \<and> \<not> debug_flag 16 vm then
            do { (p, vm) \<leftarrow> stringify H v vm;
                 t \<leftarrow> chars_of (vm_heap vm) p;
                 Some (case t of None \<Rightarrow> vm | Some t \<Rightarrow> slp_vm_warning (''checkError(): '' @ t) vm) }
          else Some vm }"

definition slp_vm_check_error :: "vm \<Rightarrow> slp_value \<times> vm" where
  "slp_vm_check_error vm = (vm_last_error vm, vm\<lparr>vm_last_error := VNull\<rparr>)"

definition slp_vm_profile_statistics :: "vm \<Rightarrow> ptr" where
  "slp_vm_profile_statistics vm = vm_profile_statistics vm"

subsection \<open>The name of the source\<close>

definition is_separator :: "char \<Rightarrow> bool" where
  "is_separator c \<longleftrightarrow> c = CHR ''/'' \<or> c = CHR 0x5C"

definition names_place :: "string \<Rightarrow> bool" where
  "names_place name \<longleftrightarrow>
     (case name of
        [] \<Rightarrow> False
      | c # rest \<Rightarrow> c = CHR ''<'' \<or> is_separator c \<or> (c_isalpha c \<and> take 1 rest = '':''))"

text \<open>A relative name is put behind the working directory, if that is known.\<close>

definition source_path_of :: "host \<Rightarrow> string \<Rightarrow> string" where
  "source_path_of H name =
     (case h_cwd H of
        Some cwd \<Rightarrow>
          if names_place name then name
          else cwd @ (if cwd \<noteq> [] \<and> \<not> is_separator (last cwd) then [h_separator H] else []) @ name
      | None \<Rightarrow> name)"

definition base_name :: "string \<Rightarrow> string" where
  "base_name path = rev (takeWhile (\<lambda>c. \<not> is_separator c) (rev path))"

definition slp_vm_set_source_name :: "host \<Rightarrow> string option \<Rightarrow> vm \<Rightarrow> vm option" where
  "slp_vm_set_source_name H source_name vm =
     (let name = (case source_name of None \<Rightarrow> [] | Some s \<Rightarrow> c_text s)
      in if name = [] then Some (vm\<lparr>vm_source_name := None, vm_source_path := None\<rparr>)
         else do {
           let path = source_path_of H name;
           let base = base_name path;
           let vm = vm\<lparr>vm_source_name := Some base, vm_source_path := Some path\<rparr>;
           (case vm_globals vm of
              None \<Rightarrow> Some vm
            | Some g \<Rightarrow>
                do { (k, vm) \<leftarrow> copy_c_text H ''$__SCRIPT__'' vm;
                     (v, vm) \<leftarrow> copy_text H base vm;
                     (case (k, v) of
                        (Some k, Some v) \<Rightarrow> hash_put_at g (VObj k) (VObj v) vm
                      | _ \<Rightarrow> Some vm) }) })"

subsection \<open>Slots\<close>

text \<open>A slot outside the 256 of the machine is undefined.\<close>

definition set_ffi_slot :: "int \<Rightarrow> slp_value \<Rightarrow> vm \<Rightarrow> vm option" where
  "set_ffi_slot i v vm =
     (if 0 \<le> i \<and> i < int (length (vm_ffi_slots vm)) then Some (vm\<lparr>vm_ffi_slots := (vm_ffi_slots vm)[nat i := v]\<rparr>) else None)"

definition get_ffi_slot :: "int \<Rightarrow> vm \<Rightarrow> slp_value option" where
  "get_ffi_slot i vm =
     (if 0 \<le> i \<and> i < int (length (vm_ffi_slots vm)) then Some (vm_ffi_slots vm ! nat i) else None)"

definition slp_vm_ffi_set_null :: "int \<Rightarrow> vm \<Rightarrow> vm option" where
  "slp_vm_ffi_set_null i vm = set_ffi_slot i VNull vm"

definition slp_vm_ffi_set_bool :: "int \<Rightarrow> bool \<Rightarrow> vm \<Rightarrow> vm option" where
  "slp_vm_ffi_set_bool i b vm = set_ffi_slot i (VBool b) vm"

definition slp_vm_ffi_set_number :: "host \<Rightarrow> int \<Rightarrow> f64 \<Rightarrow> vm \<Rightarrow> vm option" where
  "slp_vm_ffi_set_number H i d vm = do { (v, vm) \<leftarrow> make_double_value (h_sizes H) (h_alloc H) d vm; set_ffi_slot i v vm }"

definition slp_vm_ffi_set_long :: "host \<Rightarrow> int \<Rightarrow> u64 \<Rightarrow> vm \<Rightarrow> vm option" where
  "slp_vm_ffi_set_long H i w vm = do { (v, vm) \<leftarrow> make_long_value (h_sizes H) (h_alloc H) w vm; set_ffi_slot i v vm }"

definition slp_vm_ffi_set_string :: "host \<Rightarrow> int \<Rightarrow> string \<Rightarrow> vm \<Rightarrow> vm option" where
  "slp_vm_ffi_set_string H i s vm = do { (p, vm) \<leftarrow> copy_c_text H s vm; set_ffi_slot i (ptr_value p) vm }"

definition slp_vm_ffi_is_null :: "int \<Rightarrow> vm \<Rightarrow> bool option" where
  "slp_vm_ffi_is_null i vm = do { v \<leftarrow> get_ffi_slot i vm; Some (v = VNull) }"

definition slp_vm_ffi_is_bool :: "int \<Rightarrow> vm \<Rightarrow> bool option" where
  "slp_vm_ffi_is_bool i vm = do { v \<leftarrow> get_ffi_slot i vm; Some (case v of VBool _ \<Rightarrow> True | _ \<Rightarrow> False) }"

definition slp_vm_ffi_is_number :: "int \<Rightarrow> vm \<Rightarrow> bool option" where
  "slp_vm_ffi_is_number i vm =
     do { v \<leftarrow> get_ffi_slot i vm;
          ob \<leftarrow> object_of (vm_heap vm) v;
          Some (case v of
                  VNum _ \<Rightarrow> True
                | _ \<Rightarrow> (case ob of Some (OLong _) \<Rightarrow> True | Some (ODouble _) \<Rightarrow> True | _ \<Rightarrow> False)) }"

definition slp_vm_ffi_is_string :: "int \<Rightarrow> vm \<Rightarrow> bool option" where
  "slp_vm_ffi_is_string i vm = do { v \<leftarrow> get_ffi_slot i vm; s \<leftarrow> name_chars (vm_heap vm) v; Some (s \<noteq> None) }"

text \<open>The reader of booleans does not test the type of the value.\<close>

definition slp_vm_ffi_get_bool :: "int \<Rightarrow> vm \<Rightarrow> bool option" where
  "slp_vm_ffi_get_bool i vm = do { v \<leftarrow> get_ffi_slot i vm; (case v of VBool b \<Rightarrow> Some b | _ \<Rightarrow> None) }"

definition slp_vm_ffi_get_number :: "int \<Rightarrow> vm \<Rightarrow> f64 option" where
  "slp_vm_ffi_get_number i vm = do { v \<leftarrow> get_ffi_slot i vm; slp_value_as_number (vm_heap vm) v }"

definition slp_vm_ffi_get_long :: "int \<Rightarrow> vm \<Rightarrow> u64 option" where
  "slp_vm_ffi_get_long i vm =
     do { v \<leftarrow> get_ffi_slot i vm;
          ob \<leftarrow> object_of (vm_heap vm) v;
          (case ob of
             Some (OLong w) \<Rightarrow> Some w
           | _ \<Rightarrow> do { d \<leftarrow> slp_value_as_number (vm_heap vm) v; to_int64 d }) }"

definition slp_vm_ffi_get_string :: "int \<Rightarrow> vm \<Rightarrow> string option option" where
  "slp_vm_ffi_get_string i vm = do { v \<leftarrow> get_ffi_slot i vm; name_chars (vm_heap vm) v }"

end
