(* ===== verification/VM_Frame.thy ===== *)
theory VM_Frame
  imports VM_Host
begin

text \<open>
  What the helpers of the interpreter leave alone. A calm operation keeps the value stack, the frames and the
  exception handlers, and makes no continuation: it allocates, interns, prints, or changes arrays, hashes,
  scopes and closures.
\<close>

named_theorems calm_rules \<open>calm operations\<close>
named_theorems keep_rules \<open>operations on the heap that make no continuation\<close>

lemma bind_SomeE: "Option.bind x f = Some y \<Longrightarrow> (\<And>z. x = Some z \<Longrightarrow> f z = Some y \<Longrightarrow> thesis) \<Longrightarrow> thesis"
  by (cases x) auto

subsection \<open>Heaps\<close>

text \<open>Every continuation of a heap satisfies a predicate; an operation keeps that, whatever the predicate.\<close>

definition within :: "(obj_continuation \<Rightarrow> bool) \<Rightarrow> heap \<Rightarrow> bool" where
  "within C h \<longleftrightarrow> (\<forall>a k. h a = Some (OContinuation k) \<longrightarrow> C k)"

definition keeps :: "heap \<Rightarrow> heap \<Rightarrow> bool" where
  "keeps h h' \<longleftrightarrow> (\<forall>C. within C h \<longrightarrow> within C h')"

lemma within_upd: "within C h \<Longrightarrow> (\<And>k. ob = OContinuation k \<Longrightarrow> C k) \<Longrightarrow> within C (h(a \<mapsto> ob))"
  by (auto simp: within_def)

lemma within_writes [simp]:
  "within C h \<Longrightarrow> within C (h(a \<mapsto> OString x0))"
  "within C h \<Longrightarrow> within C (h(a \<mapsto> OClass x1))"
  "within C h \<Longrightarrow> within C (h(a \<mapsto> OJava x2))"
  "within C h \<Longrightarrow> within C (h(a \<mapsto> OLong x3))"
  "within C h \<Longrightarrow> within C (h(a \<mapsto> ODouble x4))"
  "within C h \<Longrightarrow> within C (h(a \<mapsto> OArray x5))"
  "within C h \<Longrightarrow> within C (h(a \<mapsto> OHash x6))"
  "within C h \<Longrightarrow> within C (h(a \<mapsto> OFunction x7))"
  "within C h \<Longrightarrow> within C (h(a \<mapsto> OClosure x8))"
  "within C h \<Longrightarrow> within C (h(a \<mapsto> OUpvalue x9))"
  "within C h \<Longrightarrow> within C (h(a \<mapsto> ONative x10))"
  "within C h \<Longrightarrow> within C (h(a \<mapsto> OBridge x11))"
  "within C h \<Longrightarrow> within C (h(a \<mapsto> OIOHandle x12))"
  "within C h \<Longrightarrow> within C (h(a \<mapsto> OKeyValue x13))"
  "within C h \<Longrightarrow> within C (h(a \<mapsto> OTainted x14))"
  "within C h \<Longrightarrow> within C (h(a \<mapsto> OScalarCell x15))"
  by (rule within_upd; simp)+

lemma note_source_version_keeps [keep_rules]: "note_source_version a src h = Some h' \<Longrightarrow> keeps h h'"
  by (auto simp: note_source_version_def keeps_def elim!: bind_SomeE)

lemma array_insert_internal_keeps [keep_rules]: "array_insert_internal h a i v b = Some h' \<Longrightarrow> keeps h h'"
proof (rule array_insert_internal.raw_induct [where P = "\<lambda>h a i v b h'. keeps h h'"], goal_cases)
  case (1 ins h a i v b h')
  note 1(2) [dest!]
  show ?case using 1(3)
    by (auto simp: Let_def keeps_def elim!: bind_SomeE split: option.split_asm if_split_asm dest!: calm_rules keep_rules)
qed

lemma array_remove_internal_keeps: "array_remove_internal h a i b = Some r \<Longrightarrow> keeps h (snd r)"
proof (rule array_remove_internal.raw_induct [where P = "\<lambda>h a i b r. keeps h (snd r)"], goal_cases)
  case (1 rem h a i b r)
  note 1(2) [dest!]
  show ?case using 1(3)
    by (auto simp: Let_def keeps_def elim!: bind_SomeE split: option.split_asm if_split_asm dest!: calm_rules keep_rules)
qed

lemma array_remove_keeps [keep_rules]: "array_remove_internal h a i b = Some (v, h') \<Longrightarrow> keeps h h'"
  using array_remove_internal_keeps by fastforce

lemma array_insert_keeps [keep_rules]: "slp_obj_array_insert h a i v = Some h' \<Longrightarrow> keeps h h'"
  by (simp add: slp_obj_array_insert_def keep_rules)

lemma array_push_keeps [keep_rules]: "slp_obj_array_push h a v = Some h' \<Longrightarrow> keeps h h'"
  by (auto simp: slp_obj_array_push_def elim!: bind_SomeE dest!: calm_rules keep_rules)

lemma array_remove_at_keeps [keep_rules]: "slp_obj_array_remove_at h a i = Some (v, h') \<Longrightarrow> keeps h h'"
  by (simp add: slp_obj_array_remove_at_def keep_rules)

lemma array_pop_keeps [keep_rules]: "slp_obj_array_pop h a = Some (v, h') \<Longrightarrow> keeps h h'"
  by (auto simp: slp_obj_array_pop_def elim!: bind_SomeE dest!: calm_rules keep_rules)

lemma store_in_cell_keeps [keep_rules]: "store_in_cell h c v = Some h' \<Longrightarrow> keeps h h'"
  by (auto simp: store_in_cell_def keeps_def elim!: bind_SomeE split: option.split_asm obj.split_asm)

lemma store_element_keeps [keep_rules]: "store_element h a arr i v = Some h' \<Longrightarrow> keeps h h'"
  by (auto simp: store_element_def keeps_def elim!: bind_SomeE split: option.split_asm if_split_asm dest!: calm_rules keep_rules)

lemma set_here_keeps [keep_rules]: "set_here h a i v b = Some h' \<Longrightarrow> keeps h h'"
  by (auto simp: set_here_def keeps_def elim!: bind_SomeE split: if_split_asm dest!: calm_rules keep_rules)

lemma insert_nulls_keeps [keep_rules]: "insert_nulls h a off is = Some h' \<Longrightarrow> keeps h h'"
  by (induction "is" arbitrary: h) (auto simp: keeps_def elim!: bind_SomeE split: if_split_asm dest!: calm_rules keep_rules)

lemma array_set_internal_keeps [keep_rules]: "array_set_internal h a i v b = Some h' \<Longrightarrow> keeps h h'"
proof (rule array_set_internal.raw_induct [where P = "\<lambda>h a i v b h'. keeps h h'"], goal_cases)
  case (1 rem h a i v b h')
  note 1(2) [dest!]
  show ?case using 1(3)
    by (auto simp: Let_def keeps_def elim!: bind_SomeE split: option.split_asm if_split_asm dest!: calm_rules keep_rules)
qed

lemma array_set_keeps [keep_rules]: "slp_obj_array_set h a i v = Some h' \<Longrightarrow> keeps h h'"
  by (simp add: slp_obj_array_set_def keep_rules)

lemma sync_from_keeps [keep_rules]: "sync_from h a i = Some h' \<Longrightarrow> keeps h h'"
proof (rule sync_from.raw_induct [where P = "\<lambda>h a i h'. keeps h h'"], goal_cases)
  case (1 rem h a i h')
  note 1(2) [dest!]
  show ?case using 1(3)
    by (auto simp: keeps_def elim!: bind_SomeE split: option.split_asm if_split_asm dest!: calm_rules keep_rules)
qed

lemma sync_view_keeps [keep_rules]: "slp_obj_array_sync_view h a = Some h' \<Longrightarrow> keeps h h'"
  by (auto simp: slp_obj_array_sync_view_def keeps_def elim!: bind_SomeE split: if_split_asm dest!: calm_rules keep_rules)

subsection \<open>Machines\<close>

definition calm :: "vm \<Rightarrow> vm \<Rightarrow> bool" where
  "calm vm vm' \<longleftrightarrow> vm_stack vm' = vm_stack vm \<and> vm_frames vm' = vm_frames vm \<and>
     vm_try_handlers vm' = vm_try_handlers vm \<and> keeps (vm_heap vm) (vm_heap vm')"

lemmas calm_simps = calm_def keeps_def Let_def

lemma track_object_calm [calm_rules]: "track_object sizes a vm = Some vm' \<Longrightarrow> calm vm vm'"
  by (auto simp: track_object_def calm_simps elim!: bind_SomeE)

lemma make_room_calm [calm_rules]: "make_room t vm = Some vm' \<Longrightarrow> calm vm vm'"
  by (auto simp: make_room_def intern_grow_def calm_simps elim!: bind_SomeE split: option.split_asm if_split_asm)

lemma place_within: "place p ob h = (q, h') \<Longrightarrow> (\<And>k. ob \<noteq> OContinuation k) \<Longrightarrow> keeps h h'"
  unfolding keeps_def place_def by (auto intro!: within_upd split: option.split_asm)

lemma string_new_keeps [keep_rules]: "slp_obj_string_new p s h = (q, h') \<Longrightarrow> keeps h h'"
  by (auto simp: slp_obj_string_new_def elim: place_within)

lemma intern_string_calm [calm_rules]: "slp_vm_intern_string sizes t p s vm = Some (q, vm') \<Longrightarrow> calm vm vm'"
  by (auto simp: slp_vm_intern_string_def calm_simps elim!: bind_SomeE
      split: option.split_asm if_split_asm prod.split_asm dest!: calm_rules keep_rules)

lemma copy_string_calm [calm_rules]: "slp_vm_copy_string sizes t p s vm = Some (q, vm') \<Longrightarrow> calm vm vm'"
  by (simp add: slp_vm_copy_string_def calm_rules)

lemma copy_cstr_calm [calm_rules]: "slp_vm_copy_cstr sizes al s vm = Some (q, vm') \<Longrightarrow> calm vm vm'"
  by (simp add: slp_vm_copy_cstr_def calm_rules)

definition builds :: "(heap \<Rightarrow> ptr \<times> heap) \<Rightarrow> bool" where
  "builds b \<longleftrightarrow> (\<forall>h. keeps h (snd (b h)))"

lemma builds_place [simp]: "(\<And>k. ob \<noteq> OContinuation k) \<Longrightarrow> builds (place p ob)"
  unfolding builds_def using place_within by (metis prod.collapse)

lemmas constructors = slp_obj_class_new_def slp_obj_java_object_new_def slp_obj_long_new_def slp_obj_double_new_def
  slp_obj_array_new_def slp_obj_hash_new_def slp_obj_function_new_def slp_obj_upvalue_new_def slp_obj_native_new_def
  slp_obj_bridge_new_def slp_obj_io_handle_new_def slp_obj_key_value_new_def slp_obj_tainted_new_def
  slp_obj_scalar_cell_new_def

lemma builds_objects [simp]:
  "builds (slp_obj_class_new p n i)" "builds (slp_obj_java_object_new p n k)" "builds (slp_obj_long_new p w)"
  "builds (slp_obj_double_new p d)" "builds (slp_obj_array_new p)" "builds (slp_obj_hash_new p)"
  "builds (slp_obj_function_new p b)" "builds (slp_obj_upvalue_new p j)" "builds (slp_obj_native_new p f n)"
  "builds (slp_obj_io_handle_new p)" "builds (slp_obj_key_value_new p x y)" "builds (slp_obj_tainted_new p x)"
  "builds (slp_obj_scalar_cell_new p x)"
  unfolding constructors by (simp_all)

lemma new_tracked_calm: "new_tracked sizes b vm = Some (p, vm') \<Longrightarrow> builds b \<Longrightarrow> calm vm vm'"
  by (auto simp: new_tracked_def builds_def calm_simps elim!: bind_SomeE split: prod.split_asm option.split_asm dest!: calm_rules keep_rules)
     (metis snd_conv)+


lemmas vm_splits = numeric_kind.split_asm option.split_asm if_split_asm prod.split_asm slp_value.split_asm obj.split_asm

lemma new_tracked_object_calm [calm_rules]:
  "new_tracked sizes (slp_obj_class_new p n i) vm = Some (q, vm') \<Longrightarrow> calm vm vm'"
  "new_tracked sizes (slp_obj_java_object_new p n k) vm = Some (q, vm') \<Longrightarrow> calm vm vm'"
  "new_tracked sizes (slp_obj_key_value_new p x y) vm = Some (q, vm') \<Longrightarrow> calm vm vm'"
  "new_tracked sizes (slp_obj_tainted_new p x) vm = Some (q, vm') \<Longrightarrow> calm vm vm'"
  "new_tracked sizes (slp_obj_scalar_cell_new p x) vm = Some (q, vm') \<Longrightarrow> calm vm vm'"
  "new_tracked sizes (slp_obj_upvalue_new p j) vm = Some (q, vm') \<Longrightarrow> calm vm vm'"
  "new_tracked sizes (slp_obj_native_new p f n) vm = Some (q, vm') \<Longrightarrow> calm vm vm'"
  by (auto elim: new_tracked_calm)

lemma new_object_calm [calm_rules]:
  "slp_vm_new_long sizes al w vm = Some (q, vm') \<Longrightarrow> calm vm vm'"
  "slp_vm_new_double sizes al d vm = Some (q, vm') \<Longrightarrow> calm vm vm'"
  "slp_vm_new_array sizes al vm = Some (q, vm') \<Longrightarrow> calm vm vm'"
  "slp_vm_new_hash sizes al vm = Some (q, vm') \<Longrightarrow> calm vm vm'"
  by (auto simp: slp_vm_new_long_def slp_vm_new_double_def slp_vm_new_array_def slp_vm_new_hash_def elim: new_tracked_calm)

lemma new_index_collection_calm [calm_rules]: "new_index_collection sizes al kind t vm = Some (r, vm') \<Longrightarrow> calm vm vm'"
  by (auto simp: new_index_collection_def calm_simps elim!: bind_SomeE split: vm_splits dest!: calm_rules keep_rules)

lemma new_class_calm [calm_rules]: "slp_vm_new_class sizes al name vm = Some (r, vm') \<Longrightarrow> calm vm vm'"
  by (auto simp: slp_vm_new_class_def calm_simps elim!: bind_SomeE split: vm_splits dest!: calm_rules keep_rules)

lemma update_java_calm [calm_rules]: "update_java a f vm = Some vm' \<Longrightarrow> calm vm vm'"
  by (auto simp: update_java_def calm_simps elim!: bind_SomeE split: vm_splits dest!: calm_rules keep_rules)

lemma new_java_object_calm [calm_rules]: "slp_vm_new_java_object sizes al n k vm = Some (r, vm') \<Longrightarrow> calm vm vm'"
  by (auto simp: slp_vm_new_java_object_def calm_simps elim!: bind_SomeE split: vm_splits dest!: calm_rules keep_rules)

lemma push_string_calm [calm_rules]: "push_string t l vm = Some vm' \<Longrightarrow> calm vm vm'"
  by (auto simp: push_string_def calm_simps elim!: bind_SomeE split: vm_splits dest!: calm_rules keep_rules)

lemma set_element_calm [calm_rules]: "set_element a i v vm = Some vm' \<Longrightarrow> calm vm vm'"
  by (auto simp: set_element_def calm_simps elim!: bind_SomeE split: vm_splits dest!: calm_rules keep_rules)

lemma set_entry_value_calm [calm_rules]: "set_entry_value a i v vm = Some vm' \<Longrightarrow> calm vm vm'"
  by (auto simp: set_entry_value_def calm_simps elim!: bind_SomeE split: vm_splits dest!: calm_rules keep_rules)

lemma wrap_taint_calm [calm_rules]: "wrap_taint sizes al v vm = Some (r, vm') \<Longrightarrow> calm vm vm'"
  by (auto simp: wrap_taint_def calm_simps elim!: bind_SomeE split: vm_splits dest!: calm_rules keep_rules)

lemma run_taint_calm: "run_taint sizes al t vm = Some r \<Longrightarrow> calm vm (snd r)"
proof (rule run_taint.raw_induct [where P = "\<lambda>sizes al t vm r. calm vm (snd r)"], goal_cases)
  case (1 run sizes al t vm r)
  note 1(2) [dest!]
  show ?case using 1(3)
    by (cases r) (auto simp: calm_simps elim!: bind_SomeE split: taint_task.split_asm vm_splits dest!: calm_rules keep_rules)
qed

lemma taint_value_calm [calm_rules]: "slp_vm_taint_value sizes al v vm = Some (r, vm') \<Longrightarrow> calm vm vm'"
  using run_taint_calm by (fastforce simp: slp_vm_taint_value_def)

lemma propagate_unary_calm [calm_rules]: "propagate_taint_unary sizes al x y vm = Some (r, vm') \<Longrightarrow> calm vm vm'"
  by (auto simp: propagate_taint_unary_def calm_simps elim!: bind_SomeE split: vm_splits dest!: calm_rules keep_rules)

lemma propagate_binary_calm [calm_rules]: "propagate_taint_binary sizes al x y z vm = Some (r, vm') \<Longrightarrow> calm vm vm'"
  by (auto simp: propagate_taint_binary_def calm_simps elim!: bind_SomeE split: vm_splits dest!: calm_rules keep_rules)

lemma update_closure_calm [calm_rules]: "update_closure a f vm = Some vm' \<Longrightarrow> calm vm vm'"
  by (auto simp: update_closure_def calm_simps elim!: bind_SomeE split: vm_splits dest!: calm_rules keep_rules)

lemma store_hash_calm [simp]: "calm vm (store_hash a r vm)"
  by (simp add: store_hash_def calm_simps)

lemma place_keeps_closure: "place p (OClosure c) h = (q, h') \<Longrightarrow> keeps h h'"
  by (auto elim: place_within)

lemma closure_new_keeps [keep_rules]: "slp_obj_closure_new p fn h = Some (q, h') \<Longrightarrow> keeps h h'"
  by (auto simp: slp_obj_closure_new_def keeps_def elim!: bind_SomeE split: option.split_asm dest!: place_keeps_closure)

lemma hash_set_at_calm [calm_rules]: "hash_set_at a k v vm = Some (r, vm') \<Longrightarrow> calm vm vm'"
  by (auto simp: hash_set_at_def store_hash_def calm_simps elim!: bind_SomeE split: vm_splits dest!: calm_rules keep_rules)

lemma ensure_scope_calm [calm_rules]: "ensure_closure_scope sizes al a vm = Some (r, vm') \<Longrightarrow> calm vm vm'"
  by (auto simp: ensure_closure_scope_def calm_simps elim!: bind_SomeE split: vm_splits dest!: calm_rules keep_rules)

lemma new_closure_object_calm [calm_rules]: "new_closure_object sizes al fn vm = Some (r, vm') \<Longrightarrow> calm vm vm'"
  by (auto simp: new_closure_object_def calm_simps elim!: bind_SomeE split: vm_splits dest!: calm_rules keep_rules)

lemma new_closure_calm [calm_rules]: "slp_vm_new_closure sizes al fn vm = Some (r, vm') \<Longrightarrow> calm vm vm'"
  by (auto simp: slp_vm_new_closure_def calm_simps elim!: bind_SomeE split: vm_splits dest!: calm_rules keep_rules)

lemma clone_closure_calm [calm_rules]: "slp_vm_clone_closure sizes al c vm = Some (r, vm') \<Longrightarrow> calm vm vm'"
  by (auto simp: slp_vm_clone_closure_def calm_simps elim!: bind_SomeE split: vm_splits dest!: calm_rules keep_rules)

lemma stringify_quoted_calm [calm_rules]: "stringify_quoted q sizes t p v vm = Some (r, vm') \<Longrightarrow> calm vm vm'"
  by (auto simp: stringify_quoted_def slp_vm_abort_warnings_def calm_simps elim!: bind_SomeE split: vm_splits dest!: calm_rules keep_rules)

lemma vm_stringify_calm [calm_rules]: "slp_vm_stringify sizes t p v vm = Some (r, vm') \<Longrightarrow> calm vm vm'"
  by (auto simp: slp_vm_stringify_def calm_simps elim!: bind_SomeE split: vm_splits dest!: calm_rules keep_rules)

lemma describe_value_calm [calm_rules]: "describe_value sizes t p v vm = Some (r, vm') \<Longrightarrow> calm vm vm'"
  by (auto simp: describe_value_def calm_simps elim!: bind_SomeE split: vm_splits dest!: calm_rules keep_rules)

lemma canonical_key_calm [calm_rules]: "canonical_hash_key sizes al k vm = Some (r, vm') \<Longrightarrow> calm vm vm'"
  by (auto simp: canonical_hash_key_def calm_simps elim!: bind_SomeE split: vm_splits dest!: calm_rules keep_rules)

lemma hash_delete_at_calm [calm_rules]: "hash_delete_at a k vm = Some (r, vm') \<Longrightarrow> calm vm vm'"
  by (auto simp: hash_delete_at_def store_hash_def calm_simps elim!: bind_SomeE split: vm_splits dest!: calm_rules keep_rules)

lemma hash_get_at_calm [calm_rules]: "hash_get_at a k vm = Some (r, vm') \<Longrightarrow> calm vm vm'"
  by (auto simp: hash_get_at_def store_hash_def calm_simps elim!: bind_SomeE split: vm_splits dest!: calm_rules keep_rules)

lemma hash_contains_calm [calm_rules]: "slp_vm_hash_contains sizes al a k vm = Some (r, vm') \<Longrightarrow> calm vm vm'"
  by (auto simp: slp_vm_hash_contains_def calm_simps elim!: bind_SomeE split: vm_splits dest!: calm_rules keep_rules)

lemma hash_delete_calm [calm_rules]: "slp_vm_hash_delete sizes al a k vm = Some (r, vm') \<Longrightarrow> calm vm vm'"
  by (auto simp: slp_vm_hash_delete_def calm_simps elim!: bind_SomeE split: vm_splits dest!: calm_rules keep_rules)

lemma set_regex_matches_calm [calm_rules]: "set_regex_matches m vm = Some vm' \<Longrightarrow> calm vm vm'"
  by (auto simp: set_regex_matches_def calm_simps elim!: bind_SomeE split: vm_splits dest!: calm_rules keep_rules)

subsection \<open>Operators\<close>

lemma erred [simp]:
  "vm_stack (slp_vm_runtime_error m vm) = vm_stack vm" "vm_frames (slp_vm_runtime_error m vm) = vm_frames vm"
  "vm_try_handlers (slp_vm_runtime_error m vm) = vm_try_handlers vm" "vm_heap (slp_vm_runtime_error m vm) = vm_heap vm"
  by (simp_all add: slp_vm_runtime_error_def)

lemma runtime_error_calm [simp]: "calm vm (slp_vm_runtime_error msg vm)"
  by (simp add: slp_vm_runtime_error_def calm_simps)

lemma make_long_value_calm [calm_rules]: "make_long_value x1 x2 x3 vm = Some (r, vm') \<Longrightarrow> calm vm vm'"
  by (auto simp: make_long_value_def calm_simps elim!: bind_SomeE split: vm_splits dest!: calm_rules keep_rules)

lemma make_double_value_calm [calm_rules]: "make_double_value x1 x2 x3 vm = Some (r, vm') \<Longrightarrow> calm vm vm'"
  by (auto simp: make_double_value_def calm_simps elim!: bind_SomeE split: vm_splits dest!: calm_rules keep_rules)

lemma arith_calm [calm_rules]: "arith x1 x2 x3 x4 x5 x6 x7 x8 vm = Some (r, vm') \<Longrightarrow> calm vm vm'"
  by (auto simp: arith_def calm_simps elim!: bind_SomeE split: vm_splits dest!: calm_rules keep_rules)

lemma divide_calm [calm_rules]: "divide x1 x2 x3 x4 x5 vm = Some (r, vm') \<Longrightarrow> calm vm vm'"
  by (auto simp: divide_def calm_simps slp_vm_runtime_error_def elim!: bind_SomeE split: vm_splits dest!: calm_rules keep_rules)

lemma concat_values_calm [calm_rules]: "concat_values x1 x2 x3 x4 vm = Some (r, vm') \<Longrightarrow> calm vm vm'"
  by (auto simp: concat_values_def calm_simps elim!: bind_SomeE split: vm_splits dest!: calm_rules keep_rules)

lemma bitwise_calm [calm_rules]: "bitwise x1 x2 x3 x4 x5 x6 x7 vm = Some (r, vm') \<Longrightarrow> calm vm vm'"
  by (auto simp: bitwise_def calm_simps elim!: bind_SomeE split: vm_splits dest!: calm_rules keep_rules)

lemma shift_calm [calm_rules]: "shift x1 x2 x3 x4 x5 x6 vm = Some (r, vm') \<Longrightarrow> calm vm vm'"
  by (auto simp: shift_def calm_simps elim!: bind_SomeE split: vm_splits dest!: calm_rules keep_rules)

lemma evaluate_assignment_operator_calm [calm_rules]: "evaluate_assignment_operator x1 x2 x3 x4 x5 x6 vm = Some (r, vm') \<Longrightarrow> calm vm vm'"
  by (auto simp: evaluate_assignment_operator_def calm_simps slp_vm_runtime_error_def elim!: bind_SomeE split: vm_splits dest!: calm_rules keep_rules)

subsection \<open>Traces and the profile\<close>

lemma copy_text_calm [calm_rules]: "copy_text H x1 vm = Some (r, vm') \<Longrightarrow> calm vm vm'"
  by (auto simp: copy_text_def calm_simps elim!: bind_SomeE split: vm_splits dest!: calm_rules keep_rules)

lemma copy_c_text_calm [calm_rules]: "copy_c_text H x1 vm = Some (r, vm') \<Longrightarrow> calm vm vm'"
  by (auto simp: copy_c_text_def calm_simps elim!: bind_SomeE split: vm_splits dest!: calm_rules keep_rules)

lemma describe_calm [calm_rules]: "describe H x1 vm = Some (r, vm') \<Longrightarrow> calm vm vm'"
  by (auto simp: describe_def calm_simps elim!: bind_SomeE split: vm_splits dest!: calm_rules keep_rules)

lemma stringify_calm [calm_rules]: "stringify H x1 vm = Some (r, vm') \<Longrightarrow> calm vm vm'"
  by (auto simp: stringify_def calm_simps elim!: bind_SomeE split: vm_splits dest!: calm_rules keep_rules)

lemma new_array_calm [calm_rules]: "new_array H vm = Some (r, vm') \<Longrightarrow> calm vm vm'"
  by (auto simp: new_array_def calm_simps elim!: bind_SomeE split: vm_splits dest!: calm_rules keep_rules)

lemma new_hash_calm [calm_rules]: "new_hash H vm = Some (r, vm') \<Longrightarrow> calm vm vm'"
  by (auto simp: new_hash_def calm_simps elim!: bind_SomeE split: vm_splits dest!: calm_rules keep_rules)

lemma array_push_calm [calm_rules]: "array_push x1 x2 vm = Some vm' \<Longrightarrow> calm vm vm'"
  by (auto simp: array_push_def calm_simps elim!: bind_SomeE split: vm_splits dest!: calm_rules keep_rules)

lemma slp_vm_write_calm [simp]: "calm vm (slp_vm_write x1 vm)"
  by (simp add: slp_vm_write_def calm_simps)

lemma wrote [simp]:
  "vm_stack (slp_vm_write m vm) = vm_stack vm" "vm_frames (slp_vm_write m vm) = vm_frames vm"
  "vm_try_handlers (slp_vm_write m vm) = vm_try_handlers vm" "vm_heap (slp_vm_write m vm) = vm_heap vm"
  by (simp_all add: slp_vm_write_def)

lemma write_all_calm [simp]: "calm vm (write_all ts vm)"
  unfolding write_all_def by (induction ts arbitrary: vm) (auto simp: slp_vm_write_def calm_simps)

lemma slp_vm_warning_calm [simp]: "calm vm (slp_vm_warning x1 vm)"
  by (simp add: slp_vm_warning_def calm_simps)

lemma slp_vm_abort_warning_calm [simp]: "calm vm (slp_vm_abort_warning x1 vm)"
  by (simp add: slp_vm_abort_warning_def calm_simps slp_vm_warning_def)

lemma written [simp]:
  "vm_stack (write_all ts vm) = vm_stack vm" "vm_frames (write_all ts vm) = vm_frames vm"
  "vm_try_handlers (write_all ts vm) = vm_try_handlers vm"
  "within C (vm_heap vm) \<Longrightarrow> within C (vm_heap (write_all ts vm))"
  using write_all_calm [of vm ts] by (auto simp: calm_simps)

lemma warned [simp]:
  "vm_stack (slp_vm_warning m vm) = vm_stack vm" "vm_frames (slp_vm_warning m vm) = vm_frames vm"
  "vm_try_handlers (slp_vm_warning m vm) = vm_try_handlers vm" "vm_heap (slp_vm_warning m vm) = vm_heap vm"
  by (simp_all add: slp_vm_warning_def)

lemma warned_abort [simp]:
  "vm_stack (slp_vm_abort_warning m vm) = vm_stack vm" "vm_frames (slp_vm_abort_warning m vm) = vm_frames vm"
  "vm_try_handlers (slp_vm_abort_warning m vm) = vm_try_handlers vm" "vm_heap (slp_vm_abort_warning m vm) = vm_heap vm"
  by (simp_all add: slp_vm_abort_warning_def)

lemma warn_invalid_index_calm [calm_rules]: "warn_invalid_index H x1 x2 vm = Some vm' \<Longrightarrow> calm vm vm'"
  by (auto simp: warn_invalid_index_def calm_simps elim!: bind_SomeE split: vm_splits dest!: calm_rules keep_rules)

lemma trace_unary_predicate_calm [calm_rules]: "trace_unary_predicate H x1 x2 x3 vm = Some vm' \<Longrightarrow> calm vm vm'"
  by (auto simp: trace_unary_predicate_def calm_simps elim!: bind_SomeE split: vm_splits dest!: calm_rules keep_rules)

lemma trace_binary_predicate_calm [calm_rules]: "trace_binary_predicate H x1 x2 x3 x4 vm = Some vm' \<Longrightarrow> calm vm vm'"
  by (auto simp: trace_binary_predicate_def calm_simps elim!: bind_SomeE split: vm_splits dest!: calm_rules keep_rules)

lemma intern_builder_calm [calm_rules]: "intern_builder H x1 vm = Some (r, vm') \<Longrightarrow> calm vm vm'"
  by (auto simp: intern_builder_def calm_simps slp_vm_abort_warnings_def elim!: bind_SomeE split: vm_splits dest!: calm_rules keep_rules)

lemma prepare_call_trace_calm [calm_rules]: "prepare_call_trace H x1 x2 x3 x4 vm = Some (r, vm') \<Longrightarrow> calm vm vm'"
  by (auto simp: prepare_call_trace_def calm_simps elim!: bind_SomeE split: vm_splits dest!: calm_rules keep_rules)

lemma describe_text_calm [calm_rules]: "describe_text H x1 vm = Some (r, vm') \<Longrightarrow> calm vm vm'"
  by (auto simp: describe_text_def calm_simps elim!: bind_SomeE split: vm_splits dest!: calm_rules keep_rules)

lemma finish_call_trace_calm [calm_rules]: "finish_call_trace H x1 x2 x3 x4 vm = Some vm' \<Longrightarrow> calm vm vm'"
  by (auto simp: finish_call_trace_def calm_simps elim!: bind_SomeE split: vm_splits dest!: calm_rules keep_rules)

lemma build_callcc_trace_call_calm [calm_rules]: "build_callcc_trace_call H x1 x2 vm = Some (r, vm') \<Longrightarrow> calm vm vm'"
  by (auto simp: build_callcc_trace_call_def calm_simps elim!: bind_SomeE split: vm_splits dest!: calm_rules keep_rules)

lemma calm_refl [simp]: "calm vm vm"
  by (simp add: calm_simps)

lemma profile_call_name_calm [calm_rules]: "profile_call_name H x1 x2 x3 x4 vm = Some (r, vm') \<Longrightarrow> calm vm vm'"
  by (auto simp: profile_call_name_def elim!: bind_SomeE dest!: copy_c_text_calm
      split: option.split_asm list.split_asm slp_value.split_asm obj.split_asm bool.split_asm if_split_asm)

lemma count_call_calm [calm_rules]: "count_call H x1 vm = Some vm' \<Longrightarrow> calm vm vm'"
  by (auto simp: count_call_def calm_simps elim!: bind_SomeE split: vm_splits dest!: calm_rules keep_rules)

lemma new_profile_calm [calm_rules]: "new_profile H x1 x2 vm = Some vm' \<Longrightarrow> calm vm vm'"
  by (auto simp: new_profile_def calm_simps elim!: bind_SomeE split: vm_splits dest!: calm_rules keep_rules)

lemma profile_record_calm [calm_rules]: "profile_record H x1 vm = Some vm' \<Longrightarrow> calm vm vm'"
  by (auto simp: profile_record_def calm_simps elim!: bind_SomeE split: vm_splits dest!: calm_rules keep_rules)

lemma stack_trace_append_calm [calm_rules]: "stack_trace_append H x1 x2 x3 x4 vm = Some vm' \<Longrightarrow> calm vm vm'"
  by (auto simp: stack_trace_append_def calm_simps elim!: bind_SomeE split: vm_splits dest!: calm_rules keep_rules)

lemma callee_text_calm [calm_rules]: "callee_text H x1 vm = Some (r, vm') \<Longrightarrow> calm vm vm'"
  by (auto simp: callee_text_def calm_simps elim!: bind_SomeE split: vm_splits dest!: calm_rules keep_rules)

lemma trace_frames_calm [calm_rules]: "trace_frames H trace fs vm = Some vm' \<Longrightarrow> calm vm vm'"
  by (induction fs arbitrary: vm) (auto simp: calm_simps elim!: bind_SomeE split: vm_splits dest!: calm_rules keep_rules)

lemma capture_stack_trace_calm [calm_rules]: "capture_stack_trace H x1 vm = Some vm' \<Longrightarrow> calm vm vm'"
  by (auto simp: capture_stack_trace_def calm_simps elim!: bind_SomeE split: vm_splits dest!: calm_rules keep_rules)

subsection \<open>Scopes\<close>

lemma put_object_fields [simp]:
  "vm_stack (put_object a ob vm) = vm_stack vm" "vm_frames (put_object a ob vm) = vm_frames vm"
  "vm_try_handlers (put_object a ob vm) = vm_try_handlers vm" "vm_heap (put_object a ob vm) = (vm_heap vm)(a \<mapsto> ob)"
  by (simp_all add: put_object_def)

lemma watched_cell_assign_calm [calm_rules]: "watched_cell_assign H x1 x2 vm = Some vm' \<Longrightarrow> calm vm vm'"
  by (auto simp: watched_cell_assign_def calm_simps elim!: bind_SomeE split: vm_splits dest!: calm_rules keep_rules)

lemma new_cell_calm [calm_rules]: "new_cell H x1 vm = Some (r, vm') \<Longrightarrow> calm vm vm'"
  by (auto simp: new_cell_def calm_simps elim!: bind_SomeE split: vm_splits dest!: calm_rules keep_rules)

lemma hash_get_raw_at_calm [calm_rules]: "hash_get_raw_at x1 x2 vm = Some (r, vm') \<Longrightarrow> calm vm vm'"
  by (auto simp: hash_get_raw_at_def calm_simps store_hash_def elim!: bind_SomeE split: vm_splits dest!: calm_rules keep_rules)

lemma hash_put_at_calm [calm_rules]: "hash_put_at x1 x2 x3 vm = Some vm' \<Longrightarrow> calm vm vm'"
  by (auto simp: hash_put_at_def calm_simps elim!: bind_SomeE split: vm_splits dest!: calm_rules keep_rules)

lemma assign_binding_calm [calm_rules]: "assign_binding H x1 x2 x3 vm = Some vm' \<Longrightarrow> calm vm vm'"
  by (auto simp: assign_binding_def calm_simps elim!: bind_SomeE split: vm_splits dest!: calm_rules keep_rules)

lemma warn_undeclared_variable_calm [calm_rules]: "warn_undeclared_variable x1 vm = Some vm' \<Longrightarrow> calm vm vm'"
  by (auto simp: warn_undeclared_variable_def calm_simps elim!: bind_SomeE split: vm_splits list.splits if_splits dest!: calm_rules keep_rules)

lemma implicit_variable_value_calm [calm_rules]: "implicit_variable_value H x1 vm = Some (r, vm') \<Longrightarrow> calm vm vm'"
  by (auto simp: implicit_variable_value_def calm_simps elim!: bind_SomeE split: vm_splits dest!: calm_rules keep_rules)

lemma scoped_variable_get_calm [calm_rules]: "scoped_variable_get x1 vm = Some (r, vm') \<Longrightarrow> calm vm vm'"
  by (auto simp: scoped_variable_get_def calm_simps elim!: bind_SomeE split: vm_splits dest!: calm_rules keep_rules)

lemma scoped_variable_set_calm [calm_rules]: "scoped_variable_set H x1 x2 vm = Some vm' \<Longrightarrow> calm vm vm'"
  by (auto simp: scoped_variable_set_def calm_simps elim!: bind_SomeE split: vm_splits dest!: calm_rules keep_rules)

lemma scoped_variable_reference_calm [calm_rules]: "scoped_variable_reference H x1 vm = Some (r, vm') \<Longrightarrow> calm vm vm'"
  by (auto simp: scoped_variable_reference_def calm_simps elim!: bind_SomeE split: vm_splits dest!: calm_rules keep_rules)

lemma load_variable_calm [calm_rules]: "load_variable H x1 vm = Some (r, vm') \<Longrightarrow> calm vm vm'"
  by (auto simp: load_variable_def calm_simps elim!: bind_SomeE split: vm_splits dest!: calm_rules keep_rules)

lemma store_variable_calm [calm_rules]: "store_variable H x1 x2 vm = Some vm' \<Longrightarrow> calm vm vm'"
  by (auto simp: store_variable_def calm_simps elim!: bind_SomeE split: vm_splits dest!: calm_rules keep_rules)

lemma reference_global_calm [calm_rules]: "reference_global H x1 vm = Some (r, vm') \<Longrightarrow> calm vm vm'"
  by (auto simp: reference_global_def calm_simps elim!: bind_SomeE split: vm_splits dest!: calm_rules keep_rules)

lemma slp_vm_assign_reference_calm [calm_rules]: "slp_vm_assign_reference H x1 x2 vm = Some (r, vm') \<Longrightarrow> calm vm vm'"
  by (auto simp: slp_vm_assign_reference_def calm_simps elim!: bind_SomeE split: vm_splits dest!: calm_rules keep_rules)

lemma initial_value_calm [calm_rules]: "initial_value H x1 vm = Some (r, vm') \<Longrightarrow> calm vm vm'"
  by (auto simp: initial_value_def calm_simps elim!: bind_SomeE split: vm_splits dest!: calm_rules keep_rules)

lemma declare_words_calm [calm_rules]: "declare_words H a ws vm = Some (r, vm') \<Longrightarrow> calm vm vm'"
  by (induction ws arbitrary: vm) (auto simp: calm_simps elim!: bind_SomeE split: vm_splits dest!: calm_rules keep_rules)

lemma declare_scope_variables_calm [calm_rules]: "declare_scope_variables H x1 x2 vm = Some (r, vm') \<Longrightarrow> calm vm vm'"
  by (auto simp: declare_scope_variables_def calm_simps elim!: bind_SomeE split: vm_splits dest!: calm_rules keep_rules)

lemma slp_vm_declare_local_calm [calm_rules]: "slp_vm_declare_local H x1 vm = Some (r, vm') \<Longrightarrow> calm vm vm'"
  by (auto simp: slp_vm_declare_local_def calm_simps elim!: bind_SomeE split: vm_splits dest!: calm_rules keep_rules)

lemma slp_vm_declare_closure_calm [calm_rules]: "slp_vm_declare_closure H x1 vm = Some (r, vm') \<Longrightarrow> calm vm vm'"
  by (auto simp: slp_vm_declare_closure_def calm_simps elim!: bind_SomeE split: vm_splits dest!: calm_rules keep_rules)

lemma slp_vm_declare_global_calm [calm_rules]: "slp_vm_declare_global H x1 vm = Some (r, vm') \<Longrightarrow> calm vm vm'"
  by (auto simp: slp_vm_declare_global_def calm_simps elim!: bind_SomeE split: vm_splits dest!: calm_rules keep_rules)

lemma close_upvalues_calm [calm_rules]: "close_upvalues n vm = Some vm' \<Longrightarrow> calm vm vm'"
proof (rule close_upvalues.raw_induct [where P = "\<lambda>n vm vm'. calm vm vm'"], goal_cases)
  case (1 close n vm vm')
  note 1(2) [dest!]
  show ?case using 1(3) by (auto simp: calm_simps elim!: bind_SomeE split: vm_splits upvalue_location.split_asm)
qed

lemma initialize_scope_calm [calm_rules]: "initialize_scope a vs vm = Some (r, vm') \<Longrightarrow> calm vm vm'"
  by (induction vs arbitrary: vm r) (auto simp: calm_simps elim!: bind_SomeE split: vm_splits dest!: calm_rules keep_rules)

lemma drop_scope_calm [calm_rules]: "drop_scope x1 vm = Some vm' \<Longrightarrow> calm vm vm'"
  by (auto simp: drop_scope_def calm_simps elim!: bind_SomeE split: vm_splits dest!: calm_rules keep_rules)

lemma slp_vm_push_local_scope_calm [calm_rules]: "slp_vm_push_local_scope H x1 vm = Some (r, vm') \<Longrightarrow> calm vm vm'"
  by (auto simp: slp_vm_push_local_scope_def calm_simps elim!: bind_SomeE split: vm_splits dest!: calm_rules keep_rules)

lemma slp_vm_pop_local_scope_calm [calm_rules]: "slp_vm_pop_local_scope x1 vm = Some (r, vm') \<Longrightarrow> calm vm vm'"
  by (auto simp: slp_vm_pop_local_scope_def calm_simps elim!: bind_SomeE split: vm_splits dest!: calm_rules keep_rules)

lemma set_watch_calm [calm_rules]: "set_watch H x1 x2 vm = Some (r, vm') \<Longrightarrow> calm vm vm'"
  by (auto simp: set_watch_def calm_simps elim!: bind_SomeE split: vm_splits dest!: calm_rules keep_rules)

lemma watch_words_calm [calm_rules]: "watch_words H ws vm = Some (r, vm') \<Longrightarrow> calm vm vm'"
  by (induction ws arbitrary: vm r) (auto simp: calm_simps elim!: bind_SomeE split: vm_splits dest!: calm_rules keep_rules)

lemma slp_vm_watch_variables_calm [calm_rules]: "slp_vm_watch_variables H x1 vm = Some (r, vm') \<Longrightarrow> calm vm vm'"
  by (auto simp: slp_vm_watch_variables_def calm_simps elim!: bind_SomeE split: vm_splits dest!: calm_rules keep_rules)

lemma slp_vm_set_scoped_value_calm [calm_rules]: "slp_vm_set_scoped_value H x1 x2 vm = Some (r, vm') \<Longrightarrow> calm vm vm'"
  by (auto simp: slp_vm_set_scoped_value_def calm_simps elim!: bind_SomeE split: vm_splits dest!: calm_rules keep_rules)

subsection \<open>Native functions\<close>

lemma push_captures_calm [calm_rules]: "push_captures H a s cs vm = Some vm' \<Longrightarrow> calm vm vm'"
  by (induction cs arbitrary: vm ) (auto simp: calm_simps elim!: bind_SomeE split: vm_splits dest!: calm_rules keep_rules)

lemma regex_failed_calm [calm_rules]: "regex_failed vm = Some (i, j, vm') \<Longrightarrow> calm vm vm'"
  by (auto simp: regex_failed_def elim!: bind_SomeE split: vm_splits dest!: calm_rules)

lemma regex_find_calm [calm_rules]: "slp_vm_regex_find H s p i b vm = Some (x, y, vm') \<Longrightarrow> calm vm vm'"
  by (auto simp: slp_vm_regex_find_def calm_simps elim!: bind_SomeE split: vm_splits dest!: calm_rules)

lemma regex_hasmatch_calm [calm_rules]: "regex_hasmatch H x1 x2 vm = Some (r, vm') \<Longrightarrow> calm vm vm'"
  by (auto simp: regex_hasmatch_def calm_simps elim!: bind_SomeE split: vm_splits dest!: calm_rules keep_rules)

lemma native_println_calm [calm_rules]: "native_println H x1 vm = Some (r, vm') \<Longrightarrow> calm vm vm'"
  by (auto simp: native_println_def calm_simps elim!: bind_SomeE split: vm_splits list.split_asm option.splits dest!: calm_rules keep_rules)

lemma array_push_all_calm [calm_rules]: "array_push_all a vs vm = Some vm' \<Longrightarrow> calm vm vm'"
  by (induction vs arbitrary: vm ) (auto simp: calm_simps elim!: bind_SomeE split: vm_splits dest!: calm_rules keep_rules)

lemma native_array_calm [calm_rules]: "native_array H x1 vm = Some (r, vm') \<Longrightarrow> calm vm vm'"
  by (auto simp: native_array_def calm_simps elim!: bind_SomeE split: vm_splits dest!: calm_rules keep_rules)

lemma native_push_calm [calm_rules]: "native_push x1 vm = Some (r, vm') \<Longrightarrow> calm vm vm'"
  by (auto simp: native_push_def calm_simps elim!: bind_SomeE split: vm_splits list.split_asm dest!: calm_rules keep_rules)

lemma native_pop_calm [calm_rules]: "native_pop x1 vm = Some (r, vm') \<Longrightarrow> calm vm vm'"
  by (auto simp: native_pop_def calm_simps elim!: bind_SomeE split: vm_splits list.split_asm dest!: calm_rules keep_rules)

lemma native_typeof_calm [calm_rules]: "native_typeof H x1 vm = Some (r, vm') \<Longrightarrow> calm vm vm'"
  by (auto simp: native_typeof_def calm_simps elim!: bind_SomeE split: vm_splits list.split_asm dest!: calm_rules keep_rules)

lemma push_keys_calm [calm_rules]: "push_keys a r0 is vm = Some vm' \<Longrightarrow> calm vm vm'"
  by (induction "is" arbitrary: vm ) (auto simp: calm_simps elim!: bind_SomeE split: vm_splits dest!: calm_rules keep_rules)

lemma native_keys_calm [calm_rules]: "native_keys H x1 vm = Some (r, vm') \<Longrightarrow> calm vm vm'"
  by (auto simp: native_keys_def calm_simps elim!: bind_SomeE split: vm_splits list.split_asm dest!: calm_rules keep_rules)

lemma native_debug_calm [calm_rules]: "native_debug x1 vm = Some (r, vm') \<Longrightarrow> calm vm vm'"
  by (auto simp: native_debug_def calm_simps elim!: bind_SomeE split: vm_splits list.split_asm dest!: calm_rules keep_rules)

lemma define_native_ex_calm [calm_rules]: "define_native_ex H x1 x2 x3 vm = Some vm' \<Longrightarrow> calm vm vm'"
  by (auto simp: define_native_ex_def calm_simps elim!: bind_SomeE split: vm_splits dest!: calm_rules keep_rules)

lemma define_natives_calm [calm_rules]: "define_natives H ns vm = Some vm' \<Longrightarrow> calm vm vm'"
  by (induction ns arbitrary: vm ) (auto simp: calm_simps elim!: bind_SomeE split: vm_splits dest!: calm_rules keep_rules)

lemma define_builtins_calm [calm_rules]: "define_builtins H vm = Some vm' \<Longrightarrow> calm vm vm'"
  by (auto simp: define_builtins_def calm_simps elim!: bind_SomeE split: vm_splits dest!: calm_rules keep_rules)

end
