(* ===== verification/VM_Bounds.thy ===== *)
theory VM_Bounds
  imports VM_Frame
begin

text \<open>
  The fixed arrays of \<open>SlpVM\<close> are never overrun: whatever bytecode runs, the value stack has at most
  \<open>SLP_STACK_MAX\<close> values, there are at most \<open>SLP_MAX_FRAMES\<close> frames and \<open>SLP_MAX_HANDLERS\<close> handlers. A
  continuation restores a saved context without a check, so the invariant speaks of the saved contexts as
  well. Native functions and bridges of the host are assumed to keep it.
\<close>

named_theorems safe_rules \<open>operations that keep the bounds\<close>

definition small_context :: "obj_continuation \<Rightarrow> bool" where
  "small_context k \<longleftrightarrow> length (cn_stack k) \<le> SLP_STACK_MAX \<and> length (cn_frames k) \<le> SLP_MAX_FRAMES \<and>
     length (cn_try_handlers k) \<le> SLP_MAX_HANDLERS"

definition bounded :: "vm \<Rightarrow> bool" where
  "bounded vm \<longleftrightarrow> length (vm_stack vm) \<le> SLP_STACK_MAX \<and> length (vm_frames vm) \<le> SLP_MAX_FRAMES \<and>
     length (vm_try_handlers vm) \<le> SLP_MAX_HANDLERS \<and> within small_context (vm_heap vm)"

definition safe :: "vm \<Rightarrow> vm \<Rightarrow> bool" where
  "safe vm vm' \<longleftrightarrow> (bounded vm \<longrightarrow> bounded vm')"

definition safe_run :: "vm_run \<Rightarrow> bool" where
  "safe_run run \<longleftrightarrow> (\<forall>b n vm r vm'. run b n vm = Some (r, vm') \<longrightarrow> safe vm vm')"

definition safe_host :: "host \<Rightarrow> bool" where
  "safe_host H \<longleftrightarrow>
     (\<forall>run n args vm v vm'. safe_run run \<longrightarrow> h_native H run n args vm = Some (v, vm') \<longrightarrow> safe vm vm') \<and>
     (\<forall>k s n a vm vm'. h_bridge H k s n a vm = Some vm' \<longrightarrow> safe vm vm')"

lemma calm_safe: "calm vm vm' \<Longrightarrow> safe vm vm'"
  by (simp add: calm_simps safe_def bounded_def)

lemmas safe_of_calm = calm_rules [THEN calm_safe]

lemmas safe_simps = safe_def Let_def

subsection \<open>The value stack\<close>

lemma bounded_fields [simp]:
  "bounded (vm\<lparr>vm_warnings := w\<rparr>) = bounded vm" "bounded (vm\<lparr>vm_abort_requested := b\<rparr>) = bounded vm"
  "bounded (vm\<lparr>vm_flow_exit_requested := b\<rparr>) = bounded vm" "bounded (vm\<lparr>vm_errors := w\<rparr>) = bounded vm"
  "bounded (vm\<lparr>vm_open_upvalues := p\<rparr>) = bounded vm" "bounded (vm\<lparr>vm_thrown_exception := v\<rparr>) = bounded vm"
  "bounded (vm\<lparr>vm_next_closure_identity := i\<rparr>) = bounded vm" "bounded (vm\<lparr>vm_debug_flags := f\<rparr>) = bounded vm"
  by (simp_all add: bounded_def)

lemma bounded_written [simp]:
  "bounded (slp_vm_runtime_error m vm) = bounded vm" "bounded (slp_vm_warning m vm) = bounded vm"
  "bounded (slp_vm_abort_warning m vm) = bounded vm" "bounded (slp_vm_write m vm) = bounded vm"
  by (simp_all add: bounded_def)

lemma bounded_push [simp]: "bounded vm \<Longrightarrow> bounded (slp_vm_push v vm)"
  by (simp add: bounded_def slp_vm_push_def)

lemma bounded_push_all [simp]: "bounded vm \<Longrightarrow> bounded (push_all vs vm)"
  unfolding push_all_def by (induction vs arbitrary: vm) auto

lemma bounded_pop [simp]: "bounded vm \<Longrightarrow> bounded (snd (slp_vm_pop vm))"
  by (auto simp: bounded_def slp_vm_pop_def)

lemma pop_safe [safe_rules]: "slp_vm_pop vm = (v, vm') \<Longrightarrow> safe vm vm'"
  using bounded_pop [of vm] by (simp add: safe_def)

lemma pop2_safe [safe_rules]: "pop2 vm = (x, y, vm') \<Longrightarrow> safe vm vm'"
  by (auto simp: pop2_def safe_simps split: prod.split_asm dest!: safe_rules)

lemma bounded_store_hash [simp]: "bounded vm \<Longrightarrow> bounded (store_hash a r vm)"
  by (simp add: bounded_def store_hash_def)

lemma bounded_heap [simp]: "bounded vm \<Longrightarrow> keeps (vm_heap vm) h \<Longrightarrow> bounded (vm\<lparr>vm_heap := h\<rparr>)"
  by (simp add: bounded_def keeps_def)

lemma keeps_writes [simp]:
  "keeps h (h(a \<mapsto> OString x0))"
  "keeps h (h(a \<mapsto> OClass x1))"
  "keeps h (h(a \<mapsto> OJava x2))"
  "keeps h (h(a \<mapsto> OLong x3))"
  "keeps h (h(a \<mapsto> ODouble x4))"
  "keeps h (h(a \<mapsto> OArray x5))"
  "keeps h (h(a \<mapsto> OHash x6))"
  "keeps h (h(a \<mapsto> OFunction x7))"
  "keeps h (h(a \<mapsto> OClosure x8))"
  "keeps h (h(a \<mapsto> OUpvalue x9))"
  "keeps h (h(a \<mapsto> ONative x10))"
  "keeps h (h(a \<mapsto> OBridge x11))"
  "keeps h (h(a \<mapsto> OIOHandle x12))"
  "keeps h (h(a \<mapsto> OKeyValue x13))"
  "keeps h (h(a \<mapsto> OTainted x14))"
  "keeps h (h(a \<mapsto> OScalarCell x15))"
  by (simp_all add: keeps_def)

lemma bounded_put [simp]: "bounded vm \<Longrightarrow> keeps (vm_heap vm) ((vm_heap vm)(a \<mapsto> ob)) \<Longrightarrow> bounded (put_object a ob vm)"
  by (simp add: bounded_def keeps_def)

lemma cut_stack_safe [safe_rules]: "cut_stack n vm = Some vm' \<Longrightarrow> safe vm vm'"
  by (auto simp: cut_stack_def safe_def bounded_def split: if_split_asm)

lemma drop_top_safe [safe_rules]: "drop_top n vm = Some vm' \<Longrightarrow> safe vm vm'"
  by (auto simp: drop_top_def safe_def bounded_def split: if_split_asm)

lemma write_place_safe [safe_rules]: "write_place p v vm = Some vm' \<Longrightarrow> safe vm vm'"
  by (auto simp: write_place_def safe_def bounded_def elim!: bind_SomeE split: place.split_asm if_split_asm)

lemma write_slots_safe [safe_rules]: "write_slots i vs vm = Some vm' \<Longrightarrow> safe vm vm'"
  by (induction vs arbitrary: i vm) (auto simp: safe_def elim!: bind_SomeE dest!: safe_rules)

lemma update_frame_safe [safe_rules]: "update_frame f vm = Some vm' \<Longrightarrow> safe vm vm'"
  by (auto simp: update_frame_def safe_def bounded_def split: if_split_asm)

lemma set_top_safe [safe_rules]: "set_top v vm = Some vm' \<Longrightarrow> safe vm vm'"
  by (auto simp: set_top_def safe_def bounded_def split: if_split_asm)

lemma step_back_safe [safe_rules]: "step_back i vm = Some vm' \<Longrightarrow> safe vm vm'"
  by (auto simp: step_back_def safe_def bounded_def elim!: bind_SomeE split: if_split_asm)

lemma reverse_top_safe [safe_rules]: "reverse_top n vm = Some vm' \<Longrightarrow> safe vm vm'"
  by (auto simp: reverse_top_def safe_def bounded_def Let_def split: if_split_asm)

lemma bounded_trim [simp]: "bounded vm \<Longrightarrow> bounded (trim_try_handlers n vm)"
  using length_dropWhile_le [of "\<lambda>t. n < th_frame_count t" "rev (vm_try_handlers vm)"]
  by (simp add: trim_try_handlers_def bounded_def)

lemma bounded_take_frames [simp]: "bounded vm \<Longrightarrow> bounded (vm\<lparr>vm_frames := take n (vm_frames vm)\<rparr>)"
  by (auto simp: bounded_def)

lemma bounded_take_handlers [simp]:
  "bounded vm \<Longrightarrow> bounded (vm\<lparr>vm_try_handlers := take n (vm_try_handlers vm)\<rparr>)"
  "bounded vm \<Longrightarrow> bounded (vm\<lparr>vm_try_handlers := butlast (vm_try_handlers vm)\<rparr>)"
  by (auto simp: bounded_def)

lemma bounded_pop_frame [simp]: "bounded vm \<Longrightarrow> bounded (pop_frame vm)"
  by (auto simp: bounded_def pop_frame_def)

lemma bounded_set_frame [simp]: "bounded vm \<Longrightarrow> bounded (vm\<lparr>vm_frames := (vm_frames vm)[i := f]\<rparr>)"
  by (simp add: bounded_def)

subsection \<open>Errors, hashes with policies and slots\<close>

definition safe_call :: "vm_call \<Rightarrow> bool" where
  "safe_call call \<longleftrightarrow> (\<forall>n vm r vm'. call n vm = Some (r, vm') \<longrightarrow> safe vm vm')"

lemma call_safe: "safe_call call \<Longrightarrow> call n vm = Some (r, vm') \<Longrightarrow> safe vm vm'"
  by (auto simp: safe_call_def)

lemma run_safe: "safe_run run \<Longrightarrow> run b n vm = Some (r, vm') \<Longrightarrow> safe vm vm'"
  by (auto simp: safe_run_def)

lemma call_of_safe: "safe_run run \<Longrightarrow> safe_call (call_of run)"
  by (auto simp: safe_call_def call_of_def safe_run_def elim!: bind_SomeE split: prod.split_asm)

lemma slp_vm_new_error_safe [safe_rules]: "slp_vm_new_error x1 x2 x3 x4 x5 x6 vm = Some (r, vm') \<Longrightarrow> safe vm vm'"
  by (auto simp: slp_vm_new_error_def safe_simps elim!: bind_SomeE split: vm_splits
      dest!: safe_rules safe_of_calm keep_rules)

lemma after_removal_safe [safe_rules]: "after_removal x1 x2 x3 x4 x5 vm = Some (r, vm') \<Longrightarrow> safe vm vm'"
  by (auto simp: after_removal_def safe_simps elim!: bind_SomeE split: vm_splits
      dest!: safe_rules safe_of_calm keep_rules)

lemma hash_set_canonical_safe [safe_rules]:
  assumes "hash_set_canonical call x1 x2 x3 x4 x5 vm = Some (r, vm')" "safe_call call"
  shows "safe vm vm'"
  using assms by (auto simp: hash_set_canonical_def safe_simps elim!: bind_SomeE split: vm_splits
      dest!: safe_rules safe_of_calm keep_rules call_safe [OF assms(2)])

lemma ask_miss_policy_safe [safe_rules]:
  assumes "ask_miss_policy call x1 x2 x3 x4 x5 x6 vm = Some (r, vm')" "safe_call call"
  shows "safe vm vm'"
  using assms by (auto simp: ask_miss_policy_def safe_simps elim!: bind_SomeE split: vm_splits
      dest!: safe_rules safe_of_calm keep_rules call_safe [OF assms(2)])

lemma slp_vm_hash_get_safe [safe_rules]:
  assumes "slp_vm_hash_get call x1 x2 x3 x4 vm = Some (r, vm')" "safe_call call"
  shows "safe vm vm'"
  using assms by (auto simp: slp_vm_hash_get_def safe_simps elim!: bind_SomeE split: vm_splits
      dest!: safe_rules safe_of_calm keep_rules call_safe [OF assms(2)])

lemma slp_vm_hash_set_safe [safe_rules]:
  assumes "slp_vm_hash_set call x1 x2 x3 x4 x5 vm = Some (r, vm')" "safe_call call"
  shows "safe vm vm'"
  using assms by (auto simp: slp_vm_hash_set_def safe_simps elim!: bind_SomeE split: vm_splits
      dest!: safe_rules safe_of_calm keep_rules call_safe [OF assms(2)])

lemma slot_reference_safe [safe_rules]: "slot_reference H x1 vm = Some (r, vm') \<Longrightarrow> safe vm vm'"
  by (auto simp: slot_reference_def safe_simps elim!: bind_SomeE split: vm_splits
      dest!: safe_rules safe_of_calm keep_rules)

lemma slot_assign_safe [safe_rules]: "slot_assign H x1 x2 vm = Some vm' \<Longrightarrow> safe vm vm'"
  by (auto simp: slot_assign_def safe_simps elim!: bind_SomeE split: vm_splits
      dest!: safe_rules safe_of_calm keep_rules)

lemma hash_set_safe [safe_rules]:
  assumes "hash_set run H x1 x2 x3 vm = Some (r, vm')" "safe_host H" "safe_run run"
  shows "safe vm vm'"
  using assms by (auto simp: hash_set_def safe_simps elim!: bind_SomeE split: vm_splits
      dest!: safe_rules safe_of_calm keep_rules run_safe [OF assms(3)] intro!: call_of_safe)

lemma hash_arguments_safe [safe_rules]:
  assumes "hash_arguments run H a vs vm = Some vm'" "safe_host H" "safe_run run"
  shows "safe vm vm'"
  using assms(1)
proof (induction vs arbitrary: vm rule: length_induct)
  case (1 vs vm)
  have IH: "hash_arguments run H a ys vm1 = Some vm' \<Longrightarrow> length ys < length vs \<Longrightarrow> safe vm1 vm'" for ys vm1
    using 1(1) by blast
  show ?case
  proof (cases vs)
    case Nil
    then show ?thesis using 1(2) by (simp add: safe_def)
  next
    case (Cons v ws)
    note IH [unfolded Cons, dest!]
    show ?thesis using 1(2) unfolding Cons
      by (auto simp: safe_def assms elim!: bind_SomeE split: option.split_asm prod.split_asm sum.split_asm list.split_asm
          dest!: safe_rules safe_of_calm)
  qed
qed

subsection \<open>Native functions\<close>

lemma native_hash_safe [safe_rules]:
  assumes "native_hash run H x1 vm = Some (r, vm')" "safe_host H" "safe_run run"
  shows "safe vm vm'"
  using assms by (auto simp: native_hash_def safe_simps elim!: bind_SomeE split: vm_splits
      dest!: safe_rules safe_of_calm keep_rules run_safe [OF assms(3)] intro!: call_of_safe)

lemma remove_from_frame_safe [safe_rules]: "remove_from_frame x1 vm = Some (r, vm') \<Longrightarrow> safe vm vm'"
  by (auto simp: remove_from_frame_def safe_simps elim!: bind_SomeE split: vm_splits
      dest!: safe_rules safe_of_calm keep_rules)

lemma remove_in_frames_safe [safe_rules]: "remove_in_frames n vm = Some (r, vm') \<Longrightarrow> safe vm vm'"
  by (induction n arbitrary: vm) (auto simp: safe_def elim!: bind_SomeE split: vm_splits dest!: safe_rules)

lemma native_remove_safe [safe_rules]: "native_remove H x1 vm = Some (r, vm') \<Longrightarrow> safe vm vm'"
  by (auto simp: native_remove_def safe_simps elim!: bind_SomeE split: vm_splits list.split_asm
      dest!: safe_rules safe_of_calm keep_rules)

lemma native_function_safe [safe_rules]:
  assumes "native_function H run n args vm = Some (v, vm')" "safe_host H" "safe_run run"
  shows "safe vm vm'"
proof -
  have "safe vm vm'" if "h_native H run (n - 11) args vm = Some (v, vm')"
    using that assms(2,3) unfolding safe_host_def by blast
  then show ?thesis
    using assms(1) unfolding native_function_def
    by (auto simp: safe_def assms split: if_split_asm dest!: safe_rules safe_of_calm)
qed

subsection \<open>Calls\<close>

lemma answer_null_safe [safe_rules]: "answer_null x1 vm = Some (r, vm') \<Longrightarrow> safe vm vm'"
  by (auto simp: answer_null_def safe_simps elim!: bind_SomeE split: vm_splits
      dest!: safe_rules safe_of_calm keep_rules)

lemma clear_coroutine_state_safe [safe_rules]: "clear_coroutine_state x1 vm = Some vm' \<Longrightarrow> safe vm vm'"
  by (auto simp: clear_coroutine_state_def safe_simps elim!: bind_SomeE split: vm_splits
      dest!: safe_rules safe_of_calm keep_rules)

lemma capture_coroutine_try_handlers_safe [safe_rules]: "capture_coroutine_try_handlers x1 x2 x3 vm = Some vm' \<Longrightarrow> safe vm vm'"
  by (auto simp: capture_coroutine_try_handlers_def safe_simps elim!: bind_SomeE split: vm_splits
      dest!: safe_rules safe_of_calm keep_rules)

lemma bind_named_safe [safe_rules]: "bind_named p kvs vm = Some (r, vm') \<Longrightarrow> safe vm vm'"
  by (induction kvs arbitrary: vm) (auto simp: safe_def elim!: bind_SomeE split: vm_splits dest!: safe_rules safe_of_calm)

lemma bind_named_arguments_safe [safe_rules]: "bind_named_arguments x1 x2 vm = Some (r, vm') \<Longrightarrow> safe vm vm'"
  by (auto simp: bind_named_arguments_def safe_simps elim!: bind_SomeE split: vm_splits
      dest!: safe_rules safe_of_calm keep_rules)

lemma arguments_array_safe [safe_rules]: "arguments_array H x1 vm = Some (r, vm') \<Longrightarrow> safe vm vm'"
  by (auto simp: arguments_array_def safe_simps elim!: bind_SomeE split: vm_splits
      dest!: safe_rules safe_of_calm keep_rules)

lemma call_failed_safe [safe_rules]: "call_failed x1 vm = Some (r, vm') \<Longrightarrow> safe vm vm'"
  by (auto simp: call_failed_def safe_simps elim!: bind_SomeE split: vm_splits
      dest!: safe_rules safe_of_calm keep_rules)

lemma refuse_name_safe [safe_rules]: "refuse_name H x1 x2 x3 vm = Some (r, vm') \<Longrightarrow> safe vm vm'"
  by (auto simp: refuse_name_def safe_simps elim!: bind_SomeE split: vm_splits
      dest!: safe_rules safe_of_calm keep_rules)

lemma restore_frames_bounded [simp]:
  assumes "bounded vm" "length (vm_stack vm) + length (co_coroutine_stack c) \<le> SLP_STACK_MAX"
    "length (vm_frames vm) + length (co_coroutine_frames c) \<le> SLP_MAX_FRAMES"
    "length (vm_try_handlers vm) + length (co_coroutine_try_handlers c) \<le> SLP_MAX_HANDLERS"
  shows "bounded (restore_frames c n vm)"
  using assms by (simp add: bounded_def restore_frames_def)

lemma cut_stack_height: "cut_stack n vm = Some vm' \<Longrightarrow> safe vm vm' \<and> length (vm_stack vm') = n \<and> vm_frames vm' = vm_frames vm"
  by (auto simp: cut_stack_def safe_def bounded_def split: if_split_asm)

lemma resume_closure_safe [safe_rules]:
  "resume_closure H a c m trace slots msg pos named vm = Some (r, vm') \<Longrightarrow> safe vm vm'"
  unfolding resume_closure_def
  by (auto simp: safe_simps elim!: bind_SomeE split: option.split_asm if_split_asm prod.split_asm
      dest!: cut_stack_height arguments_array_safe call_failed_safe clear_coroutine_state_safe write_slots_safe write_place_safe
        bind_named_arguments_safe intro!: restore_frames_bounded)

lemma arguments_array_calm [calm_rules]: "arguments_array H vs vm = Some (r, vm') \<Longrightarrow> calm vm vm'"
  by (auto simp: arguments_array_def calm_simps elim!: bind_SomeE split: vm_splits dest!: calm_rules)

lemma callee_scopes_calm [calm_rules]: "callee_scopes H a c vm = Some (r, p, q, vm') \<Longrightarrow> calm vm vm'"
  by (auto simp: callee_scopes_def calm_simps elim!: bind_SomeE split: vm_splits dest!: calm_rules)

lemma push_frames [simp]: "vm_frames (slp_vm_push v vm) = vm_frames vm"
  by (simp add: slp_vm_push_def)

lemma push_all_frames [simp]: "vm_frames (push_all vs vm) = vm_frames vm"
  unfolding push_all_def by (induction vs arbitrary: vm) simp_all

lemma bounded_frames [simp]: "bounded vm \<Longrightarrow> length fs \<le> SLP_MAX_FRAMES \<Longrightarrow> bounded (vm\<lparr>vm_frames := fs\<rparr>)"
  by (simp add: bounded_def)

lemma calm_frames: "calm vm vm' \<Longrightarrow> safe vm vm' \<and> vm_frames vm' = vm_frames vm"
  by (simp add: calm_safe) (simp add: calm_def)

lemma enter_closure_safe:
  assumes "enter_closure H a c trace slots msg pos named vm = Some (r, vm')" "length (vm_frames vm) < SLP_MAX_FRAMES"
  shows "safe vm vm'"
  using assms unfolding enter_closure_def
  by (auto simp: safe_simps elim!: bind_SomeE split: option.split_asm if_split_asm prod.split_asm
      dest!: cut_stack_height arguments_array_calm [THEN calm_frames] callee_scopes_calm [THEN calm_frames]
        bind_named_arguments_safe call_failed_safe)

lemma call_closure_safe [safe_rules]: "call_closure H x1 x2 x3 x4 vm = Some (r, vm') \<Longrightarrow> safe vm vm'"
  by (auto simp: call_closure_def safe_simps elim!: bind_SomeE split: vm_splits
      dest!: safe_rules safe_of_calm keep_rules enter_closure_safe)

subsection \<open>Continuations\<close>

lemma bounded_continuation [simp]:
  "bounded vm \<Longrightarrow> small_context k \<Longrightarrow> bounded (put_object a (OContinuation k) vm)"
  by (auto simp: bounded_def intro: within_upd)

lemma get_continuation_small: "get_continuation (vm_heap vm) a = Some k \<Longrightarrow> bounded vm \<Longrightarrow> small_context k"
  by (auto simp: get_continuation_def bounded_def within_def split: option.split_asm obj.split_asm)

lemma update_continuation_safe:
  assumes "update_continuation a f vm = Some vm'" "\<And>k. bounded vm \<Longrightarrow> small_context k \<Longrightarrow> small_context (f k)"
  shows "safe vm vm'"
  using assms get_continuation_small unfolding update_continuation_def by (auto simp: safe_def elim!: bind_SomeE)

lemma continuation_new_safe [safe_rules]:
  "new_tracked sizes (slp_obj_continuation_new p) vm = Some (q, vm') \<Longrightarrow> safe vm vm'"
  by (auto simp: new_tracked_def slp_obj_continuation_new_def place_def track_object_def safe_def bounded_def small_context_def
      elim!: bind_SomeE split: option.split_asm intro!: within_upd)

lemma restore_context_bounded [simp]: "bounded vm \<Longrightarrow> small_context k \<Longrightarrow> bounded (restore_vm_context k vm)"
  by (simp add: bounded_def restore_vm_context_def small_context_def)

lemma capture_context_safe [safe_rules]: "capture_vm_context H n vm = Some (r, vm') \<Longrightarrow> safe vm vm'"
  unfolding capture_vm_context_def
  by (auto simp: safe_simps small_context_def bounded_def elim!: bind_SomeE split: option.split_asm if_split_asm
      dest!: continuation_new_safe update_continuation_safe)

lemma resume_frame_safe [safe_rules]: "resume_frame H x1 x2 x3 vm = Some (r, vm') \<Longrightarrow> safe vm vm'"
  by (auto simp: resume_frame_def safe_simps elim!: bind_SomeE split: vm_splits
      dest!: safe_rules safe_of_calm keep_rules)

lemma small_context_fields [simp]:
  "small_context (k\<lparr>cn_return_trace_call := x, cn_return_trace_source := y, cn_return_trace_line := z,
     cn_return_trace_enabled := w\<rparr>) = small_context k"
  by (simp add: small_context_def)

lemma call_continuation_safe [safe_rules]: "call_continuation H a n trace vm = Some (r, vm') \<Longrightarrow> safe vm vm'"
  unfolding call_continuation_def
  by (auto simp: safe_simps elim!: bind_SomeE split: option.split_asm if_split_asm prod.split_asm
      dest!: capture_context_safe call_failed_safe clear_coroutine_state_safe resume_frame_safe
        update_continuation_safe get_continuation_small)

subsection \<open>Calls of values\<close>

lemma call_native_safe [safe_rules]:
  assumes "call_native H run x1 x2 x3 vm = Some (r, vm')" "safe_host H" "safe_run run"
  shows "safe vm vm'"
  using assms by (auto simp: call_native_def safe_simps elim!: bind_SomeE split: vm_splits
      dest!: safe_rules safe_of_calm keep_rules run_safe [OF assms(3)] intro!: call_of_safe)

lemma named_parameters_safe [safe_rules]: "named_parameters H es vm = Some (r, vm') \<Longrightarrow> safe vm vm'"
  by (induction es arbitrary: vm r) (auto simp: safe_def elim!: bind_SomeE split: vm_splits dest!: safe_rules safe_of_calm)

lemma bind_environment_safe [safe_rules]: "bind_environment H x1 x2 vm = Some (r, vm') \<Longrightarrow> safe vm vm'"
  by (auto simp: bind_environment_def safe_simps elim!: bind_SomeE split: vm_splits
      dest!: safe_rules safe_of_calm keep_rules)

lemma prepare_invoke_safe [safe_rules]: "prepare_invoke H x1 vm = Some (r, vm') \<Longrightarrow> safe vm vm'"
  by (auto simp: prepare_invoke_def safe_simps elim!: bind_SomeE split: vm_splits
      dest!: safe_rules safe_of_calm keep_rules)

lemma start_call_safe [safe_rules]: "start_call H x1 x2 x3 x4 vm = Some (r, vm') \<Longrightarrow> safe vm vm'"
  by (auto simp: start_call_def safe_simps elim!: bind_SomeE split: vm_splits
      dest!: safe_rules safe_of_calm keep_rules)

lemma call_object_safe [safe_rules]:
  assumes "call_object H run x1 x2 x3 x4 vm = Some (r, vm')" "safe_host H" "safe_run run"
  shows "safe vm vm'"
  using assms by (auto simp: call_object_def safe_simps elim!: bind_SomeE split: vm_splits
      dest!: safe_rules safe_of_calm keep_rules run_safe [OF assms(3)] intro!: call_of_safe)

lemma call_value_safe [safe_rules]:
  assumes "call_value H run callee n m name vm = Some (r, vm')" "safe_host H" "safe_run run"
  shows "safe vm vm'"
proof -
  have "safe_host H \<longrightarrow> safe_run run \<longrightarrow> safe vm (snd (r, vm'))"
  proof (rule call_value.raw_induct [where P = "\<lambda>H run callee n m name vm r. safe_host H \<longrightarrow> safe_run run \<longrightarrow> safe vm (snd r)", OF _ assms(1)],
      goal_cases)
    case (1 f H run callee n m name vm r)
    note 1(1) [dest!]
    show ?case using 1(2)
      by (cases r) (auto simp: safe_def elim!: bind_SomeE split: prod.split_asm if_split_asm sum.split_asm dest!: safe_rules)
  qed
  with assms(2,3) show ?thesis by simp
qed

subsection \<open>Methods and predicates\<close>

lemma answers_safe [safe_rules]:
  "no_method vm = Some (r, vm') \<Longrightarrow> safe vm vm'" "answer v vm = Some (r, vm') \<Longrightarrow> safe vm vm'"
  "answer_object p vm = Some (r, vm') \<Longrightarrow> safe vm vm'"
  by (simp_all add: no_method_def answer_def answer_object_def safe_def)

lemma make_compile_error_safe [safe_rules]: "make_compile_error H x1 x2 x3 vm = Some (r, vm') \<Longrightarrow> safe vm vm'"
  by (auto simp: make_compile_error_def safe_simps elim!: bind_SomeE split: vm_splits
      dest!: safe_rules safe_of_calm keep_rules)

lemma current_thread_safe [safe_rules]: "current_thread H vm = Some (r, vm') \<Longrightarrow> safe vm vm'"
  by (auto simp: current_thread_def safe_simps elim!: bind_SomeE split: vm_splits
      dest!: safe_rules safe_of_calm keep_rules)

lemma io_new_keeps [keep_rules]: "slp_obj_io_handle_new p h = (q, h') \<Longrightarrow> keeps h h'"
  by (auto simp: slp_obj_io_handle_new_def elim: place_within)

lemma console_of_keeps [simp]: "keeps h (console_of h a)"
  by (auto simp: console_of_def keeps_def split: option.split obj.split)

lemma console_handle_calm [calm_rules]: "slp_vm_get_console_handle sizes al vm = Some (r, vm') \<Longrightarrow> calm vm vm'"
  using console_of_keeps unfolding slp_vm_get_console_handle_def
  by (auto simp: calm_simps elim!: bind_SomeE split: option.split_asm prod.split_asm dest!: calm_rules keep_rules)

lemmas console_handle_safe [safe_rules] = console_handle_calm [THEN calm_safe]

lemma class_method_safe [safe_rules]: "class_method H x1 x2 x3 x4 vm = Some (r, vm') \<Longrightarrow> safe vm vm'"
  by (auto simp: class_method_def safe_simps elim!: bind_SomeE split: vm_splits
      dest!: safe_rules safe_of_calm keep_rules)

lemma fill_list_safe [safe_rules]: "fill_list x1 x2 vm = Some vm' \<Longrightarrow> safe vm vm'"
  by (auto simp: fill_list_def safe_simps elim!: bind_SomeE split: vm_splits
      dest!: safe_rules safe_of_calm keep_rules)

lemma wrapped_value_safe [safe_rules]: "wrapped_value H x1 x2 x3 vm = Some (r, vm') \<Longrightarrow> safe vm vm'"
  by (auto simp: wrapped_value_def safe_simps elim!: bind_SomeE split: vm_splits
      dest!: safe_rules safe_of_calm keep_rules)

lemma construct_object_safe [safe_rules]: "construct_object H x1 x2 vm = Some (r, vm') \<Longrightarrow> safe vm vm'"
  by (auto simp: construct_object_def safe_simps elim!: bind_SomeE split: vm_splits list.split_asm
      dest!: safe_rules safe_of_calm keep_rules)

lemma field_in_safe [safe_rules]: "field_in x1 x2 vm = Some (r, vm') \<Longrightarrow> safe vm vm'"
  by (auto simp: field_in_def safe_simps elim!: bind_SomeE split: vm_splits
      dest!: safe_rules safe_of_calm keep_rules)

lemma java_field_safe [safe_rules]: "java_field x1 x2 vm = Some (r, vm') \<Longrightarrow> safe vm vm'"
  by (auto simp: java_field_def safe_simps elim!: bind_SomeE split: vm_splits
      dest!: safe_rules safe_of_calm keep_rules)

lemma print_stream_method_safe [safe_rules]: "print_stream_method H x1 x2 vm = Some (r, vm') \<Longrightarrow> safe vm vm'"
  by (auto simp: print_stream_method_def safe_simps elim!: bind_SomeE split: vm_splits list.split_asm option.splits
      dest!: safe_rules safe_of_calm keep_rules)

lemma error_method_safe [safe_rules]: "error_method x1 x2 x3 x4 vm = Some (r, vm') \<Longrightarrow> safe vm vm'"
  by (auto simp: error_method_def safe_simps elim!: bind_SomeE split: vm_splits
      dest!: safe_rules safe_of_calm keep_rules)

lemma statistic_method_safe [safe_rules]: "statistic_method H x1 x2 vm = Some (r, vm') \<Longrightarrow> safe vm vm'"
  by (auto simp: statistic_method_def safe_simps elim!: bind_SomeE split: vm_splits
      dest!: safe_rules safe_of_calm keep_rules)

lemma proxy_method_safe [safe_rules]:
  assumes "proxy_method run x1 x2 x3 vm = Some (r, vm')" "safe_run run"
  shows "safe vm vm'"
  using assms by (auto simp: proxy_method_def safe_simps elim!: bind_SomeE split: vm_splits
      dest!: safe_rules safe_of_calm keep_rules run_safe [OF assms(2)] intro!: call_of_safe)

lemma iterator_method_safe [safe_rules]: "iterator_method x1 x2 x3 x4 x5 vm = Some (r, vm') \<Longrightarrow> safe vm vm'"
  by (auto simp: iterator_method_def safe_simps elim!: bind_SomeE split: vm_splits
      dest!: safe_rules safe_of_calm keep_rules)

lemma clear_list_safe [safe_rules]: "clear_list x1 vm = Some vm' \<Longrightarrow> safe vm vm'"
  by (auto simp: clear_list_def safe_simps elim!: bind_SomeE split: vm_splits
      dest!: safe_rules safe_of_calm keep_rules)

lemma list_method_safe [safe_rules]: "list_method H x1 x2 x3 vm = Some (r, vm') \<Longrightarrow> safe vm vm'"
  by (auto simp: list_method_def safe_simps elim!: bind_SomeE split: vm_splits
      dest!: safe_rules safe_of_calm keep_rules)

lemma kind_method_safe [safe_rules]:
  assumes "kind_method H run x1 x2 x3 x4 x5 vm = Some (r, vm')" "safe_host H" "safe_run run"
  shows "safe vm vm'"
  using assms by (auto simp: kind_method_def safe_simps elim!: bind_SomeE split: vm_splits java_kind.split_asm
      dest!: safe_rules safe_of_calm keep_rules run_safe [OF assms(3)] intro!: call_of_safe)

lemma java_method_safe [safe_rules]:
  assumes "java_method H run x1 x2 x3 x4 vm = Some (r, vm')" "safe_host H" "safe_run run"
  shows "safe vm vm'"
  using assms by (auto simp: java_method_def safe_simps elim!: bind_SomeE split: vm_splits
      dest!: safe_rules safe_of_calm keep_rules run_safe [OF assms(3)] intro!: call_of_safe)

lemma string_method_safe [safe_rules]: "string_method H x1 x2 x3 vm = Some (r, vm') \<Longrightarrow> safe vm vm'"
  by (auto simp: string_method_def safe_simps elim!: bind_SomeE split: vm_splits
      dest!: safe_rules safe_of_calm keep_rules)

lemma call_builtin_object_method_safe [safe_rules]:
  assumes "call_builtin_object_method H run x1 vm = Some (r, vm')" "safe_host H" "safe_run run"
  shows "safe vm vm'"
  using assms by (auto simp: call_builtin_object_method_def safe_simps elim!: bind_SomeE split: vm_splits
      dest!: safe_rules safe_of_calm keep_rules run_safe [OF assms(3)] intro!: call_of_safe)

lemma test_unary_safe [safe_rules]: "test_unary H x1 x2 vm = Some (r, vm') \<Longrightarrow> safe vm vm'"
  by (auto simp: test_unary_def safe_simps elim!: bind_SomeE split: vm_splits
      dest!: safe_rules safe_of_calm keep_rules)

lemma is_in_safe [safe_rules]: "is_in H x1 x2 vm = Some (r, vm') \<Longrightarrow> safe vm vm'"
  by (auto simp: is_in_def safe_simps elim!: bind_SomeE split: vm_splits
      dest!: safe_rules safe_of_calm keep_rules)

lemma is_a_safe [safe_rules]: "is_a x1 x2 vm = Some (r, vm') \<Longrightarrow> safe vm vm'"
  by (auto simp: is_a_def safe_simps elim!: bind_SomeE split: vm_splits
      dest!: safe_rules safe_of_calm keep_rules)

lemma compare_texts_safe [safe_rules]: "compare_texts H x1 x2 x3 vm = Some (r, vm') \<Longrightarrow> safe vm vm'"
  by (auto simp: compare_texts_def safe_simps elim!: bind_SomeE split: vm_splits
      dest!: safe_rules safe_of_calm keep_rules)

lemma regex_predicate_safe [safe_rules]: "regex_predicate H x1 x2 x3 vm = Some (r, vm') \<Longrightarrow> safe vm vm'"
  by (auto simp: regex_predicate_def safe_simps elim!: bind_SomeE split: vm_splits
      dest!: safe_rules safe_of_calm keep_rules regex_find_calm [THEN calm_safe])

text \<open>A dispatcher is followed into every branch, its conditions do not matter.\<close>

lemma if_SomeE: "(if b then x else y) = Some z \<Longrightarrow> (x = Some z \<Longrightarrow> thesis) \<Longrightarrow> (y = Some z \<Longrightarrow> thesis) \<Longrightarrow> thesis"
  by (cases b) auto

lemma binary_predicate_safe [safe_rules]: "binary_predicate H x1 x2 x3 vm = Some (r, vm') \<Longrightarrow> safe vm vm'"
  unfolding binary_predicate_def
  by (elim if_SomeE; auto simp: safe_def elim!: bind_SomeE split: prod.split_asm
      dest!: compare_texts_safe regex_predicate_safe is_in_safe is_a_safe)

lemma test_binary_safe [safe_rules]: "test_binary H x1 x2 x3 x4 vm = Some (r, vm') \<Longrightarrow> safe vm vm'"
  by (auto simp: test_binary_def safe_simps elim!: bind_SomeE split: vm_splits
      dest!: safe_rules safe_of_calm keep_rules)

lemma test_match_safe [safe_rules]: "test_match H x1 x2 x3 vm = Some (r, vm') \<Longrightarrow> safe vm vm'"
  by (auto simp: test_match_def safe_simps elim!: bind_SomeE split: vm_splits
      dest!: safe_rules safe_of_calm keep_rules regex_find_calm [THEN calm_safe])

subsection \<open>Instructions within a frame\<close>

lemma outcomes_safe [safe_rules]:
  "proceed vm = Some (r, vm') \<Longrightarrow> safe vm vm'" "stop x vm = Some (r, vm') \<Longrightarrow> safe vm vm'"
  "stop_error m vm = Some (r, vm') \<Longrightarrow> safe vm vm'" "push_next v vm = Some (r, vm') \<Longrightarrow> safe vm vm'"
  by (auto simp: proceed_def stop_def stop_error_def push_next_def safe_def)

lemma read_byte_safe [safe_rules]: "read_byte vm = Some (r, vm') \<Longrightarrow> safe vm vm'"
  by (auto simp: read_byte_def safe_simps elim!: bind_SomeE split: vm_splits
      dest!: safe_rules safe_of_calm keep_rules)

lemma read_short_safe [safe_rules]: "read_short vm = Some (r, vm') \<Longrightarrow> safe vm vm'"
  by (auto simp: read_short_def safe_simps elim!: bind_SomeE split: vm_splits
      dest!: safe_rules safe_of_calm keep_rules)

lemma read_constant_safe [safe_rules]: "read_constant vm = Some (r, vm') \<Longrightarrow> safe vm vm'"
  by (auto simp: read_constant_def safe_simps elim!: bind_SomeE split: vm_splits
      dest!: safe_rules safe_of_calm keep_rules)

lemma jump_by_safe [safe_rules]: "jump_by x1 vm = Some vm' \<Longrightarrow> safe vm vm'"
  by (auto simp: jump_by_def safe_simps elim!: bind_SomeE split: vm_splits
      dest!: safe_rules safe_of_calm keep_rules)

lemma load_place_safe [safe_rules]: "load_place x1 vm = Some (r, vm') \<Longrightarrow> safe vm vm'"
  by (auto simp: load_place_def safe_simps elim!: bind_SomeE split: vm_splits
      dest!: safe_rules safe_of_calm keep_rules)

lemma store_place_safe [safe_rules]: "store_place H x1 vm = Some (r, vm') \<Longrightarrow> safe vm vm'"
  by (auto simp: store_place_def safe_simps elim!: bind_SomeE split: vm_splits
      dest!: safe_rules safe_of_calm keep_rules)

lemma reference_place_safe [safe_rules]: "reference_place H x1 vm = Some (r, vm') \<Longrightarrow> safe vm vm'"
  by (auto simp: reference_place_def safe_simps elim!: bind_SomeE split: vm_splits
      dest!: safe_rules safe_of_calm keep_rules)

lemma exec_local_safe [safe_rules]: "exec_local H x1 vm = Some (r, vm') \<Longrightarrow> safe vm vm'"
  by (auto simp: exec_local_def safe_simps elim!: bind_SomeE split: vm_splits
      dest!: safe_rules safe_of_calm keep_rules)

lemma exec_scoped_safe [safe_rules]: "exec_scoped H x1 vm = Some (r, vm') \<Longrightarrow> safe vm vm'"
  by (auto simp: exec_scoped_def safe_simps elim!: bind_SomeE split: vm_splits
      dest!: safe_rules safe_of_calm keep_rules)

lemma exec_upvalue_safe [safe_rules]: "exec_upvalue H x1 vm = Some (r, vm') \<Longrightarrow> safe vm vm'"
  by (auto simp: exec_upvalue_def safe_simps elim!: bind_SomeE split: vm_splits
      dest!: safe_rules safe_of_calm keep_rules)

definition safe_operator :: "operator \<Rightarrow> bool" where
  "safe_operator f \<longleftrightarrow> (\<forall>a b vm r vm'. f a b vm = Some (r, vm') \<longrightarrow> safe vm vm')"

lemma operator_safe: "safe_operator f \<Longrightarrow> f a b vm = Some (r, vm') \<Longrightarrow> safe vm vm'"
  by (auto simp: safe_operator_def)

lemma operators_applied_safe:
  assumes "safe_operator f"
  shows "tainting H f vm = Some (r, vm') \<Longrightarrow> safe vm vm'" "plain f vm = Some (r, vm') \<Longrightarrow> safe vm vm'"
  by (auto simp: tainting_def plain_def safe_simps elim!: bind_SomeE split: option.split_asm prod.split_asm
      dest!: safe_rules propagate_binary_calm [THEN calm_safe] operator_safe [OF assms])

lemma modulo_safe [safe_rules]: "modulo H x1 y1 y2 vm = Some (r, vm') \<Longrightarrow> safe vm vm'"
  by (auto simp: modulo_def safe_simps elim!: bind_SomeE split: vm_splits
      dest!: safe_rules safe_of_calm keep_rules)

lemma power_safe [safe_rules]: "power H y1 y2 vm = Some (r, vm') \<Longrightarrow> safe vm vm'"
  by (auto simp: power_def safe_simps elim!: bind_SomeE split: vm_splits
      dest!: safe_rules safe_of_calm keep_rules)

lemma concatenate_safe [safe_rules]: "concatenate H y1 y2 vm = Some (r, vm') \<Longrightarrow> safe vm vm'"
  by (auto simp: concatenate_def safe_simps elim!: bind_SomeE split: vm_splits
      dest!: safe_rules safe_of_calm keep_rules)

lemma align_safe [safe_rules]: "align H y1 y2 vm = Some (r, vm') \<Longrightarrow> safe vm vm'"
  by (auto simp: align_def safe_simps elim!: bind_SomeE split: vm_splits
      dest!: safe_rules safe_of_calm keep_rules)

lemma repeat_text_safe [safe_rules]: "repeat_text H y1 y2 vm = Some (r, vm') \<Longrightarrow> safe vm vm'"
  by (auto simp: repeat_text_def safe_simps elim!: bind_SomeE split: vm_splits
      dest!: safe_rules safe_of_calm keep_rules)

lemma unary_arith_safe [safe_rules]: "unary_arith H x1 x2 x3 x4 vm = Some (r, vm') \<Longrightarrow> safe vm vm'"
  by (auto simp: unary_arith_def safe_simps elim!: bind_SomeE split: vm_splits
      dest!: safe_rules safe_of_calm keep_rules)

lemma bit_not_safe [safe_rules]: "bit_not H x1 vm = Some (r, vm') \<Longrightarrow> safe vm vm'"
  by (auto simp: bit_not_def safe_simps elim!: bind_SomeE split: vm_splits
      dest!: safe_rules safe_of_calm keep_rules)

lemma safe_operators:
  "safe_operator (at_kind (arith sizes al ff lf fi))" "safe_operator (at_kind (divide sizes al))"
  "safe_operator (at_kind (modulo H))" "safe_operator (power H)" "safe_operator (concatenate H)" "safe_operator (align H)"
  "safe_operator (repeat_text H)" "safe_operator (at_kind (bitwise sizes al lf fi))" "safe_operator (shift sizes al lg fh)"
  unfolding safe_operator_def at_kind_def
  by (auto elim!: bind_SomeE dest!: safe_of_calm dest: modulo_safe power_safe concatenate_safe align_safe repeat_text_safe)

lemma exec_arith_safe [safe_rules]: "exec_arith H opcode vm = Some (r, vm') \<Longrightarrow> safe vm vm'"
  unfolding exec_arith_def by (elim if_SomeE; auto dest: operators_applied_safe [OF safe_operators(1)]
    operators_applied_safe [OF safe_operators(2)] operators_applied_safe [OF safe_operators(3)]
    operators_applied_safe [OF safe_operators(4)] operators_applied_safe [OF safe_operators(5)]
    operators_applied_safe [OF safe_operators(6)] operators_applied_safe [OF safe_operators(7)])

lemma exec_bits_safe [safe_rules]: "exec_bits H opcode vm = Some (r, vm') \<Longrightarrow> safe vm vm'"
  unfolding exec_bits_def by (elim if_SomeE; auto dest: operators_applied_safe [OF safe_operators(8)]
    operators_applied_safe [OF safe_operators(9)])

lemma exec_unary_safe [safe_rules]: "exec_unary H x1 vm = Some (r, vm') \<Longrightarrow> safe vm vm'"
  by (auto simp: exec_unary_def safe_simps elim!: bind_SomeE split: vm_splits
      dest!: safe_rules safe_of_calm keep_rules)

lemma exec_compare_safe [safe_rules]: "exec_compare H x1 vm = Some (r, vm') \<Longrightarrow> safe vm vm'"
  by (auto simp: exec_compare_def safe_simps elim!: bind_SomeE split: vm_splits
      dest!: safe_rules safe_of_calm keep_rules)

lemma exec_predicate_safe [safe_rules]: "exec_predicate H x1 vm = Some (r, vm') \<Longrightarrow> safe vm vm'"
  by (auto simp: exec_predicate_def safe_simps elim!: bind_SomeE split: vm_splits
      dest!: safe_rules safe_of_calm keep_rules)

lemma exec_stack_safe [safe_rules]: "exec_stack x1 vm = Some (r, vm') \<Longrightarrow> safe vm vm'"
  by (auto simp: exec_stack_def safe_simps elim!: bind_SomeE split: vm_splits
      dest!: safe_rules safe_of_calm keep_rules)

lemma exec_jump_safe [safe_rules]: "exec_jump x1 vm = Some (r, vm') \<Longrightarrow> safe vm vm'"
  by (auto simp: exec_jump_def safe_simps elim!: bind_SomeE split: vm_splits
      dest!: safe_rules safe_of_calm keep_rules)

lemma pop_into_safe [safe_rules]: "pop_into n a vm = Some vm' \<Longrightarrow> safe vm vm'"
  by (induction n arbitrary: vm) (auto simp: safe_simps elim!: bind_SomeE split: prod.split_asm dest!: safe_rules safe_of_calm)

lemma reverse_array_safe [safe_rules]: "reverse_array x1 vm = Some vm' \<Longrightarrow> safe vm vm'"
  by (auto simp: reverse_array_def safe_simps elim!: bind_SomeE split: vm_splits
      dest!: safe_rules safe_of_calm keep_rules)

lemma build_array_safe [safe_rules]: "build_array H x1 vm = Some (r, vm') \<Longrightarrow> safe vm vm'"
  by (auto simp: build_array_def safe_simps elim!: bind_SomeE split: vm_splits
      dest!: safe_rules safe_of_calm keep_rules)

lemma pop_entries_safe [safe_rules]:
  assumes "pop_entries run H n p vm = Some vm'" "safe_host H" "safe_run run"
  shows "safe vm vm'"
  using assms(1) by (induction n arbitrary: vm)
    (auto simp: safe_simps assms call_of_safe elim!: bind_SomeE split: prod.split_asm dest!: safe_rules)

lemma build_pair_safe [safe_rules]: "build_pair H vm = Some (r, vm') \<Longrightarrow> safe vm vm'"
  by (auto simp: build_pair_def safe_simps elim!: bind_SomeE split: vm_splits
      dest!: safe_rules safe_of_calm keep_rules)

lemma exec_build_safe [safe_rules]:
  assumes "exec_build run H x1 vm = Some (r, vm')" "safe_host H" "safe_run run"
  shows "safe vm vm'"
  using assms by (auto simp: exec_build_def safe_simps elim!: bind_SomeE split: vm_splits
      dest!: safe_rules safe_of_calm keep_rules run_safe [OF assms(3)] intro!: call_of_safe)

lemma closure_scope_at_safe [safe_rules]: "closure_scope_at H x1 vm = Some (r, vm') \<Longrightarrow> safe vm vm'"
  by (auto simp: closure_scope_at_def safe_simps elim!: bind_SomeE split: vm_splits
      dest!: safe_rules safe_of_calm keep_rules)

lemma script_hash_get_safe [safe_rules]:
  assumes "script_hash_get run H x1 x2 vm = Some (r, vm')" "safe_host H" "safe_run run"
  shows "safe vm vm'"
  using assms by (auto simp: script_hash_get_def safe_simps elim!: bind_SomeE split: vm_splits
      dest!: safe_rules safe_of_calm keep_rules run_safe [OF assms(3)] intro!: call_of_safe)

lemma index_get_safe [safe_rules]:
  assumes "index_get run H x1 x2 vm = Some (r, vm')" "safe_host H" "safe_run run"
  shows "safe vm vm'"
  using assms by (auto simp: index_get_def safe_simps elim!: bind_SomeE split: vm_splits
      dest!: safe_rules safe_of_calm keep_rules run_safe [OF assms(3)] intro!: call_of_safe)

lemma array_set_safe [safe_rules]: "array_set x1 x2 x3 vm = Some vm' \<Longrightarrow> safe vm vm'"
  by (auto simp: array_set_def safe_simps elim!: bind_SomeE split: vm_splits
      dest!: safe_rules safe_of_calm keep_rules)

lemma script_hash_set_safe [safe_rules]:
  assumes "script_hash_set run H x1 x2 x3 vm = Some vm'" "safe_host H" "safe_run run"
  shows "safe vm vm'"
  using assms by (auto simp: script_hash_set_def safe_simps elim!: bind_SomeE split: vm_splits
      dest!: safe_rules safe_of_calm keep_rules run_safe [OF assms(3)] intro!: call_of_safe)

lemma ensured_safe:
  assumes "ensured H kind t old store vm = Some (r, vm')" "\<And>v vm vm'. store v vm = Some vm' \<Longrightarrow> safe vm vm'"
  shows "safe vm vm'"
  using assms(1) unfolding ensured_def
  by (auto simp: safe_simps elim!: bind_SomeE split: option.split_asm if_split_asm prod.split_asm
      dest!: assms(2) safe_rules safe_of_calm)

lemma index_ensure_safe [safe_rules]:
  assumes "index_ensure run H x1 x2 x3 vm = Some (r, vm')" "safe_host H" "safe_run run"
  shows "safe vm vm'"
  using assms by (auto simp: index_ensure_def safe_simps elim!: bind_SomeE split: vm_splits
      dest!: safe_rules safe_of_calm keep_rules ensured_safe run_safe [OF assms(3)] intro!: call_of_safe)

lemma index_set_safe [safe_rules]:
  assumes "index_set run H x1 x2 x3 vm = Some (r, vm')" "safe_host H" "safe_run run"
  shows "safe vm vm'"
  using assms by (auto simp: index_set_def safe_simps elim!: bind_SomeE split: vm_splits
      dest!: safe_rules safe_of_calm keep_rules run_safe [OF assms(3)] intro!: call_of_safe)

lemma exec_index_safe [safe_rules]:
  assumes "exec_index run H x1 vm = Some (r, vm')" "safe_host H" "safe_run run"
  shows "safe vm vm'"
  using assms by (auto simp: exec_index_def safe_simps elim!: bind_SomeE split: vm_splits
      dest!: safe_rules safe_of_calm keep_rules run_safe [OF assms(3)] intro!: call_of_safe)

lemma tuple_get_safe [safe_rules]: "tuple_get vm = Some (r, vm') \<Longrightarrow> safe vm vm'"
  by (auto simp: tuple_get_def safe_simps elim!: bind_SomeE split: vm_splits
      dest!: safe_rules safe_of_calm keep_rules)

lemma compound_value_safe [safe_rules]: "compound_value H x1 x2 x3 vm = Some (r, vm') \<Longrightarrow> safe vm vm'"
  by (auto simp: compound_value_def safe_simps elim!: bind_SomeE split: vm_splits
      dest!: safe_rules safe_of_calm keep_rules)

lemma compound_elements_safe [safe_rules]: "compound_elements H op t src right i vm = Some (r, vm') \<Longrightarrow> safe vm vm'"
proof -
  assume c: "compound_elements H op t src right i vm = Some (r, vm')"
  have "safe vm (snd (r, vm'))"
  proof (rule compound_elements.raw_induct [where P = "\<lambda>H op t src right i vm r. safe vm (snd r)", OF _ c], goal_cases)
    case (1 f H op t src right i vm r)
    note 1(1) [dest!]
    show ?case using 1(2)
      by (cases r) (auto simp: safe_def elim!: bind_SomeE split: option.split_asm prod.split_asm if_split_asm dest!: safe_rules)
  qed
  then show ?thesis by simp
qed

lemma tuple_compound_safe [safe_rules]: "tuple_compound H vm = Some (r, vm') \<Longrightarrow> safe vm vm'"
  by (auto simp: tuple_compound_def safe_simps elim!: bind_SomeE split: vm_splits
      dest!: safe_rules safe_of_calm keep_rules)

lemma cell_element_safe [safe_rules]: "cell_element H x1 x2 vm = Some (r, vm') \<Longrightarrow> safe vm vm'"
  by (auto simp: cell_element_def safe_simps elim!: bind_SomeE split: vm_splits
      dest!: safe_rules safe_of_calm keep_rules)

lemma begin_iteration_safe [safe_rules]: "begin_iteration x1 x2 vm = Some vm' \<Longrightarrow> safe vm vm'"
  by (auto simp: begin_iteration_def safe_simps elim!: bind_SomeE split: vm_splits
      dest!: safe_rules safe_of_calm keep_rules)

lemma foreach_element_safe [safe_rules]: "foreach_element H x1 x2 x3 x4 vm = Some (r, vm') \<Longrightarrow> safe vm vm'"
  by (auto simp: foreach_element_def safe_simps elim!: bind_SomeE split: vm_splits
      dest!: safe_rules safe_of_calm keep_rules)

lemma foreach_array_safe [safe_rules]: "foreach_array H x1 x2 x3 x4 vm = Some (r, vm') \<Longrightarrow> safe vm vm'"
  by (auto simp: foreach_array_def safe_simps elim!: bind_SomeE split: vm_splits
      dest!: safe_rules safe_of_calm keep_rules)

lemma foreach_hash_safe [safe_rules]: "foreach_hash x1 x2 x3 x4 vm = Some (r, vm') \<Longrightarrow> safe vm vm'"
  by (auto simp: foreach_hash_def safe_simps elim!: bind_SomeE split: vm_splits
      dest!: safe_rules safe_of_calm keep_rules)

lemma foreach_text_safe [safe_rules]: "foreach_text H x1 x2 x3 vm = Some (r, vm') \<Longrightarrow> safe vm vm'"
  by (auto simp: foreach_text_def safe_simps elim!: bind_SomeE split: vm_splits
      dest!: safe_rules safe_of_calm keep_rules)

lemma foreach_item_safe [safe_rules]: "foreach_item H x1 x2 x3 vm = Some (r, vm') \<Longrightarrow> safe vm vm'"
  by (auto simp: foreach_item_def safe_simps elim!: bind_SomeE split: vm_splits
      dest!: safe_rules safe_of_calm keep_rules)

lemma finish_iteration_safe [safe_rules]: "finish_iteration x1 x2 vm = Some (r, vm') \<Longrightarrow> safe vm vm'"
  by (auto simp: finish_iteration_def safe_simps elim!: bind_SomeE split: vm_splits
      dest!: safe_rules safe_of_calm keep_rules)

lemma resume_iteration_safe [safe_rules]: "resume_iteration H x1 x2 vm = Some (r, vm') \<Longrightarrow> safe vm vm'"
  by (auto simp: resume_iteration_def safe_simps elim!: bind_SomeE split: vm_splits
      dest!: safe_rules safe_of_calm keep_rules)

subsection \<open>Control flow\<close>

lemma close_frames_safe [safe_rules]: "close_frames n vm = Some vm' \<Longrightarrow> safe vm vm'"
  by (induction n arbitrary: vm) (auto simp: safe_def elim!: bind_SomeE dest!: safe_of_calm)

lemma close_frames_to_safe [safe_rules]: "close_frames_to x1 vm = Some vm' \<Longrightarrow> safe vm vm'"
  by (auto simp: close_frames_to_def safe_simps elim!: bind_SomeE split: vm_splits
      dest!: safe_rules safe_of_calm keep_rules)

lemma give_result_safe [safe_rules]: "give_result x1 x2 vm = Some vm' \<Longrightarrow> safe vm vm'"
  by (auto simp: give_result_def safe_simps elim!: bind_SomeE split: vm_splits
      dest!: safe_rules safe_of_calm keep_rules)

lemma finish_call_safe:
  assumes "finish_call x = Some (r, vm')" "\<And>ok vm1. x = Some (ok, vm1) \<Longrightarrow> safe vm vm1"
  shows "safe vm vm'"
  using assms by (auto simp: finish_call_def safe_def elim!: bind_SomeE split: if_split_asm dest!: safe_rules)

lemma finish_callE:
  assumes "finish_call x = Some (r, vm')" obtains ok vm1 where "x = Some (ok, vm1)" "safe vm1 vm'"
  using assms by (auto simp: finish_call_def elim!: bind_SomeE split: if_split_asm dest!: outcomes_safe)

lemma call_named_safe [safe_rules]:
  assumes "call_named run H vm = Some (r, vm')" "safe_host H" "safe_run run"
  shows "safe vm vm'"
  using assms by (auto simp: call_named_def safe_simps elim!: bind_SomeE finish_callE split: vm_splits
      dest!: safe_rules safe_of_calm keep_rules run_safe [OF assms(3)] intro!: call_of_safe)

lemma object_expression_safe [safe_rules]:
  assumes "object_expression run H x1 vm = Some (r, vm')" "safe_host H" "safe_run run"
  shows "safe vm vm'"
  using assms by (auto simp: object_expression_def safe_simps elim!: bind_SomeE finish_callE split: vm_splits
      dest!: safe_rules safe_of_calm keep_rules run_safe [OF assms(3)] intro!: call_of_safe)

lemma exec_call_safe [safe_rules]:
  assumes "exec_call run H x1 vm = Some (r, vm')" "safe_host H" "safe_run run"
  shows "safe vm vm'"
  using assms by (auto simp: exec_call_def safe_simps elim!: bind_SomeE finish_callE split: vm_splits
      dest!: safe_rules safe_of_calm keep_rules run_safe [OF assms(3)] intro!: call_of_safe)

lemma drop_leaked_scopes_safe [safe_rules]: "drop_leaked_scopes x1 x2 vm = Some (r, vm') \<Longrightarrow> safe vm vm'"
  by (auto simp: drop_leaked_scopes_def safe_simps elim!: bind_SomeE split: vm_splits
      dest!: safe_rules safe_of_calm keep_rules)

lemma leak_warning_safe [safe_rules]: "leak_warning x1 x2 vm = Some vm' \<Longrightarrow> safe vm vm'"
  by (auto simp: leak_warning_def safe_simps elim!: bind_SomeE split: vm_splits
      dest!: safe_rules safe_of_calm keep_rules)

lemma leave_frame_safe [safe_rules]: "leave_frame H x1 vm = Some vm' \<Longrightarrow> safe vm vm'"
  by (auto simp: leave_frame_def safe_simps elim!: bind_SomeE split: vm_splits
      dest!: safe_rules safe_of_calm keep_rules)

lemma get_continuation_bounded: "get_continuation (vm_heap vm) a = Some k \<Longrightarrow> safe vm (restore_vm_context k vm)"
  using get_continuation_small by (auto simp: safe_def)

lemma exec_return_safe [safe_rules]: "exec_return H t vm = Some (r, vm') \<Longrightarrow> safe vm vm'"
  unfolding exec_return_def
  by (auto simp: safe_simps elim!: bind_SomeE split: option.split_asm if_split_asm prod.split_asm
      dest!: safe_rules safe_of_calm get_continuation_small)

lemma finish_traces_calm [calm_rules]: "finish_traces H v fs vm = Some vm' \<Longrightarrow> calm vm vm'"
  by (induction fs arbitrary: vm) (auto simp: calm_simps elim!: bind_SomeE dest!: calm_rules)

lemmas finish_traces_safe [safe_rules] = finish_traces_calm [THEN calm_safe]

lemma exec_inline_return_safe [safe_rules]: "exec_inline_return H x1 vm = Some (r, vm') \<Longrightarrow> safe vm vm'"
  by (auto simp: exec_inline_return_def safe_simps elim!: bind_SomeE split: vm_splits
      dest!: safe_rules safe_of_calm keep_rules)

lemma read_upvalues_safe [safe_rules]: "read_upvalues H n vm = Some (ps, vm') \<Longrightarrow> safe vm vm'"
  by (induction n arbitrary: vm ps) (auto simp: safe_def elim!: bind_SomeE split: if_split_asm prod.split_asm dest!: safe_rules safe_of_calm)

lemma make_closure_safe [safe_rules]: "make_closure H vm = Some (r, vm') \<Longrightarrow> safe vm vm'"
  by (auto simp: make_closure_def safe_simps elim!: bind_SomeE split: vm_splits
      dest!: safe_rules safe_of_calm keep_rules)

lemma mark_inline_safe [safe_rules]: "mark_inline x1 x2 vm = Some vm' \<Longrightarrow> safe vm vm'"
  by (auto simp: mark_inline_def safe_simps elim!: bind_SomeE split: vm_splits
      dest!: safe_rules safe_of_calm keep_rules)

lemma bridge_safe: "safe_host H \<Longrightarrow> h_bridge H k s n a vm = Some vm' \<Longrightarrow> safe vm vm'"
  by (auto simp: safe_host_def)

lemma bind_declaration_safe [safe_rules]:
  assumes "bind_declaration H vm = Some (r, vm')" "safe_host H"
  shows "safe vm vm'"
  using assms(1) unfolding bind_declaration_def
  by (auto simp: safe_simps elim!: bind_SomeE split: vm_splits dest!: safe_rules safe_of_calm bridge_safe [OF assms(2)])

lemma push_handler_safe [safe_rules]: "push_handler vm = Some (r, vm') \<Longrightarrow> safe vm vm'"
  unfolding push_handler_def
  by (auto simp: safe_simps proceed_def elim!: bind_SomeE split: if_split_asm prod.split_asm dest!: safe_rules)
    (auto simp: bounded_def)

lemma throw_value_safe [safe_rules]: "throw_value H vm = Some (r, vm') \<Longrightarrow> safe vm vm'"
  by (auto simp: throw_value_def safe_simps elim!: bind_SomeE split: vm_splits
      dest!: safe_rules safe_of_calm keep_rules)

lemma exec_assert_safe [safe_rules]: "exec_assert H vm = Some (r, vm') \<Longrightarrow> safe vm vm'"
  by (auto simp: exec_assert_def safe_simps elim!: bind_SomeE split: vm_splits
      dest!: safe_rules safe_of_calm keep_rules)

lemma save_coroutine_safe [safe_rules]: "save_coroutine x1 x2 x3 x4 vm = Some vm' \<Longrightarrow> safe vm vm'"
  by (auto simp: save_coroutine_def safe_simps elim!: bind_SomeE split: vm_splits
      dest!: safe_rules safe_of_calm keep_rules)

lemma leave_root_safe [safe_rules]: "leave_root x1 x2 vm = Some vm' \<Longrightarrow> safe vm vm'"
  by (auto simp: leave_root_def safe_simps elim!: bind_SomeE split: vm_splits
      dest!: safe_rules safe_of_calm keep_rules)

lemma exec_yield_safe [safe_rules]: "exec_yield x1 vm = Some (r, vm') \<Longrightarrow> safe vm vm'"
  by (auto simp: exec_yield_def safe_simps elim!: bind_SomeE split: vm_splits
      dest!: safe_rules safe_of_calm keep_rules)

lemma whole_context_safe [safe_rules]: "whole_context H owner i vm = Some (r, vm') \<Longrightarrow> safe vm vm'"
  unfolding whole_context_def
  by (auto simp: safe_simps small_context_def bounded_def elim!: bind_SomeE split: option.split_asm
      dest!: continuation_new_safe update_continuation_safe)

lemma enter_handler_safe [safe_rules]:
  assumes "enter_handler run H x1 x2 x3 x4 vm = Some (r, vm')" "safe_host H" "safe_run run"
  shows "safe vm vm'"
  using assms by (auto simp: enter_handler_def safe_simps elim!: bind_SomeE split: vm_splits
      dest!: safe_rules safe_of_calm keep_rules run_safe [OF assms(3)] intro!: call_of_safe)

lemma exec_callcc_safe [safe_rules]:
  assumes "exec_callcc run H vm = Some (r, vm')" "safe_host H" "safe_run run"
  shows "safe vm vm'"
  using assms by (auto simp: exec_callcc_def safe_simps elim!: bind_SomeE split: vm_splits
      dest!: safe_rules safe_of_calm keep_rules run_safe [OF assms(3)] intro!: call_of_safe)

lemma exec_resume_safe [safe_rules]: "exec_resume H vm = Some (r, vm') \<Longrightarrow> safe vm vm'"
  by (auto simp: exec_resume_def safe_simps elim!: bind_SomeE finish_callE split: vm_splits
      dest!: safe_rules safe_of_calm keep_rules)

lemma call_generator_safe [safe_rules]:
  assumes "call_generator run H x1 x2 vm = Some (r, vm')" "safe_host H" "safe_run run"
  shows "safe vm vm'"
  using assms by (auto simp: call_generator_def safe_simps elim!: bind_SomeE finish_callE split: vm_splits
      dest!: safe_rules safe_of_calm keep_rules run_safe [OF assms(3)] intro!: call_of_safe)

lemma exec_foreach_safe [safe_rules]:
  assumes "exec_foreach run H x1 vm = Some (r, vm')" "safe_host H" "safe_run run"
  shows "safe vm vm'"
  using assms by (auto simp: exec_foreach_def safe_simps elim!: bind_SomeE split: vm_splits
      dest!: safe_rules safe_of_calm keep_rules run_safe [OF assms(3)] intro!: call_of_safe)

subsection \<open>The loop\<close>

lemma declarations_safe [safe_rules]:
  "declare_with (slp_vm_declare_local H) vm = Some (r, vm') \<Longrightarrow> safe vm vm'"
  "declare_with (slp_vm_declare_closure H) vm = Some (r, vm') \<Longrightarrow> safe vm vm'"
  unfolding declare_with_def
  by (auto simp: safe_simps elim!: bind_SomeE split: option.split_asm prod.split_asm dest!: safe_rules safe_of_calm)

lemma exec_backtick_safe [safe_rules]: "exec_backtick H vm = Some (r, vm') \<Longrightarrow> safe vm vm'"
  by (auto simp: exec_backtick_def safe_simps elim!: bind_SomeE split: vm_splits
      dest!: safe_rules safe_of_calm keep_rules)

lemma exec_class_safe [safe_rules]: "exec_class H vm = Some (r, vm') \<Longrightarrow> safe vm vm'"
  by (auto simp: exec_class_def safe_simps elim!: bind_SomeE split: vm_splits
      dest!: safe_rules safe_of_calm keep_rules)

lemma exec_misc_safe [safe_rules]:
  assumes "exec_misc run H t op vm = Some (r, vm')" "safe_host H" "safe_run run"
  shows "safe vm vm'"
  using assms(1) unfolding exec_misc_def
  by (elim if_SomeE; auto simp: safe_def assms(2,3) elim!: bind_SomeE split: prod.split_asm dest!: safe_rules safe_of_calm)

lemma execute_safe [safe_rules]:
  assumes "execute run H t op vm = Some (r, vm')" "safe_host H" "safe_run run"
  shows "safe vm vm'"
  using assms(1) unfolding execute_def
  by (elim if_SomeE; auto simp: safe_def assms(2,3) elim!: bind_SomeE split: prod.split_asm dest!: safe_rules)

lemma abort_frames_safe [safe_rules]: "abort_frames H n slots vm = Some (k, vm') \<Longrightarrow> safe vm vm'"
  by (induction n arbitrary: slots vm) (auto simp: safe_def elim!: bind_SomeE dest!: safe_of_calm)

lemma handle_abort_safe [safe_rules]: "handle_abort H x1 vm = Some (r, vm') \<Longrightarrow> safe vm vm'"
  by (auto simp: handle_abort_def safe_simps elim!: bind_SomeE split: vm_splits
      dest!: safe_rules safe_of_calm keep_rules)

text \<open>The collector only removes objects.\<close>

lemma keeps_remove [simp]: "keeps h (h(a := None))"
  by (auto simp: keeps_def within_def)

lemma mark_values_calm [calm_rules]: "mark_values vs vm = Some vm' \<Longrightarrow> calm vm vm'"
  by (induction vs arbitrary: vm)
    (auto simp: calm_simps slp_gc_mark_value_def slp_gc_mark_obj_def gc_gray_stack_push_def elim!: bind_SomeE
      split: slp_value.split_asm if_split_asm)

lemma trace_references_calm [calm_rules]: "trace_references vm = Some vm' \<Longrightarrow> calm vm vm'"
proof (rule trace_references.raw_induct [where P = calm], goal_cases)
  case (1 trace vm vm')
  note 1(2) [dest!]
  show ?case using 1(3)
    by (auto simp: blacken_object_def calm_simps elim!: bind_SomeE split: if_split_asm dest!: calm_rules)
qed

lemma sweep_list_calm [calm_rules]: "sweep_list sizes as vm = Some (r, vm') \<Longrightarrow> calm vm vm'"
proof (induction "as" arbitrary: vm r)
  case (Cons a "as")
  have free: "calm vm (free_object sizes a ob vm)" for ob
    using keeps_remove [of "vm_heap vm" a] by (simp add: free_object_def calm_def)
  show ?case using Cons.prems free
    by (auto simp: calm_simps elim!: bind_SomeE split: option.split_asm if_split_asm prod.split_asm dest!: Cons.IH)
qed simp

lemma gc_safepoint_safe [safe_rules]: "gc_safepoint H vm = Some vm' \<Longrightarrow> safe vm vm'"
  by (rule calm_safe) (auto simp: gc_safepoint_def slp_gc_collect_def mark_roots_def slp_gc_sweep_def rebuild_interned_def
    calm_simps elim!: bind_SomeE split: option.split_asm if_split_asm prod.split_asm dest!: calm_rules)

lemma machine_step_safe [safe_rules]:
  assumes "machine_step run H x1 vm = Some (r, vm')" "safe_host H" "safe_run run"
  shows "safe vm vm'"
  using assms by (auto simp: machine_step_def safe_simps elim!: bind_SomeE split: vm_splits outcome.split_asm
      dest!: safe_rules safe_of_calm keep_rules run_safe [OF assms(3)] intro!: call_of_safe)

lemma machine_safe:
  assumes "safe_host H"
  shows "machine fuel H task vm = Some (r, vm') \<Longrightarrow> safe vm vm'"
proof (induction fuel arbitrary: task vm r vm')
  case (Suc fuel)
  have run: "safe_run (\<lambda>b n. machine fuel H (Call b n))"
    unfolding safe_run_def using Suc.IH by blast
  show ?case using Suc.prems
    by (auto simp: safe_simps elim!: bind_SomeE split: machine_task.split_asm outcome.split_asm option.split_asm obj.split_asm
      if_split_asm prod.split_asm dest!: Suc.IH call_value_safe [OF _ assms run] machine_step_safe [OF _ assms run])
qed simp

end
