(* ===== verification/VM_Scope_Props.thy ===== *)
theory VM_Scope_Props
  imports VM_Loop_Props Hash_Order
begin

text \<open>
  Variables of scripts refine an environment: the list of the finite maps from names to values that the local
  scope, the scope of the closure and the globals are, innermost first. An assignment changes the first map
  that has the name, or else the globals; a load reads the first map that has it.
\<close>

subsection \<open>Environments\<close>

fun env_lookup :: "(string \<Rightarrow> slp_value option) list \<Rightarrow> string \<Rightarrow> slp_value option" where
  "env_lookup [] t = None"
| "env_lookup (m # ms) t = (case m t of Some v \<Rightarrow> Some v | None \<Rightarrow> env_lookup ms t)"

fun env_assign :: "(string \<Rightarrow> slp_value option) list \<Rightarrow> string \<Rightarrow> slp_value \<Rightarrow> (string \<Rightarrow> slp_value option) list" where
  "env_assign [] t v = []"
| "env_assign [m] t v = [m(t \<mapsto> v)]"
| "env_assign (m # m' # ms) t v = (if m t \<noteq> None then m(t \<mapsto> v) # m' # ms else m # env_assign (m' # ms) t v)"

lemma lookup_assign: "ms \<noteq> [] \<Longrightarrow> env_lookup (env_assign ms t v) t' = (if t' = t then Some v else env_lookup ms t')"
  by (induction ms t v rule: env_assign.induct) (auto split: option.splits)

lemma env_assign_values:
  "\<forall>m\<in>set ms. \<forall>w. m t' = Some w \<longrightarrow> P w \<Longrightarrow> P v \<Longrightarrow> \<forall>m\<in>set (env_assign ms t v). \<forall>w. m t' = Some w \<longrightarrow> P w"
  by (induction ms t v rule: env_assign.induct) auto

subsection \<open>The heap under a changed hash\<close>

lemma skip_cells_hash:
  assumes "h a = Some (OHash r)" shows "skip_cells h v = Some w \<Longrightarrow> skip_cells (h(a \<mapsto> OHash r')) v = Some w"
proof (rule skip_cells.raw_induct [where P = "\<lambda>h' v w. h' = h \<longrightarrow> skip_cells (h(a \<mapsto> OHash r')) v = Some w", THEN mp], goal_cases)
  case (1 f h' v w)
  then show ?case using assms
    by (subst skip_cells.simps) (auto split: slp_value.split_asm option.split_asm obj.split_asm if_splits)
qed simp_all

lemma unwrap_taint_hash:
  assumes "h a = Some (OHash r)" shows "slp_value_unwrap_taint h v = Some w \<Longrightarrow> slp_value_unwrap_taint (h(a \<mapsto> OHash r')) v = Some w"
proof (rule slp_value_unwrap_taint.raw_induct [where P = "\<lambda>h' v w. h' = h \<longrightarrow> slp_value_unwrap_taint (h(a \<mapsto> OHash r')) v = Some w", THEN mp], goal_cases)
  case (1 f h' v w)
  then show ?case using assms
    by (subst slp_value_unwrap_taint.simps) (auto split: slp_value.split_asm option.split_asm obj.split_asm if_splits)
qed simp_all

text \<open>Two heaps that differ in the contents of a hash give the same result in both directions.\<close>

lemma hash_changed_eq:
  assumes "h a = Some (OHash r)"
    and "\<And>h r r' x. h a = Some (OHash r) \<Longrightarrow> f h = Some x \<Longrightarrow> f (h(a \<mapsto> OHash r')) = Some x"
  shows "f (h(a \<mapsto> OHash r')) = f h"
proof (cases "f h")
  case None
  show ?thesis
  proof (rule ccontr)
    assume "f (h(a \<mapsto> OHash r')) \<noteq> f h"
    then obtain x where "f (h(a \<mapsto> OHash r')) = Some x" using None by auto
    from assms(2) [OF _ this, of r' r] assms(1) None show False by (simp add: fun_upd_idem)
  qed
next
  case (Some x)
  then show ?thesis using assms by metis
qed

lemma cells_same: "h a = Some (OHash r) \<Longrightarrow> skip_cells (h(a \<mapsto> OHash r')) v = skip_cells h v"
  by (rule hash_changed_eq [where f = "\<lambda>h. skip_cells h v"]) (auto intro: skip_cells_hash)

lemma unwrap_same: "h a = Some (OHash r) \<Longrightarrow> slp_value_unwrap_taint (h(a \<mapsto> OHash r')) v = slp_value_unwrap_taint h v"
  by (rule hash_changed_eq [where f = "\<lambda>h. slp_value_unwrap_taint h v"]) (auto intro: unwrap_taint_hash)

lemma repr_same: "h a = Some (OHash r) \<Longrightarrow> hash_key_repr n (h(a \<mapsto> OHash r')) v = hash_key_repr n h v"
  by (auto simp: hash_key_repr_def cells_same unwrap_same intro!: Option.bind_cong split: slp_value.splits)

lemma texts_same:
  assumes "h a = Some (OHash r)"
  shows "key_text (h(a \<mapsto> OHash r')) = key_text h" "entry_text (h(a \<mapsto> OHash r')) = entry_text h"
    "script_key (h(a \<mapsto> OHash r')) = script_key h" "hash_inv (h(a \<mapsto> OHash r')) = hash_inv h"
    "hash_map (h(a \<mapsto> OHash r')) = hash_map h"
proof -
  show k: "key_text (h(a \<mapsto> OHash r')) = key_text h" by (auto simp: fun_eq_iff key_text_def repr_same assms)
  then show e: "entry_text (h(a \<mapsto> OHash r')) = entry_text h" by (simp add: fun_eq_iff entry_text_def)
  show "script_key (h(a \<mapsto> OHash r')) = script_key h" by (simp add: fun_eq_iff script_key_def k)
  show "hash_inv (h(a \<mapsto> OHash r')) = hash_inv h" by (simp add: fun_eq_iff hash_inv_def tab_inv_def e)
  show "hash_map (h(a \<mapsto> OHash r')) = hash_map h" by (simp add: fun_eq_iff hash_map_def tab_map_def e)
qed

subsection \<open>Scopes\<close>

definition scope_map :: "vm \<Rightarrow> addr \<Rightarrow> string \<Rightarrow> slp_value option" where
  "scope_map vm a = (case get_hash (vm_heap vm) a of Some r \<Rightarrow> hash_map (vm_heap vm) r | None \<Rightarrow> Map.empty)"

definition scope_ok :: "vm \<Rightarrow> addr \<Rightarrow> bool" where
  "scope_ok vm a \<longleftrightarrow> (\<exists>r. get_hash (vm_heap vm) a = Some r \<and> hash_inv (vm_heap vm) r)"

definition scope_room :: "vm \<Rightarrow> addr \<Rightarrow> bool" where
  "scope_room vm a \<longleftrightarrow> (\<exists>r. get_hash (vm_heap vm) a = Some r \<and> hash_room r)"

text \<open>A change of one hash with a new map.\<close>

definition rebinds :: "addr \<Rightarrow> (string \<Rightarrow> slp_value option) \<Rightarrow> vm \<Rightarrow> vm \<Rightarrow> bool" where
  "rebinds a m vm vm' \<longleftrightarrow>
     (\<exists>r r'. vm_heap vm a = Some (OHash r) \<and> vm' = vm\<lparr>vm_heap := (vm_heap vm)(a \<mapsto> OHash r')\<rparr> \<and>
        hash_inv (vm_heap vm) r' \<and> hash_map (vm_heap vm) r' = m)"

lemma get_hash_heap: "get_hash h a = Some r \<longleftrightarrow> h a = Some (OHash r)"
  by (auto simp: get_hash_def split: option.split_asm obj.split_asm)

lemma rebinds_effect:
  assumes "rebinds a m vm vm'"
  shows "scope_map vm' = (scope_map vm)(a := m)" "script_key (vm_heap vm') = script_key (vm_heap vm)"
    "scope_ok vm b \<Longrightarrow> scope_ok vm' b" "skip_cells (vm_heap vm') = skip_cells (vm_heap vm)"
    "cell_of (vm_heap vm') = cell_of (vm_heap vm)" "vm_frames vm' = vm_frames vm" "vm_globals vm' = vm_globals vm"
    "frame_scopes_of vm' = frame_scopes_of vm"
proof -
  obtain r r' where r: "vm_heap vm a = Some (OHash r)" "vm' = vm\<lparr>vm_heap := (vm_heap vm)(a \<mapsto> OHash r')\<rparr>"
      "hash_inv (vm_heap vm) r'" "hash_map (vm_heap vm) r' = m"
    using assms by (auto simp: rebinds_def)
  note t = texts_same [where h = "vm_heap vm" and a = a and r' = r', OF r(1)]
  show "scope_map vm' = (scope_map vm)(a := m)"
    by (auto simp: fun_eq_iff scope_map_def r(2,4) t get_hash_def split: option.splits obj.splits)
  show "script_key (vm_heap vm') = script_key (vm_heap vm)" by (simp add: r(2) t)
  show "scope_ok vm b \<Longrightarrow> scope_ok vm' b" using r(3) by (auto simp: scope_ok_def r(2) t get_hash_heap)
  show "skip_cells (vm_heap vm') = skip_cells (vm_heap vm)" by (simp add: fun_eq_iff r(2) cells_same r(1))
  show "cell_of (vm_heap vm') = cell_of (vm_heap vm)"
    using r(1) by (auto simp: fun_eq_iff cell_of_def r(2) split: slp_value.split)
  show "vm_frames vm' = vm_frames vm" "vm_globals vm' = vm_globals vm" by (simp_all add: r(2))
  show "frame_scopes_of vm' = frame_scopes_of vm"
    using r(1) by (auto simp: frame_scopes_of_def current_local_scope_def current_frame_def r(2) get_array_def
      intro!: Option.bind_cong split: option.splits slp_value.splits)
qed

lemma hash_get_raw_rebinds:
  assumes "scope_ok vm a" "script_key (vm_heap vm) k = Some t"
  shows "\<exists>vm'. hash_get_raw_at a k vm = Some (case scope_map vm a t of None \<Rightarrow> VNull | Some v \<Rightarrow> v, vm') \<and>
    rebinds a (scope_map vm a) vm vm'"
proof -
  obtain r where r: "get_hash (vm_heap vm) a = Some r" "hash_inv (vm_heap vm) r" using assms(1) by (auto simp: scope_ok_def)
  obtain r' where "slp_obj_hash_get_raw (vm_heap vm) r k =
        Some (case hash_map (vm_heap vm) r t of None \<Rightarrow> VNull | Some v \<Rightarrow> v, r')"
      "hash_inv (vm_heap vm) r'" "hash_map (vm_heap vm) r' = hash_map (vm_heap vm) r"
    using hash.get_law [OF r(2) assms(2)] by blast
  then show ?thesis using r r(1) [unfolded get_hash_heap]
    by (auto simp: hash_get_raw_at_def scope_map_def rebinds_def store_hash_def)
qed

lemma hash_get_raw_room: "hash_get_raw_at a k vm = Some (v, vm') \<Longrightarrow> scope_room vm a \<Longrightarrow> scope_room vm' a"
  by (auto simp: hash_get_raw_at_def slp_obj_hash_get_raw_def scope_room_def get_hash_heap store_hash_def hash_room_def Let_def
    elim!: bind_SomeE split: option.split_asm if_split_asm)

lemma hash_put_rebinds:
  assumes "scope_ok vm a" "scope_room vm a" "script_key (vm_heap vm) k = Some t"
  shows "\<exists>vm'. hash_put_at a k v vm = Some vm' \<and> rebinds a ((scope_map vm a)(t \<mapsto> v)) vm vm'"
proof -
  obtain r where r: "get_hash (vm_heap vm) a = Some r" "hash_inv (vm_heap vm) r" "hash_room r"
    using assms(1,2) by (auto simp: scope_ok_def scope_room_def)
  obtain r' where "slp_obj_hash_set (vm_heap vm) r k v = Some (True, r')" "hash_inv (vm_heap vm) r'"
      "hash_map (vm_heap vm) r' = (hash_map (vm_heap vm) r)(t \<mapsto> v)"
    using hash.set_law [OF r(2,3) assms(3)] by blast
  then show ?thesis using r r(1) [unfolded get_hash_heap]
    by (auto simp: hash_put_at_def hash_set_at_def scope_map_def rebinds_def store_hash_def)
qed

lemma contains_scope:
  assumes "scope_ok vm a" "script_key (vm_heap vm) k = Some t"
  shows "hash_contains_at a k vm = Some (scope_map vm a t \<noteq> None)"
proof -
  obtain r where "get_hash (vm_heap vm) a = Some r" "hash_inv (vm_heap vm) r" using assms(1) by (auto simp: scope_ok_def)
  moreover have "key_text (vm_heap vm) k = Some t" using assms(2) by (simp add: script_key_def split: if_split_asm)
  ultimately show ?thesis by (auto simp: hash_contains_at_def scope_map_def hash_contains_ok)
qed

lemma first_with_map:
  assumes "\<forall>a\<in>set as. scope_ok vm a" "script_key (vm_heap vm) k = Some t"
  shows "first_with as k vm = Some (find (\<lambda>a. scope_map vm a t \<noteq> None) as)"
  using assms(1) by (induction "as") (auto simp: contains_scope [OF _ assms(2)])

lemma plain_value:
  assumes "cell_of h v = Some None" shows "skip_cells h v = Some v" "dereference_value h v = Some v"
proof -
  show "skip_cells h v = Some v"
    using assms skip_cells.simps [of h v] by (auto simp: cell_of_def split: slp_value.split_asm option.split_asm obj.split_asm)
  then show "dereference_value h v = Some v" by (simp add: dereference_value_def)
qed

text \<open>The scopes a variable is looked up in, the innermost first.\<close>

definition scope_chain :: "vm \<Rightarrow> addr list option" where
  "scope_chain vm = do { scopes \<leftarrow> frame_scopes_of vm; g \<leftarrow> vm_globals vm; Some (scopes @ [g]) }"

definition environment :: "vm \<Rightarrow> addr list \<Rightarrow> (string \<Rightarrow> slp_value option) list" where
  "environment vm chain = map (scope_map vm) chain"

definition chain_ready :: "vm \<Rightarrow> addr list \<Rightarrow> bool" where
  "chain_ready vm chain \<longleftrightarrow> scope_chain vm = Some chain \<and> distinct chain \<and> (\<forall>a\<in>set chain. scope_ok vm a)"

text \<open>No variable of that name is a cell.\<close>

definition no_cells :: "vm \<Rightarrow> addr list \<Rightarrow> string \<Rightarrow> bool" where
  "no_cells vm chain t \<longleftrightarrow> (\<forall>a\<in>set chain. \<forall>v. scope_map vm a t = Some v \<longrightarrow> cell_of (vm_heap vm) v = Some None)"

lemma env_lookup_find:
  "env_lookup (map m as) t = (case find (\<lambda>a. m a t \<noteq> None) as of None \<Rightarrow> None | Some a \<Rightarrow> m a t)"
  by (induction "as") (auto split: option.splits)

lemma find_in: "find P xs = Some x \<Longrightarrow> x \<in> set xs \<and> P x"
  by (induction xs) (auto split: if_split_asm)

lemma variable_get:
  assumes "chain_ready vm chain" "script_key (vm_heap vm) name = Some t" "no_cells vm chain t"
  shows "\<exists>vm'. scoped_variable_get name vm = Some (env_lookup (environment vm chain) t, vm') \<and>
    chain_ready vm' chain \<and> environment vm' chain = environment vm chain"
proof -
  obtain scopes g where c: "frame_scopes_of vm = Some scopes" "vm_globals vm = Some g" "chain = scopes @ [g]"
    using assms(1) by (auto simp: chain_ready_def scope_chain_def elim!: bind_SomeE)
  have ok: "\<forall>a\<in>set chain. scope_ok vm a" using assms(1) by (simp add: chain_ready_def)
  note first = first_with_map [OF ok assms(2)]
  show ?thesis
  proof (cases "find (\<lambda>a. scope_map vm a t \<noteq> None) chain")
    case None
    then have "env_lookup (environment vm chain) t = None" by (simp add: environment_def env_lookup_find)
    then show ?thesis using assms(1) c first None by (simp add: scoped_variable_get_def)
  next
    case (Some a)
    then obtain v where a: "a \<in> set chain" "scope_map vm a t = Some v" using find_in by fastforce
    have plain: "cell_of (vm_heap vm) v = Some None" using assms(3) a by (auto simp: no_cells_def)
    obtain vm' where vm': "hash_get_raw_at a name vm = Some (v, vm')" "rebinds a (scope_map vm a) vm vm'"
      using hash_get_raw_rebinds [of vm a name t] ok a assms(2) by auto
    note eff = rebinds_effect [OF vm'(2)]
    have get: "hash_get_at a name vm = Some (v, vm')"
      using vm'(1) plain_value [OF plain] unfolding hash_get_raw_at_def hash_get_at_def slp_obj_hash_get_def
      by (auto elim!: bind_SomeE)
    have "dereference_value (vm_heap vm') v = Some v" using plain plain_value(2) eff(5) by metis
    then have "scoped_variable_get name vm = Some (Some v, vm')"
      using c first Some get by (simp add: scoped_variable_get_def)
    moreover have "chain_ready vm' chain"
      using assms(1) eff by (auto simp: chain_ready_def scope_chain_def)
    moreover have "environment vm' chain = environment vm chain" by (simp add: environment_def eff(1))
    ultimately show ?thesis using Some a by (simp add: environment_def env_lookup_find)
  qed
qed

lemma env_assign_chain:
  assumes "distinct (as @ [g])"
  shows "env_assign (map m (as @ [g])) t v =
    (let a = (case find (\<lambda>a. m a t \<noteq> None) as of Some a \<Rightarrow> a | None \<Rightarrow> g) in map (m(a := (m a)(t \<mapsto> v))) (as @ [g]))"
  using assms
proof (induction "as")
  case (Cons b "as")
  have ne: "env_assign (m b # map m (as @ [g])) t v =
      (if m b t \<noteq> None then (m b)(t \<mapsto> v) # map m (as @ [g]) else m b # env_assign (map m (as @ [g])) t v)"
    by (cases "as") auto
  have b: "b \<notin> set as" "b \<noteq> g" using Cons.prems by auto
  show ?case
  proof (cases "m b t")
    case None
    let ?a = "case find (\<lambda>a. m a t \<noteq> None) as of Some a \<Rightarrow> a | None \<Rightarrow> g"
    have "?a \<noteq> b" using b find_in [of _ "as"] by (auto split: option.splits)
    then show ?thesis using ne None Cons by (simp add: Let_def)
  next
    case (Some w)
    then show ?thesis using ne b by (auto simp: Let_def)
  qed
qed simp

lemma variable_set:
  assumes "chain_ready vm chain" "\<forall>a\<in>set chain. scope_room vm a" "script_key (vm_heap vm) name = Some t" "no_cells vm chain t"
    "cell_of (vm_heap vm) v = Some None"
  shows "\<exists>vm'. scoped_variable_set H name v vm = Some vm' \<and> chain_ready vm' chain \<and>
    environment vm' chain = env_assign (environment vm chain) t v \<and>
    script_key (vm_heap vm') = script_key (vm_heap vm) \<and> cell_of (vm_heap vm') = cell_of (vm_heap vm)"
proof -
  obtain scopes g where c: "frame_scopes_of vm = Some scopes" "vm_globals vm = Some g" "chain = scopes @ [g]"
    using assms(1) by (auto simp: chain_ready_def scope_chain_def elim!: bind_SomeE)
  have ok: "\<forall>a\<in>set chain. scope_ok vm a" "distinct chain" using assms(1) by (simp_all add: chain_ready_def)
  define a where "a = (case find (\<lambda>a. scope_map vm a t \<noteq> None) scopes of Some a \<Rightarrow> a | None \<Rightarrow> g)"
  have "\<forall>a\<in>set scopes. scope_ok vm a" using ok(1) c(3) by simp
  from first_with_map [OF this assms(3)] have level: "scoped_variable_level name vm = Some a"
    using c by (simp add: scoped_variable_level_def a_def split: option.splits)
  have a: "a \<in> set chain" using find_in [of _ scopes] c(3) by (fastforce simp: a_def split: option.splits)
  obtain vm1 where 1: "hash_get_raw_at a name vm = Some (case scope_map vm a t of None \<Rightarrow> VNull | Some v \<Rightarrow> v, vm1)"
      "rebinds a (scope_map vm a) vm vm1"
    using hash_get_raw_rebinds [of vm a name t] ok(1) a assms(3) by auto
  note e1 = rebinds_effect [OF 1(2)]
  have room: "scope_room vm1 a" using hash_get_raw_room [OF 1(1)] assms(2) a by blast
  have key1: "script_key (vm_heap vm1) name = Some t" using e1(2) assms(3) by simp
  obtain vm2 where 2: "hash_put_at a name v vm1 = Some vm2" "rebinds a ((scope_map vm1 a)(t \<mapsto> v)) vm1 vm2"
    using hash_put_rebinds [OF e1(3) room key1] ok(1) a by blast
  note e2 = rebinds_effect [OF 2(2)]
  have plain: "cell_of (vm_heap vm1) (case scope_map vm a t of None \<Rightarrow> VNull | Some v \<Rightarrow> v) = Some None"
    using assms(4) a e1(5) by (auto simp: no_cells_def cell_of_def split: option.split)
  have "scoped_variable_set H name v vm = Some vm2"
    using level 1(1) 2(1) plain assms(5) e1(5) by (simp add: scoped_variable_set_def assign_binding_def)
  moreover have "chain_ready vm2 chain"
    using assms(1) e1 e2 by (auto simp: chain_ready_def scope_chain_def)
  moreover have "environment vm2 chain = env_assign (environment vm chain) t v"
    using env_assign_chain [of scopes g "scope_map vm" t v] ok(2) c(3)
    by (simp add: environment_def e1(1) e2(1) a_def Let_def)
  ultimately show ?thesis using e1 e2 by auto
qed

text \<open>C7: script variables are an environment: an assignment changes the innermost scope that has the name, or else the
  globals, and nothing else; a later load of any name gives what this environment has for it. The scopes are
  hash tables of the heap, looked up from the current frame; neither name is bound to a reference.\<close>

theorem variables_refine_environment:
  assumes "chain_ready vm chain" "\<forall>a\<in>set chain. scope_room vm a" "script_key (vm_heap vm) name = Some t" "no_cells vm chain t"
    "cell_of (vm_heap vm) v = Some None" "script_key (vm_heap vm) name' = Some t'" "no_cells vm chain t'"
  shows "\<exists>vm' vm''. scoped_variable_set H name v vm = Some vm' \<and>
    environment vm' chain = env_assign (environment vm chain) t v \<and>
    scoped_variable_get name' vm' = Some (if t' = t then Some v else env_lookup (environment vm chain) t', vm'') \<and>
    environment vm'' chain = environment vm' chain"
proof -
  obtain vm' where vm': "scoped_variable_set H name v vm = Some vm'" "chain_ready vm' chain"
      "environment vm' chain = env_assign (environment vm chain) t v"
      "script_key (vm_heap vm') = script_key (vm_heap vm)" "cell_of (vm_heap vm') = cell_of (vm_heap vm)"
    using variable_set [OF assms(1-5)] by blast
  have ne: "environment vm chain \<noteq> []"
    using assms(1) by (auto simp: environment_def chain_ready_def scope_chain_def elim!: bind_SomeE)
  have plain: "no_cells vm' chain t'"
  proof -
    have "\<forall>m\<in>set (environment vm chain). \<forall>w. m t' = Some w \<longrightarrow> cell_of (vm_heap vm) w = Some None"
      using assms(7) by (simp add: no_cells_def environment_def)
    then have "\<forall>m\<in>set (environment vm' chain). \<forall>w. m t' = Some w \<longrightarrow> cell_of (vm_heap vm) w = Some None"
      unfolding vm'(3) by (rule env_assign_values) (rule assms(5))
    then show ?thesis unfolding no_cells_def vm'(5) by (simp add: environment_def)
  qed
  have key: "script_key (vm_heap vm') name' = Some t'" using vm'(4) assms(6) by simp
  obtain vm'' where get: "scoped_variable_get name' vm' = Some (env_lookup (environment vm' chain) t', vm'')"
    and env: "environment vm'' chain = environment vm' chain"
    using variable_get [OF vm'(2) key plain] by blast
  have "scoped_variable_get name' vm' = Some (if t' = t then Some v else env_lookup (environment vm chain) t', vm'')"
    using get unfolding vm'(3) lookup_assign [OF ne] .
  then show ?thesis using vm'(1,3) env by blast
qed

definition empty_hash :: obj_hash where
  "empty_hash = \<lparr>ha_entries = [], ha_count = 0, ha_next_sequence = 0, ha_order_mode = 0, ha_miss_policy = None, ha_removal_policy = None\<rparr>"

text \<open>A frame with a local scope, the hash 6, over the globals, the hash 3.\<close>

definition scoped_machine :: vm where
  "scoped_machine = (plain_machine [] [] [])
     \<lparr>vm_heap := [3 \<mapsto> OHash empty_hash, 6 \<mapsto> OHash empty_hash, 7 \<mapsto> OString \<lparr>s_chars = ''$x'', s_hash = 0\<rparr>,
        5 \<mapsto> OArray \<lparr>ar_elements = [VObj 6], ar_count = 1, ar_version = 0, ar_view_source = None, ar_view_offset = 0,
          ar_view_source_version = 0, ar_view_invalid = False, ar_read_only = False\<rparr>],
      vm_frames := [new_frame 1 0 (Some 5) None no_trace False], vm_globals := Some 3\<rparr>"

theorem variables_refine_environment_witness:
  "\<exists>vm' vm''. scoped_variable_set plain_host (VObj 7) (VNum 5) scoped_machine = Some vm' \<and>
     scoped_variable_get (VObj 7) vm' = Some (Some (VNum 5), vm'')"
proof -
  have scope: "scope_ok scoped_machine 3" "scope_ok scoped_machine 6"
    using new_hash_inv by (auto simp: scope_ok_def scoped_machine_def get_hash_def empty_hash_def)
  have ready: "chain_ready scoped_machine [6, 3]"
    using scope by (simp add: chain_ready_def scope_chain_def frame_scopes_of_def current_local_scope_def current_frame_def
      scoped_machine_def new_frame_def get_array_def)
  have room: "\<forall>a\<in>set [6, 3]. scope_room scoped_machine a"
    by (simp add: scope_room_def scoped_machine_def get_hash_def hash_room_def empty_hash_def)
  have key: "script_key (vm_heap scoped_machine) (VObj 7) = Some ''$x''"
    by (simp add: script_key_string scoped_machine_def)
  have none: "no_cells scoped_machine [6, 3] ''$x''"
    by (simp add: no_cells_def scope_map_def scoped_machine_def get_hash_def hash_map_def empty_hash_def)
  have num: "cell_of (vm_heap scoped_machine) (VNum 5) = Some None" by (simp add: cell_of_def)
  show ?thesis using variables_refine_environment [OF ready room key none num key none, of plain_host] by auto
qed

end
