(* ===== verification/Parser_State.thy ===== *)
theory Parser_State
  imports Ast Lexer_Safety F64_Ops
begin

text \<open>
  The state of the parser (\<^verbatim>\<open>include/slp_parser.h\<close>, \<^verbatim>\<open>src/slp_parser.c\<close>): the scanner with one token of
  lookahead, the first error and the nesting depth. Allocations are assumed to succeed; then the scanner and
  the tokens of an instruction are read-only, and a token is its type, place, length and line.
\<close>

subsection \<open>State and errors\<close>

text \<open>
  An error message is a string literal, the buffer in the parser, or the buffer of a nested parser, which
  is gone when that parser's function has returned.
\<close>

datatype parse_message = Fixed string | Own_buffer | Dead_buffer

record slp_parser =
  ps_lexer :: slp_lexer
  ps_current :: slp_token
  ps_previous :: slp_token
  ps_had_error :: bool
  ps_panic_mode :: bool
  ps_error_line :: nat
  ps_error_message :: "parse_message option"
  ps_error_buffer :: string
  ps_depth :: nat

text \<open>The null start of the first token is never read.\<close>

definition slp_parser_init :: "string \<Rightarrow> slp_parser" where
  "slp_parser_init source =
     (let none = \<lparr>tok_type = Tok TOKEN_ERROR, tok_start = Message [], tok_length = 0, tok_line = 0\<rparr>
      in \<lparr>ps_lexer = slp_lexer_init source, ps_current = none, ps_previous = none, ps_had_error = False,
          ps_panic_mode = False, ps_error_line = 0, ps_error_message = None, ps_error_buffer = [], ps_depth = 0\<rparr>)"

abbreviation SLP_PARSER_MAX_DEPTH :: nat where "SLP_PARSER_MAX_DEPTH \<equiv> 100"

definition error_at :: "slp_token \<Rightarrow> parse_message \<Rightarrow> slp_parser \<Rightarrow> slp_parser" where
  "error_at token message p =
     (if ps_panic_mode p then p
      else p\<lparr>ps_panic_mode := True, ps_had_error := True, ps_error_line := tok_line token, ps_error_message := Some message\<rparr>)"

definition parse_error :: "string \<Rightarrow> slp_parser \<Rightarrow> slp_parser" where
  "parse_error message p = error_at (ps_previous p) (Fixed message) p"

definition error_at_current :: "string \<Rightarrow> slp_parser \<Rightarrow> slp_parser" where
  "error_at_current message p = error_at (ps_current p) (Fixed message) p"

subsection \<open>Tokens\<close>

definition token_text :: "slp_parser \<Rightarrow> slp_token \<Rightarrow> string" where
  "token_text p token = slp_lexer_copy_lexeme (ps_lexer p) token"

abbreviation previous_text :: "slp_parser \<Rightarrow> string" where
  "previous_text p \<equiv> token_text p (ps_previous p)"

text \<open>The line a new node gets.\<close>

abbreviation new_line :: "slp_parser \<Rightarrow> int" where
  "new_line p \<equiv> int (tok_line (ps_previous p))"

definition token_op :: "slp_parser \<Rightarrow> slp_token \<Rightarrow> ast_op" where
  "token_op p token = (tok_type token, token_text p token)"

text \<open>The loop of \<open>advance\<close>: error tokens are reported and skipped.\<close>

partial_function (option) next_token :: "slp_parser \<Rightarrow> slp_parser option" where
  "next_token p =
     (case slp_lexer_scan_token (ps_lexer p) of
        None \<Rightarrow> None
      | Some (t, lx) \<Rightarrow>
          (let p = p\<lparr>ps_current := t, ps_lexer := lx\<rparr>
           in if tok_type t \<noteq> Tok TOKEN_ERROR then Some p
              else next_token (error_at_current (slp_lexer_copy_lexeme lx t) p)))"

declare next_token.simps [code]

definition parser_advance :: "slp_parser \<Rightarrow> slp_parser option" where
  "parser_advance p = next_token (p\<lparr>ps_previous := ps_current p\<rparr>)"

definition check_token :: "slp_token_type \<Rightarrow> slp_parser \<Rightarrow> bool" where
  "check_token ty p \<longleftrightarrow> tok_type (ps_current p) = ty"

definition consume :: "slp_token_type \<Rightarrow> string \<Rightarrow> slp_parser \<Rightarrow> slp_parser option" where
  "consume ty message p =
     (if tok_type (ps_current p) = ty then parser_advance p else Some (error_at_current message p))"

definition match_token :: "slp_token_type \<Rightarrow> slp_parser \<Rightarrow> (bool \<times> slp_parser) option" where
  "match_token ty p =
     (if tok_type (ps_current p) \<noteq> ty then Some (False, p)
      else do { p \<leftarrow> parser_advance p; Some (True, p) })"

text \<open>
  Looking one token ahead scans it and puts the scanner back. All places that do so restore the position,
  but only some of them the two line counters.
\<close>

definition peek_token :: "bool \<Rightarrow> bool \<Rightarrow> slp_parser \<Rightarrow> (slp_token \<times> slp_parser) option" where
  "peek_token restore_line restore_start_line p =
     do { (t, lx) \<leftarrow> slp_lexer_scan_token (ps_lexer p);
          Some (t, p\<lparr>ps_lexer := lx\<lparr>lx_current := lx_current (ps_lexer p),
            lx_line := (if restore_line then lx_line (ps_lexer p) else lx_line lx),
            lx_start_line := (if restore_start_line then lx_start_line (ps_lexer p) else lx_start_line lx)\<rparr>\<rparr>) }"

subsection \<open>Precedences and rules\<close>

abbreviation (input) "PREC_NONE \<equiv> 0 :: nat"
abbreviation (input) "PREC_ASSIGNMENT \<equiv> 1 :: nat"
abbreviation (input) "PREC_LOR \<equiv> 2 :: nat"
abbreviation (input) "PREC_LAND \<equiv> 3 :: nat"
abbreviation (input) "PREC_BIT_OR \<equiv> 4 :: nat"
abbreviation (input) "PREC_BIT_XOR \<equiv> 5 :: nat"
abbreviation (input) "PREC_BIT_AND \<equiv> 6 :: nat"
abbreviation (input) "PREC_EQUALITY \<equiv> 7 :: nat"
abbreviation (input) "PREC_COMPARISON \<equiv> 8 :: nat"
abbreviation (input) "PREC_SHIFT \<equiv> 9 :: nat"
abbreviation (input) "PREC_CONCAT \<equiv> 10 :: nat"
abbreviation (input) "PREC_TERM \<equiv> 11 :: nat"
abbreviation (input) "PREC_FACTOR \<equiv> 12 :: nat"
abbreviation (input) "PREC_UNARY \<equiv> 13 :: nat"
abbreviation (input) "PREC_INCDEC \<equiv> 14 :: nat"
abbreviation (input) "PREC_EXP \<equiv> 15 :: nat"
abbreviation (input) "PREC_CALL \<equiv> 16 :: nat"

datatype prefix_fn =
    Grouping | Block_expr | Obj_expr_prefix | Unary | Identifier_prefix | String_prefix | Number_prefix
  | Literal_prefix | Scalar_prefix | Array_prefix | Hash_prefix | Backtick_prefix | Address_prefix
  | Class_prefix | Command | Bridge | Inline_prefix

datatype infix_fn = Call_infix | Index_acc | Binary | Negated_binary | Assign | Logical | Postfix

record parse_rule =
  rule_prefix :: "prefix_fn option"
  rule_infix :: "infix_fn option"
  rule_precedence :: nat

definition rule :: "prefix_fn option \<Rightarrow> infix_fn option \<Rightarrow> nat \<Rightarrow> parse_rule" where
  "rule prefix infix_part prec = \<lparr>rule_prefix = prefix, rule_infix = infix_part, rule_precedence = prec\<rparr>"

fun symbol_rule :: "sym_token \<Rightarrow> parse_rule" where
  "symbol_rule TOKEN_LEFT_PAREN = rule (Some Grouping) (Some Call_infix) PREC_CALL"
| "symbol_rule TOKEN_LEFT_BRACE = rule (Some Block_expr) None PREC_NONE"
| "symbol_rule TOKEN_LEFT_BRACKET = rule (Some Obj_expr_prefix) (Some Index_acc) PREC_CALL"
| "symbol_rule TOKEN_DOT = rule None (Some Binary) PREC_CONCAT"
| "symbol_rule TOKEN_MINUS = rule (Some Unary) (Some Binary) PREC_TERM"
| "symbol_rule TOKEN_PLUS = rule (Some Unary) (Some Binary) PREC_TERM"
| "symbol_rule TOKEN_SLASH = rule None (Some Binary) PREC_FACTOR"
| "symbol_rule TOKEN_STAR = rule None (Some Binary) PREC_FACTOR"
| "symbol_rule TOKEN_BANG = rule (Some Unary) (Some Negated_binary) PREC_UNARY"
| "symbol_rule TOKEN_EQUAL = rule None (Some Assign) PREC_ASSIGNMENT"
| "symbol_rule TOKEN_GREATER = rule None (Some Binary) PREC_COMPARISON"
| "symbol_rule TOKEN_LESS = rule None (Some Binary) PREC_COMPARISON"
| "symbol_rule TOKEN_AT = rule (Some Array_prefix) None PREC_NONE"
| "symbol_rule TOKEN_PERCENT = rule (Some Hash_prefix) (Some Binary) PREC_FACTOR"
| "symbol_rule TOKEN_LOWER_X = rule None (Some Binary) PREC_FACTOR"
| "symbol_rule TOKEN_AMPERSAND = rule None (Some Binary) PREC_BIT_AND"
| "symbol_rule TOKEN_PIPE = rule None (Some Binary) PREC_BIT_OR"
| "symbol_rule TOKEN_CARET = rule None (Some Binary) PREC_BIT_XOR"
| "symbol_rule _ = rule None None PREC_NONE"

fun keyword_rule :: "keyword_token \<Rightarrow> parse_rule" where
  "keyword_rule TOKEN_SUB = rule (Some Bridge) None PREC_NONE"
| "keyword_rule TOKEN_INLINE = rule (Some Inline_prefix) None PREC_NONE"
| "keyword_rule ty =
     rule (if ty \<in> {TOKEN_ASSERT, TOKEN_BREAK, TOKEN_CONTINUE, TOKEN_DONE, TOKEN_HALT, TOKEN_RETURN, TOKEN_THROW,
                    TOKEN_YIELD, TOKEN_CALLCC, TOKEN_LOCAL, TOKEN_THIS} then Some Command
           else if ty \<in> {TOKEN_COPY, TOKEN_ADDALL, TOKEN_PRINTLN, TOKEN_REMOVEALL, TOKEN_RETAINALL}
           then Some Identifier_prefix else None) None PREC_NONE"

fun other_rule :: "other_token \<Rightarrow> parse_rule option" where
  "other_rule TOKEN_NE = Some (rule None (Some Binary) PREC_EQUALITY)"
| "other_rule TOKEN_EQ = Some (rule None (Some Binary) PREC_EQUALITY)"
| "other_rule TOKEN_EQI = Some (rule None (Some Binary) PREC_EQUALITY)"
| "other_rule TOKEN_NEQI = Some (rule None (Some Binary) PREC_EQUALITY)"
| "other_rule TOKEN_SPACESHIP = Some (rule None (Some Binary) PREC_EQUALITY)"
| "other_rule TOKEN_GE = Some (rule None (Some Binary) PREC_COMPARISON)"
| "other_rule TOKEN_LE = Some (rule None (Some Binary) PREC_COMPARISON)"
| "other_rule TOKEN_ID = Some (rule (Some Identifier_prefix) None PREC_NONE)"
| "other_rule TOKEN_STRING = Some (rule (Some String_prefix) None PREC_NONE)"
| "other_rule TOKEN_LITERAL = Some (rule (Some String_prefix) None PREC_NONE)"
| "other_rule TOKEN_NUMBER = Some (rule (Some Number_prefix) None PREC_NONE)"
| "other_rule TOKEN_DOUBLE = Some (rule (Some Number_prefix) None PREC_NONE)"
| "other_rule TOKEN_LONG = Some (rule (Some Number_prefix) None PREC_NONE)"
| "other_rule TOKEN_TRUE = Some (rule (Some Literal_prefix) None PREC_NONE)"
| "other_rule TOKEN_FALSE = Some (rule (Some Literal_prefix) None PREC_NONE)"
| "other_rule TOKEN_NULL = Some (rule (Some Literal_prefix) None PREC_NONE)"
| "other_rule TOKEN_LAND = Some (rule None (Some Logical) PREC_LAND)"
| "other_rule TOKEN_LOR = Some (rule None (Some Logical) PREC_LOR)"
| "other_rule TOKEN_SCALAR = Some (rule (Some Scalar_prefix) None PREC_NONE)"
| "other_rule TOKEN_BACKTICK_EXPR = Some (rule (Some Backtick_prefix) None PREC_NONE)"
| "other_rule TOKEN_BUILTIN_BINARY_PREDICATE_BRIDGE = Some (rule None (Some Binary) PREC_EQUALITY)"
| "other_rule TOKEN_UNARY_PREDICATE_BRIDGE = Some (rule (Some Unary) None PREC_UNARY)"
| "other_rule TOKEN_LSHIFT = Some (rule None (Some Binary) PREC_SHIFT)"
| "other_rule TOKEN_RSHIFT = Some (rule None (Some Binary) PREC_SHIFT)"
| "other_rule TOKEN_EXP = Some (rule None (Some Binary) PREC_EXP)"
| "other_rule TOKEN_ADDRESS = Some (rule (Some Address_prefix) None PREC_NONE)"
| "other_rule TOKEN_CLASS_LITERAL = Some (rule (Some Class_prefix) None PREC_NONE)"
| "other_rule TOKEN_ARG_PASSED_BY_NAME = Some (rule (Some Address_prefix) None PREC_NONE)"
| "other_rule TOKEN_EXPEQUAL = Some (rule None (Some Assign) PREC_ASSIGNMENT)"
| "other_rule TOKEN_INC = Some (rule (Some Unary) (Some Postfix) PREC_INCDEC)"
| "other_rule TOKEN_DEC = Some (rule (Some Unary) (Some Postfix) PREC_INCDEC)"
| "other_rule TOKEN_BIN_PRED = None"
| "other_rule TOKEN_ERROR = None"
| "other_rule _ = Some (rule None None PREC_NONE)"

text \<open>\<open>None\<close> is a place behind the end of the table, whose last entry is the binary predicate.\<close>

definition get_rule :: "slp_token_type \<Rightarrow> parse_rule option" where
  "get_rule ty =
     (case ty of Sym s \<Rightarrow> Some (symbol_rule s) | Kw k \<Rightarrow> Some (keyword_rule k)
      | Asg _ \<Rightarrow> Some (rule None (Some Assign) PREC_ASSIGNMENT) | Tok t \<Rightarrow> other_rule t)"

end
