(* ===== verification/Parser_Text.thy ===== *)
theory Parser_Text
  imports Parser_State
begin

text \<open>
  The literals of the parser (\<^verbatim>\<open>src/slp_parser.c\<close>): numbers, escapes, and the string that interpolates
  variables. The parser of an expression is the argument \<open>rec\<close>, as an alignment has an expression for its
  width that a nested parser reads.
\<close>

subsection \<open>What the recursive functions call\<close>

text \<open>The three functions of the parser that others call recursively: \<open>parse_precedence\<close>, \<open>statement\<close>, \<open>declaration\<close>.\<close>

datatype goal = Expr nat | Stmt | Decl

type_synonym parser = "goal \<Rightarrow> slp_parser \<Rightarrow> (ast \<times> slp_parser) option"

definition expression :: "parser \<Rightarrow> slp_parser \<Rightarrow> (ast \<times> slp_parser) option" where
  "expression rec p = rec (Expr PREC_ASSIGNMENT) p"

subsection \<open>Numbers\<close>

text \<open>\<open>strtoll(s, NULL, 0)\<close> of a text without sign or leading space: the base is given by the prefix, the value is clamped.\<close>

definition is_octal_digit :: "char \<Rightarrow> bool" where
  "is_octal_digit c \<longleftrightarrow> CHR ''0'' \<le> c \<and> c \<le> CHR ''7''"

definition strtoll_base0 :: "string \<Rightarrow> int" where
  "strtoll_base0 s =
     min (2 ^ 63 - 1) (int
       (case s of
          [] \<Rightarrow> 0
        | c # r \<Rightarrow>
            if c \<noteq> CHR ''0'' then digits_value 10 (takeWhile c_isdigit s)
            else (case r of
                    x # d # r' \<Rightarrow>
                      if (x = CHR ''x'' \<or> x = CHR ''X'') \<and> c_isxdigit d then digits_value 16 (takeWhile c_isxdigit (d # r'))
                      else digits_value 8 (takeWhile is_octal_digit r)
                  | _ \<Rightarrow> digits_value 8 (takeWhile is_octal_digit r))))"

definition based_lexeme :: "string \<Rightarrow> bool" where
  "based_lexeme s =
     (case s of
        c # d # _ \<Rightarrow> c = CHR ''0'' \<and> (d = CHR ''x'' \<or> d = CHR ''X'' \<or> CHR ''0'' \<le> d \<and> d \<le> CHR ''9'')
      | _ \<Rightarrow> False)"

definition number :: "slp_parser \<Rightarrow> (ast \<times> slp_parser) option" where
  "number p =
     (let lexeme = previous_text p; ty = tok_type (ps_previous p); dbl = (ty = Tok TOKEN_DOUBLE)
      in Some (if ty = Tok TOKEN_LONG then Long (new_line p) (word_of_int (strtoll_base0 lexeme))
               else Number (new_line p) dbl
                      (if \<not> dbl \<and> based_lexeme lexeme then f_of_int (strtoll_base0 lexeme) else fst (strtod lexeme)), p))"

subsection \<open>Quoted texts\<close>

fun unescape :: "bool \<Rightarrow> string \<Rightarrow> string" where
  "unescape is_literal (c # d # r) =
     (if c \<noteq> CHR 0x5C then c # unescape is_literal (d # r)
      else if is_literal
      then (if d = CHR 0x27 \<or> d = CHR 0x5C then d # unescape is_literal r else c # unescape is_literal (d # r))
      else if d = CHR ''n'' then NL # unescape is_literal r
      else if d = CHR ''t'' then CHR 0x09 # unescape is_literal r
      else if d = CHR ''r'' then CHR 0x0D # unescape is_literal r
      else if d = CHR 0x5C \<or> d = CHR 0x22 \<or> d = CHR 0x27 then d # unescape is_literal r
      else c # unescape is_literal (d # r))"
| "unescape is_literal s = s"

text \<open>The text between the quotes.\<close>

definition inner_text :: "slp_parser \<Rightarrow> slp_token \<Rightarrow> string" where
  "inner_text p token = butlast (tl (token_text p token))"

definition copy_unquoted_lexeme :: "slp_parser \<Rightarrow> slp_token \<Rightarrow> string" where
  "copy_unquoted_lexeme p token =
     (if tok_length token < 2 then token_text p token
      else unescape (tok_type token = Tok TOKEN_LITERAL) (inner_text p token))"

subsection \<open>Interpolated strings\<close>

definition parsed_string_var_end :: "char \<Rightarrow> bool" where
  "parsed_string_var_end c \<longleftrightarrow> c = CHR '' '' \<or> c = CHR 0x09 \<or> c = NL \<or> c = CHR ''$'' \<or> c = CHR 0x5C"

text \<open>The text, the parts so far, the line of the cursor and the line the next text begins at.\<close>

record string_parts =
  sp_literal :: string
  sp_parts :: "ast list"
  sp_line :: int
  sp_literal_line :: int

definition flush_literal :: "string_parts \<Rightarrow> string_parts" where
  "flush_literal s =
     (if sp_literal s = [] then s
      else s\<lparr>sp_parts := sp_parts s @ [Str (sp_literal_line s) (Some (sp_literal s))], sp_literal := []\<rparr>)"

definition put_char :: "char \<Rightarrow> string_parts \<Rightarrow> string_parts" where
  "put_char c s = s\<lparr>sp_literal := sp_literal s @ [c]\<rparr>"

definition count_line :: "char \<Rightarrow> string_parts \<Rightarrow> string_parts" where
  "count_line c s = (if c = NL then s\<lparr>sp_line := sp_line s + 1\<rparr> else s)"

definition escaped_char :: "char \<Rightarrow> char" where
  "escaped_char c =
     (if c = CHR ''n'' then NL else if c = CHR ''t'' then CHR 0x09 else if c = CHR ''r'' then CHR 0x0D else c)"

text \<open>The text up to the bracket that closes the alignment, the rest behind it and the number of lines passed.\<close>

fun alignment_text :: "nat \<Rightarrow> string \<Rightarrow> (string \<times> string \<times> nat) option" where
  "alignment_text depth [] = None"
| "alignment_text depth (c # r) =
     (if c = CHR '']'' \<and> depth = 1 then Some ([], r, 0)
      else map_option (\<lambda>(t, rest, lines). (c # t, rest, if c = NL then Suc lines else lines))
             (alignment_text (if c = CHR ''['' then Suc depth else if c = CHR '']'' then depth - 1 else depth) r))"

lemma alignment_text_length: "alignment_text d s = Some (t, rest, l) \<Longrightarrow> length s = length t + Suc (length rest)"
  by (induction d s arbitrary: t rest l rule: alignment_text.induct) (auto split: if_split_asm)

definition nested_message :: "parse_message option \<Rightarrow> parse_message" where
  "nested_message m =
     (case m of None \<Rightarrow> Fixed ''Invalid alignment expression.'' | Some (Fixed s) \<Rightarrow> Fixed s | Some _ \<Rightarrow> Dead_buffer)"

text \<open>The width is the whole source of a parser of its own; \<open>No_node\<close> after an error.\<close>

definition parse_alignment_width :: "parser \<Rightarrow> string \<Rightarrow> slp_parser \<Rightarrow> (ast \<times> slp_parser) option" where
  "parse_alignment_width rec source p =
     do { nested \<leftarrow> parser_advance (slp_parser_init source);
          (width, nested) \<leftarrow> expression rec nested;
          if ps_had_error nested \<or> width = No_node \<or> \<not> check_token (Tok TOKEN_EOF) nested
          then Some (No_node, error_at (ps_previous p) (nested_message (ps_error_message nested)) p)
          else Some (width, p) }"

text \<open>\<open>$[width]\<close>: the width and the rest behind the bracket, or nothing after an error.\<close>

definition alignment :: "parser \<Rightarrow> string \<Rightarrow> string_parts \<Rightarrow> slp_parser \<Rightarrow>
    ((ast \<times> string \<times> string_parts) option \<times> slp_parser) option" where
  "alignment rec cs s p =
     (case alignment_text 1 cs of
        None \<Rightarrow> Some (None, parse_error ''missing close brace for variable alignment'' p)
      | Some (source, rest, lines) \<Rightarrow>
          if source = [] then Some (None, parse_error ''Empty alignment specification'' p)
          else do {
            (width, p) \<leftarrow> parse_alignment_width rec source p;
            if width = No_node then Some (None, p)
            else if rest = [] \<or> parsed_string_var_end (hd rest)
            then Some (None, parse_error ''can not align an empty variable'' p)
            else Some (Some (width, rest, s\<lparr>sp_line := sp_line s + int lines\<rparr>), p) })"

lemma alignment_rest: "alignment rec cs s p = Some (Some (w, rest, s'), p') \<Longrightarrow> length rest < length cs"
  by (auto simp: alignment_def bind_Some_iff dest!: alignment_text_length split: option.splits if_split_asm)

text \<open>A variable behind the dollar sign, with its alignment if it has one.\<close>

definition string_variable :: "ast \<Rightarrow> int \<Rightarrow> string \<Rightarrow> string_parts \<Rightarrow> string_parts" where
  "string_variable width line name s =
     (let v = Scalar line (Some name)
      in s\<lparr>sp_parts := sp_parts s @ [if width = No_node then v else Align line width v], sp_literal_line := sp_line s\<rparr>)"

function string_loop :: "parser \<Rightarrow> string \<Rightarrow> string_parts \<Rightarrow> slp_parser \<Rightarrow> (string_parts option \<times> slp_parser) option" where
  "string_loop rec cs s p =
     (if cs = [] then Some (Some (flush_literal s), p)
      else if 510 \<le> length (sp_parts s) then Some (None, parse_error ''String has too many interpolated segments.'' p)
      else if hd cs = CHR 0x5C \<and> 1 < length cs
      then string_loop rec (drop 2 cs) (count_line (cs ! 1) (put_char (escaped_char (cs ! 1)) s)) p
      else if take 4 cs = '' $+ '' then string_loop rec (drop 4 cs) s p
      else if take 2 cs = ''$+'' then Some (None, parse_error ''operator $+ must be surrounded with whitespace'' p)
      else if hd cs = CHR ''$'' \<and> 1 < length cs \<and> \<not> parsed_string_var_end (cs ! 1)
      then (let line = sp_line s; s = flush_literal s; name = takeWhile (\<lambda>c. \<not> parsed_string_var_end c)
            in if cs ! 1 = CHR ''[''
               then (case alignment rec (drop 2 cs) s p of
                       None \<Rightarrow> None
                     | Some (None, p) \<Rightarrow> Some (None, p)
                     | Some (Some (width, rest, s), p) \<Rightarrow>
                         string_loop rec (dropWhile (\<lambda>c. \<not> parsed_string_var_end c) rest)
                           (string_variable width line (name rest) s) p)
               else string_loop rec (dropWhile (\<lambda>c. \<not> parsed_string_var_end c) (tl cs))
                      (string_variable No_node line (name (tl cs)) s) p)
      else string_loop rec (tl cs) (put_char (hd cs) (count_line (hd cs) s)) p)"
  by pat_completeness auto
termination
proof (relation "measure (\<lambda>(rec, cs, s, p). length cs)", goal_cases)
  case (4 rec cs s p)
  then show ?case by (auto dest!: alignment_rest intro: le_less_trans [OF length_dropWhile_le])
next
  case (5 rec cs s p)
  have "length (dropWhile (\<lambda>c. \<not> parsed_string_var_end c) (tl cs)) \<le> length (tl cs)" by (rule length_dropWhile_le)
  then show ?case using 5 by (cases cs) auto
qed auto

declare string_loop.simps [simp del]

text \<open>The parts are joined by the concatenation operator.\<close>

fun join_parts :: "ast \<Rightarrow> ast list \<Rightarrow> ast option" where
  "join_parts l [] = Some l"
| "join_parts l (r # rs) =
     do { line \<leftarrow> node_line r; join_parts (Binop line l (Sym TOKEN_DOT, ''.'') r False) rs }"

definition empty_string :: "slp_parser \<Rightarrow> ast" where
  "empty_string p = Str (new_line p) (Some [])"

definition parse_double_quoted_string :: "parser \<Rightarrow> slp_token \<Rightarrow> slp_parser \<Rightarrow> (ast \<times> slp_parser) option" where
  "parse_double_quoted_string rec token p =
     (if tok_length token < 2 then Some (empty_string p, p)
      else (let line = int (tok_line token) - int (length (filter (\<lambda>c. c = NL) (token_text p token)))
            in do { (s, p) \<leftarrow> string_loop rec (inner_text p token)
                       \<lparr>sp_literal = [], sp_parts = [], sp_line = line, sp_literal_line = line\<rparr> p;
                    (case s of
                       None \<Rightarrow> Some (No_node, p)
                     | Some s \<Rightarrow>
                         (case sp_parts s of
                            [] \<Rightarrow> Some (empty_string p, p)
                          | e # es \<Rightarrow> do { e \<leftarrow> join_parts e es; Some (e, p) })) }))"

definition string_literal :: "parser \<Rightarrow> slp_parser \<Rightarrow> (ast \<times> slp_parser) option" where
  "string_literal rec p =
     (let token = ps_previous p
      in if tok_type token = Tok TOKEN_STRING then parse_double_quoted_string rec token p
         else Some (Str (new_line p) (Some (copy_unquoted_lexeme p token)), p))"

end
