(* ===== verification/Parser.thy ===== *)
theory Parser
  imports Parser_Text
begin

text \<open>
  The parser of \<^verbatim>\<open>src/slp_parser.c\<close>: a precedence climber for expressions and recursive descent for statements.
  The functions call each other through \<open>rec\<close>, which \<open>parse\<close> ties at the end; \<open>n\<close> bounds the turns of the
  loops, and \<open>parse\<close> takes both from its fuel. The flag \<open>canAssign\<close>, which no function reads, is left out.
\<close>

subsection \<open>Helpers\<close>

abbreviation at :: "sym_token \<Rightarrow> slp_parser \<Rightarrow> bool" where
  "at s p \<equiv> check_token (Sym s) p"

abbreviation at_eof :: "slp_parser \<Rightarrow> bool" where
  "at_eof p \<equiv> check_token (Tok TOKEN_EOF) p"

text \<open>The text of the last token without its first character.\<close>

definition previous_name :: "slp_parser \<Rightarrow> string" where
  "previous_name p = tl (previous_text p)"

text \<open>\<open>match(a) || match(b) || ...\<close>\<close>

fun match_any :: "slp_token_type list \<Rightarrow> slp_parser \<Rightarrow> (bool \<times> slp_parser) option" where
  "match_any [] p = Some (False, p)"
| "match_any (ty # tys) p = do { (found, p) \<leftarrow> match_token ty p; if found then Some (True, p) else match_any tys p }"

subsection \<open>Arguments\<close>

definition arrow_name :: "slp_parser \<Rightarrow> bool" where
  "arrow_name p \<longleftrightarrow> (at TOKEN_LOWER_X p \<or> check_token (Tok TOKEN_ID) p) \<and> token_text p (ps_current p) = ''x''"

definition argument_expression :: "parser \<Rightarrow> slp_parser \<Rightarrow> (ast \<times> slp_parser) option" where
  "argument_expression rec p =
     (if arrow_name p
      then do { (t, p) \<leftarrow> peek_token False False p;
                if tok_type t = Tok TOKEN_ARROW
                then do { p \<leftarrow> parser_advance p; Some (Identifier (new_line p) (Some (previous_text p)), p) }
                else expression rec p }
      else expression rec p)"

definition argument :: "parser \<Rightarrow> slp_parser \<Rightarrow> (ast \<times> slp_parser) option" where
  "argument rec p =
     do { (e, p) \<leftarrow> argument_expression rec p;
          let line = new_line p;
          (named, p) \<leftarrow> match_token (Tok TOKEN_ARROW) p;
          if named then do { (v, p) \<leftarrow> expression rec p; Some (Arg line e v, p) }
          else Some (Arg line No_node e, p) }"

definition argument_name :: "ast \<Rightarrow> string option" where
  "argument_name a =
     (case a of
        Arg _ n _ \<Rightarrow>
          (case n of Scalar _ s \<Rightarrow> s | Array _ s \<Rightarrow> s | Hashtable _ s \<Rightarrow> s | Identifier _ s \<Rightarrow> s | Str _ s \<Rightarrow> s | Literal _ s \<Rightarrow> s
           | _ \<Rightarrow> None)
      | _ \<Rightarrow> None)"

text \<open>The message is written to the buffer of the parser also when an earlier error stays.\<close>

definition missing_comma :: "ast \<Rightarrow> slp_parser \<Rightarrow> slp_parser" where
  "missing_comma a p =
     (case argument_name a of
        Some name \<Rightarrow>
          error_at (ps_previous p) Own_buffer
            (p\<lparr>ps_error_buffer := take 255 (''key/value pair specified for '' @ [CHR 0x27] @ name @ [CHR 0x27] @
                 '', did you forget a comma?'')\<rparr>)
      | None \<Rightarrow> parse_error ''Expect ',' between arguments'' p)"

fun arguments :: "nat \<Rightarrow> parser \<Rightarrow> slp_token_type \<Rightarrow> slp_parser \<Rightarrow> (ast list \<times> slp_parser) option" where
  "arguments 0 rec stop p = None"
| "arguments (Suc n) rec stop p =
     (if check_token stop p then Some ([], p)
      else do {
        (a, p) \<leftarrow> argument rec p;
        if check_token stop p then Some ([a], p)
        else do {
          (comma, p) \<leftarrow> match_token (Sym TOKEN_COMMA) p;
          if \<not> comma then Some ([a], missing_comma a p)
          else if ps_had_error p then Some ([a], p)
          else do { (as, p) \<leftarrow> arguments n rec stop p; Some (a # as, p) } } })"

definition parse_args :: "nat \<Rightarrow> parser \<Rightarrow> slp_token_type \<Rightarrow> slp_parser \<Rightarrow> (ast list \<times> slp_parser) option" where
  "parse_args n rec stop p = arguments n rec stop p"

subsection \<open>Blocks and bridges\<close>

fun declarations :: "nat \<Rightarrow> parser \<Rightarrow> slp_parser \<Rightarrow> (ast list \<times> slp_parser) option" where
  "declarations 0 rec p = None"
| "declarations (Suc n) rec p =
     (if at TOKEN_RIGHT_BRACE p \<or> at_eof p \<or> ps_had_error p then Some ([], p)
      else do { (s, p) \<leftarrow> rec Decl p; (ss, p) \<leftarrow> declarations n rec p; Some (if s = No_node then ss else s # ss, p) })"

definition block_rest :: "nat \<Rightarrow> parser \<Rightarrow> slp_parser \<Rightarrow> (ast \<times> slp_parser) option" where
  "block_rest n rec p =
     do { let line = new_line p;
          (ss, p) \<leftarrow> declarations n rec p;
          p \<leftarrow> consume (Sym TOKEN_RIGHT_BRACE) ''Expect '}' after block.'' p;
          Some (Block line ss, p) }"

definition block :: "nat \<Rightarrow> parser \<Rightarrow> slp_parser \<Rightarrow> (ast \<times> slp_parser) option" where
  "block n rec p =
     do { p \<leftarrow> consume (Sym TOKEN_LEFT_BRACE) ''Expect '{' to start block.'' p; block_rest n rec p }"

definition block_expr :: "nat \<Rightarrow> parser \<Rightarrow> slp_parser \<Rightarrow> (ast \<times> slp_parser) option" where
  "block_expr n rec p =
     do { let line = new_line p; (body, p) \<leftarrow> block_rest n rec p; Some (Env_bridge line None None None body, p) }"

definition bridge :: "nat \<Rightarrow> parser \<Rightarrow> slp_parser \<Rightarrow> (ast \<times> slp_parser) option" where
  "bridge n rec p =
     do { let line = new_line p; let keyword = previous_text p;
          (named, p) \<leftarrow> match_token (Tok TOKEN_ID) p;
          let name = (if named then Some (previous_text p) else None);
          (quoted, p) \<leftarrow> match_any [Tok TOKEN_STRING, Tok TOKEN_LITERAL] p;
          let text = (if quoted then Some (previous_text p) else None);
          (body, p) \<leftarrow> (if at TOKEN_LEFT_BRACE p then block n rec p else Some (No_node, p));
          Some (Env_bridge line (Some keyword) name text body, p) }"

subsection \<open>Prefix expressions\<close>

definition identifier_expr :: "slp_parser \<Rightarrow> (ast \<times> slp_parser) option" where
  "identifier_expr p = Some (Identifier (new_line p) (Some (previous_text p)), p)"

definition inline_prefix :: "nat \<Rightarrow> parser \<Rightarrow> slp_parser \<Rightarrow> (ast \<times> slp_parser) option" where
  "inline_prefix n rec p = (if at TOKEN_LEFT_PAREN p then identifier_expr p else bridge n rec p)"

definition unary :: "parser \<Rightarrow> slp_parser \<Rightarrow> (ast \<times> slp_parser) option" where
  "unary rec p =
     do { let line = new_line p; let op = token_op p (ps_previous p);
          (operand, p) \<leftarrow> rec (Expr PREC_UNARY) p;
          Some (Unaryop line op operand False, p) }"

definition parse_literal :: "slp_parser \<Rightarrow> (ast \<times> slp_parser) option" where
  "parse_literal p =
     Some (if tok_type (ps_previous p) = Tok TOKEN_FALSE then Boolean (new_line p) False
           else if tok_type (ps_previous p) = Tok TOKEN_TRUE then Boolean (new_line p) True
           else if tok_type (ps_previous p) = Tok TOKEN_NULL then Null (new_line p)
           else No_node, p)"

definition scalar :: "slp_parser \<Rightarrow> (ast \<times> slp_parser) option" where
  "scalar p = Some (Scalar (new_line p) (Some (previous_name p)), p)"

definition array_expr :: "nat \<Rightarrow> parser \<Rightarrow> slp_parser \<Rightarrow> (ast \<times> slp_parser) option" where
  "array_expr n rec p =
     (if tok_length (ps_previous p) = 1
      then do {
        p \<leftarrow> consume (Sym TOKEN_LEFT_PAREN) ''Expect '(' after '@'.'' p;
        let line = new_line p;
        (args, p) \<leftarrow> parse_args n rec (Sym TOKEN_RIGHT_PAREN) p;
        p \<leftarrow> consume (Sym TOKEN_RIGHT_PAREN) ''Expect ')' after array arguments.'' p;
        Some (Call line (Array line (Some ''@'')) args, p) }
      else Some (Array (new_line p) (Some (previous_name p)), p))"

definition hash_expr :: "nat \<Rightarrow> parser \<Rightarrow> slp_parser \<Rightarrow> (ast \<times> slp_parser) option" where
  "hash_expr n rec p =
     (if tok_length (ps_previous p) = 1
      then do {
        p \<leftarrow> consume (Sym TOKEN_LEFT_PAREN) ''Expect '(' after '%'.'' p;
        let line = new_line p;
        (args, p) \<leftarrow> parse_args n rec (Sym TOKEN_RIGHT_PAREN) p;
        p \<leftarrow> consume (Sym TOKEN_RIGHT_PAREN) ''Expect ')' after hash arguments.'' p;
        Some (Call line (Hashtable line (Some ''%'')) args, p) }
      else Some (Hashtable (new_line p) (Some (previous_name p)), p))"

fun tuple_items :: "nat \<Rightarrow> parser \<Rightarrow> slp_parser \<Rightarrow> (ast list \<times> slp_parser) option" where
  "tuple_items 0 rec p = None"
| "tuple_items (Suc n) rec p =
     do { (more, p) \<leftarrow> match_token (Sym TOKEN_COMMA) p;
          if \<not> more then Some ([], p)
          else do { (e, p) \<leftarrow> expression rec p; (es, p) \<leftarrow> tuple_items n rec p; Some (e # es, p) } }"

definition followed_by_assignment :: "slp_parser \<Rightarrow> bool" where
  "followed_by_assignment p \<longleftrightarrow>
     (case tok_type (ps_current p) of
        Sym s \<Rightarrow> s = TOKEN_EQUAL | Asg _ \<Rightarrow> True | Tok t \<Rightarrow> t = TOKEN_EXPEQUAL | Kw _ \<Rightarrow> False)"

text \<open>One variable in parentheses before an assignment is a tuple. The node is read without a test for null.\<close>

definition grouping :: "nat \<Rightarrow> parser \<Rightarrow> slp_parser \<Rightarrow> (ast \<times> slp_parser) option" where
  "grouping n rec p =
     do { (e, p) \<leftarrow> expression rec p;
          if at TOKEN_COMMA p
          then do {
            let line = new_line p;
            (es, p) \<leftarrow> tuple_items n rec p;
            p \<leftarrow> consume (Sym TOKEN_RIGHT_PAREN) ''Expect ')' after tuple.'' p;
            Some (Lvalue_tuple line (e # es), p) }
          else do {
            p \<leftarrow> consume (Sym TOKEN_RIGHT_PAREN) ''Expect ')' after expression.'' p;
            if followed_by_assignment p
            then (case e of
                    No_node \<Rightarrow> None
                  | Scalar _ _ \<Rightarrow> Some (Lvalue_tuple (new_line p) [e], p)
                  | Array _ _ \<Rightarrow> Some (Lvalue_tuple (new_line p) [e], p)
                  | Hashtable _ _ \<Rightarrow> Some (Lvalue_tuple (new_line p) [e], p)
                  | Identifier _ _ \<Rightarrow> Some (Lvalue_tuple (new_line p) [e], p)
                  | _ \<Rightarrow> Some (e, p))
            else Some (e, p) } }"

definition backtick_expr :: "slp_parser \<Rightarrow> (ast \<times> slp_parser) option" where
  "backtick_expr p =
     (if length (previous_text p) = 1 then None
      else Some (Backtick (new_line p) (Some (butlast (previous_name p))), p))"

definition address_expr :: "slp_parser \<Rightarrow> (ast \<times> slp_parser) option" where
  "address_expr p = Some (Address (new_line p) (Some (previous_name p)), p)"

definition class_expr :: "slp_parser \<Rightarrow> (ast \<times> slp_parser) option" where
  "class_expr p = Some (Class_literal (new_line p) (Some (previous_name p)), p)"

subsection \<open>Object expressions\<close>

definition object_target_starts_qualified_name :: "slp_parser \<Rightarrow> (bool \<times> slp_parser) option" where
  "object_target_starts_qualified_name p =
     (if \<not> check_token (Tok TOKEN_ID) p then Some (False, p)
      else do { (t, p) \<leftarrow> peek_token True True p; Some (tok_type t = Sym TOKEN_DOT, p) })"

text \<open>
  The buffer holds 512 bytes. When a component does not fit behind a dot, the dot has replaced the end of the
  string; the parse has failed then and nothing reads the name.
\<close>

fun qualified_components :: "nat \<Rightarrow> string \<Rightarrow> slp_parser \<Rightarrow> (string \<times> slp_parser) option" where
  "qualified_components 0 q p = None"
| "qualified_components (Suc n) q p =
     do { p \<leftarrow> consume (Tok TOKEN_ID) ''Expect class name component after '.'.'' p;
          let component = previous_text p;
          let q = (if q \<noteq> [] \<and> length q + 1 < 512 then q @ ''.'' else q);
          if 512 \<le> length q + length component
          then Some (q, parse_error ''Qualified class name is too long.'' p)
          else do { (dot, p) \<leftarrow> match_token (Sym TOKEN_DOT) p;
                    if dot then qualified_components n (q @ component) p else Some (q @ component, p) } }"

definition qualified_object_target :: "nat \<Rightarrow> slp_parser \<Rightarrow> (ast \<times> slp_parser) option" where
  "qualified_object_target n p =
     do { (q, p) \<leftarrow> qualified_components n [] p; Some (Class_literal (new_line p) (Some q), p) }"

definition command_keywords :: "keyword_token list" where
  "command_keywords =
     [TOKEN_RETURN, TOKEN_THROW, TOKEN_YIELD, TOKEN_ASSERT, TOKEN_CALLCC, TOKEN_HALT, TOKEN_DONE, TOKEN_LOCAL, TOKEN_THIS,
      TOKEN_BREAK, TOKEN_CONTINUE]"

definition object_message :: "parser \<Rightarrow> slp_parser \<Rightarrow> (ast \<times> slp_parser) option" where
  "object_message rec p =
     (if tok_type (ps_current p) \<in> Kw ` set command_keywords
      then do { p \<leftarrow> parser_advance p; identifier_expr p }
      else expression rec p)"

definition object_arguments :: "nat \<Rightarrow> parser \<Rightarrow> slp_parser \<Rightarrow> (ast list \<times> slp_parser) option" where
  "object_arguments n rec p =
     do { (colon, p) \<leftarrow> match_token (Sym TOKEN_COLON) p;
          if \<not> colon then Some ([], p)
          else do { (args, p) \<leftarrow> parse_args n rec (Sym TOKEN_RIGHT_BRACKET) p;
                    Some (args, if args = [] then parse_error ''Expect at least one argument after ':'.'' p else p) } }"

definition obj_expr :: "nat \<Rightarrow> parser \<Rightarrow> slp_parser \<Rightarrow> (ast \<times> slp_parser) option" where
  "obj_expr n rec p =
     do { let line = new_line p;
          (qualified, p) \<leftarrow> object_target_starts_qualified_name p;
          (target, p) \<leftarrow> (if qualified then qualified_object_target n p else expression rec p);
          (message, p) \<leftarrow> (if at TOKEN_COLON p \<or> at TOKEN_RIGHT_BRACKET p then Some (No_node, p) else object_message rec p);
          (args, p) \<leftarrow> object_arguments n rec p;
          p \<leftarrow> consume (Sym TOKEN_RIGHT_BRACKET) ''Expect ']' after object expression.'' p;
          Some (Obj_expr line target message args, p) }"

subsection \<open>Commands\<close>

fun command_node :: "slp_token_type \<Rightarrow> int \<Rightarrow> ast \<Rightarrow> ast \<Rightarrow> ast" where
  "command_node (Kw TOKEN_RETURN) l v m = Return l v"
| "command_node (Kw TOKEN_THROW) l v m = Throw l v"
| "command_node (Kw TOKEN_YIELD) l v m = Yield l v"
| "command_node (Kw TOKEN_ASSERT) l v m = Assert l v m"
| "command_node (Kw TOKEN_CALLCC) l v m = Callcc l v"
| "command_node (Kw TOKEN_HALT) l v m = Halt l v"
| "command_node (Kw TOKEN_DONE) l v m = Done l v"
| "command_node (Kw TOKEN_LOCAL) l v m = Local l v"
| "command_node (Kw TOKEN_THIS) l v m = This l v"
| "command_node (Kw TOKEN_BREAK) l v m = Break l v"
| "command_node (Kw TOKEN_CONTINUE) l v m = Continue l v"
| "command_node _ l v m = Nop l"

text \<open>A value of \<open>return\<close> and \<open>yield\<close> begins on the line of the keyword: the scanner is one token ahead.\<close>

definition has_command_value :: "slp_token_type \<Rightarrow> slp_parser \<Rightarrow> bool" where
  "has_command_value ty p \<longleftrightarrow>
     \<not> at TOKEN_SEMICOLON p \<and> \<not> at_eof p \<and> \<not> at TOKEN_RIGHT_PAREN p \<and> \<not> at TOKEN_RIGHT_BRACE p \<and>
     \<not> (ty \<in> {Kw TOKEN_RETURN, Kw TOKEN_YIELD} \<and> tok_line (ps_previous p) < lx_start_line (ps_lexer p))"

definition assert_message :: "parser \<Rightarrow> slp_parser \<Rightarrow> (ast \<times> slp_parser) option" where
  "assert_message rec p =
     do { (colon, p) \<leftarrow> match_token (Sym TOKEN_COLON) p;
          if colon \<and> \<not> at TOKEN_SEMICOLON p \<and> \<not> at_eof p then expression rec p else Some (No_node, p) }"

definition command :: "parser \<Rightarrow> slp_parser \<Rightarrow> (ast \<times> slp_parser) option" where
  "command rec p =
     (let ty = tok_type (ps_previous p); line = new_line p
      in if \<not> has_command_value ty p then Some (command_node ty line No_node No_node, p)
         else do { (value, p) \<leftarrow> expression rec p;
                   (message, p) \<leftarrow> (if ty = Kw TOKEN_ASSERT then assert_message rec p else Some (No_node, p));
                   Some (command_node ty line value message, p) })"

subsection \<open>Infix expressions\<close>

definition binary :: "parser \<Rightarrow> ast \<Rightarrow> slp_parser \<Rightarrow> (ast \<times> slp_parser) option" where
  "binary rec left p =
     do { let line = new_line p; let op = token_op p (ps_previous p);
          r \<leftarrow> get_rule (fst op);
          (right, p) \<leftarrow> rec (Expr (rule_precedence r + 1)) p;
          Some (Binop line left op right False, p) }"

definition negated_binary :: "parser \<Rightarrow> ast \<Rightarrow> slp_parser \<Rightarrow> (ast \<times> slp_parser) option" where
  "negated_binary rec left p =
     do { p \<leftarrow> parser_advance p;
          let line = new_line p; let op = token_op p (ps_previous p);
          (right, p) \<leftarrow> rec (Expr PREC_EQUALITY) p;
          Some (Binop line left op right True, p) }"

definition assignment :: "parser \<Rightarrow> ast \<Rightarrow> slp_parser \<Rightarrow> (ast \<times> slp_parser) option" where
  "assignment rec left p =
     do { let line = new_line p; let op = token_op p (ps_previous p);
          (right, p) \<leftarrow> rec (Expr PREC_ASSIGNMENT) p;
          Some (Assignment line left op right, p) }"

text \<open>Unlike the other operators, a logical one has the line of the end of its right operand.\<close>

definition logical :: "parser \<Rightarrow> ast \<Rightarrow> slp_parser \<Rightarrow> (ast \<times> slp_parser) option" where
  "logical rec left p =
     do { let op = token_op p (ps_previous p);
          r \<leftarrow> get_rule (fst op);
          (right, p) \<leftarrow> rec (Expr (rule_precedence r + 1)) p;
          Some (Binop (new_line p) left op right False, p) }"

definition postfix :: "ast \<Rightarrow> slp_parser \<Rightarrow> (ast \<times> slp_parser) option" where
  "postfix left p = Some (Unaryop (new_line p) (token_op p (ps_previous p)) left True, p)"

definition index_acc :: "parser \<Rightarrow> ast \<Rightarrow> slp_parser \<Rightarrow> (ast \<times> slp_parser) option" where
  "index_acc rec left p =
     do { (element, p) \<leftarrow> expression rec p;
          p \<leftarrow> consume (Sym TOKEN_RIGHT_BRACKET) ''Expect ']' after index.'' p;
          Some (Index (new_line p) left element, p) }"

definition call_expr :: "nat \<Rightarrow> parser \<Rightarrow> ast \<Rightarrow> slp_parser \<Rightarrow> (ast \<times> slp_parser) option" where
  "call_expr n rec left p =
     do { let line = new_line p;
          (args, p) \<leftarrow> parse_args n rec (Sym TOKEN_RIGHT_PAREN) p;
          p \<leftarrow> consume (Sym TOKEN_RIGHT_PAREN) ''Expect ')' after arguments.'' p;
          Some (Call line left args, p) }"

subsection \<open>Precedence climbing\<close>

fun prefix_expr :: "nat \<Rightarrow> parser \<Rightarrow> prefix_fn \<Rightarrow> slp_parser \<Rightarrow> (ast \<times> slp_parser) option" where
  "prefix_expr n rec Grouping p = grouping n rec p"
| "prefix_expr n rec Block_expr p = block_expr n rec p"
| "prefix_expr n rec Obj_expr_prefix p = obj_expr n rec p"
| "prefix_expr n rec Unary p = unary rec p"
| "prefix_expr n rec Identifier_prefix p = identifier_expr p"
| "prefix_expr n rec String_prefix p = string_literal rec p"
| "prefix_expr n rec Number_prefix p = number p"
| "prefix_expr n rec Literal_prefix p = parse_literal p"
| "prefix_expr n rec Scalar_prefix p = scalar p"
| "prefix_expr n rec Array_prefix p = array_expr n rec p"
| "prefix_expr n rec Hash_prefix p = hash_expr n rec p"
| "prefix_expr n rec Backtick_prefix p = backtick_expr p"
| "prefix_expr n rec Address_prefix p = address_expr p"
| "prefix_expr n rec Class_prefix p = class_expr p"
| "prefix_expr n rec Command p = command rec p"
| "prefix_expr n rec Bridge p = bridge n rec p"
| "prefix_expr n rec Inline_prefix p = inline_prefix n rec p"

fun infix_expr :: "nat \<Rightarrow> parser \<Rightarrow> infix_fn \<Rightarrow> ast \<Rightarrow> slp_parser \<Rightarrow> (ast \<times> slp_parser) option" where
  "infix_expr n rec Call_infix left p = call_expr n rec left p"
| "infix_expr n rec Index_acc left p = index_acc rec left p"
| "infix_expr n rec Binary left p = binary rec left p"
| "infix_expr n rec Negated_binary left p = negated_binary rec left p"
| "infix_expr n rec Assign left p = assignment rec left p"
| "infix_expr n rec Logical left p = logical rec left p"
| "infix_expr n rec Postfix left p = postfix left p"

definition at_string :: "slp_parser \<Rightarrow> bool" where
  "at_string p \<longleftrightarrow> check_token (Tok TOKEN_STRING) p \<or> check_token (Tok TOKEN_LITERAL) p"

text \<open>Strings that follow a string are appended as they are written, with their quotes.\<close>

fun string_pieces :: "nat \<Rightarrow> slp_parser \<Rightarrow> (string \<times> slp_parser) option" where
  "string_pieces 0 p = None"
| "string_pieces (Suc n) p =
     (if \<not> at_string p then Some ([], p)
      else do { p \<leftarrow> parser_advance p; let piece = previous_text p; (s, p) \<leftarrow> string_pieces n p; Some (piece @ s, p) })"

definition juxtapose :: "nat \<Rightarrow> ast \<Rightarrow> slp_parser \<Rightarrow> (ast \<times> slp_parser) option" where
  "juxtapose n e p =
     (let append = (\<lambda>l text. do { t \<leftarrow> text; (s, p) \<leftarrow> string_pieces n p; Some (Str l (Some (t @ s)), p) })
      in if \<not> at_string p then Some (e, p)
         else case e of Str l t \<Rightarrow> append l t | Literal l t \<Rightarrow> append l t | _ \<Rightarrow> Some (e, p))"

fun infix_loop :: "nat \<Rightarrow> nat \<Rightarrow> parser \<Rightarrow> nat \<Rightarrow> ast \<Rightarrow> slp_parser \<Rightarrow> (ast \<times> slp_parser) option" where
  "infix_loop 0 n rec prec e p = None"
| "infix_loop (Suc k) n rec prec e p =
     (if ps_had_error p then Some (e, p)
      else do {
        r \<leftarrow> get_rule (tok_type (ps_current p));
        if rule_precedence r < prec then Some (e, p)
        else do {
          p \<leftarrow> parser_advance p;
          (e, p) \<leftarrow> (case rule_infix r of None \<Rightarrow> Some (e, p) | Some f \<Rightarrow> infix_expr n rec f e p);
          infix_loop k n rec prec e p } })"

definition parse_precedence_inner :: "nat \<Rightarrow> parser \<Rightarrow> nat \<Rightarrow> slp_parser \<Rightarrow> (ast \<times> slp_parser) option" where
  "parse_precedence_inner n rec prec p =
     do { p \<leftarrow> parser_advance p;
          r \<leftarrow> get_rule (tok_type (ps_previous p));
          (case rule_prefix r of
             None \<Rightarrow> Some (No_node, parse_error ''Expect expression.'' p)
           | Some f \<Rightarrow> do { (e, p) \<leftarrow> prefix_expr n rec f p;
                             (e, p) \<leftarrow> juxtapose n e p;
                             infix_loop n n rec prec e p }) }"

text \<open>Both guarded functions count the depth of the nesting.\<close>

definition nested :: "string \<Rightarrow> (slp_parser \<Rightarrow> (ast \<times> slp_parser) option) \<Rightarrow> slp_parser \<Rightarrow> (ast \<times> slp_parser) option" where
  "nested message f p =
     (if SLP_PARSER_MAX_DEPTH \<le> ps_depth p then Some (No_node, parse_error message p)
      else do { (e, p) \<leftarrow> f (p\<lparr>ps_depth := ps_depth p + 1\<rparr>); Some (e, p\<lparr>ps_depth := ps_depth p - 1\<rparr>) })"

definition parse_precedence :: "nat \<Rightarrow> parser \<Rightarrow> nat \<Rightarrow> slp_parser \<Rightarrow> (ast \<times> slp_parser) option" where
  "parse_precedence n rec prec p = nested ''Expression nested too deeply.'' (parse_precedence_inner n rec prec) p"

end
