(* ===== verification/Statements.thy ===== *)
theory Statements
  imports Parser
begin

text \<open>
  The statements and declarations of \<^verbatim>\<open>src/slp_parser.c\<close>, and the recursion: \<open>parse\<close> is the function that
  \<open>rec\<close> stands for, with a fuel that \<open>slp_parser_parse\<close> takes as an argument.
\<close>

subsection \<open>Statements\<close>

definition expression_statement :: "parser \<Rightarrow> slp_parser \<Rightarrow> (ast \<times> slp_parser) option" where
  "expression_statement rec p =
     do { (e, p) \<leftarrow> expression rec p;
          (semicolon, p) \<leftarrow> match_token (Sym TOKEN_SEMICOLON) p;
          Some (e, if semicolon \<or> at TOKEN_RIGHT_BRACE p \<or> at_eof p \<or>
                     tok_line (ps_previous p) < tok_line (ps_current p)
                   then p else parse_error ''Missing terminator'' p) }"

text \<open>\<open>(condition)\<close> behind a keyword.\<close>

definition condition :: "parser \<Rightarrow> string \<Rightarrow> string \<Rightarrow> slp_parser \<Rightarrow> (ast \<times> slp_parser) option" where
  "condition rec open_message close_message p =
     do { p \<leftarrow> consume (Sym TOKEN_LEFT_PAREN) open_message p;
          (e, p) \<leftarrow> expression rec p;
          p \<leftarrow> consume (Sym TOKEN_RIGHT_PAREN) close_message p;
          Some (e, p) }"

definition if_statement :: "parser \<Rightarrow> slp_parser \<Rightarrow> (ast \<times> slp_parser) option" where
  "if_statement rec p =
     do { let line = new_line p;
          (c, p) \<leftarrow> condition rec ''Expect '(' after 'if'.'' ''Expect ')' after condition.'' p;
          (s, p) \<leftarrow> rec Stmt p;
          (otherwise, p) \<leftarrow> match_token (Kw TOKEN_ELSE) p;
          (t, p) \<leftarrow> (if otherwise then rec Stmt p else Some (No_node, p));
          Some (If line c s t, p) }"

definition while_statement :: "nat \<Rightarrow> parser \<Rightarrow> slp_parser \<Rightarrow> (ast \<times> slp_parser) option" where
  "while_statement n rec p =
     do { let line = new_line p;
          (assigns, p) \<leftarrow> match_token (Tok TOKEN_SCALAR) p;
          let name = previous_name p;
          (c, p) \<leftarrow> condition rec ''Expect '(' after 'while'.'' ''Expect ')' after condition.'' p;
          (body, p) \<leftarrow> block n rec p;
          Some (if assigns then Assign_loop line name c body else While line c body, p) }"

text \<open>The initializers or increments of a \<open>for\<close>, up to the token \<open>stop\<close>.\<close>

fun for_items :: "nat \<Rightarrow> parser \<Rightarrow> sym_token \<Rightarrow> slp_parser \<Rightarrow> (ast list \<times> slp_parser) option" where
  "for_items 0 rec stop p = None"
| "for_items (Suc n) rec stop p =
     (if at stop p \<or> at_eof p then Some ([], p)
      else do { (e, p) \<leftarrow> expression rec p;
                (comma, p) \<leftarrow> match_token (Sym TOKEN_COMMA) p;
                if \<not> comma then Some ([e], p)
                else do { (es, p) \<leftarrow> for_items n rec stop p; Some (e # es, p) } })"

definition for_statement :: "nat \<Rightarrow> parser \<Rightarrow> slp_parser \<Rightarrow> (ast \<times> slp_parser) option" where
  "for_statement n rec p =
     do { let line = new_line p;
          p \<leftarrow> consume (Sym TOKEN_LEFT_PAREN) ''Expect '(' after 'for'.'' p;
          (start, p) \<leftarrow> for_items n rec TOKEN_SEMICOLON p;
          p \<leftarrow> consume (Sym TOKEN_SEMICOLON) ''Expect ';' after for loop initializer.'' p;
          (c, p) \<leftarrow> (if at TOKEN_SEMICOLON p then Some (No_node, p) else expression rec p);
          p \<leftarrow> consume (Sym TOKEN_SEMICOLON) ''Expect ';' after for loop condition.'' p;
          (step, p) \<leftarrow> for_items n rec TOKEN_RIGHT_PAREN p;
          p \<leftarrow> consume (Sym TOKEN_RIGHT_PAREN) ''Expect ')' after for loop increment.'' p;
          (body, p) \<leftarrow> rec Stmt p;
          Some (For line start c step body, p) }"

definition at_variable :: "slp_parser \<Rightarrow> bool" where
  "at_variable p \<longleftrightarrow> check_token (Tok TOKEN_SCALAR) p \<or> at TOKEN_PERCENT p \<or> at TOKEN_AT p"

text \<open>
  The variables of a \<open>foreach\<close>. When the value behind \<open>=>\<close> is not a variable, the node of the key serves as
  both, and the function frees it twice at its end: undefined.
\<close>

definition foreach_variables :: "slp_parser \<Rightarrow> (string option \<times> string option \<times> slp_parser) option" where
  "foreach_variables p =
     (if \<not> at_variable p then Some (None, None, p)
      else do { p \<leftarrow> parser_advance p;
                let name = previous_name p;
                (arrow, p) \<leftarrow> match_token (Tok TOKEN_ARROW) p;
                if \<not> arrow then Some (None, Some name, p)
                else if at_variable p
                then do { p \<leftarrow> parser_advance p; Some (Some name, Some (previous_name p), p) }
                else None })"

definition foreach_statement :: "nat \<Rightarrow> parser \<Rightarrow> slp_parser \<Rightarrow> (ast \<times> slp_parser) option" where
  "foreach_statement n rec p =
     do { let line = new_line p;
          (key, val, p) \<leftarrow> foreach_variables p;
          (source, p) \<leftarrow> condition rec ''Expect '(' after foreach variable.'' ''Expect ')' after collection.'' p;
          (body, p) \<leftarrow> block n rec p;
          Some (Foreach line key (case val of Some s \<Rightarrow> s | None \<Rightarrow> ''stub_var'') source body, p) }"

definition try_statement :: "nat \<Rightarrow> parser \<Rightarrow> slp_parser \<Rightarrow> (ast \<times> slp_parser) option" where
  "try_statement n rec p =
     do { let line = new_line p;
          (body, p) \<leftarrow> block n rec p;
          (caught, p) \<leftarrow> match_token (Kw TOKEN_CATCH) p;
          if \<not> caught then Some (Try_catch line body None No_node, p)
          else do { p \<leftarrow> parser_advance p;
                    let name = previous_name p;
                    (handler, p) \<leftarrow> block n rec p;
                    Some (Try_catch line body (Some name) handler, p) } }"

text \<open>A statement begins with a semicolon, with a keyword or a brace, or is an expression.\<close>

definition keyword_statement :: "nat \<Rightarrow> parser \<Rightarrow> slp_token_type \<Rightarrow>
    (slp_parser \<Rightarrow> (ast \<times> slp_parser) option) option" where
  "keyword_statement n rec ty =
     (if ty = Sym TOKEN_SEMICOLON then Some (\<lambda>p. Some (Nop (new_line p), p))
      else if ty = Kw TOKEN_IF then Some (if_statement rec)
      else if ty = Kw TOKEN_WHILE then Some (while_statement n rec)
      else if ty = Kw TOKEN_FOR then Some (for_statement n rec)
      else if ty = Kw TOKEN_FOREACH then Some (foreach_statement n rec)
      else if ty = Kw TOKEN_TRY then Some (try_statement n rec)
      else None)"

definition statement_inner :: "nat \<Rightarrow> parser \<Rightarrow> slp_parser \<Rightarrow> (ast \<times> slp_parser) option" where
  "statement_inner n rec p =
     (case keyword_statement n rec (tok_type (ps_current p)) of
        Some f \<Rightarrow> do { p \<leftarrow> parser_advance p; f p }
      | None \<Rightarrow> if at TOKEN_LEFT_BRACE p then block n rec p else expression_statement rec p)"

definition statement :: "nat \<Rightarrow> parser \<Rightarrow> slp_parser \<Rightarrow> (ast \<times> slp_parser) option" where
  "statement n rec p = nested ''Statements nested too deeply.'' (statement_inner n rec) p"

subsection \<open>Declarations\<close>

text \<open>The target of an import is collected in a buffer of 512 bytes; what does not fit is left out.\<close>

definition append_part :: "string \<Rightarrow> string \<Rightarrow> string" where
  "append_part target part = (if length target + length part < 511 then target @ part else target)"

fun import_parts :: "nat \<Rightarrow> string \<Rightarrow> slp_parser \<Rightarrow> (string \<times> slp_parser) option" where
  "import_parts 0 target p = None"
| "import_parts (Suc n) target p =
     do { (dot, p) \<leftarrow> match_token (Sym TOKEN_DOT) p;
          if \<not> dot then Some (target, p)
          else do { let target = (if length target + 1 < 511 then target @ ''.'' else target);
                    (part, p) \<leftarrow> match_any [Tok TOKEN_ID, Tok TOKEN_STRING, Sym TOKEN_STAR] p;
                    import_parts n (if part then append_part target (previous_text p) else target) p } }"

definition import_path :: "slp_parser \<Rightarrow> (string option \<times> slp_parser) option" where
  "import_path p =
     do { (from_path, p) \<leftarrow> match_token (Kw TOKEN_FROM) p;
          if \<not> from_path then Some (None, p)
          else do { p \<leftarrow> consume (Sym TOKEN_COLON) ''Expect ':' after FROM.'' p;
                    (found, p) \<leftarrow> match_any [Tok TOKEN_STRING, Tok TOKEN_IMPORT_PATH, Tok TOKEN_LITERAL] p;
                    Some (if found then Some (previous_text p) else None, p) } }"

definition import_statement :: "nat \<Rightarrow> slp_parser \<Rightarrow> (ast \<times> slp_parser) option" where
  "import_statement n p =
     do { let line = new_line p;
          (found, p) \<leftarrow> match_any [Tok TOKEN_ID, Tok TOKEN_STRING] p;
          (target, p) \<leftarrow> (if found then import_parts n (append_part [] (previous_text p)) p else Some ([], p));
          (path, p) \<leftarrow> import_path p;
          (_, p) \<leftarrow> match_token (Sym TOKEN_SEMICOLON) p;
          Some (Import line (if target = [] then None else Some target) path, p) }"

text \<open>
  \<open>inline\<close> begins a declaration unless a parenthesis follows; a word does when a word, a string or a block
  follows.
\<close>

definition starts_inline :: "slp_parser \<Rightarrow> (bool \<times> slp_parser) option" where
  "starts_inline p =
     (if \<not> check_token (Kw TOKEN_INLINE) p then Some (False, p)
      else do { (t, p) \<leftarrow> peek_token True True p; Some (tok_type t \<noteq> Sym TOKEN_LEFT_PAREN, p) })"

definition starts_bridge :: "slp_parser \<Rightarrow> (bool \<times> slp_parser) option" where
  "starts_bridge p =
     (if \<not> check_token (Tok TOKEN_ID) p then Some (False, p)
      else do { (t, p) \<leftarrow> peek_token True False p;
                Some (tok_type t \<in> {Tok TOKEN_ID, Tok TOKEN_STRING, Tok TOKEN_LITERAL, Sym TOKEN_LEFT_BRACE}, p) })"

definition parse_declaration :: "nat \<Rightarrow> parser \<Rightarrow> slp_parser \<Rightarrow> (ast \<times> slp_parser) option" where
  "parse_declaration n rec p =
     (if check_token (Kw TOKEN_SUB) p then do { p \<leftarrow> parser_advance p; bridge n rec p }
      else do {
        (inline, p) \<leftarrow> starts_inline p;
        if inline then do { p \<leftarrow> parser_advance p; bridge n rec p }
        else if check_token (Kw TOKEN_IMPORT) p then do { p \<leftarrow> parser_advance p; import_statement n p }
        else do {
          (keyword, p) \<leftarrow> starts_bridge p;
          if keyword then do { p \<leftarrow> parser_advance p; bridge n rec p } else rec Stmt p } })"

subsection \<open>The parser\<close>

fun parse :: "nat \<Rightarrow> parser" where
  "parse 0 g p = None"
| "parse (Suc n) (Expr prec) p = parse_precedence n (parse n) prec p"
| "parse (Suc n) Stmt p = statement n (parse n) p"
| "parse (Suc n) Decl p = parse_declaration n (parse n) p"

fun script_statements :: "nat \<Rightarrow> parser \<Rightarrow> slp_parser \<Rightarrow> (ast list \<times> slp_parser) option" where
  "script_statements 0 rec p = None"
| "script_statements (Suc n) rec p =
     do { (eof, p) \<leftarrow> match_token (Tok TOKEN_EOF) p;
          if eof \<or> ps_had_error p then Some ([], p)
          else do { (s, p) \<leftarrow> rec Decl p;
                    (ss, p) \<leftarrow> script_statements n rec p;
                    Some (if s = No_node then ss else s # ss, p) } }"

definition slp_parser_parse :: "nat \<Rightarrow> slp_parser \<Rightarrow> (ast \<times> slp_parser) option" where
  "slp_parser_parse fuel p =
     do { p \<leftarrow> parser_advance p;
          (eof, p) \<leftarrow> match_token (Tok TOKEN_EOF) p;
          if eof then Some (No_node, p)
          else do { let line = new_line p;
                    (ss, p) \<leftarrow> script_statements fuel (parse fuel) p;
                    Some (Script line ss, p) } }"

text \<open>The tree of a source text, or the line and the message of the first error.\<close>

definition parse_source :: "nat \<Rightarrow> string \<Rightarrow> (ast \<times> slp_parser) option" where
  "parse_source fuel source = slp_parser_parse fuel (slp_parser_init source)"

end
