(* ===== verification/Scan_Steps.thy ===== *)
theory Scan_Steps
  imports Lexer_Safety
begin

text \<open>
  What the scanner does to its state whenever it returns, also on a source it may overrun: it only moves
  forward, a token other than the end has at least one character, and the end of file is repeated.
\<close>

definition scan_moves :: "(slp_lexer \<Rightarrow> scan_result) \<Rightarrow> bool" where
  "scan_moves f \<longleftrightarrow>
     (\<forall>lx t lx'. f lx = Some (t, lx') \<longrightarrow> lx_extends lx lx' \<and> token_fits t lx' \<and> tok_type t \<noteq> Tok TOKEN_EOF)"

lemma scan_movesI:
  "(\<And>lx t lx'. f lx = Some (t, lx') \<Longrightarrow> lx_extends lx lx' \<and> token_fits t lx' \<and> tok_type t \<noteq> Tok TOKEN_EOF) \<Longrightarrow> scan_moves f"
  by (simp add: scan_moves_def)

lemma scan_movesD:
  "scan_moves f \<Longrightarrow> f lx = Some (t, lx') \<Longrightarrow> lx_extends lx0 lx \<Longrightarrow>
   lx_extends lx0 lx' \<and> token_fits t lx' \<and> tok_type t \<noteq> Tok TOKEN_EOF"
  unfolding scan_moves_def by (blast intro: lx_extends_trans)

lemma moves_emit [slp_inv]: "ty \<noteq> Tok TOKEN_EOF \<Longrightarrow> scan_moves (emit ty)"
  by (auto simp: scan_moves_def emit_def make_token_def token_fits_def)

lemma moves_error [slp_inv]: "scan_moves (\<lambda>lx. Some (error_token lx m, lx))"
  by (auto simp: scan_moves_def error_token_def token_fits_def)

lemma extends_Suc: "lx_extends lx (lx\<lparr>lx_current := Suc (lx_current lx)\<rparr>)"
  by (simp add: lx_extends_def)

lemma skip_while_extends: "advance_while P lx = Some lx' \<Longrightarrow> lx_extends lx lx'"
  by (auto simp: advance_while_def bind_Some_iff lx_extends_def dest: skip_while_ge)

lemma moves_on_match [slp_inv]: "scan_moves k \<Longrightarrow> scan_moves other \<Longrightarrow> scan_moves (on_match c k other)"
  by (rule scan_movesI) (auto simp: on_match_def lexer_match_def bind_Some_iff split: if_split_asm
      dest: scan_movesD [OF _ _ lx_extends_refl] scan_movesD [OF _ _ extends_Suc])

lemma moves_on_peek [slp_inv]: "scan_moves k \<Longrightarrow> scan_moves other \<Longrightarrow> scan_moves (on_peek P k other)"
  by (rule scan_movesI) (auto simp: on_peek_def bind_Some_iff split: if_split_asm dest: scan_movesD [OF _ _ lx_extends_refl])

lemma moves_then_advance [slp_inv]: "scan_moves k \<Longrightarrow> scan_moves (then_advance k)"
  by (rule scan_movesI) (auto simp: then_advance_def lexer_advance_def bind_Some_iff dest: scan_movesD [OF _ _ extends_Suc])

lemma moves_then_while [slp_inv]: "scan_moves k \<Longrightarrow> scan_moves (then_while P k)"
  by (rule scan_movesI) (auto simp: then_while_def bind_Some_iff dest: scan_movesD [OF _ _ skip_while_extends])

lemma string_body_extends: "scan_string_body q lx = Some lx' \<Longrightarrow> lx_extends lx lx'"
proof (induction q lx rule: scan_string_body.induct)
  case (1 q lx)
  show ?case
    using 1(2) by (subst (asm) scan_string_body.simps)
      (auto simp: Let_def lx_extends_def split: option.split_asm if_split_asm dest!: 1(1))
qed

lemma moves_string [slp_inv]: "ty \<noteq> Tok TOKEN_EOF \<Longrightarrow> scan_moves (scan_string q ty)"
  by (rule scan_movesI)
    (auto simp: scan_string_def is_at_end_def bind_Some_iff error_token_def token_fits_def split: if_split_asm
      dest!: string_body_extends dest: scan_movesD [OF moves_then_advance [OF moves_emit]])

lemma class_name_extends: "class_name_loop lx = Some lx' \<Longrightarrow> lx_extends lx lx'"
proof (induction lx rule: class_name_loop.induct)
  case (1 lx)
  show ?case
    using 1(2) by (subst (asm) class_name_loop.simps)
      (auto simp: lx_extends_def split: option.split_asm if_split_asm bool.split_asm dest!: 1(1))
qed

lemma moves_class_name [slp_inv]: "scan_moves scan_class_name"
  by (rule scan_movesI)
    (auto simp: scan_class_name_def emit_def make_token_def token_fits_def bind_Some_iff dest!: class_name_extends)

lemma check_keyword_cases: "check_keyword lx i n w ty = ty \<or> check_keyword lx i n w ty = Tok TOKEN_ID"
  by (simp add: check_keyword_def)

lemma check_keyword_not_eof [simp]: "ty \<noteq> Tok TOKEN_EOF \<Longrightarrow> check_keyword lx i n w ty \<noteq> Tok TOKEN_EOF"
  using check_keyword_cases [of lx i n w ty] by auto

lemmas keyword_defs = keyword_a_def keyword_c_def keyword_e_def keyword_f_def keyword_h_def keyword_i_def keyword_r_def
  keyword_t_def

lemma keyword_x_not_eof: "keyword_x lx = Some ty \<Longrightarrow> ty \<noteq> Tok TOKEN_EOF"
  by (auto simp: keyword_x_def bind_Some_iff split: if_split_asm option.split_asm)

lemma identifier_not_eof: "identifier_type lx = Some ty \<Longrightarrow> ty \<noteq> Tok TOKEN_EOF"
  unfolding identifier_type_def
  by (auto simp: keyword_defs bind_Some_iff dest: keyword_x_not_eof split: if_split_asm option.split_asm)

lemma moves_identifier [slp_inv]: "scan_moves scan_identifier"
  by (rule scan_movesI)
    (auto simp: scan_identifier_def bind_Some_iff dest!: skip_while_extends identifier_not_eof dest: scan_movesD [OF moves_emit])

lemma moves_number_parts [slp_inv]: "scan_moves scan_number_suffix" "scan_moves scan_hex" "scan_moves scan_exponent"
  unfolding scan_hex_def scan_number_suffix_def scan_exponent_def by (intro slp_inv; simp)+

lemma fraction_extends: "scan_fraction lx = Some lx' \<Longrightarrow> lx_extends lx lx'"
  by (auto simp: scan_fraction_def lexer_advance_def bind_Some_iff split: if_split_asm
      dest!: skip_while_extends intro: lx_extends_trans [OF extends_Suc])

lemma moves_decimal [slp_inv]: "scan_moves scan_decimal"
proof (rule scan_movesI)
  fix lx t lx' assume "scan_decimal lx = Some (t, lx')"
  then obtain lx1 lx2 e where s: "advance_while is_digit lx = Some lx1" "scan_fraction lx1 = Some lx2"
      "(if e then scan_exponent lx2 else if has_dot lx2 then emit (Tok TOKEN_DOUBLE) lx2 else scan_number_suffix lx2) = Some (t, lx')"
    by (auto simp: scan_decimal_def bind_Some_iff)
  have "lx_extends lx lx2" using s(1,2) by (blast intro: lx_extends_trans skip_while_extends fraction_extends)
  then show "lx_extends lx lx' \<and> token_fits t lx' \<and> tok_type t \<noteq> Tok TOKEN_EOF"
    using s(3) scan_movesD [OF moves_number_parts(3)] scan_movesD [OF moves_number_parts(1)]
      scan_movesD [OF moves_emit [of "Tok TOKEN_DOUBLE"]] by (simp split: if_split_asm)
qed

lemma moves_number [slp_inv]: "scan_moves scan_number"
proof (rule scan_movesI)
  fix lx t lx' assume "scan_number lx = Some (t, lx')"
  moreover have "scan_moves (on_peek (\<lambda>c. c = CHR ''x'' \<or> c = CHR ''X'') scan_hex scan_decimal)" by (intro slp_inv)
  ultimately show "lx_extends lx lx' \<and> token_fits t lx' \<and> tok_type t \<noteq> Tok TOKEN_EOF"
    using scan_movesD [OF _ _ lx_extends_refl] moves_decimal by (auto simp: scan_number_def split: if_split_asm)
qed

lemma moves_scalar_name [slp_inv]: "scan_moves scan_scalar_name"
  unfolding scan_scalar_name_def by (intro slp_inv; simp)

lemma moves_by_name [slp_inv]: "scan_moves scan_by_name"
  unfolding scan_by_name_def by (intro slp_inv; simp)

lemma moves_symbol: "scan_moves (scan_symbol c)"
  unfolding scan_symbol_def scan_operator_def operator_defs
  by (simp split: if_split) (intro conjI impI; (intro slp_inv; simp)?)

lemma whitespace_extends: "skip_whitespace lx = Some lx' \<Longrightarrow> lx_extends lx lx'"
proof (induction lx rule: skip_whitespace.induct)
  case (1 lx)
  obtain c where c: "peek lx = Some c" using 1(4) by (subst (asm) skip_whitespace.simps) (auto split: option.split_asm)
  consider "c = CHR '' '' \<or> c = CHR 0x0D \<or> c = CHR 0x09" | "c = NL" | "c = CHR ''#''"
    | "c \<notin> {CHR '' '', CHR 0x0D, CHR 0x09, NL, CHR ''#''}" by auto
  then show ?case
  proof cases
    case 1
    then have "skip_whitespace (lx\<lparr>lx_current := Suc (lx_current lx)\<rparr>) = Some lx'"
      using "1.prems" c by (subst (asm) skip_whitespace.simps) auto
    from "1.IH"(1) [OF c 1 this] show ?thesis by (simp add: lx_extends_def)
  next
    case 2
    then have "skip_whitespace (lx\<lparr>lx_line := Suc (lx_line lx), lx_current := Suc (lx_current lx)\<rparr>) = Some lx'"
      using "1.prems" c by (subst (asm) skip_whitespace.simps) auto
    from "1.IH"(2) [OF c _ _ this] 2 show ?thesis by (simp add: lx_extends_def)
  next
    case 3
    then obtain lx1 where w: "advance_while (\<lambda>d. d \<noteq> NL \<and> d \<noteq> NUL) lx = Some lx1" "skip_whitespace lx1 = Some lx'"
      using "1.prems" c by (subst (asm) skip_whitespace.simps) (auto split: option.split_asm)
    from "1.IH"(3) [OF c _ _ 3 w] 3 skip_while_extends [OF w(1)] show ?thesis by (auto intro: lx_extends_trans)
  next
    case 4
    then show ?thesis using "1.prems" c by (subst (asm) skip_whitespace.simps) auto
  qed
qed

lemma whitespace_stops: "skip_whitespace lx = Some lx' \<Longrightarrow> peek lx = Some NUL \<Longrightarrow> lx' = lx"
  by (subst (asm) skip_whitespace.simps) simp

text \<open>The state behind a token, and the token: the end of file, or an error, or a piece of the source.\<close>

lemma scan_token_moves:
  assumes "slp_lexer_scan_token lx = Some (t, lx')"
  shows "lx_source lx' = lx_source lx \<and> lx_current lx \<le> lx_start lx' \<and> lx_start lx' \<le> lx_current lx' \<and>
    (if tok_type t = Tok TOKEN_EOF then cread (lx_source lx) (lx_current lx') = Some NUL
     else lx_start lx' < length (lx_source lx) \<and> lx_start lx' < lx_current lx' \<and>
       (tok_type t \<noteq> Tok TOKEN_ERROR \<longrightarrow> tok_start t = In_source (lx_start lx') \<and> tok_length t = lx_current lx' - lx_start lx'))"
proof -
  obtain lx1 where 1: "skip_whitespace lx = Some lx1"
      "scan_first (lx1\<lparr>lx_start := lx_current lx1, lx_start_line := lx_line lx1\<rparr>) = Some (t, lx')"
    using assms by (auto simp: slp_lexer_scan_token_def bind_Some_iff)
  let ?lx = "lx1\<lparr>lx_start := lx_current lx1, lx_start_line := lx_line lx1\<rparr>"
  have e: "lx_extends lx lx1" using whitespace_extends [OF 1(1)] .
  obtain c where c: "cread (lx_source lx1) (lx_current lx1) = Some c"
    using 1(2) by (auto simp: scan_first_def is_at_end_def peek_def bind_Some_iff)
  show ?thesis
  proof (cases "c = NUL")
    case True
    then show ?thesis using 1(2) c e
      by (auto simp: scan_first_def is_at_end_def peek_def emit_def make_token_def lx_extends_def)
  next
    case False
    have "\<exists>f. scan_moves f \<and> f (?lx\<lparr>lx_current := Suc (lx_current lx1)\<rparr>) = Some (t, lx')"
      using 1(2) c False
      by (auto simp: scan_first_def is_at_end_def peek_def lexer_advance_def split: if_split_asm
          intro: moves_identifier moves_number moves_symbol)
    then obtain f where f: "scan_moves f" "f (?lx\<lparr>lx_current := Suc (lx_current lx1)\<rparr>) = Some (t, lx')" by blast
    from scan_movesD [OF f lx_extends_refl] e cread_Some_lt [OF c False] show ?thesis
      by (auto simp: lx_extends_def token_fits_def)
  qed
qed

lemma scan_at_end:
  assumes "slp_lexer_scan_token lx = Some (t, lx')" "cread (lx_source lx) (lx_current lx) = Some NUL"
  shows "tok_type t = Tok TOKEN_EOF \<and> lx_current lx' = lx_current lx"
proof -
  obtain lx1 where "skip_whitespace lx = Some lx1" using assms(1) by (auto simp: slp_lexer_scan_token_def bind_Some_iff)
  then show ?thesis using assms whitespace_stops [of lx lx1]
    by (auto simp: slp_lexer_scan_token_def scan_first_def is_at_end_def peek_def emit_def make_token_def)
qed

end
