(* ===== verification/Parser_Steps.thy ===== *)
theory Parser_Steps
  imports Statements Scan_Steps
begin

text \<open>
  What every function of the parser does to its state: it moves forward in the source, it leaves the depth as
  it was, and it keeps the first error. The functions that recurse do so on less input, which bounds the fuel.
\<close>

named_theorems step_rules \<open>the steps of the parser's functions\<close>

lemma bind_resultE: "Option.bind x f = Some y \<Longrightarrow> (\<And>z. x = Some z \<Longrightarrow> f z = Some y \<Longrightarrow> thesis) \<Longrightarrow> thesis"
  by (cases x) auto

subsection \<open>States between tokens\<close>

definition source_length :: "slp_parser \<Rightarrow> nat" where
  "source_length p = length (lx_source (ps_lexer p))"

text \<open>The current token is a piece of the source before the scanner, or the end of file.\<close>

definition good :: "slp_parser \<Rightarrow> bool" where
  "good p \<longleftrightarrow> ps_had_error p = ps_panic_mode p \<and>
     (if tok_type (ps_current p) = Tok TOKEN_EOF
      then cread (lx_source (ps_lexer p)) (lx_current (ps_lexer p)) = Some NUL
      else \<exists>i. tok_start (ps_current p) = In_source i \<and> i < source_length p \<and> 0 < tok_length (ps_current p) \<and>
             i + tok_length (ps_current p) \<le> lx_current (ps_lexer p))"

text \<open>What is left of the source from the current token on.\<close>

definition left :: "slp_parser \<Rightarrow> nat" where
  "left p =
     (if tok_type (ps_current p) = Tok TOKEN_EOF then 0
      else source_length p - (case tok_start (ps_current p) of In_source i \<Rightarrow> i | Message _ \<Rightarrow> 0))"

definition error_kept :: "slp_parser \<Rightarrow> slp_parser \<Rightarrow> bool" where
  "error_kept p q \<longleftrightarrow>
     (ps_had_error p \<longrightarrow>
        ps_had_error q \<and> ps_error_line q = ps_error_line p \<and> ps_error_message q = ps_error_message p)"

definition step :: "slp_parser \<Rightarrow> slp_parser \<Rightarrow> bool" where
  "step p q \<longleftrightarrow>
     (good p \<longrightarrow> good q \<and> lx_source (ps_lexer q) = lx_source (ps_lexer p) \<and> ps_depth q = ps_depth p \<and> left q \<le> left p \<and>
        error_kept p q)"

lemma error_kept_refl [simp]: "error_kept p p"
  by (simp add: error_kept_def)

lemma error_kept_trans: "error_kept p q \<Longrightarrow> error_kept q r \<Longrightarrow> error_kept p r"
  by (auto simp: error_kept_def)

lemma parser_step_refl [simp]: "step p p"
  by (simp add: step_def)

lemma parser_step_trans: "step p q \<Longrightarrow> step q r \<Longrightarrow> step p r"
  by (auto simp: step_def elim: error_kept_trans)

lemma left_eof: "good p \<Longrightarrow> left p = 0 \<longleftrightarrow> at_eof p"
  by (auto simp: good_def left_def check_token_def source_length_def)

lemma good_depth [simp]:
  "good (p\<lparr>ps_depth := d\<rparr>) = good p" "left (p\<lparr>ps_depth := d\<rparr>) = left p" "error_kept (p\<lparr>ps_depth := d\<rparr>) q = error_kept p q"
  "error_kept p (q\<lparr>ps_depth := d\<rparr>) = error_kept p q"
  by (simp_all add: good_def left_def error_kept_def source_length_def)

lemma good_buffer [simp]:
  "good (p\<lparr>ps_error_buffer := b\<rparr>) = good p" "left (p\<lparr>ps_error_buffer := b\<rparr>) = left p"
  "error_kept (p\<lparr>ps_error_buffer := b\<rparr>) q = error_kept p q" "error_kept p (q\<lparr>ps_error_buffer := b\<rparr>) = error_kept p q"
  by (simp_all add: good_def left_def error_kept_def source_length_def)

subsection \<open>Errors\<close>

lemma error_at_fields [simp]:
  "ps_lexer (error_at t m p) = ps_lexer p" "ps_current (error_at t m p) = ps_current p"
  "ps_previous (error_at t m p) = ps_previous p" "ps_depth (error_at t m p) = ps_depth p"
  "ps_error_buffer (error_at t m p) = ps_error_buffer p"
  by (simp_all add: error_at_def)

lemma error_at_error: "ps_had_error p = ps_panic_mode p \<Longrightarrow> ps_had_error (error_at t m p)"
  by (simp add: error_at_def)

lemma error_at_good [simp]: "good p \<Longrightarrow> good (error_at t m p)"
  by (auto simp: good_def source_length_def error_at_def)

lemma error_at_left [simp]: "left (error_at t m p) = left p"
  by (simp add: left_def source_length_def)

lemma error_at_kept [simp]: "ps_had_error p = ps_panic_mode p \<Longrightarrow> error_kept p (error_at t m p)"
  by (simp add: error_kept_def error_at_def)

lemma good_panic: "good p \<Longrightarrow> ps_had_error p = ps_panic_mode p"
  by (simp add: good_def)

lemma error_at_step [simp]: "step p (error_at t m p)"
  by (simp add: step_def good_panic)

lemma parse_error_step [simp]: "step p (parse_error m p)" "step p (error_at_current m p)"
  by (simp_all add: parse_error_def error_at_current_def)

lemma parse_error_error [simp]: "good p \<Longrightarrow> ps_had_error (parse_error m p)" "good p \<Longrightarrow> ps_had_error (error_at t w p)"
    "good p \<Longrightarrow> ps_had_error (error_at_current m p)"
  by (simp_all add: parse_error_def error_at_current_def error_at_error [OF good_panic])

lemma missing_comma_step [simp]: "step p (missing_comma a p)"
proof (cases "argument_name a")
  case None
  then show ?thesis by (simp only: missing_comma_def option.case parse_error_step)
next
  case (Some name)
  have "step p (p\<lparr>ps_error_buffer := b\<rparr>)" for b by (simp add: step_def)
  then show ?thesis unfolding missing_comma_def Some option.case by (rule parser_step_trans) (rule error_at_step)
qed

subsection \<open>Advancing\<close>

text \<open>What the scanner leaves behind.\<close>

definition lands :: "slp_parser \<Rightarrow> slp_parser \<Rightarrow> bool" where
  "lands p q \<longleftrightarrow>
     lx_source (ps_lexer q) = lx_source (ps_lexer p) \<and> ps_previous q = ps_previous p \<and> ps_depth q = ps_depth p \<and>
     error_kept p q \<and> good q \<and> left q \<le> source_length p - lx_current (ps_lexer p) \<and>
     (cread (lx_source (ps_lexer p)) (lx_current (ps_lexer p)) = Some NUL \<longrightarrow> tok_type (ps_current q) = Tok TOKEN_EOF)"

lemma next_token_result:
  assumes n: "next_token p = Some q" and "ps_had_error p = ps_panic_mode p"
  shows "lands p q"
proof -
  have "ps_had_error p = ps_panic_mode p \<longrightarrow> lands p q"
  proof (rule next_token.raw_induct [where P = "\<lambda>p q. ps_had_error p = ps_panic_mode p \<longrightarrow> lands p q", OF _ n], rule impI)
    fix rec p q
    assume IH: "\<And>p q. rec p = Some q \<Longrightarrow> ps_had_error p = ps_panic_mode p \<longrightarrow> lands p q"
      and eq: "(case slp_lexer_scan_token (ps_lexer p) of
                  None \<Rightarrow> None
                | Some (t, lx) \<Rightarrow>
                    let p = p\<lparr>ps_current := t, ps_lexer := lx\<rparr>
                    in if tok_type t \<noteq> Tok TOKEN_ERROR then Some p
                       else rec (error_at_current (slp_lexer_copy_lexeme lx t) p)) = Some q"
      and panic: "ps_had_error p = ps_panic_mode p"
    obtain t lx where t: "slp_lexer_scan_token (ps_lexer p) = Some (t, lx)"
      using eq by (auto split: option.split_asm)
    note s = scan_token_moves [OF t] and e = scan_at_end [OF t]
    let ?p = "p\<lparr>ps_current := t, ps_lexer := lx\<rparr>"
    show "lands p q"
    proof (cases "tok_type t = Tok TOKEN_ERROR")
      case False
      then have q: "q = ?p" using eq t by simp
      have "good q" using s False panic by (auto simp: q good_def source_length_def split: if_split_asm)
      then show ?thesis using s e False
        by (auto simp: q lands_def left_def source_length_def error_kept_def split: if_split_asm)
    next
      case True
      let ?r = "error_at_current (slp_lexer_copy_lexeme lx t) ?p"
      have r: "rec ?r = Some q" using eq t True by simp
      have "ps_had_error ?r = ps_panic_mode ?r" using panic by (simp add: error_at_current_def error_at_def)
      with IH [OF r] have l: "lands ?r q" by simp
      have kept: "error_kept p ?r" using panic by (simp add: error_kept_def error_at_current_def error_at_def)
      have "\<not> cread (lx_source (ps_lexer p)) (lx_current (ps_lexer p)) = Some NUL" using e True by auto
      moreover have "source_length p - lx_current lx \<le> source_length p - lx_current (ps_lexer p)"
        using s True by (auto split: if_split_asm)
      ultimately show ?thesis using l s error_kept_trans [OF kept]
        by (auto simp: lands_def error_at_current_def source_length_def)
    qed
  qed
  then show ?thesis using assms(2) by simp
qed

lemma good_end: "good p \<Longrightarrow> at_eof p \<Longrightarrow> cread (lx_source (ps_lexer p)) (lx_current (ps_lexer p)) = Some NUL"
  by (simp add: good_def check_token_def)

lemma token_text_left: "good p \<Longrightarrow> \<not> at_eof p \<Longrightarrow> length (token_text p (ps_current p)) \<le> left p"
  by (auto simp: good_def check_token_def left_def token_text_def slp_lexer_copy_lexeme_def segment_def source_length_def)

lemma advance_result:
  assumes "parser_advance p = Some q" "good p"
  shows "step p q \<and> good q \<and> ps_previous q = ps_current p \<and> (left q < left p \<or> left p = 0 \<and> at_eof q)"
proof -
  note n = next_token_result [OF assms(1) [unfolded parser_advance_def]]
  have "ps_had_error p = ps_panic_mode p" using assms(2) by (rule good_panic)
  with n [unfolded lands_def] have r: "lx_source (ps_lexer q) = lx_source (ps_lexer p)" "ps_previous q = ps_current p" "ps_depth q = ps_depth p"
      "error_kept p q" "good q" "left q \<le> source_length p - lx_current (ps_lexer p)"
      "cread (lx_source (ps_lexer p)) (lx_current (ps_lexer p)) = Some NUL \<longrightarrow> at_eof q"
    by (simp_all add: source_length_def error_kept_def check_token_def)
  have l: "left q < left p \<or> left p = 0 \<and> at_eof q"
  proof (cases "at_eof p")
    case True
    then show ?thesis using r(7) good_end [OF assms(2)] left_eof [OF assms(2)] by simp
  next
    case False
    then show ?thesis using r(6) assms(2) by (auto simp: good_def left_def check_token_def)
  qed
  moreover have "left q \<le> left p" using l left_eof [OF r(5)] by auto
  ultimately show ?thesis using r by (simp add: step_def)
qed

lemma advance_step [step_rules]:
  "parser_advance p = Some q \<Longrightarrow>
   step p q \<and> (good p \<longrightarrow> ps_previous q = ps_current p \<and> (left q < left p \<or> left p = 0 \<and> at_eof q))"
  using advance_result by (cases "good p") (auto simp: step_def)

lemma consume_step [step_rules]:
  "consume ty m p = Some q \<Longrightarrow> step p q \<and> (good p \<longrightarrow> ty \<noteq> Tok TOKEN_EOF \<longrightarrow> left q < left p \<or> ps_had_error q)"
  using left_eof by (auto simp: consume_def check_token_def split: if_split_asm dest!: advance_step)

lemma match_step [step_rules]:
  "match_token ty p = Some (b, q) \<Longrightarrow>
   step p q \<and> (if b then good p \<longrightarrow> ty \<noteq> Tok TOKEN_EOF \<longrightarrow> left q < left p else q = p \<and> tok_type (ps_current p) \<noteq> ty)"
  using left_eof by (auto simp: match_token_def check_token_def split: if_split_asm elim!: bind_resultE dest!: advance_step)

lemma peek_step [step_rules]: "peek_token b c p = Some (t, q) \<Longrightarrow> step p q \<and> left q = left p"
  by (auto simp: peek_token_def step_def good_def left_def source_length_def error_kept_def
      elim!: bind_resultE dest!: scan_token_moves)

lemma match_any_step [step_rules]:
  "match_any tys p = Some (b, q) \<Longrightarrow> step p q"
proof (induction tys arbitrary: p)
  case (Cons ty tys)
  then obtain found p1 where m: "match_token ty p = Some (found, p1)"
      "(if found then Some (True, p1) else match_any tys p1) = Some (b, q)"
    by (auto elim!: bind_resultE)
  show ?case using match_step [OF m(1)] m(2) Cons.IH [of p1] by (auto split: if_split_asm)
qed simp

text \<open>The first token of a new parser.\<close>

lemma first_advance:
  assumes "parser_advance (slp_parser_init source) = Some p"
  shows "good p \<and> left p \<le> length source \<and> lx_source (ps_lexer p) = source \<and> ps_depth p = 0"
  using next_token_result [OF assms [unfolded parser_advance_def]]
  by (simp add: lands_def slp_parser_init_def slp_lexer_init_def Let_def source_length_def)

end
