(* ===== verification/Parser_Fuel.thy ===== *)
theory Parser_Fuel
  imports Parser_Steps
begin

text \<open>
  The fuel of the parser. When a run with some fuel has a result, a run whose fuel is three times what is
  left of the source has the same: between two levels of the recursion a token is consumed, except on the way
  from a declaration to a statement to an expression.
\<close>

named_theorems fuel_rules \<open>results of the parser's functions with other fuel\<close>

text \<open>A result that has been used stays known under this name.\<close>

definition gave :: "'a option \<Rightarrow> 'a \<Rightarrow> bool" where
  "gave m x \<longleftrightarrow> m = Some x"

lemma gave_Some [simp]: "gave (Some x) x"
  by (simp add: gave_def)

fun rank :: "goal \<Rightarrow> nat" where
  "rank (Expr _) = 1"
| "rank Stmt = 2"
| "rank Decl = 3"

definition progress :: "slp_parser \<Rightarrow> slp_parser \<Rightarrow> bool" where
  "progress p q \<longleftrightarrow> left q < left p \<or> ps_had_error q"

text \<open>The states a run comes to that began in \<open>p0\<close>.\<close>

definition along :: "slp_parser \<Rightarrow> slp_parser \<Rightarrow> bool" where
  "along p0 p \<longleftrightarrow> good p \<and> lx_source (ps_lexer p) = lx_source (ps_lexer p0) \<and> ps_depth p = ps_depth p0 \<and>
     left p \<le> left p0 \<and> error_kept p0 p"

lemma along_step: "along p0 p \<Longrightarrow> step p q \<Longrightarrow> along p0 q \<and> left q \<le> left p"
  by (auto simp: along_def step_def elim: error_kept_trans)

lemma along_good: "along p0 p \<Longrightarrow> good p"
  by (simp add: along_def)

lemma along_refl: "good p \<Longrightarrow> along p p"
  by (simp add: along_def)

lemma along_is_step: "along p q \<Longrightarrow> step p q"
  by (simp add: step_def along_def)

lemma along_error [simp]:
  "along p0 p \<Longrightarrow> along p0 (parse_error s p)" "along p0 p \<Longrightarrow> along p0 (error_at t w p)"
  "along p0 p \<Longrightarrow> along p0 (missing_comma a p)"
  using along_step [OF _ parse_error_step(1)] along_step [OF _ error_at_step] along_step [OF _ missing_comma_step] by blast+

lemma left_error [simp]: "left (parse_error s p) = left p" "left (missing_comma a p) = left p"
  by (simp_all add: parse_error_def missing_comma_def split: option.split)

locale less_fuel =
  fixes m :: nat and rec rec' :: parser
  assumes rec_ok: "rec g p = Some (e, q) \<Longrightarrow> g \<noteq> Expr 0 \<Longrightarrow> step p q \<and> (good p \<longrightarrow> progress p q) \<and>
    (good p \<longrightarrow> 3 * left p + rank g \<le> m \<longrightarrow> rec' g p = Some (e, q))"

locale with_room = less_fuel +
  fixes p0 :: slp_parser
  assumes room: "3 * left p0 + 3 \<le> m"
begin

text \<open>What a function does on a run from \<open>p0\<close>, with what it gives with the other fuel.\<close>

abbreviation goes :: "slp_parser \<Rightarrow> slp_parser \<Rightarrow> 'b option \<Rightarrow> 'b \<Rightarrow> bool" where
  "goes p q result x \<equiv> along p0 p \<longrightarrow> along p0 q \<and> left q \<le> left p \<and> gave result x"

lemma turns: "along p0 p \<Longrightarrow> left p < m"
  using room by (simp add: along_def)

lemma advance_fuel [fuel_rules]:
  "parser_advance p = Some q \<Longrightarrow> along p0 p \<longrightarrow> along p0 q \<and> left q \<le> left p \<and> gave (parser_advance p) q \<and>
     ps_previous q = ps_current p \<and> (\<not> at_eof p \<longrightarrow> left q < left p)"
  using advance_step along_step along_good left_eof unfolding gave_def by blast

lemma consume_fuel [fuel_rules]:
  "consume ty s p = Some q \<Longrightarrow> goes p q (consume ty s p) q"
  using consume_step along_step along_good unfolding gave_def by blast

lemma match_fuel [fuel_rules]:
  "match_token ty p = Some (b, q) \<Longrightarrow> along p0 p \<longrightarrow> along p0 q \<and> left q \<le> left p \<and> gave (match_token ty p) (b, q) \<and>
     (if b then ty \<noteq> Tok TOKEN_EOF \<longrightarrow> left q < left p else q = p)"
  using match_step [of ty p b q] along_step [of p0 p q] along_good [of p0 p] by (auto simp: gave_def)

lemma peek_fuel [fuel_rules]:
  "peek_token b c p = Some (t, q) \<Longrightarrow> goes p q (peek_token b c p) (t, q)"
  using peek_step along_step unfolding gave_def by blast

lemma match_any_fuel [fuel_rules]:
  "match_any tys p = Some (b, q) \<Longrightarrow> goes p q (match_any tys p) (b, q)"
  using match_any_step along_step unfolding gave_def by blast

lemma more_left: "along p0 p \<Longrightarrow> at_eof p \<or> 0 < left p"
  using left_eof [of p] along_good [of p0 p] by auto

lemma rank_le: "rank g \<le> 3"
  by (cases g) simp_all

lemma rec_fuel [fuel_rules]:
  assumes "rec g p = Some (e, q)"
  shows "g \<noteq> Expr 0 \<longrightarrow> along p0 p \<longrightarrow> along p0 q \<and> left q \<le> left p \<and> gave (rec' g p) (e, q) \<and> progress p q"
proof (intro impI)
  assume a: "along p0 p" and g: "g \<noteq> Expr 0"
  have "3 * left p + rank g \<le> m" using a room rank_le [of g] by (simp add: along_def)
  then show "along p0 q \<and> left q \<le> left p \<and> gave (rec' g p) (e, q) \<and> progress p q"
    using rec_ok [OF assms g] along_step [OF a, of q] along_good [OF a] by (simp add: gave_def)
qed

lemma expression_fuel [fuel_rules]:
  "expression rec p = Some (e, q) \<Longrightarrow>
   along p0 p \<longrightarrow> along p0 q \<and> left q \<le> left p \<and> gave (expression rec' p) (e, q) \<and> progress p q"
  unfolding expression_def using rec_fuel [of "Expr PREC_ASSIGNMENT"] by simp

lemma argument_expression_fuel [fuel_rules]:
  "argument_expression rec p = Some (e, q) \<Longrightarrow> goes p q (argument_expression rec' p) (e, q)"
  by (auto simp: argument_expression_def elim!: bind_resultE split: if_split_asm dest!: fuel_rules; simp add: gave_def turns)

lemma argument_fuel [fuel_rules]:
  "argument rec p = Some (e, q) \<Longrightarrow> goes p q (argument rec' p) (e, q)"
  by (auto simp: argument_def Let_def elim!: bind_resultE split: if_split_asm dest!: fuel_rules; simp add: gave_def turns)

lemma tuple_items_fuel [fuel_rules]:
  "tuple_items n rec p = Some (es, q) \<Longrightarrow>
   along p0 p \<longrightarrow> along p0 q \<and> left q \<le> left p \<and>
   (\<forall>k. left p < k \<longrightarrow> gave (tuple_items k rec' p) (es, q))"
proof (induction n arbitrary: p es)
  case (Suc n)
  note Suc.IH [fuel_rules]
  show ?case
  proof (intro impI conjI allI)
    assume "along p0 p"
    then show "along p0 q" "left q \<le> left p" using Suc.prems
      by (auto elim!: bind_resultE split: if_split_asm dest!: fuel_rules)
  next
    fix k assume "along p0 p" "left p < k"
    then obtain k' where "k = Suc k'" by (cases k) auto
    with \<open>along p0 p\<close> show "gave (tuple_items k rec' p) (es, q)" using Suc.prems \<open>left p < k\<close>
      by (auto elim!: bind_resultE split: if_split_asm dest!: fuel_rules; simp add: gave_def turns)
  qed
qed simp

lemma arguments_fuel [fuel_rules]:
  "arguments n rec stop p = Some (r, q) \<Longrightarrow>
   along p0 p \<longrightarrow> along p0 q \<and> left q \<le> left p \<and>
   (\<forall>k. left p < k \<longrightarrow> gave (arguments k rec' stop p) (r, q))"
proof (induction n arbitrary:  p r)
  case (Suc n)
  note Suc.IH [fuel_rules]
  show ?case
  proof (intro impI conjI allI)
    assume "along p0 p"
    then show "along p0 q" "left q \<le> left p" using Suc.prems
      by (auto  elim!: bind_resultE split: if_split_asm dest!: fuel_rules)
  next
    fix k assume "along p0 p" "left p < k"
    then obtain k' where "k = Suc k'" by (cases k) auto
    with \<open>along p0 p\<close> show "gave (arguments k rec' stop p) (r, q)" using Suc.prems \<open>left p < k\<close>
      by (auto  elim!: bind_resultE split: if_split_asm dest!: fuel_rules; simp add: gave_def turns)
  qed
qed simp

lemma parse_args_fuel [fuel_rules]:
  "parse_args n rec stop p = Some (e, q) \<Longrightarrow> goes p q (parse_args m rec' stop p) (e, q)"
  by (auto simp: parse_args_def Let_def turns elim!: bind_resultE split: if_split_asm dest!: fuel_rules; simp add: gave_def turns)

lemma declarations_fuel [fuel_rules]:
  "declarations n rec p = Some (r, q) \<Longrightarrow>
   along p0 p \<longrightarrow> along p0 q \<and> left q \<le> left p \<and>
   (\<forall>k. left p < k \<or> 0 < k \<and> ps_had_error p \<longrightarrow> gave (declarations k rec' p) (r, q))"
proof (induction n arbitrary:  p r)
  case (Suc n)
  note Suc.IH [fuel_rules]
  show ?case
  proof (intro impI conjI allI)
    assume "along p0 p"
    then show "along p0 q" "left q \<le> left p" using Suc.prems
      by (auto simp: progress_def elim!: bind_resultE split: if_split_asm dest!: fuel_rules)
  next
    fix k assume "along p0 p" "left p < k \<or> 0 < k \<and> ps_had_error p"
    then obtain k' where "k = Suc k'" by (cases k) auto
    with \<open>along p0 p\<close> show "gave (declarations k rec' p) (r, q)" using Suc.prems more_left [of p] \<open>left p < k \<or> 0 < k \<and> ps_had_error p\<close>
      by (auto simp: progress_def elim!: bind_resultE split: if_split_asm dest!: fuel_rules; simp add: gave_def turns)
  qed
qed simp

lemma block_rest_fuel [fuel_rules]:
  "block_rest n rec p = Some (e, q) \<Longrightarrow> goes p q (block_rest m rec' p) (e, q)"
  by (auto simp: block_rest_def Let_def turns elim!: bind_resultE split: if_split_asm dest!: fuel_rules; simp add: gave_def turns)

lemma block_fuel [fuel_rules]:
  "block n rec p = Some (e, q) \<Longrightarrow> goes p q (block m rec' p) (e, q)"
  by (auto simp: block_def Let_def turns elim!: bind_resultE split: if_split_asm dest!: fuel_rules; simp add: gave_def turns)

lemma block_expr_fuel [fuel_rules]:
  "block_expr n rec p = Some (e, q) \<Longrightarrow> goes p q (block_expr m rec' p) (e, q)"
  by (auto simp: block_expr_def Let_def turns elim!: bind_resultE split: if_split_asm dest!: fuel_rules; simp add: gave_def turns)

lemma bridge_fuel [fuel_rules]:
  "bridge n rec p = Some (e, q) \<Longrightarrow> goes p q (bridge m rec' p) (e, q)"
  by (auto simp: bridge_def Let_def turns elim!: bind_resultE split: if_split_asm dest!: fuel_rules; simp add: gave_def turns)

lemma identifier_expr_fuel [fuel_rules]:
  "identifier_expr p = Some (e, q) \<Longrightarrow> goes p q (identifier_expr p) (e, q)"
  by (auto simp: identifier_expr_def Let_def turns elim!: bind_resultE split: if_split_asm dest!: fuel_rules; simp add: gave_def turns)

lemma inline_prefix_fuel [fuel_rules]:
  "inline_prefix n rec p = Some (e, q) \<Longrightarrow> goes p q (inline_prefix m rec' p) (e, q)"
  by (auto simp: inline_prefix_def Let_def turns elim!: bind_resultE split: if_split_asm dest!: fuel_rules; simp add: gave_def turns)

lemma unary_fuel [fuel_rules]:
  "unary rec p = Some (e, q) \<Longrightarrow> goes p q (unary rec' p) (e, q)"
  by (auto simp: unary_def Let_def turns elim!: bind_resultE split: if_split_asm dest!: fuel_rules; simp add: gave_def turns)

lemma parse_literal_fuel [fuel_rules]:
  "parse_literal p = Some (e, q) \<Longrightarrow> goes p q (parse_literal p) (e, q)"
  by (auto simp: parse_literal_def Let_def turns elim!: bind_resultE split: if_split_asm dest!: fuel_rules; simp add: gave_def turns)

lemma scalar_fuel [fuel_rules]:
  "scalar p = Some (e, q) \<Longrightarrow> goes p q (scalar p) (e, q)"
  by (auto simp: scalar_def Let_def turns elim!: bind_resultE split: if_split_asm dest!: fuel_rules; simp add: gave_def turns)

lemma number_fuel [fuel_rules]:
  "number p = Some (e, q) \<Longrightarrow> goes p q (number p) (e, q)"
  by (auto simp: number_def Let_def turns elim!: bind_resultE split: if_split_asm dest!: fuel_rules; simp add: gave_def turns)

lemma array_expr_fuel [fuel_rules]:
  "array_expr n rec p = Some (e, q) \<Longrightarrow> goes p q (array_expr m rec' p) (e, q)"
  by (auto simp: array_expr_def Let_def turns elim!: bind_resultE split: if_split_asm dest!: fuel_rules; simp add: gave_def turns)

lemma hash_expr_fuel [fuel_rules]:
  "hash_expr n rec p = Some (e, q) \<Longrightarrow> goes p q (hash_expr m rec' p) (e, q)"
  by (auto simp: hash_expr_def Let_def turns elim!: bind_resultE split: if_split_asm dest!: fuel_rules; simp add: gave_def turns)

lemma grouping_fuel [fuel_rules]:
  "grouping n rec p = Some (e, q) \<Longrightarrow> goes p q (grouping m rec' p) (e, q)"
  by (auto simp: grouping_def Let_def turns elim!: bind_resultE split: if_split_asm ast.split_asm dest!: fuel_rules; simp add: gave_def turns)

lemma backtick_expr_fuel [fuel_rules]:
  "backtick_expr p = Some (e, q) \<Longrightarrow> goes p q (backtick_expr p) (e, q)"
  by (auto simp: backtick_expr_def Let_def turns elim!: bind_resultE split: if_split_asm dest!: fuel_rules; simp add: gave_def turns)

lemma address_expr_fuel [fuel_rules]:
  "address_expr p = Some (e, q) \<Longrightarrow> goes p q (address_expr p) (e, q)"
  by (auto simp: address_expr_def Let_def turns elim!: bind_resultE split: if_split_asm dest!: fuel_rules; simp add: gave_def turns)

lemma class_expr_fuel [fuel_rules]:
  "class_expr p = Some (e, q) \<Longrightarrow> goes p q (class_expr p) (e, q)"
  by (auto simp: class_expr_def Let_def turns elim!: bind_resultE split: if_split_asm dest!: fuel_rules; simp add: gave_def turns)

text \<open>The literals; the source of an alignment is shorter than the text of its string.\<close>

lemma alignment_width_fuel [fuel_rules]:
  assumes "parse_alignment_width rec source p = Some (e, q)" "3 * length source + 3 \<le> m"
  shows "goes p q (parse_alignment_width rec' source p) (e, q)"
proof -
  obtain nested w nested' where n: "parser_advance (slp_parser_init source) = Some nested" "expression rec nested = Some (w, nested')"
      "(if ps_had_error nested' \<or> w = No_node \<or> \<not> at_eof nested'
        then Some (No_node, error_at (ps_previous p) (nested_message (ps_error_message nested')) p) else Some (w, p)) = Some (e, q)"
    using assms(1) by (auto simp: parse_alignment_width_def elim!: bind_resultE)
  have "3 * left nested + 1 \<le> m" "good nested" using first_advance [OF n(1)] assms(2) by simp_all
  then have "expression rec' nested = Some (w, nested')" using rec_ok [of "Expr PREC_ASSIGNMENT"] n(2) by (simp add: expression_def)
  then show ?thesis using n by (auto simp: parse_alignment_width_def gave_def split: if_split_asm)
qed

lemma alignment_fuel [fuel_rules]:
  assumes "alignment rec cs s p = Some (r, q)" "3 * length cs \<le> m"
  shows "goes p q (alignment rec' cs s p) (r, q)"
  using assms
  by (auto simp: alignment_def elim!: bind_resultE split: option.split_asm if_split_asm dest!: alignment_width_fuel alignment_text_length;
      simp add: gave_def)

lemma string_loop_fuel [fuel_rules]:
  "string_loop rec cs s p = Some (r, q) \<Longrightarrow> 3 * length cs \<le> m \<Longrightarrow>
   goes p q (string_loop rec' cs s p) (r, q)"
proof (induction "length cs" arbitrary: cs s p rule: less_induct)
  case less
  have IH: "string_loop rec ds t p1 = Some (r, q) \<Longrightarrow> length ds < length cs \<Longrightarrow>
      along p0 p1 \<longrightarrow> along p0 q \<and> left q \<le> left p1 \<and> gave (string_loop rec' ds t p1) (r, q)" for ds t p1
    using less.hyps less.prems(2) by simp
  have name: "length (dropWhile P ds) \<le> length ds" for P :: "char \<Rightarrow> bool" and ds by (rule length_dropWhile_le)
  let ?line = "sp_line s" and ?s = "flush_literal s" and ?not_name = "\<lambda>c. \<not> parsed_string_var_end c"
  let ?variable = "hd cs = CHR ''$'' \<and> 1 < length cs \<and> \<not> parsed_string_var_end (cs ! 1)"
  let ?before = "cs = [] \<or> 510 \<le> length (sp_parts s)"
  let ?escape = "hd cs = CHR 0x5C \<and> 1 < length cs"
  consider "?before" | "\<not> ?before" "?escape" | "\<not> ?before" "\<not> ?escape" "take 4 cs = '' $+ ''"
    | "\<not> ?before" "\<not> ?escape" "take 4 cs \<noteq> '' $+ ''" "take 2 cs = ''$+''"
    | "\<not> ?before" "\<not> ?escape" "take 4 cs \<noteq> '' $+ ''" "take 2 cs \<noteq> ''$+''" "?variable" "cs ! 1 = CHR ''[''"
    | "\<not> ?before" "\<not> ?escape" "take 4 cs \<noteq> '' $+ ''" "take 2 cs \<noteq> ''$+''" "?variable" "cs ! 1 \<noteq> CHR ''[''"
    | "\<not> ?before" "\<not> ?escape" "take 4 cs \<noteq> '' $+ ''" "take 2 cs \<noteq> ''$+''" "\<not> ?variable" by blast
  then show ?case
  proof cases
    case 1
    then show ?thesis using less.prems string_loop.simps [of rec cs s p] string_loop.simps [of rec' cs s p]
      by (auto simp: gave_def split: if_split_asm)
  next
    case 2
    then have "string_loop R cs s p = string_loop R (drop 2 cs) (count_line (cs ! 1) (put_char (escaped_char (cs ! 1)) s)) p" for R
      by (subst string_loop.simps) simp
    then show ?thesis using less.prems(1) IH [of "drop 2 cs"] 2 by simp
  next
    case 3
    then have "string_loop R cs s p = string_loop R (drop 4 cs) s p" for R by (subst string_loop.simps) auto
    moreover have "length (drop 4 cs) < length cs" using 3 by simp
    ultimately show ?thesis using less.prems(1) IH [of "drop 4 cs"] by simp
  next
    case 4
    then have "string_loop R cs s p = Some (None, parse_error ''operator $+ must be surrounded with whitespace'' p)" for R
      by (subst string_loop.simps) auto
    then show ?thesis using less.prems(1) by (auto simp: gave_def)
  next
    case 5
    then have eq: "string_loop R cs s p =
        (case alignment R (drop 2 cs) ?s p of
           None \<Rightarrow> None
         | Some (None, p) \<Rightarrow> Some (None, p)
         | Some (Some (width, rest, s), p) \<Rightarrow>
             string_loop R (dropWhile ?not_name rest) (string_variable width ?line (takeWhile ?not_name rest) s) p)" for R
      by (subst string_loop.simps) (simp add: Let_def)
    obtain x p1 where al: "alignment rec (drop 2 cs) ?s p = Some (x, p1)"
      using less.prems(1) unfolding eq by (auto split: option.split_asm)
    have "3 * length (drop 2 cs) \<le> m" using less.prems(2) by simp
    note al' = alignment_fuel [OF al this, unfolded gave_def]
    show ?thesis
    proof (cases x)
      case None
      then show ?thesis using less.prems(1) al al' unfolding eq by (auto simp: gave_def)
    next
      case (Some y)
      obtain width rest s' where y: "y = (width, rest, s')" by (cases y)
      have len: "length (dropWhile ?not_name rest) < length cs"
        using alignment_rest [OF al [unfolded Some y]] name [of ?not_name rest] by simp
      have "string_loop rec (dropWhile ?not_name rest) (string_variable width ?line (takeWhile ?not_name rest) s') p1 = Some (r, q)"
        using less.prems(1) al unfolding eq Some y by simp
      from IH [OF this len] show ?thesis using al' unfolding eq Some y by (auto simp: gave_def)
    qed
  next
    case 6
    then have eq: "string_loop R cs s p =
        string_loop R (dropWhile ?not_name (tl cs)) (string_variable No_node ?line (takeWhile ?not_name (tl cs)) ?s) p" for R
      by (subst string_loop.simps) (simp add: Let_def)
    have "length (dropWhile ?not_name (tl cs)) < length cs" using 6 name [of ?not_name "tl cs"] by (cases cs) auto
    from IH [OF _ this] show ?thesis using less.prems(1) unfolding eq by simp
  next
    case 7
    then have eq: "string_loop R cs s p = string_loop R (tl cs) (put_char (hd cs) (count_line (hd cs) s)) p" for R
      by (subst string_loop.simps) auto
    then show ?thesis using less.prems(1) IH [of "tl cs"] 7 unfolding eq by simp
  qed
qed

lemma string_literal_fuel [fuel_rules]:
  assumes "string_literal rec p = Some (e, q)" "3 * length (previous_text p) \<le> m"
  shows "goes p q (string_literal rec' p) (e, q)"
proof -
  have "3 * length (inner_text p (ps_previous p)) \<le> m" using assms(2) by (simp add: inner_text_def)
  with assms(1) show ?thesis
    by (auto simp: string_literal_def parse_double_quoted_string_def Let_def elim!: bind_resultE
        split: if_split_asm option.split_asm list.split_asm dest!: string_loop_fuel; simp add: gave_def)
qed

text \<open>Object expressions, commands and operators.\<close>

lemma object_target_starts_qualified_name_fuel [fuel_rules]:
  "object_target_starts_qualified_name p = Some (b, q) \<Longrightarrow>
   goes p q (object_target_starts_qualified_name p) (b, q)"
  by (auto simp: object_target_starts_qualified_name_def Let_def turns elim!: bind_resultE split: if_split_asm dest!: fuel_rules; simp add: gave_def turns)

lemma qualified_components_fuel [fuel_rules]:
  "qualified_components n c p = Some (r, q) \<Longrightarrow>
   along p0 p \<longrightarrow> along p0 q \<and> left q \<le> left p \<and>
   (\<forall>k. left p < k \<longrightarrow> gave (qualified_components k c p) (r, q))"
proof (induction n arbitrary: c p r)
  case (Suc n)
  note Suc.IH [fuel_rules]
  show ?case
  proof (intro impI conjI allI)
    assume "along p0 p"
    then show "along p0 q" "left q \<le> left p" using Suc.prems
      by (auto simp: Let_def elim!: bind_resultE split: if_split_asm dest!: fuel_rules)
  next
    fix k assume "along p0 p" "left p < k"
    then obtain k' where "k = Suc k'" by (cases k) auto
    with \<open>along p0 p\<close> show "gave (qualified_components k c p) (r, q)" using Suc.prems \<open>left p < k\<close>
      by (auto simp: Let_def elim!: bind_resultE split: if_split_asm dest!: fuel_rules; simp add: gave_def turns)
  qed
qed simp

lemma qualified_object_target_fuel [fuel_rules]:
  "qualified_object_target n  p = Some (e, q) \<Longrightarrow> goes p q (qualified_object_target m p) (e, q)"
  by (auto simp: qualified_object_target_def Let_def turns elim!: bind_resultE split: if_split_asm dest!: fuel_rules; simp add: gave_def turns)

lemma object_message_fuel [fuel_rules]:
  "object_message rec p = Some (e, q) \<Longrightarrow> goes p q (object_message rec' p) (e, q)"
  by (auto simp: object_message_def Let_def turns elim!: bind_resultE split: if_split_asm dest!: fuel_rules; simp add: gave_def turns)

lemma object_arguments_fuel [fuel_rules]:
  "object_arguments n rec p = Some (e, q) \<Longrightarrow> goes p q (object_arguments m rec' p) (e, q)"
  by (auto simp: object_arguments_def Let_def turns elim!: bind_resultE split: if_split_asm dest!: fuel_rules; simp add: gave_def turns)

lemma obj_expr_fuel [fuel_rules]:
  "obj_expr n rec p = Some (e, q) \<Longrightarrow> goes p q (obj_expr m rec' p) (e, q)"
  by (auto simp: obj_expr_def Let_def turns elim!: bind_resultE split: if_split_asm dest!: fuel_rules; simp add: gave_def turns)

lemma assert_message_fuel [fuel_rules]:
  "assert_message rec p = Some (e, q) \<Longrightarrow> goes p q (assert_message rec' p) (e, q)"
  by (auto simp: assert_message_def Let_def turns elim!: bind_resultE split: if_split_asm dest!: fuel_rules; simp add: gave_def turns)

lemma command_fuel [fuel_rules]:
  "command rec p = Some (e, q) \<Longrightarrow> goes p q (command rec' p) (e, q)"
  by (auto simp: command_def Let_def turns elim!: bind_resultE split: if_split_asm dest!: fuel_rules; simp add: gave_def turns)

lemma binary_fuel [fuel_rules]:
  "binary rec l p = Some (e, q) \<Longrightarrow> goes p q (binary rec' l p) (e, q)"
  by (auto simp: binary_def Let_def turns elim!: bind_resultE split: if_split_asm dest!: fuel_rules; simp add: gave_def turns)

lemma negated_binary_fuel [fuel_rules]:
  "negated_binary rec l p = Some (e, q) \<Longrightarrow> goes p q (negated_binary rec' l p) (e, q)"
  by (auto simp: negated_binary_def Let_def turns elim!: bind_resultE split: if_split_asm dest!: fuel_rules; simp add: gave_def turns)

lemma assignment_fuel [fuel_rules]:
  "assignment rec l p = Some (e, q) \<Longrightarrow> goes p q (assignment rec' l p) (e, q)"
  by (auto simp: assignment_def Let_def turns elim!: bind_resultE split: if_split_asm dest!: fuel_rules; simp add: gave_def turns)

lemma logical_fuel [fuel_rules]:
  "logical rec l p = Some (e, q) \<Longrightarrow> goes p q (logical rec' l p) (e, q)"
  by (auto simp: logical_def Let_def turns elim!: bind_resultE split: if_split_asm dest!: fuel_rules; simp add: gave_def turns)

lemma postfix_fuel [fuel_rules]:
  "postfix l p = Some (e, q) \<Longrightarrow> goes p q (postfix l p) (e, q)"
  by (auto simp: postfix_def Let_def turns elim!: bind_resultE split: if_split_asm dest!: fuel_rules; simp add: gave_def turns)

lemma index_acc_fuel [fuel_rules]:
  "index_acc rec l p = Some (e, q) \<Longrightarrow> goes p q (index_acc rec' l p) (e, q)"
  by (auto simp: index_acc_def Let_def turns elim!: bind_resultE split: if_split_asm dest!: fuel_rules; simp add: gave_def turns)

lemma call_expr_fuel [fuel_rules]:
  "call_expr n rec l p = Some (e, q) \<Longrightarrow> goes p q (call_expr m rec' l p) (e, q)"
  by (auto simp: call_expr_def Let_def turns elim!: bind_resultE split: if_split_asm dest!: fuel_rules; simp add: gave_def turns)

lemma infix_expr_fuel [fuel_rules]:
  "infix_expr n rec f l p = Some (e, q) \<Longrightarrow> goes p q (infix_expr m rec' f l p) (e, q)"
  by (cases f) (auto dest!: fuel_rules)

lemma prefix_expr_fuel:
  assumes "prefix_expr n rec f p = Some (e, q)" "3 * length (previous_text p) \<le> m" "along p0 p"
  shows "along p0 q \<and> left q \<le> left p \<and> gave (prefix_expr m rec' f p) (e, q)"
  using assms by (cases f) (auto dest!: fuel_rules)

lemma string_pieces_fuel [fuel_rules]:
  "string_pieces n p = Some (r, q) \<Longrightarrow>
   along p0 p \<longrightarrow> along p0 q \<and> left q \<le> left p \<and>
   (\<forall>k. left p < k \<longrightarrow> gave (string_pieces k p) (r, q))"
proof (induction n arbitrary:  p r)
  case (Suc n)
  note Suc.IH [fuel_rules]
  show ?case
  proof (intro impI conjI allI)
    assume "along p0 p"
    then show "along p0 q" "left q \<le> left p" using Suc.prems
      by (auto simp: Let_def at_string_def check_token_def elim!: bind_resultE split: if_split_asm dest!: fuel_rules)
  next
    fix k assume "along p0 p" "left p < k"
    then obtain k' where "k = Suc k'" by (cases k) auto
    with \<open>along p0 p\<close> show "gave (string_pieces k p) (r, q)" using Suc.prems \<open>left p < k\<close>
      by (auto simp: Let_def at_string_def check_token_def elim!: bind_resultE split: if_split_asm dest!: fuel_rules; simp add: gave_def turns)
  qed
qed simp

lemma juxtapose_fuel [fuel_rules]:
  "juxtapose n e0 p = Some (e, q) \<Longrightarrow> goes p q (juxtapose m e0 p) (e, q)"
  by (auto simp: juxtapose_def Let_def turns elim!: bind_resultE split: if_split_asm ast.split_asm dest!: fuel_rules; simp add: gave_def turns)

lemma infix_part_fuel [fuel_rules]:
  "(case f of None \<Rightarrow> Some (l, p) | Some f \<Rightarrow> infix_expr n rec f l p) = Some (e, q) \<Longrightarrow>
   goes p q (case f of None \<Rightarrow> Some (l, p) | Some f \<Rightarrow> infix_expr m rec' f l p) (e, q)"
  by (auto split: option.split_asm dest!: infix_expr_fuel)

lemma operator_not_eof: "get_rule (tok_type (ps_current p)) = Some r \<Longrightarrow> \<not> rule_precedence r < prec \<Longrightarrow> 0 < prec \<Longrightarrow> \<not> at_eof p"
  by (auto simp: check_token_def get_rule_def rule_def)

lemma infix_loop_fuel [fuel_rules]:
  "infix_loop n n0 rec prec e p = Some (r, q) \<Longrightarrow>
   0 < prec \<Longrightarrow> along p0 p \<longrightarrow> along p0 q \<and> left q \<le> left p \<and>
   (\<forall>k. left p < k \<longrightarrow> gave (infix_loop k m rec' prec e p) (r, q))"
proof (induction n arbitrary: e p r)
  case (Suc n)
  note Suc.IH [fuel_rules]
  show ?case
  proof (intro impI conjI allI)
    assume "along p0 p"
    then show "along p0 q" "left q \<le> left p" using Suc.prems
      by (auto simp: operator_not_eof elim!: bind_resultE split: if_split_asm dest!: fuel_rules)
  next
    fix k assume "along p0 p" "left p < k"
    then obtain k' where "k = Suc k'" by (cases k) auto
    with \<open>along p0 p\<close> show "gave (infix_loop k m rec' prec e p) (r, q)" using Suc.prems \<open>left p < k\<close>
      by (auto simp: operator_not_eof elim!: bind_resultE split: if_split_asm dest!: fuel_rules; simp add: gave_def turns)
  qed
qed simp

text \<open>Statements behind their keyword.\<close>

lemma condition_fuel [fuel_rules]:
  "condition rec s t p = Some (e, q) \<Longrightarrow> goes p q (condition rec' s t p) (e, q)"
  by (auto simp: condition_def Let_def turns elim!: bind_resultE split: if_split_asm dest!: fuel_rules; simp add: gave_def turns)

lemma if_statement_fuel [fuel_rules]:
  "if_statement rec p = Some (e, q) \<Longrightarrow> goes p q (if_statement rec' p) (e, q)"
  by (auto simp: if_statement_def Let_def turns elim!: bind_resultE split: if_split_asm dest!: fuel_rules; simp add: gave_def turns)

lemma while_statement_fuel [fuel_rules]:
  "while_statement n rec p = Some (e, q) \<Longrightarrow> goes p q (while_statement m rec' p) (e, q)"
  by (auto simp: while_statement_def Let_def turns elim!: bind_resultE split: if_split_asm dest!: fuel_rules; simp add: gave_def turns)

lemma for_items_fuel [fuel_rules]:
  "for_items n rec stop p = Some (r, q) \<Longrightarrow>
   along p0 p \<longrightarrow> along p0 q \<and> left q \<le> left p \<and>
   (\<forall>k. left p < k \<longrightarrow> gave (for_items k rec' stop p) (r, q))"
proof (induction n arbitrary:  p r)
  case (Suc n)
  note Suc.IH [fuel_rules]
  show ?case
  proof (intro impI conjI allI)
    assume "along p0 p"
    then show "along p0 q" "left q \<le> left p" using Suc.prems
      by (auto  elim!: bind_resultE split: if_split_asm dest!: fuel_rules)
  next
    fix k assume "along p0 p" "left p < k"
    then obtain k' where "k = Suc k'" by (cases k) auto
    with \<open>along p0 p\<close> show "gave (for_items k rec' stop p) (r, q)" using Suc.prems \<open>left p < k\<close>
      by (auto  elim!: bind_resultE split: if_split_asm dest!: fuel_rules; simp add: gave_def turns)
  qed
qed simp

lemma for_statement_fuel [fuel_rules]:
  "for_statement n rec p = Some (e, q) \<Longrightarrow> goes p q (for_statement m rec' p) (e, q)"
  by (auto simp: for_statement_def Let_def turns elim!: bind_resultE split: if_split_asm dest!: fuel_rules; simp add: gave_def turns)

lemma foreach_variables_fuel [fuel_rules]:
  "foreach_variables p = Some (k, v, q) \<Longrightarrow> goes p q (foreach_variables p) (k, v, q)"
  by (auto simp: foreach_variables_def Let_def elim!: bind_resultE split: if_split_asm dest!: fuel_rules; simp add: gave_def)

lemma foreach_statement_fuel [fuel_rules]:
  "foreach_statement n rec p = Some (e, q) \<Longrightarrow> goes p q (foreach_statement m rec' p) (e, q)"
  by (auto simp: foreach_statement_def Let_def turns elim!: bind_resultE split: if_split_asm dest!: fuel_rules; simp add: gave_def turns)

lemma try_statement_fuel [fuel_rules]:
  "try_statement n rec p = Some (e, q) \<Longrightarrow> goes p q (try_statement m rec' p) (e, q)"
  by (auto simp: try_statement_def Let_def turns elim!: bind_resultE split: if_split_asm dest!: fuel_rules; simp add: gave_def turns)

lemma import_parts_fuel [fuel_rules]:
  "import_parts n t p = Some (r, q) \<Longrightarrow>
   along p0 p \<longrightarrow> along p0 q \<and> left q \<le> left p \<and>
   (\<forall>k. left p < k \<longrightarrow> gave (import_parts k t p) (r, q))"
proof (induction n arbitrary: t p r)
  case (Suc n)
  note Suc.IH [fuel_rules]
  show ?case
  proof (intro impI conjI allI)
    assume "along p0 p"
    then show "along p0 q" "left q \<le> left p" using Suc.prems
      by (auto simp: Let_def elim!: bind_resultE split: if_split_asm dest!: fuel_rules)
  next
    fix k assume "along p0 p" "left p < k"
    then obtain k' where "k = Suc k'" by (cases k) auto
    with \<open>along p0 p\<close> show "gave (import_parts k t p) (r, q)" using Suc.prems \<open>left p < k\<close>
      by (auto simp: Let_def elim!: bind_resultE split: if_split_asm dest!: fuel_rules; simp add: gave_def turns)
  qed
qed simp

lemma import_path_fuel [fuel_rules]:
  "import_path p = Some (e, q) \<Longrightarrow> goes p q (import_path p) (e, q)"
  by (auto simp: import_path_def Let_def turns elim!: bind_resultE split: if_split_asm dest!: fuel_rules; simp add: gave_def turns)

lemma import_statement_fuel [fuel_rules]:
  "import_statement n  p = Some (e, q) \<Longrightarrow> goes p q (import_statement m p) (e, q)"
  by (auto simp: import_statement_def Let_def turns elim!: bind_resultE split: if_split_asm dest!: fuel_rules; simp add: gave_def turns)

lemma keyword_statement_fuel:
  assumes "keyword_statement n rec ty = Some f" "f p = Some (e, q)" "along p0 p"
  shows "\<exists>f'. keyword_statement m rec' ty = Some f' \<and> along p0 q \<and> left q \<le> left p \<and> f' p = Some (e, q)"
  using assms by (auto simp: keyword_statement_def split: if_split_asm dest!: fuel_rules; simp add: gave_def)

lemma script_statements_fuel:
  "script_statements n rec p = Some (r, q) \<Longrightarrow>
   along p0 p \<longrightarrow> (\<forall>k. left p < k \<or> 0 < k \<and> ps_had_error p \<longrightarrow> script_statements k rec' p = Some (r, q))"
proof (induction n arbitrary: p r)
  case (Suc n)
  show ?case
  proof (intro impI allI)
    fix k assume "along p0 p" and k: "left p < k \<or> 0 < k \<and> ps_had_error p"
    then obtain k' where "k = Suc k'" by (cases k) auto
    with \<open>along p0 p\<close> show "script_statements k rec' p = Some (r, q)" using Suc.prems more_left [of p] k
      by (auto simp: progress_def match_token_def check_token_def elim!: bind_resultE split: if_split_asm
          dest!: Suc.IH fuel_rules; simp add: gave_def)
  qed
qed simp

lemma climb_fuel:
  assumes "prefix_expr n rec f p0 = Some (e1, p1)" "juxtapose n e1 p1 = Some (e2, p2)" "infix_loop n n rec prec e2 p2 = Some (e, q)"
    "0 < prec" "good p0" "3 * length (previous_text p0) \<le> m"
  shows "along p0 q \<and> left q \<le> left p0 \<and>
    (prefix_expr m rec' f p0 \<bind> (\<lambda>(e, p). juxtapose m e p \<bind> (\<lambda>(e, p). infix_loop m m rec' prec e p))) = Some (e, q)"
  using prefix_expr_fuel [OF assms(1,6) along_refl [OF assms(5)]] assms(2-4)
  by (auto dest!: fuel_rules; simp add: gave_def turns)

end

subsection \<open>The three recursive functions\<close>

context less_fuel
begin

lemma room_here: "3 * left p + 3 \<le> m \<Longrightarrow> with_room m rec rec' p"
  by unfold_locales

lemma own_fuel: "less_fuel k rec rec"
  using rec_ok by unfold_locales blast+

lemma room_own: "3 * left p + 3 \<le> k \<Longrightarrow> with_room k rec rec p"
  using own_fuel [of k] by (simp add: with_room_def with_room_axioms_def)

lemma rec_parts:
  assumes "rec g p = Some (e, q)" "g \<noteq> Expr 0"
  shows "step p q" "good p \<Longrightarrow> progress p q" "good p \<Longrightarrow> 3 * left p + rank g \<le> m \<Longrightarrow> rec' g p = Some (e, q)"
  using rec_ok [OF assms] by blast+

lemma inner_fuel:
  assumes "parse_precedence_inner n rec prec p = Some (e, q)" "0 < prec" "good p"
  shows "step p q \<and> progress p q \<and> (3 * left p \<le> m \<longrightarrow> parse_precedence_inner m rec' prec p = Some (e, q))"
proof -
  obtain p0 r where 0: "parser_advance p = Some p0" "get_rule (tok_type (ps_previous p0)) = Some r"
      "(case rule_prefix r of None \<Rightarrow> Some (No_node, parse_error ''Expect expression.'' p0)
        | Some f \<Rightarrow> prefix_expr n rec f p0 \<bind> (\<lambda>(e, p). juxtapose n e p \<bind> (\<lambda>(e, p). infix_loop n n rec prec e p))) = Some (e, q)"
    using assms(1) by (auto simp: parse_precedence_inner_def elim!: bind_resultE)
  have a: "step p p0" "good p0" "ps_previous p0 = ps_current p" "left p0 < left p \<or> left p = 0 \<and> at_eof p0"
    using advance_result [OF 0(1) assms(3)] by simp_all
  show ?thesis
  proof (cases "rule_prefix r")
    case None
    then have q: "e = No_node" "q = parse_error ''Expect expression.'' p0" using 0(3) by auto
    have "step p q" using parser_step_trans [OF a(1) parse_error_step(1)] q by simp
    then show ?thesis using 0 None q a(2) by (simp add: parse_precedence_inner_def progress_def)
  next
    case (Some f)
    then obtain e1 p1 e2 p2 where c: "prefix_expr n rec f p0 = Some (e1, p1)" "juxtapose n e1 p1 = Some (e2, p2)"
        "infix_loop n n rec prec e2 p2 = Some (e, q)"
      using 0(3) by (auto elim!: bind_resultE)
    have "\<not> at_eof p" using 0(2) Some by (auto simp: a(3) check_token_def get_rule_def rule_def)
    moreover have "lx_source (ps_lexer p0) = lx_source (ps_lexer p)" using a(1) assms(3) by (simp add: step_def)
    then have "previous_text p0 = token_text p (ps_current p)"
      unfolding token_text_def slp_lexer_copy_lexeme_def a(3) by (rule ssubst) (rule refl)
    ultimately have l: "left p0 < left p" "length (previous_text p0) \<le> left p"
      using a token_text_left [OF assms(3)] left_eof [OF assms(3)] by auto
    note own = with_room.climb_fuel [OF room_own [of p0 "3 * left p0 + 3 * left p + 3"] c assms(2) a(2)]
    have "along p0 q \<and> left q \<le> left p0" using own l(2) by simp
    then have s: "step p q" "left q < left p"
      using parser_step_trans [OF a(1)] along_is_step l(1) by auto
    have "parse_precedence_inner m rec' prec p = Some (e, q)" if "3 * left p \<le> m"
      using with_room.climb_fuel [OF room_here [of p0] c assms(2) a(2)] l that 0 Some by (simp add: parse_precedence_inner_def)
    then show ?thesis using s by (simp add: progress_def)
  qed
qed

lemma nested_fuel:
  assumes "nested s f p = Some (e, q)" "good p"
    "\<And>p q. f p = Some (e, q) \<Longrightarrow> good p \<Longrightarrow> step p q \<and> progress p q \<and> (b (left p) \<longrightarrow> f' p = Some (e, q))"
  shows "step p q \<and> progress p q \<and> (b (left p) \<longrightarrow> nested s f' p = Some (e, q))"
proof (cases "SLP_PARSER_MAX_DEPTH \<le> ps_depth p")
  case True
  then have "e = No_node" "q = parse_error s p" using assms(1) by (simp_all add: nested_def)
  then show ?thesis using True assms(2) by (simp add: nested_def progress_def)
next
  case False
  let ?p = "p\<lparr>ps_depth := ps_depth p + 1\<rparr>"
  obtain q' where q: "f ?p = Some (e, q')" "q = q'\<lparr>ps_depth := ps_depth q' - 1\<rparr>"
    using assms(1) False by (auto simp: nested_def elim!: bind_resultE)
  have s: "step ?p q'" "progress ?p q'" "b (left p) \<longrightarrow> f' ?p = Some (e, q')" using assms(3) [OF q(1)] assms(2) by simp_all
  have "step p q" using s(1) assms(2) by (simp add: step_def q(2))
  then show ?thesis using s q False by (simp add: progress_def nested_def)
qed

lemma precedence_fuel:
  assumes "parse_precedence n rec prec p = Some (e, q)" "0 < prec" "good p"
  shows "step p q \<and> progress p q \<and> (3 * left p \<le> m \<longrightarrow> parse_precedence m rec' prec p = Some (e, q))"
  unfolding parse_precedence_def
  by (rule nested_fuel [OF assms(1) [unfolded parse_precedence_def] assms(3), where b = "\<lambda>l. 3 * l \<le> m"])
    (rule inner_fuel [OF _ assms(2)])

lemma statement_inner_fuel:
  assumes "statement_inner n rec p = Some (e, q)" "good p"
  shows "step p q \<and> progress p q \<and> (3 * left p + 1 \<le> m \<longrightarrow> statement_inner m rec' p = Some (e, q))"
proof -
  consider f where "keyword_statement n rec (tok_type (ps_current p)) = Some f"
    | "keyword_statement n rec (tok_type (ps_current p)) = None" "at TOKEN_LEFT_BRACE p"
    | "keyword_statement n rec (tok_type (ps_current p)) = None" "\<not> at TOKEN_LEFT_BRACE p" by (cases "keyword_statement n rec (tok_type (ps_current p))") auto
  then show ?thesis
  proof cases
    case (1 f)
    then obtain p0 where 0: "parser_advance p = Some p0" "f p0 = Some (e, q)"
      using assms(1) by (auto simp: statement_inner_def elim!: bind_resultE)
    have "\<not> at_eof p" using 1 by (auto simp: keyword_statement_def check_token_def split: if_split_asm)
    then have a: "step p p0" "good p0" "left p0 < left p"
      using advance_result [OF 0(1) assms(2)] left_eof [OF assms(2)] by auto
    have own: "along p0 q \<and> left q \<le> left p0"
      using with_room.keyword_statement_fuel [OF room_own [of p0 "3 * left p0 + 3"] 1 0(2) along_refl [OF a(2)]] by auto
    have s: "step p q" "progress p q" using parser_step_trans [OF a(1)] along_is_step own a(3) by (auto simp: progress_def)
    have "statement_inner m rec' p = Some (e, q)" if "3 * left p + 1 \<le> m"
    proof -
      have "with_room m rec rec' p0" using that a(3) by (intro room_here) simp
      from with_room.keyword_statement_fuel [OF this 1 0(2) along_refl [OF a(2)]] 0(1)
      show ?thesis by (auto simp: statement_inner_def)
    qed
    then show ?thesis using s by simp
  next
    case 2
    then obtain p0 where 0: "parser_advance p = Some p0" "block_rest n rec p0 = Some (e, q)"
      using assms(1) by (auto simp: statement_inner_def block_def consume_def check_token_def elim!: bind_resultE)
    have "\<not> at_eof p" using 2 by (auto simp: check_token_def)
    then have a: "step p p0" "good p0" "left p0 < left p"
      using advance_result [OF 0(1) assms(2)] left_eof [OF assms(2)] by auto
    have own: "along p0 q \<and> left q \<le> left p0"
      using with_room.block_rest_fuel [OF room_own [of p0 "3 * left p0 + 3"] 0(2)] along_refl [OF a(2)] by auto
    have s: "step p q" "progress p q" using parser_step_trans [OF a(1)] along_is_step own a(3) by (auto simp: progress_def)
    have "statement_inner m rec' p = Some (e, q)" if "3 * left p + 1 \<le> m"
    proof -
      have "with_room m rec rec' p0" using that a(3) by (intro room_here) simp
      from with_room.block_rest_fuel [OF this 0(2)] along_refl [OF a(2)] 0(1) 2
      show ?thesis by (auto simp: statement_inner_def block_def consume_def check_token_def keyword_statement_def gave_def)
    qed
    then show ?thesis using s by simp
  next
    case 3
    then obtain p1 b p2 where 1: "expression rec p = Some (e, p1)" "match_token (Sym TOKEN_SEMICOLON) p1 = Some (b, p2)"
        "q = (if b \<or> at TOKEN_RIGHT_BRACE p2 \<or> at_eof p2 \<or> tok_line (ps_previous p2) < tok_line (ps_current p2)
              then p2 else parse_error ''Missing terminator'' p2)"
      using assms(1) by (auto simp: statement_inner_def expression_statement_def elim!: bind_resultE)
    note r = rec_parts [OF 1(1) [unfolded expression_def], simplified]
    have 2: "step p1 p2" "left p2 \<le> left p1" using match_step [OF 1(2)] r(1) assms(2) by (auto simp: step_def)
    have "step p2 q" "left q = left p2" using 1(3) by simp_all
    then have "step p q" using r(1) 2(1) by (blast intro: parser_step_trans)
    moreover have "progress p q"
    proof -
      have "error_kept p1 q" using \<open>step p2 q\<close> 2(1) r(1) assms(2) by (auto simp: step_def elim: error_kept_trans)
      then show ?thesis using r(2) [OF assms(2)] \<open>left q = left p2\<close> 2(2) by (auto simp: progress_def error_kept_def)
    qed
    moreover have "statement_inner m rec' p = Some (e, q)" if "3 * left p + 1 \<le> m"
    proof -
      have "expression rec' p = Some (e, p1)" using r(3) assms(2) that by (simp add: expression_def)
      moreover have "keyword_statement m rec' (tok_type (ps_current p)) = None"
        using 3(1) by (auto simp: keyword_statement_def split: if_split_asm)
      ultimately show ?thesis using 1 3(2) by (simp add: statement_inner_def expression_statement_def)
    qed
    ultimately show ?thesis by simp
  qed
qed

lemma statement_fuel:
  assumes "statement n rec p = Some (e, q)" "good p"
  shows "step p q \<and> progress p q \<and> (3 * left p + 1 \<le> m \<longrightarrow> statement m rec' p = Some (e, q))"
  unfolding statement_def
  by (rule nested_fuel [OF assms(1) [unfolded statement_def] assms(2), where b = "\<lambda>l. 3 * l + 1 \<le> m"])
    (rule statement_inner_fuel)

lemma behind_token:
  assumes "parser_advance p = Some p0" "good p" "\<not> at_eof p"
  shows "step p p0" "good p0" "left p0 < left p" "3 * left p \<le> m \<Longrightarrow> with_room m rec rec' p0"
  using advance_result [OF assms(1,2)] assms(3) left_eof [OF assms(2)] room_here [of p0] by auto

lemma along_progress: "step p p0 \<Longrightarrow> left p0 < left p \<Longrightarrow> along p0 q \<Longrightarrow> step p q \<and> progress p q"
  using parser_step_trans [of p p0 q] along_is_step [of p0 q] by (simp add: along_def progress_def)

lemma bridge_behind:
  assumes "parser_advance p = Some p0" "bridge n rec p0 = Some (e, q)" "good p" "\<not> at_eof p"
  shows "step p q \<and> progress p q \<and> (3 * left p \<le> m \<longrightarrow> bridge m rec' p0 = Some (e, q))"
  using behind_token [OF assms(1,3,4)] along_progress [of p p0 q] along_refl [of p0]
    with_room.bridge_fuel [OF room_own [of p0 "3 * left p0 + 3"] assms(2)] with_room.bridge_fuel [OF _ assms(2)]
  by (auto simp: gave_def)

lemma import_behind:
  assumes "parser_advance p = Some p0" "import_statement n p0 = Some (e, q)" "good p" "\<not> at_eof p"
  shows "step p q \<and> progress p q \<and> (3 * left p \<le> m \<longrightarrow> import_statement m p0 = Some (e, q))"
  using behind_token [OF assms(1,3,4)] along_progress [of p p0 q] along_refl [of p0]
    with_room.import_statement_fuel [OF room_own [of p0 "3 * left p0 + 3"] assms(2)] with_room.import_statement_fuel [OF _ assms(2)]
  by (auto simp: gave_def)

lemma starts_step:
  "starts_inline p = Some (b, q) \<Longrightarrow> step p q \<and> left q = left p \<and> ps_current q = ps_current p"
  "starts_bridge p = Some (b, q) \<Longrightarrow> step p q \<and> left q = left p \<and> ps_current q = ps_current p"
  by (auto simp: starts_inline_def starts_bridge_def peek_token_def elim!: bind_resultE split: if_split_asm
      intro: peek_step [THEN conjunct1] peek_step [THEN conjunct2] simp: peek_token_def)

lemma declaration_fuel:
  assumes "parse_declaration n rec p = Some (e, q)" "good p"
  shows "step p q \<and> progress p q \<and> (3 * left p + 2 \<le> m \<longrightarrow> parse_declaration m rec' p = Some (e, q))"
proof (cases "check_token (Kw TOKEN_SUB) p")
  case True
  then obtain p0 where 0: "parser_advance p = Some p0" "bridge n rec p0 = Some (e, q)"
    using assms(1) by (auto simp: parse_declaration_def elim!: bind_resultE)
  show ?thesis using bridge_behind [OF 0 assms(2)] True 0(1) by (auto simp: parse_declaration_def check_token_def)
next
  case False
  note sub = False
  obtain b p1 where 1: "starts_inline p = Some (b, p1)"
    using assms(1) False by (auto simp: parse_declaration_def elim!: bind_resultE)
  have p1: "step p p1" "good p1" "left p1 = left p" "ps_current p1 = ps_current p"
    using starts_step(1) [OF 1] assms(2) by (auto simp: step_def)
  have to: "step p q \<and> progress p q" if "step p1 q" "progress p1 q"
    using parser_step_trans [OF p1(1) that(1)] that(2) p1(3) by (simp add: progress_def)
  consider "b" | "\<not> b" "check_token (Kw TOKEN_IMPORT) p1" | "\<not> b" "\<not> check_token (Kw TOKEN_IMPORT) p1" by blast
  then show ?thesis
  proof cases
    case 1
    then obtain p0 where 0: "parser_advance p1 = Some p0" "bridge n rec p0 = Some (e, q)"
      using assms(1) sub \<open>starts_inline p = Some (b, p1)\<close> by (auto simp: parse_declaration_def elim!: bind_resultE)
    have "\<not> at_eof p1" using 1 \<open>starts_inline p = Some (b, p1)\<close> p1(4) by (auto simp: starts_inline_def check_token_def split: if_split_asm)
    from bridge_behind [OF 0 p1(2) this] to show ?thesis
      using 0(1) 1 sub \<open>starts_inline p = Some (b, p1)\<close> p1(3) by (auto simp: parse_declaration_def)
  next
    case 2
    then obtain p0 where 0: "parser_advance p1 = Some p0" "import_statement n p0 = Some (e, q)"
      using assms(1) sub 1 by (auto simp: parse_declaration_def elim!: bind_resultE)
    have "\<not> at_eof p1" using 2 by (auto simp: check_token_def)
    from import_behind [OF 0 p1(2) this] to show ?thesis using 0(1) 2 sub 1 p1(3) by (auto simp: parse_declaration_def)
  next
    case 3
    obtain c p2 where 2: "starts_bridge p1 = Some (c, p2)"
        "(if c then do { p \<leftarrow> parser_advance p2; bridge n rec p } else rec Stmt p2) = Some (e, q)"
      using assms(1) sub 1 3 by (auto simp: parse_declaration_def elim!: bind_resultE)
    have p2: "step p1 p2" "good p2" "left p2 = left p1" "ps_current p2 = ps_current p1"
      using starts_step(2) [OF 2(1)] p1(2) by (auto simp: step_def)
    have to2: "step p q \<and> progress p q" if "step p2 q" "progress p2 q"
      using parser_step_trans [OF p2(1) that(1)] that(2) p2(3) by (intro to) (simp_all add: progress_def)
    show ?thesis
    proof (cases c)
      case True
      then obtain p0 where 0: "parser_advance p2 = Some p0" "bridge n rec p0 = Some (e, q)"
        using 2(2) by (auto elim!: bind_resultE)
      have "\<not> at_eof p2" using True 2(1) p2(4) by (auto simp: starts_bridge_def check_token_def split: if_split_asm)
      from bridge_behind [OF 0 p2(2) this] to2 show ?thesis
        using 0(1) True 3 sub 1 2(1) p1(3) p2(3) by (auto simp: parse_declaration_def)
    next
      case False
      then have r: "rec Stmt p2 = Some (e, q)" using 2(2) by simp
      note rec_parts [OF r, simplified]
      then show ?thesis using to2 False 3 sub 1 2(1) p1(3) p2(2,3) by (auto simp: parse_declaration_def)
    qed
  qed
qed

end

subsection \<open>The whole parser\<close>

lemma parse_less_fuel: "less_fuel m (parse n) (parse m)"
proof (induction n arbitrary: m)
  case 0
  show ?case by unfold_locales simp
next
  case (Suc n)
  show ?case
  proof unfold_locales
    fix g p e q
    assume r: "parse (Suc n) g p = Some (e, q)" and g: "g \<noteq> Expr 0"
    show "step p q \<and> (good p \<longrightarrow> progress p q) \<and> (good p \<longrightarrow> 3 * left p + rank g \<le> m \<longrightarrow> parse m g p = Some (e, q))"
    proof (cases "good p")
      case True
      note L = Suc.IH [of "m - 1"]
      have pos: "3 * left p + rank g \<le> m \<Longrightarrow> m = Suc (m - 1)" by (cases g) auto
      show ?thesis
      proof (cases g)
        case (Expr prec)
        then show ?thesis using less_fuel.precedence_fuel [OF L, of n prec p e q] r True pos g by (cases m) auto
      next
        case Stmt
        then show ?thesis using less_fuel.statement_fuel [OF L, of n p e q] r True pos by (cases m) auto
      next
        case Decl
        then show ?thesis using less_fuel.declaration_fuel [OF L, of n p e q] r True pos by (cases m) auto
      qed
    qed (simp add: step_def)
  qed
qed

text \<open>The laws hold for the parser with any two amounts of fuel, so its results are those of the larger one.\<close>

interpretation parser_runs: less_fuel m "parse n" "parse m" for m n
  by (rule parse_less_fuel)

interpretation parser_room: with_room "3 * left p0 + 3" "parse n" "parse (3 * left p0 + 3)" p0 for n p0
  by (rule parser_runs.room_here) simp

lemma parse_step: "parse n g p = Some (e, q) \<Longrightarrow> g \<noteq> Expr 0 \<Longrightarrow> step p q"
  by (rule parser_runs.rec_parts(1))

lemma parse_enough:
  assumes "parse_source n source = Some (e, q)" "3 * length source + 3 \<le> m"
  shows "parse_source m source = Some (e, q)"
proof -
  obtain p1 b p2 where 1: "parser_advance (slp_parser_init source) = Some p1" "match_token (Tok TOKEN_EOF) p1 = Some (b, p2)"
      "(if b then Some (No_node, p2)
        else do { (ss, p) \<leftarrow> script_statements n (parse n) p2; Some (Script (new_line p2) ss, p) }) = Some (e, q)"
    using assms(1) unfolding parse_source_def slp_parser_parse_def Let_def by (auto elim!: bind_resultE)
  show ?thesis
  proof (cases b)
    case True
    then show ?thesis using 1 by (simp add: parse_source_def slp_parser_parse_def)
  next
    case False
    then have p2: "p2 = p1" using match_step [OF 1(2)] by simp
    have a: "good p1" "left p1 \<le> length source" using first_advance [OF 1(1)] by simp_all
    obtain ss where ss: "script_statements n (parse n) p1 = Some (ss, q)" "e = Script (new_line p1) ss"
      using 1(3) False p2 by (auto elim!: bind_resultE)
    have "with_room m (parse n) (parse m) p1" using a(2) assms(2) by (intro parser_runs.room_here) simp
    from with_room.script_statements_fuel [OF this ss(1)] along_refl [OF a(1)]
    have "script_statements m (parse m) p1 = Some (ss, q)" using a(2) assms(2) by simp
    then show ?thesis using 1 False p2 ss(2) by (simp add: parse_source_def slp_parser_parse_def Let_def)
  qed
qed

end
