(* ===== verification/Parser_Trees.thy ===== *)
theory Parser_Trees
  imports Parser_Fuel
begin

text \<open>
  The parser builds the tree that the table of precedences prescribes: an expression of variables and binary
  operators, written with the parentheses the table makes necessary, is read back as that expression.
\<close>

subsection \<open>The tokens ahead\<close>

fun scans_to :: "(slp_token_type \<times> string) list \<Rightarrow> slp_lexer \<Rightarrow> bool" where
  "scans_to [] lx \<longleftrightarrow> True"
| "scans_to ((ty, tx) # ts) lx \<longleftrightarrow>
     (case slp_lexer_scan_token lx of
        None \<Rightarrow> False
      | Some (t, lx) \<Rightarrow> tok_type t = ty \<and> ty \<noteq> Tok TOKEN_ERROR \<and> slp_lexer_copy_lexeme lx t = tx \<and> scans_to ts lx)"

fun ahead :: "(slp_token_type \<times> string) list \<Rightarrow> slp_parser \<Rightarrow> bool" where
  "ahead [] p \<longleftrightarrow> True"
| "ahead ((ty, tx) # ts) p \<longleftrightarrow>
     tok_type (ps_current p) = ty \<and> token_text p (ps_current p) = tx \<and> scans_to ts (ps_lexer p)"

lemma ahead_depth [simp]: "ahead ts (p\<lparr>ps_depth := d\<rparr>) = ahead ts p"
  by (cases ts rule: remdups_adj.cases) (auto simp: token_text_def)

lemma ahead_advance:
  assumes "ahead ((ty, tx) # t2 # ts) p" "good p" "ty \<noteq> Tok TOKEN_EOF"
  obtains q where "parser_advance p = Some q" "ahead (t2 # ts) q" "good q" "left q < left p" "ps_depth q = ps_depth p"
    "ps_had_error q = ps_had_error p" "tok_type (ps_previous q) = ty" "previous_text q = tx"
proof -
  obtain ty2 tx2 where t2: "t2 = (ty2, tx2)" by (cases t2)
  obtain t lx where t: "slp_lexer_scan_token (ps_lexer p) = Some (t, lx)" "tok_type t = ty2" "ty2 \<noteq> Tok TOKEN_ERROR"
      "slp_lexer_copy_lexeme lx t = tx2" "scans_to ts lx"
    using assms(1) by (auto simp: t2 split: option.split_asm)
  let ?q = "p\<lparr>ps_previous := ps_current p, ps_current := t, ps_lexer := lx\<rparr>"
  have q: "parser_advance p = Some ?q" using t by (simp add: parser_advance_def next_token.simps)
  have "\<not> at_eof p" using assms(1,3) by (simp add: check_token_def)
  then have "good ?q" "left ?q < left p" using advance_result [OF q assms(2)] left_eof [OF assms(2)] by auto
  moreover have "ahead (t2 # ts) ?q" using t by (simp add: t2 token_text_def)
  moreover have "lx_source lx = lx_source (ps_lexer p)" using scan_token_moves [OF t(1)] by simp
  then have "previous_text ?q = token_text p (ps_current p)"
    unfolding token_text_def slp_lexer_copy_lexeme_def by (simp cong: token_start.case_cong)
  ultimately show thesis using that [OF q] assms(1) by simp
qed

subsection \<open>Expressions and their tokens\<close>

datatype expr = Variable string | Operation expr "slp_token_type \<times> string" expr

definition precedence :: "slp_token_type \<Rightarrow> nat" where
  "precedence ty = (case get_rule ty of None \<Rightarrow> 0 | Some r \<Rightarrow> rule_precedence r)"

definition is_operator :: "slp_token_type \<Rightarrow> bool" where
  "is_operator ty \<longleftrightarrow>
     (case get_rule ty of None \<Rightarrow> False | Some r \<Rightarrow> rule_infix r = Some Binary \<or> rule_infix r = Some Logical)"

text \<open>
  An operation of precedence \<open>j\<close> has parentheses where the place asks for a higher one; the left operand may
  have the same precedence, the right one not.
\<close>

fun tokens_of :: "nat \<Rightarrow> expr \<Rightarrow> (slp_token_type \<times> string) list" where
  "tokens_of k (Variable s) = [(Tok TOKEN_SCALAR, CHR ''$'' # s)]"
| "tokens_of k (Operation l op r) =
     (let j = precedence (fst op); body = tokens_of j l @ op # tokens_of (j + 1) r
      in if j < k then (Sym TOKEN_LEFT_PAREN, ''('') # body @ [(Sym TOKEN_RIGHT_PAREN, '')'')] else body)"

text \<open>How deep the calls of \<open>parse_precedence\<close> nest.\<close>

fun nesting :: "nat \<Rightarrow> expr \<Rightarrow> nat" where
  "nesting k (Variable s) = 1"
| "nesting k (Operation l op r) =
     (let j = precedence (fst op); body = max (nesting j l) (1 + nesting (j + 1) r) in if j < k then 1 + body else body)"

fun operators_in :: "expr \<Rightarrow> slp_token_type set" where
  "operators_in (Variable s) = {}"
| "operators_in (Operation l op r) = operators_in l \<union> {fst op} \<union> operators_in r"

text \<open>The expression a node stands for.\<close>

fun expr_of :: "ast \<Rightarrow> expr option" where
  "expr_of (Scalar _ (Some s)) = Some (Variable s)"
| "expr_of (Binop _ l op r False) =
     (case (expr_of l, expr_of r) of (Some l, Some r) \<Rightarrow> Some (Operation l op r) | _ \<Rightarrow> None)"
| "expr_of _ = None"

lemma tokens_nonempty: "tokens_of k e \<noteq> []"
  by (cases e) (simp_all add: Let_def)

lemma nesting_positive: "0 < nesting k e"
  by (cases e) (simp_all add: Let_def less_max_iff_disj)

lemma operator_rule:
  assumes "is_operator ty"
  obtains r where "get_rule ty = Some r" "rule_precedence r = precedence ty" "rule_infix r = Some Binary \<or> rule_infix r = Some Logical"
  using assms by (auto simp: is_operator_def precedence_def split: option.split_asm)

lemma operator_precedence: "is_operator ty \<Longrightarrow> 0 < precedence ty"
proof (cases ty)
  case (Sym s)
  then show "is_operator ty \<Longrightarrow> 0 < precedence ty"
    by (cases s) (simp_all add: is_operator_def precedence_def get_rule_def rule_def)
next
  case (Kw k)
  then show "is_operator ty \<Longrightarrow> 0 < precedence ty"
    by (cases k) (simp_all add: is_operator_def precedence_def get_rule_def rule_def)
next
  case (Tok t)
  then show "is_operator ty \<Longrightarrow> 0 < precedence ty"
    by (cases t) (simp_all add: is_operator_def precedence_def get_rule_def rule_def)
qed (simp add: is_operator_def get_rule_def rule_def)

lemma operator_not_eof_or_assignment: "is_operator ty \<Longrightarrow> ty \<noteq> Tok TOKEN_EOF \<and> ty \<noteq> Sym TOKEN_RIGHT_PAREN"
  by (auto simp: is_operator_def get_rule_def rule_def)

text \<open>What may follow: a token that is no assignment and binds no tighter than \<open>k\<close>.\<close>

definition ends_operand :: "nat \<Rightarrow> (slp_token_type \<times> string) list \<Rightarrow> bool" where
  "ends_operand k ts \<longleftrightarrow>
     (case ts of
        [] \<Rightarrow> False
      | (ty, _) # _ \<Rightarrow> get_rule ty \<noteq> None \<and> precedence ty \<le> k \<and> ty \<noteq> Sym TOKEN_EQUAL \<and> ty \<noteq> Tok TOKEN_EXPEQUAL \<and> (\<forall>a. ty \<noteq> Asg a))"

lemma ends_operand_stop:
  assumes "ahead ts p" "ends_operand k ts"
  shows "\<exists>r. get_rule (tok_type (ps_current p)) = Some r \<and> rule_precedence r \<le> k" "\<not> followed_by_assignment p"
proof -
  obtain ty tx ts' where ts: "ts = (ty, tx) # ts'" using assms(2) by (cases ts) (auto simp: ends_operand_def)
  have ty: "tok_type (ps_current p) = ty" "get_rule ty \<noteq> None" "precedence ty \<le> k" "ty \<noteq> Sym TOKEN_EQUAL" "ty \<noteq> Tok TOKEN_EXPEQUAL"
      "\<forall>a. ty \<noteq> Asg a"
    using assms by (simp_all add: ts ends_operand_def)
  show "\<exists>r. get_rule (tok_type (ps_current p)) = Some r \<and> rule_precedence r \<le> k"
    using ty by (auto simp: precedence_def)
  show "\<not> followed_by_assignment p" using ty by (auto simp: followed_by_assignment_def split: slp_token_type.split)
qed

lemma operator_ends: "is_operator ty \<Longrightarrow> ends_operand (precedence ty) ((ty, tx) # ts)"
  by (cases ty) (auto simp: ends_operand_def is_operator_def get_rule_def rule_def split: option.split_asm)

lemma paren_ends: "ends_operand k ((Sym TOKEN_RIGHT_PAREN, '')'') # ts)"
  by (simp add: ends_operand_def precedence_def get_rule_def rule_def)

text \<open>An expression has been read: the node stands for it, and the rest is ahead.\<close>

definition reads :: "slp_parser \<Rightarrow> slp_parser \<Rightarrow> ast \<Rightarrow> expr \<Rightarrow> (slp_token_type \<times> string) list \<Rightarrow> bool" where
  "reads p q node e rest \<longleftrightarrow>
     good q \<and> ahead rest q \<and> left q < left p \<and> ps_depth q = ps_depth p \<and> \<not> ps_had_error q \<and> expr_of node = Some e"

definition climbs :: "nat \<Rightarrow> nat \<Rightarrow> slp_parser \<Rightarrow> expr \<Rightarrow> (slp_token_type \<times> string) list \<Rightarrow> bool" where
  "climbs n prec p e rest \<longleftrightarrow>
     (\<exists>node q t. parse_precedence_inner n (parse n) prec p = infix_loop t n (parse n) prec node q \<and>
        reads p q node e rest \<and> left q < t)"

lemma expr_of_juxtapose: "expr_of node = Some e \<Longrightarrow> juxtapose n node p = Some (node, p)"
  unfolding juxtapose_def Let_def by (cases node) auto

lemma read_operand:
  assumes "climbs n prec (p\<lparr>ps_depth := ps_depth p + 1\<rparr>) e rest" "ends_operand k rest" "k < prec" "ps_depth p < SLP_PARSER_MAX_DEPTH"
  obtains node q where "parse (Suc n) (Expr prec) p = Some (node, q)" "reads p q node e rest"
proof -
  let ?p = "p\<lparr>ps_depth := ps_depth p + 1\<rparr>"
  obtain node q t where c: "parse_precedence_inner n (parse n) prec ?p = infix_loop t n (parse n) prec node q"
      "reads ?p q node e rest" "left q < t"
    using assms(1) by (auto simp: climbs_def)
  obtain r where r: "get_rule (tok_type (ps_current q)) = Some r" "rule_precedence r \<le> k"
    using ends_operand_stop(1) [OF _ assms(2), of q] c(2) by (auto simp: reads_def)
  obtain t' where "t = Suc t'" using c(3) by (cases t) auto
  then have "infix_loop t n (parse n) prec node q = Some (node, q)" using r assms(3) by simp
  then have "parse (Suc n) (Expr prec) p = Some (node, q\<lparr>ps_depth := ps_depth q - 1\<rparr>)"
    using c(1) assms(4) by (simp add: parse_precedence_def nested_def)
  moreover have "reads p (q\<lparr>ps_depth := ps_depth q - 1\<rparr>) node e rest" using c(2) by (simp add: reads_def)
  ultimately show thesis by (rule that)
qed

lemma climb_variable:
  assumes "ahead ((Tok TOKEN_SCALAR, CHR ''$'' # s) # rest) p" "rest \<noteq> []" "good p" "\<not> ps_had_error p" "3 * left p \<le> n"
  shows "climbs n prec p (Variable s) rest"
proof -
  obtain t2 ts where rest: "rest = t2 # ts" using assms(2) by (cases rest) auto
  obtain q where q: "parser_advance p = Some q" "ahead rest q" "good q" "left q < left p" "ps_depth q = ps_depth p"
      "ps_had_error q = ps_had_error p" "tok_type (ps_previous q) = Tok TOKEN_SCALAR" "previous_text q = CHR ''$'' # s"
    using ahead_advance [OF assms(1) [unfolded rest] assms(3)] rest by auto
  let ?node = "Scalar (new_line q) (Some s)"
  have "parse_precedence_inner n (parse n) prec p = infix_loop n n (parse n) prec ?node q"
    using q by (simp add: parse_precedence_inner_def get_rule_def rule_def scalar_def previous_name_def expr_of_juxtapose [of _ "Variable s"])
  moreover have "reads p q ?node (Variable s) rest" using q assms(4) by (simp add: reads_def)
  ultimately show ?thesis using q(4) assms(5) unfolding climbs_def by (intro exI [of _ ?node] exI [of _ q] exI [of _ n]) simp
qed

lemma climb_operation:
  assumes l: "climbs n prec p l ((ty, tx) # tokens_of (j + 1) r @ rest)" and op: "is_operator ty" "j = precedence ty"
    and r: "\<And>q. ahead (tokens_of (j + 1) r @ rest) q \<Longrightarrow> good q \<Longrightarrow> \<not> ps_had_error q \<Longrightarrow> ps_depth q = ps_depth p + 1 \<Longrightarrow>
        left q < left p \<Longrightarrow> climbs (n - 1) (j + 1) q r rest"
    and other: "ends_operand k rest" "k \<le> j" "prec \<le> j" "ps_depth p < SLP_PARSER_MAX_DEPTH" "3 * left p \<le> n"
  shows "climbs n prec p (Operation l (ty, tx) r) rest"
proof -
  obtain lnode q1 t where c: "parse_precedence_inner n (parse n) prec p = infix_loop t n (parse n) prec lnode q1"
      "reads p q1 lnode l ((ty, tx) # tokens_of (j + 1) r @ rest)" "left q1 < t"
    using l by (auto simp: climbs_def)
  obtain t' where t: "t = Suc t'" using c(3) by (cases t) auto
  obtain a ts where more: "tokens_of (j + 1) r @ rest = a # ts"
    using tokens_nonempty [of "j + 1" r] by (cases "tokens_of (j + 1) r @ rest") auto
  have q1: "ahead ((ty, tx) # a # ts) q1" "good q1" "left q1 < left p" "ps_depth q1 = ps_depth p" "\<not> ps_had_error q1" "expr_of lnode = Some l"
    using c(2) more by (simp_all add: reads_def)
  obtain q2 where q2: "parser_advance q1 = Some q2" "ahead (a # ts) q2" "good q2" "left q2 < left q1" "ps_depth q2 = ps_depth q1"
      "ps_had_error q2 = ps_had_error q1" "tok_type (ps_previous q2) = ty" "previous_text q2 = tx"
    using ahead_advance [OF q1(1,2)] operator_not_eof_or_assignment [OF op(1)] by blast
  obtain n' where n: "n = Suc n'" using other(5) q1(3) by (cases n) auto
  have "climbs n' (j + 1) (q2\<lparr>ps_depth := ps_depth q2 + 1\<rparr>) r rest"
    using r [of "q2\<lparr>ps_depth := ps_depth q2 + 1\<rparr>"] q2 q1 more n by simp
  then obtain rnode q3 where q3: "parse n (Expr (j + 1)) q2 = Some (rnode, q3)" "reads q2 q3 rnode r rest"
    using read_operand [of n' "j + 1" q2 r rest k] other q2(5) q1(4) unfolding n by auto
  obtain rl where rl: "get_rule ty = Some rl" "rule_precedence rl = j" "rule_infix rl = Some Binary \<or> rule_infix rl = Some Logical"
    using operator_rule [OF op(1)] op(2) by blast
  obtain f where f: "rule_infix rl = Some f" "f = Binary \<or> f = Logical" using rl(3) by auto
  obtain line where node: "infix_expr n (parse n) f lnode q2 = Some (Binop line lnode (ty, tx) rnode False, q3)"
    using f(2) q3(1) rl q2(7,8) by (auto simp: binary_def logical_def token_op_def)
  let ?node = "Binop line lnode (ty, tx) rnode False"
  have "infix_loop t n (parse n) prec lnode q1 = infix_loop t' n (parse n) prec ?node q3"
    using q1(1,5) rl f(1) node q2(1) other(3) by (simp add: t)
  moreover have "reads p q3 ?node (Operation l (ty, tx) r) rest"
    using q3(2) q1 q2 by (simp add: reads_def)
  moreover have "left q3 < t'" using q3(2) q2(4) c(3) by (simp add: reads_def t)
  ultimately show ?thesis using c(1) unfolding climbs_def by (metis)
qed

lemma climb_group:
  assumes b: "\<And>q. ahead (ts @ (Sym TOKEN_RIGHT_PAREN, '')'') # rest) q \<Longrightarrow> good q \<Longrightarrow> \<not> ps_had_error q \<Longrightarrow>
        ps_depth q = ps_depth p + 1 \<Longrightarrow> left q < left p \<Longrightarrow> climbs (n - 1) PREC_ASSIGNMENT q e ((Sym TOKEN_RIGHT_PAREN, '')'') # rest)"
    and p: "ahead ((Sym TOKEN_LEFT_PAREN, ''('') # ts @ (Sym TOKEN_RIGHT_PAREN, '')'') # rest) p" "good p" "\<not> ps_had_error p"
    and other: "ends_operand k rest" "ps_depth p < SLP_PARSER_MAX_DEPTH" "3 * left p \<le> n"
  shows "climbs n prec p e rest"
proof -
  obtain a as where more: "ts @ (Sym TOKEN_RIGHT_PAREN, '')'') # rest = a # as" by (cases ts) auto
  obtain c cs where rest: "rest = c # cs" using other(1) by (cases rest) (auto simp: ends_operand_def)
  obtain q where q: "parser_advance p = Some q" "ahead (a # as) q" "good q" "left q < left p" "ps_depth q = ps_depth p"
      "ps_had_error q = ps_had_error p" "tok_type (ps_previous q) = Sym TOKEN_LEFT_PAREN"
    using ahead_advance [OF p(1) [unfolded more] p(2)] by auto
  obtain n' where n: "n = Suc n'" using other(3) q(4) by (cases n) auto
  have "climbs n' PREC_ASSIGNMENT (q\<lparr>ps_depth := ps_depth q + 1\<rparr>) e ((Sym TOKEN_RIGHT_PAREN, '')'') # rest)"
    using b [of "q\<lparr>ps_depth := ps_depth q + 1\<rparr>"] q p(3) more n by simp
  then obtain node q1 where q1: "expression (parse n) q = Some (node, q1)" "reads q q1 node e ((Sym TOKEN_RIGHT_PAREN, '')'') # rest)"
    using read_operand [OF _ paren_ends [of 0 rest], of n' PREC_ASSIGNMENT q e] other(2) q(5) unfolding n expression_def by auto
  have h1: "ahead ((Sym TOKEN_RIGHT_PAREN, '')'') # c # cs) q1" "good q1" "left q1 < left q" "ps_depth q1 = ps_depth q" "\<not> ps_had_error q1"
      "expr_of node = Some e"
    using q1(2) rest by (simp_all add: reads_def)
  obtain q2 where q2: "parser_advance q1 = Some q2" "ahead rest q2" "good q2" "left q2 < left q1" "ps_depth q2 = ps_depth q1"
      "ps_had_error q2 = ps_had_error q1"
    using ahead_advance [OF h1(1,2)] rest by auto
  have "consume (Sym TOKEN_RIGHT_PAREN) s q1 = Some q2" for s using h1(1) q2(1) by (simp add: consume_def)
  moreover have "\<not> at TOKEN_COMMA q1" using h1(1) by (simp add: check_token_def)
  ultimately have "grouping n (parse n) q = Some (node, q2)"
    using q1(1) ends_operand_stop(2) [OF q2(2) other(1)] by (simp add: grouping_def)
  then have "parse_precedence_inner n (parse n) prec p = infix_loop n n (parse n) prec node q2"
    using q(1,7) expr_of_juxtapose [OF h1(6)] by (simp add: parse_precedence_inner_def get_rule_def rule_def)
  moreover have "reads p q2 node e rest" using q q2 h1 by (simp add: reads_def)
  moreover have "left q2 < n" using q2(4) h1(3) q(4) other(3) by simp
  ultimately show ?thesis unfolding climbs_def by blast
qed

lemma climb_expression:
  assumes "ahead (tokens_of k e @ rest) p" "ends_operand k rest" "good p" "\<not> ps_had_error p" "prec \<le> k" "0 < prec"
    "\<forall>ty\<in>operators_in e. is_operator ty" "ps_depth p + nesting k e \<le> SLP_PARSER_MAX_DEPTH + 1" "3 * left p \<le> n"
  shows "climbs n prec p e rest"
  using assms
proof (induction e arbitrary: k prec rest p n)
  case (Variable s)
  have "rest \<noteq> []" using Variable.prems(2) by (auto simp: ends_operand_def)
  then show ?case using Variable.prems by (intro climb_variable) simp_all
next
  case (Operation l op r)
  obtain ty tx where op: "op = (ty, tx)" by (cases op)
  let ?j = "precedence ty"
  have ops: "is_operator ty" "\<forall>ty\<in>operators_in l. is_operator ty" "\<forall>ty\<in>operators_in r. is_operator ty"
    using Operation.prems(7) by (simp_all add: op)
  have body: "climbs n prec p (Operation l op r) rest"
    if "ahead (tokens_of ?j l @ op # tokens_of (?j + 1) r @ rest) p" "ends_operand k rest" "k \<le> ?j" "good p" "\<not> ps_had_error p" "prec \<le> ?j"
      "0 < prec" "ps_depth p + max (nesting ?j l) (1 + nesting (?j + 1) r) \<le> SLP_PARSER_MAX_DEPTH + 1" "3 * left p \<le> n"
    for k prec rest p n
    unfolding op
  proof (rule climb_operation)
    have depth: "ps_depth p + nesting ?j l \<le> SLP_PARSER_MAX_DEPTH + 1" "ps_depth p + 1 + nesting (?j + 1) r \<le> SLP_PARSER_MAX_DEPTH + 1"
      using that(8) by linarith+
    show "climbs n prec p l ((ty, tx) # tokens_of (?j + 1) r @ rest)"
      using that ops(2) operator_ends [OF ops(1)] depth(1) by (intro Operation.IH(1)) (simp_all add: op)
    show "ps_depth p < SLP_PARSER_MAX_DEPTH" using depth(2) nesting_positive [of "?j + 1" r] by simp
    fix q assume q: "ahead (tokens_of (?j + 1) r @ rest) q" "good q" "\<not> ps_had_error q" "ps_depth q = ps_depth p + 1" "left q < left p"
    have "ends_operand (?j + 1) rest" using that(2,3) by (auto simp: ends_operand_def split: list.split_asm)
    then show "climbs (n - 1) (?j + 1) q r rest" using q that ops(3) depth(2) by (intro Operation.IH(2)) simp_all
  qed (use that ops(1) in simp_all)
  show ?case
  proof (cases "?j < k")
    case False
    then show ?thesis using Operation.prems by (intro body [of rest p k prec n]) (simp_all add: op Let_def)
  next
    case True
    let ?ts = "tokens_of ?j l @ op # tokens_of (?j + 1) r"
    have ahead_p: "ahead ((Sym TOKEN_LEFT_PAREN, ''('') # ?ts @ (Sym TOKEN_RIGHT_PAREN, '')'') # rest) p"
      using Operation.prems(1) True by (simp add: op Let_def)
    have depth: "ps_depth p + 1 + max (nesting ?j l) (1 + nesting (?j + 1) r) \<le> SLP_PARSER_MAX_DEPTH + 1"
      using Operation.prems(8) True by (simp add: op Let_def)
    show ?thesis
    proof (rule climb_group [OF _ ahead_p Operation.prems(3,4,2) _ Operation.prems(9)])
      show "ps_depth p < SLP_PARSER_MAX_DEPTH" using depth by simp
      fix q assume q: "ahead (?ts @ (Sym TOKEN_RIGHT_PAREN, '')'') # rest) q" "good q" "\<not> ps_had_error q" "ps_depth q = ps_depth p + 1"
          "left q < left p"
      show "climbs (n - 1) PREC_ASSIGNMENT q (Operation l op r) ((Sym TOKEN_RIGHT_PAREN, '')'') # rest)"
        using q depth Operation.prems(9) operator_precedence [OF ops(1)] paren_ends [of 0 rest]
        by (intro body [of _ q 0]) simp_all
    qed
  qed
qed

subsection \<open>A whole source\<close>

lemma advance_at_end:
  assumes "good p" "at_eof p"
  shows "\<exists>q. parser_advance p = Some q \<and> ps_had_error q = ps_had_error p"
proof -
  let ?lx = "ps_lexer p"
  have "cread (lx_source ?lx) (lx_current ?lx) = Some NUL" by (rule good_end [OF assms])
  moreover from this have "skip_whitespace ?lx = Some ?lx" by (subst skip_whitespace.simps) (simp add: peek_def)
  ultimately have "slp_lexer_scan_token ?lx =
      emit (Tok TOKEN_EOF) (?lx\<lparr>lx_start := lx_current ?lx, lx_start_line := lx_line ?lx\<rparr>)"
    by (simp add: slp_lexer_scan_token_def scan_first_def is_at_end_def peek_def)
  then show ?thesis by (simp add: parser_advance_def next_token.simps emit_def make_token_def Let_def)
qed

lemma ahead_init:
  assumes "scans_to ((ty, tx) # ts) (slp_lexer_init source)"
  obtains p where "parser_advance (slp_parser_init source) = Some p" "ahead ((ty, tx) # ts) p" "\<not> ps_had_error p"
proof -
  let ?p = "slp_parser_init source"
  have lx: "ps_lexer ?p = slp_lexer_init source" "\<not> ps_had_error ?p" by (simp_all add: slp_parser_init_def Let_def)
  obtain t lx' where t: "slp_lexer_scan_token (slp_lexer_init source) = Some (t, lx')" "tok_type t = ty"
      "ty \<noteq> Tok TOKEN_ERROR" "slp_lexer_copy_lexeme lx' t = tx" "scans_to ts lx'"
    using assms by (auto split: option.split_asm)
  let ?q = "?p\<lparr>ps_previous := ps_current ?p, ps_current := t, ps_lexer := lx'\<rparr>"
  have "parser_advance ?p = Some ?q" using t lx by (simp add: parser_advance_def next_token.simps)
  moreover have "ahead ((ty, tx) # ts) ?q" using t by (simp add: token_text_def)
  ultimately show thesis by (rule that) (simp add: lx)
qed

lemma first_token: "\<exists>t ts. tokens_of k e @ rest = t # ts \<and> (fst t = Tok TOKEN_SCALAR \<or> fst t = Sym TOKEN_LEFT_PAREN)"
  by (induction e arbitrary: k rest) (auto simp: Let_def)

lemma statement_of_expression:
  assumes p: "ahead (tokens_of 1 e @ [(Sym TOKEN_SEMICOLON, '';''), (Tok TOKEN_EOF, [])]) p" "good p" "\<not> ps_had_error p" "ps_depth p = 0"
    and ops: "\<forall>ty\<in>operators_in e. is_operator ty" and other: "nesting 1 e < SLP_PARSER_MAX_DEPTH" "3 * left p + 3 \<le> m"
  obtains node q where "parse m Decl p = Some (node, q)" "expr_of node = Some e" "good q" "at_eof q" "\<not> ps_had_error q"
proof -
  let ?rest = "[(Sym TOKEN_SEMICOLON, '';''), (Tok TOKEN_EOF, [])]"
  obtain n where m: "m = Suc (Suc (Suc n))" "3 * left p \<le> n"
    by (rule that [of "m - 3"]) (use other(2) in arith)+
  obtain t ts where t: "tokens_of 1 e @ ?rest = t # ts" "fst t = Tok TOKEN_SCALAR \<or> fst t = Sym TOKEN_LEFT_PAREN"
    using first_token [of 1 e ?rest] by blast
  then have ty: "tok_type (ps_current p) = Tok TOKEN_SCALAR \<or> tok_type (ps_current p) = Sym TOKEN_LEFT_PAREN"
    using p(1) by (cases t) simp
  let ?p = "p\<lparr>ps_depth := 1\<rparr>"
  have "climbs n PREC_ASSIGNMENT (?p\<lparr>ps_depth := ps_depth ?p + 1\<rparr>) e ?rest"
  proof (rule climb_expression [where k = 1])
    show "ahead (tokens_of 1 e @ ?rest) (?p\<lparr>ps_depth := ps_depth ?p + 1\<rparr>)" using p(1) by simp
    show "ends_operand 1 ?rest" by (simp add: ends_operand_def precedence_def get_rule_def rule_def)
  qed (use p ops other m in simp_all)
  then obtain node q where q: "parse (Suc n) (Expr PREC_ASSIGNMENT) ?p = Some (node, q)" "reads ?p q node e ?rest"
    by (rule read_operand [where k = 0]) (simp_all add: ends_operand_def precedence_def get_rule_def rule_def)
  have q': "ahead ?rest q" "good q" "\<not> ps_had_error q" "expr_of node = Some e" using q(2) by (simp_all add: reads_def)
  obtain r where r: "parser_advance q = Some r" "ahead [(Tok TOKEN_EOF, [])] r" "good r" "ps_had_error r = ps_had_error q"
    using ahead_advance [OF q'(1,2)] by auto
  have "expression_statement (parse (Suc n)) ?p = Some (node, r)"
    using q(1) q'(1) r(1,2) by (simp add: expression_statement_def expression_def match_token_def check_token_def)
  then have "statement_inner (Suc n) (parse (Suc n)) ?p = Some (node, r)"
    using ty by (auto simp: statement_inner_def keyword_statement_def check_token_def)
  then have "parse (Suc (Suc n)) Stmt p = Some (node, r\<lparr>ps_depth := ps_depth r - 1\<rparr>)"
    using p(4) by (simp add: statement_def nested_def)
  then have "parse m Decl p = Some (node, r\<lparr>ps_depth := ps_depth r - 1\<rparr>)"
    unfolding m(1) using ty by (auto simp: parse_declaration_def starts_inline_def starts_bridge_def check_token_def)
  then show thesis by (rule that) (use q' r in \<open>simp_all add: check_token_def\<close>)
qed

lemma expression_source:
  assumes "scans_to (tokens_of 1 e @ [(Sym TOKEN_SEMICOLON, '';''), (Tok TOKEN_EOF, [])]) (slp_lexer_init source)"
    "\<forall>ty\<in>operators_in e. is_operator ty" "nesting 1 e < SLP_PARSER_MAX_DEPTH" "3 * length source + 3 \<le> m"
  shows "\<exists>line node p. parse_source m source = Some (Script line [node], p) \<and> expr_of node = Some e \<and> \<not> ps_had_error p"
proof -
  let ?ts = "tokens_of 1 e @ [(Sym TOKEN_SEMICOLON, '';''), (Tok TOKEN_EOF, [])]"
  obtain ty tx ts where t: "?ts = (ty, tx) # ts" "ty \<noteq> Tok TOKEN_EOF" 
    using first_token [of 1 e "[(Sym TOKEN_SEMICOLON, '';''), (Tok TOKEN_EOF, [])]"] by force
  obtain p where p: "parser_advance (slp_parser_init source) = Some p" "ahead ?ts p" "\<not> ps_had_error p"
    using ahead_init [OF assms(1) [unfolded t]] unfolding t by metis
  have eof: "\<not> at_eof p" using p(2) t by (simp add: check_token_def)
  note g = first_advance [OF p(1)]
  obtain node q where q: "parse m Decl p = Some (node, q)" "expr_of node = Some e" "good q" "at_eof q" "\<not> ps_had_error q"
    by (rule statement_of_expression [OF p(2) _ p(3), where m = m]) (use g assms in simp_all)
  obtain r where r: "parser_advance q = Some r" "ps_had_error r = ps_had_error q" using advance_at_end [OF q(3,4)] by blast
  obtain m' where m: "m = Suc (Suc m')" by (rule that [of "m - 2"]) (use assms(4) in arith)
  have "node \<noteq> No_node" using q(2) by auto
  then have "script_statements m (parse m) p = Some ([node], r)"
    using q(1,4) r(1) p(3) eof unfolding m by (simp add: match_token_def check_token_def)
  then show ?thesis using p(1) eof q(2,5) r(2)
    by (auto simp: parse_source_def slp_parser_parse_def match_token_def check_token_def Let_def)
qed

end
