(* ===== verification/Parser_Props.thy ===== *)
theory Parser_Props
  imports Parser_Trees
begin


text \<open>C8: the parser builds the tree that the table of precedences prescribes. A source whose tokens are those of an
  expression of variables and binary or logical operators, with parentheses where an operand would bind weaker than
  its place asks for (left operands may have the same precedence, right operands not), and a semicolon, is a script of
  that one expression, without an error, as long as the nesting stays below the limit.\<close>

theorem expression_parsed:
  assumes "scans_to (tokens_of 1 e @ [(Sym TOKEN_SEMICOLON, '';''), (Tok TOKEN_EOF, [])]) (slp_lexer_init source)"
    "\<forall>ty\<in>operators_in e. is_operator ty" "nesting 1 e < SLP_PARSER_MAX_DEPTH" "3 * length source + 3 \<le> fuel"
  shows "\<exists>line node p. parse_source fuel source = Some (Script line [node], p) \<and> expr_of node = Some e \<and> \<not> ps_had_error p"
  by (rule expression_source [OF assms])

definition example_expr :: expr where
  "example_expr =
     Operation (Operation (Variable ''a'') (Sym TOKEN_MINUS, ''-'') (Variable ''b'')) (Sym TOKEN_MINUS, ''-'')
       (Operation (Variable ''c'') (Sym TOKEN_STAR, ''*'') (Operation (Variable ''d'') (Tok TOKEN_LAND, ''&&'') (Variable ''e'')))"

lemma expression_parsed_witness:
  "\<exists>line node p. parse_source 93 ''$a - $b - $c * ($d && $e);'' = Some (Script line [node], p) \<and>
     expr_of node = Some example_expr \<and> \<not> ps_had_error p"
proof (rule expression_parsed)
  show "scans_to (tokens_of 1 example_expr @ [(Sym TOKEN_SEMICOLON, '';''), (Tok TOKEN_EOF, [])])
          (slp_lexer_init ''$a - $b - $c * ($d && $e);'')" by code_simp
  show "\<forall>ty\<in>operators_in example_expr. is_operator ty" by code_simp
  show "nesting 1 example_expr < SLP_PARSER_MAX_DEPTH" by code_simp
qed simp








text \<open>
  Of two strings that stand next to each other the first is joined with the source text of the second, quotes
  included.\<close>

theorem joined_strings_keep_quotes:
  "map_option fst (parse_source 100 ([CHR 0x22, CHR ''a'', CHR 0x22, CHR '' '', CHR 0x22, CHR ''b'', CHR 0x22, CHR '';'']))
     = Some (Script 0 [Str 1 (Some [CHR ''a'', CHR 0x22, CHR ''b'', CHR 0x22])])"
  by code_simp

end
