(* ===== verification/Formatter.thy ===== *)
theory Formatter
  imports Ast "HOL-Library.Char_ord"
begin

text \<open>
  The formatter of \<^verbatim>\<open>src/slp_ast.c\<close>: the source text of a syntax tree. The string buffer is the text that is
  appended to it. A text member that is null where the code reads it is undefined, as is the type of a missing
  statement. Every node that the parser makes has the text of its operator, so the branches for a token without
  one are left out.
\<close>

subsection \<open>Precedence of a node\<close>

abbreviation (input) "AST_PREC_ASSIGNMENT \<equiv> 30 :: nat"
abbreviation (input) "AST_PREC_LOR \<equiv> 31 :: nat"
abbreviation (input) "AST_PREC_LAND \<equiv> 32 :: nat"
abbreviation (input) "AST_PREC_BIT_OR \<equiv> 33 :: nat"
abbreviation (input) "AST_PREC_BIT_XOR \<equiv> 34 :: nat"
abbreviation (input) "AST_PREC_BIT_AND \<equiv> 35 :: nat"
abbreviation (input) "AST_PREC_EQUALITY \<equiv> 36 :: nat"
abbreviation (input) "AST_PREC_COMPARISON \<equiv> 37 :: nat"
abbreviation (input) "AST_PREC_SHIFT \<equiv> 38 :: nat"
abbreviation (input) "AST_PREC_CONCAT \<equiv> 39 :: nat"
abbreviation (input) "AST_PREC_TERM \<equiv> 40 :: nat"
abbreviation (input) "AST_PREC_FACTOR \<equiv> 41 :: nat"
abbreviation (input) "AST_PREC_UNARY \<equiv> 42 :: nat"
abbreviation (input) "AST_PREC_EXP \<equiv> 44 :: nat"
abbreviation (input) "AST_PREC_PRIMARY \<equiv> 46 :: nat"

text \<open>An operator is recognised by its text, and one that is not in the list binds like a primary.\<close>

definition operator_levels :: "(string \<times> nat) list" where
  "operator_levels =
     [(''**'', AST_PREC_EXP), (''<<'', AST_PREC_SHIFT), (''>>'', AST_PREC_SHIFT), (''.'', AST_PREC_CONCAT),
      (''+'', AST_PREC_TERM), (''-'', AST_PREC_TERM), (''*'', AST_PREC_FACTOR), (''/'', AST_PREC_FACTOR),
      (''%'', AST_PREC_FACTOR), (''x'', AST_PREC_FACTOR), (''&'', AST_PREC_BIT_AND), (''|'', AST_PREC_BIT_OR),
      (''^'', AST_PREC_BIT_XOR), (''&&'', AST_PREC_LAND), (''||'', AST_PREC_LOR), (''and'', AST_PREC_LAND),
      (''or'', AST_PREC_LOR), (''in'', AST_PREC_COMPARISON), (''isin'', AST_PREC_EQUALITY), (''is'', AST_PREC_EQUALITY),
      (''eq'', AST_PREC_EQUALITY), (''ne'', AST_PREC_EQUALITY), (''gt'', AST_PREC_COMPARISON),
      (''ge'', AST_PREC_COMPARISON), (''lt'', AST_PREC_COMPARISON), (''le'', AST_PREC_COMPARISON),
      (''=~'', AST_PREC_EQUALITY), (''!=~'', AST_PREC_EQUALITY), (''<=>'', AST_PREC_EQUALITY),
      (''=='', AST_PREC_EQUALITY), (''!='', AST_PREC_EQUALITY), (''ismatch'', AST_PREC_EQUALITY),
      (''hasmatch'', AST_PREC_EQUALITY), (''iswm'', AST_PREC_EQUALITY), (''isa'', AST_PREC_COMPARISON),
      (''<'', AST_PREC_COMPARISON), (''>'', AST_PREC_COMPARISON)]"

definition operator_level :: "string \<Rightarrow> nat" where
  "operator_level op = (case map_of operator_levels op of Some level \<Rightarrow> level | None \<Rightarrow> AST_PREC_PRIMARY)"

definition get_node_precedence :: "ast \<Rightarrow> nat" where
  "get_node_precedence node =
     (case node of
        Assignment _ _ _ _ \<Rightarrow> AST_PREC_ASSIGNMENT
      | Unaryop _ _ _ _ \<Rightarrow> AST_PREC_UNARY
      | Binop _ _ op _ _ \<Rightarrow> operator_level (snd op)
      | _ \<Rightarrow> AST_PREC_PRIMARY)"

subsection \<open>Pieces of text\<close>

abbreviation (input) quote_char :: char where "quote_char \<equiv> CHR 0x22"

fun join_texts :: "string \<Rightarrow> string list \<Rightarrow> string" where
  "join_texts sep [] = []"
| "join_texts sep [s] = s"
| "join_texts sep (s # t # ss) = s @ sep @ join_texts sep (t # ss)"

definition append_indent :: "nat \<Rightarrow> string" where
  "append_indent depth = concat (replicate depth ''    '')"

definition parens_if :: "bool \<Rightarrow> string \<Rightarrow> string" where
  "parens_if b s = (if b then ''('' @ s @ '')'' else s)"

text \<open>What follows a statement; declarations, branches, loops and handlers end with their block.\<close>

definition statement_end :: "ast \<Rightarrow> string option" where
  "statement_end node =
     (case node of
        No_node \<Rightarrow> None
      | Env_bridge _ _ _ _ _ \<Rightarrow> Some [] | If _ _ _ _ \<Rightarrow> Some [] | While _ _ _ \<Rightarrow> Some [] | For _ _ _ _ _ \<Rightarrow> Some []
      | Foreach _ _ _ _ _ \<Rightarrow> Some [] | Assign_loop _ _ _ _ \<Rightarrow> Some [] | Try_catch _ _ _ _ \<Rightarrow> Some []
      | _ \<Rightarrow> Some '';'')"

definition with_ends :: "ast list \<Rightarrow> string list \<Rightarrow> string list option" where
  "with_ends ns texts = do { ends \<leftarrow> those (map statement_end ns); Some (map2 (@) texts ends) }"

definition quote_text :: "string \<Rightarrow> string" where
  "quote_text s =
     [quote_char] @ concat (map (\<lambda>c. if c \<in> {quote_char, CHR 0x5C, CHR ''$'', CHR ''@'', CHR ''%''} then [CHR 0x5C, c] else [c]) s) @
     [quote_char]"

definition simple_char :: "char \<Rightarrow> bool" where
  "simple_char c \<longleftrightarrow>
     (CHR ''a'' \<le> c \<and> c \<le> CHR ''z'') \<or> (CHR ''A'' \<le> c \<and> c \<le> CHR ''Z'') \<or> (CHR ''0'' \<le> c \<and> c \<le> CHR ''9'') \<or> c = CHR ''_''"

definition scalar_text :: "string \<Rightarrow> string" where
  "scalar_text s =
     (if s = ''+'' then ''$+''
      else if list_all simple_char s then CHR ''$'' # s
      else [quote_char, CHR ''$''] @ s @ [quote_char])"

definition with_sigil :: "char \<Rightarrow> string \<Rightarrow> string" where
  "with_sigil c s = (if take 1 s = [c] then s else c # s)"

definition address_text :: "string \<Rightarrow> string" where
  "address_text s =
     (if s \<noteq> [] \<and> hd s \<in> {CHR ''&'', CHR ''$'', CHR ''@'', CHR ''%''} then CHR 0x5C # s else CHR ''&'' # s)"

definition number_literal_text :: "bool \<Rightarrow> f64 \<Rightarrow> string" where
  "number_literal_text is_double d =
     (let s = fmt_g17 d
      in if is_double \<and> CHR ''.'' \<notin> set s \<and> CHR ''e'' \<notin> set s \<and> CHR ''E'' \<notin> set s then s @ ''.0'' else s)"

text \<open>
  A unary operator is written behind its operand when it is two characters long and begins with a plus or a
  minus; the flag of the node is not looked at. Words and predicates have a space behind them.
\<close>

definition writes_behind :: "string \<Rightarrow> bool" where
  "writes_behind op \<longleftrightarrow> (hd op = CHR ''+'' \<or> hd op = CHR ''-'') \<and> length op = 2"

definition lower_char :: "char \<Rightarrow> bool" where
  "lower_char c \<longleftrightarrow> CHR ''a'' \<le> c \<and> c \<le> CHR ''z''"

definition space_behind :: "string \<Rightarrow> string" where
  "space_behind op =
     (if lower_char (hd op) \<or> (CHR ''A'' \<le> hd op \<and> hd op \<le> CHR ''Z'') \<or>
         (hd op = CHR ''-'' \<and> 1 < length op \<and> lower_char (op ! 1)) then '' '' else [])"

definition unary_text :: "string \<Rightarrow> string \<Rightarrow> string option" where
  "unary_text op operand =
     (if op = [] then None
      else if writes_behind op then Some (operand @ op)
      else Some (op @ space_behind op @ operand))"

definition opt_text :: "string \<Rightarrow> string option \<Rightarrow> string" where
  "opt_text prefix s = (case s of None \<Rightarrow> [] | Some s \<Rightarrow> prefix @ s)"

subsection \<open>Nodes\<close>

function (sequential) format_node :: "nat \<Rightarrow> ast \<Rightarrow> string option"
  and format_nodes :: "nat \<Rightarrow> ast list \<Rightarrow> string list option" where
  "format_node d No_node = Some []"
| "format_node d (Script _ ns) =
     do { ts \<leftarrow> format_nodes d ns; ts \<leftarrow> with_ends ns ts; Some (join_texts [NL] ts) }"
| "format_node d (Block _ ns) =
     do { ts \<leftarrow> format_nodes (d + 1) ns; ts \<leftarrow> with_ends ns ts;
          Some (''{'' @ [NL] @ concat (map (\<lambda>t. append_indent (d + 1) @ t @ [NL]) ts) @ append_indent d @ ''}'') }"
| "format_node d (Boolean _ b) = Some (if b then ''true'' else ''false'')"
| "format_node d (Null _) = Some ''$null''"
| "format_node d (Long _ w) = Some (dec_int (sint w) @ ''L'')"
| "format_node d (Number _ is_double x) = Some (number_literal_text is_double x)"
| "format_node d (Literal _ s) = map_option quote_text s"
| "format_node d (Str _ s) = map_option quote_text s"
| "format_node d (Align _ width v) =
     do { w \<leftarrow> format_node d width;
          Some ([quote_char] @ ''$['' @ w @ '']'' @ (case v of Scalar _ (Some s) \<Rightarrow> s | _ \<Rightarrow> []) @ [quote_char]) }"
| "format_node d (Scalar _ s) = map_option scalar_text s"
| "format_node d (Identifier _ s) = s"
| "format_node d (Class_literal _ s) = map_option (\<lambda>s. ''^'' @ s) s"
| "format_node d (Array _ s) = map_option (with_sigil CHR ''@'') s"
| "format_node d (Hashtable _ s) = map_option (with_sigil CHR ''%'') s"
| "format_node d (Backtick _ s) = map_option (\<lambda>s. [CHR 0x60] @ s @ [CHR 0x60]) s"
| "format_node d (Address _ s) = map_option address_text s"
| "format_node d (Call _ target args) =
     do { t \<leftarrow> format_node d target; ts \<leftarrow> format_nodes d args; Some (t @ ''('' @ join_texts '', '' ts @ '')'') }"
| "format_node d (Binop _ l op r negate) =
     do { a \<leftarrow> format_node d l; b \<leftarrow> format_node d r;
          let prec = operator_level (snd op);
          Some (parens_if (get_node_precedence l < prec) a @ '' '' @ (if negate then ''!'' else []) @ snd op @ '' '' @
                parens_if (get_node_precedence r \<le> prec) b) }"
| "format_node d (Lvalue_tuple _ ns) =
     do { ts \<leftarrow> format_nodes d ns; Some (''('' @ join_texts '', '' ts @ '')'') }"
| "format_node d (Assignment _ l op r) =
     do { a \<leftarrow> format_node d l; b \<leftarrow> format_node d r; Some (a @ '' '' @ snd op @ '' '' @ b) }"
| "format_node d (Unaryop _ op v _) =
     do { t \<leftarrow> format_node d v; unary_text (snd op) (parens_if (get_node_precedence v < AST_PREC_UNARY) t) }"
| "format_node d (If _ c a b) =
     do { c \<leftarrow> format_node d c; s \<leftarrow> format_node d a; t \<leftarrow> format_node d b;
          Some (''if ('' @ c @ '') '' @ s @ (if b = No_node then [] else '' else '' @ t)) }"
| "format_node d (While _ c body) =
     do { c \<leftarrow> format_node d c; s \<leftarrow> format_node d body; Some (''while ('' @ c @ '') '' @ s) }"
| "format_node d (For _ start c step body) =
     do { ss \<leftarrow> format_nodes d start; c \<leftarrow> format_node d c; ts \<leftarrow> format_nodes d step; s \<leftarrow> format_node d body;
          Some (''for ('' @ join_texts '', '' ss @ ''; '' @ c @ ''; '' @ join_texts '', '' ts @ '') '' @ s) }"
| "format_node d (Foreach _ index val source body) =
     do { g \<leftarrow> format_node d source; s \<leftarrow> format_node d body;
          Some (''foreach '' @ (case index of None \<Rightarrow> [] | Some i \<Rightarrow> with_sigil CHR ''$'' i @ '' => '') @
                with_sigil CHR ''$'' val @ '' ('' @ g @ '') '' @ s) }"
| "format_node d (Return _ v) =
     do { t \<leftarrow> format_node d v; Some (''return'' @ (if v = No_node then [] else '' '' @ t)) }"
| "format_node d (Break _ _) = Some ''break''"
| "format_node d (Continue _ _) = Some ''continue''"
| "format_node d (Yield _ v) =
     do { t \<leftarrow> format_node d v; Some (''yield'' @ (if v = No_node then [] else '' '' @ t)) }"
| "format_node d (Index _ c i) =
     do { a \<leftarrow> format_node d c; b \<leftarrow> format_node d i; Some (a @ ''['' @ b @ '']'') }"
| "format_node d (Obj_expr _ target message args) =
     do { t \<leftarrow> format_node d target; m \<leftarrow> format_node d message; ts \<leftarrow> format_nodes d args;
          Some (''['' @ t @ (if message = No_node then [] else '' '' @ m) @
                (if args = [] then [] else '': '' @ join_texts '', '' ts) @ '']'') }"
| "format_node d (Try_catch _ body v handler) =
     do { s \<leftarrow> format_node d body; t \<leftarrow> format_node d handler;
          Some (''try '' @ s @ '' catch $'' @ opt_text [] v @ '' '' @ t) }"
| "format_node d (Throw _ v) = do { t \<leftarrow> format_node d v; Some (''throw '' @ t) }"
| "format_node d (Assert _ v message) =
     do { t \<leftarrow> format_node d v; m \<leftarrow> format_node d message;
          Some (''assert '' @ t @ (if message = No_node then [] else '' : '' @ m)) }"
| "format_node d (Env_bridge _ word ident str body) =
     do { t \<leftarrow> format_node d body;
          Some (opt_text [] word @ opt_text '' '' ident @ opt_text '' '' str @ (if body = No_node then [] else '' '' @ t)) }"
| "format_node d (Import _ target path) = Some (''import '' @ opt_text [] target @ opt_text '' from : '' path)"
| "format_node d (Kv_pair _ name v) =
     do { k \<leftarrow> format_node d name; t \<leftarrow> format_node d v; Some ((if name = No_node then [] else k @ '' => '') @ t) }"
| "format_node d (Arg _ name v) =
     do { k \<leftarrow> format_node d name; t \<leftarrow> format_node d v; Some ((if name = No_node then [] else k @ '' => '') @ t) }"
| "format_node d (Done _ _) = Some ''done''"
| "format_node d (Halt _ _) = Some ''halt''"
| "format_node d (Callcc _ v) =
     do { t \<leftarrow> format_node d v; Some (''callcc'' @ (if v = No_node then [] else '' '' @ t)) }"
| "format_node d (Assign_loop _ name source body) =
     do { g \<leftarrow> format_node d source; s \<leftarrow> format_node d body; Some (''while $'' @ name @ '' ('' @ g @ '') '' @ s) }"
| "format_node d (Local _ v) = do { t \<leftarrow> format_node d v; Some (''local '' @ t) }"
| "format_node d (This _ v) = do { t \<leftarrow> format_node d v; Some (''this '' @ t) }"
| "format_node d (Nop _) = Some []"
| "format_node d (Error_node _) = Some ''/* unknown node type */''"
| "format_nodes d [] = Some []"
| "format_nodes d (n # ns) = do { t \<leftarrow> format_node d n; ts \<leftarrow> format_nodes d ns; Some (t # ts) }"
  by pat_completeness auto
termination
  by (relation "measure (\<lambda>x. case x of Inl (d, n) \<Rightarrow> size n | Inr (d, ns) \<Rightarrow> size_list size ns)") auto

text \<open>An empty text is a null result.\<close>

definition slp_ast_format :: "ast \<Rightarrow> string option option" where
  "slp_ast_format node =
     (if node = No_node then Some None
      else do { t \<leftarrow> format_node 0 node; Some (if t = [] then None else Some t) })"

end
