(* ===== verification/Format_Trees.thy ===== *)
theory Format_Trees
  imports Formatter Parser_Trees
begin

text \<open>
  The formatter is a right inverse of the parser on expressions of variables and symbolic operators: the scanner
  reads the tokens of its text, and these are the tokens the table of precedences asks for.
\<close>

subsection \<open>Scanning a text\<close>

definition unread :: "string \<Rightarrow> slp_lexer \<Rightarrow> bool" where
  "unread w lx \<longleftrightarrow> lx_current lx \<le> length (lx_source lx) \<and> drop (lx_current lx) (lx_source lx) = w"

lemma unread_split:
  assumes "unread w lx"
  obtains pre where "lx_source lx = pre @ w" "lx_current lx = length pre"
  using assms by (metis unread_def append_take_drop_id length_take min.absorb2)

lemma unreadI: "lx_source lx = pre @ w \<Longrightarrow> lx_current lx = length pre \<Longrightarrow> unread w lx"
  by (simp add: unread_def)

lemma cread_append [simp]:
  "cread (pre @ w) (length pre) = cread w 0" "cread (pre @ w) (Suc (length pre)) = cread w 1"
  "cread (pre @ w) (Suc (Suc (length pre))) = cread w 2" "cread (pre @ w) (length pre + n) = cread w n"
  by (simp_all add: cread_def nth_append)

lemma cread_Cons [simp]: "cread (c # w) 0 = Some c" "cread (c # w) (Suc n) = cread w n" "cread [] 0 = Some NUL"
  by (simp_all add: cread_def)

definition scans_one :: "slp_token_type \<Rightarrow> string \<Rightarrow> string \<Rightarrow> slp_lexer \<Rightarrow> bool" where
  "scans_one ty tx w lx \<longleftrightarrow>
     (\<exists>t lx'. slp_lexer_scan_token lx = Some (t, lx') \<and> tok_type t = ty \<and> slp_lexer_copy_lexeme lx' t = tx \<and> unread w lx')"

lemma scans_to_Cons:
  "scans_one ty tx w lx \<Longrightarrow> ty \<noteq> Tok TOKEN_ERROR \<Longrightarrow> (\<And>lx. unread w lx \<Longrightarrow> scans_to ts lx) \<Longrightarrow> scans_to ((ty, tx) # ts) lx"
  by (auto simp: scans_one_def)

lemma skip_space:
  assumes "unread (CHR '' '' # w) lx"
  shows "slp_lexer_scan_token lx = slp_lexer_scan_token (lx\<lparr>lx_current := Suc (lx_current lx)\<rparr>)"
proof -
  obtain pre where pre: "lx_source lx = pre @ CHR '' '' # w" "lx_current lx = length pre" using unread_split [OF assms] .
  have "skip_whitespace lx = skip_whitespace (lx\<lparr>lx_current := Suc (lx_current lx)\<rparr>)"
    by (subst skip_whitespace.simps) (simp add: peek_def pre)
  then show ?thesis by (simp add: slp_lexer_scan_token_def)
qed

lemma scan_space:
  assumes "unread (CHR '' '' # w) lx" "\<And>lx. unread w lx \<Longrightarrow> scans_one ty tx u lx"
  shows "scans_one ty tx u lx"
proof -
  obtain pre where pre: "lx_source lx = pre @ CHR '' '' # w" "lx_current lx = length pre" using unread_split [OF assms(1)] .
  have "unread w (lx\<lparr>lx_current := Suc (lx_current lx)\<rparr>)" by (rule unreadI [where pre = "pre @ '' ''"]) (simp_all add: pre)
  then have "scans_one ty tx u (lx\<lparr>lx_current := Suc (lx_current lx)\<rparr>)" by (rule assms(2))
  then show ?thesis by (simp add: scans_one_def skip_space [OF assms(1)])
qed

lemma scans_to_space:
  assumes "unread (CHR '' '' # w) lx" "\<And>lx. unread w lx \<Longrightarrow> scans_to (t # ts) lx"
  shows "scans_to (t # ts) lx"
proof -
  obtain pre where pre: "lx_source lx = pre @ CHR '' '' # w" "lx_current lx = length pre" using unread_split [OF assms(1)] .
  let ?lx = "lx\<lparr>lx_current := Suc (lx_current lx)\<rparr>"
  have "unread w ?lx" by (rule unreadI [where pre = "pre @ '' ''"]) (simp_all add: pre)
  then have "scans_to (t # ts) ?lx" by (rule assms(2))
  then show ?thesis by (cases t) (simp add: skip_space [OF assms(1)])
qed

definition token_start_char :: "char \<Rightarrow> bool" where
  "token_start_char c \<longleftrightarrow> c \<notin> {CHR '' '', CHR 0x0D, CHR 0x09, NL, CHR ''#'', NUL} \<and> \<not> is_alpha c \<and> \<not> is_digit c"

lemma scan_symbol_token:
  assumes "unread (c # w) lx" "token_start_char c"
  obtains pre lx' where "slp_lexer_scan_token lx = scan_symbol c lx'" "lx_source lx' = pre @ c # w" "lx_start lx' = length pre"
    "lx_current lx' = Suc (length pre)"
proof -
  obtain pre where pre: "lx_source lx = pre @ c # w" "lx_current lx = length pre" using unread_split [OF assms(1)] .
  have "skip_whitespace lx = Some lx"
    using assms(2) by (subst skip_whitespace.simps) (simp add: peek_def pre token_start_char_def)
  then have "slp_lexer_scan_token lx =
      scan_symbol c (lx\<lparr>lx_start := length pre, lx_start_line := lx_line lx, lx_current := Suc (length pre)\<rparr>)"
    using assms(2)
    by (simp add: slp_lexer_scan_token_def scan_first_def is_at_end_def lexer_advance_def peek_def pre token_start_char_def)
  then show thesis by (rule that) (simp_all add: pre)
qed

lemmas scan_symbol_defs = scan_symbol_def scan_operator_def scan_dot_def scan_minus_def scan_plus_def scan_slash_def
  scan_star_def scan_caret_def scan_pipe_def scan_ampersand_def scan_bang_def scan_equal_def scan_less_def scan_greater_def
  scan_percent_def on_match_def on_peek_def emit_def make_token_def lexer_match_def peek_def

definition printable_operators :: "(slp_token_type \<times> string) list" where
  "printable_operators =
     [(Sym TOKEN_PLUS, ''+''), (Sym TOKEN_MINUS, ''-''), (Sym TOKEN_STAR, ''*''), (Sym TOKEN_SLASH, ''/''),
      (Sym TOKEN_PERCENT, ''%''), (Sym TOKEN_DOT, ''.''), (Sym TOKEN_AMPERSAND, ''&''), (Sym TOKEN_PIPE, ''|''),
      (Sym TOKEN_CARET, ''^''), (Tok TOKEN_LSHIFT, ''<<''), (Tok TOKEN_RSHIFT, ''>>''), (Tok TOKEN_EXP, ''**''),
      (Tok TOKEN_LAND, ''&&''), (Tok TOKEN_LOR, ''||''), (Tok TOKEN_EQ, ''==''), (Tok TOKEN_NE, ''!=''),
      (Tok TOKEN_EQI, ''=~''), (Tok TOKEN_NEQI, ''!=~''), (Tok TOKEN_SPACESHIP, ''<=>''), (Sym TOKEN_LESS, ''<''),
      (Sym TOKEN_GREATER, ''>'')]"

lemma space_facts [simp]: "\<not> is_alpha CHR '' ''" "\<not> is_digit CHR '' ''" "\<not> is_name_char CHR '' ''" "\<not> is_name_start CHR '' ''"
  by code_simp+

lemma scan_printable:
  assumes "unread (tx @ CHR '' '' # w) lx" "(ty, tx) \<in> set printable_operators"
  shows "scans_one ty tx (CHR '' '' # w) lx"
proof -
  obtain c u where tx: "tx = c # u" using assms(2) by (cases tx) (auto simp: printable_operators_def)
  have "c \<in> set ''+-*/%.&|^<>=!''" using assms(2) by (auto simp: printable_operators_def tx)
  moreover have "list_all token_start_char ''+-*/%.&|^<>=!''" by code_simp
  ultimately have start: "token_start_char c" by (simp only: list_all_iff)
  obtain pre lx' where s: "slp_lexer_scan_token lx = scan_symbol c lx'" "lx_source lx' = pre @ c # u @ CHR '' '' # w"
      "lx_start lx' = length pre" "lx_current lx' = Suc (length pre)"
    using scan_symbol_token [OF _ start] assms(1) unfolding tx append_Cons by metis
  let ?lx = "lx'\<lparr>lx_current := length pre + length tx\<rparr>"
  from assms(2) have "scan_symbol c lx' = Some (make_token ?lx ty, ?lx)"
    unfolding tx printable_operators_def set_simps insert_iff empty_iff prod.inject list.inject
    by (elim disjE conjE; simp add: scan_symbol_defs s(2-4))
  moreover have "unread (CHR '' '' # w) ?lx"
    by (rule unreadI [where pre = "pre @ tx"]) (simp_all add: s tx)
  ultimately show ?thesis unfolding scans_one_def
    by (intro exI [of _ "make_token ?lx ty"] exI [of _ ?lx]) (simp add: s make_token_def slp_lexer_copy_lexeme_def segment_def tx)
qed

lemma scan_bracket:
  assumes "unread (c # w) lx" "(c, ty) \<in> {(CHR ''('', Sym TOKEN_LEFT_PAREN), (CHR '')'', Sym TOKEN_RIGHT_PAREN), (CHR '';'', Sym TOKEN_SEMICOLON)}"
  shows "scans_one ty [c] w lx"
proof -
  have "list_all token_start_char ''();''" by code_simp
  then have start: "token_start_char c" using assms(2) by auto
  obtain pre lx' where s: "slp_lexer_scan_token lx = scan_symbol c lx'" "lx_source lx' = pre @ c # w"
      "lx_start lx' = length pre" "lx_current lx' = Suc (length pre)" using scan_symbol_token [OF assms(1) start] .
  have "scan_symbol c lx' = Some (make_token lx' ty, lx')" using assms(2) by (auto simp: scan_symbol_def emit_def)
  moreover have "unread w lx'" by (rule unreadI [where pre = "pre @ [c]"]) (simp_all add: s)
  ultimately show ?thesis unfolding scans_one_def
    by (intro exI [of _ "make_token lx' ty"] exI [of _ lx']) (simp add: s make_token_def slp_lexer_copy_lexeme_def segment_def)
qed

lemma scan_end:
  assumes "unread [] lx"
  shows "scans_one (Tok TOKEN_EOF) [] [] lx"
proof -
  obtain pre where pre: "lx_source lx = pre @ []" "lx_current lx = length pre" using unread_split [OF assms] .
  have "skip_whitespace lx = Some lx" by (subst skip_whitespace.simps) (simp add: peek_def pre)
  then have "slp_lexer_scan_token lx = emit (Tok TOKEN_EOF) (lx\<lparr>lx_start := length pre, lx_start_line := lx_line lx\<rparr>)"
    by (simp add: slp_lexer_scan_token_def scan_first_def is_at_end_def peek_def pre)
  then show ?thesis using assms pre
    by (simp add: scans_one_def emit_def make_token_def slp_lexer_copy_lexeme_def segment_def unread_def)
qed

text \<open>A name that begins with \<open>null\<close> is scanned as the null literal and the rest of the name.\<close>

definition printable_name :: "string \<Rightarrow> bool" where
  "printable_name s \<longleftrightarrow> list_all simple_char s \<and> take 4 s \<noteq> ''null''"

definition ends_name :: "string \<Rightarrow> bool" where
  "ends_name w \<longleftrightarrow> w \<noteq> [] \<and> hd w \<in> {CHR '' '', CHR '')'', CHR '';''}"

lemma skip_name: "list_all is_name_char s \<Longrightarrow> ends_name w \<Longrightarrow>
  skip_while is_name_char (pre @ s @ w) (length pre) = Some (length pre + length s)"
proof (induction s arbitrary: pre)
  case Nil
  have "\<not> is_name_char CHR '')''" "\<not> is_name_char CHR '';''" by code_simp+
  then have "\<not> is_name_char (hd w)" using Nil by (auto simp: ends_name_def)
  then show ?case using Nil by (cases w) (simp_all add: skip_while.simps ends_name_def)
next
  case (Cons c s)
  then show ?case using Cons.IH [of "pre @ [c]"] by (subst skip_while.simps) simp
qed

lemma scan_rest_of_name:
  assumes "lx_source lx = pre @ s @ w" "lx_current lx = length pre" "list_all is_name_char s" "ends_name w"
  shows "scan_scalar_name lx = emit (Tok TOKEN_SCALAR) (lx\<lparr>lx_current := length pre + length s\<rparr>)"
proof -
  have "list_all (\<lambda>c. c \<noteq> CHR ''+'') [] \<and> \<not> is_name_char CHR ''+''" by code_simp
  then have "cread (s @ w) 0 \<noteq> Some CHR ''+''" using assms(3,4) by (cases s; cases w) (auto simp: ends_name_def)
  moreover have "cread (s @ w) 0 \<noteq> None" by (simp add: cread_def)
  ultimately show ?thesis
    using skip_name [OF assms(3,4), of pre] assms(1,2)
    by (auto simp: scan_scalar_name_def on_peek_def peek_def then_while_def advance_while_def)
qed

lemma scan_dollar_name:
  assumes lx: "lx_source lx = pre @ s @ w" "lx_current lx = length pre" and s: "list_all is_name_char s" "take 4 s \<noteq> ''null''"
    and w: "ends_name w"
  shows "scan_dollar lx = emit (Tok TOKEN_SCALAR) (lx\<lparr>lx_current := length pre + length s\<rparr>)"
proof -
  let ?R = "emit (Tok TOKEN_SCALAR) (lx\<lparr>lx_current := length pre + length s\<rparr>)"
  have step: "on_match d k scan_scalar_name (lx\<lparr>lx_current := length pre + length u\<rparr>) = ?R"
    if "s = u @ v" "d \<in> set ''nul''" "\<And>v'. v = d # v' \<Longrightarrow> k (lx\<lparr>lx_current := length pre + length (u @ [d])\<rparr>) = ?R" for d k u v
  proof -
    have name: "scan_scalar_name (lx\<lparr>lx_current := length pre + length u\<rparr>) = ?R"
      using scan_rest_of_name [of "lx\<lparr>lx_current := length pre + length u\<rparr>" "pre @ u" v w] lx s w that(1)
      by (simp add: add.assoc)
    have "\<not> is_name_char NUL" by code_simp
    then have "hd (v @ w) \<noteq> NUL" using s(1) that(1) w by (cases v) (auto simp: ends_name_def)
    moreover have "v @ w = hd (v @ w) # tl (v @ w)" using w by (cases v; cases w) (auto simp: ends_name_def)
    then have "cread (v @ w) 0 = Some (hd (v @ w))" by (metis cread_Cons(1))
    ultimately have "on_match d k scan_scalar_name (lx\<lparr>lx_current := length pre + length u\<rparr>) =
        (if hd (v @ w) = d then k (lx\<lparr>lx_current := length pre + length (u @ [d])\<rparr>)
         else scan_scalar_name (lx\<lparr>lx_current := length pre + length u\<rparr>))"
      using lx that(1) cread_append(1) [of "pre @ u" "v @ w"] by (simp add: on_match_def lexer_match_def peek_def)
    moreover have "hd (v @ w) = d \<Longrightarrow> v = d # tl v" using that(2) w by (cases v) (auto simp: ends_name_def)
    ultimately show ?thesis using name that(3) by auto
  qed
  let ?at = "\<lambda>u. lx\<lparr>lx_current := length pre + length (u :: string)\<rparr>"
  let ?l = "on_match CHR ''l'' (emit (Tok TOKEN_NULL)) scan_scalar_name"
  let ?ll = "on_match CHR ''l'' ?l scan_scalar_name"
  let ?ull = "on_match CHR ''u'' ?ll scan_scalar_name"
  have l: "?l (?at ''nul'') = ?R" if "s = ''nul'' @ v" for v
    using s(2) that by (intro step [OF that]) auto
  have ll: "?ll (?at ''nu'') = ?R" if "s = ''nu'' @ v" for v
    using l that by (intro step [OF that]) auto
  have ull: "?ull (?at ''n'') = ?R" if "s = ''n'' @ v" for v
    using ll that by (intro step [OF that]) auto
  have "scan_dollar (?at []) = ?R"
    unfolding scan_dollar_def using ull by (intro step [of "[]" s]) auto
  moreover have "?at [] = lx" by (simp add: lx(2) [symmetric])
  ultimately show ?thesis by metis
qed

lemma simple_is_name: "simple_char c \<Longrightarrow> is_name_char c"
  by (auto simp: simple_char_def is_name_char_def is_alpha_def is_digit_def)

lemma scan_variable:
  assumes "unread (CHR ''$'' # s @ w) lx" "printable_name s" "ends_name w"
  shows "scans_one (Tok TOKEN_SCALAR) (CHR ''$'' # s) w lx"
proof -
  have start: "token_start_char CHR ''$''" by code_simp
  obtain pre lx' where l: "slp_lexer_scan_token lx = scan_symbol CHR ''$'' lx'" "lx_source lx' = pre @ CHR ''$'' # s @ w"
      "lx_start lx' = length pre" "lx_current lx' = Suc (length pre)" using scan_symbol_token [OF assms(1) start] .
  let ?lx = "lx'\<lparr>lx_current := length (pre @ ''$'') + length s\<rparr>"
  have "list_all is_name_char s" using assms(2) simple_is_name by (auto simp: printable_name_def list_all_iff)
  then have "scan_dollar lx' = emit (Tok TOKEN_SCALAR) ?lx"
    using scan_dollar_name [of lx' "pre @ ''$''" s w] assms(2,3) l(2,4) by (simp add: printable_name_def)
  then have "slp_lexer_scan_token lx = Some (make_token ?lx (Tok TOKEN_SCALAR), ?lx)"
    unfolding l(1) by (simp add: scan_symbol_def scan_operator_def emit_def)
  moreover have "unread w ?lx" by (rule unreadI [where pre = "pre @ CHR ''$'' # s"]) (simp_all add: l)
  ultimately show ?thesis unfolding scans_one_def
    by (intro exI [of _ "make_token ?lx (Tok TOKEN_SCALAR)"] exI [of _ ?lx])
      (simp add: l make_token_def slp_lexer_copy_lexeme_def segment_def)
qed

subsection \<open>The text of an expression\<close>

fun level :: "expr \<Rightarrow> nat" where
  "level (Variable s) = PREC_CALL + 1"
| "level (Operation l op r) = precedence (fst op)"

fun text_at :: "nat \<Rightarrow> expr \<Rightarrow> string" where
  "text_at k (Variable s) = CHR ''$'' # s"
| "text_at k (Operation l op r) =
     (let j = precedence (fst op)
      in parens_if (j < k) (text_at j l @ '' '' @ snd op @ '' '' @ text_at (j + 1) r))"

fun printable :: "expr \<Rightarrow> bool" where
  "printable (Variable s) \<longleftrightarrow> printable_name s"
| "printable (Operation l op r) \<longleftrightarrow> printable l \<and> op \<in> set printable_operators \<and> printable r"

lemma printable_level:
  assumes "op \<in> set printable_operators"
  shows "operator_level (snd op) = precedence (fst op) + 29" "is_operator (fst op)" "precedence (fst op) \<le> PREC_EXP" "fst op \<noteq> Tok TOKEN_ERROR"
proof -
  have "list_all (\<lambda>op. operator_level (snd op) = precedence (fst op) + 29 \<and> is_operator (fst op) \<and> precedence (fst op) \<le> PREC_EXP \<and>
      fst op \<noteq> Tok TOKEN_ERROR) printable_operators" by code_simp
  then show "operator_level (snd op) = precedence (fst op) + 29" "is_operator (fst op)" "precedence (fst op) \<le> PREC_EXP" "fst op \<noteq> Tok TOKEN_ERROR"
    using assms by (auto simp: list_all_iff)
qed

lemma printable_operators_in: "printable e \<Longrightarrow> \<forall>ty\<in>operators_in e. is_operator ty"
  by (induction e) (auto simp: printable_level)

lemma expr_of_Variable: "expr_of node = Some (Variable s) \<Longrightarrow> \<exists>line. node = Scalar line (Some s)"
  by (cases node rule: expr_of.cases) (auto split: option.split_asm)

lemma expr_of_Operation:
  "expr_of node = Some (Operation l op r) \<Longrightarrow>
   \<exists>line a b. node = Binop line a op b False \<and> expr_of a = Some l \<and> expr_of b = Some r"
  by (cases node rule: expr_of.cases) (auto split: option.split_asm)

lemma text_at_primary: "level e < k \<Longrightarrow> k \<le> PREC_CALL + 1 \<Longrightarrow> text_at k e = parens_if True (text_at (level e) e)"
  by (cases e) (auto simp: Let_def parens_if_def)

lemma text_at_level: "k \<le> level e \<Longrightarrow> text_at k e = text_at (level e) e"
  by (cases e) (auto simp: Let_def parens_if_def)

lemma text_at_parens: "k \<le> PREC_CALL + 1 \<Longrightarrow> text_at k e = parens_if (level e < k) (text_at (level e) e)"
  using text_at_primary [of e k] text_at_level [of k e] by (cases "level e < k") (simp_all add: parens_if_def)

lemma format_expression:
  "expr_of node = Some e \<Longrightarrow> printable e \<Longrightarrow>
   format_node d node = Some (text_at (level e) e) \<and> get_node_precedence node = level e + 29"
proof (induction e arbitrary: node)
  case (Variable s)
  then have "s \<noteq> ''+''" by (auto simp: printable_name_def simple_char_def)
  then show ?case using expr_of_Variable [OF Variable(1)] Variable(2)
    by (auto simp: scalar_text_def printable_name_def get_node_precedence_def)
next
  case (Operation l op r)
  obtain line a b where node: "node = Binop line a op b False" "expr_of a = Some l" "expr_of b = Some r"
    using expr_of_Operation [OF Operation.prems(1)] by blast
  have p: "printable l" "printable r" "op \<in> set printable_operators" using Operation.prems(2) by simp_all
  note lv = printable_level [OF p(3)]
  note parts = Operation.IH(1) [OF node(2) p(1)] Operation.IH(2) [OF node(3) p(2)]
  have "text_at (precedence (fst op)) l = parens_if (level l < precedence (fst op)) (text_at (level l) l)"
      "text_at (precedence (fst op) + 1) r = parens_if (level r < precedence (fst op) + 1) (text_at (level r) r)"
    using lv(3) by (intro text_at_parens; simp)+
  then show ?case using parts lv
    by (simp add: node(1) Let_def get_node_precedence_def less_Suc_eq_le parens_if_def [of False])
qed

lemma scan_expression:
  assumes "unread (text_at k e @ w) lx" "printable e" "ends_name w" "k \<le> PREC_CALL + 1" "\<And>lx. unread w lx \<Longrightarrow> scans_to ts lx"
  shows "scans_to (tokens_of k e @ ts) lx"
  using assms
proof (induction e arbitrary: k w ts lx)
  case (Variable s)
  show ?case using scans_to_Cons [OF scan_variable, of s w lx ts] Variable by simp
next
  case (Operation l op r)
  obtain ty tx where op: "op = (ty, tx)" by (cases op)
  let ?j = "precedence ty"
  let ?body = "text_at ?j l @ '' '' @ tx @ '' '' @ text_at (?j + 1) r"
  have p: "printable l" "printable r" "(ty, tx) \<in> set printable_operators" using Operation.prems(2) by (simp_all add: op)
  note lv = printable_level [OF p(3), simplified]
  have body: "scans_to ((tokens_of ?j l @ op # tokens_of (?j + 1) r) @ ts) lx"
    if "unread (?body @ w) lx" "ends_name w" "\<And>lx. unread w lx \<Longrightarrow> scans_to ts lx" for w ts lx
  proof -
    have "scans_to (tokens_of ?j l @ (ty, tx) # tokens_of (?j + 1) r @ ts) lx"
    proof (rule Operation.IH(1))
      show "unread (text_at ?j l @ CHR '' '' # tx @ '' '' @ text_at (?j + 1) r @ w) lx" using that(1) by simp
      fix lx assume b: "unread (CHR '' '' # tx @ '' '' @ text_at (?j + 1) r @ w) lx"
      show "scans_to ((ty, tx) # tokens_of (?j + 1) r @ ts) lx"
      proof (rule scans_to_Cons)
        show "scans_one ty tx (CHR '' '' # text_at (?j + 1) r @ w) lx"
          using b by (rule scan_space) (rule scan_printable [OF _ p(3)], simp)
        fix lx assume b: "unread (CHR '' '' # text_at (?j + 1) r @ w) lx"
        have r: "scans_to (tokens_of (?j + 1) r @ ts) lx" if "unread (text_at (?j + 1) r @ w) lx" for lx
          using that p(2) \<open>ends_name w\<close> _ \<open>\<And>lx. unread w lx \<Longrightarrow> scans_to ts lx\<close> by (rule Operation.IH(2)) (use lv(3) in simp)
        obtain t us where t: "tokens_of (?j + 1) r @ ts = t # us" using tokens_nonempty by (metis append_is_Nil_conv neq_Nil_conv)
        show "scans_to (tokens_of (?j + 1) r @ ts) lx" unfolding t by (rule scans_to_space [OF b]) (rule r [unfolded t])
      qed (use lv(4) in simp)
    qed (use p(1) lv(3) in \<open>simp_all add: ends_name_def\<close>)
    then show ?thesis by (simp add: op)
  qed
  show ?case
  proof (cases "?j < k")
    case False
    then show ?thesis using body [of w lx ts] Operation.prems by (simp add: op Let_def parens_if_def)
  next
    case True
    let ?ts = "(Sym TOKEN_RIGHT_PAREN, '')'') # ts"
    have close: "scans_to ?ts lx" if "unread (CHR '')'' # w) lx" for lx
      using scan_bracket [OF that] Operation.prems(5) by (intro scans_to_Cons [where w = w]) simp_all
    have "scans_to ((Sym TOKEN_LEFT_PAREN, ''('') # (tokens_of ?j l @ op # tokens_of (?j + 1) r) @ ?ts) lx"
    proof (rule scans_to_Cons)
      show "scans_one (Sym TOKEN_LEFT_PAREN) ''('' (?body @ CHR '')'' # w) lx"
        using Operation.prems(1) True by (intro scan_bracket) (simp_all add: op Let_def parens_if_def)
      fix lx assume "unread (?body @ CHR '')'' # w) lx"
      then show "scans_to ((tokens_of ?j l @ op # tokens_of (?j + 1) r) @ ?ts) lx"
        by (rule body) (simp add: ends_name_def, erule close)
    qed simp
    then show ?thesis using True by (simp add: op Let_def)
  qed
qed

lemma level_positive: "printable e \<Longrightarrow> 1 \<le> level e \<and> level e \<le> PREC_CALL + 1"
  using operator_precedence printable_level by (cases e) (fastforce simp: Suc_le_eq)+

lemma format_source_text:
  assumes "expr_of node = Some e" "printable e"
  shows "slp_ast_format (Script line [node]) = Some (Some (text_at 1 e @ '';''))"
proof -
  have "format_node 0 node = Some (text_at 1 e)"
    using format_expression [OF assms] text_at_level [of 1 e] level_positive [OF assms(2)] by simp
  moreover have "statement_end node = Some '';''"
    using assms(1) by (cases node rule: expr_of.cases) (simp_all add: statement_end_def)
  ultimately show ?thesis by (simp add: slp_ast_format_def with_ends_def)
qed

lemma scan_source:
  assumes "printable e"
  shows "scans_to (tokens_of 1 e @ [(Sym TOKEN_SEMICOLON, '';''), (Tok TOKEN_EOF, [])]) (slp_lexer_init (text_at 1 e @ '';''))"
proof (rule scan_expression)
  show "unread (text_at 1 e @ '';'') (slp_lexer_init (text_at 1 e @ '';''))" by (simp add: unread_def slp_lexer_init_def)
  fix lx assume b: "unread '';'' lx"
  show "scans_to [(Sym TOKEN_SEMICOLON, '';''), (Tok TOKEN_EOF, [])] lx"
  proof (rule scans_to_Cons)
    show "scans_one (Sym TOKEN_SEMICOLON) '';'' [] lx" using b by (intro scan_bracket) simp_all
    fix lx assume "unread [] lx"
    then show "scans_to [(Tok TOKEN_EOF, [])] lx" by (intro scans_to_Cons [OF scan_end]) simp_all
  qed simp
qed (use assms in \<open>simp_all add: ends_name_def\<close>)

end
