(* ===== verification/Format_Props.thy ===== *)
theory Format_Props
  imports Format_Trees
begin

text \<open>
  The properties of the formatter, and what \<^verbatim>\<open>src/tools/slp_fmt.c\<close> does with a file: it is parsed, and the text of
  the tree is written back. \<open>Some None\<close> is the exit with an error.
\<close>

definition slp_fmt :: "nat \<Rightarrow> string \<Rightarrow> string option option" where
  "slp_fmt fuel source =
     do { (ast, p) \<leftarrow> slp_parser_parse fuel (slp_parser_init source);
          if ast = No_node \<or> ps_had_error p then Some None else slp_ast_format ast }"






text \<open>A branch that is not a block loses its terminator, and its file no longer parses.\<close>

lemma formatter_breaks_branch:
  "slp_fmt 100 ''if ($x) $y; else $z;'' = Some (Some ''if ($x) $y else $z'') \<and>
   slp_fmt 100 ''if ($x) $y else $z'' = Some None"
  by code_simp

end
