(* ===== verification/Spec2Isabelle.thy ===== *)
theory Spec2Isabelle
  imports Lexer_Props Value_Props Hash_Order Array_Views Bytecode_Roundtrip GC_Props Operator_Props Stringify_Props
    VM_Props Regex_Text Embed_Props Disasm Compiler_Props VM_Loop_Props VM_Scope_Props Parser_Props Format_Props
begin

text \<open>
  A verification development of SLP, an implementation of the Sleep scripting language in C. A source text
  is scanned (\<^verbatim>\<open>src/slp_lexer.c\<close>), parsed to a syntax tree, compiled to chunks of bytecode and run by a
  stack machine (\<^verbatim>\<open>src/slp_vm.c\<close>) whose objects are reclaimed by a mark-and-sweep collector
  (\<^verbatim>\<open>src/slp_gc.c\<close>). Hosts use the machine through the embedding interface (\<^verbatim>\<open>src/slp_embed.c\<close>); compiled
  functions are written to files and read back (\<^verbatim>\<open>src/slp_bytecode.c\<close>).

  Conventions. A definition has the name of the C function it translates; parts of a function have names of
  their own. A result \<open>None\<close> of an operation is behaviour that C leaves undefined: a read outside a buffer or
  at a dead object, an overflow of \<open>int\<close>, a cast out of range, a loop that does not end
  (\<open>partial_function\<close>). A \<open>NULL\<close> result or an error of the code is a value of the result type. Objects live
  in a heap, a map from addresses to objects; machine integers are words, the C \<open>int\<close> is an integer with
  its range written out where it matters. What an allocation returned is an argument (a pointer or a
  function from the heap to one); allocations of plain buffers are assumed to succeed where the theory says
  so. The double is its bit pattern, computed on integers.

  Theories and sources.
  \<^item> \<open>Prelude\<close>, \<open>F64\<close>, \<open>F64_Ops\<close>, \<open>Number_Text\<close>: C strings, doubles, arithmetic, \<open>strtod\<close>, \<open>printf\<close>.
  \<^item> \<open>Tokens\<close>, \<open>Lexer\<close>, \<open>Lexer_Safety\<close>, \<open>Lexer_Keywords\<close>, \<open>Lexer_Props\<close>: the scanner and
    \<^verbatim>\<open>include/slp_lexer.h\<close>. The scanner stays inside the source, ends, and agrees with a table of
    reserved words; string literals have their length; the escape at the end of the source does not.
  \<^item> \<open>Objects\<close>, \<open>Values\<close>, \<open>Value_Props\<close>: \<^verbatim>\<open>include/slp_value.h\<close>, equality and hash keys of
    \<^verbatim>\<open>src/slp_value.c\<close>.
  \<^item> \<open>Arrays\<close>, \<open>Array_Props\<close>, \<open>Array_Views\<close>: arrays and their sublist views: insertion and removal undo
    each other, views mirror the changes made through them and notice the others.
  \<^item> \<open>Hashes\<close>, \<open>Hash_Refine\<close>, \<open>Map_Interface\<close>, \<open>Hash_Props\<close>, \<open>Hash_Order\<close>: open addressing with
    tombstones refines a finite map; \<open>Map_Interface\<close> has the interface as a locale, interpreted on the
    table; the enumeration is in the order of the sequence numbers.
  \<^item> \<open>Chunks\<close>, \<open>Bytecode\<close>, \<open>Bytecode_Roundtrip\<close>: code buffers, the constant pool, the file format; what
    is written is read back, and what the reader accepts too much.
  \<^item> \<open>VM_State\<close>, \<open>Interning\<close>, \<open>Interned\<close>: the machine's memory and its table of strings; equal texts are
    one object.
  \<^item> \<open>GC\<close>, \<open>GC_Props\<close>: the collector keeps exactly the reachable objects, leaves the machine ready for the
    next collection and the byte count exact.
  \<^item> \<open>Stringify\<close>, \<open>Stringify_Props\<close>: the text of a value. The depth limit of the code is the first argument
    of \<open>stringify_value\<close>, 33 levels at the start, so the definition is structurally recursive.
  \<^item> \<open>VM_Objects\<close>, \<open>VM_Collections\<close>, \<open>VM_Props\<close>: value stack, constructors, classes, errors, closures, taint,
    hash accesses with policies. The interpreter's \<open>slp_vm_call\<close> is the parameter \<open>call\<close>.
  \<^item> \<open>Opcodes\<close>, \<open>Operators\<close>, \<open>Operator_Props\<close>: the instruction bytes and the operators of compound
    assignment: ints wrap at 32 bits, longs at 64, division reports zero. \<open>pow\<close> is a parameter.
  \<^item> \<open>Regex_Text\<close>: the translation of Java-style patterns to POSIX; it fits its buffer.
  \<^item> \<open>VM_Trace\<close>, \<open>VM_Scopes\<close>, \<open>VM_Builtins\<close>, \<open>VM_Calls\<close>, \<open>VM_Methods\<close>, \<open>VM_Predicates\<close>, \<open>VM_Instructions\<close>,
    \<open>VM_Collect\<close>, \<open>VM_Loop\<close>, \<open>VM_Host\<close>: the interpreter. \<open>VM_Trace\<close> has the record of what the machine gets
    from its host (allocator, matcher, clock, loader, warning sink) and the flow trace; then come the chain of
    scopes, the core natives, calls with continuations and coroutines, methods, predicates, and the
    instructions by group; \<open>VM_Loop\<close> composes them to \<open>execute\<close>, one instruction, \<open>machine_step\<close>, which adds
    the abort check, and \<open>machine\<close>, the loop.
  \<^item> \<open>VM_Frame\<close>, \<open>VM_Bounds\<close>, \<open>VM_Loop_Props\<close>, \<open>VM_Scope_Props\<close>: properties of the interpreter.
    \<open>VM_Frame\<close> says what the operations leave alone, \<open>VM_Bounds\<close> that each of them, run to its end or to an
    error, keeps the stack, the frames and the handlers within the arrays of \<^verbatim>\<open>SlpVM\<close>, for hosts whose natives
    do (\<open>safe_host\<close>); then come exceptions, suspended closures and returns, and the chain of scopes as a
    refinement of nested environments.
  \<^item> \<open>Embed\<close>, \<open>Embed_Props\<close>: the embedding interface: its casts are defined, its handles are roots.
  \<^item> \<open>Disasm\<close>: the disassembler; each instruction moves forward, so the loop over a chunk ends.
  \<^item> \<open>Parser_State\<close>, \<open>Parser_Text\<close>, \<open>Parser\<close>, \<open>Statements\<close>: the recursive descent and precedence parser of
    \<^verbatim>\<open>src/slp_parser.c\<close>: the state with one token of lookahead and the table of precedences; numbers and
    interpolated strings, whose alignments are parsed by a parser of their own; expressions; statements,
    declarations and the recursion \<open>parse\<close>, which the other functions take as the argument \<open>rec\<close>.
  \<^item> \<open>Scan_Steps\<close>, \<open>Parser_Steps\<close>, \<open>Parser_Fuel\<close>, \<open>Parser_Trees\<close>, \<open>Parser_Props\<close>: the scanner and with it every
    function of the parser only move forward, the first error and the nesting depth are kept; more fuel than
    the bound changes nothing (the locales \<open>less_fuel\<close> and \<open>with_room\<close>, interpreted on \<open>parse\<close>); operators are
    read with the precedences of the table.
  \<^item> \<open>Formatter\<close>, \<open>Format_Trees\<close>, \<open>Format_Props\<close>: the text of a syntax tree (\<^verbatim>\<open>src/slp_ast.c\<close>) and the tool
    \<^verbatim>\<open>tools/slp_fmt.c\<close>: the formatted text of an expression of variables and symbolic operators is scanned and
    parsed back to that expression; other trees are changed.
  \<^item> \<open>Ast\<close>, \<open>Compiler_State\<close>, \<open>Compiler\<close>: the nodes of \<^verbatim>\<open>include/slp_parser.h\<close> and the compiler of
    \<^verbatim>\<open>src/slp_compiler.c\<close>, a state transformer \<open>compile_node\<close> over the machine, the current compiler and the
    enclosing ones. \<open>Compiler_Frame\<close> shows that no name is captured, \<open>Compiler_Code\<close> has the judgements \<open>emits\<close>
    and \<open>sound\<close>, \<open>Compiler_Units\<close>, \<open>Compiler_Sound\<close> and \<open>Compiler_Whole\<close> prove them of the helpers, the
    combinators and every node, and \<open>Compiler_Props\<close> has the properties: whole instructions, the code of
    variables, and the loops whose jumps go astray.

  Fuel. The probe loops of hashes and of the intern table count the slots left, as the code does; the
  insertion loops without a counter are partial functions, proved to return while a slot is free. The
  parser takes a fuel for its calls and its loops; three times the length of the source and three is enough,
  since a call nests at most three deep before a token is read and a loop reads a token in every turn. The
  interpreter loop need not end, as a program need not: \<open>machine\<close> takes the number of steps, and a nested run
  of the machine (a native that calls back) takes what is left of it. \<open>None\<close> is also the result when the fuel
  is used up.

  Not modelled: the accessors and the release of syntax trees (\<^verbatim>\<open>src/slp_ast.c\<close>), the functions of the machine that parse and
  run a text (\<open>slp_vm_interpret\<close>, \<open>slp_vm_eval_inline\<close>, \<open>compile_closure_source\<close>); the standard library, the
  platform layer and the tools; the vendored regular expression engine (the matcher is a field of the host
  record) and line editor; the NaN-boxed build of values.
\<close>

end
